(* ===== verification/Js_Base.thy ===== *)
theory Js_Base
  imports Complex_Main "HOL-Library.Sublist"
begin

text \<open>
  Prelude: the parts of the JavaScript language and of its standard library that the program
  uses, shared by every component.

  Text is a \<open>string\<close>: the list of its UTF-8 bytes, so for ASCII text (every literal of the
  modelled code) a character is a code unit.  Numbers are \<open>jsnum\<close> where NaN and the infinities
  can arrive, and exact rationals or integers where the code computes with finite values.
  A value of unknown shape (what \<open>JSON.parse\<close> returns, what a plugin posts) is a \<open>json\<close>.
  A \<open>Map\<close> (insertion-ordered) is an association list with the operations \<open>om_get\<close>,
  \<open>om_set\<close> and \<open>om_delete\<close>; the contract the clients rely on is the locale
  \<open>keyed_store\<close>.
\<close>

named_theorems om_simps "laws of the insertion-ordered map"
named_theorems js_text "evaluation of the string functions"

section \<open>Generic lemmas on lists\<close>

lemma map_filter_id:
  assumes "\<And>x. x \<in> set xs \<Longrightarrow> P x \<Longrightarrow> f x = x"
  shows "map f (filter P xs) = filter P xs"
  using assms by (induction xs) auto

lemma find_Some_in: "find P xs = Some x \<Longrightarrow> x \<in> set xs \<and> P x"
  by (induction xs) (auto split: if_splits)

lemma find_None_all: "find P xs = None \<Longrightarrow> x \<in> set xs \<Longrightarrow> \<not> P x"
  by (induction xs) (auto split: if_splits)

lemma set_map_filter: "set (List.map_filter f xs) = {y. \<exists>x \<in> set xs. f x = Some y}"
  by (induction xs) (auto simp: List.map_filter_simps split: option.split)

lemma map_snd_enumerate: "map (\<lambda>(i, x). f x) (enumerate n xs) = map f xs"
  by (induction xs arbitrary: n) auto

text \<open>Looking an element up by a key that no two elements share.\<close>

lemma find_distinct_key:
  "distinct (map k xs) \<Longrightarrow> x \<in> set xs \<Longrightarrow> find (\<lambda>y. k y = k x) (xs @ ys) = Some x"
  by (induction xs) (auto simp: rev_image_eqI)

lemmas find_key = find_distinct_key [where ys = "[]", unfolded append_Nil2]

lemma sum_list_map_filter_partition:
  fixes f :: "'a \<Rightarrow> nat"
  shows "sum_list (map f xs) = sum_list (map f (filter P xs)) + sum_list (map f (filter (\<lambda>x. \<not> P x) xs))"
  by (induction xs) auto

lemma foldl_max_ge:
  fixes b :: rat
  shows "b \<le> foldl (\<lambda>m x. max m (f x)) b xs"
    and "x \<in> set xs \<Longrightarrow> f x \<le> foldl (\<lambda>m x. max m (f x)) b xs"
proof (induction xs arbitrary: b)
  case (Cons a xs)
  { case 1 show ?case using Cons.IH(1) [of "max b (f a)"] by simp }
  { case 2
    show ?case using Cons.IH(1) [of "max b (f a)"] Cons.IH(2) [of "max b (f a)"] 2 by auto }
qed simp_all

section \<open>Numbers\<close>

datatype jsnum = Fin rat | NaN | PosInf | NegInf

fun is_finite :: "jsnum \<Rightarrow> bool" where
  "is_finite (Fin _) = True"
| "is_finite _ = False"

text \<open>\<open>Math.round\<close>: to the nearest integer, halves up.\<close>

definition js_round :: "rat \<Rightarrow> int" where
  "js_round x = \<lfloor>x + 1 / 2\<rfloor>"

text \<open>\<open>Math.min(max, Math.max(min, v))\<close> on finite numbers.\<close>

definition clamp_to :: "rat \<Rightarrow> rat \<Rightarrow> rat \<Rightarrow> rat" where
  "clamp_to lo hi v = min hi (max lo v)"

lemma clamp_to_range [simp]: "lo \<le> hi \<Longrightarrow> lo \<le> clamp_to lo hi v \<and> clamp_to lo hi v \<le> hi"
  by (auto simp: clamp_to_def)

lemma clamp_to_id [simp]: "lo \<le> v \<Longrightarrow> v \<le> hi \<Longrightarrow> clamp_to lo hi v = v"
  by (auto simp: clamp_to_def)

text \<open>The nullish default \<open>p ?? d\<close>.\<close>

definition or_else :: "'a option \<Rightarrow> 'a \<Rightarrow> 'a" where
  "or_else p d = (case p of None \<Rightarrow> d | Some v \<Rightarrow> v)"

lemma or_else_simps [simp]: "or_else None d = d" "or_else (Some v) d = v"
  by (simp_all add: or_else_def)

section \<open>Unknown values\<close>

datatype json =
    JNull
  | JBool bool
  | JNum jsnum
  | JStr string
  | JArr "json list"
  | JObj "(string \<times> json) list"

text \<open>
  Property access \<open>v.k\<close> where \<open>v\<close> is an object; \<open>None\<close> is \<open>undefined\<close>.  The
  names the code reads are not properties of numbers, strings, booleans or arrays, so reading
  one there gives \<open>undefined\<close> as well; on \<open>null\<close> the code guards the access.
\<close>

fun json_get :: "string \<Rightarrow> json \<Rightarrow> json option" where
  "json_get k (JObj kvs) = map_of kvs k"
| "json_get k _ = None"

text \<open>\<open>v && typeof v === "object"\<close>: objects and arrays, not \<open>null\<close>.\<close>

fun is_object :: "json \<Rightarrow> bool" where
  "is_object (JObj _) = True"
| "is_object (JArr _) = True"
| "is_object _ = False"

fun json_truthy :: "json \<Rightarrow> bool" where
  "json_truthy JNull = False"
| "json_truthy (JBool b) = b"
| "json_truthy (JNum (Fin q)) = (q \<noteq> 0)"
| "json_truthy (JNum NaN) = False"
| "json_truthy (JNum _) = True"
| "json_truthy (JStr s) = (s \<noteq> [])"
| "json_truthy _ = True"

section \<open>Strings\<close>

definition js_starts_with :: "string \<Rightarrow> string \<Rightarrow> bool" where
  "js_starts_with s p \<longleftrightarrow> take (length p) s = p"

lemma js_starts_with_append [simp]: "js_starts_with (p @ s) p"
  by (simp add: js_starts_with_def)

lemma js_starts_with_iff: "js_starts_with s p \<longleftrightarrow> (\<exists>t. s = p @ t)"
  by (auto simp: js_starts_with_def) (metis append_take_drop_id)

lemma js_starts_with_drop: "js_starts_with s p \<Longrightarrow> p @ drop (length p) s = s"
  unfolding js_starts_with_def by (metis append_take_drop_id)

definition js_ends_with :: "string \<Rightarrow> string \<Rightarrow> bool" where
  "js_ends_with s p \<longleftrightarrow> js_starts_with (rev s) (rev p)"

fun js_includes :: "string \<Rightarrow> string \<Rightarrow> bool" where
  "js_includes [] p = (p = [])"
| "js_includes (c # s) p = (js_starts_with (c # s) p \<or> js_includes s p)"

text \<open>\<open>toLowerCase\<close> on ASCII letters; other bytes are left.\<close>

definition is_upper :: "char \<Rightarrow> bool" where
  "is_upper c \<longleftrightarrow> (let n = (of_char c :: nat) in 65 \<le> n \<and> n \<le> 90)"

definition lower_char :: "char \<Rightarrow> char" where
  "lower_char c = (if is_upper c then char_of ((of_char c :: nat) + 32) else c)"

definition js_lower :: "string \<Rightarrow> string" where
  "js_lower s = map lower_char s"

lemma lower_char_idem [simp]: "lower_char (lower_char c) = lower_char c"
proof (cases "is_upper c")
  case True
  then have n: "65 \<le> (of_char c :: nat)" "(of_char c :: nat) \<le> 90"
    by (auto simp: is_upper_def Let_def)
  then have "(of_char (char_of ((of_char c :: nat) + 32) :: char) :: nat) = of_char c + 32"
    by (simp add: of_char_of)
  with n have "\<not> is_upper (char_of ((of_char c :: nat) + 32))"
    by (simp add: is_upper_def Let_def)
  with True show ?thesis by (simp add: lower_char_def)
qed (simp add: lower_char_def)

lemma js_lower_idem [simp]: "js_lower (js_lower s) = js_lower s"
  by (simp add: js_lower_def)

lemma js_lower_append [simp]: "js_lower (s @ t) = js_lower s @ js_lower t"
  by (simp add: js_lower_def)

text \<open>
  The white space \<open>trim\<close> removes, as UTF-8 byte sequences: tab, line feed, vertical tab, form
  feed, carriage return, space, U+00A0, U+1680, U+2000 to U+200A, U+2028, U+2029, U+202F,
  U+205F, U+3000 and U+FEFF.
\<close>

definition white_space :: "string list" where
  "white_space =
     [[CHR 0x09], [CHR 0x0A], [CHR 0x0B], [CHR 0x0C], [CHR 0x0D], [CHR 0x20],
      [CHR 0xC2, CHR 0xA0], [CHR 0xE1, CHR 0x9A, CHR 0x80],
      [CHR 0xE2, CHR 0x80, CHR 0x80], [CHR 0xE2, CHR 0x80, CHR 0x81], [CHR 0xE2, CHR 0x80, CHR 0x82],
      [CHR 0xE2, CHR 0x80, CHR 0x83], [CHR 0xE2, CHR 0x80, CHR 0x84], [CHR 0xE2, CHR 0x80, CHR 0x85],
      [CHR 0xE2, CHR 0x80, CHR 0x86], [CHR 0xE2, CHR 0x80, CHR 0x87], [CHR 0xE2, CHR 0x80, CHR 0x88],
      [CHR 0xE2, CHR 0x80, CHR 0x89], [CHR 0xE2, CHR 0x80, CHR 0x8A], [CHR 0xE2, CHR 0x80, CHR 0xA8],
      [CHR 0xE2, CHR 0x80, CHR 0xA9], [CHR 0xE2, CHR 0x80, CHR 0xAF], [CHR 0xE2, CHR 0x81, CHR 0x9F],
      [CHR 0xE3, CHR 0x80, CHR 0x80], [CHR 0xEF, CHR 0xBB, CHR 0xBF]]"

lemma white_space_nonempty: "w \<in> set white_space \<Longrightarrow> w \<noteq> []"
  by (auto simp: white_space_def)

text \<open>Stripping one family of prefixes as long as one matches.\<close>

function strip_prefixes :: "string list \<Rightarrow> string \<Rightarrow> string" where
  "strip_prefixes ws s =
     (case find (\<lambda>w. w \<noteq> [] \<and> js_starts_with s w) ws of
        None \<Rightarrow> s
      | Some w \<Rightarrow> strip_prefixes ws (drop (length w) s))"
  by pat_completeness auto
termination
proof (relation "measure (\<lambda>(ws, s). length s)")
  fix ws s w
  assume "find (\<lambda>w. w \<noteq> [] \<and> js_starts_with s w) ws = Some w"
  then have "w \<noteq> []" and "js_starts_with s w"
    by (auto dest: find_Some_in)
  then show "((ws, drop (length w) s), ws, s) \<in> measure (\<lambda>(ws, s). length s)"
    by (cases w; cases s) (auto simp: js_starts_with_def)
qed simp

declare strip_prefixes.simps [simp del]

definition js_trim :: "string \<Rightarrow> string" where
  "js_trim s = rev (strip_prefixes (map rev white_space) (rev (strip_prefixes white_space s)))"

lemma strip_prefixes_suffix: "\<exists>p. s = p @ strip_prefixes ws s"
proof (induction ws s rule: strip_prefixes.induct)
  case (1 ws s)
  show ?case
  proof (cases "find (\<lambda>w. w \<noteq> [] \<and> js_starts_with s w) ws")
    case None
    then show ?thesis by (simp add: strip_prefixes.simps [of ws s])
  next
    case (Some w)
    with 1 obtain p where p: "drop (length w) s = p @ strip_prefixes ws (drop (length w) s)" by blast
    have "s = take (length w) s @ p @ strip_prefixes ws s"
      using Some p by (simp add: strip_prefixes.simps [of ws s])
    then show ?thesis by (metis append_assoc)
  qed
qed

lemma strip_prefixes_done: "w \<in> set ws \<Longrightarrow> w \<noteq> [] \<Longrightarrow> \<not> js_starts_with (strip_prefixes ws s) w"
proof (induction ws s rule: strip_prefixes.induct)
  case (1 ws s)
  show ?case
  proof (cases "find (\<lambda>w. w \<noteq> [] \<and> js_starts_with s w) ws")
    case None
    with 1(2,3) show ?thesis
      by (auto simp: strip_prefixes.simps [of ws s] dest: find_None_all)
  next
    case (Some v)
    with 1 show ?thesis by (simp add: strip_prefixes.simps [of ws s])
  qed
qed

lemma strip_prefixes_id:
  "(\<And>w. w \<in> set ws \<Longrightarrow> w \<noteq> [] \<Longrightarrow> \<not> js_starts_with s w) \<Longrightarrow> strip_prefixes ws s = s"
  by (subst strip_prefixes.simps) (auto split: option.splits dest: find_Some_in)

lemma starts_with_prefix_of: "js_starts_with s w \<Longrightarrow> js_starts_with (s @ t) w"
  by (auto simp: js_starts_with_iff)

text \<open>A trimmed text neither starts nor ends with white space, so trimming again changes nothing.\<close>

lemma js_trim_start: "w \<in> set white_space \<Longrightarrow> \<not> js_starts_with (js_trim s) w"
proof
  let ?a = "strip_prefixes white_space s"
  assume w: "w \<in> set white_space" and c: "js_starts_with (js_trim s) w"
  obtain p where "rev ?a = p @ strip_prefixes (map rev white_space) (rev ?a)"
    using strip_prefixes_suffix by blast
  then have "?a = js_trim s @ rev p"
    by (metis js_trim_def rev_append rev_rev_ident)
  with c have "js_starts_with ?a w" by (metis starts_with_prefix_of)
  with w show False using strip_prefixes_done white_space_nonempty by blast
qed

lemma js_trim_end: "w \<in> set white_space \<Longrightarrow> \<not> js_starts_with (rev (js_trim s)) (rev w)"
  using strip_prefixes_done [of "rev w" "map rev white_space"] white_space_nonempty
  by (auto simp: js_trim_def)

lemma js_trim_idem [simp]: "js_trim (js_trim s) = js_trim s"
proof -
  have a: "strip_prefixes white_space (js_trim s) = js_trim s"
    by (rule strip_prefixes_id) (use js_trim_start in blast)
  have b: "strip_prefixes (map rev white_space) (rev (js_trim s)) = rev (js_trim s)"
    by (rule strip_prefixes_id) (use js_trim_end in auto)
  show ?thesis unfolding js_trim_def [of "js_trim s"] a b by simp
qed

lemma js_trim_Nil [simp]: "js_trim [] = []"
proof -
  have "strip_prefixes ws [] = []" for ws
    by (rule strip_prefixes_id) (simp add: js_starts_with_def)
  then show ?thesis by (simp add: js_trim_def)
qed

text \<open>\<open>s.split(c)\<close> for a one-character separator, and \<open>xs.join(sep)\<close>.\<close>

fun js_split :: "char \<Rightarrow> string \<Rightarrow> string list" where
  "js_split c [] = [[]]"
| "js_split c (x # s) =
     (if x = c then [] # js_split c s
      else (case js_split c s of [] \<Rightarrow> [[x]] | w # ws \<Rightarrow> (x # w) # ws))"

fun js_join :: "string \<Rightarrow> string list \<Rightarrow> string" where
  "js_join sep [] = []"
| "js_join sep [w] = w"
| "js_join sep (w # ws) = w @ sep @ js_join sep ws"

lemma js_split_nonempty [simp]: "js_split c s \<noteq> []"
  by (cases "(c, s)" rule: js_split.cases) (auto split: list.splits)

lemma js_join_cons [simp]: "ws \<noteq> [] \<Longrightarrow> js_join sep (w # ws) = w @ sep @ js_join sep ws"
  by (cases ws) auto

lemma js_join_cons_char: "js_join sep ((x # w) # ws) = x # js_join sep (w # ws)"
  by (cases ws) auto

lemma js_join_split [simp]: "js_join [c] (js_split c s) = s"
proof (induction s)
  case (Cons x s)
  then show ?case
    by (auto split: list.splits simp: js_join_cons_char)
qed simp

lemma js_split_no_sep: "w \<in> set (js_split c s) \<Longrightarrow> c \<notin> set w"
  by (induction c s arbitrary: w rule: js_split.induct) (auto split: if_splits list.splits)

lemma js_split_atom: "c \<notin> set w \<Longrightarrow> js_split c w = [w]"
  by (induction w) auto

lemma js_split_append: "c \<notin> set w \<Longrightarrow> js_split c (w @ c # s) = w # js_split c s"
  by (induction w) auto

lemma js_split_join: "ws \<noteq> [] \<Longrightarrow> (\<forall>w \<in> set ws. c \<notin> set w) \<Longrightarrow> js_split c (js_join [c] ws) = ws"
  by (induction "[c]" ws rule: js_join.induct) (auto simp: js_split_atom js_split_append)

text \<open>Decimal printing of a natural number, as \<open>String(n)\<close> does for integers below \<open>10 ^ 21\<close>.\<close>

definition digit_char :: "nat \<Rightarrow> char" where
  "digit_char d = char_of (48 + d)"

fun nat_str :: "nat \<Rightarrow> string" where
  "nat_str n = (if n < 10 then [digit_char n] else nat_str (n div 10) @ [digit_char (n mod 10)])"

declare nat_str.simps [simp del]

definition int_str :: "int \<Rightarrow> string" where
  "int_str n = (if n < 0 then CHR ''-'' # nat_str (nat (- n)) else nat_str (nat n))"

definition is_digit :: "char \<Rightarrow> bool" where
  "is_digit c \<longleftrightarrow> (let n = (of_char c :: nat) in 48 \<le> n \<and> n \<le> 57)"

definition digit_val :: "char \<Rightarrow> nat" where
  "digit_val c = (of_char c :: nat) - 48"

definition digits_val :: "string \<Rightarrow> nat" where
  "digits_val ds = foldl (\<lambda>n c. 10 * n + digit_val c) 0 ds"

lemma digit_char_val [simp]: "d < 10 \<Longrightarrow> digit_val (digit_char d) = d"
  by (simp add: digit_val_def digit_char_def of_char_of)

lemma digit_char_digit [simp]: "d < 10 \<Longrightarrow> is_digit (digit_char d)"
  by (simp add: is_digit_def digit_char_def of_char_of Let_def)

lemma nat_str_nonempty [simp]: "nat_str n \<noteq> []"
  by (subst nat_str.simps) simp

lemma nat_str_digits: "\<forall>c \<in> set (nat_str n). is_digit c"
proof (induction n rule: nat_str.induct)
  case (1 n)
  then show ?case by (subst nat_str.simps) (auto simp: Ball_def)
qed

lemma digits_val_nat_str [simp]: "digits_val (nat_str n) = n"
proof (induction n rule: nat_str.induct)
  case (1 n)
  show ?case
  proof (cases "n < 10")
    case True
    then show ?thesis by (subst nat_str.simps) (simp add: digits_val_def)
  next
    case False
    with 1 have "digits_val (nat_str (n div 10)) = n div 10" by simp
    with False show ?thesis
      by (subst nat_str.simps) (simp add: digits_val_def)
  qed
qed

text \<open>
  \<open>parseInt(s, 10)\<close>: leading white space, a sign, then the longest run of digits;
  \<open>None\<close> is \<open>NaN\<close>.
\<close>

definition js_parse_int :: "string \<Rightarrow> int option" where
  "js_parse_int s =
     (let t = strip_prefixes white_space s;
          neg = (t \<noteq> [] \<and> hd t = CHR ''-'');
          u = (if t \<noteq> [] \<and> (hd t = CHR ''-'' \<or> hd t = CHR ''+'') then tl t else t);
          ds = takeWhile is_digit u
      in if ds = [] then None
         else Some (if neg then - int (digits_val ds) else int (digits_val ds)))"

section \<open>Insertion-ordered maps\<close>

text \<open>
  \<open>om_set\<close> keeps the place of a key that is already there and appends a new one, as
  \<open>Map.prototype.set\<close> does.
\<close>

type_synonym ('k, 'v) omap = "('k \<times> 'v) list"

definition om_get :: "('k, 'v) omap \<Rightarrow> 'k \<Rightarrow> 'v option" where
  "om_get m k = map_of m k"

fun om_set :: "('k, 'v) omap \<Rightarrow> 'k \<Rightarrow> 'v \<Rightarrow> ('k, 'v) omap" where
  "om_set [] k v = [(k, v)]"
| "om_set ((k', v') # m) k v = (if k' = k then (k, v) # m else (k', v') # om_set m k v)"

definition om_delete :: "('k, 'v) omap \<Rightarrow> 'k \<Rightarrow> ('k, 'v) omap" where
  "om_delete m k = filter (\<lambda>(k', _). k' \<noteq> k) m"

abbreviation om_keys :: "('k, 'v) omap \<Rightarrow> 'k list" where
  "om_keys m \<equiv> map fst m"

lemma om_get_set [om_simps]: "om_get (om_set m k v) k' = (if k' = k then Some v else om_get m k')"
  by (induction m) (auto simp: om_get_def)

lemma om_get_delete [om_simps]: "om_get (om_delete m k) k' = (if k' = k then None else om_get m k')"
  by (induction m) (auto simp: om_get_def om_delete_def)

lemma om_get_empty [om_simps]: "om_get [] k = None"
  by (simp add: om_get_def)

lemma om_keys_set: "om_keys (om_set m k v) = (if k \<in> set (om_keys m) then om_keys m else om_keys m @ [k])"
  by (induction m) (auto simp del: set_map simp: rev_image_eqI)

lemma om_keys_delete: "om_keys (om_delete m k) = filter (\<lambda>k'. k' \<noteq> k) (om_keys m)"
  by (induction m) (auto simp: om_delete_def)

lemma distinct_om_set: "distinct (om_keys m) \<Longrightarrow> distinct (om_keys (om_set m k v))"
  by (auto simp: om_keys_set)

lemma distinct_om_delete: "distinct (om_keys m) \<Longrightarrow> distinct (om_keys (om_delete m k))"
  by (simp add: om_keys_delete)

lemma om_get_None_iff: "om_get m k = None \<longleftrightarrow> k \<notin> set (om_keys m)"
  by (auto simp: om_get_def map_of_eq_None_iff)

text \<open>The loop \<open>counts.set(k, (counts.get(k) ?? 0) + 1)\<close> over a list of keys.\<close>

definition om_tally :: "'k list \<Rightarrow> ('k, nat) omap" where
  "om_tally ks = foldl (\<lambda>m k. om_set m k (or_else (om_get m k) 0 + 1)) [] ks"

lemma om_tally_fold:
  "or_else (om_get (foldl (\<lambda>m k. om_set m k (or_else (om_get m k) 0 + 1)) m ks) k) 0
     = or_else (om_get m k) (0::nat) + count_list ks k"
  by (induction ks arbitrary: m) (auto simp: om_simps)

lemma om_tally_count [om_simps]: "or_else (om_get (om_tally ks) k) 0 = count_list ks k"
  unfolding om_tally_def om_tally_fold by (simp add: om_simps)

lemma set_om_tally_fold:
  "set (om_keys (foldl (\<lambda>m k. om_set m k (or_else (om_get m k) (0::nat) + 1)) m ks)) = set (om_keys m) \<union> set ks"
  by (induction ks arbitrary: m) (auto simp: om_keys_set simp del: set_map)

lemma set_om_keys_tally: "set (om_keys (om_tally ks)) = set ks"
  unfolding om_tally_def set_om_tally_fold by simp

lemma distinct_om_tally: "distinct (om_keys (om_tally ks))"
proof -
  have "distinct (om_keys m) \<Longrightarrow>
      distinct (om_keys (foldl (\<lambda>m k. om_set m k (or_else (om_get m k) (0::nat) + 1)) m ks))" for m
    by (induction ks arbitrary: m) (simp_all add: distinct_om_set)
  from this [of "[]"] show ?thesis unfolding om_tally_def by simp
qed

text \<open>
  What the clients of a \<open>Map\<close> (or of an object used as a dictionary) rely on.  The
  components prove their lemmas from these laws; the interpretation gives them on \<open>omap\<close>.
\<close>

locale keyed_store =
  fixes emp :: "'m"
    and look :: "'m \<Rightarrow> 'k \<Rightarrow> 'v option"
    and put :: "'m \<Rightarrow> 'k \<Rightarrow> 'v \<Rightarrow> 'm"
    and del :: "'m \<Rightarrow> 'k \<Rightarrow> 'm"
  assumes look_emp: "look emp k = None"
    and look_put: "look (put m k v) k' = (if k' = k then Some v else look m k')"
    and look_del: "look (del m k) k' = (if k' = k then None else look m k')"
begin

lemma put_put: "look (put (put m k v) k w) = look (put m k w)"
  by (rule ext) (simp add: look_put)

lemma put_commute: "k \<noteq> l \<Longrightarrow> look (put (put m k v) l w) = look (put (put m l w) k v)"
  by (rule ext) (auto simp: look_put)

lemma del_put: "look m k = None \<Longrightarrow> look (del (put m k v) k) = look m"
  by (rule ext) (auto simp: look_put look_del)

lemma put_self: "look m k = Some v \<Longrightarrow> look (put m k v) = look m"
  by (rule ext) (auto simp: look_put)

lemma foldl_put_other:
  "k \<notin> key ` set xs \<Longrightarrow> look (foldl (\<lambda>m x. put m (key x) (val x)) m xs) k = look m k"
  by (induction xs arbitrary: m) (auto simp: look_put)

lemma foldl_put_last:
  "look (foldl (\<lambda>m x. put m (key x) (val x)) m xs) k =
     (case find (\<lambda>x. key x = k) (rev xs) of None \<Rightarrow> look m k | Some x \<Rightarrow> Some (val x))"
proof (induction xs rule: rev_induct)
  case (snoc x xs)
  then show ?case by (auto simp: look_put)
qed simp

end

interpretation om: keyed_store "[]" om_get om_set om_delete
  by unfold_locales (simp_all add: om_simps)

end
