(* ===== verification/App_Types.thy ===== *)
theory App_Types
  imports Js_Base
begin

text \<open>
  The data the window works on, from \<open>frontend/src/types.ts\<close>: interfaces as records in the
  source's field order, unions of literals as datatypes.  A field written \<open>f?: t\<close> or
  \<open>f: t | null\<close> is an \<open>option\<close>; \<open>Record<string, t>\<close> is a map.  Fields keep the source's names,
  with a prefix where two interfaces share one.  \<open>pending_settings\<close> is the settings value the
  window shows before the first load (\<open>PENDING_SETTINGS\<close> of \<open>frontend/src/App.tsx\<close>).
\<close>

section \<open>Profiles and subscriptions\<close>

datatype apps_mode = BypassApps | ProxyApps

record subscription_info =
  si_upload :: int
  si_download :: int
  si_total :: int
  si_expire :: int
  si_title :: "string option"
  si_support_url :: "string option"
  si_web_page_url :: "string option"
  si_announce :: "string option"
  si_announce_url :: "string option"
  si_community_url :: "string option"
  si_icon_url :: "string option"
  si_banner_image :: "string option"
  si_banner_color :: "string option"
  si_update_hours :: "rat option"
  si_apps_mode :: "apps_mode option"
  si_apps :: "string list option"
  si_updated_at :: int

record profile =
  p_id :: string
  p_name :: string
  p_server :: string
  p_protocol :: string
  p_config_link :: string
  p_source_domain :: "string option"
  p_subscription_url :: "string option"
  p_total_up :: "int option"
  p_total_down :: "int option"
  p_favorite :: "bool option"
  p_group :: "string option"
  p_subscription_info :: "subscription_info option"

datatype proxy_mode = Manual | Auto

datatype config_source =
    SubscriptionSource string string string string nat "subscription_info option"
    \<comment> \<open>key, domain, label, detail, count, info\<close>
  | ProfileSource string string string string
    \<comment> \<open>key, label, detail, profileId; its domain is "local"\<close>

record refresh_summary =
  rs_refreshed :: nat
  rs_failed :: nat
  rs_skipped :: nat

record subscription_choice =
  sc_answered :: "string option"
  sc_refresh_hours :: "rat option"
  sc_apps_rule :: "string option"

section \<open>Connection\<close>

datatype connection_status = Idle | Connecting | Connected | ErrorStatus

record connection_state =
  cs_status :: connection_status
  cs_profile_id :: "string option"
  cs_profile :: "string option"
  cs_error :: "string option"
  cs_reason :: "string option"
  cs_since :: "int option"
  cs_reconnecting :: "bool option"
  cs_attempt :: "int option"
  cs_blocked :: "bool option"

record traffic_sample =
  ts_up :: int
  ts_down :: int
  ts_up_rate :: rat
  ts_down_rate :: rat
  ts_total_up :: int
  ts_total_down :: int

record ip_info =
  ip_address :: string
  ip_region :: string

record profile_ping =
  pp_id :: string
  pp_ping_ms :: "jsnum option"

record live_connection =
  lc_id :: string
  lc_network :: string
  lc_protocol :: "string option"
  lc_host :: "string option"
  lc_destination :: string
  lc_app :: "string option"
  lc_app_path :: "string option"
  lc_rule :: string
  lc_rule_text :: "string option"
  lc_direct :: bool
  lc_server :: "string option"
  lc_upload :: int
  lc_download :: int
  lc_started :: int

section \<open>Routing\<close>

datatype routing_source =
    Apps | Domains | Ip | DomainRegex | Port | Protocol | Geosite | Geoip | Network | Ruleset

datatype routing_kind = Single routing_source | Logical

datatype routing_action = Proxy | Direct | Block | Drop

datatype logical_mode = AndMode | OrMode

record routing_condition =
  rc_kind :: routing_source
  rc_values :: "string list"
  rc_invert :: "bool option"

text \<open>
  A rule whose wire was cut has \<open>action: ""\<close>, which the code only tests for truth: \<open>None\<close>.
\<close>

record routing_rule =
  rr_id :: string
  rr_kind :: routing_kind
  rr_values :: "string list"
  rr_action :: "routing_action option"
  rr_invert :: "bool option"
  rr_server :: "string option"
  rr_dns :: "string option"
  rr_mode :: "logical_mode option"
  rr_conditions :: "routing_condition list option"

record canvas_point =
  cp_x :: rat
  cp_y :: rat
  cp_width :: "rat option"
  cp_height :: "rat option"

record routing_comment =
  cm_id :: string
  cm_text :: string

record routing_graph =
  rg_rules :: "routing_rule list"
  rg_default_action :: routing_action
  rg_default_server :: "string option"
  rg_layout :: "string \<rightharpoonup> canvas_point"
  rg_comments :: "routing_comment list"
  rg_servers :: "string list option"

record routing_setup =
  su_id :: string
  su_name :: string
  su_graph :: routing_graph

datatype geo_kind = GeoipFile | GeositeFile

record geo_file =
  gf_from_url :: bool
  gf_name :: string
  gf_url :: "string option"
  gf_codes :: nat
  gf_updated_at :: int

record rule_list_status =
  rl_url :: string
  rl_native :: bool
  rl_entries :: nat
  rl_updated_at :: int
  rl_error :: "string option"

record schedule_entry =
  se_id :: string
  se_setup :: string
  se_days :: "nat list"
  se_start :: string
  se_end :: string

section \<open>Settings\<close>

datatype core_name = Builtin | SingBox | Mihomo | Xray

datatype close_action = Tray | Hide | Quit

datatype routing_mode = ModeAll | ModeApps | ModeDomains | ModeAppsDomains

record saved_selection =
  ss_domain :: string
  ss_mode :: proxy_mode
  ss_profile_id :: string
  ss_profile_name :: string

record app_settings =
  st_mtu :: int
  st_dns :: string
  tls_fragment :: bool
  tls_fragment_size :: string
  tls_fragment_sleep :: string
  tls_mixed_sni_case :: bool
  tls_padding :: bool
  sni_spoof_enabled :: bool
  sni_spoof_value :: string
  ip_check_enabled :: "bool option"
  logging_enabled :: "bool option"
  auth_server :: "string option"
  auth_token :: "string option"
  skip_auth :: bool
  pending_sync_upload :: bool
  subscription_user_agent :: string
  hwid_enabled :: "bool option"
  st_hwid :: string
  device_os :: string
  device_os_version :: string
  device_model :: string
  routing_rules :: "routing_rule list"
  default_action :: routing_action
  routing_layout :: "string \<rightharpoonup> canvas_point"
  routing_comments :: "routing_comment list"
  default_server :: string
  routing_servers :: "string list option"
  routing_setups :: "routing_setup list option"
  active_routing_setup :: string
  geo_files :: "geo_kind \<rightharpoonup> geo_file"
  st_routing_mode :: routing_mode
  routing_apps :: "string list"
  routing_domains :: "string list"
  proxy_chain_enabled :: bool
  proxy_chain :: "string list"
  proxy_chain_exit :: string
  last_selection :: "saved_selection option"
  launch_at_startup :: bool
  auto_connect :: bool
  auto_reconnect :: "bool option"
  kill_switch :: bool
  fastest_server :: bool
  server_fallback :: "bool option"
  notifications :: "bool option"
  clipboard_offer :: "bool option"
  update_check :: "bool option"
  global_shortcut :: string
  st_core :: core_name
  routing_schedule :: "schedule_entry list"
  schedule_fallback :: string
  wifi_auto_connect :: bool
  wifi_trusted_disconnect :: bool
  trusted_networks :: "string list"
  server_health :: "bool option"
  app_stats :: "bool option"
  subscription_auto_update :: "bool option"
  subscription_choices :: "(string \<rightharpoonup> subscription_choice) option"
  st_close_action :: close_action

definition pending_settings :: app_settings where
  "pending_settings = \<lparr>
     st_mtu = 9000, st_dns = ''1.1.1.1'',
     tls_fragment = False, tls_fragment_size = ''100-200'', tls_fragment_sleep = ''10-20'',
     tls_mixed_sni_case = False, tls_padding = False,
     sni_spoof_enabled = False, sni_spoof_value = [],
     ip_check_enabled = Some True, logging_enabled = None,
     auth_server = None, auth_token = None, skip_auth = False, pending_sync_upload = False,
     subscription_user_agent = ''NuggetVPN/1.0'', hwid_enabled = Some True, st_hwid = [],
     device_os = [], device_os_version = [], device_model = [],
     routing_rules = [], default_action = Proxy, routing_layout = Map.empty,
     routing_comments = [], default_server = [], routing_servers = Some [],
     routing_setups = Some [], active_routing_setup = [], geo_files = Map.empty,
     st_routing_mode = ModeAll, routing_apps = [], routing_domains = [],
     proxy_chain_enabled = False, proxy_chain = [], proxy_chain_exit = [],
     last_selection = None, launch_at_startup = False, auto_connect = False,
     auto_reconnect = None, kill_switch = False, fastest_server = False,
     server_fallback = None, notifications = None, clipboard_offer = None, update_check = None,
     global_shortcut = [], st_core = Builtin, routing_schedule = [], schedule_fallback = [],
     wifi_auto_connect = False, wifi_trusted_disconnect = False, trusted_networks = [],
     server_health = None, app_stats = None, subscription_auto_update = None,
     subscription_choices = None, st_close_action = Tray\<rparr>"

section \<open>Plugins, statistics, updates\<close>

datatype plugin_permission =
    StatePerm | ConnectionsPerm | ProfilesPerm | ControlPerm | ImportPerm | RoutingPerm | NotificationsPerm

record plugin_theme =
  pt_id :: string
  pt_name :: string
  pt_light :: bool
  pt_background :: json
  pt_accent :: json
  pt_image :: "json option"

record plugin_font =
  pf_id :: string
  pf_name :: string
  pf_url :: string

record plugin_routing =
  pr_name :: string
  pr_description :: "string option"
  pr_file :: string

record plugin_info =
  pl_id :: string
  pl_name :: string
  pl_version :: string
  pl_author :: "string option"
  pl_description :: "string option"
  pl_homepage :: "string option"
  pl_icon :: "string option"
  pl_enabled :: bool
  pl_permissions :: "plugin_permission list"
  pl_network :: "string list"
  pl_themes :: "plugin_theme list"
  pl_fonts :: "plugin_font list"
  pl_routing :: "plugin_routing list"
  pl_panel :: "string option"
  pl_panel_title :: "string option"
  pl_background :: "string option"

record update_info =
  up_current :: string
  up_latest :: string
  up_available :: bool
  up_notes :: string
  up_page_url :: string
  up_asset :: "string option"
  up_asset_size :: "int option"
  up_installable :: bool
  up_checked_at :: int

record program_usage =
  pu_program :: string
  pu_up :: nat
  pu_down :: nat

datatype health_kind = PingSample | ConnectSample | DropSample

record health_sample =
  hs_at :: int
  hs_kind :: health_kind
  hs_ms :: rat

record server_health_info =
  sh_uptime_24h :: rat
  sh_uptime_7d :: rat
  sh_latency_ms :: rat
  sh_checks :: nat
  sh_failing :: bool
  sh_recent :: "health_sample list"

end
