(* ===== verification/Routing_Graph.thy ===== *)
theory Routing_Graph
  imports App_Types
begin

text \<open>
  The routing canvas (\<open>frontend/src/components/views/RoutingView.tsx\<close>): the graph drawn from
  the settings (nodes, edges, server destinations, positions) and the handlers that edit it.
  A handler reads the settings of the last render and hands \<open>onChange\<close> a
  \<open>Partial<AppSettings>\<close>; here it is a function from the settings to a \<open>graph_patch\<close>, or to
  \<open>None\<close> where the code returns without calling \<open>onChange\<close>.
\<close>

section \<open>Patches\<close>

record graph_patch =
  gp_rules :: "routing_rule list option"
  gp_layout :: "(string \<rightharpoonup> canvas_point) option"
  gp_comments :: "routing_comment list option"
  gp_default_action :: "routing_action option"
  gp_default_server :: "string option"
  gp_servers :: "string list option option"
  gp_geo_files :: "(geo_kind \<rightharpoonup> geo_file) option"

definition no_patch :: graph_patch where
  "no_patch = \<lparr>gp_rules = None, gp_layout = None, gp_comments = None, gp_default_action = None,
     gp_default_server = None, gp_servers = None, gp_geo_files = None\<rparr>"

text \<open>\<open>{ ...settings, ...patch }\<close>.\<close>

definition apply_patch :: "app_settings \<Rightarrow> graph_patch \<Rightarrow> app_settings" where
  "apply_patch s p = s\<lparr>
     routing_rules := or_else (gp_rules p) (routing_rules s),
     routing_layout := or_else (gp_layout p) (routing_layout s),
     routing_comments := or_else (gp_comments p) (routing_comments s),
     default_action := or_else (gp_default_action p) (default_action s),
     default_server := or_else (gp_default_server p) (default_server s),
     routing_servers := or_else (gp_servers p) (routing_servers s),
     geo_files := or_else (gp_geo_files p) (geo_files s)\<rparr>"

definition apply_opt :: "app_settings \<Rightarrow> graph_patch option \<Rightarrow> app_settings" where
  "apply_opt s p = (case p of None \<Rightarrow> s | Some q \<Rightarrow> apply_patch s q)"

lemma apply_opt_simps [simp]: "apply_opt s None = s" "apply_opt s (Some q) = apply_patch s q"
  by (simp_all add: apply_opt_def)

lemma apply_patch_fields [simp]:
  "routing_rules (apply_patch s p) = or_else (gp_rules p) (routing_rules s)"
  "routing_layout (apply_patch s p) = or_else (gp_layout p) (routing_layout s)"
  "routing_comments (apply_patch s p) = or_else (gp_comments p) (routing_comments s)"
  "default_action (apply_patch s p) = or_else (gp_default_action p) (default_action s)"
  "default_server (apply_patch s p) = or_else (gp_default_server p) (default_server s)"
  "routing_servers (apply_patch s p) = or_else (gp_servers p) (routing_servers s)"
  "geo_files (apply_patch s p) = or_else (gp_geo_files p) (geo_files s)"
  "active_routing_setup (apply_patch s p) = active_routing_setup s"
  by (simp_all add: apply_patch_def)

section \<open>Node ids\<close>

fun action_slug :: "routing_action \<Rightarrow> string" where
  "action_slug Proxy = ''proxy''"
| "action_slug Direct = ''direct''"
| "action_slug Block = ''block''"
| "action_slug Drop = ''drop''"

fun source_slug :: "routing_source \<Rightarrow> string" where
  "source_slug Apps = ''apps''"
| "source_slug Domains = ''domains''"
| "source_slug Ip = ''ip''"
| "source_slug DomainRegex = ''domain_regex''"
| "source_slug Port = ''port''"
| "source_slug Protocol = ''protocol''"
| "source_slug Geosite = ''geosite''"
| "source_slug Geoip = ''geoip''"
| "source_slug Network = ''network''"
| "source_slug Ruleset = ''ruleset''"

fun kind_slug :: "routing_kind \<Rightarrow> string" where
  "kind_slug (Single k) = source_slug k"
| "kind_slug Logical = ''logical''"

definition ACTIONS :: "routing_action list" where
  "ACTIONS = [Proxy, Direct, Block, Drop]"

definition HIDEABLE_ACTIONS :: "routing_action list" where
  "HIDEABLE_ACTIONS = [Block, Drop]"

definition DEFAULT_NODE :: string where
  "DEFAULT_NODE = ''default''"

definition ACTION_PREFIX :: string where
  "ACTION_PREFIX = ''action:''"

definition SERVER_PREFIX :: string where
  "SERVER_PREFIX = ''server:''"

definition action_node_id :: "routing_action \<Rightarrow> string" where
  "action_node_id a = ACTION_PREFIX @ action_slug a"

definition server_node_id :: "string \<Rightarrow> string" where
  "server_node_id pid = SERVER_PREFIX @ pid"

text \<open>A \<open>string | undefined\<close> tested for truth.\<close>

definition truthy :: "string option \<Rightarrow> bool" where
  "truthy s \<longleftrightarrow> s \<noteq> None \<and> s \<noteq> Some []"

definition target_of :: "routing_action \<Rightarrow> string option \<Rightarrow> string" where
  "target_of a server = (if a = Proxy \<and> truthy server then server_node_id (the server) else action_node_id a)"

lemma ACTIONS_all [simp]: "a \<in> set ACTIONS"
  by (cases a) (simp_all add: ACTIONS_def)

lemma action_slug_inj [simp]: "action_slug a = action_slug b \<longleftrightarrow> a = b"
  by (cases a; cases b) simp_all

lemma action_node_id_inj [simp]: "action_node_id a = action_node_id b \<longleftrightarrow> a = b"
  by (simp add: action_node_id_def)

lemma server_node_id_inj [simp]: "server_node_id a = server_node_id b \<longleftrightarrow> a = b"
  by (simp add: server_node_id_def)

lemma node_ids_disjoint [simp]:
  "server_node_id p \<noteq> action_node_id a" "action_node_id a \<noteq> server_node_id p"
  "server_node_id p \<noteq> DEFAULT_NODE" "DEFAULT_NODE \<noteq> server_node_id p"
  "action_node_id a \<noteq> DEFAULT_NODE" "DEFAULT_NODE \<noteq> action_node_id a"
  by (simp_all add: server_node_id_def action_node_id_def DEFAULT_NODE_def ACTION_PREFIX_def
      SERVER_PREFIX_def)

lemma truthy_simps [simp]: "\<not> truthy None" "\<not> truthy (Some [])" "truthy (Some s) \<longleftrightarrow> s \<noteq> []"
  by (simp_all add: truthy_def)

section \<open>Positions\<close>

definition COLUMN_GAP :: rat where "COLUMN_GAP = 520"
definition SOURCE_GAP :: rat where "SOURCE_GAP = 380"
definition ACTION_GAP :: rat where "ACTION_GAP = 200"
definition NOTE_COLUMN_X :: rat where "NOTE_COLUMN_X = -340"
definition NOTE_GAP :: rat where "NOTE_GAP = 180"

definition point :: "rat \<Rightarrow> rat \<Rightarrow> canvas_point" where
  "point x y = \<lparr>cp_x = x, cp_y = y, cp_width = None, cp_height = None\<rparr>"

lemma point_simps [simp]: "cp_x (point x y) = x" "cp_y (point x y) = y"
  by (simp_all add: point_def)

text \<open>\<open>Math.max(0, ACTIONS.indexOf(...))\<close> of the text after \<open>"action:"\<close>.\<close>

fun index_of :: "'a \<Rightarrow> 'a list \<Rightarrow> nat option" where
  "index_of x [] = None"
| "index_of x (y # ys) = (if x = y then Some 0 else map_option Suc (index_of x ys))"

definition fallback_position :: "string \<Rightarrow> nat \<Rightarrow> canvas_point" where
  "fallback_position nid index =
     (if nid = DEFAULT_NODE then point 0 0
      else if js_starts_with nid ACTION_PREFIX then
        (let slot = or_else (index_of (drop (length ACTION_PREFIX) nid) (map action_slug ACTIONS)) 0
         in point COLUMN_GAP (of_nat slot * ACTION_GAP))
      else if js_starts_with nid SERVER_PREFIX then
        point COLUMN_GAP (of_nat (length ACTIONS + index) * ACTION_GAP)
      else point 0 (200 + of_nat index * SOURCE_GAP))"

definition position_of :: "(string \<rightharpoonup> canvas_point) \<Rightarrow> string \<Rightarrow> nat \<Rightarrow> canvas_point" where
  "position_of layout nid index = or_else (layout nid) (fallback_position nid index)"

definition next_note_position :: "routing_comment list \<Rightarrow> (string \<rightharpoonup> canvas_point) \<Rightarrow> canvas_point" where
  "next_note_position comments layout =
     point NOTE_COLUMN_X
       (foldl (\<lambda>bottom c. max bottom (or_else (map_option cp_y (layout (cm_id c))) 0 + NOTE_GAP)) 0 comments)"

definition next_source_position :: "routing_rule list \<Rightarrow> (string \<rightharpoonup> canvas_point) \<Rightarrow> canvas_point" where
  "next_source_position rules layout =
     (let lowest = foldl (\<lambda>bottom (index, rule). max bottom (cp_y (position_of layout (rr_id rule) index)))
                     (cp_y (fallback_position DEFAULT_NODE 0)) (enumerate 0 rules)
      in point 0 (lowest + SOURCE_GAP))"

section \<open>The graph drawn\<close>

text \<open>The server destinations: those placed, plus any a rule or the catch-all uses.\<close>

definition add_id :: "string list \<Rightarrow> string option \<Rightarrow> string list" where
  "add_id ids nid = (if truthy nid \<and> the nid \<notin> set ids then ids @ [the nid] else ids)"

definition server_ids :: "app_settings \<Rightarrow> string list" where
  "server_ids s =
     (let ids = or_else (routing_servers s) [];
          ids = foldl (\<lambda>ids r. if rr_action r = Some Proxy then add_id ids (rr_server r) else ids) ids (routing_rules s)
      in if default_action s = Proxy then add_id ids (Some (default_server s)) else ids)"

text \<open>\<open>inboundCounts\<close>: how many wires end at each destination.\<close>

definition wire_targets :: "app_settings \<Rightarrow> string list" where
  "wire_targets s =
     map (\<lambda>r. target_of (the (rr_action r)) (rr_server r)) (filter (\<lambda>r. rr_action r \<noteq> None) (routing_rules s))
     @ [target_of (default_action s) (Some (default_server s))]"

definition inbound_counts :: "app_settings \<Rightarrow> (string, nat) omap" where
  "inbound_counts s = om_tally (wire_targets s)"

datatype node_data =
    CatchallData "nat option" routing_action "string option"
    \<comment> \<open>hits, action, destination's name\<close>
  | RuleData routing_rule nat "nat option" \<comment> \<open>the rule, its order, hits\<close>
  | ActionData routing_action nat bool \<comment> \<open>action, inbound, whether it can be hidden\<close>
  | ServerData "string option" "string option" nat \<comment> \<open>name, protocol, inbound\<close>
  | NoteData string

record flow_node =
  fn_id :: string
  fn_x :: rat
  fn_y :: rat
  fn_box :: "(rat \<times> rat) option" \<comment> \<open>width and height, when the node was resized\<close>
  fn_data :: node_data

definition DEFAULT_HITS :: string where
  "DEFAULT_HITS = ''__default''"

definition hits_for :: "(string \<rightharpoonup> nat) option \<Rightarrow> string \<Rightarrow> nat option" where
  "hits_for hits nid = map_option (\<lambda>h. or_else (h nid) 0) hits"

definition non_zero :: "rat option \<Rightarrow> bool" where
  "non_zero v \<longleftrightarrow> v \<noteq> None \<and> v \<noteq> Some 0"

definition saved_box :: "(string \<rightharpoonup> canvas_point) \<Rightarrow> string \<Rightarrow> (rat \<times> rat) option" where
  "saved_box layout nid =
     (case layout nid of
        None \<Rightarrow> None
      | Some p \<Rightarrow> if non_zero (cp_width p) \<and> non_zero (cp_height p)
                  then Some (the (cp_width p), the (cp_height p)) else None)"

definition node_at :: "app_settings \<Rightarrow> string \<Rightarrow> canvas_point \<Rightarrow> node_data \<Rightarrow> flow_node" where
  "node_at s nid p d = \<lparr>fn_id = nid, fn_x = cp_x p, fn_y = cp_y p, fn_box = saved_box (routing_layout s) nid, fn_data = d\<rparr>"

lemma fn_id_node_at [simp]: "fn_id (node_at s nid p d) = nid"
  by (simp add: node_at_def)

definition profile_with :: "profile list \<Rightarrow> string \<Rightarrow> profile option" where
  "profile_with profiles pid = find (\<lambda>p. p_id p = pid) profiles"

definition action_nodes :: "app_settings \<Rightarrow> routing_action list \<Rightarrow> flow_node list" where
  "action_nodes s hidden =
     concat (map (\<lambda>a.
       let inbound = or_else (om_get (inbound_counts s) (action_node_id a)) 0
       in if inbound = 0 \<and> a \<in> set hidden then []
          else [node_at s (action_node_id a) (position_of (routing_layout s) (action_node_id a) 0)
                  (ActionData a inbound (inbound = 0 \<and> a \<in> set HIDEABLE_ACTIONS))]) ACTIONS)"

definition derived_nodes ::
  "app_settings \<Rightarrow> routing_action list \<Rightarrow> profile list \<Rightarrow> (string \<rightharpoonup> nat) option \<Rightarrow> flow_node list" where
  "derived_nodes s hidden profiles hits =
     (let layout = routing_layout s in
      [node_at s DEFAULT_NODE (position_of layout DEFAULT_NODE 0)
         (CatchallData (hits_for hits DEFAULT_HITS) (default_action s)
            (if default_server s \<noteq> [] then map_option p_name (profile_with profiles (default_server s)) else None))]
      @ map (\<lambda>(index, r). node_at s (rr_id r) (position_of layout (rr_id r) index)
               (RuleData r (index + 1) (hits_for hits (rr_id r)))) (enumerate 0 (routing_rules s))
      @ action_nodes s hidden
      @ map (\<lambda>(index, pid). node_at s (server_node_id pid) (position_of layout (server_node_id pid) index)
               (ServerData (map_option p_name (profile_with profiles pid))
                           (map_option p_protocol (profile_with profiles pid))
                           (or_else (om_get (inbound_counts s) (server_node_id pid)) 0)))
            (enumerate 0 (server_ids s))
      @ map (\<lambda>(index, c). node_at s (cm_id c)
               (or_else (layout (cm_id c)) (point NOTE_COLUMN_X (of_nat index * NOTE_GAP)))
               (NoteData (cm_text c))) (enumerate 0 (routing_comments s)))"

record flow_edge =
  fe_id :: string
  fe_source :: string
  fe_target :: string
  fe_animated :: bool
  fe_deletable :: bool \<comment> \<open>\<open>deletable !== false\<close>, set together with \<open>data.deletable\<close>\<close>

definition active_hits :: "(string \<rightharpoonup> nat) option \<Rightarrow> string \<Rightarrow> bool" where
  "active_hits hits nid \<longleftrightarrow> or_else (Option.bind hits (\<lambda>h. h nid)) 0 > 0"

definition rule_edge :: "(string \<rightharpoonup> nat) option \<Rightarrow> routing_rule \<Rightarrow> flow_edge" where
  "rule_edge hits r = \<lparr>fe_id = ''edge:'' @ rr_id r, fe_source = rr_id r,
     fe_target = target_of (the (rr_action r)) (rr_server r),
     fe_animated = active_hits hits (rr_id r), fe_deletable = True\<rparr>"

definition default_edge :: "(string \<rightharpoonup> nat) option \<Rightarrow> app_settings \<Rightarrow> flow_edge" where
  "default_edge hits s = \<lparr>fe_id = ''edge:default'', fe_source = DEFAULT_NODE,
     fe_target = target_of (default_action s) (Some (default_server s)),
     fe_animated = active_hits hits DEFAULT_HITS, fe_deletable = False\<rparr>"

definition derived_edges :: "app_settings \<Rightarrow> (string \<rightharpoonup> nat) option \<Rightarrow> flow_edge list" where
  "derived_edges s hits =
     map (rule_edge hits) (filter (\<lambda>r. rr_action r \<noteq> None) (routing_rules s)) @ [default_edge hits s]"

subsection \<open>Every wire ends on the canvas\<close>

lemma set_add_id: "set (add_id ids nid) = set ids \<union> (if truthy nid then {the nid} else {})"
  by (auto simp: add_id_def)

lemma set_server_ids_fold:
  "set (foldl (\<lambda>ids r. if rr_action r = Some Proxy then add_id ids (rr_server r) else ids) ids rules)
     = set ids \<union> {sid. \<exists>r \<in> set rules. rr_action r = Some Proxy \<and> rr_server r = Some sid \<and> sid \<noteq> []}"
  by (induction rules arbitrary: ids) (auto simp: set_add_id truthy_def)

lemma set_server_ids:
  "set (server_ids s) = set (or_else (routing_servers s) [])
     \<union> {sid. \<exists>r \<in> set (routing_rules s). rr_action r = Some Proxy \<and> rr_server r = Some sid \<and> sid \<noteq> []}
     \<union> {sid. default_action s = Proxy \<and> default_server s = sid \<and> sid \<noteq> []}"
  by (auto simp: server_ids_def Let_def set_add_id set_server_ids_fold)

lemma distinct_add_id: "distinct ids \<Longrightarrow> distinct (add_id ids nid)"
  by (simp add: add_id_def)

lemma distinct_server_ids_fold:
  "distinct ids \<Longrightarrow>
   distinct (foldl (\<lambda>ids r. if rr_action r = Some Proxy then add_id ids (rr_server r) else ids) ids rules)"
  by (induction rules arbitrary: ids) (auto simp: distinct_add_id)

lemma distinct_server_ids: "distinct (or_else (routing_servers s) []) \<Longrightarrow> distinct (server_ids s)"
  by (simp add: server_ids_def Let_def distinct_add_id distinct_server_ids_fold)

lemma inbound_count: "or_else (om_get (inbound_counts s) nid) 0 = count_list (wire_targets s) nid"
  by (simp add: inbound_counts_def om_simps)

text \<open>The destinations shown: those something goes to, and those not hidden.\<close>

lemma action_node_ids:
  "fn_id ` set (action_nodes s hidden)
     = action_node_id ` {a. action_node_id a \<in> set (wire_targets s) \<or> a \<notin> set hidden}"
  by (auto simp: action_nodes_def Let_def inbound_count count_list_0_iff image_iff split: if_splits)

lemma fst_image_enumerate: "(\<lambda>(i, x). f x) ` set (enumerate n xs) = f ` set xs"
  by (induction xs arbitrary: n) auto

lemma node_ids:
  "fn_id ` set (derived_nodes s hidden profiles hits)
     = {DEFAULT_NODE} \<union> rr_id ` set (routing_rules s)
       \<union> action_node_id ` {a. action_node_id a \<in> set (wire_targets s) \<or> a \<notin> set hidden}
       \<union> server_node_id ` set (server_ids s) \<union> cm_id ` set (routing_comments s)"
  by (simp add: derived_nodes_def Let_def image_Un action_node_ids image_image case_prod_unfold
      fst_image_enumerate [unfolded case_prod_unfold] Un_assoc)

lemma wire_target_iff:
  "t \<in> set (wire_targets s) \<longleftrightarrow>
     (\<exists>r \<in> set (routing_rules s). \<exists>a. rr_action r = Some a \<and> t = target_of a (rr_server r))
     \<or> t = target_of (default_action s) (Some (default_server s))"
  by (force simp: wire_targets_def image_iff)

lemma wire_target_drawn:
  "t \<in> set (wire_targets s) \<Longrightarrow> t \<in> fn_id ` set (derived_nodes s hidden profiles hits)"
proof -
  assume t: "t \<in> set (wire_targets s)"
  then obtain a server where a: "t = target_of a server"
    and src: "(\<exists>r \<in> set (routing_rules s). rr_action r = Some a \<and> rr_server r = server)
              \<or> (default_action s = a \<and> server = Some (default_server s))"
    by (auto simp: wire_target_iff)
  show ?thesis
  proof (cases "a = Proxy \<and> truthy server")
    case True
    with src have "the server \<in> set (server_ids s)"
      by (auto simp: set_server_ids truthy_def)
    with True a show ?thesis by (simp add: node_ids target_of_def)
  next
    case False
    with a t show ?thesis by (auto simp: node_ids target_of_def)
  qed
qed

lemma edge_sources: "fe_source ` set (derived_edges s hits) \<subseteq> {DEFAULT_NODE} \<union> rr_id ` set (routing_rules s)"
  by (auto simp: derived_edges_def rule_edge_def default_edge_def)

lemma edge_targets: "map fe_target (derived_edges s hits) = wire_targets s"
  by (simp add: derived_edges_def rule_edge_def default_edge_def wire_targets_def comp_def)

end
