(* ===== verification/Routing_Edit.thy ===== *)
theory Routing_Edit
  imports Routing_Graph
begin

text \<open>
  Editing the routing graph: every handler of \<open>RoutingCanvas\<close> and \<open>RoutingView\<close> that changes
  the settings, and the graph's well-formedness as an invariant of all of them.
\<close>

section \<open>Handlers of the canvas\<close>

text \<open>A node's own edits, \<open>RulePatch\<close> of \<open>frontend/src/components/routing/nodes.tsx\<close>.\<close>

record rule_patch =
  rp_kind :: "routing_source option"
  rp_values :: "string list option"
  rp_invert :: "bool option"
  rp_dns :: "string option"
  rp_mode :: "logical_mode option"
  rp_conditions :: "routing_condition list option"

definition patch_rule :: "rule_patch \<Rightarrow> routing_rule \<Rightarrow> routing_rule" where
  "patch_rule p r = r\<lparr>
     rr_kind := or_else (map_option Single (rp_kind p)) (rr_kind r),
     rr_values := or_else (rp_values p) (rr_values r),
     rr_invert := (if rp_invert p = None then rr_invert r else rp_invert p),
     rr_dns := (if rp_dns p = None then rr_dns r else rp_dns p),
     rr_mode := (if rp_mode p = None then rr_mode r else rp_mode p),
     rr_conditions := (if rp_conditions p = None then rr_conditions r else rp_conditions p)\<rparr>"

definition set_destination :: "routing_action option \<Rightarrow> string \<Rightarrow> routing_rule \<Rightarrow> routing_rule" where
  "set_destination a server r = r\<lparr>rr_action := a, rr_server := Some server\<rparr>"

definition update_rule :: "app_settings \<Rightarrow> string \<Rightarrow> (routing_rule \<Rightarrow> routing_rule) \<Rightarrow> graph_patch" where
  "update_rule s nid f =
     no_patch\<lparr>gp_rules := Some (map (\<lambda>r. if rr_id r = nid then f r else r) (routing_rules s))\<rparr>"

definition remove_rule :: "app_settings \<Rightarrow> string \<Rightarrow> graph_patch" where
  "remove_rule s nid = no_patch\<lparr>gp_rules := Some (filter (\<lambda>r. rr_id r \<noteq> nid) (routing_rules s))\<rparr>"

definition update_comment :: "app_settings \<Rightarrow> string \<Rightarrow> string \<Rightarrow> graph_patch" where
  "update_comment s nid text =
     no_patch\<lparr>gp_comments := Some (map (\<lambda>c. if cm_id c = nid then c\<lparr>cm_text := text\<rparr> else c) (routing_comments s))\<rparr>"

definition remove_comment :: "app_settings \<Rightarrow> string \<Rightarrow> graph_patch" where
  "remove_comment s nid =
     no_patch\<lparr>gp_comments := Some (filter (\<lambda>c. cm_id c \<noteq> nid) (routing_comments s)),
              gp_layout := Some ((routing_layout s)(nid := None))\<rparr>"

definition remove_server :: "app_settings \<Rightarrow> string \<Rightarrow> graph_patch" where
  "remove_server s pid =
     no_patch\<lparr>gp_servers := Some (Some (filter (\<lambda>x. x \<noteq> pid) (server_ids s))),
              gp_rules := Some (map (\<lambda>r. if rr_server r = Some pid then r\<lparr>rr_server := Some []\<rparr> else r) (routing_rules s)),
              gp_default_server := Some (if default_server s = pid then [] else default_server s),
              gp_layout := Some ((routing_layout s)(server_node_id pid := None))\<rparr>"

definition resize_node :: "app_settings \<Rightarrow> string \<Rightarrow> rat \<Rightarrow> rat \<Rightarrow> rat \<Rightarrow> rat \<Rightarrow> graph_patch" where
  "resize_node s nid x y w h =
     no_patch\<lparr>gp_layout := Some ((routing_layout s)(nid \<mapsto>
       \<lparr>cp_x = x, cp_y = y, cp_width = Some (of_int (js_round w)), cp_height = Some (of_int (js_round h))\<rparr>))\<rparr>"

definition reset_node_size :: "app_settings \<Rightarrow> string \<Rightarrow> graph_patch option" where
  "reset_node_size s nid =
     (case routing_layout s nid of
        None \<Rightarrow> None
      | Some p \<Rightarrow> Some (no_patch\<lparr>gp_layout := Some ((routing_layout s)(nid \<mapsto> point (cp_x p) (cp_y p)))\<rparr>))"

text \<open>Changes React Flow reports: a position change carries the position and \<open>dragging\<close>.\<close>

datatype node_change = PositionChange string "(rat \<times> rat) option" "bool option" | OtherChange

fun drag_ended :: "node_change \<Rightarrow> bool" where
  "drag_ended (PositionChange _ _ d) = (d = Some False)"
| "drag_ended OtherChange = False"

fun move_node :: "(string \<rightharpoonup> canvas_point) \<Rightarrow> node_change \<Rightarrow> (string \<rightharpoonup> canvas_point)" where
  "move_node l (PositionChange nid (Some (x, y)) _) =
     l(nid \<mapsto> (case l nid of None \<Rightarrow> point x y | Some p \<Rightarrow> p\<lparr>cp_x := x, cp_y := y\<rparr>))"
| "move_node l _ = l"

definition handle_nodes_change :: "app_settings \<Rightarrow> node_change list \<Rightarrow> graph_patch option" where
  "handle_nodes_change s changes =
     (let moved = filter drag_ended changes
      in if moved = [] then None
         else Some (no_patch\<lparr>gp_layout := Some (foldl move_node (routing_layout s) moved)\<rparr>))"

text \<open>Dragging a wire from \<open>source\<close> onto \<open>target\<close>; an absent end is the empty id.\<close>

definition connect_target :: "string \<Rightarrow> (routing_action \<times> string) option" where
  "connect_target target =
     (if js_starts_with target SERVER_PREFIX then Some (Proxy, drop (length SERVER_PREFIX) target)
      else map_option (\<lambda>a. (a, [])) (find (\<lambda>a. action_node_id a = target) ACTIONS))"

definition on_connect :: "app_settings \<Rightarrow> string \<Rightarrow> string \<Rightarrow> graph_patch option" where
  "on_connect s source target =
     (if source = [] \<or> target = [] then None
      else case connect_target target of
             None \<Rightarrow> None
           | Some (a, server) \<Rightarrow>
               if source = DEFAULT_NODE
               then Some (no_patch\<lparr>gp_default_action := Some a, gp_default_server := Some server\<rparr>)
               else Some (update_rule s source (set_destination (Some a) server)))"

text \<open>Delete and Backspace: \<open>selected\<close> are the selected nodes' ids, \<open>wires\<close> the selected edges.\<close>

definition edge_fixed :: "flow_edge \<Rightarrow> bool" where
  "edge_fixed e \<longleftrightarrow> fe_id e = ''edge:default'' \<or> fe_source e = DEFAULT_NODE \<or> \<not> fe_deletable e"

definition edge_rule :: "flow_edge \<Rightarrow> string" where
  "edge_rule e = (if js_starts_with (fe_id e) ''edge:'' then drop 5 (fe_id e) else fe_source e)"

definition remove_selected :: "app_settings \<Rightarrow> string list \<Rightarrow> flow_edge list \<Rightarrow> graph_patch option" where
  "remove_selected s selected wires =
     (let cut = map edge_rule (filter (\<lambda>e. \<not> edge_fixed e) wires);
          goneServers = filter (\<lambda>pid. server_node_id pid \<in> set selected) (server_ids s);
          goneRules = filter (\<lambda>r. rr_id r \<in> set selected) (routing_rules s);
          goneComments = filter (\<lambda>c. cm_id c \<in> set selected) (routing_comments s)
      in if goneServers = [] \<and> goneRules = [] \<and> goneComments = [] \<and> cut = [] then None
         else Some (no_patch\<lparr>
           gp_rules := Some
             (map (\<lambda>r. if or_else (rr_server r) [] \<in> set goneServers then r\<lparr>rr_server := Some []\<rparr> else r)
               (map (\<lambda>r. if rr_id r \<in> set cut then set_destination None [] r else r)
                 (filter (\<lambda>r. rr_id r \<notin> set selected) (routing_rules s)))),
           gp_comments := Some (filter (\<lambda>c. cm_id c \<notin> set selected) (routing_comments s)),
           gp_servers := Some (Some (filter (\<lambda>pid. pid \<notin> set goneServers) (server_ids s))),
           gp_default_server := Some (if default_server s \<in> set goneServers then [] else default_server s),
           gp_layout := Some (foldl (\<lambda>l nid. l(nid := None)) (routing_layout s) selected)\<rparr>))"

text \<open>Clicking a wire cuts it, unless it is the catch-all's: then only a toast is shown.\<close>

definition on_edge_click :: "app_settings \<Rightarrow> flow_edge \<Rightarrow> graph_patch option" where
  "on_edge_click s e =
     (if edge_fixed e then None else Some (update_rule s (edge_rule e) (set_destination None [])))"

section \<open>Handlers of the palette and the header\<close>

text \<open>\<open>stamp\<close> is \<open>Date.now().toString(36)\<close>.\<close>

definition add_note :: "app_settings \<Rightarrow> string \<Rightarrow> graph_patch" where
  "add_note s stamp =
     (let nid = ''note-'' @ stamp;
          position = next_note_position (routing_comments s) (routing_layout s)
      in no_patch\<lparr>gp_comments := Some (routing_comments s @ [\<lparr>cm_id = nid, cm_text = []\<rparr>]),
                  gp_layout := Some ((routing_layout s)(nid \<mapsto> position))\<rparr>)"

definition new_condition :: "routing_source \<Rightarrow> routing_condition" where
  "new_condition k = \<lparr>rc_kind = k, rc_values = [], rc_invert = None\<rparr>"

definition new_rule :: "string \<Rightarrow> routing_kind \<Rightarrow> routing_rule" where
  "new_rule nid kind =
     \<lparr>rr_id = nid, rr_kind = kind, rr_values = [], rr_action = Some Proxy, rr_invert = None, rr_server = None,
      rr_dns = None,
      rr_mode = (if kind = Logical then Some AndMode else None),
      rr_conditions = (if kind = Logical then Some [new_condition Apps, new_condition Network] else None)\<rparr>"

definition add_source :: "app_settings \<Rightarrow> routing_kind \<Rightarrow> string \<Rightarrow> graph_patch" where
  "add_source s kind stamp =
     (let nid = kind_slug kind @ ''-'' @ stamp;
          position = next_source_position (routing_rules s) (routing_layout s)
      in no_patch\<lparr>gp_rules := Some (routing_rules s @ [new_rule nid kind]),
                  gp_layout := Some ((routing_layout s)(nid \<mapsto> position))\<rparr>)"

definition add_server :: "app_settings \<Rightarrow> string \<Rightarrow> graph_patch" where
  "add_server s pid =
     (let placed = server_ids s; nid = server_node_id pid
      in no_patch\<lparr>gp_servers := Some (Some (placed @ [pid])),
                  gp_layout := Some ((routing_layout s)(nid \<mapsto> fallback_position nid (length placed)))\<rparr>)"

datatype preset_placement = First | Last

text \<open>A preset's rules get their ids here; they stand below each other from the first free place.\<close>

definition preset_rules :: "routing_rule list \<Rightarrow> string \<Rightarrow> routing_rule list" where
  "preset_rules preset stamp =
     map (\<lambda>(index, r). r\<lparr>rr_id := kind_slug (rr_kind r) @ ''-'' @ stamp @ nat_str index\<rparr>) (enumerate 0 preset)"

fun place_below :: "canvas_point \<Rightarrow> routing_rule list \<Rightarrow> (string \<rightharpoonup> canvas_point) \<Rightarrow> (string \<rightharpoonup> canvas_point)" where
  "place_below position [] layout = layout"
| "place_below position (r # rs) layout =
     place_below (point (cp_x position) (cp_y position + SOURCE_GAP)) rs (layout(rr_id r \<mapsto> position))"

definition add_preset :: "app_settings \<Rightarrow> routing_rule list \<Rightarrow> preset_placement \<Rightarrow> string \<Rightarrow> graph_patch" where
  "add_preset s preset placement stamp =
     (let added = preset_rules preset stamp
      in no_patch\<lparr>
           gp_rules := Some (if placement = First then added @ routing_rules s else routing_rules s @ added),
           gp_layout := Some (place_below (next_source_position (routing_rules s) (routing_layout s)) added
                                (routing_layout s))\<rparr>)"

definition set_default :: "routing_action \<Rightarrow> graph_patch" where
  "set_default a = no_patch\<lparr>gp_default_action := Some a, gp_default_server := Some []\<rparr>"

definition clear_rules :: graph_patch where
  "clear_rules = no_patch\<lparr>gp_rules := Some []\<rparr>"

definition reorder_rules :: "routing_rule list \<Rightarrow> graph_patch" where
  "reorder_rules rules = no_patch\<lparr>gp_rules := Some rules\<rparr>"

text \<open>A routing file read by the backend replaces the whole graph.\<close>

definition import_routing :: "app_settings \<Rightarrow> graph_patch" where
  "import_routing r = \<lparr>gp_rules = Some (routing_rules r), gp_layout = Some (routing_layout r),
     gp_comments = Some (routing_comments r), gp_default_action = Some (default_action r),
     gp_default_server = Some (default_server r), gp_servers = Some (routing_servers r), gp_geo_files = None\<rparr>"

lemma no_patch_fields [simp]:
  "gp_rules no_patch = None" "gp_layout no_patch = None" "gp_comments no_patch = None"
  "gp_default_action no_patch = None" "gp_default_server no_patch = None"
  "gp_servers no_patch = None" "gp_geo_files no_patch = None"
  by (simp_all add: no_patch_def)

lemmas edit_defs = update_rule_def remove_rule_def update_comment_def remove_comment_def remove_server_def
  resize_node_def reset_node_size_def handle_nodes_change_def on_connect_def on_edge_click_def
  add_note_def add_source_def add_server_def add_preset_def set_default_def clear_rules_def
  reorder_rules_def import_routing_def

end
