(* ===== verification/Rule_Order.thy ===== *)
theory Rule_Order
  imports App_Types "HOL-Library.Multiset"
begin

text \<open>
  The list of rules in the order the core checks them
  (\<open>frontend/src/components/routing/order.tsx\<close>): moving a rule by dragging or with the arrows.
\<close>

text \<open>
  \<open>move(from, to)\<close>: \<open>None\<close> where it returns without reordering.  \<open>splice(from, 1)\<close> on an index
  past the end removes nothing and the rule it hands back is \<open>undefined\<close>, which the second
  \<open>splice\<close> then inserts: the result's elements are options, \<open>None\<close> being \<open>undefined\<close>.
\<close>

definition move_rule :: "'a list \<Rightarrow> nat \<Rightarrow> int \<Rightarrow> 'a option list option" where
  "move_rule rules from to =
     (if int from = to \<or> to < 0 \<or> to \<ge> int (length rules) then None
      else (let rule = (if from < length rules then Some (rules ! from) else None);
                next = map Some (take from rules @ drop (Suc from) rules)
            in Some (take (nat to) next @ [rule] @ drop (nat to) next)))"

text \<open>The same on indices of the list, where nothing is undefined.\<close>

definition moved :: "'a list \<Rightarrow> nat \<Rightarrow> nat \<Rightarrow> 'a list" where
  "moved xs i j = (let ys = take i xs @ drop (Suc i) xs in take j ys @ [xs ! i] @ drop j ys)"

lemma move_rule_moved:
  assumes "i < length xs"
  shows "move_rule xs i (int j) =
    (if i = j \<or> j \<ge> length xs then None else Some (map Some (moved xs i j)))"
  using assms by (auto simp: move_rule_def moved_def Let_def take_map drop_map)

lemma mset_moved: "i < length xs \<Longrightarrow> mset (moved xs i j) = mset xs"
proof -
  assume i: "i < length xs"
  let ?ys = "take i xs @ drop (Suc i) xs"
  have "mset (moved xs i j) = add_mset (xs ! i) (mset (take j ?ys @ drop j ?ys))"
    by (simp add: moved_def Let_def del: append_take_drop_id take_append drop_append)
  also have "\<dots> = mset (take i xs @ xs ! i # drop (Suc i) xs)"
    by (simp only: append_take_drop_id) simp
  also have "\<dots> = mset xs" using i by (simp only: id_take_nth_drop [symmetric])
  finally show ?thesis .
qed

lemma length_moved [simp]: "i < length xs \<Longrightarrow> length (moved xs i j) = length xs"
  using mset_moved [of i xs j] mset_eq_length by blast

lemma nth_moved: "i < length xs \<Longrightarrow> j < length xs \<Longrightarrow> moved xs i j ! j = xs ! i"
  by (simp add: moved_def Let_def nth_append min_def)

text \<open>Taking the moved rule out again leaves the others in the order they had.\<close>

lemma take_drop_insert:
  "j \<le> length ys \<Longrightarrow> take j (take j ys @ x # drop j ys) @ drop (Suc j) (take j ys @ x # drop j ys) = ys"
  by simp

lemma remove_nth_moved:
  assumes "i < length xs" "j < length xs"
  shows "take j (moved xs i j) @ drop (Suc j) (moved xs i j) = take i xs @ drop (Suc i) xs"
proof -
  let ?ys = "take i xs @ drop (Suc i) xs"
  have j: "j \<le> length ?ys" using assms by simp
  have m: "moved xs i j = take j ?ys @ xs ! i # drop j ?ys" by (simp only: moved_def Let_def append_Cons append_Nil)
  show ?thesis unfolding m by (rule take_drop_insert [OF j])
qed

lemma moved_back:
  assumes "i < length xs" "j < length xs"
  shows "moved (moved xs i j) j i = xs"
proof -
  have "moved (moved xs i j) j i = take i (take i xs @ drop (Suc i) xs) @ [xs ! i] @ drop i (take i xs @ drop (Suc i) xs)"
    unfolding moved_def [of "moved xs i j"] Let_def remove_nth_moved [OF assms] nth_moved [OF assms] ..
  also have "\<dots> = take i xs @ xs ! i # drop (Suc i) xs" using assms by simp
  also have "\<dots> = xs" using assms by (simp only: id_take_nth_drop [symmetric])
  finally show ?thesis .
qed

section \<open>Properties\<close>

text \<open>Moving a rule in the list keeps every rule exactly once, puts the moved one where it was
  dropped, leaves the others in their order, and moving it back restores the list.\<close>

theorem move_rule_permutes:
  assumes "i < length rules" "move_rule rules i (int j) = Some moved_rules"
  shows "\<exists>rs. moved_rules = map Some rs \<and> mset rs = mset rules \<and> rs ! j = rules ! i
    \<and> take j rs @ drop (Suc j) rs = take i rules @ drop (Suc i) rules
    \<and> move_rule rs j (int i) = Some (map Some rules)"
proof -
  from assms have ij: "i \<noteq> j" "j < length rules" and m: "moved_rules = map Some (moved rules i j)"
    by (auto simp: move_rule_moved split: if_splits)
  have "move_rule (moved rules i j) j (int i) = Some (map Some rules)"
    using move_rule_moved [of j "moved rules i j" i] ij assms(1) by (simp add: moved_back)
  with m ij assms(1) show ?thesis
    by (intro exI [of _ "moved rules i j"]) (simp add: mset_moved nth_moved remove_nth_moved)
qed

theorem move_rule_permutes_witness:
  "\<exists>rs. move_rule [10, 20, 30 :: nat] 2 0 = Some (map Some rs) \<and> mset rs = {#10, 20, 30#}"
proof -
  have m: "move_rule [10, 20, 30 :: nat] 2 (int 0) = Some (map Some [30, 10, 20])"
    by (simp add: move_rule_def)
  have "2 < length [10, 20, 30 :: nat]" by simp
  from move_rule_permutes [OF this m] obtain rs where "map Some [30, 10, 20 :: nat] = map Some rs"
    and "mset rs = mset [10, 20, 30]" by blast
  then show ?thesis using m by (intro exI [of _ rs]) simp
qed

end
