(* ===== verification/Routing_Canvas.thy ===== *)
theory Routing_Canvas
  imports Routing_Edit Rule_Order
begin

text \<open>
  The canvas as a state machine: one event per thing the user can do to the graph, the handler
  it runs, and the well-formedness of the graph (node ids distinct, none of them a reserved id)
  as an invariant of every event.
\<close>

section \<open>Events\<close>

datatype canvas_event =
    EditRule string rule_patch
  | DeleteRule string
  | EditNote string string
  | DeleteNote string
  | TakeOffServer string
  | ResizeNode string rat rat rat rat
  | ResetSize string
  | NodesChange "node_change list"
  | ConnectWire string string
  | DeleteSelected "string list" "flow_edge list"
  | ClickWire flow_edge
  | AddNote string
  | AddSource routing_kind string
  | AddServer string
  | AddPreset "routing_rule list" preset_placement string
  | SetDefault routing_action
  | ClearRules
  | MoveRule nat int

fun canvas_handler :: "app_settings \<Rightarrow> canvas_event \<Rightarrow> graph_patch option" where
  "canvas_handler s (EditRule nid p) = Some (update_rule s nid (patch_rule p))"
| "canvas_handler s (DeleteRule nid) = Some (remove_rule s nid)"
| "canvas_handler s (EditNote nid text) = Some (update_comment s nid text)"
| "canvas_handler s (DeleteNote nid) = Some (remove_comment s nid)"
| "canvas_handler s (TakeOffServer pid) = Some (remove_server s pid)"
| "canvas_handler s (ResizeNode nid x y w h) = Some (resize_node s nid x y w h)"
| "canvas_handler s (ResetSize nid) = reset_node_size s nid"
| "canvas_handler s (NodesChange cs) = handle_nodes_change s cs"
| "canvas_handler s (ConnectWire source target) = on_connect s source target"
| "canvas_handler s (DeleteSelected selected wires) = remove_selected s selected wires"
| "canvas_handler s (ClickWire e) = on_edge_click s e"
| "canvas_handler s (AddNote stamp) = Some (add_note s stamp)"
| "canvas_handler s (AddSource kind stamp) = Some (add_source s kind stamp)"
| "canvas_handler s (AddServer pid) = Some (add_server s pid)"
| "canvas_handler s (AddPreset preset placement stamp) = Some (add_preset s preset placement stamp)"
| "canvas_handler s (SetDefault a) = Some (set_default a)"
| "canvas_handler s ClearRules = Some clear_rules"
| "canvas_handler s (MoveRule i j) =
     map_option (\<lambda>rs. reorder_rules (map the rs)) (move_rule (routing_rules s) i j)"

definition canvas_step :: "app_settings \<Rightarrow> canvas_event \<Rightarrow> app_settings" where
  "canvas_step s e = apply_opt s (canvas_handler s e)"

text \<open>
  What the page guarantees about an event: a new id is not taken (the ids carry the time in
  milliseconds), the palette offers only servers not placed yet, and a rule is dragged from a
  place of the list.
\<close>

definition graph_ids :: "app_settings \<Rightarrow> string list" where
  "graph_ids s = map rr_id (routing_rules s) @ map cm_id (routing_comments s)"

fun event_ok :: "app_settings \<Rightarrow> canvas_event \<Rightarrow> bool" where
  "event_ok s (AddNote stamp) = (''note-'' @ stamp \<notin> set (graph_ids s))"
| "event_ok s (AddSource kind stamp) = (kind_slug kind @ ''-'' @ stamp \<notin> set (graph_ids s))"
| "event_ok s (AddServer pid) = (pid \<notin> set (server_ids s))"
| "event_ok s (AddPreset preset placement stamp) =
     (distinct (map rr_id (preset_rules preset stamp)) \<and>
      set (map rr_id (preset_rules preset stamp)) \<inter> set (graph_ids s) = {})"
| "event_ok s (MoveRule i j) = (i < length (routing_rules s))"
| "event_ok s e = True"

section \<open>Well-formed graphs\<close>

definition user_id :: "string \<Rightarrow> bool" where
  "user_id nid \<longleftrightarrow> nid \<noteq> DEFAULT_NODE \<and> \<not> js_starts_with nid ACTION_PREFIX \<and> \<not> js_starts_with nid SERVER_PREFIX"

definition graph_wf :: "app_settings \<Rightarrow> bool" where
  "graph_wf s \<longleftrightarrow> distinct (graph_ids s) \<and> (\<forall>nid \<in> set (graph_ids s). user_id nid)
     \<and> distinct (or_else (routing_servers s) [])"

lemma user_id_reserved [simp]:
  "user_id nid \<Longrightarrow> nid \<noteq> DEFAULT_NODE" "user_id nid \<Longrightarrow> nid \<noteq> action_node_id a"
  "user_id nid \<Longrightarrow> nid \<noteq> server_node_id p"
  by (auto simp: user_id_def action_node_id_def server_node_id_def)

lemma user_id_note: "user_id (''note-'' @ stamp)"
  by (simp add: user_id_def DEFAULT_NODE_def ACTION_PREFIX_def SERVER_PREFIX_def js_starts_with_def)

lemma user_id_kind: "user_id (kind_slug kind @ ''-'' @ stamp)"
proof (cases kind)
  case (Single k)
  then show ?thesis
    by (cases k) (simp_all add: user_id_def DEFAULT_NODE_def ACTION_PREFIX_def SERVER_PREFIX_def js_starts_with_def)
qed (simp add: user_id_def DEFAULT_NODE_def ACTION_PREFIX_def SERVER_PREFIX_def js_starts_with_def)

text \<open>In a well-formed graph no two nodes of the canvas share an id.\<close>

lemma distinct_action_nodes: "distinct (map fn_id (action_nodes s hidden))"
  by (auto simp: action_nodes_def ACTIONS_def Let_def)

lemma graph_wf_distinct_nodes:
  assumes "graph_wf s"
  shows "distinct (map fn_id (derived_nodes s hidden profiles hits))"
proof -
  have ids: "map fn_id (derived_nodes s hidden profiles hits) =
    DEFAULT_NODE # map rr_id (routing_rules s) @ map fn_id (action_nodes s hidden)
      @ map server_node_id (server_ids s) @ map cm_id (routing_comments s)"
    by (simp add: derived_nodes_def Let_def comp_def case_prod_unfold
        map_snd_enumerate [unfolded case_prod_unfold])
  have acts: "set (map fn_id (action_nodes s hidden)) \<subseteq> range action_node_id"
    using action_node_ids [of s hidden] by auto
  have u: "x \<in> set (map rr_id (routing_rules s)) \<union> set (map cm_id (routing_comments s)) \<Longrightarrow> user_id x" for x
    using assms by (auto simp: graph_wf_def graph_ids_def)
  have d: "distinct (map server_node_id (server_ids s))"
    using assms by (simp add: graph_wf_def distinct_server_ids distinct_map inj_on_def)
  have rc: "distinct (map rr_id (routing_rules s))" "distinct (map cm_id (routing_comments s))"
    "set (map rr_id (routing_rules s)) \<inter> set (map cm_id (routing_comments s)) = {}"
    using assms by (auto simp: graph_wf_def graph_ids_def)
  have act_in: "x \<in> set (map fn_id (action_nodes s hidden)) \<Longrightarrow> \<exists>a. x = action_node_id a" for x
    using acts by blast
  have srv_in: "x \<in> set (map server_node_id (server_ids s)) \<Longrightarrow> \<exists>p. x = server_node_id p" for x
    by auto
  have disj: "set (map rr_id (routing_rules s)) \<inter> set (map fn_id (action_nodes s hidden)) = {}"
    "set (map rr_id (routing_rules s)) \<inter> set (map server_node_id (server_ids s)) = {}"
    "set (map cm_id (routing_comments s)) \<inter> set (map fn_id (action_nodes s hidden)) = {}"
    "set (map cm_id (routing_comments s)) \<inter> set (map server_node_id (server_ids s)) = {}"
    "set (map fn_id (action_nodes s hidden)) \<inter> set (map server_node_id (server_ids s)) = {}"
    using u act_in srv_in user_id_reserved by (metis (no_types, lifting) UnCI disjoint_iff node_ids_disjoint(1))+
  have def: "DEFAULT_NODE \<notin> set (map rr_id (routing_rules s))" "DEFAULT_NODE \<notin> set (map cm_id (routing_comments s))"
    "DEFAULT_NODE \<notin> set (map fn_id (action_nodes s hidden))" "DEFAULT_NODE \<notin> set (map server_node_id (server_ids s))"
    using u act_in srv_in user_id_reserved by (metis (no_types, lifting) UnCI node_ids_disjoint(4,6))+
  show ?thesis unfolding ids
    using rc d disj def distinct_action_nodes [of s hidden]
    by (simp only: distinct.simps distinct_append set_append Un_iff Int_Un_distrib Int_Un_distrib2 Int_commute) blast
qed

section \<open>Every event keeps the graph well-formed\<close>

lemmas user_id_new [simp] = user_id_note [simplified] user_id_kind [simplified]

definition wf_parts :: "string list \<Rightarrow> string list \<Rightarrow> string list \<Rightarrow> bool" where
  "wf_parts rids cids servers \<longleftrightarrow> distinct (rids @ cids) \<and> (\<forall>nid \<in> set rids \<union> set cids. user_id nid) \<and> distinct servers"

lemma graph_wf_parts:
  "graph_wf s \<longleftrightarrow> wf_parts (map rr_id (routing_rules s)) (map cm_id (routing_comments s)) (or_else (routing_servers s) [])"
  by (auto simp: graph_wf_def graph_ids_def wf_parts_def)

lemma subseq_distinct_subset: "subseq xs ys \<Longrightarrow> set xs \<subseteq> set ys \<and> (distinct ys \<longrightarrow> distinct xs)"
  by (induction rule: list_emb.induct) auto

lemma wf_parts_less:
  assumes "wf_parts rids cids servers" "subseq rids' rids" "subseq cids' cids" "distinct servers'"
  shows "wf_parts rids' cids' servers'"
  using assms unfolding wf_parts_def
  by (auto dest!: subseq_distinct_subset)

lemma wf_parts_permute:
  "wf_parts rids cids servers \<Longrightarrow> mset rids' = mset rids \<Longrightarrow> wf_parts rids' cids servers"
  unfolding wf_parts_def by (metis distinct_append mset_eq_imp_distinct_iff mset_eq_setD)

lemma map_rr_id_update [simp]:
  "(\<And>r. rr_id (f r) = rr_id r) \<Longrightarrow> map (\<lambda>x. rr_id (if P x then f x else x)) rs = map rr_id rs"
  by auto

lemma rr_id_edits [simp]:
  "rr_id (patch_rule p r) = rr_id r" "rr_id (set_destination a server r) = rr_id r"
  by (simp_all add: patch_rule_def set_destination_def)

lemma map_filter_subseq: "subseq (map f (filter P xs)) (map f xs)"
  by (rule subseq_map) simp

text \<open>One lemma per kind of change.\<close>

lemma wf_rules_kept:
  assumes "graph_wf s" "routing_comments s' = routing_comments s" "routing_servers s' = routing_servers s"
    "mset (map rr_id (routing_rules s')) = mset (map rr_id (routing_rules s))"
  shows "graph_wf s'"
  using assms by (auto simp: graph_wf_parts intro: wf_parts_permute)

lemma wf_less:
  assumes "graph_wf s" "subseq (map rr_id (routing_rules s')) (map rr_id (routing_rules s))"
    "subseq (map cm_id (routing_comments s')) (map cm_id (routing_comments s))"
    "distinct (or_else (routing_servers s') [])"
  shows "graph_wf s'"
  using assms unfolding graph_wf_parts by (rule wf_parts_less)

lemma wf_servers: "graph_wf s \<Longrightarrow> distinct (or_else (routing_servers s) []) \<and> distinct (server_ids s)"
  by (simp add: graph_wf_def distinct_server_ids)

lemma wf_remove_selected:
  assumes "graph_wf s" "remove_selected s selected wires = Some p"
  shows "graph_wf (apply_patch s p)"
proof -
  from assms(2) have rules: "map rr_id (routing_rules (apply_patch s p)) =
      map rr_id (filter (\<lambda>r. rr_id r \<notin> set selected) (routing_rules s))"
    and comments: "routing_comments (apply_patch s p) = filter (\<lambda>c. cm_id c \<notin> set selected) (routing_comments s)"
    and servers: "\<exists>P. routing_servers (apply_patch s p) = Some (filter P (server_ids s))"
    by (auto simp: remove_selected_def Let_def comp_def split: if_splits)
  show ?thesis
    by (rule wf_less [OF assms(1)]) (use rules comments servers wf_servers [OF assms(1)] map_filter_subseq in auto)
qed

lemma map_id_preset: "r \<in> set (preset_rules preset stamp) \<Longrightarrow> user_id (rr_id r)"
  by (auto simp: preset_rules_def)

lemma wf_add_preset:
  assumes "graph_wf s" "event_ok s (AddPreset preset placement stamp)"
  shows "graph_wf (apply_patch s (add_preset s preset placement stamp))"
proof -
  let ?a = "map rr_id (preset_rules preset stamp)" and ?r = "map rr_id (routing_rules s)"
  have "wf_parts (?r @ ?a) (map cm_id (routing_comments s)) (or_else (routing_servers s) [])"
    using assms map_id_preset [of _ preset stamp]
    by (auto simp: graph_wf_parts wf_parts_def graph_ids_def)
  then have "wf_parts (?a @ ?r) (map cm_id (routing_comments s)) (or_else (routing_servers s) [])"
    by (rule wf_parts_permute) simp
  with \<open>wf_parts (?r @ ?a) _ _\<close> show ?thesis
    by (simp add: graph_wf_parts add_preset_def Let_def)
qed

lemma map_the_Some [simp]: "map the (map Some xs) = xs"
  by (induction xs) auto

lemma wf_move:
  assumes "graph_wf s" "i < length (routing_rules s)" "move_rule (routing_rules s) i j = Some rs"
  shows "graph_wf (apply_patch s (reorder_rules (map the rs)))"
proof -
  from assms(3) have j: "0 \<le> j" by (auto simp: move_rule_def split: if_splits)
  with assms(2,3) have "map the rs = moved (routing_rules s) i (nat j)"
    using move_rule_moved [of i "routing_rules s" "nat j"] by (auto split: if_splits simp del: map_map)
  with assms(2) have "mset (map the rs) = mset (routing_rules s)" by (simp add: mset_moved)
  then have "mset (map rr_id (map the rs)) = mset (map rr_id (routing_rules s))"
    by (metis mset_map)
  with assms(1) show ?thesis by (intro wf_rules_kept [OF assms(1)]) (simp_all add: reorder_rules_def)
qed

lemma canvas_step_wf:
  assumes wf: "graph_wf s" and ok: "event_ok s e"
  shows "graph_wf (canvas_step s e)"
proof (cases e)
  case (DeleteSelected selected wires)
  then show ?thesis
    using wf wf_remove_selected [OF wf]
    by (cases "remove_selected s selected wires") (simp_all add: canvas_step_def)
next
  case (AddPreset preset placement stamp)
  with wf ok show ?thesis by (simp add: canvas_step_def wf_add_preset del: event_ok.simps)
next
  case (MoveRule i j)
  then show ?thesis
    using wf ok wf_move [OF wf]
    by (cases "move_rule (routing_rules s) i j") (simp_all add: canvas_step_def)
next
  case (AddNote stamp)
  with wf ok show ?thesis
    by (auto simp: canvas_step_def add_note_def Let_def graph_wf_def graph_ids_def)
next
  case (AddSource kind stamp)
  with wf ok show ?thesis
    by (auto simp: canvas_step_def add_source_def Let_def graph_wf_def graph_ids_def new_rule_def)
next
  case (AddServer pid)
  with ok wf_servers [OF wf] have "distinct (server_ids s @ [pid])" by simp
  with AddServer show ?thesis
    by (intro wf_less [OF wf]) (simp_all add: canvas_step_def add_server_def Let_def)
next
  case (TakeOffServer pid)
  with wf_servers [OF wf] show ?thesis
    by (intro wf_less [OF wf]) (simp_all add: canvas_step_def remove_server_def comp_def if_distrib cong: if_cong)
next
  case (ConnectWire source target)
  then show ?thesis
    using wf by (auto simp: canvas_step_def on_connect_def update_rule_def comp_def apply_opt_def
        split: option.splits intro!: wf_rules_kept [OF wf])
next
  case (ClickWire e')
  then show ?thesis
    using wf by (auto simp: canvas_step_def on_edge_click_def update_rule_def comp_def
        intro!: wf_rules_kept [OF wf])
next
  case (ResetSize nid)
  then show ?thesis
    using wf by (auto simp: canvas_step_def reset_node_size_def apply_opt_def
        split: option.splits intro!: wf_rules_kept [OF wf])
next
  case (NodesChange cs)
  then show ?thesis
    using wf by (auto simp: canvas_step_def handle_nodes_change_def Let_def apply_opt_def
        intro!: wf_rules_kept [OF wf])
qed ((rule wf_less [OF wf]; use map_filter_subseq wf_servers [OF wf] in
        \<open>auto simp: canvas_step_def edit_defs comp_def if_distrib cong: if_cong\<close>)+)

section \<open>What the handlers do\<close>

lemma find_action: "find (\<lambda>a'. a' = a) ACTIONS = Some a"
  by (cases a) (simp_all add: ACTIONS_def)

lemma connect_target_action: "connect_target (action_node_id a) = Some (a, [])"
proof -
  have "\<not> js_starts_with (action_node_id a) SERVER_PREFIX"
    by (simp add: js_starts_with_def action_node_id_def ACTION_PREFIX_def SERVER_PREFIX_def)
  then show ?thesis by (simp add: connect_target_def find_action)
qed

lemma connect_target_server: "connect_target (server_node_id pid) = Some (Proxy, pid)"
  by (simp add: connect_target_def server_node_id_def)

text \<open>A destination on the canvas: one of the four actions, or a server.\<close>

definition destination_node :: "string \<Rightarrow> bool" where
  "destination_node t \<longleftrightarrow> (\<exists>a. t = action_node_id a) \<or> (\<exists>pid. pid \<noteq> [] \<and> t = server_node_id pid)"

lemma connect_target_destination:
  "destination_node t \<Longrightarrow> \<exists>a server. connect_target t = Some (a, server) \<and> target_of a (Some server) = t"
  unfolding destination_node_def
proof (elim disjE exE conjE)
  fix a assume "t = action_node_id a"
  then have "connect_target t = Some (a, []) \<and> target_of a (Some []) = t"
    by (simp add: connect_target_action target_of_def)
  then show ?thesis by blast
next
  fix pid assume "pid \<noteq> []" "t = server_node_id pid"
  then have "connect_target t = Some (Proxy, pid) \<and> target_of Proxy (Some pid) = t"
    by (simp add: connect_target_server target_of_def)
  then show ?thesis by blast
qed

lemma on_connect_rule:
  assumes "destination_node t" "source \<noteq> []" "source \<noteq> DEFAULT_NODE"
  shows "\<exists>a server. target_of a (Some server) = t
    \<and> on_connect s source t = Some (update_rule s source (set_destination (Some a) server))"
proof -
  obtain a server where c: "connect_target t = Some (a, server)" "target_of a (Some server) = t"
    using connect_target_destination [OF assms(1)] by blast
  moreover have "t \<noteq> []" using assms(1)
    by (auto simp: destination_node_def action_node_id_def server_node_id_def ACTION_PREFIX_def SERVER_PREFIX_def)
  ultimately show ?thesis using assms(2,3) by (auto simp: on_connect_def)
qed

lemma default_action_kept:
  "(\<And>t. e \<noteq> ConnectWire DEFAULT_NODE t) \<Longrightarrow> (\<And>a. e \<noteq> SetDefault a) \<Longrightarrow>
   default_action (canvas_step s e) = default_action s"
  by (cases e) (auto simp: canvas_step_def edit_defs remove_selected_def Let_def apply_opt_def
      split: option.splits)

lemma next_source_position_below:
  "r \<in> set (routing_rules s) \<Longrightarrow> routing_layout s (rr_id r) = Some p \<Longrightarrow>
   cp_y p + SOURCE_GAP \<le> cp_y (next_source_position (routing_rules s) (routing_layout s))"
proof -
  assume r: "r \<in> set (routing_rules s)" and p: "routing_layout s (rr_id r) = Some p"
  let ?f = "\<lambda>(index, rule). cp_y (position_of (routing_layout s) (rr_id rule) index)"
  from r obtain i where "(i, r) \<in> set (enumerate 0 (routing_rules s))"
    by (metis (no_types, lifting) imageE map_snd_enumerate prod.collapse set_map snd_def set_zip_rightD
        in_set_conv_nth map_nth nth_enumerate_eq length_enumerate nth_mem add_0)
  then have "?f (i, r) \<le> foldl (\<lambda>m x. max m (?f x)) (cp_y (fallback_position DEFAULT_NODE 0))
      (enumerate 0 (routing_rules s))"
    by (rule foldl_max_ge(2))
  with p show ?thesis
    by (simp add: next_source_position_def position_of_def case_prod_unfold)
qed

lemma fallback_user: "user_id nid \<Longrightarrow> fallback_position nid i = point 0 (200 + of_nat i * SOURCE_GAP)"
  by (simp add: fallback_position_def user_id_def)

subsection \<open>What deleting a selection leaves\<close>

definition gone_servers :: "app_settings \<Rightarrow> string list \<Rightarrow> string list" where
  "gone_servers s selected = filter (\<lambda>pid. server_node_id pid \<in> set selected) (server_ids s)"

definition survivor :: "app_settings \<Rightarrow> string list \<Rightarrow> flow_edge list \<Rightarrow> routing_rule \<Rightarrow> routing_rule" where
  "survivor s selected wires r =
     (let r' = (if rr_id r \<in> edge_rule ` {e \<in> set wires. \<not> edge_fixed e} then set_destination None [] r else r)
      in if or_else (rr_server r') [] \<in> set (gone_servers s selected) then r'\<lparr>rr_server := Some []\<rparr> else r')"

lemma survivor_fields [simp]: "rr_id (survivor s sel ws r) = rr_id r" "rr_values (survivor s sel ws r) = rr_values r"
  by (simp_all add: survivor_def Let_def set_destination_def)

lemma if_Some_D: "(if c then None else Some x) = Some y \<Longrightarrow> y = x"
  by (cases c) simp_all

lemma removed_patch:
  assumes "remove_selected s selected wires = Some p"
  shows "p = no_patch\<lparr>
      gp_rules := Some (map (survivor s selected wires) (filter (\<lambda>r. rr_id r \<notin> set selected) (routing_rules s))),
      gp_comments := Some (filter (\<lambda>c. cm_id c \<notin> set selected) (routing_comments s)),
      gp_servers := Some (Some (filter (\<lambda>pid. pid \<notin> set (gone_servers s selected)) (server_ids s))),
      gp_default_server := Some (if default_server s \<in> set (gone_servers s selected) then [] else default_server s),
      gp_layout := Some (foldl (\<lambda>l nid. l(nid := None)) (routing_layout s) selected)\<rparr>"
  unfolding if_Some_D [OF assms [unfolded remove_selected_def Let_def]] gone_servers_def [symmetric]
  by (simp only: map_map comp_def survivor_def [abs_def] Let_def set_map set_filter)

lemma removed_rules:
  assumes "remove_selected s selected wires = Some p"
  shows "map rr_id (routing_rules (apply_patch s p)) = filter (\<lambda>x. x \<notin> set selected) (map rr_id (routing_rules s))
    \<and> map rr_values (routing_rules (apply_patch s p))
        = map rr_values (filter (\<lambda>r. rr_id r \<notin> set selected) (routing_rules s))"
  unfolding removed_patch [OF assms] by (simp add: filter_map comp_def)

lemma removed_comments:
  assumes "remove_selected s selected wires = Some p"
  shows "map cm_id (routing_comments (apply_patch s p)) = filter (\<lambda>x. x \<notin> set selected) (map cm_id (routing_comments s))"
  unfolding removed_patch [OF assms] by (simp add: filter_map comp_def)

lemma removed_cut:
  assumes "remove_selected s selected wires = Some p"
  shows "\<forall>r \<in> set (routing_rules (apply_patch s p)).
          rr_id r \<in> edge_rule ` {e \<in> set wires. \<not> edge_fixed e} \<longrightarrow> rr_action r = None"
  unfolding removed_patch [OF assms] by (auto simp: survivor_def Let_def set_destination_def)

lemma survivor_server:
  "rr_server (survivor s sel ws r) = Some pid \<Longrightarrow> pid \<noteq> [] \<Longrightarrow> pid \<notin> set (gone_servers s sel)
     \<and> (rr_action (survivor s sel ws r) = Some a \<longrightarrow> rr_action r = Some a \<and> rr_server r = Some pid)"
  by (auto simp: survivor_def Let_def set_destination_def split: if_splits)

lemma removed_servers:
  assumes "remove_selected s selected wires = Some p"
  shows "server_node_id ` set (server_ids (apply_patch s p)) \<inter> set selected = {}"
proof -
  let ?s = "apply_patch s p"
  have kept: "pid \<notin> set (gone_servers s selected) \<and> pid \<in> set (server_ids s)"
    if pid: "pid \<in> set (server_ids ?s)" for pid
  proof -
    consider "pid \<in> set (or_else (routing_servers ?s) [])"
      | r' where "r' \<in> set (routing_rules ?s)" "rr_action r' = Some Proxy" "rr_server r' = Some pid" "pid \<noteq> []"
      | "default_action ?s = Proxy" "default_server ?s = pid" "pid \<noteq> []"
      using pid unfolding set_server_ids by blast
    then show ?thesis
    proof cases
      case 1
      then show ?thesis unfolding removed_patch [OF assms] by simp
    next
      case 2
      then obtain r where "r \<in> set (routing_rules s)" "r' = survivor s selected wires r"
        unfolding removed_patch [OF assms] by auto
      with 2 survivor_server [of s selected wires r pid Proxy] show ?thesis
        by (auto simp: set_server_ids [of s])
    next
      case 3
      then show ?thesis unfolding removed_patch [OF assms]
        by (auto simp: set_server_ids [of s] split: if_splits)
    qed
  qed
  show ?thesis
  proof (rule ccontr)
    assume "server_node_id ` set (server_ids ?s) \<inter> set selected \<noteq> {}"
    then obtain pid where "pid \<in> set (server_ids ?s)" "server_node_id pid \<in> set selected" by blast
    with kept [of pid] show False by (simp add: gone_servers_def)
  qed
qed

section \<open>Properties\<close>

text \<open>C1: Every wire of the canvas starts and ends at a node that is drawn, whatever the settings,
  the hidden destinations, the profiles and the live counts: no dangling wire.\<close>

theorem wires_end_on_canvas:
  "fe_source ` set (derived_edges s hits) \<union> fe_target ` set (derived_edges s hits)
     \<subseteq> fn_id ` set (derived_nodes s hidden profiles hits')"
proof (rule Un_least)
  show "fe_source ` set (derived_edges s hits) \<subseteq> fn_id ` set (derived_nodes s hidden profiles hits')"
    using edge_sources [of s hits] by (auto simp: node_ids)
  show "fe_target ` set (derived_edges s hits) \<subseteq> fn_id ` set (derived_nodes s hidden profiles hits')"
    using wire_target_drawn edge_targets [of s hits] by (metis image_set subsetI)
qed

text \<open>Taking a server off the canvas leaves nothing that refers to it: it is no destination any
  more, no rule and not the catch-all go through it, its position is forgotten; every rule keeps
  its id, its place in the order, what it matches and its action.\<close>

theorem remove_server_leaves_no_reference:
  "pid \<notin> set (server_ids (canvas_step s (TakeOffServer pid)))
   \<and> routing_layout (canvas_step s (TakeOffServer pid)) (server_node_id pid) = None
   \<and> map (rr_server_update (\<lambda>_. None)) (routing_rules (canvas_step s (TakeOffServer pid)))
       = map (rr_server_update (\<lambda>_. None)) (routing_rules s)
   \<and> default_action (canvas_step s (TakeOffServer pid)) = default_action s"
  by (auto simp: canvas_step_def remove_server_def set_server_ids split: if_splits)

text \<open>Dragging a rule's wire onto a destination re-points exactly that rule: its wire ends there
  afterwards, every other rule and the catch-all stay as they were.\<close>

theorem connect_repoints_rule:
  assumes "destination_node t" "source \<noteq> []" "source \<noteq> DEFAULT_NODE"
    and "r \<in> set (routing_rules s)" "rr_id r = source"
  shows "(\<exists>r' \<in> set (routing_rules (canvas_step s (ConnectWire source t))).
           rr_id r' = source \<and> fe_target (rule_edge hits r') = t)
    \<and> filter (\<lambda>x. rr_id x \<noteq> source) (routing_rules (canvas_step s (ConnectWire source t)))
        = filter (\<lambda>x. rr_id x \<noteq> source) (routing_rules s)
    \<and> default_action (canvas_step s (ConnectWire source t)) = default_action s
    \<and> default_server (canvas_step s (ConnectWire source t)) = default_server s"
proof -
  obtain a server where t: "target_of a (Some server) = t"
    and c: "on_connect s source t = Some (update_rule s source (set_destination (Some a) server))"
    using on_connect_rule [OF assms(1-3)] by blast
  let ?d = "set_destination (Some a) server"
  have rules: "routing_rules (canvas_step s (ConnectWire source t)) =
      map (\<lambda>x. if rr_id x = source then ?d x else x) (routing_rules s)"
    by (simp add: canvas_step_def c update_rule_def)
  have "?d r \<in> set (routing_rules (canvas_step s (ConnectWire source t)))"
    unfolding rules using assms(4,5) by (auto simp: image_iff intro!: bexI [of _ r])
  moreover have "rr_id (?d r) = source \<and> fe_target (rule_edge hits (?d r)) = t"
    using t assms(5) by (simp add: rule_edge_def) (simp add: set_destination_def)
  moreover have "filter (\<lambda>x. rr_id x \<noteq> source) (map (\<lambda>x. if rr_id x = source then ?d x else x) xs)
      = filter (\<lambda>x. rr_id x \<noteq> source) xs" for xs
    by (induction xs) auto
  moreover have "default_action (canvas_step s (ConnectWire source t)) = default_action s
    \<and> default_server (canvas_step s (ConnectWire source t)) = default_server s"
    by (simp add: canvas_step_def c update_rule_def)
  ultimately show ?thesis unfolding rules by blast
qed

definition sample_graph :: app_settings where
  "sample_graph = pending_settings\<lparr>
     routing_rules := [new_rule ''apps-1'' (Single Apps), (new_rule ''ip-2'' (Single Ip))\<lparr>rr_server := Some ''de''\<rparr>],
     routing_layout := [''apps-1'' \<mapsto> point 0 580]\<rparr>"

theorem connect_repoints_rule_witness:
  "\<exists>r' \<in> set (routing_rules (canvas_step sample_graph (ConnectWire ''ip-2'' ''action:block''))).
     rr_id r' = ''ip-2'' \<and> fe_target (rule_edge None r') = ''action:block''"
proof -
  have "destination_node ''action:block''"
    unfolding destination_node_def by (intro disjI1 exI [of _ Block]) (simp add: action_node_id_def ACTION_PREFIX_def)
  then show ?thesis
    by (rule connect_repoints_rule [where r = "routing_rules sample_graph ! 1", THEN conjunct1])
      (simp_all add: sample_graph_def new_rule_def DEFAULT_NODE_def)
qed

text \<open>A rule added from the palette is placed at least one row below every rule that has a saved
  position, so it never covers one.\<close>

theorem new_source_below_all:
  assumes "r \<in> set (routing_rules s)" "routing_layout s (rr_id r) = Some p"
    and "rr_id r \<noteq> kind_slug kind @ ''-'' @ stamp"
  shows "(\<exists>q. routing_layout (canvas_step s (AddSource kind stamp)) (kind_slug kind @ ''-'' @ stamp) = Some q
           \<and> cp_y p + SOURCE_GAP \<le> cp_y q)
    \<and> routing_layout (canvas_step s (AddSource kind stamp)) (rr_id r) = Some p"
  using assms next_source_position_below [OF assms(1,2)]
  by (simp_all add: canvas_step_def add_source_def Let_def)

theorem new_source_below_all_witness:
  "routing_layout (canvas_step sample_graph (AddSource (Single Port) ''3'')) ''apps-1'' = Some (point 0 580)"
proof -
  have "routing_layout (canvas_step sample_graph (AddSource (Single Port) ''3''))
      (rr_id (routing_rules sample_graph ! 0)) = Some (point 0 580)"
    by (rule new_source_below_all [THEN conjunct2]) (simp_all add: sample_graph_def new_rule_def)
  then show ?thesis by (simp add: sample_graph_def new_rule_def)
qed



text \<open>Deleting a selection removes exactly the selected rules and notes: the rules left keep their
  order and what they match, no selected server is a destination any more, and a rule whose wire
  was selected has no destination.\<close>

theorem delete_selected_effect:
  assumes "remove_selected s selected wires = Some p"
  shows "map rr_id (routing_rules (apply_patch s p)) = filter (\<lambda>x. x \<notin> set selected) (map rr_id (routing_rules s))
    \<and> map rr_values (routing_rules (apply_patch s p))
        = map rr_values (filter (\<lambda>r. rr_id r \<notin> set selected) (routing_rules s))
    \<and> map cm_id (routing_comments (apply_patch s p)) = filter (\<lambda>x. x \<notin> set selected) (map cm_id (routing_comments s))
    \<and> server_node_id ` set (server_ids (apply_patch s p)) \<inter> set selected = {}
    \<and> (\<forall>r \<in> set (routing_rules (apply_patch s p)).
          rr_id r \<in> edge_rule ` {e \<in> set wires. \<not> edge_fixed e} \<longrightarrow> rr_action r = None)"
  using removed_rules [OF assms] removed_servers [OF assms] removed_cut [OF assms]
    removed_comments [OF assms] by blast

theorem delete_selected_effect_witness:
  "map rr_id (routing_rules (canvas_step sample_graph (DeleteSelected [''ip-2''] []))) = [''apps-1'']"
proof -
  obtain p where p: "remove_selected sample_graph [''ip-2''] [] = Some p"
    by (simp add: remove_selected_def sample_graph_def new_rule_def Let_def)
  then have "canvas_step sample_graph (DeleteSelected [''ip-2''] []) = apply_patch sample_graph p"
    by (simp add: canvas_step_def)
  then show ?thesis
    using delete_selected_effect [OF p] by (simp add: sample_graph_def new_rule_def)
qed

end
