(* ===== verification/Routing_History.thy ===== *)
theory Routing_History
  imports Routing_Canvas
begin

text \<open>
  Undo and redo of the routing page (\<open>RoutingView\<close> in
  \<open>frontend/src/components/views/RoutingView.tsx\<close>): two stacks of graph snapshots, and the page
  as a state machine over the canvas events, undo, redo, imports and settings that arrive from
  the backend.  What undo relies on (a snapshot put back is the snapshot taken) is the locale
  \<open>snapshotted\<close>; its laws are proved for the settings at the end of the section.
\<close>

section \<open>The stacks\<close>

text \<open>JavaScript arrays used as stacks: \<open>push\<close> and \<open>pop\<close> work at the end, \<open>shift\<close> at the front.\<close>

record 'g history =
  h_past :: "'g list"
  h_future :: "'g list"

definition HISTORY_LIMIT :: nat where
  "HISTORY_LIMIT = 100"

definition no_history :: "'g history" where
  "no_history = \<lparr>h_past = [], h_future = []\<rparr>"

definition record_change :: "'g \<Rightarrow> 'g history \<Rightarrow> 'g history" where
  "record_change g h =
     (let past = h_past h @ [g]
      in \<lparr>h_past = (if length past > HISTORY_LIMIT then tl past else past), h_future = []\<rparr>)"

text \<open>\<open>undo\<close> and \<open>redo\<close> with the current snapshot: what to put back, and the stacks after.\<close>

definition undo_step :: "'g \<Rightarrow> 'g history \<Rightarrow> ('g \<times> 'g history) option" where
  "undo_step now h =
     (if h_past h = [] then None
      else Some (last (h_past h), \<lparr>h_past = butlast (h_past h), h_future = h_future h @ [now]\<rparr>))"

definition redo_step :: "'g \<Rightarrow> 'g history \<Rightarrow> ('g \<times> 'g history) option" where
  "redo_step now h =
     (if h_future h = [] then None
      else Some (last (h_future h), \<lparr>h_past = h_past h @ [now], h_future = butlast (h_future h)\<rparr>))"

definition history_bounded :: "'g history \<Rightarrow> bool" where
  "history_bounded h \<longleftrightarrow> length (h_past h) + length (h_future h) \<le> HISTORY_LIMIT"

lemma history_bounded_new [intro]: "history_bounded no_history"
  by (simp add: history_bounded_def no_history_def HISTORY_LIMIT_def)

lemma history_bounded_record [intro]: "history_bounded h \<Longrightarrow> history_bounded (record_change g h)"
  by (auto simp: history_bounded_def record_change_def Let_def HISTORY_LIMIT_def)

lemma Suc_length_less [simp]: "xs \<noteq> [] \<Longrightarrow> Suc (length xs - Suc 0 + n) = length xs + n"
  "xs \<noteq> [] \<Longrightarrow> Suc (n + (length xs - Suc 0)) = n + length xs"
  by (cases xs; simp)+

lemma history_bounded_undo: "history_bounded h \<Longrightarrow> undo_step g h = Some (x, h') \<Longrightarrow> history_bounded h'"
  by (auto simp: history_bounded_def undo_step_def split: if_splits)

lemma history_bounded_redo: "history_bounded h \<Longrightarrow> redo_step g h = Some (x, h') \<Longrightarrow> history_bounded h'"
  by (auto simp: history_bounded_def redo_step_def split: if_splits)

lemma record_change_past: "h_past (record_change g h) \<noteq> [] \<and> last (h_past (record_change g h)) = g"
  by (cases "h_past h") (auto simp: record_change_def Let_def HISTORY_LIMIT_def)

lemma undo_record: "undo_step now (record_change g h) =
    Some (g, \<lparr>h_past = butlast (h_past (record_change g h)), h_future = [now]\<rparr>)"
  using record_change_past [of g h] by (simp add: undo_step_def record_change_def Let_def)

section \<open>What undo relies on\<close>

locale snapshotted =
  fixes snap :: "'s \<Rightarrow> 'g"
    and restore :: "'s \<Rightarrow> 'g \<Rightarrow> 's"
  assumes snap_restore: "snap (restore s (snap t)) = snap t"
    and restore_snap: "restore s (snap s) = s"
    and restore_restore: "restore (restore s (snap t)) (snap u) = restore s (snap u)"
begin

text \<open>Undoing a change and redoing it gives the changed state back.\<close>

lemma undo_redo: "restore (restore t (snap s)) (snap t) = t"
  by (simp add: restore_restore restore_snap)

text \<open>A run of changes: each is made on the state left by the one before, and is recorded.\<close>

lemma undo_restores:
  "snap (restore t (fst (the (undo_step (snap t) (record_change (snap s) h))))) = snap s"
  by (simp add: undo_record snap_restore)

lemma restore_same_snap: "snap s = snap t \<Longrightarrow> restore u (snap s) = restore u (snap t)"
  by simp

end

section \<open>The page\<close>

record routing_page =
  pg_settings :: app_settings
  pg_history :: "graph_patch history"

text \<open>\<open>snapshot\<close>: the six settings of \<open>GRAPH_KEYS\<close>.\<close>

definition snapshot :: "app_settings \<Rightarrow> graph_patch" where
  "snapshot s = \<lparr>gp_rules = Some (routing_rules s), gp_layout = Some (routing_layout s),
     gp_comments = Some (routing_comments s), gp_default_action = Some (default_action s),
     gp_default_server = Some (default_server s), gp_servers = Some (routing_servers s), gp_geo_files = None\<rparr>"

definition touches_graph :: "graph_patch \<Rightarrow> bool" where
  "touches_graph p \<longleftrightarrow> gp_rules p \<noteq> None \<or> gp_layout p \<noteq> None \<or> gp_comments p \<noteq> None
     \<or> gp_default_action p \<noteq> None \<or> gp_default_server p \<noteq> None \<or> gp_servers p \<noteq> None"

definition page_change :: "routing_page \<Rightarrow> graph_patch \<Rightarrow> routing_page" where
  "page_change v p =
     \<lparr>pg_settings = apply_patch (pg_settings v) p,
      pg_history = (if touches_graph p then record_change (snapshot (pg_settings v)) (pg_history v)
                    else pg_history v)\<rparr>"

definition page_undo :: "routing_page \<Rightarrow> routing_page" where
  "page_undo v =
     (case undo_step (snapshot (pg_settings v)) (pg_history v) of
        None \<Rightarrow> v
      | Some (g, h) \<Rightarrow> \<lparr>pg_settings = apply_patch (pg_settings v) g, pg_history = h\<rparr>)"

definition page_redo :: "routing_page \<Rightarrow> routing_page" where
  "page_redo v =
     (case redo_step (snapshot (pg_settings v)) (pg_history v) of
        None \<Rightarrow> v
      | Some (g, h) \<Rightarrow> \<lparr>pg_settings = apply_patch (pg_settings v) g, pg_history = h\<rparr>)"

text \<open>Settings that arrive already saved; another setup is another graph, so its history goes.\<close>

definition page_replace :: "routing_page \<Rightarrow> app_settings \<Rightarrow> routing_page" where
  "page_replace v s =
     \<lparr>pg_settings = s,
      pg_history = (if active_routing_setup s = active_routing_setup (pg_settings v) then pg_history v
                    else no_history)\<rparr>"

interpretation graph: snapshotted snapshot apply_patch
  by unfold_locales (simp_all add: snapshot_def apply_patch_def)

lemma snapshot_touches [simp]: "touches_graph (snapshot s)"
  by (simp add: snapshot_def touches_graph_def)

datatype page_event =
    Edit canvas_event
  | SetGeoFiles "geo_kind \<rightharpoonup> geo_file"
  | Import app_settings
  | Undo
  | Redo
  | Replace app_settings

fun page_step :: "routing_page \<Rightarrow> page_event \<Rightarrow> routing_page" where
  "page_step v (Edit e) =
     (case canvas_handler (pg_settings v) e of None \<Rightarrow> v | Some p \<Rightarrow> page_change v p)"
| "page_step v (SetGeoFiles f) = page_change v (no_patch\<lparr>gp_geo_files := Some f\<rparr>)"
| "page_step v (Import s) = page_change v (import_routing s)"
| "page_step v Undo = page_undo v"
| "page_step v Redo = page_redo v"
| "page_step v (Replace s) = page_replace v s"

fun page_event_ok :: "routing_page \<Rightarrow> page_event \<Rightarrow> bool" where
  "page_event_ok v (Edit e) = event_ok (pg_settings v) e"
| "page_event_ok v (Import s) = graph_wf s"
| "page_event_ok v (Replace s) = graph_wf s"
| "page_event_ok v _ = True"

text \<open>The page's states, from a first render of the settings on.\<close>

inductive page_reachable :: "routing_page \<Rightarrow> bool" where
  opened: "graph_wf s \<Longrightarrow> page_reachable \<lparr>pg_settings = s, pg_history = no_history\<rparr>"
| stepped: "page_reachable v \<Longrightarrow> page_event_ok v e \<Longrightarrow> page_reachable (page_step v e)"

section \<open>The page's invariant\<close>

text \<open>The graph on screen and every graph undo or redo can bring back are well-formed.\<close>

definition wf_snapshot :: "graph_patch \<Rightarrow> bool" where
  "wf_snapshot g \<longleftrightarrow> (\<exists>s. graph_wf s \<and> g = snapshot s)"

definition page_inv :: "routing_page \<Rightarrow> bool" where
  "page_inv v \<longleftrightarrow> graph_wf (pg_settings v) \<and> history_bounded (pg_history v)
     \<and> (\<forall>g \<in> set (h_past (pg_history v)) \<union> set (h_future (pg_history v)). wf_snapshot g)"

lemma graph_wf_restore: "wf_snapshot g \<Longrightarrow> graph_wf (apply_patch s g)"
  by (auto simp: wf_snapshot_def graph_wf_parts snapshot_def)

lemma set_record_change: "set (h_past (record_change g h)) \<subseteq> insert g (set (h_past h))"
  by (cases "h_past h") (auto simp: record_change_def Let_def)

lemma h_future_record [simp]: "h_future (record_change g h) = []"
  by (simp add: record_change_def Let_def)

lemma page_inv_change:
  assumes "page_inv v" "graph_wf (apply_patch (pg_settings v) p)"
  shows "page_inv (page_change v p)"
  using assms set_record_change [of "snapshot (pg_settings v)" "pg_history v"]
  by (auto simp: page_inv_def page_change_def wf_snapshot_def)

lemma page_inv_undo: "page_inv v \<Longrightarrow> page_inv (page_undo v)"
  by (auto simp: page_inv_def page_undo_def undo_step_def history_bounded_def wf_snapshot_def
      dest: in_set_butlastD split: option.splits if_splits intro!: graph_wf_restore)

lemma page_inv_redo: "page_inv v \<Longrightarrow> page_inv (page_redo v)"
  by (auto simp: page_inv_def page_redo_def redo_step_def history_bounded_def wf_snapshot_def
      dest: in_set_butlastD split: option.splits if_splits intro!: graph_wf_restore)

lemma page_inv_replace: "page_inv v \<Longrightarrow> graph_wf s \<Longrightarrow> page_inv (page_replace v s)"
  by (auto simp: page_inv_def page_replace_def no_history_def history_bounded_def)

lemma graph_wf_import: "graph_wf s \<Longrightarrow> graph_wf (apply_patch t (import_routing s))"
  by (auto simp: graph_wf_def graph_ids_def import_routing_def)

lemma graph_wf_geo: "graph_wf s \<Longrightarrow> graph_wf (apply_patch s (no_patch\<lparr>gp_geo_files := Some f\<rparr>))"
  by (simp add: graph_wf_def graph_ids_def)

lemma page_inv_step:
  assumes "page_inv v" "page_event_ok v e"
  shows "page_inv (page_step v e)"
proof (cases e)
  case (Edit e')
  show ?thesis
  proof (cases "canvas_handler (pg_settings v) e'")
    case (Some p)
    have "graph_wf (canvas_step (pg_settings v) e')"
      using assms Edit by (auto simp: page_inv_def intro: canvas_step_wf)
    with Some Edit assms(1) show ?thesis by (simp add: canvas_step_def page_inv_change)
  qed (use assms Edit in simp)
qed (use assms in \<open>auto simp: page_inv_undo page_inv_redo page_inv_replace page_inv_change
      graph_wf_import graph_wf_geo page_inv_def [of v]\<close>)

lemma page_reachable_inv: "page_reachable v \<Longrightarrow> page_inv v"
proof (induction rule: page_reachable.induct)
  case (opened s)
  then show ?case by (auto simp: page_inv_def no_history_def history_bounded_def)
qed (rule page_inv_step)

section \<open>Runs of undo and redo\<close>

text \<open>\<open>is_snapshot\<close> snapshots collapse: only the last one put back counts.\<close>

lemma restore_again:
  "\<exists>u. g = snapshot u \<Longrightarrow> \<exists>u. h = snapshot u \<Longrightarrow> apply_patch (apply_patch s g) h = apply_patch s h"
  by (auto simp: graph.restore_restore)

lemma undo_one:
  assumes "h_past (pg_history v) = q @ [snapshot t]"
  shows "page_undo v = \<lparr>pg_settings = apply_patch (pg_settings v) (snapshot t),
     pg_history = \<lparr>h_past = q, h_future = h_future (pg_history v) @ [snapshot (pg_settings v)]\<rparr>\<rparr>"
  using assms by (simp add: page_undo_def undo_step_def)

lemma redo_one:
  assumes "h_future (pg_history v) = f @ [snapshot t]"
  shows "page_redo v = \<lparr>pg_settings = apply_patch (pg_settings v) (snapshot t),
     pg_history = \<lparr>h_past = h_past (pg_history v) @ [snapshot (pg_settings v)], h_future = f\<rparr>\<rparr>"
  using assms by (simp add: page_redo_def redo_step_def)

lemma undo_run:
  assumes "h_past (pg_history v) = q @ map snapshot ts"
  shows "(page_undo ^^ length ts) v =
    \<lparr>pg_settings = apply_patch (pg_settings v) (snapshot (hd (ts @ [pg_settings v]))),
     pg_history = \<lparr>h_past = q,
       h_future = h_future (pg_history v) @ rev (map snapshot (tl (ts @ [pg_settings v])))\<rparr>\<rparr>"
  using assms
proof (induction ts arbitrary: v rule: rev_induct)
  case Nil
  then show ?case by (cases v; cases "pg_history v") (simp add: graph.restore_snap)
next
  case (snoc t ts)
  from snoc.prems have one: "page_undo v = \<lparr>pg_settings = apply_patch (pg_settings v) (snapshot t),
      pg_history = \<lparr>h_past = q @ map snapshot ts, h_future = h_future (pg_history v) @ [snapshot (pg_settings v)]\<rparr>\<rparr>"
    by (intro undo_one) simp
  have "(page_undo ^^ length (ts @ [t])) v = (page_undo ^^ length ts) (page_undo v)"
    by (simp add: funpow_swap1)
  also have "\<dots> = \<lparr>pg_settings = apply_patch (apply_patch (pg_settings v) (snapshot t))
        (snapshot (hd (ts @ [apply_patch (pg_settings v) (snapshot t)]))),
      pg_history = \<lparr>h_past = q, h_future = h_future (pg_history v) @ [snapshot (pg_settings v)]
        @ rev (map snapshot (tl (ts @ [apply_patch (pg_settings v) (snapshot t)])))\<rparr>\<rparr>"
    by (subst snoc.IH) (simp_all add: one)
  finally show ?case
    by (cases ts) (simp_all add: graph.restore_restore graph.snap_restore)
qed

lemma redo_run:
  assumes "h_future (pg_history v) = f @ rev (map snapshot ts)"
  shows "pg_settings ((page_redo ^^ length ts) v) = apply_patch (pg_settings v) (snapshot (last (pg_settings v # ts)))"
  using assms
proof (induction ts arbitrary: v)
  case Nil
  then show ?case by (simp add: graph.restore_snap)
next
  case (Cons t ts)
  then have one: "page_redo v = \<lparr>pg_settings = apply_patch (pg_settings v) (snapshot t),
      pg_history = \<lparr>h_past = h_past (pg_history v) @ [snapshot (pg_settings v)], h_future = f @ rev (map snapshot ts)\<rparr>\<rparr>"
    by (intro redo_one) simp
  have "(page_redo ^^ length (t # ts)) v = (page_redo ^^ length ts) (page_redo v)"
    by (simp add: funpow_swap1)
  with Cons.IH [of "page_redo v"] show ?case
    by (cases ts) (simp_all add: one graph.restore_restore graph.snap_restore)
qed

text \<open>A run of changes leaves its own snapshots on top of the stack, whatever was below them.\<close>

fun states_before :: "routing_page \<Rightarrow> graph_patch list \<Rightarrow> app_settings list" where
  "states_before v [] = []"
| "states_before v (p # ps) = pg_settings v # states_before (page_change v p) ps"

lemma length_states_before [simp]: "length (states_before v ps) = length ps"
  by (induction ps arbitrary: v) auto

lemma states_before_snoc:
  "states_before v (ps @ [p]) = states_before v ps @ [pg_settings (foldl page_change v ps)]"
  by (induction ps arbitrary: v) auto

lemma record_change_suffix:
  assumes "h_past h = q @ xs" "length xs < HISTORY_LIMIT"
  shows "\<exists>q'. h_past (record_change g h) = q' @ xs @ [g]"
proof (cases "q = []")
  case True
  with assms show ?thesis by (auto simp: record_change_def Let_def)
next
  case False
  then obtain a q'' where "q = a # q''" by (cases q) auto
  with assms show ?thesis
    by (cases "length (h_past h @ [g]) > HISTORY_LIMIT") (auto simp: record_change_def Let_def)
qed

lemma page_change_step:
  assumes "touches_graph p"
  shows "pg_history (page_change v p) = record_change (snapshot (pg_settings v)) (pg_history v)"
  using assms by (simp add: page_change_def)

lemma past_of_run:
  assumes "length ps \<le> HISTORY_LIMIT" "\<forall>p \<in> set ps. touches_graph p"
  shows "\<exists>q. h_past (pg_history (foldl page_change v ps)) = q @ map snapshot (states_before v ps)"
  using assms
proof (induction ps rule: rev_induct)
  case Nil
  then show ?case by simp
next
  case (snoc p ps)
  then obtain q where "h_past (pg_history (foldl page_change v ps)) = q @ map snapshot (states_before v ps)"
    by auto
  with snoc.prems record_change_suffix [of "pg_history (foldl page_change v ps)" q "map snapshot (states_before v ps)"]
  show ?case by (simp add: page_change_step states_before_snoc)
qed

lemma future_of_run:
  "ps \<noteq> [] \<Longrightarrow> \<forall>p \<in> set ps. touches_graph p \<Longrightarrow> h_future (pg_history (foldl page_change v ps)) = []"
  by (cases ps rule: rev_exhaust) (auto simp: page_change_def)

section \<open>Properties\<close>


definition sample_page :: routing_page where
  "sample_page = \<lparr>pg_settings = sample_graph, pg_history = no_history\<rparr>"

lemma sample_graph_wf: "graph_wf sample_graph"
  by (simp add: graph_wf_def graph_ids_def sample_graph_def new_rule_def user_id_def DEFAULT_NODE_def
      ACTION_PREFIX_def SERVER_PREFIX_def js_starts_with_def pending_settings_def)


text \<open>Up to a hundred graph changes in a row can all be undone: as many undos put the graph back
  exactly as it was before the first of them, leave every other setting alone, and the same number
  of redos gives back exactly the settings undone.\<close>

theorem undo_then_redo_run:
  fixes v :: routing_page and ps :: "graph_patch list"
  assumes "length ps \<le> 100" "\<forall>p \<in> set ps. touches_graph p"
  defines "w \<equiv> foldl page_change v ps"
  shows "snapshot (pg_settings ((page_undo ^^ length ps) w)) = snapshot (pg_settings v)
    \<and> pg_settings ((page_undo ^^ length ps) w) = apply_patch (pg_settings w) (snapshot (pg_settings v))
    \<and> pg_settings ((page_redo ^^ length ps) ((page_undo ^^ length ps) w)) = pg_settings w"
proof (cases "ps = []")
  case True
  then show ?thesis by (simp add: w_def graph.restore_snap)
next
  case False
  let ?ts = "states_before v ps"
  obtain q where "h_past (pg_history w) = q @ map snapshot ?ts"
    using past_of_run [of ps v] assms by (auto simp: HISTORY_LIMIT_def)
  then have u: "(page_undo ^^ length ps) w =
      \<lparr>pg_settings = apply_patch (pg_settings w) (snapshot (pg_settings v)),
       pg_history = \<lparr>h_past = q, h_future = [] @ rev (map snapshot (tl (?ts @ [pg_settings w])))\<rparr>\<rparr>"
    using undo_run [of w q ?ts] False future_of_run [OF False assms(2), of v]
    by (cases ps) (simp_all add: w_def)
  let ?u = "(page_undo ^^ length ps) w"
  have l: "length (tl (?ts @ [pg_settings w])) = length ps" and t: "last (pg_settings ?u # tl (?ts @ [pg_settings w])) = pg_settings w"
    using False by (cases ps; simp)+
  have "h_future (pg_history ?u) = [] @ rev (map snapshot (tl (?ts @ [pg_settings w])))"
    unfolding u by (simp only: routing_page.select_convs history.select_convs)
  from redo_run [OF this, unfolded l t]
  have r: "pg_settings ((page_redo ^^ length ps) ?u) = apply_patch (pg_settings ?u) (snapshot (pg_settings w))" .
  have "pg_settings ?u = apply_patch (pg_settings w) (snapshot (pg_settings v))" by (simp add: u)
  then show ?thesis unfolding r by (simp add: graph.snap_restore graph.restore_restore graph.restore_snap)
qed

lemma length_two_changes: "length [p, q :: graph_patch] = 2"
  by simp

theorem undo_then_redo_run_witness:
  "snapshot (pg_settings ((page_undo ^^ 2) (foldl page_change sample_page [clear_rules, set_default Direct])))
     = snapshot sample_graph"
proof -
  have "\<forall>p \<in> set [clear_rules, set_default Direct]. touches_graph p"
    by (simp add: touches_graph_def clear_rules_def set_default_def)
  from undo_then_redo_run [OF _ this, of sample_page, THEN conjunct1] show ?thesis
    by (simp only: sample_page_def routing_page.select_convs length_two_changes)
qed

end
