(* ===== verification/Routing_Timeline.thy ===== *)
theory Routing_Timeline
  imports Routing_History
begin

text \<open>
  What undo and redo promise, without their two stacks: a timeline of graphs with a cursor.  The
  page of \<open>Routing_History\<close> refines it under \<open>timeline\<close>: every operation of the page is the
  operation of the timeline.
\<close>

section \<open>The timeline\<close>

record 'g timeline =
  tl_states :: "'g list"
  tl_now :: nat

text \<open>A change drops what was undone and, beyond the limit, the oldest graph.\<close>

definition tl_change :: "nat \<Rightarrow> 'g \<Rightarrow> 'g timeline \<Rightarrow> 'g timeline" where
  "tl_change bound g T =
     (let kept = take (Suc (tl_now T)) (tl_states T);
          past = (if length kept > bound then tl kept else kept)
      in \<lparr>tl_states = past @ [g], tl_now = length past\<rparr>)"

definition tl_undo :: "'g timeline \<Rightarrow> 'g timeline" where
  "tl_undo T = T\<lparr>tl_now := tl_now T - 1\<rparr>"

definition tl_redo :: "'g timeline \<Rightarrow> 'g timeline" where
  "tl_redo T = (if Suc (tl_now T) < length (tl_states T) then T\<lparr>tl_now := Suc (tl_now T)\<rparr> else T)"

definition tl_current :: "'g timeline \<Rightarrow> 'g" where
  "tl_current T = tl_states T ! tl_now T"

lemma tl_undo_many: "(tl_undo ^^ n) T = T\<lparr>tl_now := tl_now T - n\<rparr>"
  by (induction n) (simp_all add: tl_undo_def)

lemma tl_redo_many:
  "tl_now T < length (tl_states T) \<Longrightarrow> (tl_redo ^^ n) T = T\<lparr>tl_now := min (tl_now T + n) (length (tl_states T) - 1)\<rparr>"
  by (induction n) (auto simp: tl_redo_def)

section \<open>The refinement\<close>

definition timeline :: "routing_page \<Rightarrow> graph_patch timeline" where
  "timeline v =
     \<lparr>tl_states = h_past (pg_history v) @ [snapshot (pg_settings v)] @ rev (h_future (pg_history v)),
      tl_now = length (h_past (pg_history v))\<rparr>"

lemma timeline_current [simp]: "tl_current (timeline v) = snapshot (pg_settings v)"
  by (simp add: tl_current_def timeline_def)

lemma timeline_now: "tl_now (timeline v) < length (tl_states (timeline v))"
  by (simp add: timeline_def)

lemma snapshot_put_back: "wf_snapshot g \<Longrightarrow> snapshot (apply_patch s g) = g"
  by (auto simp: wf_snapshot_def graph.snap_restore)

lemma untouched_snapshot: "\<not> touches_graph p \<Longrightarrow> snapshot (apply_patch s p) = snapshot s"
  by (simp add: touches_graph_def snapshot_def apply_patch_def)

lemma timeline_change:
  "timeline (page_change v p) =
    (if touches_graph p then tl_change HISTORY_LIMIT (snapshot (apply_patch (pg_settings v) p)) (timeline v) else timeline v)"
  by (simp add: timeline_def page_change_def tl_change_def record_change_def untouched_snapshot Let_def)

lemma timeline_undo:
  assumes "page_inv v"
  shows "timeline (page_undo v) = tl_undo (timeline v)"
proof (cases "h_past (pg_history v)" rule: rev_cases)
  case Nil
  then show ?thesis by (simp add: page_undo_def undo_step_def timeline_def tl_undo_def)
next
  case (snoc q g)
  with assms have "wf_snapshot g" by (simp add: page_inv_def)
  with snoc show ?thesis
    by (simp add: page_undo_def undo_step_def timeline_def tl_undo_def snapshot_put_back)
qed

lemma timeline_redo:
  assumes "page_inv v"
  shows "timeline (page_redo v) = tl_redo (timeline v)"
proof (cases "h_future (pg_history v)" rule: rev_cases)
  case Nil
  then show ?thesis by (simp add: page_redo_def redo_step_def timeline_def tl_redo_def)
next
  case (snoc q g)
  with assms have "wf_snapshot g" by (simp add: page_inv_def)
  with snoc show ?thesis
    by (simp add: page_redo_def redo_step_def timeline_def tl_redo_def snapshot_put_back)
qed

section \<open>Properties\<close>

text \<open>C7: The page's undo and redo refine a timeline with a cursor: in every reachable state a change cuts off
  what was undone and appends the new graph (dropping the oldest beyond a hundred), undo moves the
  cursor back, redo moves it forward, and each stops at the end of the timeline.\<close>

theorem page_refines_timeline:
  assumes "page_reachable v"
  shows "timeline (page_undo v) = tl_undo (timeline v) \<and> timeline (page_redo v) = tl_redo (timeline v) \<and>
    timeline (page_change v p) =
      (if touches_graph p then tl_change 100 (snapshot (apply_patch (pg_settings v) p)) (timeline v) else timeline v)"
  using timeline_undo [OF page_reachable_inv [OF assms]] timeline_redo [OF page_reachable_inv [OF assms]]
    timeline_change [of v p]
  by (simp add: HISTORY_LIMIT_def)

lemma sample_reachable: "page_reachable (page_step sample_page (Edit ClearRules))"
  by (rule page_reachable.stepped) (simp_all add: sample_page_def page_reachable.opened [OF sample_graph_wf])

theorem page_refines_timeline_witness:
  "tl_now (timeline (page_undo (page_step sample_page (Edit ClearRules)))) = 0"
proof -
  have "length (h_past (pg_history (page_step sample_page (Edit ClearRules)))) \<le> 1"
    by (simp add: sample_page_def page_change_def no_history_def record_change_def HISTORY_LIMIT_def split: option.split)
  with page_refines_timeline [OF sample_reachable] show ?thesis by (simp add: tl_undo_def timeline_def)
qed

lemma undo_keeps_reachable: "page_reachable v \<Longrightarrow> page_reachable ((page_undo ^^ n) v)"
proof (induction n)
  case (Suc n)
  then have "page_reachable (page_step ((page_undo ^^ n) v) Undo)" by (intro page_reachable.stepped) simp_all
  then show ?case by simp
qed simp

lemma redo_keeps_reachable: "page_reachable v \<Longrightarrow> page_reachable ((page_redo ^^ n) v)"
proof (induction n)
  case (Suc n)
  then have "page_reachable (page_step ((page_redo ^^ n) v) Redo)" by (intro page_reachable.stepped) simp_all
  then show ?case by simp
qed simp

lemma timeline_undos: "page_reachable v \<Longrightarrow> timeline ((page_undo ^^ n) v) = (tl_undo ^^ n) (timeline v)"
  using undo_keeps_reachable by (induction n) (simp_all add: timeline_undo page_reachable_inv)

lemma timeline_redos: "page_reachable v \<Longrightarrow> timeline ((page_redo ^^ n) v) = (tl_redo ^^ n) (timeline v)"
  using redo_keeps_reachable by (induction n) (simp_all add: timeline_redo page_reachable_inv)

text \<open>Pressing undo often enough always arrives at the oldest graph kept, and pressing redo often enough at
  the newest: a hundred presses are enough from every reachable state, and both leave the
  timeline itself as it was.\<close>

theorem hundred_presses_reach_ends:
  assumes "page_reachable v"
  shows "snapshot (pg_settings ((page_undo ^^ 100) v)) = hd (tl_states (timeline v)) \<and>
    snapshot (pg_settings ((page_redo ^^ 100) v)) = last (tl_states (timeline v)) \<and>
    tl_states (timeline ((page_undo ^^ 100) v)) = tl_states (timeline v) \<and>
    tl_states (timeline ((page_redo ^^ 100) v)) = tl_states (timeline v)"
proof -
  let ?T = "timeline v"
  have b: "length (h_past (pg_history v)) + length (h_future (pg_history v)) \<le> 100"
    using page_reachable_inv [OF assms] by (simp add: page_inv_def history_bounded_def HISTORY_LIMIT_def)
  have u: "timeline ((page_undo ^^ 100) v) = ?T\<lparr>tl_now := 0\<rparr>"
    using b timeline_undos [OF assms, of 100] by (simp add: tl_undo_many) (simp add: timeline_def)
  have r: "timeline ((page_redo ^^ 100) v) = ?T\<lparr>tl_now := length (tl_states ?T) - 1\<rparr>"
    using b timeline_redos [OF assms, of 100] by (simp add: tl_redo_many timeline_now) (simp add: timeline_def)
  have "tl_states ?T \<noteq> []" by (simp add: timeline_def)
  then have "tl_current (?T\<lparr>tl_now := 0\<rparr>) = hd (tl_states ?T)"
    "tl_current (?T\<lparr>tl_now := length (tl_states ?T) - 1\<rparr>) = last (tl_states ?T)"
    by (simp_all add: tl_current_def hd_conv_nth last_conv_nth)
  moreover note timeline_current [of "(page_undo ^^ 100) v", unfolded u]
    timeline_current [of "(page_redo ^^ 100) v", unfolded r]
  moreover have "tl_states (timeline ((page_undo ^^ 100) v)) = tl_states ?T"
    "tl_states (timeline ((page_redo ^^ 100) v)) = tl_states ?T"
    unfolding u r by simp_all
  ultimately show ?thesis by metis
qed

theorem hundred_presses_reach_ends_witness:
  "snapshot (pg_settings ((page_undo ^^ 100) (page_step sample_page (Edit ClearRules))))
     = hd (tl_states (timeline (page_step sample_page (Edit ClearRules))))"
  using hundred_presses_reach_ends [OF sample_reachable] by (elim conjE)

end
