(* ===== verification/Js_Order.thy ===== *)
theory Js_Order
  imports Js_Base "HOL-Library.Multiset"
begin

text \<open>
  Sorting and duplicate removal as JavaScript does them: \<open>Array.prototype.sort\<close> is stable, and
  \<open>Array.from(new Set(xs))\<close> keeps the first of equal elements.  The contract a comparison
  function has to meet is the locale \<open>comparator\<close>; the orders the components sort by are
  interpretations of it.
\<close>

section \<open>Duplicates\<close>

text \<open>\<open>Array.from(new Set(xs))\<close>.\<close>

fun js_unique :: "'a list \<Rightarrow> 'a list" where
  "js_unique [] = []"
| "js_unique (x # xs) = x # filter (\<lambda>y. y \<noteq> x) (js_unique xs)"

lemma set_js_unique [simp]: "set (js_unique xs) = set xs"
  by (induction xs) auto

lemma distinct_js_unique [simp]: "distinct (js_unique xs)"
  by (induction xs) auto

lemma js_unique_id: "distinct xs \<Longrightarrow> js_unique xs = xs"
  by (induction xs) (auto simp: filter_id_conv)

lemma js_unique_nonempty [simp]: "js_unique xs = [] \<longleftrightarrow> xs = []"
  by (cases xs) auto

section \<open>Stable sorting\<close>

text \<open>\<open>xs.sort(c)\<close>, where \<open>le a b\<close> says that \<open>c(a, b) <= 0\<close>.\<close>

fun insert_by :: "('a \<Rightarrow> 'a \<Rightarrow> bool) \<Rightarrow> 'a \<Rightarrow> 'a list \<Rightarrow> 'a list" where
  "insert_by le x [] = [x]"
| "insert_by le x (y # ys) = (if le x y then x # y # ys else y # insert_by le x ys)"

definition js_sort :: "('a \<Rightarrow> 'a \<Rightarrow> bool) \<Rightarrow> 'a list \<Rightarrow> 'a list" where
  "js_sort le xs = foldr (insert_by le) xs []"

lemma js_sort_simps [simp]: "js_sort le [] = []" "js_sort le (x # xs) = insert_by le x (js_sort le xs)"
  by (simp_all add: js_sort_def)

lemma mset_insert_by [simp]: "mset (insert_by le x xs) = add_mset x (mset xs)"
  by (induction xs) auto

lemma mset_js_sort [simp]: "mset (js_sort le xs) = mset xs"
  by (induction xs) simp_all

lemma set_js_sort [simp]: "set (js_sort le xs) = set xs"
  using mset_js_sort by (metis set_mset_mset)

lemma length_js_sort [simp]: "length (js_sort le xs) = length xs"
  using mset_js_sort by (metis size_mset)

lemma distinct_js_sort [simp]: "distinct (js_sort le xs) = distinct xs"
  using mset_js_sort by (metis distinct_count_atmost_1 set_js_sort)

lemma js_sort_nonempty [simp]: "js_sort le xs = [] \<longleftrightarrow> xs = []"
  by (metis length_0_conv length_js_sort)

lemma sum_list_js_sort [simp]:
  fixes f :: "'a \<Rightarrow> 'b :: comm_monoid_add"
  shows "sum_list (map f (js_sort le xs)) = sum_list (map f xs)"
  by (metis mset_js_sort mset_map sum_mset_sum_list)

lemma set_om_set_sub: "set (om_set m k v) \<subseteq> insert (k, v) (set m)"
  by (induction m) (auto split: if_splits)

text \<open>Sums over the values of an insertion-ordered map.\<close>

lemma om_set_sum:
  fixes f :: "'v \<Rightarrow> 'b :: comm_monoid_add"
  shows "sum_list (map (f \<circ> snd) (om_set m k v)) + (case om_get m k of None \<Rightarrow> 0 | Some w \<Rightarrow> f w)
    = sum_list (map (f \<circ> snd) m) + f v"
  by (induction m) (auto simp: om_get_def ac_simps)

locale comparator =
  fixes le :: "'a \<Rightarrow> 'a \<Rightarrow> bool"
  assumes le_total: "le x y \<or> le y x"
    and le_trans: "le x y \<Longrightarrow> le y z \<Longrightarrow> le x z"
begin

lemma le_refl: "le x x"
  using le_total by blast

lemma le_flip: "\<not> le x y \<Longrightarrow> le y x"
  using le_total by blast

lemma sorted_insert: "sorted_wrt le ys \<Longrightarrow> sorted_wrt le (insert_by le x ys)"
proof (induction ys)
  case (Cons y ys)
  have "set (insert_by le x ys) = insert x (set ys)"
    by (metis mset_insert_by set_mset_add_mset_insert set_mset_mset)
  with Cons show ?case by (auto intro: le_trans le_flip)
qed simp

lemma sorted_sort: "sorted_wrt le (js_sort le xs)"
  by (induction xs) (simp_all add: sorted_insert)

lemma sort_fixed: "sorted_wrt le xs \<Longrightarrow> js_sort le xs = xs"
proof (induction xs)
  case (Cons x xs)
  then show ?case by (cases xs) auto
qed simp

lemma sort_sort: "js_sort le (js_sort le xs) = js_sort le xs"
  by (rule sort_fixed [OF sorted_sort])

text \<open>Elements that compare equal keep their order.\<close>

lemma insert_stable:
  "sorted_wrt le ys \<Longrightarrow> filter (\<lambda>y. le a y \<and> le y a) (insert_by le x ys)
     = (if le a x \<and> le x a then x # filter (\<lambda>y. le a y \<and> le y a) ys else filter (\<lambda>y. le a y \<and> le y a) ys)"
proof (induction ys)
  case (Cons y ys)
  show ?case
  proof (cases "le x y")
    case False
    with le_total have "le y x" by blast
    with False have "\<not> (le a x \<and> le x a \<and> le a y \<and> le y a)" using le_trans by blast
    with False Cons show ?thesis by auto
  qed simp
qed simp

lemma sort_stable: "filter (\<lambda>y. le a y \<and> le y a) (js_sort le xs) = filter (\<lambda>y. le a y \<and> le y a) xs"
  by (induction xs) (simp_all add: insert_stable sorted_sort)

lemma sort_head: "xs \<noteq> [] \<Longrightarrow> x \<in> set xs \<Longrightarrow> le (hd (js_sort le xs)) x"
proof -
  assume "xs \<noteq> []" "x \<in> set xs"
  then obtain y ys where y: "js_sort le xs = y # ys" by (cases "js_sort le xs") auto
  moreover have "x \<in> set (y # ys)" using \<open>x \<in> set xs\<close> y by (metis set_js_sort)
  ultimately show ?thesis using sorted_sort [of xs] le_refl by auto
qed

end

text \<open>Largest first, by a number.\<close>

definition desc_by :: "('a \<Rightarrow> int) \<Rightarrow> 'a \<Rightarrow> 'a \<Rightarrow> bool" where
  "desc_by f a b \<longleftrightarrow> f b \<le> f a"

interpretation desc: comparator "desc_by f" for f
  by unfold_locales (auto simp: desc_by_def)

text \<open>
  Text by code unit, the order of \<open>sort()\<close> without a comparison function.  \<open>localeCompare\<close>
  is the language data of the browser, and a parameter of the functions that use it: a
  \<open>collation\<close>.
\<close>

fun text_le :: "string \<Rightarrow> string \<Rightarrow> bool" where
  "text_le [] t = True"
| "text_le (x # s) [] = False"
| "text_le (x # s) (y # t) = ((of_char x :: nat) < of_char y \<or> (x = y \<and> text_le s t))"

lemma text_le_total: "text_le s t \<or> text_le t s"
  by (induction s t rule: text_le.induct) (auto simp: nat_neq_iff)

lemma text_le_trans: "text_le s t \<Longrightarrow> text_le t u \<Longrightarrow> text_le s u"
proof (induction s t arbitrary: u rule: text_le.induct)
  case (3 x s y t)
  then show ?case by (cases u) auto
qed auto

locale collation = comparator compare_le for compare_le :: "string \<Rightarrow> string \<Rightarrow> bool"

interpretation code_units: collation text_le
  by unfold_locales (use text_le_total text_le_trans in blast)+

end
