(* ===== verification/Routing_Values.thy ===== *)
theory Routing_Values
  imports Routing_Edit Js_Order
begin

text \<open>
  What a rule's node shows and edits (components/routing/nodes.tsx), the presets of the palette
  (components/routing/presets.tsx) and the labels of the rule list (components/routing/order.tsx).
  The translator \<open>t\<close> is an argument.
\<close>

section \<open>Presentation\<close>

record source_meta =
  sm_label :: string
  sm_hint :: string
  sm_accent :: string
  sm_placeholder :: string

text \<open>The ellipsis of one placeholder is its three UTF-8 bytes.\<close>

fun SOURCE_META :: "bool \<Rightarrow> routing_source \<Rightarrow> source_meta" where
  "SOURCE_META is_android Apps =
     \<lparr>sm_label = ''routing.source.apps'',
      sm_hint = (if is_android then ''routing.source.apps.hintAndroid'' else ''routing.source.apps.hint''),
      sm_accent = ''var(--routing-apps)'', sm_placeholder = ''Firefox.exe''\<rparr>"
| "SOURCE_META is_android Domains =
     \<lparr>sm_label = ''routing.source.domains'', sm_hint = ''routing.source.domains.hint'',
      sm_accent = ''var(--routing-domains)'', sm_placeholder = ''example.com''\<rparr>"
| "SOURCE_META is_android Ip =
     \<lparr>sm_label = ''routing.source.ip'', sm_hint = ''routing.source.ip.hint'',
      sm_accent = ''var(--routing-ip)'', sm_placeholder = ''1.1.1.0/24''\<rparr>"
| "SOURCE_META is_android DomainRegex =
     \<lparr>sm_label = ''routing.source.regex'', sm_hint = ''routing.source.regex.hint'',
      sm_accent = ''var(--routing-domains)'', sm_placeholder = ''^ads?'' @ [CHR 0x5C] @ ''.''\<rparr>"
| "SOURCE_META is_android Port =
     \<lparr>sm_label = ''routing.source.port'', sm_hint = ''routing.source.port.hint'',
      sm_accent = ''var(--routing-port)'', sm_placeholder = ''443 or 8000-8080''\<rparr>"
| "SOURCE_META is_android Protocol =
     \<lparr>sm_label = ''routing.source.protocol'', sm_hint = ''routing.source.protocol.hint'',
      sm_accent = ''var(--routing-protocol)'', sm_placeholder = ''quic''\<rparr>"
| "SOURCE_META is_android Network =
     \<lparr>sm_label = ''routing.source.network'', sm_hint = ''routing.source.network.hint'',
      sm_accent = ''var(--routing-port)'', sm_placeholder = ''udp''\<rparr>"
| "SOURCE_META is_android Geosite =
     \<lparr>sm_label = ''routing.source.geosite'', sm_hint = ''routing.source.geosite.hint'',
      sm_accent = ''var(--routing-geo)'', sm_placeholder = ''netflix''\<rparr>"
| "SOURCE_META is_android Geoip =
     \<lparr>sm_label = ''routing.source.geoip'', sm_hint = ''routing.source.geoip.hint'',
      sm_accent = ''var(--routing-geo)'', sm_placeholder = ''ru''\<rparr>"
| "SOURCE_META is_android Ruleset =
     \<lparr>sm_label = ''routing.source.ruleset'', sm_hint = ''routing.source.ruleset.hint'',
      sm_accent = ''var(--routing-geo)'',
      sm_placeholder = ''https://'' @ [CHR 0xE2, CHR 0x80, CHR 0xA6] @ ''/list.txt''\<rparr>"

definition LOGICAL_META :: source_meta where
  "LOGICAL_META = \<lparr>sm_label = ''routing.source.logical'', sm_hint = ''routing.source.logical.hint'',
     sm_accent = ''var(--routing-protocol)'', sm_placeholder = []\<rparr>"

fun kind_meta :: "bool \<Rightarrow> routing_kind \<Rightarrow> source_meta" where
  "kind_meta is_android Logical = LOGICAL_META"
| "kind_meta is_android (Single k) = SOURCE_META is_android k"

definition DOMAIN_KINDS :: "routing_kind list" where
  "DOMAIN_KINDS = [Single Domains, Single DomainRegex, Single Geosite, Single Ruleset, Logical]"

definition SNIFFABLE_PROTOCOLS :: "string list" where
  "SNIFFABLE_PROTOCOLS =
     [''tls'', ''http'', ''quic'', ''dns'', ''stun'', ''bittorrent'', ''dtls'', ''ssh'', ''rdp'', ''ntp'']"

definition NETWORKS :: "string list" where
  "NETWORKS = [''tcp'', ''udp'']"

record action_meta =
  am_label :: string
  am_hint :: string
  am_status :: string
  am_accent :: string

fun ACTION_META :: "routing_action \<Rightarrow> action_meta" where
  "ACTION_META Proxy = \<lparr>am_label = ''routing.action.proxy'', am_hint = ''routing.action.proxy.hint'',
     am_status = ''routing.action.proxy.status'', am_accent = ''var(--status-connected)''\<rparr>"
| "ACTION_META Direct = \<lparr>am_label = ''routing.action.direct'', am_hint = ''routing.action.direct.hint'',
     am_status = ''routing.action.direct.status'', am_accent = ''var(--routing-direct)''\<rparr>"
| "ACTION_META Block = \<lparr>am_label = ''routing.action.block'', am_hint = ''routing.action.block.hint'',
     am_status = ''routing.action.block.status'', am_accent = ''var(--status-error)''\<rparr>"
| "ACTION_META Drop = \<lparr>am_label = ''routing.action.drop'', am_hint = ''routing.action.drop.hint'',
     am_status = ''routing.action.drop.status'',
     am_accent = ''color-mix(in oklab, var(--status-error) 55%, var(--muted-foreground))''\<rparr>"

section \<open>Entries\<close>

text \<open>The entry editor: its entries and the text being typed.\<close>

record entry_editor =
  ed_values :: "string list"
  ed_draft :: string

definition commit_entry :: "entry_editor \<Rightarrow> entry_editor" where
  "commit_entry e =
     (let v = js_trim (ed_draft e) in
      if v = [] then e
      else \<lparr>ed_values = (if v \<in> set (ed_values e) then ed_values e else ed_values e @ [v]), ed_draft = []\<rparr>)"

definition pick_code :: "string \<Rightarrow> entry_editor \<Rightarrow> entry_editor" where
  "pick_code code e =
     \<lparr>ed_values = (if code \<in> set (ed_values e) then ed_values e else ed_values e @ [code]), ed_draft = []\<rparr>"

definition remove_entry :: "string \<Rightarrow> entry_editor \<Rightarrow> entry_editor" where
  "remove_entry v e = e\<lparr>ed_values := filter (\<lambda>item. item \<noteq> v) (ed_values e)\<rparr>"

definition entry_choices :: "routing_source \<Rightarrow> string list option" where
  "entry_choices k = (if k = Protocol then Some SNIFFABLE_PROTOCOLS else if k = Network then Some NETWORKS else None)"

text \<open>The chips offered: the options not chosen yet; clicking one adds it.\<close>

definition remaining_choices :: "string list \<Rightarrow> string list \<Rightarrow> string list" where
  "remaining_choices options values = filter (\<lambda>c. c \<notin> set values) options"

definition choose_chip :: "string \<Rightarrow> entry_editor \<Rightarrow> entry_editor" where
  "choose_chip c e = e\<lparr>ed_values := ed_values e @ [c]\<rparr>"

definition COLLAPSED_ROWS :: nat where
  "COLLAPSED_ROWS = 6"

definition EXPANDED_ROWS :: nat where
  "EXPANDED_ROWS = 100"

text \<open>The rows of a node: a short list whole, a long one cut, an expanded one filtered.\<close>

definition value_matches :: "string list \<Rightarrow> string \<Rightarrow> string list" where
  "value_matches values search =
     (let needle = js_lower (js_trim search)
      in if needle = [] then values else filter (\<lambda>v. js_includes (js_lower v) needle) values)"

definition value_rows :: "bool \<Rightarrow> string \<Rightarrow> string list \<Rightarrow> string list" where
  "value_rows expanded search values =
     (if length values \<le> COLLAPSED_ROWS + 2 then values
      else if \<not> expanded then take COLLAPSED_ROWS values
      else take EXPANDED_ROWS (value_matches values search))"

section \<open>Suggestions\<close>

fun split_where :: "(char \<Rightarrow> bool) \<Rightarrow> string \<Rightarrow> string list" where
  "split_where P [] = [[]]"
| "split_where P (c # s) =
     (if P c then [] # split_where P s
      else (case split_where P s of [] \<Rightarrow> [[c]] | w # ws \<Rightarrow> (c # w) # ws))"

definition suggestion_needle :: "string \<Rightarrow> string" where
  "suggestion_needle draft = hd (js_split CHR ''@'' (js_lower (js_trim draft)))"

definition code_rank :: "string \<Rightarrow> string \<Rightarrow> nat" where
  "code_rank needle code =
     (if code = needle then 0
      else if js_starts_with code needle then 1
      else if list_ex (\<lambda>w. js_starts_with w needle) (split_where (\<lambda>c. c \<in> set ''-_@!'') code) then 2
      else 3)"

definition suggestion_le :: "string \<Rightarrow> string \<Rightarrow> string \<Rightarrow> bool" where
  "suggestion_le needle a b \<longleftrightarrow>
     code_rank needle a < code_rank needle b \<or> (code_rank needle a = code_rank needle b \<and> length a \<le> length b)"

definition geo_suggestions :: "string list \<Rightarrow> string \<Rightarrow> string list \<Rightarrow> string list" where
  "geo_suggestions codes draft values =
     (let needle = suggestion_needle draft in
      if codes = [] \<or> needle = [] then []
      else take 8 (js_sort (suggestion_le needle) (filter (\<lambda>c. js_includes c needle \<and> c \<notin> set values) codes)))"

interpretation suggestions: comparator "suggestion_le needle" for needle
  by unfold_locales (auto simp: suggestion_le_def)

section \<open>Domains as patterns\<close>

definition pattern_special :: "char \<Rightarrow> bool" where
  "pattern_special c \<longleftrightarrow> c \<in> set ''.*+?^${}()|[]'' \<or> c = CHR 0x5C"

definition escape_pattern :: "string \<Rightarrow> string" where
  "escape_pattern s = concat (map (\<lambda>c. if pattern_special c then [CHR 0x5C, c] else [c]) s)"

definition domain_as_pattern :: "string \<Rightarrow> string" where
  "domain_as_pattern domain =
     ''(^|'' @ [CHR 0x5C] @ ''.)'' @ escape_pattern (dropWhile (\<lambda>c. c = CHR ''.'') domain) @ ''$''"

text \<open>
  What a pattern of that shape matches, read as a regular expression: a literal body (no special
  character unescaped) at the end of the text, at its start or after a dot.
\<close>

fun literal_body :: "string \<Rightarrow> string option" where
  "literal_body [] = None"
| "literal_body [c] = (if c = CHR ''$'' then Some [] else None)"
| "literal_body (c # d # s) =
     (if c = CHR 0x5C then map_option ((#) d) (literal_body s)
      else if pattern_special c then None
      else map_option ((#) c) (literal_body (d # s)))"

definition pattern_matches :: "string \<Rightarrow> string \<Rightarrow> bool" where
  "pattern_matches p host \<longleftrightarrow>
     (let head = ''(^|'' @ [CHR 0x5C] @ ''.)'' in
      js_starts_with p head
      \<and> (case literal_body (drop (length head) p) of
           Some lit \<Rightarrow> host = lit \<or> js_ends_with host (CHR ''.'' # lit)
         | None \<Rightarrow> False))"

lemma literal_body_escape: "literal_body (escape_pattern s @ ''$'') = Some s"
proof (induction s)
  case (Cons c s)
  show ?case
  proof (cases "pattern_special c")
    case True
    then show ?thesis using Cons by (simp add: escape_pattern_def)
  next
    case False
    obtain d r where "escape_pattern s @ ''$'' = d # r" by (cases "escape_pattern s") auto
    moreover from False have "c \<noteq> CHR 0x5C" by (auto simp: pattern_special_def)
    ultimately show ?thesis using Cons False by (simp add: escape_pattern_def)
  qed
qed (simp add: escape_pattern_def)

section \<open>Conditions and options\<close>

record condition_patch =
  cq_kind :: "routing_source option"
  cq_values :: "string list option"
  cq_invert :: "bool option"

definition patch_condition :: "condition_patch \<Rightarrow> routing_condition \<Rightarrow> routing_condition" where
  "patch_condition q c = \<lparr>rc_kind = or_else (cq_kind q) (rc_kind c), rc_values = or_else (cq_values q) (rc_values c),
     rc_invert = (case cq_invert q of Some b \<Rightarrow> Some b | None \<Rightarrow> rc_invert c)\<rparr>"

definition set_condition :: "nat \<Rightarrow> condition_patch \<Rightarrow> routing_condition list \<Rightarrow> routing_condition list" where
  "set_condition index q cs = map (\<lambda>(position, c). if position = index then patch_condition q c else c) (enumerate 0 cs)"

text \<open>A new kind starts empty; \<open>not\<close> flips; removing drops one position; a new condition is appended.\<close>

definition change_condition_kind :: "nat \<Rightarrow> routing_source \<Rightarrow> routing_condition list \<Rightarrow> routing_condition list" where
  "change_condition_kind index k = set_condition index \<lparr>cq_kind = Some k, cq_values = Some [], cq_invert = None\<rparr>"

definition toggle_condition :: "nat \<Rightarrow> routing_condition list \<Rightarrow> routing_condition list" where
  "toggle_condition index cs =
     (if index < length cs
      then set_condition index \<lparr>cq_kind = None, cq_values = None, cq_invert = Some (\<not> or_else (rc_invert (cs ! index)) False)\<rparr> cs
      else cs)"

definition remove_condition :: "nat \<Rightarrow> routing_condition list \<Rightarrow> routing_condition list" where
  "remove_condition index cs = map snd (filter (\<lambda>(position, c). position \<noteq> index) (enumerate 0 cs))"

definition add_condition :: "routing_condition list \<Rightarrow> routing_condition list" where
  "add_condition cs = cs @ [new_condition Domains]"

definition CONDITION_KINDS :: "routing_source list" where
  "CONDITION_KINDS = [Apps, Domains, DomainRegex, Ip, Port, Protocol, Network, Geosite, Geoip, Ruleset]"

text \<open>Whether a rule is offered a resolver of its own.\<close>

definition can_dns :: "routing_kind \<Rightarrow> routing_action option \<Rightarrow> bool \<Rightarrow> bool" where
  "can_dns kind action inverted \<longleftrightarrow>
     kind \<in> set DOMAIN_KINDS \<and> action \<noteq> Some Block \<and> action \<noteq> Some Drop \<and> \<not> inverted"

text \<open>Saving the resolver being typed: the patch, if it is blank or valid and differs.\<close>

definition save_dns :: "(string \<Rightarrow> bool) \<Rightarrow> string \<Rightarrow> string \<Rightarrow> string option" where
  "save_dns valid_address dns draft =
     (let next_dns = js_trim draft in
      if next_dns \<noteq> dns \<and> (next_dns = [] \<or> valid_address next_dns) then Some next_dns else None)"

text \<open>Switching a domains card between names and patterns.\<close>

definition switch_domain_mode :: "routing_source \<Rightarrow> routing_source \<Rightarrow> string list \<Rightarrow> (routing_source \<times> string list) option" where
  "switch_domain_mode kind option_kind values =
     (if option_kind = kind \<or> (option_kind = Domains \<and> kind = DomainRegex \<and> values \<noteq> []) then None
      else Some (option_kind, if option_kind = DomainRegex then map domain_as_pattern values else values))"

section \<open>Presets\<close>

definition preset_rule :: "routing_kind \<Rightarrow> logical_mode option \<Rightarrow> string list \<Rightarrow> routing_condition list option \<Rightarrow> routing_action \<Rightarrow> routing_rule" where
  "preset_rule kind mode values conditions action =
     \<lparr>rr_id = [], rr_kind = kind, rr_values = values, rr_action = Some action, rr_invert = None, rr_server = None,
      rr_dns = None, rr_mode = mode, rr_conditions = conditions\<rparr>"

record preset =
  ps_id :: string
  ps_label :: string
  ps_hint :: string
  ps_placement :: preset_placement
  ps_rules :: "routing_rule list"

definition PRESETS :: "preset list" where
  "PRESETS =
     [\<lparr>ps_id = ''ads'', ps_label = ''routing.preset.ads'', ps_hint = ''routing.preset.ads.hint'', ps_placement = First,
       ps_rules = [preset_rule (Single Geosite) None [''category-ads-all''] None Block]\<rparr>,
      \<lparr>ps_id = ''quic'', ps_label = ''routing.preset.quic'', ps_hint = ''routing.preset.quic.hint'', ps_placement = First,
       ps_rules = [preset_rule Logical (Some AndMode) []
         (Some [\<lparr>rc_kind = Network, rc_values = [''udp''], rc_invert = None\<rparr>,
                \<lparr>rc_kind = Port, rc_values = [''443''], rc_invert = None\<rparr>]) Block]\<rparr>,
      \<lparr>ps_id = ''torrents'', ps_label = ''routing.preset.torrents'', ps_hint = ''routing.preset.torrents.hint'',
       ps_placement = Last, ps_rules = [preset_rule (Single Protocol) None [''bittorrent''] None Direct]\<rparr>]"

definition COUNTRIES :: "string list" where
  "COUNTRIES = [''ru'', ''ua'', ''by'', ''kz'', ''uz'', ''cn'', ''ir'', ''tr'', ''de'', ''gb'', ''fr'', ''nl'', ''pl'',
     ''us'', ''ca'', ''jp'', ''kr'', ''in'', ''br'', ''ae'']"

definition COUNTRY_DOMAINS :: "(string \<times> string list) list" where
  "COUNTRY_DOMAINS =
     [(''ru'', [''ru'', ''su'', ''xn--p1ai'']), (''by'', [''by'', ''xn--90ais'']), (''kz'', [''kz'', ''xn--80ao21a'']),
      (''ua'', [''ua'', ''xn--j1amh'']), (''cn'', [''cn'', ''xn--fiqs8s'']), (''gb'', [''uk''])]"

definition country_rules :: "string \<Rightarrow> routing_rule list" where
  "country_rules code =
     [preset_rule Logical (Some OrMode) []
        (Some [\<lparr>rc_kind = Geoip, rc_values = [code], rc_invert = None\<rparr>,
               \<lparr>rc_kind = Domains, rc_values = or_else (map_of COUNTRY_DOMAINS code) [code], rc_invert = None\<rparr>]) Direct]"

text \<open>\<open>/^[a-z]{2}$/\<close> on the typed code.\<close>

definition typed_country :: "string \<Rightarrow> string option" where
  "typed_country code =
     (let typed = js_lower (js_trim code) in
      if length typed = 2 \<and> list_all (\<lambda>c. let n = (of_char c :: nat) in 97 \<le> n \<and> n \<le> 122) typed then Some typed else None)"

definition submit_country :: "app_settings \<Rightarrow> string \<Rightarrow> string \<Rightarrow> graph_patch option" where
  "submit_country s code stamp = map_option (\<lambda>c. add_preset s (country_rules c) Last stamp) (typed_country code)"

section \<open>The rule list\<close>

definition text_or :: "string \<Rightarrow> string \<Rightarrow> string" where
  "text_or s d = (if s = [] then d else s)"

definition condition_text :: "(string \<Rightarrow> string) \<Rightarrow> bool \<Rightarrow> bool \<Rightarrow> routing_condition \<Rightarrow> string" where
  "condition_text t is_android expanded c =
     (if expanded then (if or_else (rc_invert c) False then t ''routing.condition.not'' @ '' '' else [])
        @ t (sm_label (SOURCE_META is_android (rc_kind c))) @ '': ''
        @ text_or (js_join '', '' (rc_values c)) (t ''routing.order.empty'')
      else t (sm_label (SOURCE_META is_android (rc_kind c))))"

definition rule_summary :: "(string \<Rightarrow> string) \<Rightarrow> bool \<Rightarrow> bool \<Rightarrow> routing_rule \<Rightarrow> string" where
  "rule_summary t is_android expanded r =
     (if rr_kind r = Logical then
        text_or (js_join (if rr_mode r = Some OrMode then '' / '' else '' + '')
            (map (condition_text t is_android expanded) (or_else (rr_conditions r) [])))
          (t ''routing.order.empty'')
      else if rr_values r = [] then t ''routing.order.empty''
      else if expanded then js_join '', '' (rr_values r)
      else js_join '', '' (take 2 (rr_values r))
        @ (if length (rr_values r) > 2 then '' +'' @ nat_str (length (rr_values r) - 2) else []))"

definition rule_destination :: "(string \<Rightarrow> string) \<Rightarrow> profile list \<Rightarrow> routing_rule \<Rightarrow> string" where
  "rule_destination t profiles r =
     (case rr_action r of
        None \<Rightarrow> t ''routing.order.empty''
      | Some a \<Rightarrow>
          if a = Proxy \<and> truthy (rr_server r)
          then (case find (\<lambda>p. Some (p_id p) = rr_server r) profiles of Some p \<Rightarrow> p_name p | None \<Rightarrow> t ''routing.server.gone'')
          else t (am_label (ACTION_META a)))"


section \<open>Properties\<close>

definition clean_values :: "string list \<Rightarrow> bool" where
  "clean_values vs \<longleftrightarrow> distinct vs \<and> list_all (\<lambda>v. v \<noteq> [] \<and> js_trim v = v) vs"

lemma clean_snoc: "clean_values vs \<Longrightarrow> v \<notin> set vs \<Longrightarrow> v \<noteq> [] \<Longrightarrow> js_trim v = v \<Longrightarrow> clean_values (vs @ [v])"
  by (simp add: clean_values_def)

lemma clean_filter: "clean_values vs \<Longrightarrow> clean_values (filter P vs)"
  by (auto simp: clean_values_def list_all_iff)

lemma choices_clean: "c \<in> set SNIFFABLE_PROTOCOLS \<union> set NETWORKS \<Longrightarrow> c \<noteq> [] \<and> js_trim c = c"
proof -
  have "list_all (\<lambda>c. c \<noteq> [] \<and> js_trim c = c) (SNIFFABLE_PROTOCOLS @ NETWORKS)" by code_simp
  then show "c \<in> set SNIFFABLE_PROTOCOLS \<union> set NETWORKS \<Longrightarrow> c \<noteq> [] \<and> js_trim c = c"
    unfolding list_all_iff set_append by blast
qed

text \<open>Whatever is typed, picked, chosen or removed, the entries of a rule stay free of duplicates, of
  blanks and of surrounding white space; committing leaves the field empty and the entry in the
  list.\<close>

theorem entries_stay_clean:
  assumes "clean_values (ed_values e)"
  shows "clean_values (ed_values (commit_entry e)) \<and> clean_values (ed_values (remove_entry v e))
    \<and> (js_trim (ed_draft e) \<noteq> [] \<longrightarrow> js_trim (ed_draft e) \<in> set (ed_values (commit_entry e)) \<and> ed_draft (commit_entry e) = [])
    \<and> (code \<noteq> [] \<and> js_trim code = code \<longrightarrow> clean_values (ed_values (pick_code code e)))
    \<and> (\<forall>options. entry_choices k = Some options \<and> c \<in> set (remaining_choices options (ed_values e))
          \<longrightarrow> clean_values (ed_values (choose_chip c e)))"
proof -
  have c: "clean_values (ed_values (choose_chip c e))"
    if "entry_choices k = Some options" "c \<in> set (remaining_choices options (ed_values e))" for options
    using that choices_clean [of c] assms
    by (auto simp: entry_choices_def remaining_choices_def choose_chip_def intro!: clean_snoc split: if_splits)
  show ?thesis
    using assms c by (auto simp: commit_entry_def Let_def remove_entry_def pick_code_def clean_snoc clean_filter)
qed

theorem entries_stay_clean_witness:
  "clean_values (ed_values (commit_entry \<lparr>ed_values = [''b.example''], ed_draft = '' a.example ''\<rparr>))"
proof -
  have "clean_values (ed_values \<lparr>ed_values = [''b.example''], ed_draft = '' a.example ''\<rparr>)" by code_simp
  from entries_stay_clean [OF this] show ?thesis by blast
qed

text \<open>The suggested codes are at most eight codes of the file that contain what is typed and are not
  entries yet, closest first: never a worse match before a better one, and the exact code leads.\<close>

theorem suggestions_closest_first:
  "length (geo_suggestions codes draft values) \<le> 8
    \<and> (\<forall>c \<in> set (geo_suggestions codes draft values).
          c \<in> set codes \<and> c \<notin> set values \<and> js_includes c (suggestion_needle draft))
    \<and> sorted_wrt (suggestion_le (suggestion_needle draft)) (geo_suggestions codes draft values)
    \<and> (suggestion_needle draft \<in> set codes \<and> suggestion_needle draft \<notin> set values \<and> suggestion_needle draft \<noteq> []
         \<longrightarrow> hd (geo_suggestions codes draft values) = suggestion_needle draft)"
proof -
  let ?n = "suggestion_needle draft"
  let ?f = "filter (\<lambda>c. js_includes c ?n \<and> c \<notin> set values) codes"
  have g: "geo_suggestions codes draft values = (if codes = [] \<or> ?n = [] then [] else take 8 (js_sort (suggestion_le ?n) ?f))"
    by (simp add: geo_suggestions_def Let_def)
  have s: "sorted_wrt (suggestion_le ?n) (take 8 (js_sort (suggestion_le ?n) ?f))"
    using suggestions.sorted_sort by (rule sorted_wrt_take)
  have h: "hd (geo_suggestions codes draft values) = ?n" if "?n \<in> set codes" "?n \<notin> set values" "?n \<noteq> []"
  proof -
    have self: "js_includes ?n ?n" using that(3) by (cases ?n) (simp_all add: js_starts_with_def)
    then have m: "?n \<in> set ?f" using that by simp
    then have ne: "?f \<noteq> []" by (metis emptyE list.set(1))
    have "suggestion_le ?n (hd (js_sort (suggestion_le ?n) ?f)) ?n" by (rule suggestions.sort_head [OF ne m])
    then have "hd (js_sort (suggestion_le ?n) ?f) = ?n"
      by (auto simp: suggestion_le_def code_rank_def split: if_splits)
    moreover have "codes \<noteq> []" using that(1) by auto
    ultimately show ?thesis using that(3) ne by (simp add: g hd_take)
  qed
  show ?thesis using s h by (auto simp: g dest: in_set_takeD)
qed

theorem suggestions_closest_first_witness:
  "hd (geo_suggestions [''category-ads-all'', ''ads'', ''goodreads''] ''Ads'' []) = ''ads''"
proof -
  have n: "suggestion_needle ''Ads'' = ''ads''" by code_simp
  show ?thesis using suggestions_closest_first [of "[''category-ads-all'', ''ads'', ''goodreads'']" "''Ads''" "[]"]
    by (simp add: n)
qed

text \<open>Switching a card of domain names to patterns keeps what it matches: the pattern of a name matches
  a host exactly when the host is that name (leading dots dropped) or one of its subdomains.\<close>

theorem domain_pattern_matches_subdomains:
  "pattern_matches (domain_as_pattern d) host \<longleftrightarrow>
     host = dropWhile (\<lambda>c. c = CHR ''.'') d \<or> js_ends_with host (CHR ''.'' # dropWhile (\<lambda>c. c = CHR ''.'') d)"
proof -
  let ?h = "''(^|'' @ [CHR 0x5C] @ ''.)''" and ?b = "escape_pattern (dropWhile (\<lambda>c. c = CHR ''.'') d) @ ''$''"
  have p: "domain_as_pattern d = ?h @ ?b" by (simp add: domain_as_pattern_def)
  have "js_starts_with (?h @ ?b) ?h" by (rule js_starts_with_append)
  moreover have "drop (length ?h) (?h @ ?b) = ?b" by (simp only: append_eq_conv_conj drop_append drop_all order_refl) simp
  ultimately show ?thesis unfolding pattern_matches_def p Let_def by (simp only: literal_body_escape option.case simp_thms)
qed

definition sample_settings :: app_settings where
  "sample_settings = pending_settings\<lparr>routing_rules := [new_rule ''domains-1'' (Single Domains)]\<rparr>"

text \<open>A preset keeps the user's rules together and in their order; one that blocks is matched before all
  of them, one that sends traffic direct after all of them.\<close>

theorem presets_placed_by_action:
  assumes "p \<in> set PRESETS"
  shows "\<exists>added. map rr_action added = map rr_action (ps_rules p)
    \<and> gp_rules (add_preset s (ps_rules p) (ps_placement p) stamp) =
        Some (if list_all (\<lambda>r. rr_action r = Some Block) added then added @ routing_rules s else routing_rules s @ added)
    \<and> (\<not> list_all (\<lambda>r. rr_action r = Some Block) added \<longrightarrow> list_all (\<lambda>r. rr_action r = Some Direct) added)"
proof -
  have m: "map rr_action (preset_rules rs stamp) = map rr_action rs" for rs
    by (simp add: preset_rules_def comp_def case_prod_beta flip: map_map [of rr_action snd, unfolded comp_def])
  have l: "list_all (\<lambda>r. rr_action r = Some a) xs = list_all (\<lambda>x. x = Some a) (map rr_action xs)" for a xs
    by (simp add: list.pred_map comp_def)
  have c: "list_all (\<lambda>x. x = Some Block) (map rr_action (ps_rules p)) = (ps_placement p = First)
      \<and> (ps_placement p \<noteq> First \<longrightarrow> list_all (\<lambda>x. x = Some Direct) (map rr_action (ps_rules p)))"
    using assms by (auto simp: PRESETS_def preset_rule_def)
  show ?thesis
    by (rule exI [of _ "preset_rules (ps_rules p) stamp"]) (simp add: add_preset_def Let_def m l c)
qed

theorem presets_placed_by_action_witness:
  "\<exists>added. gp_rules (add_preset sample_settings (ps_rules (PRESETS ! 0)) First ''k'') = Some (added @ routing_rules sample_settings)"
proof -
  have "PRESETS ! 0 \<in> set PRESETS" by (simp add: PRESETS_def)
  from presets_placed_by_action [OF this, of sample_settings "''k''"] show ?thesis
    by (auto simp: PRESETS_def preset_rule_def)
qed

end
