(* ===== verification/Profiles.thy ===== *)
theory Profiles
  imports App_Types Js_Order
begin

text \<open>
  The profile list, the sources it is grouped into and the selection
  (hooks/use-profiles.ts), and which server the window shows (lib/server-selection.ts).
  \<open>localeCompare\<close> is the parameter \<open>lc\<close>, a \<open>collation\<close>.
\<close>

section \<open>Domains\<close>

definition LOCAL :: string where
  "LOCAL = ''local''"

definition profile_domain :: "profile \<Rightarrow> string" where
  "profile_domain p = (let d = js_trim (or_else (p_source_domain p) []) in if d = [] then LOCAL else d)"

record selection =
  sel_domain :: string
  sel_mode :: proxy_mode
  sel_profile_id :: string

definition EMPTY_SELECTION :: selection where
  "EMPTY_SELECTION = \<lparr>sel_domain = LOCAL, sel_mode = Manual, sel_profile_id = []\<rparr>"

text \<open>The order of \<open>sortedDomains\<close>: local first, then by \<open>localeCompare\<close>.\<close>

definition domain_le :: "(string \<Rightarrow> string \<Rightarrow> bool) \<Rightarrow> string \<Rightarrow> string \<Rightarrow> bool" where
  "domain_le lc a b = (a = LOCAL \<or> (b \<noteq> LOCAL \<and> lc a b))"

definition sorted_domains :: "(string \<Rightarrow> string \<Rightarrow> bool) \<Rightarrow> profile list \<Rightarrow> string list" where
  "sorted_domains lc ps = js_sort (domain_le lc) (js_unique (map profile_domain ps))"

sublocale collation \<subseteq> domains: comparator "domain_le compare_le"
  by unfold_locales (use le_total le_trans in \<open>auto simp: domain_le_def\<close>)

lemma set_sorted_domains [simp]: "set (sorted_domains lc ps) = set (map profile_domain ps)"
  by (simp add: sorted_domains_def)

lemma sorted_domains_nonempty [simp]: "sorted_domains lc ps = [] \<longleftrightarrow> ps = []"
  by (simp add: sorted_domains_def)

context collation
begin

lemma local_first:
  assumes "LOCAL \<in> set (map profile_domain ps)"
  shows "hd (sorted_domains compare_le ps) = LOCAL"
proof -
  have "domain_le compare_le (hd (sorted_domains compare_le ps)) LOCAL"
    unfolding sorted_domains_def using assms by (intro domains.sort_head) auto
  then show ?thesis by (simp add: domain_le_def)
qed

end

section \<open>The selection after the list changed\<close>

definition auto_selection :: "string \<Rightarrow> selection" where
  "auto_selection d = \<lparr>sel_domain = d, sel_mode = Auto, sel_profile_id = []\<rparr>"

definition reconcile_selection :: "(string \<Rightarrow> string \<Rightarrow> bool) \<Rightarrow> profile list \<Rightarrow> selection \<Rightarrow> selection" where
  "reconcile_selection lc ps current =
     (if ps = [] then EMPTY_SELECTION
      else let domains = sorted_domains lc ps;
               domain = (if sel_domain current \<in> set domains then sel_domain current else hd domains)
           in if domain = LOCAL then
                (let local_ps = filter (\<lambda>p. profile_domain p = LOCAL) ps in
                 if local_ps = [] then auto_selection domain
                 else \<lparr>sel_domain = domain, sel_mode = Manual,
                       sel_profile_id = (if list_ex (\<lambda>p. p_id p = sel_profile_id current) local_ps
                                         then sel_profile_id current else p_id (hd local_ps))\<rparr>)
              else (case find (\<lambda>p. p_id p = sel_profile_id current) ps of
                      Some p \<Rightarrow> if profile_domain p = domain then current\<lparr>sel_domain := domain\<rparr>
                                else auto_selection domain
                    | None \<Rightarrow> auto_selection domain))"

text \<open>
  What the rest of the window relies on: the selected configuration exists, and the selected
  server is one of its servers - or, in a subscription, nobody: the backend picks.
\<close>

definition names_profile :: "profile list \<Rightarrow> selection \<Rightarrow> bool" where
  "names_profile ps s = list_ex (\<lambda>p. p_id p = sel_profile_id s \<and> profile_domain p = sel_domain s) ps"

definition selection_ok :: "profile list \<Rightarrow> selection \<Rightarrow> bool" where
  "selection_ok ps s =
     (if ps = [] then s = EMPTY_SELECTION
      else sel_domain s \<in> set (map profile_domain ps)
           \<and> (if sel_domain s = LOCAL then sel_mode s = Manual \<and> names_profile ps s
              else (sel_mode s = Auto \<and> sel_profile_id s = []) \<or> names_profile ps s))"

lemma names_profile_iff:
  "names_profile ps s \<longleftrightarrow> (\<exists>p \<in> set ps. p_id p = sel_profile_id s \<and> profile_domain p = sel_domain s)"
  by (simp add: names_profile_def list_ex_iff)

lemma reconcile_ok: "selection_ok ps (reconcile_selection lc ps current)"
proof (cases "ps = []")
  case False
  define d where "d = (if sel_domain current \<in> set (sorted_domains lc ps)
    then sel_domain current else hd (sorted_domains lc ps))"
  have d: "d \<in> set (map profile_domain ps)"
  proof -
    have "hd (sorted_domains lc ps) \<in> set (sorted_domains lc ps)" using False by (intro hd_in_set) simp
    then show ?thesis by (simp add: d_def)
  qed
  show ?thesis
  proof (cases "d = LOCAL")
    case True
    let ?l = "filter (\<lambda>p. profile_domain p = LOCAL) ps"
    have ne: "?l \<noteq> []" using d True by (fastforce simp: filter_empty_conv)
    then have h: "hd ?l \<in> set ps \<and> profile_domain (hd ?l) = LOCAL" using hd_in_set [OF ne] by auto
    from True have r: "reconcile_selection lc ps current = \<lparr>sel_domain = LOCAL, sel_mode = Manual,
        sel_profile_id = (if list_ex (\<lambda>p. p_id p = sel_profile_id current) ?l
                          then sel_profile_id current else p_id (hd ?l))\<rparr>"
      using False ne unfolding reconcile_selection_def Let_def d_def [symmetric] by simp
    have "LOCAL \<in> set (map profile_domain ps)" using d True by simp
    with h False show ?thesis unfolding r selection_ok_def names_profile_iff
      by (auto simp: list_ex_iff)
  next
    case f: False
    have "reconcile_selection lc ps current = auto_selection d
        \<or> (reconcile_selection lc ps current = current\<lparr>sel_domain := d\<rparr>
           \<and> (\<exists>p \<in> set ps. p_id p = sel_profile_id current \<and> profile_domain p = d))"
      using False f unfolding reconcile_selection_def Let_def d_def [symmetric]
      by (auto split: option.split dest: find_Some_in)
    with False f d show ?thesis
      by (auto simp: selection_ok_def names_profile_iff auto_selection_def)
  qed
qed (simp add: reconcile_selection_def selection_ok_def)

text \<open>With distinct profile ids a good selection is left alone.\<close>

lemma reconcile_keeps:
  assumes "selection_ok ps s" "distinct (map p_id ps)"
    and blank: "sel_profile_id s = [] \<Longrightarrow> \<not> names_profile ps s \<Longrightarrow> \<forall>p \<in> set ps. p_id p \<noteq> []"
  shows "reconcile_selection lc ps s = s"
proof (cases "ps = []")
  case False
  with assms(1) have d: "sel_domain s \<in> set (map profile_domain ps)" by (simp add: selection_ok_def)
  show ?thesis
  proof (cases "sel_domain s = LOCAL")
    case True
    with assms(1) False obtain p where p: "p \<in> set ps" "p_id p = sel_profile_id s" "profile_domain p = LOCAL"
      and m: "sel_mode s = Manual" by (auto simp: selection_ok_def names_profile_iff)
    have "LOCAL \<in> set (map profile_domain ps)" using True d by simp
    moreover have "list_ex (\<lambda>p. p_id p = sel_profile_id s) (filter (\<lambda>p. profile_domain p = LOCAL) ps)"
      and "filter (\<lambda>p. profile_domain p = LOCAL) ps \<noteq> []"
      using p by (auto simp: list_ex_iff filter_empty_conv)
    ultimately show ?thesis using m True False by (simp add: reconcile_selection_def)
  next
    case nl: False
    show ?thesis
    proof (cases "names_profile ps s")
      case True
      then obtain p where p: "p \<in> set ps" "p_id p = sel_profile_id s" "profile_domain p = sel_domain s"
        by (auto simp: names_profile_iff)
      with assms(2) have "find (\<lambda>p. p_id p = sel_profile_id s) ps = Some p"
        by (induction ps) (auto simp: image_iff)
      with p d nl False show ?thesis by (simp add: reconcile_selection_def)
    next
      case nn: False
      with assms(1) nl False have s: "sel_mode s = Auto" "sel_profile_id s = []"
        by (auto simp: selection_ok_def)
      with blank nn have "find (\<lambda>p. p_id p = sel_profile_id s) ps = None"
        by (auto simp: find_None_iff)
      with s d nl False show ?thesis by (simp add: reconcile_selection_def auto_selection_def)
    qed
  qed
qed (use assms(1) in \<open>simp add: reconcile_selection_def selection_ok_def\<close>)


section \<open>Sources\<close>

text \<open>The three collections the loop of \<open>buildSources\<close> fills.\<close>

record source_groups =
  sg_counts :: "(string, nat) omap"
  sg_infos :: "(string, subscription_info) omap"
  sg_local :: "profile list"

definition add_profile_to_groups :: "source_groups \<Rightarrow> profile \<Rightarrow> source_groups" where
  "add_profile_to_groups g p =
     (let d = profile_domain p in
      if d = LOCAL then g\<lparr>sg_local := sg_local g @ [p]\<rparr>
      else g\<lparr>sg_counts := om_set (sg_counts g) d (or_else (om_get (sg_counts g) d) 0 + 1),
             sg_infos := (case p_subscription_info p of
                            Some i \<Rightarrow> if om_get (sg_infos g) d = None then om_set (sg_infos g) d i else sg_infos g
                          | None \<Rightarrow> sg_infos g)\<rparr>)"

definition group_profiles :: "profile list \<Rightarrow> source_groups" where
  "group_profiles ps = foldl add_profile_to_groups \<lparr>sg_counts = [], sg_infos = [], sg_local = []\<rparr> ps"

definition profile_source :: "profile \<Rightarrow> config_source" where
  "profile_source p = ProfileSource (''profile:'' @ p_id p) (p_name p) (p_protocol p) (p_id p)"

text \<open>\<open>infos.get(domain)?.title || domain\<close>.\<close>

definition source_label :: "subscription_info option \<Rightarrow> string \<Rightarrow> string" where
  "source_label info d = (case info of Some i \<Rightarrow> (case si_title i of Some (c # cs) \<Rightarrow> c # cs | _ \<Rightarrow> d) | None \<Rightarrow> d)"

definition subscription_source :: "source_groups \<Rightarrow> string \<times> nat \<Rightarrow> config_source" where
  "subscription_source g dc =
     (case dc of (d, n) \<Rightarrow>
        SubscriptionSource (''subscription:'' @ d) d (source_label (om_get (sg_infos g) d) d)
          (nat_str n @ '' '' @ (if n = 1 then ''proxy'' else ''proxies'')) n (om_get (sg_infos g) d))"

fun source_domain :: "config_source \<Rightarrow> string" where
  "source_domain (SubscriptionSource key d label detail n info) = d"
| "source_domain (ProfileSource key label detail pid) = LOCAL"

fun source_key :: "config_source \<Rightarrow> string" where
  "source_key (SubscriptionSource key d label detail n info) = key"
| "source_key (ProfileSource key label detail pid) = key"

fun source_count :: "config_source \<Rightarrow> nat" where
  "source_count (SubscriptionSource key d label detail n info) = n"
| "source_count (ProfileSource key label detail pid) = 1"

definition build_sources :: "(string \<Rightarrow> string \<Rightarrow> bool) \<Rightarrow> profile list \<Rightarrow> config_source list" where
  "build_sources lc ps =
     (let g = group_profiles ps in
      map profile_source (js_sort (\<lambda>a b. lc (p_name a) (p_name b)) (sg_local g))
      @ js_sort (\<lambda>a b. lc (source_domain a) (source_domain b)) (map (subscription_source g) (sg_counts g)))"

text \<open>What the loop leaves behind.\<close>

abbreviation subscribed :: "profile list \<Rightarrow> profile list" where
  "subscribed ps \<equiv> filter (\<lambda>p. profile_domain p \<noteq> LOCAL) ps"

lemma group_profiles_fold:
  "sg_local (foldl add_profile_to_groups g ps) = sg_local g @ filter (\<lambda>p. profile_domain p = LOCAL) ps"
  "sg_counts (foldl add_profile_to_groups g ps) =
     foldl (\<lambda>m k. om_set m k (or_else (om_get m k) 0 + 1)) (sg_counts g) (map profile_domain (subscribed ps))"
  by (induction ps arbitrary: g) (simp_all add: add_profile_to_groups_def Let_def)

lemma group_local: "sg_local (group_profiles ps) = filter (\<lambda>p. profile_domain p = LOCAL) ps"
  by (simp add: group_profiles_def group_profiles_fold)

lemma group_counts: "sg_counts (group_profiles ps) = om_tally (map profile_domain (subscribed ps))"
  by (simp add: group_profiles_def group_profiles_fold om_tally_def)

lemma group_infos_fold:
  "d \<noteq> LOCAL \<Longrightarrow> om_get (sg_infos (foldl add_profile_to_groups g ps)) d =
     (case om_get (sg_infos g) d of Some i \<Rightarrow> Some i
      | None \<Rightarrow> Option.bind (find (\<lambda>p. profile_domain p = d \<and> p_subscription_info p \<noteq> None) ps) p_subscription_info)"
proof (induction ps arbitrary: g)
  case (Cons p ps)
  then show ?case
    by (auto simp: add_profile_to_groups_def Let_def om_simps split: option.splits)
qed (simp split: option.splits)

lemma group_infos:
  "d \<noteq> LOCAL \<Longrightarrow> om_get (sg_infos (group_profiles ps)) d =
     Option.bind (find (\<lambda>p. profile_domain p = d \<and> p_subscription_info p \<noteq> None) ps) p_subscription_info"
  by (simp add: group_profiles_def group_infos_fold om_simps)


lemma tally_sum: "sum_list (map snd (om_tally ks)) = length ks"
proof -
  have s: "sum_list (map snd (om_set m k (or_else (om_get m k) 0 + 1))) = sum_list (map snd m) + (1::nat)"
    for m :: "('a, nat) omap" and k by (induction m) (auto simp: om_get_def)
  have "sum_list (map snd (foldl (\<lambda>m k. om_set m k (or_else (om_get m k) 0 + 1)) m ks))
      = sum_list (map snd m) + length ks" for m :: "('a, nat) omap"
  proof (induction ks arbitrary: m)
    case (Cons k ks)
    then show ?case using s [of m k] by (simp del: One_nat_def)
  qed simp
  from this [of "[]"] show ?thesis by (simp add: om_tally_def)
qed

lemma source_simps [simp]:
  "source_count (profile_source p) = 1" "source_count (subscription_source g dc) = snd dc"
  "source_domain (profile_source p) = LOCAL" "source_domain (subscription_source g dc) = fst dc"
  "source_key (profile_source p) = ''profile:'' @ p_id p"
  "source_key (subscription_source g dc) = ''subscription:'' @ fst dc"
  by (simp_all add: profile_source_def subscription_source_def split: prod.splits)

lemma count_subscribed:
  "d \<noteq> LOCAL \<Longrightarrow> count_list (map profile_domain (subscribed ps)) d = count_list (map profile_domain ps) d"
  by (induction ps) auto

lemma length_partition: "length (filter P xs) + length (filter (\<lambda>x. \<not> P x) xs) = length xs"
  by (induction xs) auto

section \<open>The profile store\<close>

text \<open>
  \<open>useProfiles\<close>: the list, the selection, and the operations that take a new list from the
  backend.  \<open>hostname\<close> is \<open>new URL(url).hostname\<close>, \<open>None\<close> when the address does not parse.
\<close>

record profile_store =
  ps_profiles :: "profile list"
  ps_selection :: selection

definition opened_store :: profile_store where
  "opened_store = \<lparr>ps_profiles = [], ps_selection = EMPTY_SELECTION\<rparr>"

definition apply_profiles :: "(string \<Rightarrow> string \<Rightarrow> bool) \<Rightarrow> profile list \<Rightarrow> profile_store \<Rightarrow> profile_store" where
  "apply_profiles lc next_ps v =
     \<lparr>ps_profiles = next_ps, ps_selection = reconcile_selection lc next_ps (ps_selection v)\<rparr>"

definition add_profile :: "profile list \<Rightarrow> profile_store \<Rightarrow> profile_store" where
  "add_profile next_ps v =
     \<lparr>ps_profiles = next_ps,
      ps_selection = \<lparr>sel_domain = LOCAL, sel_mode = Manual,
                      sel_profile_id = (if next_ps = [] then [] else p_id (last next_ps))\<rparr>\<rparr>"

definition import_subscription ::
  "(string \<Rightarrow> string \<Rightarrow> bool) \<Rightarrow> (string \<Rightarrow> string option) \<Rightarrow> string \<Rightarrow> profile list \<Rightarrow> profile_store \<Rightarrow> profile_store" where
  "import_subscription lc hostname url next_ps v =
     \<lparr>ps_profiles = next_ps,
      ps_selection = reconcile_selection lc next_ps
        (auto_selection (case hostname url of Some (c # cs) \<Rightarrow> c # cs | _ \<Rightarrow> LOCAL))\<rparr>"

text \<open>\<open>deleteIds\<close> asks the backend only when there is something to delete.\<close>

definition delete_ids :: "(string \<Rightarrow> string \<Rightarrow> bool) \<Rightarrow> string list \<Rightarrow> profile list \<Rightarrow> profile_store \<Rightarrow> profile_store" where
  "delete_ids lc ids next_ps v = (if ids = [] then v else apply_profiles lc next_ps v)"

definition domain_profiles :: "profile_store \<Rightarrow> profile list" where
  "domain_profiles v = filter (\<lambda>p. profile_domain p = sel_domain (ps_selection v)) (ps_profiles v)"

text \<open>
  The answers of the backend, in the order they arrive: a list after a load, an update or a
  refresh, after adding a profile, importing a subscription, deleting; and the user's choice.
\<close>

datatype store_event =
    Listed "profile list"
  | Added "profile list"
  | Imported string "profile list"
  | Deleted "string list" "profile list"
  | Chosen selection

fun store_step :: "(string \<Rightarrow> string \<Rightarrow> bool) \<Rightarrow> (string \<Rightarrow> string option) \<Rightarrow> profile_store \<Rightarrow> store_event \<Rightarrow> profile_store" where
  "store_step lc hostname v (Listed ps) = apply_profiles lc ps v"
| "store_step lc hostname v (Added ps) = add_profile ps v"
| "store_step lc hostname v (Imported url ps) = import_subscription lc hostname url ps v"
| "store_step lc hostname v (Deleted ids ps) = delete_ids lc ids ps v"
| "store_step lc hostname v (Chosen s) = v\<lparr>ps_selection := s\<rparr>"

text \<open>
  An added profile is the last of the answer and local, as the backend appends it; the pickers
  offer only configurations that exist.
\<close>

fun store_event_ok :: "profile_store \<Rightarrow> store_event \<Rightarrow> bool" where
  "store_event_ok v (Added ps) = (ps \<noteq> [] \<and> profile_domain (last ps) = LOCAL)"
| "store_event_ok v (Chosen s) = selection_ok (ps_profiles v) s"
| "store_event_ok v e = True"

fun store_run :: "(string \<Rightarrow> string \<Rightarrow> bool) \<Rightarrow> (string \<Rightarrow> string option) \<Rightarrow> profile_store \<Rightarrow> store_event list \<Rightarrow> profile_store option" where
  "store_run lc hostname v [] = Some v"
| "store_run lc hostname v (e # es) =
     (if store_event_ok v e then store_run lc hostname (store_step lc hostname v e) es else None)"

abbreviation store_ok :: "profile_store \<Rightarrow> bool" where
  "store_ok v \<equiv> selection_ok (ps_profiles v) (ps_selection v)"

lemma add_profile_ok:
  "ps \<noteq> [] \<Longrightarrow> profile_domain (last ps) = LOCAL \<Longrightarrow> store_ok (add_profile ps v)"
  by (auto simp: add_profile_def selection_ok_def names_profile_iff intro!: image_eqI [of _ _ "last ps"] bexI [of _ "last ps"])

lemma store_step_ok: "store_ok v \<Longrightarrow> store_event_ok v e \<Longrightarrow> store_ok (store_step lc hostname v e)"
  by (cases e) (simp_all add: apply_profiles_def import_subscription_def delete_ids_def reconcile_ok add_profile_ok)

lemma store_run_ok: "store_ok v \<Longrightarrow> store_run lc hostname v es = Some w \<Longrightarrow> store_ok w"
proof (induction es arbitrary: v)
  case (Cons e es)
  then show ?case using store_step_ok [of v e lc hostname] Cons.IH [of "store_step lc hostname v e"]
    by (cases "store_event_ok v e") simp_all
qed simp

lemma selection_ok_domain_profiles:
  "store_ok v \<Longrightarrow> ps_profiles v \<noteq> [] \<Longrightarrow> domain_profiles v \<noteq> []"
  by (fastforce simp: selection_ok_def domain_profiles_def filter_empty_conv)

section \<open>The server the window shows\<close>

record server_choice =
  ch_available :: "profile list"
  ch_best :: "profile option"
  ch_actual :: "profile option"
  ch_selected :: "profile option"
  ch_displayed :: "profile option"

definition trimmed_or_local :: "string \<Rightarrow> string" where
  "trimmed_or_local s = (let d = js_trim s in if d = [] then LOCAL else d)"

fun finite_ping :: "jsnum \<Rightarrow> rat option" where
  "finite_ping (Fin q) = (if q \<ge> 0 then Some q else None)"
| "finite_ping _ = None"

definition ping_of :: "(string \<rightharpoonup> jsnum) \<Rightarrow> profile \<Rightarrow> rat option" where
  "ping_of pings p = Option.bind (pings (p_id p)) finite_ping"

definition is_candidate :: "(string \<rightharpoonup> jsnum) \<Rightarrow> (string \<rightharpoonup> string) \<Rightarrow> profile \<Rightarrow> bool" where
  "is_candidate pings unsupported p \<longleftrightarrow>
     or_else (unsupported (p_id p)) [] = [] \<and> ping_of pings p \<noteq> None"

definition faster :: "(string \<rightharpoonup> jsnum) \<Rightarrow> profile option \<Rightarrow> profile \<Rightarrow> profile option" where
  "faster pings winner p =
     (case winner of None \<Rightarrow> Some p
      | Some w \<Rightarrow> if the (ping_of pings p) < the (ping_of pings w) then Some p else Some w)"

definition server_selection ::
  "profile list \<Rightarrow> (string \<rightharpoonup> jsnum) \<Rightarrow> string \<Rightarrow> proxy_mode \<Rightarrow> string \<Rightarrow> connection_state option \<Rightarrow> (string \<rightharpoonup> string) \<Rightarrow> server_choice" where
  "server_selection ps pings domain mode pid state unsupported =
     (let available = filter (\<lambda>p. trimmed_or_local (or_else (p_source_domain p) []) = trimmed_or_local domain) ps;
          best = foldl (faster pings) None (filter (is_candidate pings unsupported) available);
          live = (case state of Some s \<Rightarrow> cs_status s = Connected | None \<Rightarrow> False);
          actual = (if live then find (\<lambda>p. Some (p_id p) = cs_profile_id (the state)) ps else None);
          selected = find (\<lambda>p. p_id p = pid) available
      in \<lparr>ch_available = available, ch_best = best, ch_actual = actual, ch_selected = selected,
          ch_displayed = (if live then actual else if mode = Auto then best else selected)\<rparr>)"

lemma faster_fold_None: "foldl (faster pings) w ps = None \<longleftrightarrow> w = None \<and> ps = []"
  by (induction ps arbitrary: w) (auto simp: faster_def split: option.splits)

lemma faster_fold:
  "foldl (faster pings) w ps = Some b \<Longrightarrow>
     (Some b = w \<or> b \<in> set ps) \<and> (\<forall>p \<in> set ps. the (ping_of pings b) \<le> the (ping_of pings p))
     \<and> (\<forall>v. w = Some v \<longrightarrow> the (ping_of pings b) \<le> the (ping_of pings v))"
proof (induction ps arbitrary: w)
  case (Cons p ps)
  from Cons.prems Cons.IH [of "faster pings w p"] show ?case
    by (cases w) (auto simp: faster_def split: if_splits)
qed auto


section \<open>Properties\<close>


definition sample_profile :: "string \<Rightarrow> string option \<Rightarrow> profile" where
  "sample_profile i d = \<lparr>p_id = i, p_name = i, p_server = ''example.org'', p_protocol = ''vless'', p_config_link = ''vless://'' @ i,
     p_source_domain = d, p_subscription_url = None, p_total_up = None, p_total_down = None,
     p_favorite = None, p_group = None, p_subscription_info = None\<rparr>"

lemma sample_profile_domain [simp]: "profile_domain (sample_profile i None) = LOCAL" "p_id (sample_profile i d) = i"
  by (simp_all add: profile_domain_def sample_profile_def)


text \<open>The sources shown account for every profile exactly once - local profiles one by one, the
  others counted under their subscription - and no two sources share a key.\<close>

theorem sources_cover_profiles:
  assumes "distinct (map p_id ps)"
  shows "sum_list (map source_count (build_sources lc ps)) = length ps
    \<and> distinct (map source_key (build_sources lc ps))
    \<and> (\<forall>p. profile_domain p \<noteq> LOCAL \<and> p \<in> set ps \<longrightarrow> (\<exists>src \<in> set (build_sources lc ps).
          source_domain src = profile_domain p \<and> source_count src = count_list (map profile_domain ps) (profile_domain p)))"
proof (intro conjI allI impI)
  let ?m = "om_tally (map profile_domain (subscribed ps))"
  let ?s = "subscription_source (group_profiles ps)"
  have "sum_list (map source_count (build_sources lc ps)) = length (filter (\<lambda>p. profile_domain p = LOCAL) ps) + sum_list (map snd ?m)"
    by (simp add: build_sources_def Let_def group_local group_counts comp_def sum_list_triv)
  then show "sum_list (map source_count (build_sources lc ps)) = length ps"
    using length_partition [of "\<lambda>p. profile_domain p = LOCAL" ps] by (simp add: tally_sum)
next
  let ?m = "om_tally (map profile_domain (subscribed ps))"
  have a: "distinct (map source_key (map profile_source xs))" if "distinct (map p_id xs)" for xs
    using that by (induction xs) auto
  have b: "distinct (map source_key (map (subscription_source g) m))" if "distinct (om_keys m)" for g m
    using that by (induction m) auto
  have c: "distinct (map f (js_sort le xs)) = distinct (map f xs)" for f :: "'x \<Rightarrow> string" and le xs
    by (metis mset_eq_imp_distinct_iff mset_js_sort mset_map)
  have "distinct (map p_id (js_sort (\<lambda>a b. lc (p_name a) (p_name b)) (filter (\<lambda>p. profile_domain p = LOCAL) ps)))"
    unfolding c using assms by (rule distinct_map_filter)
  then show "distinct (map source_key (build_sources lc ps))"
    using a b [OF distinct_om_tally] by (auto simp: build_sources_def Let_def group_local group_counts c)
next
  fix p
  assume p: "profile_domain p \<noteq> LOCAL \<and> p \<in> set ps"
  let ?m = "om_tally (map profile_domain (subscribed ps))"
  have "profile_domain p \<in> set (om_keys ?m)" using p by (simp add: set_om_keys_tally del: set_map) auto
  then obtain n where n: "om_get ?m (profile_domain p) = Some n" by (metis om_get_None_iff not_None_eq)
  then have "(profile_domain p, n) \<in> set ?m" by (simp add: om_get_def map_of_SomeD)
  then have i: "subscription_source (group_profiles ps) (profile_domain p, n) \<in> set (build_sources lc ps)"
    by (simp add: build_sources_def Let_def group_counts)
  have "n = count_list (map profile_domain (subscribed ps)) (profile_domain p)"
    using om_tally_count [of "map profile_domain (subscribed ps)" "profile_domain p"] n by simp
  also have "\<dots> = count_list (map profile_domain ps) (profile_domain p)"
    using p by (intro count_subscribed) simp
  finally show "\<exists>src \<in> set (build_sources lc ps). source_domain src = profile_domain p
      \<and> source_count src = count_list (map profile_domain ps) (profile_domain p)"
    using i by (intro bexI [of _ "subscription_source (group_profiles ps) (profile_domain p, n)"]) simp_all
qed

theorem sources_cover_profiles_witness:
  "sum_list (map source_count (build_sources text_le [sample_profile ''a'' None, sample_profile ''b'' (Some ''sub.example'')])) = 2"
  using sources_cover_profiles [of "[sample_profile ''a'' None, sample_profile ''b'' (Some ''sub.example'')]" text_le] by simp



text \<open>In automatic mode the window shows the server with the lowest latency among the measured and
  supported ones of the configuration, and none exactly when there is no such server; but while
  connected it shows the server the backend named, never the recommendation.\<close>

theorem server_selection_shows:
  fixes ps pings domain pid state unsupported mode
  defines "ch \<equiv> server_selection ps pings domain mode pid state unsupported"
  shows "(\<forall>b. ch_best ch = Some b \<longrightarrow> b \<in> set (ch_available ch) \<and> is_candidate pings unsupported b
      \<and> (\<forall>p \<in> set (ch_available ch). is_candidate pings unsupported p \<longrightarrow> the (ping_of pings b) \<le> the (ping_of pings p)))
    \<and> (ch_best ch = None \<longleftrightarrow> (\<forall>p \<in> set (ch_available ch). \<not> is_candidate pings unsupported p))
    \<and> (\<forall>s. state = Some s \<and> cs_status s = Connected \<longrightarrow> ch_displayed ch = ch_actual ch
          \<and> (\<forall>p. ch_actual ch = Some p \<longrightarrow> p \<in> set ps \<and> cs_profile_id s = Some (p_id p)))
    \<and> (\<forall>s. state = Some s \<and> cs_status s \<noteq> Connected \<and> mode = Auto \<longrightarrow> ch_displayed ch = ch_best ch)"
proof -
  let ?c = "filter (is_candidate pings unsupported) (ch_available ch)"
  have b: "ch_best ch = foldl (faster pings) None ?c"
    by (simp add: ch_def server_selection_def Let_def)
  have n: "ch_best ch = None \<longleftrightarrow> ?c = []" unfolding b by (simp add: faster_fold_None)
  have s: "b \<in> set ?c \<and> (\<forall>p \<in> set ?c. the (ping_of pings b) \<le> the (ping_of pings p))" if "ch_best ch = Some b" for b
    using faster_fold that unfolding b by fastforce
  have a: "ch_displayed ch = ch_actual ch \<and> (\<forall>p. ch_actual ch = Some p \<longrightarrow> p \<in> set ps \<and> cs_profile_id x = Some (p_id p))"
    if "state = Some x" "cs_status x = Connected" for x
    using that by (auto simp: ch_def server_selection_def Let_def dest: find_Some_in)
  have d: "ch_displayed ch = ch_best ch" if "state = Some x" "cs_status x \<noteq> Connected" "mode = Auto" for x
    using that by (simp add: ch_def server_selection_def Let_def)
  show ?thesis using n s a d by (auto simp: filter_empty_conv)
qed

theorem server_selection_shows_witness:
  "ch_best (server_selection [sample_profile ''a'' None, sample_profile ''b'' None]
     (map_of [(''a'', Fin 80), (''b'', Fin 30)]) [] Auto [] None Map.empty) \<noteq> None"
  using server_selection_shows [of "[sample_profile ''a'' None, sample_profile ''b'' None]"
      "map_of [(''a'', Fin 80), (''b'', Fin 30)]" "[]" Auto "[]" None Map.empty]
  by (auto simp: server_selection_def Let_def sample_profile_def is_candidate_def ping_of_def trimmed_or_local_def)

end
