(* ===== verification/Traffic_Apps.thy ===== *)
theory Traffic_Apps
  imports App_Types Js_Order
begin

text \<open>
  Which programs belong to the operating system (lib/system-apps.ts) and traffic folded by
  application (lib/traffic-apps.ts).
\<close>

section \<open>System programs\<close>

definition SYSTEM_NAMES :: "string list" where
  "SYSTEM_NAMES =
     [''system'', ''svchost'', ''lsass'', ''services'', ''wininit'', ''winlogon'', ''csrss'', ''spoolsv'',
      ''searchhost'', ''searchindexer'', ''smartscreen'', ''msmpeng'', ''mpdefendercoreservice'',
      ''wuauclt'', ''musnotification'', ''backgroundtaskhost'', ''runtimebroker'', ''taskhostw'',
      ''mdnsresponder'', ''nsurlsessiond'', ''trustd'', ''apsd'', ''systemd-resolved'', ''networkmanager'']"

definition drop_suffix :: "string \<Rightarrow> string \<Rightarrow> string" where
  "drop_suffix ending s = (if js_ends_with s ending then take (length s - length ending) s else s)"

text \<open>\<open>/^[a-z]:\\windows\\/\<close> on a lower-cased path with backslashes.\<close>

definition windows_folder :: "string \<Rightarrow> bool" where
  "windows_folder s =
     (case s of [] \<Rightarrow> False
      | c # r \<Rightarrow> (let n = (of_char c :: nat) in 97 \<le> n \<and> n \<le> 122)
          \<and> js_starts_with r ('':'' @ [CHR 0x5C] @ ''windows'' @ [CHR 0x5C]))"

text \<open>\<open>/^\/(system|usr|sbin|bin|library\/apple)\//\<close>.\<close>

definition unix_folder :: "string \<Rightarrow> bool" where
  "unix_folder s = list_ex (js_starts_with s)
     [''/system/'', ''/usr/'', ''/sbin/'', ''/bin/'', ''/library/apple/'']"

definition is_system_program :: "string option \<Rightarrow> string option \<Rightarrow> bool" where
  "is_system_program name path =
     (if or_else name [] = [] then True
      else let lower = js_lower (the name);
               unix = js_lower (or_else path []);
               folder = map (\<lambda>c. if c = CHR ''/'' then CHR 0x5C else c) unix
           in js_ends_with lower ''.dll'' \<or> drop_suffix ''.exe'' lower \<in> set SYSTEM_NAMES
              \<or> (folder \<noteq> [] \<and> (windows_folder folder \<or> unix_folder unix)))"

section \<open>Grouping by application\<close>

definition SYSTEM_PROGRAM :: string where
  "SYSTEM_PROGRAM = CHR 0x01 # ''system''"

text \<open>
  \<open>/(?:^|\/)([^/]+)\.app\//\<close>: the name of the first folder of the path that ends in \<open>.app\<close>.
\<close>

definition is_bundle :: "string \<Rightarrow> bool" where
  "is_bundle folder \<longleftrightarrow> js_ends_with folder ''.app'' \<and> length folder > 4"

definition bundle_name :: "string \<Rightarrow> string option" where
  "bundle_name program = map_option (drop_suffix ''.app'') (find is_bundle (butlast (js_split CHR ''/'' program)))"

text \<open>\<open>.replace(/\.exe$/i, "")\<close>.\<close>

definition strip_exe :: "string \<Rightarrow> string" where
  "strip_exe s = (if js_ends_with (js_lower s) ''.exe'' then take (length s - 4) s else s)"

text \<open>\<open>/ Helper(?: \([^)]*\))?$/i\<close> at the start of \<open>s\<close>, and its first match cut off.\<close>

definition helper_tail :: "string \<Rightarrow> bool" where
  "helper_tail s \<longleftrightarrow> js_lower (take 7 s) = '' helper''
     \<and> (let r = drop 7 s in r = [] \<or> (js_starts_with r '' ('' \<and> takeWhile (\<lambda>c. c \<noteq> CHR '')'') r @ '')'' = r))"

fun strip_helper :: "string \<Rightarrow> string" where
  "strip_helper [] = []"
| "strip_helper (c # s) = (if helper_tail (c # s) then [] else c # strip_helper s)"

record program_row =
  pr_program :: string
  pr_up :: nat
  pr_down :: nat
  pr_icon :: string

definition app_of :: "bool \<Rightarrow> string \<Rightarrow> string" where
  "app_of show_system program =
     (if \<not> show_system \<and> is_system_program (Some program) None then SYSTEM_PROGRAM
      else strip_helper (strip_exe (or_else (bundle_name program) program)))"

definition add_usage :: "bool \<Rightarrow> (string, program_row) omap \<Rightarrow> program_usage \<Rightarrow> (string, program_row) omap" where
  "add_usage show_system grouped u =
     (let program = app_of show_system (pu_program u) in
      case om_get grouped program of
        Some row \<Rightarrow> om_set grouped program (row\<lparr>pr_up := pr_up row + pu_up u, pr_down := pr_down row + pu_down u\<rparr>)
      | None \<Rightarrow> om_set grouped program
          \<lparr>pr_program = program, pr_up = pu_up u, pr_down = pu_down u, pr_icon = pu_program u\<rparr>)"

definition row_total :: "program_row \<Rightarrow> int" where
  "row_total r = int (pr_up r + pr_down r)"

definition group_traffic_apps :: "program_usage list \<Rightarrow> bool \<Rightarrow> program_row list" where
  "group_traffic_apps programs show_system =
     js_sort (desc_by row_total) (map snd (foldl (add_usage show_system) [] programs))"

text \<open>What the loop keeps: one row per application, holding the sum of what belongs to it.\<close>

definition sums_of :: "bool \<Rightarrow> program_usage list \<Rightarrow> string \<Rightarrow> nat \<times> nat" where
  "sums_of show_system us a =
     (let mine = filter (\<lambda>u. app_of show_system (pu_program u) = a) us
      in (sum_list (map pu_up mine), sum_list (map pu_down mine)))"

definition rows_ok :: "bool \<Rightarrow> program_usage list \<Rightarrow> (string, program_row) omap \<Rightarrow> bool" where
  "rows_ok show_system us m \<longleftrightarrow> distinct (om_keys m)
     \<and> set (om_keys m) = (\<lambda>u. app_of show_system (pu_program u)) ` set us
     \<and> (\<forall>k row. om_get m k = Some row \<longrightarrow> pr_program row = k \<and> (pr_up row, pr_down row) = sums_of show_system us k)"

lemma sums_of_snoc:
  "sums_of b (us @ [u]) a = (if app_of b (pu_program u) = a
     then (fst (sums_of b us a) + pu_up u, snd (sums_of b us a) + pu_down u) else sums_of b us a)"
  by (simp add: sums_of_def Let_def)

lemma sums_of_fresh: "a \<notin> (\<lambda>u. app_of b (pu_program u)) ` set us \<Longrightarrow> sums_of b us a = (0, 0)"
  by (auto simp: sums_of_def Let_def filter_empty_conv image_iff)

lemma add_usage_rows:
  assumes "rows_ok b us m"
  shows "rows_ok b (us @ [u]) (add_usage b m u)"
proof (cases "om_get m (app_of b (pu_program u))")
  case None
  then have n: "app_of b (pu_program u) \<notin> set (om_keys m)" by (simp only: om_get_None_iff not_False_eq_True)
  then have "app_of b (pu_program u) \<notin> (\<lambda>u. app_of b (pu_program u)) ` set us"
    using assms unfolding rows_ok_def by metis
  from sums_of_fresh [OF this] None n assms show ?thesis
    by (simp add: rows_ok_def add_usage_def Let_def distinct_om_set om_keys_set om_simps sums_of_snoc del: set_map)
next
  case (Some row)
  then have "app_of b (pu_program u) \<in> set (om_keys m)" by (metis om_get_None_iff option.distinct(1))
  with Some assms show ?thesis
    by (simp add: rows_ok_def add_usage_def Let_def distinct_om_set om_keys_set om_simps sums_of_snoc insert_absorb del: set_map)
      (metis fst_conv snd_conv)
qed

lemma group_rows_ok: "rows_ok b us (foldl (add_usage b) [] us)"
proof (induction us rule: rev_induct)
  case (snoc u us)
  then show ?case by (simp add: add_usage_rows)
qed (simp add: rows_ok_def om_simps)

lemma add_usage_total:
  "sum_list (map (pr_up \<circ> snd) (add_usage b m u)) = sum_list (map (pr_up \<circ> snd) m) + pu_up u"
  "sum_list (map (pr_down \<circ> snd) (add_usage b m u)) = sum_list (map (pr_down \<circ> snd) m) + pu_down u"
proof -
  let ?k = "app_of b (pu_program u)"
  let ?v = "case om_get m ?k of None \<Rightarrow> \<lparr>pr_program = ?k, pr_up = pu_up u, pr_down = pu_down u, pr_icon = pu_program u\<rparr>
    | Some row \<Rightarrow> row\<lparr>pr_up := pr_up row + pu_up u, pr_down := pr_down row + pu_down u\<rparr>"
  have v: "add_usage b m u = om_set m ?k ?v" by (simp add: add_usage_def Let_def split: option.split)
  show "sum_list (map (pr_up \<circ> snd) (add_usage b m u)) = sum_list (map (pr_up \<circ> snd) m) + pu_up u"
    unfolding v using om_set_sum [of pr_up m ?k ?v] by (cases "om_get m ?k") simp_all
  show "sum_list (map (pr_down \<circ> snd) (add_usage b m u)) = sum_list (map (pr_down \<circ> snd) m) + pu_down u"
    unfolding v using om_set_sum [of pr_down m ?k ?v] by (cases "om_get m ?k") simp_all
qed

lemma group_total:
  "sum_list (map (pr_up \<circ> snd) (foldl (add_usage b) m us)) = sum_list (map (pr_up \<circ> snd) m) + sum_list (map pu_up us)"
  "sum_list (map (pr_down \<circ> snd) (foldl (add_usage b) m us)) = sum_list (map (pr_down \<circ> snd) m) + sum_list (map pu_down us)"
  by (induction us arbitrary: m) (simp_all add: add_usage_total)

section \<open>Properties\<close>

text \<open>Folding helpers into their applications loses no traffic: the bytes up and the bytes down of the
  rows add up to those of the programs, every application has one row holding exactly the sums of
  its programs, and the rows come largest first.\<close>

theorem grouping_preserves_traffic:
  "sum_list (map pr_up (group_traffic_apps us b)) = sum_list (map pu_up us)
    \<and> sum_list (map pr_down (group_traffic_apps us b)) = sum_list (map pu_down us)
    \<and> distinct (map pr_program (group_traffic_apps us b))
    \<and> sorted_wrt (\<lambda>r s. row_total s \<le> row_total r) (group_traffic_apps us b)
    \<and> (\<forall>u. u \<in> set us \<longrightarrow> (\<exists>r \<in> set (group_traffic_apps us b).
          pr_program r = app_of b (pu_program u) \<and> (pr_up r, pr_down r) = sums_of b us (pr_program r)))"
proof -
  let ?m = "foldl (add_usage b) [] us"
  have ok: "rows_ok b us ?m" by (rule group_rows_ok)
  have k: "om_keys ?m = map (pr_program \<circ> snd) ?m"
  proof (rule map_cong [OF refl])
    fix x assume "x \<in> set ?m"
    with ok have "om_get ?m (fst x) = Some (snd x)" by (simp add: rows_ok_def om_get_def)
    with ok show "fst x = (pr_program \<circ> snd) x" by (simp add: rows_ok_def)
  qed
  have p: "distinct (map pr_program (group_traffic_apps us b))"
  proof -
    have "mset (map pr_program (group_traffic_apps us b)) = mset (om_keys ?m)"
      by (simp add: group_traffic_apps_def k multiset.map_comp)
    then show ?thesis using ok by (metis mset_eq_imp_distinct_iff rows_ok_def)
  qed
  have s: "sorted_wrt (\<lambda>r s. row_total s \<le> row_total r) (group_traffic_apps us b)"
    using desc.sorted_sort [of row_total] unfolding group_traffic_apps_def desc_by_def by blast
  have e: "\<exists>r \<in> set (group_traffic_apps us b). pr_program r = app_of b (pu_program u)
      \<and> (pr_up r, pr_down r) = sums_of b us (pr_program r)" if "u \<in> set us" for u
  proof -
    from that ok have "app_of b (pu_program u) \<in> set (om_keys ?m)" by (simp add: rows_ok_def del: set_map)
    then obtain r where r: "om_get ?m (app_of b (pu_program u)) = Some r" by (metis om_get_None_iff not_None_eq)
    then have "r \<in> set (map snd ?m)" by (force simp: om_get_def dest: map_of_SomeD)
    with r ok show ?thesis by (intro bexI [of _ r]) (simp_all add: rows_ok_def group_traffic_apps_def)
  qed
  have t: "sum_list (map pr_up (group_traffic_apps us b)) = sum_list (map pu_up us)"
    "sum_list (map pr_down (group_traffic_apps us b)) = sum_list (map pu_down us)"
    by (simp_all add: group_traffic_apps_def group_total)
  show ?thesis by (intro conjI t p s allI impI e)
qed


theorem grouping_preserves_traffic_witness:
  "sum_list (map pr_down (group_traffic_apps
       [\<lparr>pu_program = ''Discord'', pu_up = 10, pu_down = 20\<rparr>,
        \<lparr>pu_program = ''Discord Helper (Renderer)'', pu_up = 30, pu_down = 40\<rparr>] False)) = 60
    \<and> app_of False ''Discord Helper (Renderer)'' = app_of False ''Discord''"
proof (rule conjI)
  show "sum_list (map pr_down (group_traffic_apps
       [\<lparr>pu_program = ''Discord'', pu_up = 10, pu_down = 20\<rparr>,
        \<lparr>pu_program = ''Discord Helper (Renderer)'', pu_up = 30, pu_down = 40\<rparr>] False)) = 60"
    using grouping_preserves_traffic [of "[\<lparr>pu_program = ''Discord'', pu_up = 10, pu_down = 20\<rparr>,
        \<lparr>pu_program = ''Discord Helper (Renderer)'', pu_up = 30, pu_down = 40\<rparr>]" False] by simp
  show "app_of False ''Discord Helper (Renderer)'' = app_of False ''Discord''" by code_simp
qed

end
