(* ===== verification/Connections.thy ===== *)
theory Connections
  imports Traffic_Apps
begin

text \<open>
  The list of live connections (components/views/ConnectionsView.tsx): the read of every second,
  the connections that closed a moment ago, the rows the user closed, and the grouping by
  program.  Rates are exact rationals, times are milliseconds.
\<close>

section \<open>State\<close>

definition RECENT_MS :: int where
  "RECENT_MS = 30000"

record row = live_connection +
  rw_rate :: rat
  rw_rate_down :: rat
  rw_rate_up :: rat
  rw_closed_at :: "int option"

record counter =
  ct_down :: int
  ct_up :: int
  ct_at :: int

text \<open>The module state \<open>live\<close>, and the rows the view shows.\<close>

record live_state =
  lv_rows :: "row list"
  lv_previous :: "(string, counter) omap"
  lv_last_open :: "(string, row) omap"
  lv_recent :: "(string, row) omap"
  lv_dismissed :: "string list"
  lv_shown :: "row list"

definition clear_live :: "live_state \<Rightarrow> live_state" where
  "clear_live v = v\<lparr>lv_rows := [], lv_previous := [], lv_last_open := [], lv_recent := [], lv_shown := []\<rparr>"

section \<open>One read\<close>

definition rate_per :: "counter option \<Rightarrow> int \<Rightarrow> int \<Rightarrow> int \<Rightarrow> rat" where
  "rate_per before now bytes was =
     (case before of
        Some b \<Rightarrow> (let seconds = of_int (now - ct_at b) / 1000 in
                    if seconds > 0 then max 0 (of_int (bytes - was) / seconds) else 0)
      | None \<Rightarrow> 0)"

definition row_of :: "(string, counter) omap \<Rightarrow> int \<Rightarrow> live_connection \<Rightarrow> row" where
  "row_of previous now c =
     (let before = om_get previous (lc_id c);
          down = rate_per before now (lc_download c) (case before of Some b \<Rightarrow> ct_down b | None \<Rightarrow> 0);
          up = rate_per before now (lc_upload c) (case before of Some b \<Rightarrow> ct_up b | None \<Rightarrow> 0)
      in live_connection.extend c \<lparr>rw_rate = down + up, rw_rate_down = down, rw_rate_up = up, rw_closed_at = None\<rparr>)"

definition counter_of :: "int \<Rightarrow> live_connection \<Rightarrow> counter" where
  "counter_of now c = \<lparr>ct_down = lc_download c, ct_up = lc_upload c, ct_at = now\<rparr>"

definition closed_row :: "int \<Rightarrow> row \<Rightarrow> row" where
  "closed_row now r = r\<lparr>rw_rate := 0, rw_rate_down := 0, rw_rate_up := 0, rw_closed_at := Some now\<rparr>"

definition note_one ::
  "(string, counter) omap \<Rightarrow> string list \<Rightarrow> int \<Rightarrow> (string, row) omap \<Rightarrow> string \<times> row \<Rightarrow> (string, row) omap" where
  "note_one seen dismissed now m e =
     (if om_get seen (fst e) = None \<and> fst e \<notin> set dismissed then om_set m (fst e) (closed_row now (snd e)) else m)"

definition note_closed ::
  "(string, counter) omap \<Rightarrow> string list \<Rightarrow> int \<Rightarrow> (string, row) omap \<Rightarrow> (string, row) omap \<Rightarrow> (string, row) omap" where
  "note_closed seen dismissed now last_open recent = foldl (note_one seen dismissed now) recent last_open"

definition drop_stale :: "(string, counter) omap \<Rightarrow> int \<Rightarrow> (string, row) omap \<Rightarrow> (string, row) omap" where
  "drop_stale seen now recent =
     filter (\<lambda>e. om_get seen (fst e) = None \<and> now - or_else (rw_closed_at (snd e)) 0 \<le> RECENT_MS) recent"

definition read_connections :: "live_connection list \<Rightarrow> int \<Rightarrow> live_state \<Rightarrow> live_state" where
  "read_connections list now v =
     (let next_rows = map (row_of (lv_previous v) now) list;
          seen = foldl (\<lambda>m c. om_set m (lc_id c) (counter_of now c)) [] list;
          recent = drop_stale seen now (note_closed seen (lv_dismissed v) now (lv_last_open v) (lv_recent v));
          rows = next_rows @ map snd recent
      in v\<lparr>lv_previous := seen, lv_recent := recent,
           lv_last_open := foldl (\<lambda>m r. om_set m (lc_id r) r) [] next_rows,
           lv_rows := rows, lv_shown := rows\<rparr>)"

text \<open>What a read leaves in each field.\<close>

definition seen_in :: "live_connection list \<Rightarrow> int \<Rightarrow> (string, counter) omap" where
  "seen_in list now = foldl (\<lambda>m c. om_set m (lc_id c) (counter_of now c)) [] list"

definition recent_after :: "live_connection list \<Rightarrow> int \<Rightarrow> live_state \<Rightarrow> (string, row) omap" where
  "recent_after list now v = drop_stale (seen_in list now) now
     (note_closed (seen_in list now) (lv_dismissed v) now (lv_last_open v) (lv_recent v))"

lemma read_fields:
  "lv_previous (read_connections list now v) = seen_in list now"
  "lv_recent (read_connections list now v) = recent_after list now v"
  "lv_last_open (read_connections list now v)
     = foldl (\<lambda>m r. om_set m (lc_id r) r) [] (map (row_of (lv_previous v) now) list)"
  "lv_rows (read_connections list now v) = map (row_of (lv_previous v) now) list @ map snd (recent_after list now v)"
  "lv_shown (read_connections list now v) = map (row_of (lv_previous v) now) list @ map snd (recent_after list now v)"
  "lv_dismissed (read_connections list now v) = lv_dismissed v"
  by (simp_all add: read_connections_def recent_after_def seen_in_def Let_def)

lemma seen_in_None: "om_get (seen_in list now) i = None \<longleftrightarrow> i \<notin> lc_id ` set list"
proof -
  have "set (om_keys (foldl (\<lambda>m c. om_set m (lc_id c) (counter_of now c)) m list)) = set (om_keys m) \<union> lc_id ` set list" for m
    by (induction list arbitrary: m) (auto simp: om_keys_set simp del: set_map)
  then show ?thesis by (simp add: om_get_None_iff seen_in_def del: set_map)
qed

section \<open>Closing, opening, grouping\<close>

text \<open>\<open>close(ids)\<close> after the backend closed them; without ids, everything shown.\<close>

definition close_connections :: "string list option \<Rightarrow> live_state \<Rightarrow> live_state" where
  "close_connections ids v =
     (let gone = (case ids of Some is \<Rightarrow> is | None \<Rightarrow> map lc_id (lv_shown v)) in
      v\<lparr>lv_dismissed := lv_dismissed v @ gone,
        lv_recent := filter (\<lambda>e. fst e \<notin> set gone) (lv_recent v),
        lv_shown := (case ids of Some is \<Rightarrow> filter (\<lambda>r. lc_id r \<notin> set is) (lv_shown v) | None \<Rightarrow> [])\<rparr>)"

definition open_view :: "bool \<Rightarrow> live_state \<Rightarrow> live_state" where
  "open_view on v = v\<lparr>lv_shown := (if on then lv_rows v else [])\<rparr>"

record app_group =
  ag_key :: string
  ag_rows :: "row list"
  ag_open :: nat
  ag_down :: int
  ag_up :: int
  ag_rate :: rat
  ag_rate_down :: rat
  ag_rate_up :: rat

definition new_group :: "string \<Rightarrow> app_group" where
  "new_group k = \<lparr>ag_key = k, ag_rows = [], ag_open = 0, ag_down = 0, ag_up = 0, ag_rate = 0, ag_rate_down = 0, ag_rate_up = 0\<rparr>"

definition add_row :: "app_group \<Rightarrow> row \<Rightarrow> app_group" where
  "add_row g r = g\<lparr>ag_rows := ag_rows g @ [r],
     ag_open := ag_open g + (if or_else (rw_closed_at r) 0 = 0 then 1 else 0),
     ag_down := ag_down g + lc_download r, ag_up := ag_up g + lc_upload r,
     ag_rate := ag_rate g + rw_rate r, ag_rate_down := ag_rate_down g + rw_rate_down r,
     ag_rate_up := ag_rate_up g + rw_rate_up r\<rparr>"

definition group_step :: "(row \<Rightarrow> string) \<Rightarrow> (string, app_group) omap \<Rightarrow> row \<Rightarrow> (string, app_group) omap" where
  "group_step key_of m r = om_set m (key_of r) (add_row (or_else (om_get m (key_of r)) (new_group (key_of r))) r)"

definition group_rows :: "(row \<Rightarrow> string) \<Rightarrow> row list \<Rightarrow> app_group list" where
  "group_rows key_of rows = map snd (foldl (group_step key_of) [] rows)"

definition NO_APP :: string where
  "NO_APP = [CHR 0x00]"

definition SYSTEM :: string where
  "SYSTEM = CHR 0x01 # ''system''"

text \<open>\<open>row.app || NO_APP\<close>, and system programs under one key.\<close>

definition app_key :: "row \<Rightarrow> string" where
  "app_key r = (if or_else (lc_app r) [] = [] then NO_APP else the (lc_app r))"

definition group_key :: "bool \<Rightarrow> row \<Rightarrow> string" where
  "group_key show_system r =
     (if \<not> show_system \<and> is_system_program (lc_app r) (lc_app_path r) then SYSTEM else app_key r)"

definition connection_groups :: "bool \<Rightarrow> row list \<Rightarrow> app_group list" where
  "connection_groups show_system rows = group_rows (group_key show_system) rows"

section \<open>Events and invariant\<close>

datatype live_event =
    Read "live_connection list" int
  | Close "string list option"
  | Disconnect
  | OpenView bool

fun live_step :: "live_state \<Rightarrow> live_event \<Rightarrow> live_state" where
  "live_step v (Read list now) = read_connections list now v"
| "live_step v (Close ids) = close_connections ids v"
| "live_step v Disconnect = clear_live v"
| "live_step v (OpenView on) = open_view on v"

definition no_live :: live_state where
  "no_live = \<lparr>lv_rows = [], lv_previous = [], lv_last_open = [], lv_recent = [], lv_dismissed = [], lv_shown = []\<rparr>"

definition keyed :: "(string, row) omap \<Rightarrow> bool" where
  "keyed m \<longleftrightarrow> distinct (om_keys m) \<and> (\<forall>e \<in> set m. lc_id (snd e) = fst e)"

definition recent_ok :: "string list \<Rightarrow> (string, row) omap \<Rightarrow> bool" where
  "recent_ok d m \<longleftrightarrow> keyed m \<and> (\<forall>e \<in> set m. rw_closed_at (snd e) \<noteq> None \<and> fst e \<notin> set d)"

definition live_inv :: "live_state \<Rightarrow> bool" where
  "live_inv v \<longleftrightarrow> recent_ok (lv_dismissed v) (lv_recent v) \<and> keyed (lv_last_open v)"

lemma keyed_set: "keyed m \<Longrightarrow> lc_id r = i \<Longrightarrow> keyed (om_set m i r)"
  using set_om_set_sub [of m i r] by (fastforce simp: keyed_def distinct_om_set)

lemma keyed_filter: "keyed m \<Longrightarrow> keyed (filter P m)"
  by (auto simp: keyed_def distinct_map_filter)

lemma keyed_fold: "keyed m \<Longrightarrow> keyed (foldl (\<lambda>m r. om_set m (lc_id r) r) m rs)"
  by (induction rs arbitrary: m) (simp_all add: keyed_set)

lemma keyed_Nil [simp]: "keyed []"
  by (simp add: keyed_def)

lemma recent_ok_filter: "recent_ok d m \<Longrightarrow> recent_ok d (filter P m)"
  by (auto simp: recent_ok_def keyed_filter)

lemma closed_row_simps [simp]: "lc_id (closed_row now r) = lc_id r" "rw_closed_at (closed_row now r) = Some now"
  by (simp_all add: closed_row_def)

lemma row_of_simps [simp]: "lc_id (row_of prev now c) = lc_id c" "rw_closed_at (row_of prev now c) = None"
  by (simp_all add: row_of_def Let_def live_connection.defs)

lemma note_one_ok:
  assumes "recent_ok d m" "lc_id (snd e) = fst e"
  shows "recent_ok d (note_one seen d now m e)"
proof (cases "om_get seen (fst e) = None \<and> fst e \<notin> set d")
  case True
  have "keyed (om_set m (fst e) (closed_row now (snd e)))" using assms by (simp add: recent_ok_def keyed_set)
  with True assms(1) set_om_set_sub [of m "fst e" "closed_row now (snd e)"] show ?thesis
    by (auto simp: recent_ok_def note_one_def)
next
  case False
  then show ?thesis using assms(1) by (simp only: note_one_def if_False)
qed

lemma note_closed_ok:
  "recent_ok d m \<Longrightarrow> keyed opened \<Longrightarrow> recent_ok d (note_closed seen d now opened m)"
  unfolding note_closed_def
proof (induction opened arbitrary: m)
  case (Cons e opened)
  then have "recent_ok d (note_one seen d now m e)" "keyed opened" by (simp_all add: note_one_ok keyed_def)
  from Cons.IH [OF this] show ?case by simp
qed simp

lemma recent_after_ok: "live_inv v \<Longrightarrow> recent_ok (lv_dismissed v) (recent_after list now v)"
  unfolding recent_after_def drop_stale_def live_inv_def by (simp add: recent_ok_filter note_closed_ok)

lemma close_ok: "live_inv v \<Longrightarrow> live_inv (close_connections ids v)"
proof -
  assume "live_inv v"
  then have "recent_ok (lv_dismissed v @ gone) (filter (\<lambda>e. fst e \<notin> set gone) (lv_recent v))" for gone
    by (auto simp: live_inv_def recent_ok_def keyed_filter)
  with \<open>live_inv v\<close> show ?thesis by (simp add: live_inv_def close_connections_def Let_def)
qed

lemma read_ok: "live_inv v \<Longrightarrow> live_inv (read_connections list now v)"
  unfolding live_inv_def read_fields by (intro conjI recent_after_ok keyed_fold) (simp_all add: live_inv_def)

lemma live_step_inv: "live_inv v \<Longrightarrow> live_inv (live_step v e)"
  by (cases e) (simp_all add: read_ok close_ok, simp_all add: live_inv_def clear_live_def open_view_def recent_ok_def)

lemma live_run_inv: "live_inv (foldl live_step no_live es)"
proof (induction es rule: rev_induct)
  case (snoc e es)
  then show ?case by (simp add: live_step_inv)
qed (simp add: live_inv_def no_live_def recent_ok_def)


lemma note_closed_get:
  assumes "distinct (om_keys opened)"
  shows "om_get (note_closed seen d now opened m) i =
    (if om_get seen i = None \<and> i \<notin> set d \<and> i \<in> set (om_keys opened)
     then map_option (closed_row now) (om_get opened i) else om_get m i)"
  using assms unfolding note_closed_def
proof (induction opened arbitrary: m)
  case (Cons e opened)
  then have d: "distinct (om_keys opened)" "fst e \<notin> set (om_keys opened)" by simp_all
  have g: "om_get (e # opened) i = (if fst e = i then Some (snd e) else om_get opened i)"
    by (cases e) (simp add: om_get_def)
  have o: "om_get (note_one seen d now m e) i = (if om_get seen i = None \<and> i \<notin> set d \<and> i = fst e
      then Some (closed_row now (snd e)) else om_get m i)" for d
    by (auto simp: note_one_def om_simps)
  show ?case unfolding foldl_Cons Cons.IH [OF d(1)] o g using d(2) by auto
qed simp

lemma map_snd_get: "keyed m \<Longrightarrow> om_get m i = Some r \<Longrightarrow> r \<in> set (map snd m)"
  by (force simp: om_get_def dest: map_of_SomeD)

lemma keyed_snd: "keyed m \<Longrightarrow> map lc_id (map snd m) = om_keys m"
  by (auto simp: keyed_def)

lemma open_rows: "\<forall>r \<in> set rs. rw_closed_at r = None \<Longrightarrow> filter (\<lambda>r. rw_closed_at r = None) rs = rs"
  by simp

section \<open>Properties\<close>

text \<open>After a read the list holds exactly the open connections of the backend followed by the
  recently closed ones, each id once; a closed one stays at most thirty seconds, is not open and was
  not closed by the user, and every connection open at the read before and gone now is there.\<close>

theorem read_lists_connections:
  assumes "distinct (map lc_id list)" "v = foldl live_step no_live es"
  shows "distinct (map lc_id (lv_rows (read_connections list now v)))
    \<and> map lc_id (filter (\<lambda>r. rw_closed_at r = None) (lv_rows (read_connections list now v))) = map lc_id list
    \<and> (\<forall>r \<in> set (lv_rows (read_connections list now v)). \<forall>t. rw_closed_at r = Some t \<longrightarrow>
          now - t \<le> 30000 \<and> lc_id r \<notin> lc_id ` set list \<and> lc_id r \<notin> set (lv_dismissed v))
    \<and> (\<forall>i r. om_get (lv_last_open v) i = Some r \<and> i \<notin> lc_id ` set list \<and> i \<notin> set (lv_dismissed v)
          \<longrightarrow> closed_row now r \<in> set (lv_rows (read_connections list now v)))"
proof -
  let ?w = "read_connections list now v" and ?a = "recent_after list now v"
  let ?n = "note_closed (seen_in list now) (lv_dismissed v) now (lv_last_open v) (lv_recent v)"
  have inv: "live_inv v" unfolding assms(2) by (rule live_run_inv)
  then have ok: "recent_ok (lv_dismissed v) ?a" by (rule recent_after_ok)
  then have k: "keyed ?a" by (simp add: recent_ok_def)
  have closed: "\<forall>r \<in> set (map snd ?a). rw_closed_at r \<noteq> None" using ok by (auto simp: recent_ok_def)
  have stale: "om_get (seen_in list now) (fst e) = None \<and> now - or_else (rw_closed_at (snd e)) 0 \<le> 30000" if "e \<in> set ?a" for e
    using that by (simp add: recent_after_def drop_stale_def RECENT_MS_def)
  have new: "e \<in> set ?a \<Longrightarrow> fst e \<notin> lc_id ` set list" for e using stale seen_in_None by blast
  have r: "lv_rows ?w = map (row_of (lv_previous v) now) list @ map snd ?a" by (rule read_fields)
  have "map lc_id (lv_rows ?w) = map lc_id list @ om_keys ?a" unfolding r using keyed_snd [OF k] by simp
  then have 1: "distinct (map lc_id (lv_rows ?w))" using assms(1) k by (fastforce simp: keyed_def dest: new)
  have "filter (\<lambda>r. rw_closed_at r = None) (map snd ?a) = []" using closed by (simp only: filter_False)
  moreover have "filter (\<lambda>r. rw_closed_at r = None) (map (row_of (lv_previous v) now) list) = map (row_of (lv_previous v) now) list"
    by (rule open_rows) simp
  ultimately have 2: "map lc_id (filter (\<lambda>r. rw_closed_at r = None) (lv_rows ?w)) = map lc_id list"
    unfolding r filter_append by simp
  have 3: "now - t \<le> 30000 \<and> lc_id r \<notin> lc_id ` set list \<and> lc_id r \<notin> set (lv_dismissed v)"
    if r': "r \<in> set (lv_rows ?w)" and t: "rw_closed_at r = Some t" for r t
  proof -
    from r' t obtain e where e: "e \<in> set ?a" "r = snd e" unfolding r by auto
    with ok have "lc_id r = fst e" "fst e \<notin> set (lv_dismissed v)" by (auto simp: recent_ok_def keyed_def)
    then show ?thesis using stale [OF e(1)] new [OF e(1)] e(2) t by simp
  qed
  have 4: "closed_row now r \<in> set (lv_rows ?w)"
    if g: "om_get (lv_last_open v) i = Some r" "i \<notin> lc_id ` set list" "i \<notin> set (lv_dismissed v)" for i r
  proof -
    have d: "distinct (om_keys (lv_last_open v))" using inv by (simp add: live_inv_def keyed_def)
    have u: "om_get (seen_in list now) i = None" using g(2) by (simp only: seen_in_None not_False_eq_True)
    have "i \<in> set (om_keys (lv_last_open v))" using g(1) by (metis om_get_None_iff option.distinct(1))
    then have "om_get ?n i = Some (closed_row now r)" using g u unfolding note_closed_get [OF d] by simp
    then have "(i, closed_row now r) \<in> set ?n" by (simp add: om_get_def map_of_SomeD)
    with u have "(i, closed_row now r) \<in> set ?a" by (simp add: recent_after_def drop_stale_def RECENT_MS_def)
    then show ?thesis unfolding r by force
  qed
  show ?thesis using 1 2 3 4 by blast
qed

definition sample_connection :: "string \<Rightarrow> live_connection" where
  "sample_connection i = \<lparr>lc_id = i, lc_network = ''tcp'', lc_protocol = None, lc_host = Some ''example.org'',
     lc_destination = ''192.0.2.1:443'', lc_app = Some ''browser'', lc_app_path = None, lc_rule = [], lc_rule_text = None,
     lc_direct = False, lc_server = None, lc_upload = 10, lc_download = 20, lc_started = 0\<rparr>"

theorem read_lists_connections_witness:
  "map lc_id (filter (\<lambda>r. rw_closed_at r = None) (lv_rows (read_connections [sample_connection ''b''] 2000
      (foldl live_step no_live [Read [sample_connection ''a''] 1000])))) = [''b'']"
  using read_lists_connections [of "[sample_connection ''b'']" "foldl live_step no_live [Read [sample_connection ''a''] 1000]"
      "[Read [sample_connection ''a''] 1000]" 2000]
  by (simp add: sample_connection_def)

text \<open>Sums over the groups.\<close>

lemma group_step_sum:
  fixes f :: "app_group \<Rightarrow> 'b :: cancel_comm_monoid_add"
  assumes "\<And>g. f (add_row g r) = f g + d" "\<And>k. f (new_group k) = 0"
  shows "sum_list (map (f \<circ> snd) (group_step key_of m r)) = sum_list (map (f \<circ> snd) m) + d"
proof -
  let ?g = "or_else (om_get m (key_of r)) (new_group (key_of r))"
  have "(case om_get m (key_of r) of None \<Rightarrow> 0 | Some w \<Rightarrow> f w) = f ?g"
    using assms(2) by (cases "om_get m (key_of r)") simp_all
  with om_set_sum [of f m "key_of r" "add_row ?g r"]
  have "sum_list (map (f \<circ> snd) (group_step key_of m r)) + f ?g = (sum_list (map (f \<circ> snd) m) + d) + f ?g"
    using assms(1) by (simp add: group_step_def ac_simps)
  then show ?thesis by (rule add_right_imp_eq)
qed

lemma group_rows_sum:
  fixes f :: "app_group \<Rightarrow> 'b :: cancel_comm_monoid_add"
  assumes "\<And>g r. f (add_row g r) = f g + d r" "\<And>k. f (new_group k) = 0"
  shows "sum_list (map f (group_rows key_of rows)) = sum_list (map d rows)"
proof -
  have "sum_list (map (f \<circ> snd) (foldl (group_step key_of) m rows)) = sum_list (map (f \<circ> snd) m) + sum_list (map d rows)" for m
  proof (induction rows arbitrary: m)
    case (Cons r rows)
    then show ?case using group_step_sum [of f r "d r" key_of m] assms by (simp add: ac_simps comp_def)
  qed simp
  from this [of "[]"] show ?thesis by (simp add: group_rows_def comp_def)
qed

text \<open>Grouping the rows by any key loses nothing: bytes, rates and open connections of the groups add
  up to those of the rows, and the groups hold the rows between them.\<close>

theorem groups_preserve_totals:
  "sum_list (map ag_down (group_rows key_of rows)) = sum_list (map lc_download rows)
    \<and> sum_list (map ag_up (group_rows key_of rows)) = sum_list (map lc_upload rows)
    \<and> sum_list (map ag_rate (group_rows key_of rows)) = sum_list (map rw_rate rows)
    \<and> sum_list (map ag_open (group_rows key_of rows)) = length (filter (\<lambda>r. or_else (rw_closed_at r) 0 = 0) rows)
    \<and> sum_list (map (mset \<circ> ag_rows) (group_rows key_of rows)) = mset rows"
proof (intro conjI)
  have "sum_list (map ag_open (group_rows key_of rows)) = sum_list (map (\<lambda>r. if or_else (rw_closed_at r) 0 = 0 then 1 else 0) rows)"
    by (rule group_rows_sum) (simp_all add: add_row_def new_group_def)
  also have "\<dots> = length (filter (\<lambda>r. or_else (rw_closed_at r) 0 = 0) rows)" by (induction rows) auto
  finally show "sum_list (map ag_open (group_rows key_of rows)) = length (filter (\<lambda>r. or_else (rw_closed_at r) 0 = 0) rows)" .
  have "sum_list (map (mset \<circ> ag_rows) (group_rows key_of rows)) = sum_list (map (\<lambda>r. {#r#}) rows)"
    by (rule group_rows_sum) (simp_all add: add_row_def new_group_def)
  also have "\<dots> = mset rows" by (induction rows) auto
  finally show "sum_list (map (mset \<circ> ag_rows) (group_rows key_of rows)) = mset rows" .
qed (rule group_rows_sum; simp add: add_row_def new_group_def)+

end
