(* ===== verification/Ansi.thy ===== *)
theory Ansi
  imports Js_Base
begin

text \<open>
  Terminal colour codes in log lines (lib/ansi.ts): the scanner, the colours and the segments.
\<close>

section \<open>Sequences\<close>

definition ESC :: char where
  "ESC = CHR 0x1B"

definition is_param :: "char \<Rightarrow> bool" where
  "is_param c \<longleftrightarrow> is_digit c \<or> c = CHR '';''"

text \<open>\<open>/\x1b\[([0-9;]*)m/\<close> at the start of \<open>s\<close>: its group and what follows.\<close>

fun sequence_at :: "string \<Rightarrow> (string \<times> string) option" where
  "sequence_at (e # b # s) =
     (if e = ESC \<and> b = CHR ''['' then
        (case dropWhile is_param s of
           m # t \<Rightarrow> if m = CHR ''m'' then Some (takeWhile is_param s, t) else None
         | [] \<Rightarrow> None)
      else None)"
| "sequence_at _ = None"

lemma sequence_at_shorter: "sequence_at s = Some (ps, t) \<Longrightarrow> length t < length s"
proof -
  assume a: "sequence_at s = Some (ps, t)"
  then obtain e b r where s: "s = e # b # r" by (cases s rule: sequence_at.cases) auto
  with a have "dropWhile is_param r = CHR ''m'' # t" by (auto split: if_splits list.splits)
  then have "length (CHR ''m'' # t) \<le> length r" by (metis length_dropWhile_le)
  with s show ?thesis by simp
qed

lemma sequence_at_split: "sequence_at s = Some (ps, t) \<Longrightarrow> s = ESC # CHR ''['' # ps @ CHR ''m'' # t"
proof -
  assume a: "sequence_at s = Some (ps, t)"
  then obtain e b r where s: "s = e # b # r" by (cases s rule: sequence_at.cases) auto
  with a have "dropWhile is_param r = CHR ''m'' # t" "ps = takeWhile is_param r" "e = ESC" "b = CHR ''[''"
    by (auto split: if_splits list.splits)
  then show ?thesis using s by (metis takeWhile_dropWhile_id)
qed

function strip_ansi :: "string \<Rightarrow> string" where
  "strip_ansi [] = []"
| "strip_ansi (c # s) =
     (case sequence_at (c # s) of Some (ps, t) \<Rightarrow> strip_ansi t | None \<Rightarrow> c # strip_ansi s)"
  by pat_completeness auto
termination
  by (relation "measure length") (auto dest: sequence_at_shorter)

section \<open>Colours\<close>

definition MUTED :: string where
  "MUTED = ''var(--muted-foreground)''"

text \<open>A hue, or \<open>NaN\<close> where the code computes with a missing parameter.\<close>

definition tint :: "rat option \<Rightarrow> string" where
  "tint hue = ''hsl('' @ (case hue of Some h \<Rightarrow> int_str (js_round h) | None \<Rightarrow> ''NaN'') @ '' 70% var(--log-l))''"

definition BASIC :: "string list" where
  "BASIC = [MUTED, tint (Some 4), tint (Some 140), tint (Some 45), tint (Some 220), tint (Some 300), tint (Some 185), MUTED]"

definition cube_step :: "nat \<Rightarrow> nat" where
  "cube_step v = (if v = 0 then 0 else 55 + v * 40)"

definition xterm256 :: "nat \<Rightarrow> (nat \<times> nat \<times> nat) option" where
  "xterm256 index =
     (if index < 16 then None
      else if index \<ge> 232 then (let level = 8 + (index - 232) * 10 in Some (level, level, level))
      else let cube = index - 16
           in Some (cube_step (cube div 36), cube_step (cube div 6 mod 6), cube_step (cube mod 6)))"

text \<open>
  The hue: \<open>% 6\<close> does nothing, as the quotient is between -1 and 1.
\<close>

definition hue_of :: "nat \<times> nat \<times> nat \<Rightarrow> rat" where
  "hue_of rgb =
     (case rgb of (r, g, b) \<Rightarrow>
        let hi = max r (max g b); lo = min r (min g b); span = rat_of_nat hi - rat_of_nat lo;
            hue = (if hi = r then (rat_of_nat g - rat_of_nat b) / span
                   else if hi = g then (rat_of_nat b - rat_of_nat r) / span + 2
                   else (rat_of_nat r - rat_of_nat g) / span + 4) * 60
        in if hue < 0 then hue + 360 else hue)"

definition from_rgb :: "nat \<times> nat \<times> nat \<Rightarrow> string" where
  "from_rgb rgb =
     (case rgb of (r, g, b) \<Rightarrow>
        if max r (max g b) - min r (min g b) < 24 then MUTED else tint (Some (hue_of rgb)))"

section \<open>Segments\<close>

record ansi_style =
  as_color :: "string option"
  as_bold :: bool

record ansi_segment =
  sg_text :: string
  sg_color :: "string option"
  sg_bold :: "bool option"

text \<open>The colour set by \<open>38;5;index\<close>, and by \<open>38;2;r;g;b\<close>; missing parameters read \<open>undefined\<close>.\<close>

definition palette_color :: "nat list \<Rightarrow> string" where
  "palette_color cs =
     (case cs of
        index # _ \<Rightarrow> (case xterm256 index of Some rgb \<Rightarrow> from_rgb rgb | None \<Rightarrow> BASIC ! (index mod 8))
      | [] \<Rightarrow> tint None)"

definition true_color :: "nat list \<Rightarrow> string" where
  "true_color cs = (case cs of r # g # b # _ \<Rightarrow> from_rgb (r, g, b) | _ \<Rightarrow> tint None)"

text \<open>One code of a sequence: the new style and the codes still to read.\<close>

definition code_step :: "ansi_style \<Rightarrow> nat \<Rightarrow> nat list \<Rightarrow> ansi_style \<times> nat list" where
  "code_step st code cs =
     (if code = 0 then (\<lparr>as_color = None, as_bold = False\<rparr>, cs)
      else if code = 1 then (st\<lparr>as_bold := True\<rparr>, cs)
      else if code = 22 then (st\<lparr>as_bold := False\<rparr>, cs)
      else if code = 39 then (st\<lparr>as_color := None\<rparr>, cs)
      else if 30 \<le> code \<and> code \<le> 37 then (st\<lparr>as_color := Some (BASIC ! (code - 30))\<rparr>, cs)
      else if 90 \<le> code \<and> code \<le> 97 then (st\<lparr>as_color := Some (BASIC ! (code - 90))\<rparr>, cs)
      else if code = 38 \<and> cs \<noteq> [] \<and> hd cs = 5 then (st\<lparr>as_color := Some (palette_color (tl cs))\<rparr>, drop 2 cs)
      else if code = 38 \<and> cs \<noteq> [] \<and> hd cs = 2 then (st\<lparr>as_color := Some (true_color (tl cs))\<rparr>, drop 4 cs)
      else (st, cs))"

lemma code_step_shorter: "code_step st code cs = (st', rest) \<Longrightarrow> length rest \<le> length cs"
  by (auto simp: code_step_def split: if_splits)

function apply_codes :: "ansi_style \<Rightarrow> nat list \<Rightarrow> ansi_style" where
  "apply_codes st [] = st"
| "apply_codes st (code # cs) = (case code_step st code cs of (st', rest) \<Rightarrow> apply_codes st' rest)"
  by pat_completeness auto
termination
  by (relation "measure (\<lambda>(st, cs). length cs)") (auto split: prod.splits simp: less_Suc_eq_le dest: code_step_shorter)

definition codes_of :: "string \<Rightarrow> nat list" where
  "codes_of ps = (if ps = [] then [0] else map digits_val (js_split CHR '';'' ps))"

definition push_text :: "ansi_style \<Rightarrow> string \<Rightarrow> ansi_segment list" where
  "push_text st t =
     (if t = [] then []
      else [\<lparr>sg_text = t, sg_color = as_color st, sg_bold = (if as_bold st then Some True else None)\<rparr>])"

function parse_run :: "ansi_style \<Rightarrow> string \<Rightarrow> string \<Rightarrow> ansi_segment list" where
  "parse_run st pending [] = push_text st pending"
| "parse_run st pending (c # s) =
     (case sequence_at (c # s) of
        Some (ps, t) \<Rightarrow> push_text st pending @ parse_run (apply_codes st (codes_of ps)) [] t
      | None \<Rightarrow> parse_run st (pending @ [c]) s)"
  by pat_completeness auto
termination
  by (relation "measure (\<lambda>(st, pending, s). length s)") (auto dest: sequence_at_shorter)

definition parse_ansi :: "string \<Rightarrow> ansi_segment list" where
  "parse_ansi line = parse_run \<lparr>as_color = None, as_bold = False\<rparr> [] line"

lemma parse_run_texts: "concat (map sg_text (parse_run st pending s)) = pending @ strip_ansi s"
  by (induction st pending s rule: parse_run.induct) (auto simp: push_text_def split: option.splits)

lemma parse_run_nonempty: "g \<in> set (parse_run st pending s) \<Longrightarrow> sg_text g \<noteq> []"
  by (induction st pending s rule: parse_run.induct)
    (auto simp: push_text_def split: option.splits if_splits prod.splits)

text \<open>A line without the escape character is one segment.\<close>

lemma sequence_at_esc: "ESC \<notin> set s \<Longrightarrow> sequence_at s = None"
  by (cases s rule: sequence_at.cases) auto

lemma strip_plain: "ESC \<notin> set s \<Longrightarrow> strip_ansi s = s"
  by (induction s) (simp_all add: sequence_at_esc)

lemma parse_plain: "ESC \<notin> set s \<Longrightarrow> parse_run st pending s = push_text st (pending @ s)"
  by (induction s arbitrary: pending) (simp_all add: sequence_at_esc)

section \<open>Colours stay in range\<close>

definition css_color :: "string \<Rightarrow> bool" where
  "css_color c \<longleftrightarrow> c = MUTED \<or> c = tint None \<or> (\<exists>h. 0 \<le> h \<and> h \<le> 360 \<and> c = tint (Some h))"

lemma hue_range:
  assumes "max r (max g b) - min r (min g b) \<ge> (1 :: nat)"
  shows "0 \<le> hue_of (r, g, b) \<and> hue_of (r, g, b) \<le> 360"
proof -
  define hi where "hi = max r (max g b)"
  define lo where "lo = min r (min g b)"
  have b: "r \<le> hi" "g \<le> hi" "b \<le> hi" "lo \<le> r" "lo \<le> g" "lo \<le> b" "lo < hi"
    using assms by (auto simp: hi_def lo_def)
  define span where "span = rat_of_nat hi - rat_of_nat lo"
  have s: "0 < span" using b by (simp add: span_def)
  have q: "-1 \<le> (rat_of_nat x - rat_of_nat y) / span \<and> (rat_of_nat x - rat_of_nat y) / span \<le> 1"
    if "x \<le> hi" "lo \<le> x" "y \<le> hi" "lo \<le> y" for x y
  proof -
    have "rat_of_nat x \<le> rat_of_nat hi" "rat_of_nat lo \<le> rat_of_nat x" "rat_of_nat y \<le> rat_of_nat hi" "rat_of_nat lo \<le> rat_of_nat y"
      using that by simp_all
    then have "- span \<le> rat_of_nat x - rat_of_nat y" "rat_of_nat x - rat_of_nat y \<le> span"
      unfolding span_def by linarith+
    then show ?thesis using s by (simp add: divide_le_eq le_divide_eq)
  qed
  define x y z where "x = (rat_of_nat g - rat_of_nat b) / span" and "y = (rat_of_nat b - rat_of_nat r) / span"
    and "z = (rat_of_nat r - rat_of_nat g) / span"
  have "-1 \<le> x \<and> x \<le> 1" "-1 \<le> y \<and> y \<le> 1" "-1 \<le> z \<and> z \<le> 1"
    using q [of g b] q [of b r] q [of r g] b by (simp_all add: x_def y_def z_def)
  then show ?thesis
    unfolding hue_of_def prod.case Let_def hi_def [symmetric] lo_def [symmetric] span_def [symmetric]
      x_def [symmetric] y_def [symmetric] z_def [symmetric] by (simp split: if_splits; linarith?)
qed

lemma from_rgb_color: "css_color (from_rgb rgb)"
proof (cases rgb)
  case (fields r g b)
  then show ?thesis
    using hue_range [of r g b] by (auto simp: from_rgb_def css_color_def not_less intro!: exI [of _ "hue_of (r, g, b)"])
qed

lemma tint_color: "0 \<le> h \<Longrightarrow> h \<le> 360 \<Longrightarrow> css_color (tint (Some h))"
  by (auto simp: css_color_def)

lemma muted_color: "css_color MUTED"
  by (simp add: css_color_def)

lemma basic_colors: "\<forall>c \<in> set BASIC. css_color c"
  unfolding BASIC_def by (simp add: tint_color muted_color)

lemma basic_color: "k < 8 \<Longrightarrow> css_color (BASIC ! k)"
proof -
  assume "k < 8"
  then have "k < length BASIC" by (simp add: BASIC_def)
  then have "BASIC ! k \<in> set BASIC" by (rule nth_mem)
  then show ?thesis using basic_colors by blast
qed

definition style_ok :: "ansi_style \<Rightarrow> bool" where
  "style_ok st \<longleftrightarrow> (\<forall>c. as_color st = Some c \<longrightarrow> css_color c)"

lemma tint_None_color: "css_color (tint None)"
  by (simp add: css_color_def)

lemma palette_color_ok: "css_color (palette_color cs)"
  by (auto simp: palette_color_def tint_None_color from_rgb_color basic_color split: list.split option.split)

lemma true_color_ok: "css_color (true_color cs)"
  by (auto simp: true_color_def tint_None_color from_rgb_color split: list.split)

lemma code_step_ok: "style_ok st \<Longrightarrow> code_step st code cs = (st', rest) \<Longrightarrow> style_ok st'"
  by (auto simp: code_step_def style_ok_def basic_color palette_color_ok true_color_ok split: if_splits)

lemma apply_codes_ok: "style_ok st \<Longrightarrow> style_ok (apply_codes st cs)"
  by (induction st cs rule: apply_codes.induct) (auto split: prod.split dest: code_step_ok)

lemma push_text_color: "style_ok st \<Longrightarrow> g \<in> set (push_text st t) \<Longrightarrow> sg_color g = Some c \<Longrightarrow> css_color c"
  by (auto simp: push_text_def style_ok_def split: if_splits)

lemma parse_run_ok: "style_ok st \<Longrightarrow> g \<in> set (parse_run st pending s) \<Longrightarrow> sg_color g = Some c \<Longrightarrow> css_color c"
proof (induction st pending s rule: parse_run.induct)
  case (2 st pending d s)
  show ?case
  proof (cases "sequence_at (d # s)")
    case None
    with 2 show ?thesis by simp
  next
    case (Some pt)
    obtain ps t where pt: "pt = (ps, t)" by (cases pt)
    with 2 Some consider "g \<in> set (push_text st pending)" | "g \<in> set (parse_run (apply_codes st (codes_of ps)) [] t)" by auto
    then show ?thesis
    proof cases
      case 1
      then show ?thesis using push_text_color 2 by blast
    next
      case b: 2
      from Some pt have "sequence_at (d # s) = Some (ps, t)" by simp
      from "2.IH"(2) [OF this refl] b 2(3,5) show ?thesis by (simp add: apply_codes_ok)
    qed
  qed
qed (use push_text_color in auto)

section \<open>Properties\<close>

text \<open>Splitting a log line into coloured segments shows exactly the text that stripping the codes
  leaves, in order, with no empty segment; every colour used is the muted one or a hue from 0 to
  360 degrees (or the invalid one of a cut-off code); and a line without codes is shown as it is.\<close>

theorem ansi_segments_show_text:
  "concat (map sg_text (parse_ansi line)) = strip_ansi line
    \<and> (\<forall>g \<in> set (parse_ansi line). sg_text g \<noteq> [] \<and> (\<forall>c. sg_color g = Some c \<longrightarrow> css_color c))
    \<and> (ESC \<notin> set line \<longrightarrow> strip_ansi line = line)"
  unfolding parse_ansi_def
  using parse_run_texts parse_run_nonempty parse_run_ok [of "\<lparr>as_color = None, as_bold = False\<rparr>"] strip_plain
  by (auto simp: style_ok_def)

theorem ansi_segments_show_text_witness:
  "concat (map sg_text (parse_ansi (ESC # ''[31mERROR'' @ ESC # ''[0m refused''))) = ''ERROR refused''"
  using ansi_segments_show_text [of "ESC # ''[31mERROR'' @ ESC # ''[0m refused''"]
  by (simp add: ESC_def is_param_def is_digit_def)

end
