(* ===== verification/App_Hooks.thy ===== *)
theory App_Hooks
  imports App_Types
begin

text \<open>
  The hooks that hold what the backend pushes: the log buffer (hooks/use-logs.ts), the connection
  state (hooks/use-connection.ts) and the traffic counters (hooks/use-traffic.ts).  Each is its
  state and the events that reach it, in the order they arrive.
\<close>

section \<open>Logs\<close>

text \<open>
  \<open>Number(value)\<close> for a text of decimal digits with an optional sign and fraction; exponents,
  \<open>Infinity\<close> and the other bases read as \<open>NaN\<close> here.
\<close>

definition js_number :: "string \<Rightarrow> jsnum" where
  "js_number s =
     (let t = js_trim s;
          neg = (t \<noteq> [] \<and> hd t = CHR ''-'');
          u = (if t \<noteq> [] \<and> hd t \<in> {CHR ''-'', CHR ''+''} then tl t else t);
          whole = takeWhile is_digit u;
          rest = dropWhile is_digit u;
          frac = (case rest of d # f \<Rightarrow> if d = CHR ''.'' then f else [] | [] \<Rightarrow> [])
      in if t = [] then Fin 0
         else if (rest \<noteq> [] \<and> (hd rest \<noteq> CHR ''.'' \<or> list_ex (\<lambda>c. \<not> is_digit c) frac)) \<or> whole @ frac = [] then NaN
         else Fin ((if neg then -1 else 1) * (of_nat (digits_val (whole @ frac)) / 10 ^ length frac)))"

definition LOG_LIMITS :: "string list" where
  "LOG_LIMITS = [''100'', ''500'', ''1000'', ''20000'']"

definition DEFAULT_LIMIT :: string where
  "DEFAULT_LIMIT = ''1000''"

record log_buffer =
  lb_logs :: "string list"
  lb_enabled :: bool
  lb_limit :: string
  lb_limit_ref :: rat

definition empty_logs :: "bool \<Rightarrow> log_buffer" where
  "empty_logs enabled =
     \<lparr>lb_logs = [], lb_enabled = enabled, lb_limit = DEFAULT_LIMIT, lb_limit_ref = 1000\<rparr>"

text \<open>\<open>xs.slice(-q)\<close>: the last \<open>floor q\<close>, and everything when that is zero.\<close>

definition slice_last :: "rat \<Rightarrow> 'a list \<Rightarrow> 'a list" where
  "slice_last q xs = (let k = nat \<lfloor>q\<rfloor> in if k = 0 then xs else drop (length xs - k) xs)"

definition trim_logs :: "rat \<Rightarrow> string list \<Rightarrow> string list" where
  "trim_logs limit logs = (if rat_of_nat (length logs) > limit then slice_last limit logs else logs)"

definition append_logs :: "string list \<Rightarrow> log_buffer \<Rightarrow> log_buffer" where
  "append_logs ls b =
     (if ls = [] \<or> \<not> lb_enabled b then b
      else b\<lparr>lb_logs := trim_logs (lb_limit_ref b) (lb_logs b @ ls)\<rparr>)"

definition change_limit :: "string \<Rightarrow> log_buffer \<Rightarrow> log_buffer" where
  "change_limit v b =
     (let resolved = (case js_number v of Fin q \<Rightarrow> if q > 0 then q else 1000 | _ \<Rightarrow> 1000)
      in b\<lparr>lb_limit_ref := resolved, lb_limit := v, lb_logs := trim_logs resolved (lb_logs b)\<rparr>)"

definition set_enabled :: "bool \<Rightarrow> log_buffer \<Rightarrow> log_buffer" where
  "set_enabled enabled b = b\<lparr>lb_enabled := enabled, lb_logs := (if enabled then lb_logs b else [])\<rparr>"

definition clear_logs :: "log_buffer \<Rightarrow> log_buffer" where
  "clear_logs b = b\<lparr>lb_logs := []\<rparr>"

definition last_n :: "nat \<Rightarrow> 'a list \<Rightarrow> 'a list" where
  "last_n k xs = drop (length xs - k) xs"

lemma last_n_append: "last_n k (last_n k xs @ ys) = last_n k (xs @ ys)"
  by (cases "length xs \<le> k") (auto simp: last_n_def add.commute)

lemma last_n_last_n: "j \<le> k \<Longrightarrow> last_n j (last_n k xs) = last_n j xs"
  by (cases "length xs \<le> k") (auto simp: last_n_def)

lemma trim_logs_last: "1 \<le> k \<Longrightarrow> trim_logs (rat_of_nat k) ls = last_n k ls"
  by (auto simp: trim_logs_def slice_last_def last_n_def)

lemma append_logs_run:
  assumes "lb_enabled b" "lb_limit_ref b = rat_of_nat k" "1 \<le> k" "length (lb_logs b) \<le> k"
  shows "lb_logs (foldl (\<lambda>b ls. append_logs ls b) b batches) = last_n k (lb_logs b @ concat batches)
    \<and> lb_enabled (foldl (\<lambda>b ls. append_logs ls b) b batches) \<and> lb_limit_ref (foldl (\<lambda>b ls. append_logs ls b) b batches) = rat_of_nat k"
  using assms
proof (induction batches arbitrary: b)
  case (Cons ls batches)
  have a: "lb_logs (append_logs ls b) = last_n k (lb_logs b @ ls)"
    using Cons.prems by (auto simp: append_logs_def trim_logs_last last_n_def)
  have "lb_enabled (append_logs ls b)" "lb_limit_ref (append_logs ls b) = rat_of_nat k"
    using Cons.prems by (auto simp: append_logs_def)
  moreover have "length (lb_logs (append_logs ls b)) \<le> k" unfolding a by (simp add: last_n_def)
  ultimately show ?case using Cons.IH [of "append_logs ls b"] Cons.prems(3) a
    by (simp add: last_n_append)
qed (simp add: last_n_def)

section \<open>The connection\<close>

definition connection_of :: "connection_status \<Rightarrow> connection_state" where
  "connection_of st = \<lparr>cs_status = st, cs_profile_id = None, cs_profile = None, cs_error = None, cs_reason = None,
     cs_since = None, cs_reconnecting = None, cs_attempt = None, cs_blocked = None\<rparr>"

definition IDLE :: connection_state where
  "IDLE = connection_of Idle"

definition failed_with :: "string \<Rightarrow> connection_state" where
  "failed_with message = (connection_of ErrorStatus)\<lparr>cs_error := Some message\<rparr>"

text \<open>
  What reaches the hook: the backend's state event, its answer to the question on mount, the
  click on connect and the answer to it, the answer to disconnect (\<open>Inl\<close> the error's message),
  and the dismissed error.
\<close>

datatype connection_event =
    StateEvent connection_state
  | MountAnswer "string + connection_state"
  | ConnectClicked
  | ConnectAnswer "string + connection_state"
  | DisconnectAnswer "string + connection_state"
  | DismissError

fun connection_step :: "connection_state \<Rightarrow> connection_event \<Rightarrow> connection_state" where
  "connection_step s (StateEvent s') = s'"
| "connection_step s (MountAnswer (Inr s')) = s'"
| "connection_step s (MountAnswer (Inl e)) = IDLE"
| "connection_step s ConnectClicked = connection_of Connecting"
| "connection_step s (ConnectAnswer (Inr s')) = s'"
| "connection_step s (ConnectAnswer (Inl message)) =
     (if cs_status s = ErrorStatus \<and> cs_error s = Some message then s else failed_with message)"
| "connection_step s (DisconnectAnswer (Inr s')) = s'"
| "connection_step s (DisconnectAnswer (Inl message)) = failed_with message"
| "connection_step s DismissError = (if cs_status s = ErrorStatus then IDLE else s)"

fun reported :: "connection_event \<Rightarrow> connection_state option" where
  "reported (StateEvent s) = Some s"
| "reported (MountAnswer (Inr s)) = Some s"
| "reported (ConnectAnswer (Inr s)) = Some s"
| "reported (DisconnectAnswer (Inr s)) = Some s"
| "reported _ = None"

definition shown_state :: "connection_event list \<Rightarrow> connection_state" where
  "shown_state es = foldl connection_step IDLE es"

definition is_connected :: "connection_state \<Rightarrow> bool" where
  "is_connected s \<longleftrightarrow> cs_status s = Connected"

definition is_busy :: "connection_state \<Rightarrow> bool" where
  "is_busy s \<longleftrightarrow> cs_status s = Connecting"

lemma step_not_reported:
  "reported e = None \<Longrightarrow> cs_status (connection_step s e) = Connected \<Longrightarrow> connection_step s e = s"
  by (induction s e rule: connection_step.induct)
    (auto simp: IDLE_def connection_of_def failed_with_def split: if_splits)

lemma step_reported: "reported e = Some s' \<Longrightarrow> connection_step s e = s'"
  by (induction s e rule: connection_step.induct) auto

section \<open>Traffic\<close>

definition EMPTY_TRAFFIC :: traffic_sample where
  "EMPTY_TRAFFIC = \<lparr>ts_up = 0, ts_down = 0, ts_up_rate = 0, ts_down_rate = 0, ts_total_up = 0, ts_total_down = 0\<rparr>"

datatype traffic_event =
    TrafficPushed traffic_sample
  | ConnectedIs bool
  | TrafficAnswer "traffic_sample option"

fun traffic_step :: "traffic_sample \<Rightarrow> traffic_event \<Rightarrow> traffic_sample" where
  "traffic_step v (TrafficPushed s) = s"
| "traffic_step v (ConnectedIs on) = (if on then v else EMPTY_TRAFFIC)"
| "traffic_step v (TrafficAnswer (Some s)) = s"
| "traffic_step v (TrafficAnswer None) = v"

section \<open>Properties\<close>

text \<open>With logging on and a limit of at least one line, the buffer after any number of batches holds
  exactly the newest lines, in order, up to the limit; lowering the limit keeps the newest ones.\<close>

theorem logs_keep_newest:
  assumes "lb_enabled b" "lb_logs b = []" "lb_limit_ref b = rat_of_nat k" "1 \<le> k" "1 \<le> j" "j \<le> k"
    and "js_number v = Fin (rat_of_nat j)"
  shows "lb_logs (foldl (\<lambda>b ls. append_logs ls b) b batches) = last_n k (concat batches)
    \<and> lb_logs (change_limit v (foldl (\<lambda>b ls. append_logs ls b) b batches)) = last_n j (concat batches)"
proof -
  from append_logs_run [OF assms(1,3,4)] assms(2)
  have a: "lb_logs (foldl (\<lambda>b ls. append_logs ls b) b batches) = last_n k (concat batches)" by simp
  have "0 < rat_of_nat j" using assms(5) by simp
  with assms(5,7) have "lb_logs (change_limit v (foldl (\<lambda>b ls. append_logs ls b) b batches)) = last_n j (last_n k (concat batches))"
    by (simp add: change_limit_def a trim_logs_last)
  with a assms(6) show ?thesis by (simp add: last_n_last_n)
qed

theorem logs_keep_newest_witness:
  "lb_logs (foldl (\<lambda>b ls. append_logs ls b) (empty_logs True) [[''a'', ''b''], [''c'']]) = [''a'', ''b'', ''c'']"
proof -
  have "js_number ''100'' = Fin (rat_of_nat 100)" by code_simp
  from logs_keep_newest [of "empty_logs True" 1000 100, OF _ _ _ _ _ _ this, of "[[''a'', ''b''], [''c'']]"]
  show ?thesis by (simp add: empty_logs_def last_n_def)
qed

text \<open>The window never claims a connection on its own: whenever it shows one, that very state was
  reported by the backend, and after it nothing but dismissing an error that was not there, or an
  answer repeating the failure, has happened.\<close>

theorem connected_was_reported:
  assumes "cs_status (shown_state es) = Connected"
  shows "\<exists>pre e post. es = pre @ e # post \<and> reported e = Some (shown_state es)
    \<and> (\<forall>f \<in> set post. reported f = None \<and> connection_step (shown_state es) f = shown_state es)"
  using assms
proof (induction es rule: rev_induct)
  case Nil
  then show ?case by (simp add: shown_state_def IDLE_def connection_of_def)
next
  case (snoc f es)
  have s: "shown_state (es @ [f]) = connection_step (shown_state es) f" by (simp add: shown_state_def)
  show ?case
  proof (cases "reported f")
    case None
    with snoc.prems s have same: "shown_state (es @ [f]) = shown_state es" using step_not_reported by metis
    with snoc obtain pre e post where "es = pre @ e # post" "reported e = Some (shown_state es)"
      "\<forall>g \<in> set post. reported g = None \<and> connection_step (shown_state es) g = shown_state es" by auto
    with None same s show ?thesis
      by (intro exI [of _ pre] exI [of _ e] exI [of _ "post @ [f]"]) auto
  next
    case (Some s')
    then have "connection_step (shown_state es) f = s'" by (rule step_reported)
    with Some s show ?thesis by (intro exI [of _ es] exI [of _ f] exI [of _ "[]"]) simp
  qed
qed

theorem connected_was_reported_witness:
  "\<exists>pre e post. [ConnectClicked, ConnectAnswer (Inr (connection_of Connected)), DismissError] = pre @ e # post
     \<and> reported e = Some (connection_of Connected)"
proof -
  let ?es = "[ConnectClicked, ConnectAnswer (Inr (connection_of Connected)), DismissError]"
  have s: "shown_state ?es = connection_of Connected" by (simp add: shown_state_def connection_of_def)
  then have "cs_status (shown_state ?es) = Connected" by (simp add: connection_of_def)
  from connected_was_reported [OF this] s show ?thesis by metis
qed

text \<open>A failed attempt keeps the backend's reason: when the state event of the failure came before the
  rejected call, the rejection does not replace it; and the error stays until it is dismissed,
  which leaves the resting state.\<close>

theorem failure_keeps_reason:
  assumes "cs_status s = ErrorStatus" "cs_error s = Some message"
  shows "shown_state (es @ [ConnectClicked, StateEvent s, ConnectAnswer (Inl message)]) = s
    \<and> cs_status (shown_state (es @ [ConnectClicked, ConnectAnswer (Inl message)])) = ErrorStatus
    \<and> shown_state (es @ [ConnectClicked, StateEvent s, ConnectAnswer (Inl message), DismissError]) = IDLE"
  using assms by (simp add: shown_state_def connection_of_def failed_with_def)

theorem failure_keeps_reason_witness:
  "cs_reason (shown_state [ConnectClicked, StateEvent ((failed_with ''no adapter'')\<lparr>cs_reason := Some ''adapter''\<rparr>),
     ConnectAnswer (Inl ''no adapter'')]) = Some ''adapter''"
  using failure_keeps_reason [of "(failed_with ''no adapter'')\<lparr>cs_reason := Some ''adapter''\<rparr>" "''no adapter''" "[]"]
  by (simp add: failed_with_def connection_of_def)

end
