(* ===== verification/Session_State.thy ===== *)
theory Session_State
  imports App_Types Js_Order
begin

text \<open>
  State kept for the session outside the screens: what each screen remembers (lib/remember.ts),
  Android's Back stack (lib/back.ts), the icon and image caches (lib/app-icons.ts,
  lib/branding.ts), the shared "show system" switch (lib/system-apps.ts) and the typed code
  (hooks/use-proliant.ts).
\<close>

section \<open>Remembered values\<close>

text \<open>\<open>useRemembered\<close>: the value a screen opens with, and setting it.\<close>

definition remembered :: "(string, 'v) omap \<Rightarrow> string \<Rightarrow> 'v \<Rightarrow> 'v" where
  "remembered memory key initial = or_else (om_get memory key) initial"

definition remember :: "string \<Rightarrow> ('v \<Rightarrow> 'v) \<Rightarrow> (string, 'v) omap \<times> 'v \<Rightarrow> (string, 'v) omap \<times> 'v" where
  "remember key f mv = (case mv of (memory, current) \<Rightarrow> (om_set memory key (f current), f current))"

section \<open>Back\<close>

text \<open>
  The open things (oldest first), the pops the module caused itself and the history entries.  An
  entry is named by a number.
\<close>

record back_state =
  bk_stack :: "nat list"
  bk_own_pops :: nat
  bk_entries :: nat

datatype back_event = Opened nat | ClosedOtherwise nat | Popped

definition back_open :: "nat \<Rightarrow> back_state \<Rightarrow> back_state" where
  "back_open e b = b\<lparr>bk_stack := bk_stack b @ [e], bk_entries := bk_entries b + 1\<rparr>"

definition back_close :: "nat \<Rightarrow> back_state \<Rightarrow> back_state" where
  "back_close e b =
     (if e \<in> set (bk_stack b)
      then b\<lparr>bk_stack := remove1 e (bk_stack b), bk_own_pops := bk_own_pops b + 1\<rparr> else b)"

text \<open>\<open>popstate\<close>: the new state and the thing closed, if any.\<close>

definition back_pop :: "back_state \<Rightarrow> back_state \<times> nat option" where
  "back_pop b =
     (let c = b\<lparr>bk_entries := bk_entries b - 1\<rparr> in
      if bk_own_pops b > 0 then (c\<lparr>bk_own_pops := bk_own_pops b - 1\<rparr>, None)
      else if bk_stack b = [] then (c, None)
      else (c\<lparr>bk_stack := butlast (bk_stack b)\<rparr>, Some (last (bk_stack b))))"

fun back_step :: "back_state \<Rightarrow> back_event \<Rightarrow> back_state" where
  "back_step b (Opened e) = back_open e b"
| "back_step b (ClosedOtherwise e) = back_close e b"
| "back_step b Popped = fst (back_pop b)"

text \<open>
  The browser pops only entries the module pushed (with none left, Back leaves the app); a thing
  is opened under a fresh name.
\<close>

fun back_event_ok :: "back_state \<Rightarrow> back_event \<Rightarrow> bool" where
  "back_event_ok b (Opened e) = (e \<notin> set (bk_stack b))"
| "back_event_ok b (ClosedOtherwise e) = True"
| "back_event_ok b Popped = (bk_entries b > 0)"

inductive back_reachable :: "back_state \<Rightarrow> bool" where
  start: "back_reachable \<lparr>bk_stack = [], bk_own_pops = 0, bk_entries = 0\<rparr>"
| step: "back_reachable b \<Longrightarrow> back_event_ok b e \<Longrightarrow> back_reachable (back_step b e)"

inductive_cases back_reachableE: "back_reachable b"

lemma back_reachable_counts:
  "back_reachable b \<Longrightarrow> distinct (bk_stack b) \<and> bk_entries b = length (bk_stack b) + bk_own_pops b"
proof (induction rule: back_reachable.induct)
  case (step b e)
  show ?case
  proof (cases e)
    case (ClosedOtherwise x)
    have "length (remove1 x (bk_stack b)) + 1 = length (bk_stack b)" if "x \<in> set (bk_stack b)"
      using length_pos_if_in_set [OF that] by (simp add: length_remove1 that)
    then show ?thesis using step ClosedOtherwise by (auto simp: back_close_def)
  next
    case Popped
    then show ?thesis using step by (auto simp: back_pop_def Let_def distinct_butlast)
  qed (use step in \<open>simp add: back_open_def\<close>)
qed simp

section \<open>Images asked for once\<close>

text \<open>
  \<open>useFileIcons\<close>: the paths already asked for and the icons known; a request for the missing
  ones, and its answer (\<open>None\<close> when it failed).
\<close>

record icon_cache =
  ic_cache :: "(string, string) omap"
  ic_asked :: "string list"

definition missing_paths :: "string option list \<Rightarrow> icon_cache \<Rightarrow> string list" where
  "missing_paths paths c =
     js_unique (filter (\<lambda>p. p \<noteq> [] \<and> p \<notin> set (ic_asked c)) (map the (filter (\<lambda>p. p \<noteq> None) paths)))"

definition request_icons :: "string option list \<Rightarrow> icon_cache \<Rightarrow> icon_cache \<times> string list" where
  "request_icons paths c =
     (let missing = missing_paths paths c in (c\<lparr>ic_asked := ic_asked c @ missing\<rparr>, missing))"

definition icons_answered :: "string list \<Rightarrow> (string \<rightharpoonup> string) option \<Rightarrow> icon_cache \<Rightarrow> icon_cache" where
  "icons_answered missing answer c =
     c\<lparr>ic_cache := foldl (\<lambda>m p. om_set m p (case answer of Some icons \<Rightarrow> or_else (icons p) [] | None \<Rightarrow> [])) (ic_cache c) missing\<rparr>"

text \<open>Every list of paths ever requested, over the lists the screens show in turn.\<close>

fun icon_requests :: "icon_cache \<Rightarrow> string option list list \<Rightarrow> string list" where
  "icon_requests c [] = []"
| "icon_requests c (ps # pss) =
     (case request_icons ps c of (c', missing) \<Rightarrow> missing @ icon_requests c' pss)"

lemma icon_requests_fresh:
  "set (icon_requests c pss) \<inter> set (ic_asked c) = {} \<and> distinct (icon_requests c pss)"
proof (induction pss arbitrary: c)
  case (Cons ps pss)
  have m: "distinct (missing_paths ps c)" "set (missing_paths ps c) \<inter> set (ic_asked c) = {}"
    by (auto simp: missing_paths_def)
  from Cons [of "c\<lparr>ic_asked := ic_asked c @ missing_paths ps c\<rparr>"] m show ?case
    by (auto simp: request_icons_def Let_def)
qed simp

lemma icon_requests_all:
  "ps \<in> set pss \<Longrightarrow> Some p \<in> set ps \<Longrightarrow> p \<noteq> [] \<Longrightarrow> p \<in> set (icon_requests c pss) \<union> set (ic_asked c)"
proof (induction pss arbitrary: c)
  case (Cons qs pss)
  let ?c = "c\<lparr>ic_asked := ic_asked c @ missing_paths qs c\<rparr>"
  show ?case
  proof (cases "ps = qs")
    case True
    then have "p \<in> set (missing_paths qs c) \<union> set (ic_asked c)"
      using Cons.prems by (force simp: missing_paths_def)
    then show ?thesis by (auto simp: request_icons_def Let_def)
  next
    case False
    with Cons.prems Cons.IH [of ?c] show ?thesis by (auto simp: request_icons_def Let_def)
  qed
qed simp

text \<open>Where programs live, as the connection list reports them (\<open>rememberProgramPaths\<close>).\<close>

definition remember_path :: "(string, string) omap \<times> bool \<Rightarrow> live_connection \<Rightarrow> (string, string) omap \<times> bool" where
  "remember_path pc row =
     (case (pc, lc_app row, lc_app_path row) of
        ((paths, changed), Some app, Some path) \<Rightarrow>
          if app \<noteq> [] \<and> path \<noteq> [] \<and> om_get paths app \<noteq> Some path then (om_set paths app path, True) else pc
      | _ \<Rightarrow> pc)"

definition remember_program_paths :: "live_connection list \<Rightarrow> (string, string) omap \<Rightarrow> (string, string) omap \<times> bool" where
  "remember_program_paths rows paths = foldl remember_path (paths, False) rows"

text \<open>\<open>useBrandingImage\<close>: one request per address; a failed one is kept as no image.\<close>

record branding_cache =
  bc_cache :: "(string, string) omap"
  bc_asked :: "string list"

definition want_image :: "string option \<Rightarrow> branding_cache \<Rightarrow> branding_cache \<times> bool" where
  "want_image url c =
     (case url of
        Some u \<Rightarrow> if u = [] \<or> om_get (bc_cache c) u \<noteq> None \<or> u \<in> set (bc_asked c) then (c, False)
                   else (c\<lparr>bc_asked := u # bc_asked c\<rparr>, True)
      | None \<Rightarrow> (c, False))"

definition image_answered :: "string \<Rightarrow> (string \<rightharpoonup> string) option \<Rightarrow> branding_cache \<Rightarrow> branding_cache" where
  "image_answered u answer c =
     c\<lparr>bc_cache := om_set (bc_cache c) u (case answer of Some images \<Rightarrow> or_else (images u) [] | None \<Rightarrow> [])\<rparr>"

definition branding_image :: "string option \<Rightarrow> branding_cache \<Rightarrow> string" where
  "branding_image url c = (case url of Some u \<Rightarrow> if u = [] then [] else or_else (om_get (bc_cache c) u) [] | None \<Rightarrow> [])"

section \<open>Show system\<close>

text \<open>The stored switch (\<open>None\<close>: never stored) and the screens listening to it.\<close>

record show_system =
  sw_stored :: "string option"
  sw_listeners :: "bool list"

definition mount_switch :: "show_system \<Rightarrow> show_system" where
  "mount_switch s = s\<lparr>sw_listeners := sw_listeners s @ [sw_stored s = Some ''1'']\<rparr>"

definition set_switch :: "bool \<Rightarrow> show_system \<Rightarrow> show_system" where
  "set_switch v s = \<lparr>sw_stored = Some (if v then ''1'' else ''0''), sw_listeners = map (\<lambda>_. v) (sw_listeners s)\<rparr>"

section \<open>The typed code\<close>

definition CODE :: "string list" where
  "CODE = [''p'', ''r'', ''o'', ''l'', ''i'', ''a'', ''n'', ''t'', ''ArrowUp'', ''ArrowDown'']"

text \<open>One key without a modifier: the new position, and whether the code is complete.\<close>

definition code_key :: "nat \<Rightarrow> string \<Rightarrow> nat \<times> bool" where
  "code_key pos event_key =
     (let key = (if length event_key = 1 then js_lower event_key else event_key);
          next_pos = (if pos < length CODE \<and> key = CODE ! pos then pos + 1 else if key = CODE ! 0 then 1 else 0)
      in if next_pos < length CODE then (next_pos, False) else (0, True))"

fun code_keys :: "nat \<Rightarrow> string list \<Rightarrow> nat \<times> nat" where
  "code_keys pos [] = (pos, 0)"
| "code_keys pos (k # ks) =
     (case code_key pos k of (p, hit) \<Rightarrow> (case code_keys p ks of (q, n) \<Rightarrow> (q, n + (if hit then 1 else 0))))"

section \<open>Properties\<close>

text \<open>The history never drifts from what is open: its entries are always the open things plus the
  pops still to arrive, so once those have arrived, Back closes exactly the newest open thing, and
  leaves the app exactly when nothing is open.\<close>

theorem back_closes_newest:
  assumes "back_reachable b" "bk_own_pops b = 0"
  shows "bk_entries b = length (bk_stack b)
    \<and> (bk_stack b \<noteq> [] \<longrightarrow> snd (back_pop b) = Some (last (bk_stack b)) \<and> bk_stack (fst (back_pop b)) = butlast (bk_stack b))"
  using back_reachable_counts [OF assms(1)] assms(2) by (simp add: back_pop_def Let_def)

theorem back_closes_newest_witness:
  "snd (back_pop (back_step (back_step (back_step (back_step \<lparr>bk_stack = [], bk_own_pops = 0, bk_entries = 0\<rparr>
     (Opened 1)) (Opened 2)) (ClosedOtherwise 1)) Popped)) = Some 2"
proof -
  let ?b0 = "\<lparr>bk_stack = [], bk_own_pops = 0, bk_entries = 0\<rparr>"
  have "back_reachable (back_step ?b0 (Opened 1))" by (intro back_reachable.intros) simp
  then have "back_reachable (back_step (back_step ?b0 (Opened 1)) (Opened 2))"
    by (rule back_reachable.step) (simp add: back_open_def)
  then have "back_reachable (back_step (back_step (back_step ?b0 (Opened 1)) (Opened 2)) (ClosedOtherwise 1))"
    by (rule back_reachable.step) simp
  then have "back_reachable (back_step (back_step (back_step (back_step ?b0 (Opened 1)) (Opened 2)) (ClosedOtherwise 1)) Popped)"
    by (rule back_reachable.step) (simp add: back_open_def back_close_def)
  from back_closes_newest [OF this] show ?thesis by (simp add: back_open_def back_close_def back_pop_def)
qed

text \<open>However the lists on screen change, every program path is asked for exactly once in a session.\<close>

theorem icons_asked_once:
  "distinct (icon_requests \<lparr>ic_cache = [], ic_asked = []\<rparr> pss)
    \<and> (\<forall>ps \<in> set pss. \<forall>p. Some p \<in> set ps \<and> p \<noteq> [] \<longrightarrow> p \<in> set (icon_requests \<lparr>ic_cache = [], ic_asked = []\<rparr> pss))"
  using icon_requests_fresh icon_requests_all [of _ pss _ "\<lparr>ic_cache = [], ic_asked = []\<rparr>"] by auto

theorem icons_asked_once_witness:
  "''/bin/b'' \<in> set (icon_requests \<lparr>ic_cache = [], ic_asked = []\<rparr> [[Some ''/bin/a'', None], [Some ''/bin/a'', Some ''/bin/b'']])"
  using icons_asked_once [of "[[Some ''/bin/a'', None], [Some ''/bin/a'', Some ''/bin/b'']]"] by simp

end
