(* ===== verification/Backend.thy ===== *)
theory Backend
  imports App_Types
begin

text \<open>
  The bridge to the Go service (lib/backend.ts): the table of commands, the calls it makes of
  them, the events and the error texts.  Values are \<open>json\<close>; a missing argument is \<open>None\<close>.
\<close>

definition SERVICE :: string where
  "SERVICE = ''github.com/Rigby-Foundation/NuggetVPN/internal/app.App''"

record command =
  cmd_method :: string
  cmd_args :: "string list"

definition cmd :: "string \<Rightarrow> string \<Rightarrow> string list \<Rightarrow> string \<times> command" where
  "cmd name go_method names = (name, \<lparr>cmd_method = go_method, cmd_args = names\<rparr>)"

definition COMMANDS :: "(string \<times> command) list" where
  "COMMANDS =
     [cmd ''get_profiles'' ''GetProfiles'' [],
      cmd ''add_profile'' ''AddProfile'' [''name'', ''link''],
      cmd ''delete_profile'' ''DeleteProfile'' [''id''],
      cmd ''delete_profiles_by_source'' ''DeleteProfilesBySource'' [''sourceDomain''],
      cmd ''delete_profiles_by_ids'' ''DeleteProfilesByIds'' [''ids''],
      cmd ''set_favorites'' ''SetFavorites'' [''ids'', ''favorite''],
      cmd ''share_links'' ''ShareLinks'' [''ids''],
      cmd ''update_profile'' ''UpdateProfile'' [''id'', ''name'', ''configLink''],
      cmd ''update_subscription_url'' ''UpdateSubscriptionURL'' [''domain'', ''newURL''],
      cmd ''export_configs'' ''ExportConfigs'' [''ids'', ''format'', ''full''],
      cmd ''get_settings'' ''GetSettings'' [],
      cmd ''save_settings'' ''SaveSettings'' [''settings''],
      cmd ''regenerate_hwid'' ''RegenerateHWID'' [],
      cmd ''import_geo_file'' ''ImportGeoFile'' [],
      cmd ''download_geo_file'' ''DownloadGeoFile'' [''url''],
      cmd ''remove_geo_file'' ''RemoveGeoFile'' [''kind''],
      cmd ''get_geo_codes'' ''GetGeoCodes'' [''kind''],
      cmd ''export_routing'' ''ExportRouting'' [],
      cmd ''import_routing'' ''ImportRouting'' [],
      cmd ''switch_routing_setup'' ''SwitchRoutingSetup'' [''id''],
      cmd ''get_rule_hits'' ''GetRuleHits'' [],
      cmd ''get_rule_lists'' ''GetRuleLists'' [],
      cmd ''update_rule_lists'' ''UpdateRuleLists'' [],
      cmd ''get_connections'' ''GetConnections'' [],
      cmd ''close_connection'' ''CloseConnection'' [''id''],
      cmd ''close_all_connections'' ''CloseAllConnections'' [],
      cmd ''set_ui_language'' ''SetUILanguage'' [''language''],
      cmd ''take_pending_link'' ''TakePendingLink'' [],
      cmd ''get_version'' ''GetVersion'' [],
      cmd ''list_cores'' ''ListCores'' [],
      cmd ''set_core'' ''SetCore'' [''name''],
      cmd ''unsupported_profiles'' ''UnsupportedProfiles'' [],
      cmd ''open_url'' ''OpenURL'' [''url''],
      cmd ''export_backup'' ''ExportBackup'' [''ui''],
      cmd ''import_backup'' ''ImportBackup'' [],
      cmd ''list_user_files'' ''ListUserFiles'' [''kind''],
      cmd ''import_user_file'' ''ImportUserFile'' [''kind''],
      cmd ''remove_user_file'' ''RemoveUserFile'' [''kind'', ''id''],
      cmd ''get_app_usage'' ''GetAppUsage'' [''days''],
      cmd ''clear_statistics'' ''ClearStatistics'' [],
      cmd ''get_server_health'' ''GetServerHealth'' [],
      cmd ''run_speed_test'' ''RunSpeedTest'' [],
      cmd ''stop_speed_test'' ''StopSpeedTest'' [],
      cmd ''get_speed_tests'' ''GetSpeedTests'' [],
      cmd ''get_wifi_state'' ''GetWifiState'' [],
      cmd ''get_system_palette'' ''GetSystemPalette'' [],
      cmd ''set_system_bars'' ''SetSystemBars'' [''color'', ''light''],
      cmd ''list_installed_apps'' ''ListInstalledApps'' [],
      cmd ''get_app_icon'' ''GetAppIcon'' [''packageName''],
      cmd ''list_plugins'' ''ListPlugins'' [],
      cmd ''pick_plugin'' ''PickPlugin'' [],
      cmd ''install_plugin'' ''InstallPlugin'' [''token''],
      cmd ''remove_plugin'' ''RemovePlugin'' [''id''],
      cmd ''set_plugin_enabled'' ''SetPluginEnabled'' [''id'', ''enabled''],
      cmd ''plugin_storage_get'' ''PluginStorageGet'' [''id'', ''key''],
      cmd ''plugin_storage_set'' ''PluginStorageSet'' [''id'', ''key'', ''value''],
      cmd ''apply_plugin_routing'' ''ApplyPluginRouting'' [''id'', ''file''],
      cmd ''add_plugin_rule'' ''AddPluginRule'' [''id'', ''rule''],
      cmd ''plugin_notify'' ''PluginNotify'' [''id'', ''title'', ''body''],
      cmd ''set_global_shortcut'' ''SetGlobalShortcut'' [''spec''],
      cmd ''global_shortcut_supported'' ''GlobalShortcutSupported'' [],
      cmd ''check_for_update'' ''CheckForUpdate'' [],
      cmd ''install_update'' ''InstallUpdate'' [],
      cmd ''read_clipboard_link'' ''ReadClipboardLink'' [],
      cmd ''get_file_icons'' ''GetFileIcons'' [''paths''],
      cmd ''get_branding_images'' ''GetBrandingImages'' [''urls''],
      cmd ''connect'' ''Connect'' [''sourceDomain'', ''mode'', ''profileId''],
      cmd ''disconnect'' ''Disconnect'' [],
      cmd ''get_connection_state'' ''GetConnectionState'' [],
      cmd ''get_traffic'' ''GetTraffic'' [],
      cmd ''check_ip'' ''CheckIP'' [],
      cmd ''ping_profiles'' ''PingProfiles'' [''sourceDomain''],
      cmd ''probe_profiles_connectivity'' ''ProbeProfilesConnectivity'' [''sourceDomain'', ''profileIds'', ''timeoutMs''],
      cmd ''import_subscription'' ''ImportSubscription'' [''url''],
      cmd ''refresh_subscriptions_on_startup'' ''RefreshSubscriptionsOnStartup'' [],
      cmd ''refresh_subscription_by_domain'' ''RefreshSubscriptionByDomain'' [''sourceDomain''],
      cmd ''login_user'' ''LoginUser'' [''server'', ''username'', ''password''],
      cmd ''register_user'' ''RegisterUser'' [''server'', ''username'', ''password''],
      cmd ''push_profiles_to_server'' ''PushProfilesToServer'' [''settings''],
      cmd ''pull_profiles_from_server'' ''PullProfilesFromServer'' [''settings''],
      cmd ''get_current_platform'' ''GetCurrentPlatform'' [],
      cmd ''open_logs_folder'' ''OpenLogsFolder'' [],
      cmd ''select_applications'' ''SelectApplications'' [],
      cmd ''show_save_dialog'' ''ShowSaveDialog'' [''defaultFilename''],
      cmd ''write_text_file'' ''WriteTextFile'' [''path'', ''contents''],
      cmd ''request_close'' ''RequestClose'' [],
      cmd ''quit_app'' ''QuitApp'' [],
      cmd ''minimise_window'' ''MinimiseWindow'' [],
      cmd ''toggle_maximise_window'' ''ToggleMaximiseWindow'' [],
      cmd ''show_window'' ''ShowWindow'' []]"

definition invoke_call :: "string \<Rightarrow> (string \<rightharpoonup> json) \<Rightarrow> string + (string \<times> json option list)" where
  "invoke_call name args =
     (case map_of COMMANDS name of
        None \<Rightarrow> Inl (''Unknown backend command: '' @ name)
      | Some c \<Rightarrow> Inr (SERVICE @ ''.'' @ cmd_method c, map args (cmd_args c)))"

text \<open>An event's payload: the one element of an array of one.\<close>

definition event_payload :: "json \<Rightarrow> json" where
  "event_payload data = (case data of JArr [v] \<Rightarrow> v | _ \<Rightarrow> data)"

definition EVENTS :: "(string \<times> string) list" where
  "EVENTS = [(''log'', ''vpn-log''), (''state'', ''vpn-state''), (''traffic'', ''vpn-traffic''),
     (''settings'', ''settings-changed''), (''importLink'', ''import-link''),
     (''updateProgress'', ''update-progress''), (''speedProgress'', ''speed-progress''), (''wifi'', ''wifi-changed'')]"

text \<open>A rejection: an \<open>Error\<close> with its message, or any other value with its text (none for null).\<close>

datatype rejection = ErrorObject string | OtherValue string

definition error_message :: "rejection \<Rightarrow> string" where
  "error_message e =
     (case e of
        ErrorObject m \<Rightarrow> m
      | OtherValue v \<Rightarrow> (let t = js_trim v in if t = [] then ''Something went wrong.'' else t))"

text \<open>The native dialogs: nothing chosen reads as no path, no list.\<close>

definition save_path :: "string option \<Rightarrow> string option" where
  "save_path answer = (case answer of Some (c # cs) \<Rightarrow> Some (c # cs) | _ \<Rightarrow> None)"

definition chosen_applications :: "string list option \<Rightarrow> string list" where
  "chosen_applications answer = or_else answer []"

lemma commands_distinct: "distinct (map fst COMMANDS)"
  by (simp add: COMMANDS_def cmd_def)

lemma methods_distinct: "distinct (map (cmd_method \<circ> snd) COMMANDS)"
  by (simp add: COMMANDS_def cmd_def)

lemma distinct_map_inj: "distinct (map f xs) \<Longrightarrow> x \<in> set xs \<Longrightarrow> y \<in> set xs \<Longrightarrow> f x = f y \<Longrightarrow> x = y"
  by (auto simp: distinct_map dest: inj_onD)

section \<open>Properties\<close>

text \<open>No two commands reach the same Go method: two accepted calls with the same target are the same
  command, with the arguments sent in the order the table lists them; an unknown command sends
  nothing.\<close>

theorem commands_reach_own_method:
  assumes "invoke_call a args = Inr (target, sent)" "invoke_call b args' = Inr (target, sent')"
  shows "a = b \<and> (\<exists>c. map_of COMMANDS a = Some c \<and> sent = map args (cmd_args c) \<and> length sent = length (cmd_args c))"
proof -
  from assms obtain c d where c: "map_of COMMANDS a = Some c" "target = SERVICE @ ''.'' @ cmd_method c" "sent = map args (cmd_args c)"
    and d: "map_of COMMANDS b = Some d" "target = SERVICE @ ''.'' @ cmd_method d"
    by (auto simp: invoke_call_def split: option.splits)
  then have "(cmd_method \<circ> snd) (a, c) = (cmd_method \<circ> snd) (b, d)" by simp
  from distinct_map_inj [OF methods_distinct map_of_SomeD map_of_SomeD this] c d have "a = b" by blast
  with c show ?thesis by simp
qed

lemma add_profile_command: "map_of COMMANDS ''add_profile'' = Some \<lparr>cmd_method = ''AddProfile'', cmd_args = [''name'', ''link'']\<rparr>"
proof -
  have "(''add_profile'', \<lparr>cmd_method = ''AddProfile'', cmd_args = [''name'', ''link'']\<rparr>) \<in> set COMMANDS"
    by (simp add: COMMANDS_def cmd_def)
  then show ?thesis by (rule map_of_is_SomeI [OF commands_distinct])
qed

theorem commands_reach_own_method_witness:
  "\<exists>c. map_of COMMANDS ''add_profile'' = Some c \<and> [Some (JStr ''n''), None] = map [''name'' \<mapsto> JStr ''n''] (cmd_args c)"
proof -
  have i: "invoke_call ''add_profile'' [''name'' \<mapsto> JStr ''n''] = Inr (SERVICE @ ''.AddProfile'', [Some (JStr ''n''), None])"
    by (simp add: invoke_call_def add_profile_command)
  from commands_reach_own_method [OF i i, THEN conjunct2] obtain c
    where "map_of COMMANDS ''add_profile'' = Some c" "[Some (JStr ''n''), None] = map [''name'' \<mapsto> JStr ''n''] (cmd_args c)"
    by (elim exE conjE)
  then show ?thesis by (intro exI conjI)
qed

end
