(* ===== verification/Plugin_Host.thy ===== *)
theory Plugin_Host
  imports Backend
begin

text \<open>
  The window's side of plugins (lib/plugin-host.ts): frames, permissions, the methods a plugin may
  call and the events it may see.  A message is handled in one step, its awaited answers taken
  from the environment; the texts whose length is limited are counted in characters.
\<close>

section \<open>State\<close>

record frame =
  fr_plugin :: string
  fr_subscriptions :: "string list"
  fr_sized :: bool

record host_actions =
  ha_profiles :: "profile list"
  ha_state :: connection_state
  ha_language :: string
  ha_platform :: string

record host =
  ho_frames :: "(nat, frame) omap"
  ho_plugins :: "(string, plugin_info) omap"
  ho_actions :: "host_actions option"
  ho_last_toast :: "(string, int) omap"
  ho_last_notify :: "(string, int) omap"

text \<open>
  What a call meets outside this module: the clock, the computed style and the attributes of the
  page, the answers of the backend and of the app's actions (\<open>Inl\<close> and \<open>Some\<close> are the messages
  of their errors; connecting answers with the state the app is in when it returns).
\<close>

record page_look =
  pg_style :: "string \<Rightarrow> string"
  pg_classes :: "string list"
  pg_lang :: string
  pg_dir :: string

record host_env =
  he_now :: int
  he_look :: page_look
  he_invoke :: "string \<Rightarrow> (string \<times> json) list \<Rightarrow> string + json"
  he_connect :: "string option \<Rightarrow> string + connection_state"
  he_disconnect :: "string option"
  he_add_server :: "string \<Rightarrow> string \<Rightarrow> string option"
  he_add_subscription :: "string \<Rightarrow> string option"

datatype toast_kind = PlainToast | ErrorToast | SuccessToast

datatype host_effect =
    Post nat json
  | CallBackend string "(string \<times> json) list"
  | ShowToast string toast_kind string
  | DoConnect "string option"
  | DoDisconnect
  | DoAddServer string string
  | DoAddSubscription string
  | SetHeight nat rat

definition set_host_plugins :: "plugin_info list \<Rightarrow> host \<Rightarrow> host" where
  "set_host_plugins ps h = h\<lparr>ho_plugins := foldl (\<lambda>m p. om_set m (pl_id p) p) [] ps\<rparr>"

definition set_host_actions :: "host_actions \<Rightarrow> host \<Rightarrow> host" where
  "set_host_actions a h = h\<lparr>ho_actions := Some a\<rparr>"

definition register_frame :: "nat \<Rightarrow> string \<Rightarrow> bool \<Rightarrow> host \<Rightarrow> host" where
  "register_frame w pid sized h =
     h\<lparr>ho_frames := om_set (ho_frames h) w \<lparr>fr_plugin = pid, fr_subscriptions = [], fr_sized = sized\<rparr>\<rparr>"

definition forget_frame :: "nat \<Rightarrow> host \<Rightarrow> host" where
  "forget_frame w h = h\<lparr>ho_frames := om_delete (ho_frames h) w\<rparr>"

definition allowed :: "host \<Rightarrow> string \<Rightarrow> plugin_permission option \<Rightarrow> bool" where
  "allowed h pid permission =
     (case om_get (ho_plugins h) pid of
        None \<Rightarrow> False
      | Some p \<Rightarrow> pl_enabled p \<and> (case permission of None \<Rightarrow> True | Some q \<Rightarrow> q \<in> set (pl_permissions p)))"

definition message :: "(string \<times> json) list \<Rightarrow> json" where
  "message kvs = JObj ((''nugget'', JNum (Fin 1)) # kvs)"

definition event_message :: "string \<Rightarrow> json \<Rightarrow> json" where
  "event_message event data = message [(''event'', JStr event), (''data'', data)]"

definition broadcast :: "string \<Rightarrow> json \<Rightarrow> plugin_permission option \<Rightarrow> host \<Rightarrow> host_effect list" where
  "broadcast event data permission h =
     map (\<lambda>(w, f). Post w (event_message event data))
       (filter (\<lambda>(w, f). event \<in> set (fr_subscriptions f) \<and> allowed h (fr_plugin f) permission) (ho_frames h))"

section \<open>What plugins see\<close>

fun status_name :: "connection_status \<Rightarrow> string" where
  "status_name Idle = ''idle''" | "status_name Connecting = ''connecting''"
| "status_name Connected = ''connected''" | "status_name ErrorStatus = ''error''"

definition json_opt :: "string option \<Rightarrow> json" where
  "json_opt v = (case v of Some s \<Rightarrow> JStr s | None \<Rightarrow> JNull)"

definition public_state :: "connection_state \<Rightarrow> json" where
  "public_state s = JObj
     [(''status'', JStr (status_name (cs_status s))),
      (''server'', json_opt (cs_profile s)),
      (''server_id'', json_opt (cs_profile_id s)),
      (''since'', case cs_since s of Some n \<Rightarrow> JNum (Fin (of_int n)) | None \<Rightarrow> JNull),
      (''reconnecting'', JBool (or_else (cs_reconnecting s) False)),
      (''blocked'', JBool (or_else (cs_blocked s) False)),
      (''error'', json_opt (cs_error s))]"

definition public_profile :: "profile \<Rightarrow> json" where
  "public_profile p = JObj
     [(''id'', JStr (p_id p)), (''name'', JStr (p_name p)), (''protocol'', JStr (p_protocol p)),
      (''host'', JStr (p_server p)), (''favorite'', JBool (or_else (p_favorite p) False)),
      (''subscription'', json_opt (p_source_domain p))]"

definition THEME_COLORS :: "string list" where
  "THEME_COLORS =
     [''background'', ''foreground'', ''card'', ''card-foreground'', ''popover'', ''popover-foreground'',
      ''primary'', ''primary-foreground'', ''secondary'', ''secondary-foreground'', ''muted'', ''muted-foreground'',
      ''accent'', ''accent-foreground'', ''destructive'', ''border'', ''input'', ''ring'',
      ''status-connected'', ''status-connecting'', ''status-error'', ''status-idle'']"

definition current_theme :: "page_look \<Rightarrow> host_actions option \<Rightarrow> json" where
  "current_theme look actions =
     (let val = (\<lambda>name. js_trim (pg_style look (''--'' @ name)));
          dark = ''dark'' \<in> set (pg_classes look) \<or> list_ex (\<lambda>c. js_starts_with c ''theme-dark-'') (pg_classes look);
          language = (case actions of Some a \<Rightarrow> ha_language a | None \<Rightarrow> [])
      in JObj
        [(''mode'', JStr (if dark then ''dark'' else ''light'')),
         (''colors'', JObj (map (\<lambda>n. (n, JStr (val n))) (filter (\<lambda>n. val n \<noteq> []) THEME_COLORS))),
         (''radius'', JStr (val ''radius'')),
         (''font'', JStr (val ''app-font'')),
         (''language'', JStr (if pg_lang look \<noteq> [] then pg_lang look else if language \<noteq> [] then language else ''en'')),
         (''dir'', JStr (if pg_dir look \<noteq> [] then pg_dir look else ''ltr''))])"

fun permission_name :: "plugin_permission \<Rightarrow> string" where
  "permission_name StatePerm = ''state''" | "permission_name ConnectionsPerm = ''connections''"
| "permission_name ProfilesPerm = ''profiles''" | "permission_name ControlPerm = ''control''"
| "permission_name ImportPerm = ''import''" | "permission_name RoutingPerm = ''routing''"
| "permission_name NotificationsPerm = ''notifications''"

section \<open>Methods\<close>

text \<open>\<open>typeof value === "string" ? value.slice(0, limit) : ""\<close> on a property that may be absent.\<close>

definition limited_text :: "json option \<Rightarrow> nat \<Rightarrow> string" where
  "limited_text v limit = (case v of Some (JStr s) \<Rightarrow> take limit s | _ \<Rightarrow> [])"

text \<open>The outcome of a method: the host, what it did, and its result or error.\<close>

type_synonym outcome = "host \<times> host_effect list \<times> (string + json)"

definition ready :: "host \<Rightarrow> string + host_actions" where
  "ready h = (case ho_actions h of None \<Rightarrow> Inl ''the app is still starting'' | Some a \<Rightarrow> Inr a)"

definition throttle :: "(string, int) omap \<Rightarrow> string \<Rightarrow> int \<Rightarrow> int \<Rightarrow> string + (string, int) omap" where
  "throttle m pid gap now =
     (if now - or_else (om_get m pid) 0 < gap then Inl ''too many at once; try again in a moment''
      else Inr (om_set m pid now))"

definition call_backend :: "host_env \<Rightarrow> host \<Rightarrow> string \<Rightarrow> (string \<times> json) list \<Rightarrow> (json \<Rightarrow> json) \<Rightarrow> outcome" where
  "call_backend env h name args f =
     (h, [CallBackend name args], (case he_invoke env name args of Inl e \<Rightarrow> Inl e | Inr r \<Rightarrow> Inr (f r)))"

definition done_or_error :: "string option \<Rightarrow> string + json" where
  "done_or_error e = (case e of Some m \<Rightarrow> Inl m | None \<Rightarrow> Inr JNull)"

definition app_info :: "host_env \<Rightarrow> host \<Rightarrow> string \<Rightarrow> outcome" where
  "app_info env h pid =
     (h, [CallBackend ''get_version'' []],
      (case ready h of Inl e \<Rightarrow> Inl e
       | Inr a \<Rightarrow> Inr (JObj
           ([(''version'', (case he_invoke env ''get_version'' [] of Inl _ \<Rightarrow> JStr [] | Inr v \<Rightarrow> v)),
             (''language'', JStr (ha_language a)), (''platform'', JStr (ha_platform a)),
             (''plugin'', JObj
               ((''id'', JStr pid) #
                (case om_get (ho_plugins h) pid of Some p \<Rightarrow> [(''version'', JStr (pl_version p))] | None \<Rightarrow> []) @
                [(''permissions'', JArr (case om_get (ho_plugins h) pid of
                    Some p \<Rightarrow> map (\<lambda>q. JStr (permission_name q)) (pl_permissions p) | None \<Rightarrow> []))]))]))))"

definition ui_toast :: "host_env \<Rightarrow> host \<Rightarrow> string \<Rightarrow> json \<Rightarrow> outcome" where
  "ui_toast env h pid params =
     (case throttle (ho_last_toast h) pid 1500 (he_now env) of
        Inl e \<Rightarrow> (h, [], Inl e)
      | Inr m \<Rightarrow>
          (h\<lparr>ho_last_toast := m\<rparr>,
           [ShowToast (''plugin-'' @ pid)
              (if json_get ''kind'' params = Some (JStr ''error'') then ErrorToast
               else if json_get ''kind'' params = Some (JStr ''success'') then SuccessToast else PlainToast)
              ((case om_get (ho_plugins h) pid of Some p \<Rightarrow> pl_name p | None \<Rightarrow> pid) @ '': ''
                 @ limited_text (json_get ''text'' params) 200)],
           Inr JNull))"

definition vpn_connect :: "host_env \<Rightarrow> host \<Rightarrow> json \<Rightarrow> outcome" where
  "vpn_connect env h params =
     (let server = limited_text (json_get ''server'' params) 100 in
      case ready h of
        Inl e \<Rightarrow> (h, [], Inl e)
      | Inr a \<Rightarrow>
          if server \<noteq> [] \<and> \<not> list_ex (\<lambda>p. p_id p = server) (ha_profiles a)
          then (h, [], Inl ''there is no server with that id'')
          else (let target = (if server = [] then None else Some server)
                in (h, [DoConnect target],
                    (case he_connect env target of Inl m \<Rightarrow> Inl m | Inr s \<Rightarrow> Inr (public_state s)))))"

definition with_actions :: "host \<Rightarrow> (host_actions \<Rightarrow> outcome) \<Rightarrow> outcome" where
  "with_actions h f = (case ready h of Inl e \<Rightarrow> (h, [], Inl e) | Inr a \<Rightarrow> f a)"

definition servers_add :: "host_env \<Rightarrow> host \<Rightarrow> json \<Rightarrow> outcome" where
  "servers_add env h params =
     (let link = js_trim (limited_text (json_get ''link'' params) 20000);
          name = limited_text (json_get ''name'' params) 100
      in if link = [] then (h, [], Inl ''give a link'')
         else with_actions h (\<lambda>a. (h, [DoAddServer name link], done_or_error (he_add_server env name link))))"

definition web_link :: "string \<Rightarrow> bool" where
  "web_link url \<longleftrightarrow> js_starts_with (js_lower url) ''http://'' \<or> js_starts_with (js_lower url) ''https://''"

definition subscriptions_add :: "host_env \<Rightarrow> host \<Rightarrow> json \<Rightarrow> outcome" where
  "subscriptions_add env h params =
     (let url = js_trim (limited_text (json_get ''url'' params) 4000)
      in if \<not> web_link url then (h, [], Inl ''give an http or https link'')
         else with_actions h (\<lambda>a. (h, [DoAddSubscription url], done_or_error (he_add_subscription env url))))"

definition rule_values :: "json \<Rightarrow> json list" where
  "rule_values params =
     (case json_get ''values'' params of
        Some (JArr vs) \<Rightarrow> map JStr (filter (\<lambda>s. s \<noteq> []) (map (\<lambda>v. limited_text (Some v) 500) vs))
      | _ \<Rightarrow> [])"

definition add_rule :: "host_env \<Rightarrow> host \<Rightarrow> string \<Rightarrow> json \<Rightarrow> outcome" where
  "add_rule env h pid params =
     call_backend env h ''add_plugin_rule''
       [(''id'', JStr pid),
        (''rule'', JObj [(''kind'', JStr (limited_text (json_get ''kind'' params) 40)), (''values'', JArr (rule_values params)),
           (''action'', JStr (limited_text (json_get ''action'' params) 20)),
           (''invert'', JBool (json_get ''invert'' params = Some (JBool True)))])] (\<lambda>_. JNull)"

definition plugin_notify :: "host_env \<Rightarrow> host \<Rightarrow> string \<Rightarrow> json \<Rightarrow> outcome" where
  "plugin_notify env h pid params =
     (case throttle (ho_last_notify h) pid 10000 (he_now env) of
        Inl e \<Rightarrow> (h, [], Inl e)
      | Inr m \<Rightarrow>
          call_backend env (h\<lparr>ho_last_notify := m\<rparr>) ''plugin_notify''
            [(''id'', JStr pid), (''title'', JStr (limited_text (json_get ''title'' params) 100)),
             (''body'', JStr (limited_text (json_get ''body'' params) 400))] (\<lambda>_. JNull))"

definition storage_key :: "json \<Rightarrow> json" where
  "storage_key params = JStr (limited_text (json_get ''key'' params) 200)"

datatype plugin_method =
    AppInfo | AppTheme | UiToast | StorageGet | StorageSet | VpnStatus | VpnTraffic | VpnConnect
  | VpnDisconnect | ConnectionsList | ServersList | ServersAdd | SubscriptionsAdd | RoutingAddRule | Notify

text \<open>The table: the name, the permission and the method.\<close>

definition METHODS :: "(string \<times> plugin_permission option \<times> plugin_method) list" where
  "METHODS =
     [(''app.info'', None, AppInfo), (''app.theme'', None, AppTheme), (''ui.toast'', None, UiToast),
      (''storage.get'', None, StorageGet), (''storage.set'', None, StorageSet),
      (''vpn.status'', Some StatePerm, VpnStatus), (''vpn.traffic'', Some StatePerm, VpnTraffic),
      (''vpn.connect'', Some ControlPerm, VpnConnect), (''vpn.disconnect'', Some ControlPerm, VpnDisconnect),
      (''connections.list'', Some ConnectionsPerm, ConnectionsList),
      (''servers.list'', Some ProfilesPerm, ServersList), (''servers.add'', Some ImportPerm, ServersAdd),
      (''subscriptions.add'', Some ImportPerm, SubscriptionsAdd),
      (''routing.addRule'', Some RoutingPerm, RoutingAddRule), (''notify'', Some NotificationsPerm, Notify)]"

fun run_method :: "host_env \<Rightarrow> host \<Rightarrow> string \<Rightarrow> json \<Rightarrow> plugin_method \<Rightarrow> outcome" where
  "run_method env h pid params AppInfo = app_info env h pid"
| "run_method env h pid params AppTheme = (h, [], Inr (current_theme (he_look env) (ho_actions h)))"
| "run_method env h pid params UiToast = ui_toast env h pid params"
| "run_method env h pid params StorageGet =
     call_backend env h ''plugin_storage_get'' [(''id'', JStr pid), (''key'', storage_key params)] (\<lambda>r. r)"
| "run_method env h pid params StorageSet =
     call_backend env h ''plugin_storage_set''
       [(''id'', JStr pid), (''key'', storage_key params), (''value'', or_else (json_get ''value'' params) JNull)] (\<lambda>_. JNull)"
| "run_method env h pid params VpnStatus = with_actions h (\<lambda>a. (h, [], Inr (public_state (ha_state a))))"
| "run_method env h pid params VpnTraffic = call_backend env h ''get_traffic'' [] (\<lambda>r. r)"
| "run_method env h pid params VpnConnect = vpn_connect env h params"
| "run_method env h pid params VpnDisconnect =
     with_actions h (\<lambda>a. (h, [DoDisconnect], done_or_error (he_disconnect env)))"
| "run_method env h pid params ConnectionsList = call_backend env h ''get_connections'' [] (\<lambda>r. r)"
| "run_method env h pid params ServersList =
     with_actions h (\<lambda>a. (h, [], Inr (JArr (map public_profile (ha_profiles a)))))"
| "run_method env h pid params ServersAdd = servers_add env h params"
| "run_method env h pid params SubscriptionsAdd = subscriptions_add env h params"
| "run_method env h pid params RoutingAddRule = add_rule env h pid params"
| "run_method env h pid params Notify = plugin_notify env h pid params"

definition refusal :: "plugin_permission option \<Rightarrow> string" where
  "refusal permission =
     (case permission of
        Some q \<Rightarrow> ''this plugin has not been allowed '' @ [CHR 0x22] @ permission_name q @ [CHR 0x22]
      | None \<Rightarrow> ''this plugin is turned off'')"

definition reply :: "nat \<Rightarrow> jsnum \<Rightarrow> string + json \<Rightarrow> host_effect" where
  "reply w n r = Post w (message [(''id'', JNum n), (case r of Inr v \<Rightarrow> (''result'', v) | Inl e \<Rightarrow> (''error'', JStr e))])"

definition answer :: "host_env \<Rightarrow> host \<Rightarrow> nat \<Rightarrow> frame \<Rightarrow> jsnum \<Rightarrow> string \<Rightarrow> json \<Rightarrow> host \<times> host_effect list" where
  "answer env h w f n name params =
     (case map_of METHODS name of
        None \<Rightarrow> (h, [reply w n (Inl (''unknown method '' @ name))])
      | Some (permission, m) \<Rightarrow>
          if \<not> allowed h (fr_plugin f) permission then (h, [reply w n (Inl (refusal permission))])
          else (case run_method env h (fr_plugin f) params m of (h', es, r) \<Rightarrow> (h', es @ [reply w n r])))"

section \<open>Messages and events\<close>

definition EVENT_PERMISSIONS :: "(string \<times> plugin_permission option) list" where
  "EVENT_PERMISSIONS = [(''vpn.state'', Some StatePerm), (''vpn.traffic'', Some StatePerm), (''app.theme'', None)]"

text \<open>\<open>name in EVENT_PERMISSIONS\<close> also holds of what every object inherits.\<close>

definition OBJECT_PROTOTYPE_KEYS :: "string list" where
  "OBJECT_PROTOTYPE_KEYS =
     [''constructor'', ''hasOwnProperty'', ''isPrototypeOf'', ''propertyIsEnumerable'', ''toLocaleString'',
      ''toString'', ''valueOf'', ''__proto__'', ''__defineGetter__'', ''__defineSetter__'',
      ''__lookupGetter__'', ''__lookupSetter__'']"

definition subscribe :: "nat \<Rightarrow> frame \<Rightarrow> string \<Rightarrow> host \<Rightarrow> host" where
  "subscribe w f event h =
     h\<lparr>ho_frames := om_set (ho_frames h) w
        (f\<lparr>fr_subscriptions := (if event \<in> set (fr_subscriptions f) then fr_subscriptions f
                                  else fr_subscriptions f @ [event])\<rparr>)\<rparr>"

definition is_call :: "json \<Rightarrow> (string \<times> jsnum) option" where
  "is_call data =
     (case (json_get ''method'' data, json_get ''id'' data) of
        (Some (JStr name), Some (JNum n)) \<Rightarrow> Some (name, n) | _ \<Rightarrow> None)"

definition call_params :: "json \<Rightarrow> json" where
  "call_params data =
     (case json_get ''params'' data of Some p \<Rightarrow> if is_object p then p else JObj [] | None \<Rightarrow> JObj [])"

text \<open>What a message asks for: the first of the forms of the protocol it has.\<close>

datatype request = Hello | Subscribe string | Height rat | MethodCall string jsnum | Unknown

definition request_of :: "json \<Rightarrow> request" where
  "request_of data =
     (if json_get ''nugget'' data \<noteq> Some (JNum (Fin 1)) then Unknown
      else if json_get ''hello'' data = Some (JBool True) then Hello
      else (case json_get ''subscribe'' data of
              Some (JStr name) \<Rightarrow> Subscribe name
            | _ \<Rightarrow> (case json_get ''height'' data of
                      Some (JNum (Fin q)) \<Rightarrow> Height q
                    | _ \<Rightarrow> (case is_call data of Some (name, n) \<Rightarrow> MethodCall name n | None \<Rightarrow> Unknown))))"

definition on_message :: "host_env \<Rightarrow> host \<Rightarrow> nat \<Rightarrow> json \<Rightarrow> host \<times> host_effect list" where
  "on_message env h w data =
     (case om_get (ho_frames h) w of
        None \<Rightarrow> (h, [])
      | Some f \<Rightarrow>
          (case request_of data of
             Hello \<Rightarrow> (subscribe w f ''app.theme'' h,
                       [Post w (event_message ''app.theme'' (current_theme (he_look env) (ho_actions h)))])
           | Subscribe name \<Rightarrow>
               if name \<notin> set (map fst EVENT_PERMISSIONS @ OBJECT_PROTOTYPE_KEYS) then (h, [])
               else (subscribe w f name h,
                     (if name = ''vpn.state'' \<and> allowed h (fr_plugin f) (Some StatePerm)
                      then (case ho_actions h of
                              Some a \<Rightarrow> [Post w (event_message name (public_state (ha_state a)))] | None \<Rightarrow> [])
                      else []))
           | Height q \<Rightarrow> (h, if fr_sized f then [SetHeight w (max 60 (min 4000 q))] else [])
           | MethodCall name n \<Rightarrow> answer env h w f n name (call_params data)
           | Unknown \<Rightarrow> (h, [])))"

text \<open>Everything that reaches the host, in order; a backend event carries its payload.\<close>

datatype host_event =
    Message host_env nat json
  | StateChanged connection_state
  | TrafficChanged json
  | ThemeChanged page_look
  | PluginsSet "plugin_info list"
  | ActionsSet host_actions
  | FrameOpened nat string bool
  | FrameClosed nat

fun host_step :: "host \<Rightarrow> host_event \<Rightarrow> host \<times> host_effect list" where
  "host_step h (Message env w data) = on_message env h w data"
| "host_step h (StateChanged s) = (h, broadcast ''vpn.state'' (public_state s) (Some StatePerm) h)"
| "host_step h (TrafficChanged s) = (h, broadcast ''vpn.traffic'' (event_payload s) (Some StatePerm) h)"
| "host_step h (ThemeChanged s) = (h, broadcast ''app.theme'' (current_theme s (ho_actions h)) None h)"
| "host_step h (PluginsSet ps) = (set_host_plugins ps h, [])"
| "host_step h (ActionsSet a) = (set_host_actions a h, [])"
| "host_step h (FrameOpened w pid sized) = (register_frame w pid sized h, [])"
| "host_step h (FrameClosed w) = (forget_frame w h, [])"

section \<open>Permissions\<close>

text \<open>What an effect of a plugin requires of it.\<close>

definition BACKEND_PERMISSIONS :: "(string \<times> plugin_permission) list" where
  "BACKEND_PERMISSIONS =
     [(''get_traffic'', StatePerm), (''get_connections'', ConnectionsPerm),
      (''add_plugin_rule'', RoutingPerm), (''plugin_notify'', NotificationsPerm)]"

fun effect_needs :: "host_effect \<Rightarrow> plugin_permission option" where
  "effect_needs (DoConnect t) = Some ControlPerm"
| "effect_needs DoDisconnect = Some ControlPerm"
| "effect_needs (DoAddServer n l) = Some ImportPerm"
| "effect_needs (DoAddSubscription u) = Some ImportPerm"
| "effect_needs (CallBackend c args) = map_of BACKEND_PERMISSIONS c"
| "effect_needs _ = None"

text \<open>An effect a plugin's frame may have: messages and heights are its own; anything else needs the
  permission, and a backend call made in a plugin's name is made in this plugin's name.\<close>

fun effect_ok :: "host \<Rightarrow> nat \<Rightarrow> string \<Rightarrow> host_effect \<Rightarrow> bool" where
  "effect_ok h w pid (Post w' m) = (w' = w)"
| "effect_ok h w pid (SetHeight w' q) = (w' = w \<and> 60 \<le> q \<and> q \<le> 4000)"
| "effect_ok h w pid (CallBackend c args) =
     (allowed h pid (effect_needs (CallBackend c args))
       \<and> list_all (\<lambda>(k, v). k = ''id'' \<longrightarrow> v = JStr pid) args)"
| "effect_ok h w pid e = allowed h pid (effect_needs e)"

definition method_ok :: "host \<Rightarrow> nat \<Rightarrow> string \<Rightarrow> outcome \<Rightarrow> bool" where
  "method_ok h w pid r \<longleftrightarrow> (case r of (h', es, res) \<Rightarrow> list_all (effect_ok h w pid) es)"

lemma map_of_METHODS_cases:
  assumes "map_of METHODS name = Some (p, m)"
  shows "p = (case m of AppInfo \<Rightarrow> None | AppTheme \<Rightarrow> None | UiToast \<Rightarrow> None | StorageGet \<Rightarrow> None
    | StorageSet \<Rightarrow> None | VpnStatus \<Rightarrow> Some StatePerm | VpnTraffic \<Rightarrow> Some StatePerm
    | VpnConnect \<Rightarrow> Some ControlPerm | VpnDisconnect \<Rightarrow> Some ControlPerm
    | ConnectionsList \<Rightarrow> Some ConnectionsPerm | ServersList \<Rightarrow> Some ProfilesPerm
    | ServersAdd \<Rightarrow> Some ImportPerm | SubscriptionsAdd \<Rightarrow> Some ImportPerm
    | RoutingAddRule \<Rightarrow> Some RoutingPerm | Notify \<Rightarrow> Some NotificationsPerm)"
  using map_of_SomeD [OF assms] unfolding METHODS_def
  by (simp only: list.simps set_simps insert_iff prod.inject empty_iff) (elim disjE conjE; simp)

lemma allowed_None: "allowed h pid p \<Longrightarrow> allowed h pid None"
  by (simp add: allowed_def split: option.splits)

lemmas backend_permissions = BACKEND_PERMISSIONS_def

lemma run_method_ok:
  assumes m: "map_of METHODS name = Some (p, m)" and a: "allowed h pid p"
  shows "method_ok h w pid (run_method env h pid params m)"
proof -
  note p = map_of_METHODS_cases [OF m]
  note a0 = allowed_None [OF a]
  show ?thesis
  proof (cases m)
    case AppInfo then show ?thesis using a0 by (simp add: method_ok_def app_info_def backend_permissions)
  next
    case AppTheme then show ?thesis by (simp add: method_ok_def)
  next
    case UiToast then show ?thesis using a0 by (simp add: method_ok_def ui_toast_def split: sum.splits)
  next
    case StorageGet then show ?thesis using a0 by (simp add: method_ok_def call_backend_def backend_permissions)
  next
    case StorageSet then show ?thesis using a0 by (simp add: method_ok_def call_backend_def backend_permissions)
  next
    case VpnStatus then show ?thesis by (simp add: method_ok_def with_actions_def split: sum.splits)
  next
    case VpnTraffic then show ?thesis using a p by (simp add: method_ok_def call_backend_def backend_permissions)
  next
    case VpnConnect then show ?thesis using a p by (simp add: method_ok_def vpn_connect_def Let_def split: sum.splits)
  next
    case VpnDisconnect then show ?thesis using a p by (simp add: method_ok_def with_actions_def split: sum.splits)
  next
    case ConnectionsList then show ?thesis using a p by (simp add: method_ok_def call_backend_def backend_permissions)
  next
    case ServersList then show ?thesis by (simp add: method_ok_def with_actions_def split: sum.splits)
  next
    case ServersAdd then show ?thesis using a p
      by (simp add: method_ok_def servers_add_def with_actions_def Let_def split: sum.splits)
  next
    case SubscriptionsAdd then show ?thesis using a p
      by (simp add: method_ok_def subscriptions_add_def with_actions_def Let_def split: sum.splits)
  next
    case RoutingAddRule then show ?thesis using a p by (simp add: method_ok_def add_rule_def call_backend_def backend_permissions)
  next
    case Notify then show ?thesis using a p
      by (simp add: method_ok_def plugin_notify_def call_backend_def backend_permissions split: sum.splits)
  qed
qed

lemma answer_ok:
  assumes "answer env h w f n name params = (h', es)"
  shows "list_all (effect_ok h w (fr_plugin f)) es"
proof (cases "map_of METHODS name")
  case None
  with assms show ?thesis by (auto simp: answer_def reply_def)
next
  case (Some pm)
  obtain p m where pm: "pm = (p, m)" by (cases pm)
  obtain h1 es1 r where r: "run_method env h (fr_plugin f) params m = (h1, es1, r)" by (cases "run_method env h (fr_plugin f) params m")
  show ?thesis
  proof (cases "allowed h (fr_plugin f) p")
    case True
    from run_method_ok [OF Some [unfolded pm] this, of w env params] r have "list_all (effect_ok h w (fr_plugin f)) es1"
      by (simp add: method_ok_def)
    with assms Some pm r True show ?thesis by (auto simp: answer_def reply_def)
  next
    case False
    with assms Some pm show ?thesis by (auto simp: answer_def reply_def)
  qed
qed


text \<open>The dashboard plugin of the examples: it may see the state and control the connection.\<close>

definition sample_plugin :: plugin_info where
  "sample_plugin =
     \<lparr>pl_id = ''dash'', pl_name = ''Dash'', pl_version = ''1'', pl_author = None, pl_description = None,
      pl_homepage = None, pl_icon = None, pl_enabled = True, pl_permissions = [StatePerm, ControlPerm],
      pl_network = [], pl_themes = [], pl_fonts = [], pl_routing = [], pl_panel = None, pl_panel_title = None,
      pl_background = None\<rparr>"

definition sample_actions :: "string \<Rightarrow> host_actions" where
  "sample_actions link =
     \<lparr>ha_profiles = [\<lparr>p_id = ''1'', p_name = ''Home'', p_server = ''example.org'', p_protocol = ''vless'',
        p_config_link = link, p_source_domain = None, p_subscription_url = None, p_total_up = None,
        p_total_down = None, p_favorite = None, p_group = None, p_subscription_info = None\<rparr>],
      ha_state = \<lparr>cs_status = Idle, cs_profile_id = None, cs_profile = None, cs_error = None, cs_reason = None,
        cs_since = None, cs_reconnecting = None, cs_attempt = None, cs_blocked = None\<rparr>,
      ha_language = ''en'', ha_platform = ''linux''\<rparr>"

definition sample_host :: "string \<Rightarrow> host" where
  "sample_host link =
     \<lparr>ho_frames = [(7, \<lparr>fr_plugin = ''dash'', fr_subscriptions = [], fr_sized = False\<rparr>)],
      ho_plugins = [(''dash'', sample_plugin)], ho_actions = Some (sample_actions link),
      ho_last_toast = [], ho_last_notify = []\<rparr>"

definition sample_env :: host_env where
  "sample_env =
     \<lparr>he_now = 20000, he_look = \<lparr>pg_style = (\<lambda>_. []), pg_classes = [], pg_lang = [], pg_dir = []\<rparr>,
      he_invoke = (\<lambda>_ _. Inr JNull), he_connect = (\<lambda>_. Inl ''no route''), he_disconnect = None,
      he_add_server = (\<lambda>_ _. None), he_add_subscription = (\<lambda>_. None)\<rparr>"

definition sample_call :: "string \<Rightarrow> json" where
  "sample_call name = message [(''id'', JNum (Fin 3)), (''method'', JStr name)]"

definition sample_subscribe :: json where
  "sample_subscribe = message [(''subscribe'', JStr ''vpn.state'')]"

lemmas sample_defs = sample_plugin_def sample_actions_def sample_host_def sample_env_def sample_call_def
  sample_subscribe_def message_def

lemma request_of_sample_call: "request_of (sample_call name) = MethodCall name (Fin 3)"
  by (simp add: request_of_def sample_call_def message_def is_call_def)

lemma request_of_sample_subscribe: "request_of sample_subscribe = Subscribe ''vpn.state''"
  by (simp add: request_of_def sample_subscribe_def message_def)

lemma sample_disconnect:
  "on_message sample_env (sample_host l) 7 (sample_call ''vpn.disconnect'')
     = (sample_host l, [DoDisconnect, reply 7 (Fin 3) (Inr JNull)])"
  unfolding on_message_def request_of_sample_call answer_def METHODS_def
  by (simp add: sample_host_def sample_plugin_def sample_env_def om_get_def allowed_def with_actions_def ready_def done_or_error_def)


section \<open>Events\<close>

fun is_post :: "host_effect \<Rightarrow> bool" where
  "is_post (Post w m) = True" | "is_post _ = False"

lemmas method_defs = app_info_def ui_toast_def call_backend_def with_actions_def vpn_connect_def servers_add_def
  subscriptions_add_def add_rule_def plugin_notify_def

lemma run_method_no_post:
  "run_method env h pid params m = (h', es, r) \<Longrightarrow> list_all (\<lambda>e. \<not> is_post e) es"
  by (cases m) (auto simp: method_defs Let_def split: sum.splits if_splits)

lemma reply_no_event: "reply w n r = Post w' m \<Longrightarrow> w' = w \<and> json_get ''event'' m = None"
  by (auto simp: reply_def message_def split: sum.splits)

lemma answer_no_event:
  assumes "answer env h w f n name params = (h', es)" "Post w' m \<in> set es"
  shows "json_get ''event'' m = None"
proof -
  have "Post w' m \<notin> set es1" if "run_method env h pid params k = (h1, es1, r)" for pid k h1 es1 r
    using run_method_no_post [OF that] by (auto simp: list_all_iff)
  with assms show ?thesis
    by (force simp: answer_def dest: reply_no_event [OF sym] split: option.splits if_splits prod.splits)
qed

lemma broadcast_member:
  "Post w m \<in> set (broadcast event data p h) \<longleftrightarrow>
     (\<exists>f. (w, f) \<in> set (ho_frames h) \<and> event \<in> set (fr_subscriptions f) \<and> allowed h (fr_plugin f) p \<and> m = event_message event data)"
  by (auto simp: broadcast_def image_iff)

lemma event_of_message: "json_get ''event'' (event_message event data) = Some (JStr event)"
  by (simp add: event_message_def message_def)

text \<open>The state of the connection and the traffic reach a plugin as events only in a frame of a plugin that
  is on and was granted the state permission, whether the event is broadcast or answers a
  subscription, and whatever happens to the host.\<close>

theorem state_events_need_permission:
  assumes "host_step h ev = (h', es)" "Post w m \<in> set es" "json_get ''event'' m = Some (JStr name)"
    "name \<in> {''vpn.state'', ''vpn.traffic''}"
  shows "\<exists>f. (w, f) \<in> set (ho_frames h) \<and> allowed h (fr_plugin f) (Some StatePerm)"
proof (cases ev)
  case (Message env w' data)
  with assms obtain f where f: "om_get (ho_frames h) w' = Some f"
    by (auto simp: on_message_def split: option.splits)
  then have mem: "(w', f) \<in> set (ho_frames h)" by (simp add: om_get_def map_of_SomeD)
  show ?thesis
  proof (cases "request_of data")
    case (MethodCall c n)
    with assms Message f answer_no_event show ?thesis by (fastforce simp: on_message_def)
  next
    case (Subscribe c)
    with assms Message f mem show ?thesis by (auto simp: on_message_def split: if_splits option.splits)
  next
    case Hello
    with assms Message f show ?thesis by (auto simp: on_message_def event_of_message)
  qed (use assms Message f in \<open>auto simp: on_message_def split: if_splits\<close>)
qed (use assms in \<open>auto simp: broadcast_member event_of_message\<close>)

lemma sample_subscribed:
  "host_step (sample_host []) (Message sample_env 7 sample_subscribe)
     = (subscribe 7 \<lparr>fr_plugin = ''dash'', fr_subscriptions = [], fr_sized = False\<rparr> ''vpn.state'' (sample_host []),
        [Post 7 (event_message ''vpn.state'' (public_state (ha_state (sample_actions []))))])"
  by (simp add: on_message_def request_of_sample_subscribe sample_host_def sample_plugin_def om_get_def allowed_def
    EVENT_PERMISSIONS_def)

theorem state_events_need_permission_witness:
  "\<exists>f. (7, f) \<in> set (ho_frames (sample_host [])) \<and> allowed (sample_host []) (fr_plugin f) (Some StatePerm)"
  by (rule state_events_need_permission [OF sample_subscribed]) (simp, rule event_of_message, simp)

section \<open>Throttling\<close>

fun run_host :: "host \<Rightarrow> host_event list \<Rightarrow> host \<times> host_effect list list" where
  "run_host h [] = (h, [])"
| "run_host h (ev # evs) =
     (case host_step h ev of (h', es) \<Rightarrow> (case run_host h' evs of (h'', ess) \<Rightarrow> (h'', es # ess)))"

text \<open>The moments at which the host passed on a notification of the plugin.\<close>

definition notifies :: "string \<Rightarrow> host_effect \<Rightarrow> bool" where
  "notifies pid e = (case e of CallBackend c args \<Rightarrow> c = ''plugin_notify'' \<and> map_of args ''id'' = Some (JStr pid) | _ \<Rightarrow> False)"

fun notice_times :: "string \<Rightarrow> host_event list \<Rightarrow> host_effect list list \<Rightarrow> int list" where
  "notice_times pid (Message env w data # evs) (es # ess) =
     (if list_ex (notifies pid) es then [he_now env] else []) @ notice_times pid evs ess"
| "notice_times pid (ev # evs) (es # ess) = notice_times pid evs ess"
| "notice_times pid _ _ = []"

lemma run_method_notices:
  assumes "run_method env h q params m = (h', es, r)"
  shows "(list_ex (notifies pid) es \<longrightarrow>
           or_else (om_get (ho_last_notify h) pid) 0 + 10000 \<le> he_now env \<and> om_get (ho_last_notify h') pid = Some (he_now env)) \<and>
         (\<not> list_ex (notifies pid) es \<longrightarrow> om_get (ho_last_notify h') pid = om_get (ho_last_notify h) pid)"
  using assms
  by (cases m) (auto simp: method_defs Let_def throttle_def notifies_def om_get_set split: sum.splits if_splits)

lemma reply_not_notice: "\<not> notifies pid (reply w n r)"
  by (simp add: reply_def notifies_def)

lemma answer_notices:
  assumes "answer env h w f n name params = (h', es)"
  shows "(list_ex (notifies pid) es \<longrightarrow>
           or_else (om_get (ho_last_notify h) pid) 0 + 10000 \<le> he_now env \<and> om_get (ho_last_notify h') pid = Some (he_now env)) \<and>
         (\<not> list_ex (notifies pid) es \<longrightarrow> om_get (ho_last_notify h') pid = om_get (ho_last_notify h) pid)"
proof (cases "\<exists>p m. map_of METHODS name = Some (p, m) \<and> allowed h (fr_plugin f) p")
  case True
  then obtain p m where m: "map_of METHODS name = Some (p, m)" "allowed h (fr_plugin f) p" by blast
  obtain h1 es1 r where r: "run_method env h (fr_plugin f) params m = (h1, es1, r)"
    by (cases "run_method env h (fr_plugin f) params m")
  from assms m r have "h' = h1" "es = es1 @ [reply w n r]" by (simp_all add: answer_def)
  with run_method_notices [OF r, of pid] show ?thesis by (simp add: reply_not_notice)
next
  case False
  with assms show ?thesis by (auto simp: answer_def reply_not_notice split: option.splits)
qed

lemma subscribe_last_notify [simp]: "ho_last_notify (subscribe w f ev h) = ho_last_notify h"
  by (simp add: subscribe_def)

lemma message_notices:
  assumes "on_message env h w data = (h', es)"
  shows "(list_ex (notifies pid) es \<longrightarrow>
           or_else (om_get (ho_last_notify h) pid) 0 + 10000 \<le> he_now env \<and> om_get (ho_last_notify h') pid = Some (he_now env)) \<and>
         (\<not> list_ex (notifies pid) es \<longrightarrow> om_get (ho_last_notify h') pid = om_get (ho_last_notify h) pid)"
proof (cases "request_of data")
  case (MethodCall c n)
  with assms show ?thesis
    by (auto simp: on_message_def split: option.splits dest!: answer_notices [where pid = pid])
qed (use assms in \<open>auto simp: on_message_def notifies_def split: option.splits if_splits\<close>)

lemma other_step_last_notify:
  "(\<And>env w data. ev \<noteq> Message env w data) \<Longrightarrow> ho_last_notify (fst (host_step h ev)) = ho_last_notify h"
  by (cases ev) (auto simp: set_host_plugins_def set_host_actions_def register_frame_def forget_frame_def)

lemma notice_times_other:
  "(\<And>env w data. ev \<noteq> Message env w data) \<Longrightarrow> notice_times pid (ev # evs) (es # ess) = notice_times pid evs ess"
  by (cases ev) auto

lemma notices_spaced_from:
  assumes "run_host h evs = (h', ess)"
  shows "sorted_wrt (\<lambda>a b. a + 10000 \<le> b) (notice_times pid evs ess) \<and>
    (\<forall>l t. om_get (ho_last_notify h) pid = Some l \<longrightarrow> t \<in> set (notice_times pid evs ess) \<longrightarrow> l + 10000 \<le> t)"
  using assms
proof (induction evs arbitrary: h ess)
  case (Cons ev evs)
  obtain h1 es where s: "host_step h ev = (h1, es)" by (cases "host_step h ev")
  with Cons.prems obtain ess' where r: "run_host h1 evs = (h', ess')" and ess: "ess = es # ess'"
    by (auto split: prod.splits)
  note IH = Cons.IH [OF r]
  show ?case
  proof (cases "\<exists>env w data. ev = Message env w data")
    case True
    then obtain env w data where ev: "ev = Message env w data" by blast
    with s have m: "on_message env h w data = (h1, es)" by simp
    show ?thesis
    proof (cases "list_ex (notifies pid) es")
      case True
      with message_notices [OF m, of pid]
      have "or_else (om_get (ho_last_notify h) pid) 0 + 10000 \<le> he_now env" "om_get (ho_last_notify h1) pid = Some (he_now env)"
        by simp_all
      with IH ess ev True show ?thesis by (fastforce simp: or_else_def)
    next
      case False
      with message_notices [OF m, of pid] IH ess ev show ?thesis by simp
    qed
  next
    case False
    with IH ess s other_step_last_notify [of ev h] notice_times_other [of ev] show ?thesis by simp
  qed
qed simp

text \<open>C4: Whatever a plugin's frames send and whatever else happens, the host passes on at most one of its
  notifications in any ten seconds of the clock.\<close>

theorem notifications_spaced:
  "sorted_wrt (\<lambda>a b. a + 10000 \<le> b) (notice_times pid evs (snd (run_host h evs)))"
  using notices_spaced_from [of h evs "fst (run_host h evs)" "snd (run_host h evs)"] by simp

section \<open>What plugins cannot learn\<close>

text \<open>The app looks the same to a plugin when the parts of it plugins may see are the same; the links of
  the profiles, which carry the credentials, are not among them.\<close>

definition same_view :: "host_actions \<Rightarrow> host_actions \<Rightarrow> bool" where
  "same_view a b \<longleftrightarrow> map public_profile (ha_profiles a) = map public_profile (ha_profiles b)
     \<and> public_state (ha_state a) = public_state (ha_state b)
     \<and> ha_language a = ha_language b \<and> ha_platform a = ha_platform b"

definition same_host :: "host \<Rightarrow> host \<Rightarrow> bool" where
  "same_host h k \<longleftrightarrow> rel_option same_view (ho_actions h) (ho_actions k) \<and> k = h\<lparr>ho_actions := ho_actions k\<rparr>"

fun same_event :: "host_event \<Rightarrow> host_event \<Rightarrow> bool" where
  "same_event (ActionsSet a) (ActionsSet b) = same_view a b"
| "same_event (StateChanged s) (StateChanged t) = (public_state s = public_state t)"
| "same_event e e' = (e = e')"

lemma public_profile_id: "public_profile p = public_profile q \<Longrightarrow> p_id p = p_id q"
  by (simp add: public_profile_def)

lemma public_profiles_ids:
  assumes "map public_profile ps = map public_profile qs"
  shows "map p_id ps = map p_id qs"
proof -
  from assms have "list_all2 (\<lambda>p q. public_profile p = public_profile q) ps qs"
    by (simp add: list_all2_conv_all_nth list_eq_iff_nth_eq)
  then have "list_all2 (\<lambda>p q. p_id p = p_id q) ps qs"
    by (rule list_all2_mono) (rule public_profile_id)
  then show ?thesis by (simp add: list_all2_conv_all_nth list_eq_iff_nth_eq)
qed

lemma same_view_has_server:
  assumes "same_view a b"
  shows "list_ex (\<lambda>p. p_id p = server) (ha_profiles a) = list_ex (\<lambda>p. p_id p = server) (ha_profiles b)"
proof -
  have "list_ex (\<lambda>p. p_id p = server) ps \<longleftrightarrow> server \<in> set (map p_id ps)" for ps by (auto simp: list_ex_iff)
  with assms public_profiles_ids show ?thesis unfolding same_view_def by metis
qed

lemma same_hostD:
  assumes "same_host h k"
  shows "ho_frames k = ho_frames h" "ho_plugins k = ho_plugins h" "ho_last_toast k = ho_last_toast h"
    "ho_last_notify k = ho_last_notify h" "allowed k = allowed h"
proof -
  obtain y where k: "k = h\<lparr>ho_actions := y\<rparr>" using assms unfolding same_host_def by metis
  then show "ho_frames k = ho_frames h" "ho_plugins k = ho_plugins h" "ho_last_toast k = ho_last_toast h"
    "ho_last_notify k = ho_last_notify h" by simp_all
  with k show "allowed k = allowed h" by (simp add: allowed_def fun_eq_iff)
qed

lemma current_theme_same: "rel_option same_view x y \<Longrightarrow> current_theme look x = current_theme look y"
  by (cases x; cases y) (simp_all add: current_theme_def same_view_def)

definition same_outcome :: "outcome \<Rightarrow> outcome \<Rightarrow> bool" where
  "same_outcome x y \<longleftrightarrow> same_host (fst x) (fst y) \<and> snd x = snd y"

lemma run_method_same:
  assumes "same_host h k"
  shows "same_outcome (run_method env h pid params m) (run_method env k pid params m)"
proof -
  obtain y where k: "k = h\<lparr>ho_actions := y\<rparr>" and r: "rel_option same_view (ho_actions h) y"
    using assms unfolding same_host_def by metis
  note defs = same_outcome_def same_host_def method_defs ready_def throttle_def Let_def
  show ?thesis
  proof (cases "ho_actions h")
    case None
    with r have "y = None" by simp
    with None k show ?thesis by (cases m) (simp_all add: defs)
  next
    case (Some a)
    with r obtain b where y: "y = Some b" and v: "same_view a b" by (auto simp: option_rel_Some1)
    note v' = v [unfolded same_view_def]
    have k: "k = h\<lparr>ho_actions := Some b\<rparr>" using k y by simp
    note th = current_theme_same [OF r [unfolded Some y]]
    note simps = same_outcome_def same_host_def method_defs ready_def Some k v
    show ?thesis
    proof (cases m)
      case AppInfo then show ?thesis using v' by (simp add: simps)
    next
      case AppTheme then show ?thesis using th by (simp add: simps)
    next
      case UiToast then show ?thesis by (simp add: simps throttle_def)
    next
      case VpnStatus then show ?thesis using v' by (simp add: simps)
    next
      case VpnConnect then show ?thesis by (simp add: simps Let_def same_view_has_server [OF v])
    next
      case ServersList then show ?thesis using v' by (simp add: simps)
    next
      case ServersAdd then show ?thesis by (simp add: simps Let_def)
    next
      case SubscriptionsAdd then show ?thesis by (simp add: simps Let_def)
    next
      case Notify then show ?thesis by (simp add: simps throttle_def)
    qed (simp_all add: simps)
  qed
qed

lemma answer_same:
  assumes "same_host h k"
  shows "same_host (fst (answer env h w f n name params)) (fst (answer env k w f n name params)) \<and>
    snd (answer env h w f n name params) = snd (answer env k w f n name params)"
proof (cases "\<exists>p m. map_of METHODS name = Some (p, m) \<and> allowed h (fr_plugin f) p")
  case True
  then obtain p m where m: "map_of METHODS name = Some (p, m)" "allowed h (fr_plugin f) p" by blast
  from run_method_same [OF assms, of env "fr_plugin f" params m] m same_hostD(5) [OF assms] show ?thesis
    by (auto simp: answer_def same_outcome_def split: prod.splits)
next
  case False
  with assms same_hostD(5) [OF assms] show ?thesis by (auto simp: answer_def split: option.splits)
qed

lemma same_host_update:
  "same_host h k \<Longrightarrow> same_host (h\<lparr>ho_frames := fs\<rparr>) (k\<lparr>ho_frames := fs\<rparr>)"
  "same_host h k \<Longrightarrow> same_host (h\<lparr>ho_plugins := ps\<rparr>) (k\<lparr>ho_plugins := ps\<rparr>)"
  by (cases h; cases k; simp add: same_host_def)+

lemma same_host_actions: "same_host h k \<Longrightarrow> rel_option same_view (ho_actions h) (ho_actions k)"
  by (simp add: same_host_def)

lemma subscribe_same: "same_host h k \<Longrightarrow> same_host (subscribe w f ev h) (subscribe w f ev k)"
  by (simp add: subscribe_def same_hostD(1) same_host_update)

lemma on_message_same:
  assumes "same_host h k"
  shows "same_host (fst (on_message env h w data)) (fst (on_message env k w data)) \<and>
    snd (on_message env h w data) = snd (on_message env k w data)"
proof (cases "om_get (ho_frames h) w")
  case None
  with assms same_hostD(1) [OF assms] show ?thesis by (simp add: on_message_def)
next
  case (Some f)
  note frames = Some same_hostD(1) [OF assms]
  show ?thesis
  proof (cases "request_of data")
    case (Subscribe name)
    show ?thesis
    proof (cases "ho_actions h")
      case None
      with same_host_actions [OF assms] have "ho_actions k = None" by simp
      with None Subscribe assms frames show ?thesis by (simp add: on_message_def subscribe_same)
    next
      case (Some a)
      with same_host_actions [OF assms] obtain b where b: "ho_actions k = Some b" "same_view a b"
        by (auto simp: option_rel_Some1)
      then have "public_state (ha_state a) = public_state (ha_state b)" by (simp add: same_view_def)
      with b(1) Some Subscribe assms frames same_hostD(5) [OF assms] show ?thesis
        by (simp add: on_message_def subscribe_same)
    qed
  next
    case Hello
    with assms frames current_theme_same [OF same_host_actions [OF assms]] show ?thesis
      by (simp add: on_message_def subscribe_same)
  next
    case (MethodCall name n)
    with assms frames show ?thesis by (simp add: on_message_def answer_same)
  qed (use assms frames in \<open>simp_all add: on_message_def\<close>)
qed

lemma broadcast_same: "same_host h k \<Longrightarrow> broadcast ev data p k = broadcast ev data p h"
  by (simp add: broadcast_def same_hostD)

lemma host_step_same:
  assumes "same_host h k" "same_event e e'"
  shows "same_host (fst (host_step h e)) (fst (host_step k e')) \<and> snd (host_step h e) = snd (host_step k e')"
proof (cases e)
  case (Message env w data)
  with assms(2) have "e' = e" by (cases e') simp_all
  with Message on_message_same [OF assms(1)] show ?thesis by simp
next
  case (StateChanged s)
  with assms(2) obtain t where "e' = StateChanged t" "public_state s = public_state t" by (cases e') auto
  with StateChanged assms(1) show ?thesis by (simp add: broadcast_same)
next
  case (TrafficChanged s)
  with assms(2) have "e' = e" by (cases e') simp_all
  with TrafficChanged assms(1) show ?thesis by (simp add: broadcast_same)
next
  case (ThemeChanged s)
  with assms(2) have "e' = e" by (cases e') simp_all
  with ThemeChanged assms(1) current_theme_same [OF same_host_actions [OF assms(1)]] show ?thesis
    by (simp add: broadcast_same)
next
  case (ActionsSet a)
  with assms(2) obtain b where e': "e' = ActionsSet b" and v: "same_view a b" by (cases e') auto
  obtain y where "k = h\<lparr>ho_actions := y\<rparr>" using assms(1) unfolding same_host_def by metis
  with ActionsSet e' v show ?thesis by (simp add: set_host_actions_def same_host_def)
next
  case (PluginsSet ps)
  with assms(2) have "e' = e" by (cases e') simp_all
  with PluginsSet assms(1) show ?thesis by (simp add: set_host_plugins_def same_host_update)
next
  case (FrameOpened w pid sized)
  with assms(2) have "e' = e" by (cases e') simp_all
  with FrameOpened assms(1) show ?thesis by (simp add: register_frame_def same_host_update same_hostD)
next
  case (FrameClosed w)
  with assms(2) have "e' = e" by (cases e') simp_all
  with FrameClosed assms(1) show ?thesis by (simp add: forget_frame_def same_host_update same_hostD)
qed

lemma sample_same_host: "same_host (sample_host l) (sample_host l')"
  by (simp add: same_host_def sample_host_def same_view_def sample_actions_def public_profile_def)



end
