(* ===== verification/Js_Regex.thy ===== *)
theory Js_Regex
  imports Js_Base
begin

text \<open>
  Prelude: the regular expressions of the program that are anchored at both ends, as values.
  \<open>rx_test\<close> runs one on a text by derivatives; \<open>rx_test_lang\<close> shows that it accepts exactly the
  language the expression denotes, and \<open>rx_only\<close> bounds the characters of an accepted text.
\<close>

section \<open>Expressions\<close>

datatype rx =
    RNone
  | RNull
  | RChar "char \<Rightarrow> bool"
  | RSeq rx rx
  | RAlt rx rx
  | RStar rx

definition rx_chars :: "string \<Rightarrow> rx" where
  "rx_chars cs = RChar (\<lambda>c. c \<in> set cs)"

fun rx_str :: "string \<Rightarrow> rx" where
  "rx_str [] = RNull"
| "rx_str (c # cs) = RSeq (RChar (\<lambda>d. d = c)) (rx_str cs)"

fun rx_alts :: "rx list \<Rightarrow> rx" where
  "rx_alts [] = RNone"
| "rx_alts (r # rs) = RAlt r (rx_alts rs)"

fun rx_seqs :: "rx list \<Rightarrow> rx" where
  "rx_seqs [] = RNull"
| "rx_seqs (r # rs) = RSeq r (rx_seqs rs)"

definition rx_opt :: "rx \<Rightarrow> rx" where
  "rx_opt r = RAlt r RNull"

definition rx_plus :: "rx \<Rightarrow> rx" where
  "rx_plus r = RSeq r (RStar r)"

text \<open>\<open>r{n}\<close> and \<open>r{m,m+k}\<close>.\<close>

definition rx_times :: "nat \<Rightarrow> rx \<Rightarrow> rx" where
  "rx_times n r = rx_seqs (replicate n r)"

definition rx_between :: "nat \<Rightarrow> nat \<Rightarrow> rx \<Rightarrow> rx" where
  "rx_between m k r = RSeq (rx_times m r) (rx_times k (rx_opt r))"

text \<open>The flag i, for ASCII letters.\<close>

definition upper_char :: "char \<Rightarrow> char" where
  "upper_char c = (if 97 \<le> (of_char c :: nat) \<and> (of_char c :: nat) \<le> 122 then char_of (of_char c - 32 :: nat) else c)"

fun rx_nocase :: "rx \<Rightarrow> rx" where
  "rx_nocase (RChar p) = RChar (\<lambda>c. p c \<or> p (lower_char c) \<or> p (upper_char c))"
| "rx_nocase (RSeq r s) = RSeq (rx_nocase r) (rx_nocase s)"
| "rx_nocase (RAlt r s) = RAlt (rx_nocase r) (rx_nocase s)"
| "rx_nocase (RStar r) = RStar (rx_nocase r)"
| "rx_nocase r = r"

section \<open>Matching\<close>

fun rx_nullable :: "rx \<Rightarrow> bool" where
  "rx_nullable RNone = False"
| "rx_nullable RNull = True"
| "rx_nullable (RChar p) = False"
| "rx_nullable (RSeq r s) = (rx_nullable r \<and> rx_nullable s)"
| "rx_nullable (RAlt r s) = (rx_nullable r \<or> rx_nullable s)"
| "rx_nullable (RStar r) = True"

fun mk_seq :: "rx \<Rightarrow> rx \<Rightarrow> rx" where
  "mk_seq RNone s = RNone"
| "mk_seq RNull s = s"
| "mk_seq r s = RSeq r s"

fun mk_alt :: "rx \<Rightarrow> rx \<Rightarrow> rx" where
  "mk_alt RNone s = s"
| "mk_alt r RNone = r"
| "mk_alt r s = RAlt r s"

fun rx_deriv :: "char \<Rightarrow> rx \<Rightarrow> rx" where
  "rx_deriv c RNone = RNone"
| "rx_deriv c RNull = RNone"
| "rx_deriv c (RChar p) = (if p c then RNull else RNone)"
| "rx_deriv c (RSeq r s) =
     (if rx_nullable r then mk_alt (mk_seq (rx_deriv c r) s) (rx_deriv c s) else mk_seq (rx_deriv c r) s)"
| "rx_deriv c (RAlt r s) = mk_alt (rx_deriv c r) (rx_deriv c s)"
| "rx_deriv c (RStar r) = mk_seq (rx_deriv c r) (RStar r)"

fun rx_test :: "rx \<Rightarrow> string \<Rightarrow> bool" where
  "rx_test r [] = rx_nullable r"
| "rx_test r (c # s) = rx_test (rx_deriv c r) s"

section \<open>Language\<close>

inductive_set star_of :: "string set \<Rightarrow> string set" for A where
  star_empty: "[] \<in> star_of A"
| star_more: "u \<in> A \<Longrightarrow> v \<in> star_of A \<Longrightarrow> u @ v \<in> star_of A"

fun rx_lang :: "rx \<Rightarrow> string set" where
  "rx_lang RNone = {}"
| "rx_lang RNull = {[]}"
| "rx_lang (RChar p) = {[c] |c. p c}"
| "rx_lang (RSeq r s) = {u @ v |u v. u \<in> rx_lang r \<and> v \<in> rx_lang s}"
| "rx_lang (RAlt r s) = rx_lang r \<union> rx_lang s"
| "rx_lang (RStar r) = star_of (rx_lang r)"

lemma lang_mk_seq [simp]: "rx_lang (mk_seq r s) = rx_lang (RSeq r s)"
  by (cases r) simp_all

lemma lang_mk_alt [simp]: "rx_lang (mk_alt r s) = rx_lang r \<union> rx_lang s"
  by (cases r; cases s) simp_all

lemma nullable_lang: "rx_nullable r \<longleftrightarrow> [] \<in> rx_lang r"
  by (induction r) (auto intro: star_empty)

lemma star_of_Cons:
  "c # s \<in> star_of A \<longleftrightarrow> (\<exists>u v. s = u @ v \<and> c # u \<in> A \<and> v \<in> star_of A)" (is "?l \<longleftrightarrow> ?r")
proof
  have "w = c # s \<Longrightarrow> \<exists>u v. s = u @ v \<and> c # u \<in> A \<and> v \<in> star_of A" if "w \<in> star_of A" for w
    using that
  proof (induction rule: star_of.induct)
    case (star_more u v)
    then show ?case by (cases u) auto
  qed simp
  then show "?l \<Longrightarrow> ?r" by blast
next
  show "?r \<Longrightarrow> ?l" using star_more [of "c # _" A] by (metis append_Cons)
qed

lemma deriv_lang: "s \<in> rx_lang (rx_deriv c r) \<longleftrightarrow> c # s \<in> rx_lang r"
proof (induction r arbitrary: s)
  case (RSeq a b)
  have split: "(\<exists>u v. c # s = u @ v \<and> u \<in> rx_lang a \<and> v \<in> rx_lang b)
      \<longleftrightarrow> (\<exists>u v. s = u @ v \<and> c # u \<in> rx_lang a \<and> v \<in> rx_lang b) \<or> ([] \<in> rx_lang a \<and> c # s \<in> rx_lang b)"
    by (auto simp: Cons_eq_append_conv)
  show ?case using RSeq by (auto simp: split nullable_lang)
next
  case (RStar a)
  then show ?case by (simp add: star_of_Cons)
qed auto

theorem rx_test_lang: "rx_test r s \<longleftrightarrow> s \<in> rx_lang r"
  by (induction s arbitrary: r) (simp_all add: nullable_lang deriv_lang)

declare rx_test.simps [simp del]

section \<open>The characters of an accepted text\<close>

fun rx_only :: "(char \<Rightarrow> bool) \<Rightarrow> rx \<Rightarrow> bool" where
  "rx_only ok (RChar p) = (\<forall>c. p c \<longrightarrow> ok c)"
| "rx_only ok (RSeq r s) = (rx_only ok r \<and> rx_only ok s)"
| "rx_only ok (RAlt r s) = (rx_only ok r \<and> rx_only ok s)"
| "rx_only ok (RStar r) = rx_only ok r"
| "rx_only ok r = True"

lemma star_of_list_all: "s \<in> star_of A \<Longrightarrow> (\<And>u. u \<in> A \<Longrightarrow> list_all ok u) \<Longrightarrow> list_all ok s"
  by (induction rule: star_of.induct) auto

lemma lang_only: "rx_only ok r \<Longrightarrow> s \<in> rx_lang r \<Longrightarrow> list_all ok s"
  by (induction r arbitrary: s) (auto intro: star_of_list_all)

lemma rx_only_str [simp]: "rx_only ok (rx_str s) = list_all ok s"
  by (induction s) auto

lemma rx_only_seqs [simp]: "rx_only ok (rx_seqs rs) = list_all (rx_only ok) rs"
  by (induction rs) auto

lemma rx_only_alts [simp]: "rx_only ok (rx_alts rs) = list_all (rx_only ok) rs"
  by (induction rs) auto

lemma rx_only_times [simp]: "rx_only ok (rx_times n r) = (n = 0 \<or> rx_only ok r)"
  by (auto simp: rx_times_def list_all_iff)

lemma rx_only_between: "rx_only ok r \<Longrightarrow> rx_only ok (rx_between m k r)"
  by (simp add: rx_between_def rx_opt_def)

lemma rx_only_chars [simp]: "rx_only ok (rx_chars cs) = list_all ok cs"
  by (auto simp: rx_chars_def list_all_iff)

lemma rx_only_more [simp]:
  "rx_only ok (rx_opt r) = rx_only ok r" "rx_only ok (rx_plus r) = rx_only ok r"
  by (auto simp: rx_opt_def rx_plus_def)

lemma rx_lang_str [simp]: "rx_lang (rx_str s) = {s}"
  by (induction s) auto

section \<open>Case\<close>

lemma lower_upper_char [simp]: "lower_char (upper_char c) = lower_char c"
proof (cases "97 \<le> (of_char c :: nat) \<and> (of_char c :: nat) \<le> 122")
  case True
  then have "((of_char c :: nat) - 32) mod 256 = of_char c - 32" by (intro mod_less) arith
  moreover from True have "65 \<le> (of_char c :: nat) - 32" "(of_char c :: nat) - 32 \<le> 90" by arith+
  ultimately show ?thesis using True by (simp add: lower_char_def upper_char_def is_upper_def Let_def)
next
  case False
  then have "upper_char c = c" by (auto simp: upper_char_def)
  then show ?thesis by simp
qed

lemma lower_char_code: "is_upper c \<Longrightarrow> (of_char (lower_char c) :: nat) = of_char c + 32"
  by (simp add: lower_char_def is_upper_def Let_def of_char_of)

lemma lower_keeps_marks:
  "lower_char c = CHR ''/'' \<longleftrightarrow> c = CHR ''/''" "lower_char c = CHR ''.'' \<longleftrightarrow> c = CHR ''.''"
proof -
  have up: "97 \<le> (of_char (lower_char c) :: nat)" if "is_upper c"
    using that lower_char_code [OF that] by (simp add: is_upper_def Let_def)
  have mark: "lower_char c = m \<longleftrightarrow> c = m" if "\<not> is_upper m" "(of_char m :: nat) < 97" for m
  proof (cases "is_upper c")
    case True
    then have "lower_char c \<noteq> m" using up that(2) by force
    moreover have "c \<noteq> m" using True that(1) by blast
    ultimately show ?thesis by blast
  qed (simp add: lower_char_def)
  show "lower_char c = CHR ''/'' \<longleftrightarrow> c = CHR ''/''" "lower_char c = CHR ''.'' \<longleftrightarrow> c = CHR ''.''"
    by (rule mark; simp add: is_upper_def)+
qed

lemma star_of_lower:
  assumes "s \<in> star_of A" "\<And>u. u \<in> A \<Longrightarrow> \<exists>t \<in> B. js_lower u = js_lower t"
  shows "\<exists>t \<in> star_of B. js_lower s = js_lower t"
  using assms(1)
proof (induction rule: star_of.induct)
  case star_empty
  show ?case by (rule bexI [of _ "[]"]) (simp_all add: star_of.star_empty)
next
  case (star_more u v)
  then obtain t where "t \<in> star_of B" "js_lower v = js_lower t" by blast
  moreover obtain t' where "t' \<in> B" "js_lower u = js_lower t'" using assms(2) star_more.hyps(1) by blast
  ultimately show ?case by (intro bexI [of _ "t' @ t"]) (simp_all add: star_of.star_more)
qed

text \<open>A text accepted in any case is, but for the case of its letters, one accepted in this case.\<close>

lemma nocase_lang: "s \<in> rx_lang (rx_nocase r) \<Longrightarrow> \<exists>t \<in> rx_lang r. js_lower s = js_lower t"
proof (induction r arbitrary: s)
  case (RChar p)
  then obtain c where s: "s = [c]" and c: "p c \<or> p (lower_char c) \<or> p (upper_char c)" by auto
  then obtain d where "p d" "lower_char d = lower_char c" using lower_char_idem lower_upper_char by metis
  with s show ?case by (intro bexI [of _ "[d]"]) (simp_all add: js_lower_def)
next
  case (RSeq a b)
  then obtain u v where s: "s = u @ v" "u \<in> rx_lang (rx_nocase a)" "v \<in> rx_lang (rx_nocase b)" by auto
  with RSeq.IH obtain u' v' where "u' \<in> rx_lang a" "js_lower u = js_lower u'" "v' \<in> rx_lang b" "js_lower v = js_lower v'"
    by meson
  with s show ?case by (intro bexI [of _ "u' @ v'"]) auto
next
  case (RStar a)
  with star_of_lower [of s "rx_lang (rx_nocase a)" "rx_lang a"] show ?case by simp
qed auto

end
