(* ===== verification/Appearance_Fonts.thy ===== *)
theory Appearance_Fonts
  imports Js_Regex
begin

text \<open>
  Fonts (lib/appearance.ts): the bundled ones, those of the user and of plugins, and the font in
  effect for the script the window is shown in.  The module's two lists of options and the two
  style elements it fills are the \<open>font_state\<close>.
\<close>

section \<open>Options\<close>

datatype script = Latin | Cyrillic | Hans | Jpan | Arab

text \<open>\<open>fo_scripts = None\<close> is "all".\<close>

record font_option =
  fo_id :: string
  fo_label :: string
  fo_family :: string
  fo_scripts :: "script list option"

definition font :: "string \<Rightarrow> string \<Rightarrow> string \<Rightarrow> script list option \<Rightarrow> font_option" where
  "font i label family scripts = \<lparr>fo_id = i, fo_label = label, fo_family = family, fo_scripts = scripts\<rparr>"

definition quote :: string where "quote = [CHR 0x27]"

definition FONTS :: "font_option list" where
  "FONTS =
     [font ''google-sans'' ''Google Sans'' (quote @ ''Google Sans'' @ quote) (Some [Latin]),
      font ''rubik'' ''Rubik'' (quote @ ''Rubik Variable'' @ quote) (Some [Latin, Cyrillic, Arab]),
      font ''manrope'' ''Manrope'' (quote @ ''Manrope Variable'' @ quote) (Some [Latin, Cyrillic]),
      font ''geologica'' ''Geologica'' (quote @ ''Geologica Variable'' @ quote) (Some [Latin, Cyrillic]),
      font ''onest'' ''Onest'' (quote @ ''Onest Variable'' @ quote) (Some [Latin, Cyrillic]),
      font ''noto-sans-sc'' ''Noto Sans SC'' (quote @ ''Noto Sans SC Variable'' @ quote) (Some [Latin, Cyrillic, Hans]),
      font ''noto-sans-jp'' ''Noto Sans JP'' (quote @ ''Noto Sans JP Variable'' @ quote) (Some [Latin, Cyrillic, Jpan]),
      font ''vazirmatn'' ''Vazirmatn'' (quote @ ''Vazirmatn Variable'' @ quote) (Some [Latin, Arab]),
      font ''system'' [] ''system-ui'' None]"

fun DEFAULT_FONT :: "script \<Rightarrow> string" where
  "DEFAULT_FONT Latin = ''google-sans''" | "DEFAULT_FONT Cyrillic = ''onest''"
| "DEFAULT_FONT Hans = ''noto-sans-sc''" | "DEFAULT_FONT Jpan = ''noto-sans-jp''"
| "DEFAULT_FONT Arab = ''vazirmatn''"

record user_font =
  uf_id :: string
  uf_name :: string
  uf_url :: string

definition USER_FONT_PREFIX :: string where "USER_FONT_PREFIX = ''user:''"

section \<open>Patterns of addresses\<close>

definition lower_letters :: string where "lower_letters = ''abcdefghijklmnopqrstuvwxyz''"
definition upper_letters :: string where "upper_letters = ''ABCDEFGHIJKLMNOPQRSTUVWXYZ''"
definition digits :: string where "digits = ''0123456789''"

abbreviation hex16 :: rx where
  "hex16 \<equiv> rx_times 16 (rx_chars ''abcdef0123456789'')"

abbreviation font_ending :: rx where
  "font_ending \<equiv> RSeq (rx_str ''.'') (rx_alts [rx_str ''ttf'', rx_str ''otf'', RSeq (rx_str ''woff'') (rx_opt (rx_str ''2''))])"

definition USER_FONT_URL :: rx where
  "USER_FONT_URL = rx_seqs [rx_str ''/user-files/fonts/'', hex16, font_ending]"

definition file_name :: rx where
  "file_name = RSeq (rx_chars (upper_letters @ lower_letters @ digits @ ''_-''))
     (RStar (rx_chars (upper_letters @ lower_letters @ digits @ ''._-'')))"

definition plugin_id :: rx where
  "plugin_id = rx_seqs [rx_chars (lower_letters @ digits),
     rx_between 1 61 (rx_chars (lower_letters @ digits @ ''._-'')), rx_chars (lower_letters @ digits)]"

definition PLUGIN_FILE :: rx where
  "PLUGIN_FILE = rx_seqs [rx_str ''/plugins/'', plugin_id, rx_str ''/'', file_name, RStar (RSeq (rx_str ''/'') file_name)]"

definition PLUGIN_FONT_URL :: rx where
  "PLUGIN_FONT_URL = rx_nocase (RSeq PLUGIN_FILE font_ending)"

definition PLUGIN_FONT_ID :: rx where
  "PLUGIN_FONT_ID = rx_seqs [rx_str ''plugin-'', rx_plus (rx_chars (lower_letters @ digits @ ''._-'')), rx_str ''-'',
     rx_plus (rx_chars digits)]"

section \<open>Making fonts available\<close>

record font_state =
  fs_user :: "font_option list"
  fs_plugin :: "font_option list"
  fs_user_css :: string
  fs_plugin_css :: string

definition dquote :: string where "dquote = [CHR 0x22]"

definition font_face :: "string \<Rightarrow> user_font \<Rightarrow> string" where
  "font_face owner f =
     ''@font-face { font-family: '' @ quote @ owner @ '' '' @ uf_id f @ quote @ ''; src: url('' @ dquote @ uf_url f @ dquote
       @ ''); font-display: swap; }''"

definition font_entry :: "string \<Rightarrow> user_font \<Rightarrow> font_option" where
  "font_entry owner f =
     font (USER_FONT_PREFIX @ uf_id f) (if uf_name f = [] then uf_id f else uf_name f)
       (quote @ owner @ '' '' @ uf_id f @ quote) None"

definition valid_user_font :: "user_font \<Rightarrow> bool" where
  "valid_user_font f \<longleftrightarrow> rx_test USER_FONT_URL (uf_url f) \<and> rx_test hex16 (uf_id f)"

definition valid_plugin_font :: "user_font \<Rightarrow> bool" where
  "valid_plugin_font f \<longleftrightarrow> rx_test PLUGIN_FONT_URL (uf_url f) \<and> rx_test PLUGIN_FONT_ID (uf_id f)"

definition set_user_fonts :: "user_font list \<Rightarrow> font_state \<Rightarrow> font_state" where
  "set_user_fonts fonts st =
     (let valid = filter valid_user_font fonts
      in st\<lparr>fs_user := map (font_entry ''User'') valid,
            fs_user_css := js_join [CHR 0x0A] (map (font_face ''User'') valid)\<rparr>)"

definition set_plugin_fonts :: "user_font list \<Rightarrow> font_state \<Rightarrow> font_state" where
  "set_plugin_fonts fonts st =
     (let valid = filter valid_plugin_font fonts
      in st\<lparr>fs_plugin := map (font_entry ''Plugin'') valid,
            fs_plugin_css := js_join [CHR 0x0A] (map (font_face ''Plugin'') valid)\<rparr>)"

definition all_fonts :: "font_state \<Rightarrow> font_option list" where
  "all_fonts st = FONTS @ fs_user st @ fs_plugin st"

section \<open>The font in effect\<close>

definition covers :: "font_option \<Rightarrow> script \<Rightarrow> bool" where
  "covers f s = (case fo_scripts f of None \<Rightarrow> True | Some ss \<Rightarrow> s \<in> set ss)"

definition fonts_for :: "font_state \<Rightarrow> script \<Rightarrow> font_option list" where
  "fonts_for st s = filter (\<lambda>f. covers f s) (all_fonts st)"

definition default_font :: "script \<Rightarrow> font_option" where
  "default_font s = or_else (find (\<lambda>f. fo_id f = DEFAULT_FONT s) FONTS) (last FONTS)"

definition effective_font :: "font_state \<Rightarrow> string \<Rightarrow> script \<Rightarrow> font_option" where
  "effective_font st chosen s =
     (case find (\<lambda>f. fo_id f = chosen) (all_fonts st) of
        Some f \<Rightarrow> if covers f s then f else default_font s
      | None \<Rightarrow> default_font s)"

definition font_label :: "(string \<Rightarrow> string) \<Rightarrow> font_state \<Rightarrow> string \<Rightarrow> string" where
  "font_label t st i =
     (if i = ''system'' then t ''appearance.font.system''
      else (case find (\<lambda>f. fo_id f = i) (all_fonts st) of Some f \<Rightarrow> fo_label f | None \<Rightarrow> i))"

section \<open>Lemmas\<close>

lemma default_font_covers: "covers (default_font s) s \<and> default_font s \<in> set FONTS \<and> fo_id (default_font s) = DEFAULT_FONT s"
  by (cases s) (simp_all add: default_font_def FONTS_def font_def covers_def)

lemma bundled_ids_distinct: "distinct (map fo_id FONTS)"
  by (simp add: FONTS_def font_def)

lemma bundled_not_user: "f \<in> set FONTS \<Longrightarrow> fo_id f \<noteq> USER_FONT_PREFIX @ i"
  by (auto simp: FONTS_def font_def USER_FONT_PREFIX_def)

definition added_fonts_ok :: "font_state \<Rightarrow> bool" where
  "added_fonts_ok st \<longleftrightarrow>
     (\<forall>f \<in> set (fs_user st @ fs_plugin st). fo_scripts f = None \<and> js_starts_with (fo_id f) USER_FONT_PREFIX)"

lemma set_fonts_ok:
  "added_fonts_ok st \<Longrightarrow> added_fonts_ok (set_user_fonts us st)"
  "added_fonts_ok st \<Longrightarrow> added_fonts_ok (set_plugin_fonts us st)"
  by (auto simp: added_fonts_ok_def set_user_fonts_def set_plugin_fonts_def Let_def font_entry_def font_def)

lemma find_skip: "(\<And>y. y \<in> set xs \<Longrightarrow> \<not> P y) \<Longrightarrow> find P (xs @ ys) = find P ys"
  by (induction xs) auto

text \<open>The first font with an id on offer for a script covers it.\<close>

lemma offered_font_found:
  assumes ok: "added_fonts_ok st" and f: "f \<in> set (fonts_for st s)"
  shows "\<exists>g. find (\<lambda>x. fo_id x = fo_id f) (all_fonts st) = Some g \<and> covers g s"
proof (cases "f \<in> set FONTS")
  case True
  from find_distinct_key [OF bundled_ids_distinct True] f show ?thesis by (auto simp: all_fonts_def fonts_for_def)
next
  case False
  with f have "f \<in> set (fs_user st @ fs_plugin st)" by (auto simp: fonts_for_def all_fonts_def)
  moreover from this ok obtain i where "fo_id f = USER_FONT_PREFIX @ i"
    by (auto simp: added_fonts_ok_def js_starts_with_iff)
  ultimately obtain g where g: "find (\<lambda>x. fo_id x = fo_id f) (fs_user st @ fs_plugin st) = Some g"
    by (cases "find (\<lambda>x. fo_id x = fo_id f) (fs_user st @ fs_plugin st)") (auto dest: find_None_all)
  with ok have "covers g s" by (auto dest!: find_Some_in simp: added_fonts_ok_def covers_def)
  with g \<open>fo_id f = _\<close> bundled_not_user show ?thesis by (auto simp: all_fonts_def find_skip)
qed

section \<open>Properties\<close>

text \<open>The font in effect always covers the script the window is shown in and is one on offer; it is the
  chosen font exactly when that font is offered for the script, and the script's default
  otherwise, whatever fonts the user and the plugins have added.\<close>

theorem effective_font_covers_script:
  assumes "added_fonts_ok st" "st' = set_plugin_fonts ps (set_user_fonts us st)"
  shows "effective_font st' chosen s \<in> set (fonts_for st' s) \<and>
    fo_id (effective_font st' chosen s) = (if chosen \<in> fo_id ` set (fonts_for st' s) then chosen else DEFAULT_FONT s)"
proof (cases "find (\<lambda>x. fo_id x = chosen) (all_fonts st')")
  case None
  with find_None_all [OF None] have "chosen \<notin> fo_id ` set (fonts_for st' s)" by (auto simp: fonts_for_def)
  with None default_font_covers [of s] show ?thesis by (simp add: effective_font_def fonts_for_def all_fonts_def)
next
  case (Some f)
  have ok: "added_fonts_ok st'" using assms set_fonts_ok by blast
  from find_Some_in [OF Some] have f: "f \<in> set (all_fonts st')" "fo_id f = chosen" by simp_all
  show ?thesis
  proof (cases "covers f s")
    case True
    with Some f show ?thesis by (auto simp: effective_font_def fonts_for_def)
  next
    case False
    with Some offered_font_found [OF ok] have "chosen \<notin> fo_id ` set (fonts_for st' s)" by force
    with False Some default_font_covers [of s] show ?thesis
      by (simp add: effective_font_def fonts_for_def all_fonts_def)
  qed
qed

definition no_fonts :: font_state where
  "no_fonts = \<lparr>fs_user = [], fs_plugin = [], fs_user_css = [], fs_plugin_css = []\<rparr>"

theorem effective_font_covers_script_witness:
  "effective_font (set_plugin_fonts [] (set_user_fonts [] no_fonts)) ''rubik'' Hans
     \<in> set (fonts_for (set_plugin_fonts [] (set_user_fonts [] no_fonts)) Hans)"
  using effective_font_covers_script [of no_fonts _ "[]" "[]" "''rubik''" Hans, OF _ refl]
  by (simp add: added_fonts_ok_def no_fonts_def)

section \<open>Addresses stay inside\<close>

text \<open>No file name of the text starts with a dot, so no step of the path goes up.\<close>

fun no_dot_file :: "string \<Rightarrow> bool" where
  "no_dot_file (a # b # s) = (\<not> (a = CHR ''/'' \<and> b = CHR ''.'') \<and> no_dot_file (b # s))"
| "no_dot_file _ = True"

definition url_char :: "char \<Rightarrow> bool" where
  "url_char c \<longleftrightarrow> lower_char c \<in> set (lower_letters @ digits @ ''/._-'')"

lemma no_slash_no_dot_file: "CHR ''/'' \<notin> set u \<Longrightarrow> no_dot_file (u @ r) = no_dot_file r"
proof (induction u)
  case (Cons c u)
  then show ?case by (cases "u @ r") auto
qed simp

text \<open>A path of names is made of \<open>/\<close> and a name that starts otherwise than with a dot.\<close>

definition path_step :: "string \<Rightarrow> bool" where
  "path_step u \<longleftrightarrow> (\<exists>c t. u = CHR ''/'' # c # t \<and> c \<noteq> CHR ''.'' \<and> CHR ''/'' \<notin> set (c # t))"

lemma no_dot_file_step: "path_step u \<Longrightarrow> no_dot_file (u @ r) = no_dot_file r"
proof -
  assume "path_step u"
  then obtain c t where u: "u = CHR ''/'' # c # t" "c \<noteq> CHR ''.''" "CHR ''/'' \<notin> set (c # t)" by (auto simp: path_step_def)
  with no_slash_no_dot_file [of "c # t" r] show ?thesis by simp
qed

lemma no_dot_file_steps: "w \<in> star_of A \<Longrightarrow> (\<And>u. u \<in> A \<Longrightarrow> path_step u) \<Longrightarrow> no_dot_file (w @ r) = no_dot_file r"
  by (induction rule: star_of.induct) (auto simp: no_dot_file_step)

lemma no_dot_file_lower: "no_dot_file (js_lower s) = no_dot_file s"
  by (induction s rule: no_dot_file.induct) (simp_all add: js_lower_def lower_keeps_marks)

lemma url_chars_lower: "list_all url_char (js_lower s) = list_all url_char s"
  by (simp add: js_lower_def url_char_def list_all_length)

lemma letters_no_marks [simp]:
  "CHR ''/'' \<notin> set lower_letters" "CHR ''/'' \<notin> set upper_letters" "CHR ''/'' \<notin> set digits"
  "CHR ''.'' \<notin> set lower_letters" "CHR ''.'' \<notin> set upper_letters" "CHR ''.'' \<notin> set digits"
  by code_simp+

lemma list_all_not: "list_all (\<lambda>c. c \<noteq> x) xs \<longleftrightarrow> x \<notin> set xs"
  by (auto simp: list_all_iff)

lemma name_chars:
  "rx_only (\<lambda>c. c \<noteq> CHR ''/'') file_name" "rx_only (\<lambda>c. c \<noteq> CHR ''/'') plugin_id"
  by (simp_all add: file_name_def plugin_id_def rx_only_between list_all_not)

lemma rx_lang_chars: "rx_lang (rx_chars cs) = (\<lambda>c. [c]) ` set cs"
  by (auto simp: rx_chars_def)

lemma seq_start:
  assumes "s \<in> rx_lang (RSeq (rx_chars cs) r)" "x \<notin> set cs"
  shows "\<exists>c t. s = c # t \<and> c \<noteq> x"
proof -
  from assms(1) obtain c v where "s = [c] @ v" "c \<in> set cs" unfolding rx_lang.simps rx_lang_chars by blast
  with assms(2) show ?thesis by (intro exI [of _ c] exI [of _ v]) auto
qed

lemma name_start:
  "s \<in> rx_lang file_name \<Longrightarrow> \<exists>c t. s = c # t \<and> c \<noteq> CHR ''.''"
  "s \<in> rx_lang plugin_id \<Longrightarrow> \<exists>c t. s = c # t \<and> c \<noteq> CHR ''.''"
  unfolding file_name_def plugin_id_def rx_seqs.simps by (erule seq_start; simp)+

lemma step_of_name:
  assumes "s \<in> rx_lang file_name \<or> s \<in> rx_lang plugin_id"
  shows "path_step (CHR ''/'' # s)"
proof -
  have "\<exists>c t. s = c # t \<and> c \<noteq> CHR ''.''" using assms by (elim disjE) (rule name_start, assumption)+
  then obtain c t where "s = c # t" "c \<noteq> CHR ''.''" by (elim exE conjE)
  moreover have "list_all (\<lambda>c. c \<noteq> CHR ''/'') s"
    using assms by (elim disjE) (rule lang_only [OF name_chars(1)], assumption, rule lang_only [OF name_chars(2)], assumption)
  ultimately show ?thesis by (auto simp: path_step_def list_all_iff)
qed

lemma plugin_file_no_dot:
  assumes "s \<in> rx_lang PLUGIN_FILE"
  shows "no_dot_file (s @ r) = no_dot_file r \<and> js_starts_with (s @ r) ''/plugins/''"
proof -
  from assms obtain i n w where s: "s = ''/plugins/'' @ i @ ''/'' @ n @ w" and i: "i \<in> rx_lang plugin_id"
    and n: "n \<in> rx_lang file_name" and w: "w \<in> star_of {u @ v |u v. u \<in> rx_lang (rx_str ''/'') \<and> v \<in> rx_lang file_name}"
    by (auto simp: PLUGIN_FILE_def)
  have w': "no_dot_file (w @ r) = no_dot_file r"
    by (rule no_dot_file_steps [OF w]) (auto intro: step_of_name)
  have "no_dot_file (s @ r) = no_dot_file (''/plugins'' @ (CHR ''/'' # i) @ (CHR ''/'' # n) @ w @ r)"
    by (simp add: s)
  also have "\<dots> = no_dot_file ((CHR ''/'' # i) @ (CHR ''/'' # n) @ w @ r)"
    by (rule no_dot_file_step) (simp add: path_step_def)
  also have "\<dots> = no_dot_file ((CHR ''/'' # n) @ w @ r)"
    by (rule no_dot_file_step) (simp add: step_of_name i)
  also have "\<dots> = no_dot_file (w @ r)"
    by (rule no_dot_file_step) (simp add: step_of_name n)
  finally show ?thesis by (simp add: s w' js_starts_with_def)
qed

lemma url_chars [simp]:
  "list_all url_char lower_letters" "list_all url_char upper_letters" "list_all url_char digits"
  by code_simp+

lemma url_marks [simp]:
  "url_char (CHR ''/'')" "url_char (CHR ''.'')" "url_char (CHR ''_'')" "url_char (CHR ''-'')"
  by code_simp+

lemmas url_letters = url_chars [unfolded lower_letters_def upper_letters_def digits_def list.pred_inject]

lemma plugin_file_chars: "rx_only url_char PLUGIN_FILE"
  by (simp only: PLUGIN_FILE_def plugin_id_def file_name_def rx_only_between rx_only_seqs rx_only.simps rx_only_chars
    rx_only_str list_all_append list.pred_inject append_Nil append_Cons url_chars url_marks url_letters simp_thms)

end
