(* ===== verification/Format.thy ===== *)
theory Format
  imports Js_Base
begin

text \<open>
  Durations, byte counts and rates as text (lib/format.ts).  Numbers are exact rationals: the
  rounding of \<open>Math.log\<close> near a power of the base is not modelled.  The module state \<open>units\<close>
  is an argument.
\<close>

section \<open>Printing numbers\<close>

text \<open>\<open>padStart(n, "0")\<close>.\<close>

definition pad_start :: "nat \<Rightarrow> string \<Rightarrow> string" where
  "pad_start n s = replicate (n - length s) (CHR ''0'') @ s"

text \<open>\<open>x.toFixed(d)\<close> for \<open>x >= 0\<close>: the nearest multiple of \<open>10 ^ -d\<close>, ties upwards.\<close>

definition to_fixed :: "nat \<Rightarrow> rat \<Rightarrow> string" where
  "to_fixed d x =
     (let n = nat (js_round (x * 10 ^ d)) in
      if d = 0 then nat_str n
      else nat_str (n div 10 ^ d) @ ''.'' @ pad_start d (nat_str (n mod 10 ^ d)))"

lemma nat_str_length: "n < 10 ^ k \<Longrightarrow> 0 < k \<Longrightarrow> length (nat_str n) \<le> k"
proof (induction k arbitrary: n)
  case (Suc k)
  show ?case
  proof (cases "n < 10")
    case True
    then show ?thesis by (subst nat_str.simps) simp
  next
    case False
    with Suc.prems have "0 < k" by (cases k) auto
    moreover have "n div 10 < 10 ^ k" using Suc.prems by (simp add: less_mult_imp_div_less mult.commute)
    ultimately have "length (nat_str (n div 10)) \<le> k" using Suc.IH by blast
    with False show ?thesis by (subst nat_str.simps) simp
  qed
qed simp

lemma length_pad_start: "length (pad_start n s) = max n (length s)"
  by (simp add: pad_start_def)

lemma to_fixed_length:
  assumes "js_round (x * 10 ^ d) < 10 ^ (k + d)" "0 < k"
  shows "length (to_fixed d x) \<le> (if d = 0 then k else k + 1 + d)"
proof -
  let ?n = "nat (js_round (x * 10 ^ d))"
  have n: "?n < 10 ^ (k + d)"
    using assms(1) by (metis nat_less_numeral_power_cancel_iff of_nat_numeral zero_less_numeral zero_less_power nat_less_iff
        not_le nat_0_iff linorder_le_cases)
  show ?thesis
  proof (cases "d = 0")
    case True
    then show ?thesis using n assms(2) by (simp add: to_fixed_def nat_str_length)
  next
    case False
    have "?n div 10 ^ d < 10 ^ k" using n by (simp add: less_mult_imp_div_less power_add)
    then have "length (nat_str (?n div 10 ^ d)) \<le> k" using assms(2) by (rule nat_str_length)
    moreover have "length (nat_str (?n mod 10 ^ d)) \<le> d" using False by (intro nat_str_length) simp_all
    ultimately show ?thesis using False by (simp add: to_fixed_def Let_def length_pad_start max_def)
  qed
qed

lemma js_round_less: "x < of_int n - 1 / 2 \<Longrightarrow> js_round x < n"
  by (simp add: js_round_def floor_less_iff)

lemma js_round_le: "x \<le> of_int n \<Longrightarrow> js_round x \<le> n"
  by (simp add: js_round_def floor_le_iff)

section \<open>Durations\<close>

definition format_duration :: "rat \<Rightarrow> string" where
  "format_duration ms =
     (let total = max 0 \<lfloor>ms / 1000\<rfloor>;
          hours = total div 3600;
          minutes = (total mod 3600) div 60;
          seconds = total mod 60
      in js_join '':'' (map (\<lambda>part. pad_start 2 (nat_str (nat part))) [hours, minutes, seconds]))"

text \<open>Reading \<open>hh:mm:ss\<close> back.\<close>

definition duration_seconds :: "string \<Rightarrow> nat" where
  "duration_seconds s = foldl (\<lambda>n part. 60 * n + digits_val part) 0 (js_split CHR '':'' s)"

lemma digits_val_pad [simp]: "digits_val (pad_start n s) = digits_val s"
proof -
  have "digits_val (replicate k (CHR ''0'') @ s) = digits_val s" for k
  proof (induction k)
    case (Suc k)
    have "digit_val (CHR ''0'') = 0" by (simp add: digit_val_def)
    with Suc show ?case by (simp add: digits_val_def)
  qed simp
  then show ?thesis by (simp add: pad_start_def)
qed

lemma colon_not_in_pad: "CHR '':'' \<notin> set (pad_start n (nat_str k))"
proof -
  have "\<not> is_digit CHR '':''" "\<not> CHR '':'' = CHR ''0''" by (simp_all add: is_digit_def)
  then show ?thesis using nat_str_digits [of k] by (auto simp: pad_start_def)
qed

lemma duration_of_parts:
  "duration_seconds (js_join '':'' [pad_start 2 (nat_str h), pad_start 2 (nat_str m), pad_start 2 (nat_str s)])
     = h * 3600 + m * 60 + s"
proof -
  have "js_split CHR '':'' (js_join '':'' [pad_start 2 (nat_str h), pad_start 2 (nat_str m), pad_start 2 (nat_str s)])
      = [pad_start 2 (nat_str h), pad_start 2 (nat_str m), pad_start 2 (nat_str s)]"
    using colon_not_in_pad by (intro js_split_join) auto
  then show ?thesis by (simp add: duration_seconds_def)
qed

lemma sixty_split: "(t :: nat) div 3600 * 3600 + t mod 3600 div 60 * 60 + t mod 60 = t"
proof -
  have "t mod 3600 div 60 * 60 + t mod 3600 mod 60 = t mod 3600" by (rule div_mult_mod_eq)
  moreover have "t mod 3600 mod 60 = t mod 60" by (rule mod_mod_cancel) simp
  moreover have "t div 3600 * 3600 + t mod 3600 = t" by (rule div_mult_mod_eq)
  ultimately show ?thesis by linarith
qed

section \<open>Byte counts\<close>

datatype rate_unit = BytesRate | BitsRate
datatype size_unit = AutoSize | KB | MB | GB

record unit_choice =
  un_rate :: rate_unit
  un_size :: size_unit

definition UNITS :: "string list" where
  "UNITS = [''B'', ''KB'', ''MB'', ''GB'', ''TB'', ''PB'']"

definition BIT_UNITS :: "string list" where
  "BIT_UNITS = [''bit'', ''Kbit'', ''Mbit'', ''Gbit'', ''Tbit'']"

fun size_unit_name :: "size_unit \<Rightarrow> string" where
  "size_unit_name AutoSize = ''auto''" | "size_unit_name KB = ''KB''"
| "size_unit_name MB = ''MB''" | "size_unit_name GB = ''GB''"

fun size_unit_index :: "size_unit \<Rightarrow> nat" where
  "size_unit_index AutoSize = 0" | "size_unit_index KB = 1"
| "size_unit_index MB = 2" | "size_unit_index GB = 3"

text \<open>\<open>UNITS[i]\<close> inside a template: an index out of range reads \<open>undefined\<close>.\<close>

definition unit_at :: "string list \<Rightarrow> int \<Rightarrow> string" where
  "unit_at us i = (if 0 \<le> i \<and> i < int (length us) then us ! nat i else ''undefined'')"

fun finite_or_zero :: "jsnum \<Rightarrow> rat" where
  "finite_or_zero (Fin q) = q"
| "finite_or_zero _ = 0"

definition decimals_for :: "rat \<Rightarrow> nat" where
  "decimals_for v = (if v \<ge> 100 then 0 else if v \<ge> 10 then 1 else 2)"

definition fixed_bytes :: "jsnum \<Rightarrow> size_unit \<Rightarrow> string" where
  "fixed_bytes bytes u =
     (let v = max 0 (finite_or_zero bytes) / 1024 ^ size_unit_index u
      in to_fixed (decimals_for v) v @ '' '' @ size_unit_name u)"

text \<open>
  \<open>Math.floor(Math.log(x) / Math.log(b))\<close>, cut off at the last unit: for \<open>x >= 1\<close> how many of
  the powers \<open>b ^ 1 ... b ^ n\<close> do not exceed \<open>x\<close>, below 1 the negative exponent.
\<close>

function below_one :: "rat \<Rightarrow> nat" where
  "below_one x = (if 0 < x \<and> x < 1 then Suc (below_one (x * 1024)) else 0)"
  by auto
termination
proof (relation "measure (\<lambda>x. nat \<lceil>1 / x\<rceil>)")
  fix x :: rat
  assume x: "0 < x \<and> x < 1"
  define y where "y = 1 / x"
  have y: "1 < y" "1 / (x * 1024) = y / 1024" using x by (simp_all add: y_def)
  have "\<lceil>y / 1024\<rceil> < \<lceil>y\<rceil>"
  proof (cases "y \<le> 1024")
    case True
    then have "\<lceil>y / 1024\<rceil> \<le> 1" by (simp add: ceiling_le_iff)
    moreover have "1 < \<lceil>y\<rceil>" using y by (simp add: less_ceiling_iff)
    ultimately show ?thesis by (rule le_less_trans)
  next
    case False
    then have "y / 1024 + 1 \<le> y" by simp
    then have "\<lceil>y / 1024 + 1\<rceil> \<le> \<lceil>y\<rceil>" by (rule ceiling_mono)
    then show ?thesis by simp
  qed
  moreover have "0 < \<lceil>y\<rceil>" using y by (simp add: zero_less_ceiling)
  ultimately show "(x * 1024, x) \<in> measure (\<lambda>x. nat \<lceil>1 / x\<rceil>)"
    unfolding in_measure y(2) y_def [symmetric] by simp
qed simp

declare below_one.simps [simp del]

definition powers_within :: "rat \<Rightarrow> nat \<Rightarrow> rat \<Rightarrow> nat" where
  "powers_within b n x = length (filter (\<lambda>k. b ^ k \<le> x) [1..<Suc n])"

definition byte_exponent :: "rat \<Rightarrow> int" where
  "byte_exponent x = (if x < 1 then - int (below_one x) else int (powers_within 1024 5 x))"

definition scaled :: "rat \<Rightarrow> rat \<Rightarrow> int \<Rightarrow> rat" where
  "scaled b x e = (if 0 \<le> e then x / b ^ nat e else x * b ^ nat (- e))"

definition auto_bytes :: "jsnum \<Rightarrow> string" where
  "auto_bytes bytes =
     (case bytes of
        Fin q \<Rightarrow>
          if q \<le> 0 then ''0 B''
          else let e = byte_exponent q;
                   v = scaled 1024 q e;
                   d = (if e = 0 then 0 else decimals_for v)
               in to_fixed d v @ '' '' @ unit_at UNITS e
      | _ \<Rightarrow> ''0 B'')"

definition format_bytes :: "unit_choice \<Rightarrow> jsnum \<Rightarrow> string" where
  "format_bytes u bytes = (if un_size u \<noteq> AutoSize then fixed_bytes bytes (un_size u) else auto_bytes bytes)"

definition format_rate :: "unit_choice \<Rightarrow> jsnum \<Rightarrow> string" where
  "format_rate u bps =
     (if un_rate u = BitsRate then
        (let bits = max 0 (finite_or_zero bps) * 8;
             e = (if bits < 1 then 0 else int (powers_within 1000 4 bits));
             v = scaled 1000 bits e;
             d = (if e = 0 then 0 else decimals_for v)
         in to_fixed d v @ '' '' @ unit_at BIT_UNITS e @ ''/s'')
      else auto_bytes bps @ ''/s'')"

text \<open>
  The scale picked leaves a number below the base, except in the last unit.
\<close>

lemma powers_within_prefix:
  assumes "1 < (b :: rat)"
  shows "powers_within b n x \<le> n
    \<and> (0 < powers_within b n x \<longrightarrow> b ^ powers_within b n x \<le> x)
    \<and> (powers_within b n x < n \<longrightarrow> x < b ^ Suc (powers_within b n x))"
proof (induction n)
  case (Suc n)
  have s: "powers_within b (Suc n) x = powers_within b n x + (if b ^ Suc n \<le> x then 1 else 0)"
    by (simp add: powers_within_def)
  have m: "b ^ k \<le> b ^ j" if "k \<le> j" for k j using assms that by (intro power_increasing) simp_all
  show ?case
  proof (cases "b ^ Suc n \<le> x")
    case True
    have "powers_within b n x = n"
    proof (rule ccontr)
      assume "powers_within b n x \<noteq> n"
      with Suc have "x < b ^ Suc (powers_within b n x)" "Suc (powers_within b n x) \<le> Suc n" by auto
      with m [of "Suc (powers_within b n x)" "Suc n"] True show False by linarith
    qed
    with s True show ?thesis by simp
  next
    case False
    with Suc s show ?thesis by (cases "powers_within b n x = n") auto
  qed
qed (simp add: powers_within_def)

lemma decimals_length:
  assumes "0 \<le> v" "v \<le> 9999"
  shows "length (to_fixed (decimals_for v) v) \<le> 5"
proof -
  consider (a) "v < 10" | (b) "10 \<le> v" "v < 100" | (c) "100 \<le> v" by linarith
  then show ?thesis
  proof cases
    case a
    then have "js_round (v * 10 ^ 2) < 10 ^ (2 + 2)"
      by (intro js_round_less) simp
    from to_fixed_length [OF this] a show ?thesis by (simp add: decimals_for_def)
  next
    case b
    then have "js_round (v * 10 ^ 1) < 10 ^ (3 + 1)"
      by (intro js_round_less) simp
    from to_fixed_length [OF this] b show ?thesis by (simp add: decimals_for_def)
  next
    case c
    have "js_round (v * 10 ^ 0) < 10 ^ (4 + 0)"
      using assms(2) by (intro le_less_trans [OF js_round_le [of _ 9999]]) simp_all
    from to_fixed_length [OF this] c show ?thesis by (simp add: decimals_for_def)
  qed
qed


section \<open>Properties\<close>

text \<open>A duration is shown as hours, minutes and seconds that add up to the whole seconds of it, with
  minutes and seconds below sixty; a negative duration shows as zero.\<close>

theorem format_duration_reads_back:
  "duration_seconds (format_duration ms) = nat \<lfloor>ms / 1000\<rfloor>
    \<and> (\<exists>h m s. format_duration ms = js_join '':'' [h, m, s] \<and> digits_val m < 60 \<and> digits_val s < 60
         \<and> 2 \<le> length h \<and> length m = 2 \<and> length s = 2)"
proof -
  define t where "t = nat \<lfloor>ms / 1000\<rfloor>"
  let ?p = "\<lambda>n :: nat. pad_start 2 (nat_str n)"
  let ?h = "t div 3600" and ?m = "t mod 3600 div 60" and ?s = "t mod 60"
  have "max 0 \<lfloor>ms / 1000\<rfloor> = int t" by (simp add: t_def)
  then have f: "format_duration ms = js_join '':'' [?p ?h, ?p ?m, ?p ?s]"
    by (simp add: format_duration_def nat_div_distrib nat_mod_distrib)
  have d: "duration_seconds (format_duration ms) = t" unfolding f duration_of_parts by (rule sixty_split)
  have m: "?m < 60" "?s < 60" by simp_all
  then have "length (nat_str ?m) \<le> 2" "length (nat_str ?s) \<le> 2" by (intro nat_str_length; simp)+
  then have l: "length (?p ?m) = 2" "length (?p ?s) = 2" "2 \<le> length (?p ?h)"
    by (simp_all only: length_pad_start max_def) simp_all
  have v: "digits_val (?p ?m) < 60" "digits_val (?p ?s) < 60" using m by simp_all
  show ?thesis
    unfolding t_def [symmetric] by (rule conjI [OF d], rule exI [of _ "?p ?h"], rule exI [of _ "?p ?m"], rule exI [of _ "?p ?s"])
      (intro conjI f l v)
qed

text \<open>A byte count of at least one byte is shown in the unit that leaves a number from 1 up to 1024
  (the last unit takes everything larger), and below ten exabytes that number never takes more than
  five characters, so the rows that update every second keep their width.\<close>

theorem auto_bytes_scale_and_width:
  assumes "1 \<le> q" "q < 9999 * 1024 ^ 5"
  shows "\<exists>k < 6. \<exists>number. auto_bytes (Fin q) = number @ '' '' @ UNITS ! k \<and> length number \<le> 5
    \<and> 1 \<le> q / 1024 ^ k \<and> (k < 5 \<longrightarrow> q / 1024 ^ k < 1024)"
proof -
  define k where "k = powers_within 1024 5 q"
  have p: "k \<le> 5" "0 < k \<longrightarrow> 1024 ^ k \<le> q" "k < 5 \<longrightarrow> q < 1024 ^ Suc k"
    using powers_within_prefix [of 1024 5 q] by (simp_all only: k_def) simp_all
  define v where "v = q / 1024 ^ k"
  have v: "1 \<le> v" using p assms(1) by (cases "k = 0") (simp_all add: v_def)
  have v9: "v \<le> 9999"
  proof (cases "k = 5")
    case True
    then show ?thesis using assms(2) by (simp add: v_def)
  next
    case False
    with p have "q < 1024 ^ k * 1024" by simp
    then have "v < 1024" by (simp add: v_def field_simps)
    then show ?thesis by simp
  qed
  define d where "d = (if k = 0 then 0 else decimals_for v)"
  have a: "auto_bytes (Fin q) = to_fixed d v @ '' '' @ UNITS ! k"
    using assms(1) p(1) by (simp add: auto_bytes_def byte_exponent_def scaled_def Let_def d_def v_def unit_at_def UNITS_def k_def)
  have l: "length (to_fixed d v) \<le> 5"
  proof (cases "k = 0")
    case True
    have "js_round (v * 10 ^ 0) < 10 ^ (4 + 0)"
      using v9 by (intro le_less_trans [OF js_round_le [of _ 9999]]) simp_all
    from to_fixed_length [OF this] True show ?thesis by (simp add: d_def)
  next
    case False
    then show ?thesis using decimals_length [of v] v v9 by (simp add: d_def)
  qed
  have "k < 5 \<longrightarrow> v < 1024" using p by (auto simp: v_def field_simps)
  with a l v p(1) show ?thesis by (auto simp: v_def intro!: exI [of _ k])
qed

theorem auto_bytes_scale_and_width_witness:
  "\<exists>k < 6. \<exists>number. auto_bytes (Fin 1536) = number @ '' '' @ UNITS ! k \<and> length number \<le> 5"
  using auto_bytes_scale_and_width [of 1536] by force

text \<open>A rate above zero but below one byte per second - a few bytes over a long gap between two reads
  of the connection list - is shown with the unit \<open>undefined\<close>: the logarithm is negative and the
  index misses the table.\<close>

theorem slow_rate_has_no_unit:
  assumes "0 < q" "q < 1" "un_rate u = BytesRate"
  shows "\<exists>number. format_rate u (Fin q) = number @ '' undefined/s''"
proof -
  have "0 < below_one q" using assms by (simp add: below_one.simps [of q])
  then show ?thesis using assms by (simp add: format_rate_def auto_bytes_def byte_exponent_def unit_at_def Let_def)
qed

theorem slow_rate_has_no_unit_witness:
  "\<exists>number. format_rate \<lparr>un_rate = BytesRate, un_size = AutoSize\<rparr> (Fin (1 / 2)) = number @ '' undefined/s''"
  by (rule slow_rate_has_no_unit) simp_all

end
