(* ===== verification/Appearance.thy ===== *)
theory Appearance
  imports Appearance_Fonts Format
begin

text \<open>
  Appearance preferences (lib/appearance.ts): the layout, custom themes and their pictures, how a
  stored record is rebuilt field by field, and what is put on the page.  A stored record is the
  \<open>json\<close> that parsing gave; numbers are exact rationals where the code has finite doubles.
\<close>

section \<open>Limits\<close>

record limits =
  lm_min :: rat
  lm_max :: rat
  lm_step :: rat
  lm_fallback :: rat

definition lim :: "rat \<Rightarrow> rat \<Rightarrow> rat \<Rightarrow> rat \<Rightarrow> limits" where
  "lim a b s f = \<lparr>lm_min = a, lm_max = b, lm_step = s, lm_fallback = f\<rparr>"

text \<open>The ranges without a fallback of their own take the default of the preference.\<close>

definition RADIUS_LIMITS :: limits where "RADIUS_LIMITS = lim 0 (7/4) (1/40) (5/8)"
definition MOTION_SPEED_LIMITS :: limits where "MOTION_SPEED_LIMITS = lim (1/4) 3 (1/20) 1"
definition MOTION_STAGGER_LIMITS :: limits where "MOTION_STAGGER_LIMITS = lim 0 80 5 20"
definition BLUR_LIMITS :: limits where "BLUR_LIMITS = lim 0 40 1 12"
definition BRIGHTNESS_LIMITS :: limits where "BRIGHTNESS_LIMITS = lim (3/10) (3/2) (1/20) (9/10)"
definition SATURATE_LIMITS :: limits where "SATURATE_LIMITS = lim 0 2 (1/20) 1"
definition DIM_LIMITS :: limits where "DIM_LIMITS = lim 0 (9/10) (1/20) (7/20)"
definition PANEL_LIMITS :: limits where "PANEL_LIMITS = lim (1/5) 1 (1/20) (13/20)"

definition RADII :: "(string \<times> string \<times> string) list" where
  "RADII =
     [(''small'', ''appearance.radius.small'', ''0.375rem''), (''medium'', ''appearance.radius.medium'', ''0.625rem''),
      (''large'', ''appearance.radius.large'', ''0.875rem''), (''round'', ''appearance.radius.round'', ''1.25rem'')]"

definition MOTIONS :: "(string \<times> string \<times> string) list" where
  "MOTIONS =
     [(''slide'', ''appearance.motion.slide'', ''appearance.motion.slide.hint''),
      (''rise'', ''appearance.motion.rise'', ''appearance.motion.rise.hint''),
      (''fade'', ''appearance.motion.fade'', ''appearance.motion.fade.hint''),
      (''none'', ''appearance.motion.none'', ''appearance.motion.none.hint'')]"

section \<open>Custom themes\<close>

datatype mode = Light | Dark

record theme_image =
  im_url :: string
  im_blur :: rat
  im_brightness :: rat
  im_saturate :: rat
  im_dim :: rat
  im_panel :: rat

record custom_theme =
  ct_id :: string
  ct_name :: string
  ct_mode :: mode
  ct_bg_h :: rat
  ct_bg_c :: rat
  ct_bg_l :: rat
  ct_accent_h :: rat
  ct_accent_c :: rat
  ct_image :: "theme_image option"

definition BACKGROUND_URL :: rx where
  "BACKGROUND_URL = rx_nocase (RAlt
     (rx_seqs [rx_str ''/user-files/backgrounds/'', hex16, rx_str ''.'',
        rx_alts [rx_str ''png'', rx_str ''jpg'', rx_str ''webp'', rx_str ''gif'']])
     (rx_seqs [PLUGIN_FILE, rx_str ''.'',
        rx_alts [rx_str ''png'', rx_seqs [rx_str ''jp'', rx_opt (rx_str ''e''), rx_str ''g''], rx_str ''webp'', rx_str ''gif'']]))"

definition default_theme_image :: "string \<Rightarrow> theme_image" where
  "default_theme_image url =
     \<lparr>im_url = url, im_blur = lm_fallback BLUR_LIMITS, im_brightness = lm_fallback BRIGHTNESS_LIMITS,
      im_saturate = lm_fallback SATURATE_LIMITS, im_dim = lm_fallback DIM_LIMITS, im_panel = lm_fallback PANEL_LIMITS\<rparr>"

definition CUSTOM_PREFIX :: string where "CUSTOM_PREFIX = ''custom-''"
definition PLUGIN_THEME_PREFIX :: string where "PLUGIN_THEME_PREFIX = ''plugin:''"
definition CUSTOM_THEME_DARK :: string where "CUSTOM_THEME_DARK = ''custom-dark''"
definition CUSTOM_THEME_LIGHT :: string where "CUSTOM_THEME_LIGHT = ''custom-light''"

definition is_custom_theme_id :: "string option \<Rightarrow> bool" where
  "is_custom_theme_id theme \<longleftrightarrow> theme = Some CUSTOM_THEME_DARK \<or> theme = Some CUSTOM_THEME_LIGHT"

fun custom_class :: "mode \<Rightarrow> string" where
  "custom_class Dark = ''theme-dark-custom''"
| "custom_class Light = ''theme-light-custom''"

definition CUSTOM_THEME_CLASSES :: "(string \<times> string) list" where
  "CUSTOM_THEME_CLASSES = [(CUSTOM_THEME_DARK, custom_class Dark), (CUSTOM_THEME_LIGHT, custom_class Light)]"

fun BACKGROUND_LIGHTNESS :: "mode \<Rightarrow> rat \<times> rat" where
  "BACKGROUND_LIGHTNESS Dark = (0, 3/10)"
| "BACKGROUND_LIGHTNESS Light = (9/10, 1)"

fun ACCENT_LIGHTNESS :: "mode \<Rightarrow> rat" where
  "ACCENT_LIGHTNESS Dark = 39/50"
| "ACCENT_LIGHTNESS Light = 14/25"

text \<open>The knobs, each written to the page as the text of its number.\<close>

definition custom_theme_knobs :: "custom_theme \<Rightarrow> (string \<times> rat) list" where
  "custom_theme_knobs t =
     (let l = ct_bg_l t; dark = (ct_mode t = Dark);
          card = (if dark then l + 7/100 else min 1 (l + 2/100));
          lift = (if dark then l + 13/100 else l - 35/1000)
      in [(''--ui-h'', ct_bg_h t), (''--ui-c'', ct_bg_c t), (''--ui-bg-l'', l), (''--ui-card-l'', min 1 card),
          (''--ui-lift-l'', max 0 lift), (''--brand-l'', ACCENT_LIGHTNESS (ct_mode t)),
          (''--brand-c'', ct_accent_c t), (''--brand-h'', ct_accent_h t)])"

definition knob :: "string \<Rightarrow> custom_theme \<Rightarrow> rat" where
  "knob name t = or_else (map_of (custom_theme_knobs t) name) 0"

text \<open>The swatch's three \<open>oklch\<close> colours: lightness, chroma, hue.\<close>

definition custom_theme_swatch :: "custom_theme \<Rightarrow> (rat \<times> rat \<times> rat) list" where
  "custom_theme_swatch t =
     [(knob ''--ui-bg-l'' t, ct_bg_c t, ct_bg_h t), (knob ''--ui-lift-l'' t, ct_bg_c t, ct_bg_h t),
      (knob ''--brand-l'' t, ct_accent_c t, ct_accent_h t)]"

definition new_custom_theme :: "string \<Rightarrow> mode \<Rightarrow> custom_theme" where
  "new_custom_theme random m =
     \<lparr>ct_id = CUSTOM_PREFIX @ random, ct_name = [], ct_mode = m,
      ct_bg_h = (if m = Dark then 285 else 85), ct_bg_c = (if m = Dark then 2/100 else 1/100),
      ct_bg_l = (if m = Dark then 15/100 else 98/100), ct_accent_h = 70, ct_accent_c = 15/100, ct_image = None\<rparr>"

section \<open>Layout\<close>

record layout_prefs =
  ly_nav :: string
  ly_sidebar :: string
  ly_cockpit :: string
  ly_placement :: string
  ly_order :: "string list"
  ly_download :: bool
  ly_upload :: bool
  ly_latency :: bool
  ly_speed_test :: bool
  ly_width :: string
  ly_proxies :: string
  ly_config :: string

definition NAV_POSITIONS :: "string list" where
  "NAV_POSITIONS = [''top'', ''sidebar-left'', ''sidebar-right'', ''bottom'']"
definition COCKPIT_ALIGNS :: "string list" where "COCKPIT_ALIGNS = [''center'', ''top'']"
definition PLACEMENTS :: "string list" where "PLACEMENTS = [''inside'', ''below'']"
definition METRICS :: "string list" where "METRICS = [''download'', ''upload'', ''latency'']"
definition WIDTHS :: "string list" where "WIDTHS = [''compact'', ''normal'', ''wide'']"
definition CARD_LAYOUTS :: "string list" where "CARD_LAYOUTS = [''list'', ''grid'']"

definition DEFAULT_LAYOUT :: layout_prefs where
  "DEFAULT_LAYOUT =
     \<lparr>ly_nav = ''bottom'', ly_sidebar = ''attached'', ly_cockpit = ''center'', ly_placement = ''inside'',
      ly_order = METRICS, ly_download = True, ly_upload = True, ly_latency = True, ly_speed_test = True,
      ly_width = ''normal'', ly_proxies = ''list'', ly_config = ''list''\<rparr>"

text \<open>\<open>xs.includes(v) ? v : fallback\<close>.\<close>

definition one_of :: "string list \<Rightarrow> json option \<Rightarrow> string \<Rightarrow> string" where
  "one_of xs v fallback = (case v of Some (JStr s) \<Rightarrow> if s \<in> set xs then s else fallback | _ \<Rightarrow> fallback)"

definition bool_or :: "json option \<Rightarrow> bool \<Rightarrow> bool" where
  "bool_or v fallback = (case v of Some (JBool b) \<Rightarrow> b | _ \<Rightarrow> fallback)"

fun metric_of :: "json \<Rightarrow> string list" where
  "metric_of (JStr s) = (if s \<in> set METRICS then [s] else [])"
| "metric_of _ = []"

definition telemetry_order :: "json option \<Rightarrow> string list" where
  "telemetry_order v =
     foldl (\<lambda>out m. if m \<in> set out then out else out @ [m])
       (case v of Some (JArr vs) \<Rightarrow> concat (map metric_of vs) | _ \<Rightarrow> METRICS) METRICS"

text \<open>\<open>v?.k\<close>.\<close>

definition opt_get :: "string \<Rightarrow> json option \<Rightarrow> json option" where
  "opt_get k v = (case v of Some j \<Rightarrow> json_get k j | None \<Rightarrow> None)"

definition sanitize_layout :: "json option \<Rightarrow> layout_prefs" where
  "sanitize_layout raw =
     (case raw of None \<Rightarrow> DEFAULT_LAYOUT
      | Some v \<Rightarrow>
        if \<not> is_object v then DEFAULT_LAYOUT
        else
          \<lparr>ly_nav = one_of NAV_POSITIONS (json_get ''navPosition'' v) (ly_nav DEFAULT_LAYOUT),
           ly_sidebar = (if json_get ''sidebarStyle'' v = Some (JStr ''inset'') then ''inset'' else ''attached''),
           ly_cockpit = one_of COCKPIT_ALIGNS (json_get ''cockpitAlign'' v) (ly_cockpit DEFAULT_LAYOUT),
           ly_placement = one_of PLACEMENTS (json_get ''telemetryPlacement'' v) (ly_placement DEFAULT_LAYOUT),
           ly_order = telemetry_order (json_get ''telemetryOrder'' v),
           ly_download = bool_or (opt_get ''download'' (json_get ''telemetryVisible'' v)) True,
           ly_upload = bool_or (opt_get ''upload'' (json_get ''telemetryVisible'' v)) True,
           ly_latency = bool_or (opt_get ''latency'' (json_get ''telemetryVisible'' v)) True,
           ly_speed_test = bool_or (json_get ''showSpeedTest'' v) (ly_speed_test DEFAULT_LAYOUT),
           ly_width = one_of WIDTHS (json_get ''dashboardWidth'' v) (ly_width DEFAULT_LAYOUT),
           ly_proxies = one_of CARD_LAYOUTS (json_get ''proxiesCardLayout'' v) (ly_proxies DEFAULT_LAYOUT),
           ly_config = one_of CARD_LAYOUTS (json_get ''configCardLayout'' v) (ly_config DEFAULT_LAYOUT)\<rparr>)"

section \<open>Preferences\<close>

record appearance_prefs =
  ap_font :: string
  ap_radius :: string
  ap_radius_custom :: rat
  ap_motion :: string
  ap_motion_speed :: rat
  ap_motion_stagger :: rat
  ap_units :: unit_choice
  ap_stats_chart :: string
  ap_accent :: "(rat \<times> rat) option"
  ap_layout :: layout_prefs
  ap_custom_themes :: "custom_theme list"
  ap_active_custom :: string
  ap_user_fonts :: "user_font list"
  ap_plugin_themes :: "custom_theme list"
  ap_plugin_fonts :: "user_font list"

definition STATS_CHARTS :: "string list" where "STATS_CHARTS = [''both'', ''share'', ''days'']"

definition DEFAULT_APPEARANCE :: appearance_prefs where
  "DEFAULT_APPEARANCE =
     \<lparr>ap_font = ''google-sans'', ap_radius = ''medium'', ap_radius_custom = 5/8, ap_motion = ''fade'',
      ap_motion_speed = 1, ap_motion_stagger = lm_fallback MOTION_STAGGER_LIMITS,
      ap_units = \<lparr>un_rate = BytesRate, un_size = AutoSize\<rparr>, ap_stats_chart = ''both'', ap_accent = None,
      ap_layout = DEFAULT_LAYOUT, ap_custom_themes = [], ap_active_custom = [], ap_user_fonts = [],
      ap_plugin_themes = [], ap_plugin_fonts = []\<rparr>"

definition clamp_json :: "json option \<Rightarrow> rat \<Rightarrow> rat \<Rightarrow> rat \<Rightarrow> rat" where
  "clamp_json value lo hi fallback = clamp_to lo hi (case value of Some (JNum (Fin q)) \<Rightarrow> q | _ \<Rightarrow> fallback)"

definition limit :: "limits \<Rightarrow> json option \<Rightarrow> rat" where
  "limit m value = clamp_json value (lm_min m) (lm_max m) (lm_fallback m)"

definition sanitize_image :: "json option \<Rightarrow> theme_image option" where
  "sanitize_image raw =
     (case raw of None \<Rightarrow> None
      | Some v \<Rightarrow>
        (case json_get ''url'' v of
           Some (JStr url) \<Rightarrow>
             if rx_test BACKGROUND_URL url
             then Some \<lparr>im_url = url, im_blur = limit BLUR_LIMITS (json_get ''blur'' v),
                im_brightness = limit BRIGHTNESS_LIMITS (json_get ''brightness'' v),
                im_saturate = limit SATURATE_LIMITS (json_get ''saturate'' v),
                im_dim = limit DIM_LIMITS (json_get ''dim'' v), im_panel = limit PANEL_LIMITS (json_get ''panel'' v)\<rparr>
             else None
         | _ \<Rightarrow> None))"

definition theme_name :: "json option \<Rightarrow> string" where
  "theme_name v = (case v of Some (JStr s) \<Rightarrow> if js_trim s \<noteq> [] then take 40 s else [] | _ \<Rightarrow> [])"

definition sanitize_theme :: "json \<Rightarrow> string \<Rightarrow> custom_theme option" where
  "sanitize_theme v pre =
     (case json_get ''id'' v of
        Some (JStr i) \<Rightarrow>
          if \<not> js_starts_with i pre \<or> length i > 200 then None
          else (let m = (if json_get ''mode'' v = Some (JStr ''light'') then Light else Dark);
                    range = BACKGROUND_LIGHTNESS m; bg = json_get ''background'' v; accent = json_get ''accent'' v
                in Some
                  \<lparr>ct_id = i, ct_name = theme_name (json_get ''name'' v), ct_mode = m,
                   ct_bg_h = clamp_json (opt_get ''h'' bg) 0 360 285,
                   ct_bg_c = clamp_json (opt_get ''c'' bg) 0 (8/100) (2/100),
                   ct_bg_l = clamp_json (opt_get ''l'' bg) (fst range) (snd range) (if m = Dark then 15/100 else 98/100),
                   ct_accent_h = clamp_json (opt_get ''h'' accent) 0 360 70,
                   ct_accent_c = clamp_json (opt_get ''c'' accent) 0 (25/100) (15/100),
                   ct_image = sanitize_image (json_get ''image'' v)\<rparr>)
      | _ \<Rightarrow> None)"

fun user_font_of :: "json \<Rightarrow> user_font option" where
  "user_font_of v =
     (case (json_get ''id'' v, json_get ''url'' v, json_get ''name'' v) of
        (Some (JStr i), Some (JStr u), Some (JStr n)) \<Rightarrow> Some \<lparr>uf_id = i, uf_name = n, uf_url = u\<rparr>
      | _ \<Rightarrow> None)"

definition array_of :: "json option \<Rightarrow> json list" where
  "array_of v = (case v of Some (JArr vs) \<Rightarrow> vs | _ \<Rightarrow> [])"

text \<open>\<open>raw.customThemes.map(sanitizeTheme)\<close>: \<open>map\<close> hands the function the element and its index, so the
  prefix a theme's id must have is the text of the index.\<close>

definition load_custom_themes :: "json option \<Rightarrow> custom_theme list" where
  "load_custom_themes v = List.map_filter (\<lambda>(i, t). sanitize_theme t (nat_str i)) (enumerate 0 (array_of v))"

definition load_plugin_themes :: "json option \<Rightarrow> custom_theme list" where
  "load_plugin_themes v = List.map_filter (\<lambda>t. sanitize_theme t PLUGIN_THEME_PREFIX) (array_of v)"

definition load_fonts :: "json option \<Rightarrow> user_font list" where
  "load_fonts v = List.map_filter user_font_of (array_of v)"

definition load_units :: "json option \<Rightarrow> unit_choice" where
  "load_units v =
     \<lparr>un_rate = (if opt_get ''rate'' v = Some (JStr ''bits'') then BitsRate else BytesRate),
      un_size = (let size = opt_get ''size'' v
                 in if size = Some (JStr ''KB'') then KB else if size = Some (JStr ''MB'') then MB
                    else if size = Some (JStr ''GB'') then GB else AutoSize)\<rparr>"

definition load_accent :: "json option \<Rightarrow> (rat \<times> rat) option" where
  "load_accent v =
     (case v of Some a \<Rightarrow>
        if is_object a then Some (clamp_json (json_get ''h'' a) 0 360 70, clamp_json (json_get ''c'' a) 0 (25/100) (15/100)) else None
      | None \<Rightarrow> None)"

text \<open>The stored record, \<open>None\<close> when reading or parsing it fails; registering the fonts changes the state.\<close>

definition load_appearance :: "json option \<Rightarrow> font_state \<Rightarrow> appearance_prefs \<times> font_state" where
  "load_appearance stored st =
     (case stored of
        None \<Rightarrow> (DEFAULT_APPEARANCE, st)
      | Some raw \<Rightarrow>
          if \<not> is_object raw then (DEFAULT_APPEARANCE, st)
          else
            (let custom = load_custom_themes (json_get ''customThemes'' raw);
                 fonts = load_fonts (json_get ''userFonts'' raw);
                 plugin = load_plugin_themes (json_get ''pluginThemes'' raw);
                 plugin_fonts = load_fonts (json_get ''pluginFonts'' raw);
                 st' = set_plugin_fonts plugin_fonts (set_user_fonts fonts st)
             in (\<lparr>ap_font = one_of (map fo_id (all_fonts st')) (json_get ''font'' raw) (ap_font DEFAULT_APPEARANCE),
                  ap_radius = (if json_get ''radius'' raw = Some (JStr ''custom'') then ''custom''
                    else one_of (map fst RADII) (json_get ''radius'' raw) (ap_radius DEFAULT_APPEARANCE)),
                  ap_radius_custom = limit RADIUS_LIMITS (json_get ''radiusCustom'' raw),
                  ap_motion = one_of (map fst MOTIONS) (json_get ''motion'' raw) (ap_motion DEFAULT_APPEARANCE),
                  ap_motion_speed = limit MOTION_SPEED_LIMITS (json_get ''motionSpeed'' raw),
                  ap_motion_stagger = limit MOTION_STAGGER_LIMITS (json_get ''motionStagger'' raw),
                  ap_units = load_units (json_get ''units'' raw),
                  ap_stats_chart = one_of STATS_CHARTS (json_get ''statsChart'' raw) (ap_stats_chart DEFAULT_APPEARANCE),
                  ap_accent = load_accent (json_get ''accent'' raw),
                  ap_layout = sanitize_layout (json_get ''layout'' raw),
                  ap_custom_themes = custom,
                  ap_active_custom = one_of (map ct_id (custom @ plugin)) (json_get ''activeCustom'' raw) [],
                  ap_user_fonts = fonts, ap_plugin_themes = plugin, ap_plugin_fonts = plugin_fonts\<rparr>, st')))"

section \<open>Saving\<close>

definition jrat :: "rat \<Rightarrow> json" where "jrat q = JNum (Fin q)"

definition image_json :: "theme_image \<Rightarrow> json" where
  "image_json im = JObj
     [(''url'', JStr (im_url im)), (''blur'', jrat (im_blur im)), (''brightness'', jrat (im_brightness im)),
      (''saturate'', jrat (im_saturate im)), (''dim'', jrat (im_dim im)), (''panel'', jrat (im_panel im))]"

fun mode_name :: "mode \<Rightarrow> string" where
  "mode_name Light = ''light''" | "mode_name Dark = ''dark''"

text \<open>A property that is \<open>undefined\<close> is left out of the text.\<close>

definition theme_json :: "custom_theme \<Rightarrow> json" where
  "theme_json t = JObj
     ([(''id'', JStr (ct_id t)), (''name'', JStr (ct_name t)), (''mode'', JStr (mode_name (ct_mode t))),
       (''background'', JObj [(''h'', jrat (ct_bg_h t)), (''c'', jrat (ct_bg_c t)), (''l'', jrat (ct_bg_l t))]),
       (''accent'', JObj [(''h'', jrat (ct_accent_h t)), (''c'', jrat (ct_accent_c t))])] @
      (case ct_image t of Some im \<Rightarrow> [(''image'', image_json im)] | None \<Rightarrow> []))"

definition layout_json :: "layout_prefs \<Rightarrow> json" where
  "layout_json l = JObj
     [(''navPosition'', JStr (ly_nav l)), (''sidebarStyle'', JStr (ly_sidebar l)), (''cockpitAlign'', JStr (ly_cockpit l)),
      (''telemetryPlacement'', JStr (ly_placement l)), (''telemetryOrder'', JArr (map JStr (ly_order l))),
      (''telemetryVisible'', JObj [(''download'', JBool (ly_download l)), (''upload'', JBool (ly_upload l)),
         (''latency'', JBool (ly_latency l))]),
      (''showSpeedTest'', JBool (ly_speed_test l)), (''dashboardWidth'', JStr (ly_width l)),
      (''proxiesCardLayout'', JStr (ly_proxies l)), (''configCardLayout'', JStr (ly_config l))]"

definition font_json :: "user_font \<Rightarrow> json" where
  "font_json f = JObj [(''id'', JStr (uf_id f)), (''name'', JStr (uf_name f)), (''url'', JStr (uf_url f))]"

fun rate_name :: "rate_unit \<Rightarrow> string" where
  "rate_name BytesRate = ''bytes''" | "rate_name BitsRate = ''bits''"

definition save_appearance :: "appearance_prefs \<Rightarrow> json" where
  "save_appearance p = JObj
     [(''font'', JStr (ap_font p)), (''radius'', JStr (ap_radius p)), (''radiusCustom'', jrat (ap_radius_custom p)),
      (''motion'', JStr (ap_motion p)), (''motionSpeed'', jrat (ap_motion_speed p)),
      (''motionStagger'', jrat (ap_motion_stagger p)),
      (''units'', JObj [(''rate'', JStr (rate_name (un_rate (ap_units p)))), (''size'', JStr (size_unit_name (un_size (ap_units p))))]),
      (''statsChart'', JStr (ap_stats_chart p)),
      (''accent'', case ap_accent p of Some (h, c) \<Rightarrow> JObj [(''h'', jrat h), (''c'', jrat c)] | None \<Rightarrow> JNull),
      (''layout'', layout_json (ap_layout p)), (''customThemes'', JArr (map theme_json (ap_custom_themes p))),
      (''activeCustom'', JStr (ap_active_custom p)), (''userFonts'', JArr (map font_json (ap_user_fonts p))),
      (''pluginThemes'', JArr (map theme_json (ap_plugin_themes p))), (''pluginFonts'', JArr (map font_json (ap_plugin_fonts p)))]"

section \<open>The page\<close>

text \<open>
  The root element's inline properties and data attributes and the layer behind the app.  A
  property's text is the text of its numbers with the unit named here.
\<close>

datatype css = CssText string | CssNum rat | CssUnit rat string

record layer =
  la_url :: string
  la_blur :: rat
  la_brightness :: rat
  la_saturate :: rat

record page =
  pa_style :: "(string, css) omap"
  pa_motion :: "string option"
  pa_backdrop :: bool
  pa_layer :: "layer option"
  pa_units :: unit_choice

definition set_property :: "string \<Rightarrow> css \<Rightarrow> page \<Rightarrow> page" where
  "set_property k v pg = pg\<lparr>pa_style := om_set (pa_style pg) k v\<rparr>"

definition remove_property :: "string \<Rightarrow> page \<Rightarrow> page" where
  "remove_property k pg = pg\<lparr>pa_style := om_delete (pa_style pg) k\<rparr>"

definition KNOB_NAMES :: "string list" where
  "KNOB_NAMES = map fst (custom_theme_knobs (new_custom_theme [] Dark))"

definition active_custom_theme :: "appearance_prefs \<Rightarrow> string option \<Rightarrow> custom_theme option" where
  "active_custom_theme p theme =
     (if \<not> is_custom_theme_id theme then None
      else find (\<lambda>t. ct_id t = ap_active_custom p) (ap_custom_themes p @ ap_plugin_themes p))"

definition radius_value :: "appearance_prefs \<Rightarrow> css" where
  "radius_value p =
     (if ap_radius p = ''custom'' then CssUnit (ap_radius_custom p) ''rem''
      else CssText (snd (snd (or_else (find (\<lambda>r. fst r = ap_radius p) RADII) (RADII ! 1)))))"

definition apply_appearance :: "appearance_prefs \<Rightarrow> script \<Rightarrow> font_state \<Rightarrow> page \<Rightarrow> page" where
  "apply_appearance p s st pg =
     (let pg1 = set_property ''--app-font'' (CssText (fo_family (effective_font st (ap_font p) s))) pg;
          pg2 = (set_property ''--radius'' (radius_value p) pg1)\<lparr>pa_motion := Some (ap_motion p)\<rparr>;
          speed = (if ap_motion_speed p = 0 then 1 else ap_motion_speed p);
          pg3 = set_property ''--motion-scale'' (CssNum (1 / speed)) pg2;
          pg4 = set_property ''--enter-step'' (CssUnit (ap_motion_stagger p) ''ms'') pg3
      in pg4\<lparr>pa_units := ap_units p\<rparr>)"

definition apply_accent :: "(rat \<times> rat) option \<Rightarrow> page \<Rightarrow> page" where
  "apply_accent accent pg =
     (case accent of None \<Rightarrow> pg
      | Some (h, c) \<Rightarrow> set_property ''--brand-c'' (CssNum c) (set_property ''--brand-h'' (CssNum h) pg))"

definition apply_backdrop :: "theme_image option \<Rightarrow> page \<Rightarrow> page" where
  "apply_backdrop picture pg =
     (case picture of
        Some im \<Rightarrow>
          if rx_test BACKGROUND_URL (im_url im)
          then set_property ''--backdrop-dim'' (CssNum (im_dim im)) (set_property ''--backdrop-panel'' (CssNum (im_panel im))
            (pg\<lparr>pa_layer := Some \<lparr>la_url = im_url im, la_blur = im_blur im, la_brightness = im_brightness im,
                  la_saturate = im_saturate im\<rparr>, pa_backdrop := True\<rparr>))
          else remove_property ''--backdrop-dim'' (remove_property ''--backdrop-panel'' (pg\<lparr>pa_layer := None, pa_backdrop := False\<rparr>))
      | None \<Rightarrow> remove_property ''--backdrop-dim'' (remove_property ''--backdrop-panel'' (pg\<lparr>pa_layer := None, pa_backdrop := False\<rparr>)))"

definition apply_custom_theme :: "custom_theme option \<Rightarrow> page \<Rightarrow> page" where
  "apply_custom_theme theme pg =
     (let cleared = apply_backdrop (case theme of Some t \<Rightarrow> ct_image t | None \<Rightarrow> None) (foldl (\<lambda>p k. remove_property k p) pg KNOB_NAMES)
      in case theme of None \<Rightarrow> cleared
         | Some t \<Rightarrow> foldl (\<lambda>p (k, v). set_property k (CssNum v) p) cleared (custom_theme_knobs t))"

section \<open>Well-formed preferences\<close>

definition in_range :: "rat \<times> rat \<Rightarrow> rat \<Rightarrow> bool" where
  "in_range r q \<longleftrightarrow> fst r \<le> q \<and> q \<le> snd r"

definition in_limits :: "limits \<Rightarrow> rat \<Rightarrow> bool" where
  "in_limits m q = in_range (lm_min m, lm_max m) q"

definition image_ok :: "theme_image \<Rightarrow> bool" where
  "image_ok im \<longleftrightarrow> rx_test BACKGROUND_URL (im_url im) \<and> in_limits BLUR_LIMITS (im_blur im)
     \<and> in_limits BRIGHTNESS_LIMITS (im_brightness im) \<and> in_limits SATURATE_LIMITS (im_saturate im)
     \<and> in_limits DIM_LIMITS (im_dim im) \<and> in_limits PANEL_LIMITS (im_panel im)"

definition theme_ok :: "custom_theme \<Rightarrow> bool" where
  "theme_ok t \<longleftrightarrow> length (ct_id t) \<le> 200 \<and> length (ct_name t) \<le> 40
     \<and> in_range (0, 360) (ct_bg_h t) \<and> in_range (0, 8/100) (ct_bg_c t) \<and> in_range (BACKGROUND_LIGHTNESS (ct_mode t)) (ct_bg_l t)
     \<and> in_range (0, 360) (ct_accent_h t) \<and> in_range (0, 25/100) (ct_accent_c t)
     \<and> pred_option image_ok (ct_image t)"

definition layout_ok :: "layout_prefs \<Rightarrow> bool" where
  "layout_ok l \<longleftrightarrow> ly_nav l \<in> set NAV_POSITIONS \<and> ly_sidebar l \<in> {''inset'', ''attached''} \<and> ly_cockpit l \<in> set COCKPIT_ALIGNS
     \<and> ly_placement l \<in> set PLACEMENTS \<and> set (ly_order l) = set METRICS \<and> ly_width l \<in> set WIDTHS
     \<and> ly_proxies l \<in> set CARD_LAYOUTS \<and> ly_config l \<in> set CARD_LAYOUTS"

definition prefs_ok :: "font_state \<Rightarrow> appearance_prefs \<Rightarrow> bool" where
  "prefs_ok st p \<longleftrightarrow>
     ap_font p \<in> fo_id ` set (all_fonts st) \<and> ap_radius p \<in> set (''custom'' # map fst RADII)
     \<and> in_limits RADIUS_LIMITS (ap_radius_custom p) \<and> ap_motion p \<in> set (map fst MOTIONS)
     \<and> in_limits MOTION_SPEED_LIMITS (ap_motion_speed p) \<and> in_limits MOTION_STAGGER_LIMITS (ap_motion_stagger p)
     \<and> ap_stats_chart p \<in> set STATS_CHARTS
     \<and> pred_option (\<lambda>(h, c). in_range (0, 360) h \<and> in_range (0, 25/100) c) (ap_accent p)
     \<and> layout_ok (ap_layout p) \<and> list_all theme_ok (ap_custom_themes p @ ap_plugin_themes p)
     \<and> list_all (\<lambda>t. js_starts_with (ct_id t) PLUGIN_THEME_PREFIX) (ap_plugin_themes p)
     \<and> (ap_active_custom p = [] \<or> ap_active_custom p \<in> ct_id ` set (ap_custom_themes p @ ap_plugin_themes p))"

lemma clamp_json_within: "lo \<le> hi \<Longrightarrow> in_range (lo, hi) (clamp_json v lo hi f)"
  by (simp add: in_range_def clamp_json_def)

lemma clamp_json_jrat: "in_range (lo, hi) q \<Longrightarrow> clamp_json (Some (jrat q)) lo hi f = q"
  by (simp add: in_range_def clamp_json_def jrat_def)

lemmas limits_defs = RADIUS_LIMITS_def MOTION_SPEED_LIMITS_def MOTION_STAGGER_LIMITS_def BLUR_LIMITS_def
  BRIGHTNESS_LIMITS_def SATURATE_LIMITS_def DIM_LIMITS_def PANEL_LIMITS_def lim_def

lemma limit_in: "lm_min m \<le> lm_max m \<Longrightarrow> in_limits m (limit m v)"
  by (simp add: in_limits_def limit_def clamp_json_within)

lemma limit_jrat: "in_limits m q \<Longrightarrow> limit m (Some (jrat q)) = q"
  by (simp add: in_limits_def limit_def clamp_json_jrat)

lemma limits_ordered [simp]:
  "lm_min RADIUS_LIMITS \<le> lm_max RADIUS_LIMITS" "lm_min MOTION_SPEED_LIMITS \<le> lm_max MOTION_SPEED_LIMITS"
  "lm_min MOTION_STAGGER_LIMITS \<le> lm_max MOTION_STAGGER_LIMITS" "lm_min BLUR_LIMITS \<le> lm_max BLUR_LIMITS"
  "lm_min BRIGHTNESS_LIMITS \<le> lm_max BRIGHTNESS_LIMITS" "lm_min SATURATE_LIMITS \<le> lm_max SATURATE_LIMITS"
  "lm_min DIM_LIMITS \<le> lm_max DIM_LIMITS" "lm_min PANEL_LIMITS \<le> lm_max PANEL_LIMITS"
  by (simp_all add: limits_defs)

lemma one_of_in: "one_of xs v f \<in> insert f (set xs)"
  by (auto simp: one_of_def split: option.splits json.splits)

lemma one_of_member: "f \<in> set xs \<Longrightarrow> one_of xs v f \<in> set xs"
  using one_of_in [of xs v f] by auto

lemma one_of_JStr: "s \<in> set xs \<Longrightarrow> one_of xs (Some (JStr s)) f = s"
  by (simp add: one_of_def)

lemma sanitize_image_ok: "sanitize_image v = Some im \<Longrightarrow> image_ok im"
  by (auto simp: sanitize_image_def image_ok_def limit_in split: option.splits json.splits if_splits)

lemma theme_name_length: "length (theme_name v) \<le> 40"
  by (auto simp: theme_name_def split: option.splits json.splits)

lemma sanitize_theme_ok:
  assumes "sanitize_theme v pre = Some t"
  shows "theme_ok t \<and> js_starts_with (ct_id t) pre"
proof -
  have range: "fst (BACKGROUND_LIGHTNESS m) \<le> snd (BACKGROUND_LIGHTNESS m)" for m by (cases m) simp_all
  have "pred_option image_ok (sanitize_image w)" for w
    using sanitize_image_ok [of w] by (cases "sanitize_image w") simp_all
  moreover have "in_range r (clamp_json w (fst r) (snd r) f)" if "fst r \<le> snd r" for r w f
    using clamp_json_within [OF that] by simp
  ultimately show ?thesis using assms range
    by (auto simp: sanitize_theme_def Let_def theme_ok_def theme_name_length clamp_json_within
      split: option.splits json.splits if_splits)
qed

lemma order_fold_set:
  "set (foldl (\<lambda>out m. if m \<in> set out then out else out @ [m]) xs ms) = set xs \<union> set ms"
  by (induction ms arbitrary: xs) auto

lemma metrics_of_sub: "set (concat (map metric_of vs)) \<subseteq> set METRICS"
proof -
  have "set (metric_of v) \<subseteq> set METRICS" for v by (cases v) auto
  then show ?thesis by auto
qed

lemma telemetry_order_set: "set (telemetry_order v) = set METRICS"
  using metrics_of_sub by (auto simp: telemetry_order_def order_fold_set split: option.splits json.splits)

lemma default_layout_ok: "layout_ok DEFAULT_LAYOUT"
  by (simp add: layout_ok_def DEFAULT_LAYOUT_def NAV_POSITIONS_def COCKPIT_ALIGNS_def PLACEMENTS_def WIDTHS_def CARD_LAYOUTS_def)

lemma sanitize_layout_ok: "layout_ok (sanitize_layout v)"
proof (cases "\<exists>j. v = Some j \<and> is_object j")
  case True
  then obtain j where "v = Some j" "is_object j" by blast
  moreover note d = default_layout_ok [unfolded layout_ok_def]
  ultimately show ?thesis by (simp add: sanitize_layout_def layout_ok_def one_of_member telemetry_order_set)
next
  case False
  then have "sanitize_layout v = DEFAULT_LAYOUT" by (auto simp: sanitize_layout_def split: option.splits)
  then show ?thesis by (simp add: default_layout_ok)
qed

lemma default_prefs_ok: "prefs_ok st DEFAULT_APPEARANCE"
  by (simp add: prefs_ok_def DEFAULT_APPEARANCE_def default_layout_ok in_limits_def in_range_def limits_defs
    all_fonts_def FONTS_def font_def RADII_def MOTIONS_def STATS_CHARTS_def)

lemma load_themes_ok:
  "list_all theme_ok (load_custom_themes v)" "list_all theme_ok (load_plugin_themes v)"
  "list_all (\<lambda>t. js_starts_with (ct_id t) PLUGIN_THEME_PREFIX) (load_plugin_themes v)"
  using sanitize_theme_ok
  by (fastforce simp: load_custom_themes_def load_plugin_themes_def list_all_iff map_filter_def)+

lemma load_accent_ok: "pred_option (\<lambda>(h, c). in_range (0, 360) h \<and> in_range (0, 25/100) c) (load_accent v)"
  by (auto simp: load_accent_def intro!: clamp_json_within split: option.splits)

text \<open>C25: Whatever is stored, what is loaded is well formed: every number lies in the range of its setting,
  every choice is one on offer (the font among those on offer once the stored fonts are
  registered), the layout shows each metric, every theme and picture is within the limits a theme
  allows, and the active theme is a loaded one or none.\<close>

theorem loaded_prefs_well_formed: "prefs_ok (snd (load_appearance stored st)) (fst (load_appearance stored st))"
proof (cases "\<exists>raw. stored = Some raw \<and> is_object raw")
  case False
  then have "load_appearance stored st = (DEFAULT_APPEARANCE, st)"
    by (auto simp: load_appearance_def split: option.splits)
  then show ?thesis by (simp add: default_prefs_ok)
next
  case True
  then obtain raw where r: "stored = Some raw" "is_object raw" by blast
  note d = default_prefs_ok [unfolded prefs_ok_def]
  have font: "one_of (map fo_id (all_fonts s)) v (ap_font DEFAULT_APPEARANCE) \<in> fo_id ` set (all_fonts s)" for s v
    using one_of_member [of "ap_font DEFAULT_APPEARANCE" "map fo_id (all_fonts s)" v] d [of s] by auto
  have active: "one_of (map ct_id ts @ map ct_id us) v [] = [] \<or>
      one_of (map ct_id ts @ map ct_id us) v [] \<in> ct_id ` (set ts \<union> set us)" for ts us v
    using one_of_in [of "map ct_id ts @ map ct_id us" v "[]"] by (auto simp: image_Un)
  have radius: "ap_radius DEFAULT_APPEARANCE \<in> set (map fst RADII)"
    by (simp add: DEFAULT_APPEARANCE_def RADII_def)
  from r show ?thesis using one_of_member [OF radius] d
    by (simp only: load_appearance_def option.case if_False not_True_eq_False Let_def fst_conv snd_conv prefs_ok_def
      appearance_prefs.simps font limit_in limits_ordered load_accent_ok sanitize_layout_ok load_themes_ok
      list_all_append map_append active set_append one_of_member simp_thms) (simp add: one_of_member)
qed

section \<open>The page never keeps another theme\<close>

lemma style_set: "om_get (pa_style (set_property k v pg)) j = (if j = k then Some v else om_get (pa_style pg) j)"
  by (simp add: set_property_def om_get_set)

lemma style_remove: "om_get (pa_style (remove_property k pg)) j = (if j = k then None else om_get (pa_style pg) j)"
  by (simp add: remove_property_def om_get_delete)

lemma style_removed:
  "om_get (pa_style (foldl (\<lambda>p k. remove_property k p) pg ks)) j = (if j \<in> set ks then None else om_get (pa_style pg) j)"
  by (induction ks arbitrary: pg) (auto simp: style_remove)

lemma style_written:
  assumes "distinct (map fst kvs)"
  shows "om_get (pa_style (foldl (\<lambda>p (k, v). set_property k (CssNum v) p) pg kvs)) j
     = (case map_of kvs j of Some v \<Rightarrow> Some (CssNum v) | None \<Rightarrow> om_get (pa_style pg) j)"
  using assms
proof (induction kvs arbitrary: pg)
  case (Cons kv kvs)
  obtain k v where kv: "kv = (k, v)" by (cases kv)
  show ?case
  proof (cases "j = k")
    case True
    with Cons.prems kv have "map_of kvs j = None" by (simp add: map_of_eq_None_iff)
    with Cons kv True show ?thesis by (simp add: style_set)
  next
    case False
    with Cons kv show ?thesis by (simp add: style_set split: option.splits)
  qed
qed simp

lemma backdrop_style:
  "k \<noteq> ''--backdrop-dim'' \<Longrightarrow> k \<noteq> ''--backdrop-panel'' \<Longrightarrow>
     om_get (pa_style (apply_backdrop im pg)) k = om_get (pa_style pg) k"
  by (simp add: apply_backdrop_def style_set style_remove split: option.splits)

lemma knobs_distinct: "distinct (map fst (custom_theme_knobs t))"
  by (simp add: custom_theme_knobs_def Let_def)

lemma knob_names: "map fst (custom_theme_knobs t) = KNOB_NAMES"
  by (simp add: custom_theme_knobs_def KNOB_NAMES_def Let_def)

lemma no_backdrop_knob: "k \<in> set KNOB_NAMES \<Longrightarrow> k \<noteq> ''--backdrop-dim'' \<and> k \<noteq> ''--backdrop-panel''"
  by (auto simp: custom_theme_knobs_def KNOB_NAMES_def Let_def)

lemma applied_knob:
  assumes "k \<in> set KNOB_NAMES"
  shows "om_get (pa_style (apply_custom_theme theme pg)) k
    = (case theme of Some t \<Rightarrow> map_option CssNum (map_of (custom_theme_knobs t) k) | None \<Rightarrow> None)"
proof -
  note b = backdrop_style [OF no_backdrop_knob [OF assms, THEN conjunct1] no_backdrop_knob [OF assms, THEN conjunct2]]
  have cleared: "om_get (pa_style (apply_backdrop im (foldl (\<lambda>p k. remove_property k p) pg KNOB_NAMES))) k = None" for im
    using assms by (simp only: b style_removed if_True)
  show ?thesis
  proof (cases theme)
    case None
    with cleared show ?thesis by (simp add: apply_custom_theme_def)
  next
    case (Some t)
    have "apply_custom_theme theme pg = foldl (\<lambda>p (k, v). set_property k (CssNum v) p)
        (apply_backdrop (ct_image t) (foldl (\<lambda>p k. remove_property k p) pg KNOB_NAMES)) (custom_theme_knobs t)"
      unfolding apply_custom_theme_def Some Let_def option.case by (rule refl)
    then have "om_get (pa_style (apply_custom_theme theme pg)) k =
        (case map_of (custom_theme_knobs t) k of Some v \<Rightarrow> Some (CssNum v) | None \<Rightarrow> None)"
      by (simp only: style_written [OF knobs_distinct] cleared)
    then show ?thesis unfolding Some option.case by (cases "map_of (custom_theme_knobs t) k") simp_all
  qed
qed

lemma property_keeps [simp]:
  "pa_backdrop (set_property k v pg) = pa_backdrop pg" "pa_layer (set_property k v pg) = pa_layer pg"
  "pa_backdrop (remove_property k pg) = pa_backdrop pg" "pa_layer (remove_property k pg) = pa_layer pg"
  by (simp_all add: set_property_def remove_property_def)

lemma written_keeps:
  "pa_backdrop (foldl (\<lambda>p (k, v). set_property k (CssNum v) p) pg kvs) = pa_backdrop pg"
  "pa_layer (foldl (\<lambda>p (k, v). set_property k (CssNum v) p) pg kvs) = pa_layer pg"
  by (induction kvs arbitrary: pg) (simp_all split: prod.split)

lemma backdrop_layer:
  "map_option la_url (pa_layer (apply_backdrop picture pg))
     = (case picture of Some im \<Rightarrow> if rx_test BACKGROUND_URL (im_url im) then Some (im_url im) else None | None \<Rightarrow> None)"
  "pa_backdrop (apply_backdrop picture pg) = (pa_layer (apply_backdrop picture pg) \<noteq> None)"
  by (simp_all add: apply_backdrop_def split: option.split)

text \<open>After a custom theme is put on the page or taken off, the knobs on the page are exactly those of
  that theme, or none, and the layer behind the app is there exactly when the theme has a picture
  whose address is allowed, whatever was on the page before.\<close>

theorem page_shows_only_active_theme:
  "map (om_get (pa_style (apply_custom_theme theme pg))) KNOB_NAMES
     = (case theme of Some t \<Rightarrow> map (\<lambda>(k, v). Some (CssNum v)) (custom_theme_knobs t)
        | None \<Rightarrow> replicate (length KNOB_NAMES) None)
   \<and> map_option la_url (pa_layer (apply_custom_theme theme pg))
     = (case Option.bind theme ct_image of
          Some im \<Rightarrow> if rx_test BACKGROUND_URL (im_url im) then Some (im_url im) else None | None \<Rightarrow> None)
   \<and> pa_backdrop (apply_custom_theme theme pg) = (pa_layer (apply_custom_theme theme pg) \<noteq> None)"
proof (intro conjI)
  show "map (om_get (pa_style (apply_custom_theme theme pg))) KNOB_NAMES
     = (case theme of Some t \<Rightarrow> map (\<lambda>(k, v). Some (CssNum v)) (custom_theme_knobs t)
        | None \<Rightarrow> replicate (length KNOB_NAMES) None)"
  proof (cases theme)
    case None
    then have "map (om_get (pa_style (apply_custom_theme theme pg))) KNOB_NAMES = map (\<lambda>k. None) KNOB_NAMES"
      by (simp add: applied_knob)
    with None show ?thesis by (simp add: map_replicate_const)
  next
    case (Some t)
    have look: "map_of (custom_theme_knobs t) k = Some v" if "(k, v) \<in> set (custom_theme_knobs t)" for k v
      using that knobs_distinct by (rule_tac map_of_is_SomeI)
    have get: "om_get (pa_style (apply_custom_theme theme pg)) k = Some (CssNum v)"
      if "(k, v) \<in> set (custom_theme_knobs t)" for k v
      proof -
      have "k \<in> set KNOB_NAMES" using imageI [OF that, of fst] by (simp only: fst_conv set_map [symmetric] knob_names)
      with Some look [OF that] show ?thesis by (simp add: applied_knob)
    qed
    have "map (om_get (pa_style (apply_custom_theme theme pg))) (map fst (custom_theme_knobs t))
        = map (\<lambda>(k, v). Some (CssNum v)) (custom_theme_knobs t)"
      unfolding map_map using get by (intro map_cong) auto
    with Some show ?thesis by (simp only: knob_names option.case)
  qed
  show "map_option la_url (pa_layer (apply_custom_theme theme pg))
     = (case Option.bind theme ct_image of
          Some im \<Rightarrow> if rx_test BACKGROUND_URL (im_url im) then Some (im_url im) else None | None \<Rightarrow> None)"
    by (cases theme) (simp_all only: apply_custom_theme_def Let_def option.case written_keeps backdrop_layer bind.simps)
  show "pa_backdrop (apply_custom_theme theme pg) = (pa_layer (apply_custom_theme theme pg) \<noteq> None)"
    by (cases theme) (simp_all only: apply_custom_theme_def Let_def option.case written_keeps backdrop_layer(2))
qed

text \<open>In a well-formed custom theme the surfaces step away from the page towards the text: in a dark theme
  page, card and raised surface get strictly lighter, in a light one the raised surface is darker
  than the page and the card at least as light, and no lightness leaves 0 to 1.\<close>

theorem surfaces_step_from_page:
  assumes "theme_ok t"
  shows "(if ct_mode t = Dark then knob ''--ui-bg-l'' t < knob ''--ui-card-l'' t \<and> knob ''--ui-card-l'' t < knob ''--ui-lift-l'' t
      else knob ''--ui-lift-l'' t < knob ''--ui-bg-l'' t \<and> knob ''--ui-bg-l'' t \<le> knob ''--ui-card-l'' t)
    \<and> list_all (\<lambda>k. 0 \<le> knob k t \<and> knob k t \<le> 1) [''--ui-bg-l'', ''--ui-card-l'', ''--ui-lift-l'', ''--brand-l'']"
  using assms
  by (cases "ct_mode t") (auto simp: theme_ok_def in_range_def knob_def custom_theme_knobs_def Let_def)

theorem surfaces_step_from_page_witness:
  "knob ''--ui-card-l'' (new_custom_theme ''1'' Dark) < knob ''--ui-lift-l'' (new_custom_theme ''1'' Dark)"
proof -
  have ok: "theme_ok (new_custom_theme ''1'' Dark)"
    by (simp add: theme_ok_def new_custom_theme_def in_range_def CUSTOM_PREFIX_def)
  have dark: "ct_mode (new_custom_theme ''1'' Dark) = Dark" by (simp add: new_custom_theme_def)
  from surfaces_step_from_page [OF ok] dark show ?thesis by simp
qed

section \<open>Pictures stay inside the app's files\<close>

lemma lang_seq_chars: "s \<in> rx_lang (RSeq (rx_chars cs) r) \<longleftrightarrow> (\<exists>c u. s = c # u \<and> c \<in> set cs \<and> u \<in> rx_lang r)"
  by (auto simp: rx_lang_chars image_iff) (metis append_Cons append_Nil)

lemma rx_times_chars: "s \<in> rx_lang (rx_times n (rx_chars cs)) \<longleftrightarrow> length s = n \<and> set s \<subseteq> set cs"
proof (induction n arbitrary: s)
  case (Suc n)
  have "rx_times (Suc n) (rx_chars cs) = RSeq (rx_chars cs) (rx_times n (rx_chars cs))" by (simp add: rx_times_def)
  with Suc show ?case by (auto simp: lang_seq_chars length_Suc_conv simp del: rx_lang.simps)
qed (auto simp: rx_times_def)

definition own_picture :: rx where
  "own_picture = rx_seqs [rx_str ''/user-files/backgrounds/'', hex16, rx_str ''.'',
     rx_alts [rx_str ''png'', rx_str ''jpg'', rx_str ''webp'', rx_str ''gif'']]"

definition plugin_picture :: rx where
  "plugin_picture = rx_seqs [PLUGIN_FILE, rx_str ''.'',
     rx_alts [rx_str ''png'', rx_seqs [rx_str ''jp'', rx_opt (rx_str ''e''), rx_str ''g''], rx_str ''webp'', rx_str ''gif'']]"

lemma BACKGROUND_URL_split: "BACKGROUND_URL = rx_nocase (RAlt own_picture plugin_picture)"
  by (simp only: BACKGROUND_URL_def own_picture_def plugin_picture_def)

lemma ending_no_slash: "CHR ''/'' \<notin> set e \<Longrightarrow> no_dot_file (''.'' @ e)"
  using no_slash_no_dot_file [of "''.'' @ e" "[]"] by simp

lemma picture_endings:
  "rx_only (\<lambda>c. c \<noteq> CHR ''/'') (rx_alts [rx_str ''png'', rx_str ''jpg'', rx_str ''webp'', rx_str ''gif''])"
  "rx_only (\<lambda>c. c \<noteq> CHR ''/'') (rx_alts [rx_str ''png'', rx_seqs [rx_str ''jp'', rx_opt (rx_str ''e''), rx_str ''g''], rx_str ''webp'', rx_str ''gif''])"
  by simp_all

lemma own_picture_path:
  assumes "t \<in> rx_lang own_picture"
  shows "no_dot_file t \<and> js_starts_with t ''/user-files/backgrounds/''"
proof -
  from assms obtain h e where t: "t = ''/user-files/backgrounds/'' @ h @ ''.'' @ e"
    and h: "h \<in> rx_lang hex16" and e: "e \<in> rx_lang (rx_alts [rx_str ''png'', rx_str ''jpg'', rx_str ''webp'', rx_str ''gif''])"
    unfolding own_picture_def rx_seqs.simps rx_lang.simps(4) [of "rx_str _"] rx_lang_str
    by (simp del: rx_alts.simps add: rx_lang.simps(4)) blast
  from h have "length h = 16" "set h \<subseteq> set ''abcdef0123456789''" by (simp_all only: rx_times_chars)
  then obtain c u where "h = c # u" "c \<noteq> CHR ''.''" "CHR ''/'' \<notin> set h" by (cases h) auto
  then have step: "path_step (CHR ''/'' # h)" by (auto simp: path_step_def)
  have "CHR ''/'' \<notin> set e" using lang_only [OF picture_endings(1) e] by (simp add: list_all_not)
  have "no_dot_file t = no_dot_file (''/user-files'' @ ''/backgrounds'' @ (CHR ''/'' # h) @ ''.'' @ e)" by (simp add: t)
  also have "\<dots> = no_dot_file (''/backgrounds'' @ (CHR ''/'' # h) @ ''.'' @ e)"
    by (rule no_dot_file_step) (simp add: path_step_def)
  also have "\<dots> = no_dot_file ((CHR ''/'' # h) @ ''.'' @ e)"
    by (rule no_dot_file_step) (simp add: path_step_def)
  also have "\<dots> = no_dot_file (''.'' @ e)" by (rule no_dot_file_step [OF step])
  finally show ?thesis using ending_no_slash [OF \<open>CHR ''/'' \<notin> set e\<close>] by (simp only: t js_starts_with_append simp_thms)
qed

lemma plugin_picture_path:
  assumes "t \<in> rx_lang plugin_picture"
  shows "no_dot_file t \<and> js_starts_with t ''/plugins/''"
proof -
  from assms obtain f e where t: "t = f @ ''.'' @ e" and f: "f \<in> rx_lang PLUGIN_FILE"
    and e: "e \<in> rx_lang (rx_alts [rx_str ''png'', rx_seqs [rx_str ''jp'', rx_opt (rx_str ''e''), rx_str ''g''], rx_str ''webp'', rx_str ''gif''])"
    unfolding plugin_picture_def rx_seqs.simps
    by (simp del: rx_alts.simps rx_seqs.simps add: rx_lang.simps(4)) blast
  have "CHR ''/'' \<notin> set e" using lang_only [OF picture_endings(2) e] by (simp add: list_all_not)
  with plugin_file_no_dot [OF f, of "''.'' @ e"] ending_no_slash [of e] show ?thesis by (simp only: t simp_thms)
qed

lemma own_picture_chars: "rx_only url_char own_picture"
  by (simp only: own_picture_def rx_only_seqs rx_only_alts rx_only.simps rx_only_chars rx_only_times rx_only_str
    list_all_append list.pred_inject append_Nil append_Cons url_chars url_marks url_letters simp_thms)

lemma plugin_picture_chars: "rx_only url_char plugin_picture"
  by (simp only: plugin_picture_def plugin_file_chars rx_only_seqs rx_only_alts rx_only.simps rx_only_more rx_only_str
    list_all_append list.pred_inject append_Nil append_Cons url_chars url_marks url_letters simp_thms)

text \<open>C26: A picture that passes the check is a file of the app's own backgrounds or of a plugin: the address
  starts with that folder, no step of it goes up, and it is made of letters, digits and the marks
  slash, dot, underscore and hyphen only, so it cannot end the text \<open>url("...")\<close> it is put into.\<close>

theorem pictures_stay_inside:
  assumes "sanitize_image v = Some im"
  shows "list_all url_char (im_url im) \<and> no_dot_file (im_url im) \<and>
    (js_starts_with (js_lower (im_url im)) ''/user-files/backgrounds/'' \<or> js_starts_with (js_lower (im_url im)) ''/plugins/'')"
proof -
  from sanitize_image_ok [OF assms] have "im_url im \<in> rx_lang BACKGROUND_URL" by (simp add: image_ok_def rx_test_lang)
  then obtain t where t: "t \<in> rx_lang own_picture \<or> t \<in> rx_lang plugin_picture" and low: "js_lower (im_url im) = js_lower t"
    unfolding BACKGROUND_URL_split using nocase_lang by (metis UnE rx_lang.simps(5))
  have chars: "list_all url_char t" using t lang_only [OF own_picture_chars] lang_only [OF plugin_picture_chars] by metis
  have path: "no_dot_file t \<and> (js_starts_with t ''/user-files/backgrounds/'' \<or> js_starts_with t ''/plugins/'')"
    using t own_picture_path plugin_picture_path by metis
  have lower: "js_starts_with (js_lower t) (js_lower p)" if "js_starts_with t p" for p
    using that by (auto simp: js_starts_with_iff)
  have "js_lower ''/user-files/backgrounds/'' = ''/user-files/backgrounds/''" "js_lower ''/plugins/'' = ''/plugins/''"
    by code_simp+
  with lower [of "''/user-files/backgrounds/''"] lower [of "''/plugins/''"] path
  have "js_starts_with (js_lower t) ''/user-files/backgrounds/'' \<or> js_starts_with (js_lower t) ''/plugins/''" by metis
  with chars path low show ?thesis by (metis no_dot_file_lower url_chars_lower)
qed

definition sample_picture :: json where
  "sample_picture = JObj [(''url'', JStr ''/user-files/backgrounds/0123456789abcdef.png''), (''blur'', jrat 99)]"

lemma star_of_mono: "s \<in> star_of A \<Longrightarrow> A \<subseteq> B \<Longrightarrow> s \<in> star_of B"
  by (induction rule: star_of.induct) (auto intro: star_of.intros)

lemma lang_nocase: "rx_lang r \<subseteq> rx_lang (rx_nocase r)"
proof (induction r)
  case (RStar r)
  then show ?case using star_of_mono by auto
qed auto

lemma own_picture_intro:
  assumes "length h = 16" "set h \<subseteq> set ''abcdef0123456789''"
  shows "rx_test BACKGROUND_URL (''/user-files/backgrounds/'' @ h @ ''.png'')"
proof -
  have h: "h \<in> rx_lang hex16" using assms by (simp only: rx_times_chars simp_thms)
  have seq: "u @ v \<in> rx_lang (RSeq a b)" if "u \<in> rx_lang a" "v \<in> rx_lang b" for u v a b
    using that by auto
  have png: "''.png'' \<in> rx_lang (RSeq (rx_str ''.'') (RSeq (rx_alts [rx_str ''png'', rx_str ''jpg'', rx_str ''webp'', rx_str ''gif'']) RNull))"
    by simp
  have start: "''/user-files/backgrounds/'' \<in> rx_lang (rx_str ''/user-files/backgrounds/'')"
    by (simp only: rx_lang_str singleton_iff)
  have "''/user-files/backgrounds/'' @ h @ ''.png'' \<in> rx_lang own_picture"
    unfolding own_picture_def rx_seqs.simps by (rule seq [OF start seq [OF h png]])
  then have "''/user-files/backgrounds/'' @ h @ ''.png'' \<in> rx_lang (RAlt own_picture plugin_picture)"
    unfolding rx_lang.simps(5) by (rule UnI1)
  then show ?thesis unfolding rx_test_lang BACKGROUND_URL_split by (rule subsetD [OF lang_nocase])
qed

lemma sample_picture_allowed: "rx_test BACKGROUND_URL ''/user-files/backgrounds/0123456789abcdef.png''"
proof -
  have "rx_test BACKGROUND_URL (''/user-files/backgrounds/'' @ ''0123456789abcdef'' @ ''.png'')"
    by (rule own_picture_intro) simp_all
  then show ?thesis by (simp only: append_Cons append_Nil)
qed

theorem pictures_stay_inside_witness: "no_dot_file ''/user-files/backgrounds/0123456789abcdef.png''"
proof -
  have "\<exists>im. sanitize_image (Some sample_picture) = Some im \<and> im_url im = ''/user-files/backgrounds/0123456789abcdef.png''"
    by (simp add: sanitize_image_def sample_picture_def sample_picture_allowed)
  then obtain im where im: "sanitize_image (Some sample_picture) = Some im" "im_url im = ''/user-files/backgrounds/0123456789abcdef.png''"
    by (elim exE conjE)
  from pictures_stay_inside [OF im(1)] show ?thesis unfolding im(2) by (elim conjE)
qed

section \<open>Saving and loading\<close>

definition name_ok :: "custom_theme \<Rightarrow> bool" where
  "name_ok t \<longleftrightarrow> ct_name t = [] \<or> js_trim (ct_name t) \<noteq> []"

lemma mode_of_name: "(if Some (JStr (mode_name m)) = Some (JStr ''light'') then Light else Dark) = m"
  by (cases m) simp_all

lemma sanitize_image_json: "image_ok im \<Longrightarrow> sanitize_image (Some (image_json im)) = Some im"
  by (simp add: sanitize_image_def image_json_def image_ok_def limit_jrat)

lemma image_of_theme_json:
  "pred_option image_ok (ct_image t) \<Longrightarrow> sanitize_image (json_get ''image'' (theme_json t)) = ct_image t"
  by (cases "ct_image t") (simp_all add: theme_json_def sanitize_image_json sanitize_image_def [of None])

lemma theme_name_JStr: "length n \<le> 40 \<Longrightarrow> n = [] \<or> js_trim n \<noteq> [] \<Longrightarrow> theme_name (Some (JStr n)) = n"
  by (auto simp: theme_name_def)

lemma theme_json_get:
  "json_get ''id'' (theme_json t) = Some (JStr (ct_id t))"
  "json_get ''name'' (theme_json t) = Some (JStr (ct_name t))"
  "json_get ''mode'' (theme_json t) = Some (JStr (mode_name (ct_mode t)))"
  "opt_get ''h'' (json_get ''background'' (theme_json t)) = Some (jrat (ct_bg_h t))"
  "opt_get ''c'' (json_get ''background'' (theme_json t)) = Some (jrat (ct_bg_c t))"
  "opt_get ''l'' (json_get ''background'' (theme_json t)) = Some (jrat (ct_bg_l t))"
  "opt_get ''h'' (json_get ''accent'' (theme_json t)) = Some (jrat (ct_accent_h t))"
  "opt_get ''c'' (json_get ''accent'' (theme_json t)) = Some (jrat (ct_accent_c t))"
  by (simp_all add: theme_json_def opt_get_def)

lemma sanitize_theme_json:
  assumes "theme_ok t" "name_ok t"
  shows "sanitize_theme (theme_json t) pre = (if js_starts_with (ct_id t) pre then Some t else None)"
proof (cases "js_starts_with (ct_id t) pre")
  case True
  have range: "in_range (fst (BACKGROUND_LIGHTNESS (ct_mode t)), snd (BACKGROUND_LIGHTNESS (ct_mode t))) (ct_bg_l t)"
    using assms(1) by (simp add: theme_ok_def)
  from assms True show ?thesis
    by (simp add: sanitize_theme_def theme_json_get mode_of_name [simplified] image_of_theme_json theme_name_JStr
      theme_ok_def name_ok_def clamp_json_jrat [OF range] clamp_json_jrat Let_def)
qed (simp add: sanitize_theme_def theme_json_get)

lemma telemetry_order_JStr:
  assumes "set os = set METRICS"
  shows "telemetry_order (Some (JArr (map JStr os))) = os"
proof -
  have "concat (map metric_of (map JStr ys)) = ys" if "set ys \<subseteq> set METRICS" for ys
    using that by (induction ys) auto
  moreover have "foldl (\<lambda>out m. if m \<in> set out then out else out @ [m]) os ms = os" if "set ms \<subseteq> set os" for ms
    using that by (induction ms) auto
  ultimately show ?thesis using assms by (simp add: telemetry_order_def)
qed

lemma layout_json_get:
  "is_object (layout_json l)"
  "json_get ''navPosition'' (layout_json l) = Some (JStr (ly_nav l))"
  "json_get ''sidebarStyle'' (layout_json l) = Some (JStr (ly_sidebar l))"
  "json_get ''cockpitAlign'' (layout_json l) = Some (JStr (ly_cockpit l))"
  "json_get ''telemetryPlacement'' (layout_json l) = Some (JStr (ly_placement l))"
  "json_get ''telemetryOrder'' (layout_json l) = Some (JArr (map JStr (ly_order l)))"
  "opt_get ''download'' (json_get ''telemetryVisible'' (layout_json l)) = Some (JBool (ly_download l))"
  "opt_get ''upload'' (json_get ''telemetryVisible'' (layout_json l)) = Some (JBool (ly_upload l))"
  "opt_get ''latency'' (json_get ''telemetryVisible'' (layout_json l)) = Some (JBool (ly_latency l))"
  "json_get ''showSpeedTest'' (layout_json l) = Some (JBool (ly_speed_test l))"
  "json_get ''dashboardWidth'' (layout_json l) = Some (JStr (ly_width l))"
  "json_get ''proxiesCardLayout'' (layout_json l) = Some (JStr (ly_proxies l))"
  "json_get ''configCardLayout'' (layout_json l) = Some (JStr (ly_config l))"
  by (simp_all add: layout_json_def opt_get_def)

lemma sanitize_layout_json: "layout_ok l \<Longrightarrow> sanitize_layout (Some (layout_json l)) = l"
  by (rule layout_prefs.equality)
     (auto simp: sanitize_layout_def layout_json_get layout_ok_def one_of_JStr telemetry_order_JStr bool_or_def)

lemma load_fonts_json: "load_fonts (Some (JArr (map font_json fs))) = fs"
  by (induction fs) (simp_all add: load_fonts_def array_of_def font_json_def List.map_filter_simps)

lemma load_plugin_themes_json:
  assumes "list_all theme_ok ts" "list_all name_ok ts" "list_all (\<lambda>t. js_starts_with (ct_id t) PLUGIN_THEME_PREFIX) ts"
  shows "load_plugin_themes (Some (JArr (map theme_json ts))) = ts"
  using assms
  by (induction ts) (simp_all add: load_plugin_themes_def array_of_def sanitize_theme_json List.map_filter_simps)

lemma index_not_custom: "js_starts_with i CUSTOM_PREFIX \<Longrightarrow> \<not> js_starts_with i (nat_str n)"
proof
  assume "js_starts_with i CUSTOM_PREFIX" "js_starts_with i (nat_str n)"
  then obtain u v where "i = CUSTOM_PREFIX @ u" "i = nat_str n @ v" unfolding js_starts_with_iff by blast
  moreover obtain d ds where d: "nat_str n = d # ds" using nat_str_nonempty [of n] by (cases "nat_str n") auto
  ultimately have "d = CHR ''c''" by (simp add: CUSTOM_PREFIX_def)
  moreover have "is_digit d" using nat_str_digits [of n] d by simp
  ultimately show False by (simp add: is_digit_def)
qed

lemma custom_themes_not_loaded:
  assumes "list_all (\<lambda>t. js_starts_with (ct_id t) CUSTOM_PREFIX) ts"
  shows "load_custom_themes (Some (JArr (map theme_json ts))) = []"
proof -
  have "sanitize_theme (theme_json t) (nat_str i) = None" if "t \<in> set ts" for i t
    using that assms index_not_custom [of "ct_id t" i] by (simp add: sanitize_theme_def theme_json_get list_all_iff)
  then have "sanitize_theme v (nat_str i) = None" if "v \<in> set (map theme_json ts)" for i v
    using that by auto
  then have "\<forall>p \<in> set (enumerate 0 (map theme_json ts)). (case p of (i, t) \<Rightarrow> sanitize_theme t (nat_str i)) = None"
    by (auto simp: in_set_enumerate_eq)
  then show ?thesis by (simp add: load_custom_themes_def array_of_def map_filter_def filter_empty_conv)
qed

lemma load_units_json:
  "load_units (Some (JObj [(''rate'', JStr (rate_name (un_rate u))), (''size'', JStr (size_unit_name (un_size u)))])) = u"
  by (cases u; cases "un_rate u"; cases "un_size u") (simp_all add: load_units_def opt_get_def)

lemma load_accent_json:
  assumes "pred_option (\<lambda>(h, c). in_range (0, 360) h \<and> in_range (0, 25/100) c) a"
  shows "load_accent (Some (case a of Some (h, c) \<Rightarrow> JObj [(''h'', jrat h), (''c'', jrat c)] | None \<Rightarrow> JNull)) = a"
  using assms by (cases a) (auto simp: load_accent_def clamp_json_jrat)

lemma saved_get:
  "is_object (save_appearance p)"
  "json_get ''font'' (save_appearance p) = Some (JStr (ap_font p))"
  "json_get ''radius'' (save_appearance p) = Some (JStr (ap_radius p))"
  "json_get ''radiusCustom'' (save_appearance p) = Some (jrat (ap_radius_custom p))"
  "json_get ''motion'' (save_appearance p) = Some (JStr (ap_motion p))"
  "json_get ''motionSpeed'' (save_appearance p) = Some (jrat (ap_motion_speed p))"
  "json_get ''motionStagger'' (save_appearance p) = Some (jrat (ap_motion_stagger p))"
  "json_get ''statsChart'' (save_appearance p) = Some (JStr (ap_stats_chart p))"
  "json_get ''layout'' (save_appearance p) = Some (layout_json (ap_layout p))"
  "json_get ''customThemes'' (save_appearance p) = Some (JArr (map theme_json (ap_custom_themes p)))"
  "json_get ''activeCustom'' (save_appearance p) = Some (JStr (ap_active_custom p))"
  "json_get ''userFonts'' (save_appearance p) = Some (JArr (map font_json (ap_user_fonts p)))"
  "json_get ''pluginThemes'' (save_appearance p) = Some (JArr (map theme_json (ap_plugin_themes p)))"
  "json_get ''pluginFonts'' (save_appearance p) = Some (JArr (map font_json (ap_plugin_fonts p)))"
  by (simp_all add: save_appearance_def)

lemma saved_get_units:
  "json_get ''units'' (save_appearance p) =
     Some (JObj [(''rate'', JStr (rate_name (un_rate (ap_units p)))), (''size'', JStr (size_unit_name (un_size (ap_units p))))])"
  "json_get ''accent'' (save_appearance p) =
     Some (case ap_accent p of Some (h, c) \<Rightarrow> JObj [(''h'', jrat h), (''c'', jrat c)] | None \<Rightarrow> JNull)"
  by (simp_all add: save_appearance_def)

text \<open>C24: Saving and loading gives back every preference but the user's own themes: they are all lost, because
  the index \<open>map\<close> hands to \<open>sanitizeTheme\<close> takes the place of the prefix an id must have; with them
  goes the choice of the active theme, unless it is a plugin's.\<close>

theorem reload_loses_custom_themes:
  assumes "prefs_ok st' p" "st' = set_plugin_fonts (ap_plugin_fonts p) (set_user_fonts (ap_user_fonts p) st)"
    "list_all name_ok (ap_plugin_themes p)" "list_all (\<lambda>t. js_starts_with (ct_id t) CUSTOM_PREFIX) (ap_custom_themes p)"
  shows "load_appearance (Some (save_appearance p)) st =
    (p\<lparr>ap_custom_themes := [],
       ap_active_custom := (if ap_active_custom p \<in> ct_id ` set (ap_plugin_themes p) then ap_active_custom p else [])\<rparr>, st')"
proof -
  have plugin: "load_plugin_themes (Some (JArr (map theme_json (ap_plugin_themes p)))) = ap_plugin_themes p"
    using assms by (intro load_plugin_themes_json) (simp_all add: prefs_ok_def)
  have radius: "(if Some (JStr (ap_radius p)) = Some (JStr ''custom'') then ''custom''
      else one_of (map fst RADII) (Some (JStr (ap_radius p))) (ap_radius DEFAULT_APPEARANCE)) = ap_radius p"
  proof -
    have "ap_radius p = ''custom'' \<or> ap_radius p \<in> set (map fst RADII)"
      using assms(1) unfolding prefs_ok_def list.set(2) insert_iff by (elim conjE)
    then show ?thesis by (auto simp only: one_of_JStr simp_thms json.inject option.inject if_True if_False split: if_split)
  qed
  have active: "one_of (map ct_id ([] @ ap_plugin_themes p)) (Some (JStr (ap_active_custom p))) []
      = (if ap_active_custom p \<in> ct_id ` set (ap_plugin_themes p) then ap_active_custom p else [])"
    by (auto simp: one_of_def)
  have font: "one_of (map fo_id (all_fonts st')) (Some (JStr (ap_font p))) (ap_font DEFAULT_APPEARANCE) = ap_font p"
    using assms(1) by (intro one_of_JStr) (auto simp: prefs_ok_def)
  have rest: "limit RADIUS_LIMITS (Some (jrat (ap_radius_custom p))) = ap_radius_custom p"
      "limit MOTION_SPEED_LIMITS (Some (jrat (ap_motion_speed p))) = ap_motion_speed p"
      "limit MOTION_STAGGER_LIMITS (Some (jrat (ap_motion_stagger p))) = ap_motion_stagger p"
      "one_of (map fst MOTIONS) (Some (JStr (ap_motion p))) (ap_motion DEFAULT_APPEARANCE) = ap_motion p"
      "one_of STATS_CHARTS (Some (JStr (ap_stats_chart p))) (ap_stats_chart DEFAULT_APPEARANCE) = ap_stats_chart p"
      "sanitize_layout (Some (layout_json (ap_layout p))) = ap_layout p"
    using assms(1) by (simp_all add: prefs_ok_def limit_jrat one_of_JStr sanitize_layout_json)
  have accent: "load_accent (json_get ''accent'' (save_appearance p)) = ap_accent p"
    unfolding saved_get_units using assms(1) by (intro load_accent_json) (simp add: prefs_ok_def)
  show ?thesis
    unfolding load_appearance_def option.case saved_get saved_get_units(1) accent load_fonts_json plugin
      custom_themes_not_loaded [OF assms(4)] load_units_json radius active rest Let_def
    by (simp only: saved_get not_True_eq_False if_False assms(2) [symmetric] font) simp
qed

text \<open>The preferences of a user who has made one theme and shows it.\<close>

definition sample_prefs :: appearance_prefs where
  "sample_prefs = DEFAULT_APPEARANCE\<lparr>ap_custom_themes := [new_custom_theme ''mine'' Dark], ap_active_custom := ''custom-mine''\<rparr>"

lemma sample_prefs_ok: "prefs_ok st sample_prefs"
proof -
  have "theme_ok (new_custom_theme ''mine'' Dark)"
    by (simp add: theme_ok_def new_custom_theme_def in_range_def CUSTOM_PREFIX_def)
  moreover have "ct_id (new_custom_theme ''mine'' Dark) = ''custom-mine''"
    by (simp add: new_custom_theme_def CUSTOM_PREFIX_def)
  moreover note default_prefs_ok [of st]
  ultimately show ?thesis by (simp add: prefs_ok_def sample_prefs_def)
qed

theorem reload_loses_custom_themes_witness:
  "ap_custom_themes sample_prefs \<noteq> [] \<and>
   ap_custom_themes (fst (load_appearance (Some (save_appearance sample_prefs)) no_fonts)) = []"
proof -
  have "list_all name_ok (ap_plugin_themes sample_prefs)"
    "list_all (\<lambda>t. js_starts_with (ct_id t) CUSTOM_PREFIX) (ap_custom_themes sample_prefs)"
    by (simp_all add: sample_prefs_def DEFAULT_APPEARANCE_def new_custom_theme_def js_starts_with_def CUSTOM_PREFIX_def)
  from reload_loses_custom_themes [OF sample_prefs_ok refl this, of no_fonts]
  show ?thesis by (simp add: sample_prefs_def)
qed

end
