(* ===== verification/Uri_Text.thy ===== *)
theory Uri_Text
  imports Js_Base
begin

text \<open>
  Prelude: the encodings of texts in links.  Percent-encoding (\<open>encodeURIComponent\<close> and its
  inverse, which fails on a broken escape or on bytes that are not UTF-8), the encoding of
  \<open>URLSearchParams\<close>, and base64 (\<open>btoa\<close>, \<open>atob\<close>).  A text is the list of its UTF-8 bytes.
\<close>

section \<open>UTF-8\<close>

definition byte :: "char \<Rightarrow> nat" where
  "byte c = of_char c"

definition continuation :: "char \<Rightarrow> bool" where
  "continuation c \<longleftrightarrow> 128 \<le> byte c \<and> byte c \<le> 191"

text \<open>How many continuation bytes follow a lead byte, and the range of the first of them.\<close>

definition lead :: "char \<Rightarrow> (nat \<times> nat \<times> nat) option" where
  "lead c =
     (let b = byte c in
      if 194 \<le> b \<and> b \<le> 223 then Some (1, 128, 191)
      else if b = 224 then Some (2, 160, 191)
      else if b = 237 then Some (2, 128, 159)
      else if 225 \<le> b \<and> b \<le> 239 then Some (2, 128, 191)
      else if b = 240 then Some (3, 144, 191)
      else if 241 \<le> b \<and> b \<le> 243 then Some (3, 128, 191)
      else if b = 244 then Some (3, 128, 143)
      else None)"

function utf8_valid :: "string \<Rightarrow> bool" where
  "utf8_valid [] = True"
| "utf8_valid (c # s) =
     (if byte c < 128 then utf8_valid s
      else (case lead c of
              None \<Rightarrow> False
            | Some (n, lo, hi) \<Rightarrow>
                length (take n s) = n \<and> list_all continuation (take n s)
                \<and> lo \<le> byte (hd s) \<and> byte (hd s) \<le> hi \<and> utf8_valid (drop n s)))"
  by pat_completeness auto
termination
  by (relation "measure length") auto

lemma utf8_valid_ascii: "list_all (\<lambda>c. byte c < 128) s \<Longrightarrow> utf8_valid s"
  by (induction s) simp_all

section \<open>Percent-encoding\<close>

definition hex_digit :: "nat \<Rightarrow> char" where
  "hex_digit n = ''0123456789ABCDEF'' ! n"

definition hex_val :: "char \<Rightarrow> nat option" where
  "hex_val c =
     (let b = byte c in
      if 48 \<le> b \<and> b \<le> 57 then Some (b - 48)
      else if 65 \<le> b \<and> b \<le> 70 then Some (b - 55)
      else if 97 \<le> b \<and> b \<le> 102 then Some (b - 87)
      else None)"

definition escape :: "char \<Rightarrow> string" where
  "escape c = [CHR ''%'', hex_digit (byte c div 16), hex_digit (byte c mod 16)]"

definition letter_or_digit :: "char \<Rightarrow> bool" where
  "letter_or_digit c \<longleftrightarrow>
     (let b = byte c in 48 \<le> b \<and> b \<le> 57 \<or> 65 \<le> b \<and> b \<le> 90 \<or> 97 \<le> b \<and> b \<le> 122)"

definition component_char :: "char \<Rightarrow> bool" where
  "component_char c \<longleftrightarrow> letter_or_digit c \<or> c \<in> set (''-_.!~*()'' @ [CHR 0x27])"

definition encode_uri_component :: "string \<Rightarrow> string" where
  "encode_uri_component s = concat (map (\<lambda>c. if component_char c then [c] else escape c) s)"

fun unescape :: "string \<Rightarrow> string option" where
  "unescape [] = Some []"
| "unescape (c # s) =
     (if c = CHR ''%''
      then (case s of
              a # b # t \<Rightarrow>
                (case (hex_val a, hex_val b) of
                   (Some x, Some y) \<Rightarrow> map_option (\<lambda>u. char_of (16 * x + y) # u) (unescape t)
                 | _ \<Rightarrow> None)
            | _ \<Rightarrow> None)
      else map_option (\<lambda>u. c # u) (unescape s))"

definition decode_uri_component :: "string \<Rightarrow> string option" where
  "decode_uri_component s =
     (case unescape s of Some t \<Rightarrow> if utf8_valid t then Some t else None | None \<Rightarrow> None)"

lemma byte_less [simp]: "byte c < 256"
  using of_char_mod_256 [of c, where 'a = nat] by (simp add: byte_def)

lemma char_of_byte [simp]: "char_of (byte c) = c"
  by (simp add: byte_def)

lemma hex_val_digit: "n < 16 \<Longrightarrow> hex_val (hex_digit n) = Some n"
proof -
  assume "n < 16"
  then have "n \<in> set [0..<16]" by simp
  moreover have "list_all (\<lambda>n. hex_val (hex_digit n) = Some n) [0..<16]" by code_simp
  ultimately show ?thesis by (simp only: list_all_iff)
qed

lemma percent_not_component: "\<not> component_char (CHR ''%'')"
  by (simp add: component_char_def letter_or_digit_def byte_def)

lemma unescape_encode: "unescape (encode_uri_component s) = Some s"
proof (induction s)
  case (Cons c s)
  have "16 * (byte c div 16) + byte c mod 16 = byte c" by simp
  moreover have "byte c div 16 < 16" using byte_less [of c] by (simp add: less_mult_imp_div_less)
  ultimately show ?case using Cons percent_not_component
    by (auto simp: encode_uri_component_def escape_def hex_val_digit)
qed (simp add: encode_uri_component_def)

theorem decode_encode_uri: "utf8_valid s \<Longrightarrow> decode_uri_component (encode_uri_component s) = Some s"
  by (simp add: decode_uri_component_def unescape_encode)

lemma encode_uri_empty [simp]: "encode_uri_component [] = []"
  by (simp add: encode_uri_component_def)

section \<open>Search parameters\<close>

definition form_char :: "char \<Rightarrow> string" where
  "form_char c =
     (if c = CHR '' '' then ''+''
      else if letter_or_digit c \<or> c \<in> set ''*-._'' then [c] else escape c)"

definition params_text :: "(string \<times> string) list \<Rightarrow> string" where
  "params_text ps = js_join ''&'' (map (\<lambda>(k, v). concat (map form_char k) @ ''='' @ concat (map form_char v)) ps)"

section \<open>Base64\<close>

text \<open>The alphabet: A to Z, a to z, 0 to 9, plus and slash.\<close>

definition sextet :: "nat \<Rightarrow> char" where
  "sextet n =
     char_of (if n < 26 then n + 65 else if n < 52 then n + 71 else if n < 62 then n - 4 else if n = 62 then 43 else 47)"

definition sextet_val :: "char \<Rightarrow> nat option" where
  "sextet_val c =
     (let b = byte c in
      if 65 \<le> b \<and> b \<le> 90 then Some (b - 65)
      else if 97 \<le> b \<and> b \<le> 122 then Some (b - 71)
      else if 48 \<le> b \<and> b \<le> 57 then Some (b + 4)
      else if b = 43 then Some 62
      else if b = 47 then Some 63
      else None)"

fun sextets :: "nat list \<Rightarrow> nat list" where
  "sextets (a # b # c # bs) =
     a div 4 # ((a mod 4) * 16 + b div 16) # ((b mod 16) * 4 + c div 64) # (c mod 64) # sextets bs"
| "sextets [a, b] = [a div 4, (a mod 4) * 16 + b div 16, (b mod 16) * 4]"
| "sextets [a] = [a div 4, (a mod 4) * 16]"
| "sextets [] = []"

definition btoa :: "string \<Rightarrow> string" where
  "btoa s = map sextet (sextets (map byte s)) @ replicate ((3 - length s mod 3) mod 3) (CHR ''='')"

fun octets :: "nat list \<Rightarrow> nat list" where
  "octets (a # b # c # d # ns) =
     (a * 4 + b div 16) # ((b mod 16) * 16 + c div 4) # ((c mod 4) * 64 + d) # octets ns"
| "octets [a, b, c] = [a * 4 + b div 16, (b mod 16) * 16 + c div 4]"
| "octets [a, b] = [a * 4 + b div 16]"
| "octets _ = []"

fun all_values :: "('a \<Rightarrow> 'b option) \<Rightarrow> 'a list \<Rightarrow> 'b list option" where
  "all_values f [] = Some []"
| "all_values f (x # xs) =
     (case f x of None \<Rightarrow> None | Some v \<Rightarrow> map_option (\<lambda>vs. v # vs) (all_values f xs))"

text \<open>\<open>atob\<close>: white space is dropped, then up to two trailing \<open>=\<close> where the length is a multiple of four.\<close>

definition drop_padding :: "string \<Rightarrow> string" where
  "drop_padding s =
     (if length s mod 4 \<noteq> 0 then s
      else if js_ends_with s ''=='' then take (length s - 2) s
      else if js_ends_with s ''='' then take (length s - 1) s else s)"

definition atob :: "string \<Rightarrow> string option" where
  "atob s =
     (let t = drop_padding (filter (\<lambda>c. byte c \<notin> {9, 10, 12, 13, 32}) s)
      in if length t mod 4 = 1 then None
         else map_option (\<lambda>ns. map char_of (octets ns)) (all_values sextet_val t))"

lemma byte_char_of [simp]: "m < 256 \<Longrightarrow> byte (char_of m) = m"
  by (simp add: byte_def of_char_of)

lemma byte_sextet:
  "n < 64 \<Longrightarrow> byte (sextet n) =
     (if n < 26 then n + 65 else if n < 52 then n + 71 else if n < 62 then n - 4 else if n = 62 then 43 else 47)"
  unfolding sextet_def by (rule byte_char_of) auto

lemma sextet_val_sextet: "n < 64 \<Longrightarrow> sextet_val (sextet n) = Some n"
  by (auto simp: sextet_val_def byte_sextet Let_def)

lemma sextets_less: "list_all (\<lambda>b. b < 256) bs \<Longrightarrow> list_all (\<lambda>n. n < 64) (sextets bs)"
  by (induction bs rule: sextets.induct) (auto simp: less_mult_imp_div_less)

lemma packed: "y < k \<Longrightarrow> (x * k + y) div k = (x :: nat) \<and> (x * k + y) mod k = y"
  by simp

lemma packed_byte:
  fixes a b :: nat
  assumes "b < k * m"
  shows "(x * k + b div m) div k = x" "(x * k + b div m) mod k = b div m"
  using packed [of "b div m" k x] assms by (simp_all add: less_mult_imp_div_less)

lemma octets_sextets: "list_all (\<lambda>b. b < 256) bs \<Longrightarrow> octets (sextets bs) = bs"
proof (induction bs rule: sextets.induct)
  case (1 a b c bs)
  then have "b < 16 * 16" "c < 4 * 64" by simp_all
  note p = packed_byte [OF this(1), of "a mod 4"] packed_byte [OF this(2), of "b mod 16"]
  from 1 show ?case by (simp only: sextets.simps octets.simps p div_mult_mod_eq list.pred_inject simp_thms)
next
  case (2 a b)
  then have "b < 16 * 16" by simp
  note p = packed_byte [OF this, of "a mod 4"]
  have "b mod 16 * 4 div 4 = b mod 16" by simp
  then show ?case by (simp only: sextets.simps octets.simps p div_mult_mod_eq)
next
  case (3 a)
  have "a mod 4 * 16 div 16 = a mod 4" by simp
  then show ?case by (simp only: sextets.simps octets.simps div_mult_mod_eq)
qed simp

lemma all_values_map: "list_all (\<lambda>n. f (g n) = Some n) ns \<Longrightarrow> all_values f (map g ns) = Some ns"
  by (induction ns) simp_all

lemma length_sextets: "length (sextets bs) = (length bs * 4 + 2) div 3"
  by (induction bs rule: sextets.induct) auto

lemma alphabet_chars:
  assumes "n < 64"
  shows "sextet n \<noteq> CHR ''='' \<and> byte (sextet n) \<notin> {9, 10, 12, 13, 32}"
proof -
  have "byte (sextet n) \<noteq> 61" "byte (sextet n) \<notin> {9, 10, 12, 13, 32}" using assms by (auto simp: byte_sextet)
  moreover have "byte (CHR ''='') = 61" by (simp add: byte_def)
  ultimately show ?thesis by metis
qed

lemma drop_padding_eq:
  assumes "CHR ''='' \<notin> set xs" "p \<le> 2" "(length xs + p) mod 4 = 0"
  shows "drop_padding (xs @ replicate p (CHR ''='')) = xs"
proof -
  have last: "\<not> js_ends_with (ys @ xs) ''=''" if "xs \<noteq> []" for ys
    using assms(1) that by (cases xs rule: rev_cases) (auto simp: js_ends_with_def js_starts_with_def)
  have "p = 0 \<or> p = 1 \<or> p = 2" using assms(2) by linarith
  moreover have "xs \<noteq> []" if "p = 1" using assms(3) that by auto
  ultimately consider "p = 0" | "p = 1" "xs \<noteq> []" | "p = 2" by blast
  then show ?thesis
  proof cases
    case 1
    then show ?thesis using last [of "[]"] assms(3)
      by (cases xs rule: rev_cases) (auto simp: drop_padding_def js_ends_with_def js_starts_with_def)
  next
    case 2
    with last [of "[]"] assms(3) show ?thesis
      by (cases xs rule: rev_cases) (auto simp: drop_padding_def js_ends_with_def js_starts_with_def)
  next
    case 3
    have "replicate (2::nat) (CHR ''='') = ''==''" by (simp add: numeral_2_eq_2)
    with 3 assms(3) show ?thesis by (auto simp: drop_padding_def js_ends_with_def js_starts_with_def)
  qed
qed

lemma padded_length: "((n * 4 + 2) div 3 + (3 - n mod 3) mod 3) mod 4 = (0 :: nat)" "(n * 4 + 2) div 3 mod 4 \<noteq> (1 :: nat)"
proof -
  define q r where "q = n div 3" and "r = n mod 3"
  then have n: "n = 3 * q + r" "r < 3" "n mod 3 = r" by simp_all
  have d: "(n * 4 + 2) div 3 = 4 * q + (r * 4 + 2) div 3" using n(1) by simp
  from n(2) consider "r = 0" | "r = 1" | "r = 2" by linarith
  then have "((n * 4 + 2) div 3 + (3 - n mod 3) mod 3) mod 4 = 0 \<and> (n * 4 + 2) div 3 mod 4 \<noteq> 1"
    unfolding d n(3) by cases (simp_all only:, simp_all, presburger)
  then show "((n * 4 + 2) div 3 + (3 - n mod 3) mod 3) mod 4 = 0" "(n * 4 + 2) div 3 mod 4 \<noteq> 1" by blast+
qed

lemma btoa_length: "length (btoa s) mod 4 = 0"
proof -
  have "length (btoa s) = (length s * 4 + 2) div 3 + (3 - length s mod 3) mod 3"
    by (simp add: btoa_def length_sextets)
  then show ?thesis using padded_length by simp
qed

theorem atob_btoa: "atob (btoa s) = Some s"
proof -
  define ns where "ns = sextets (map byte s)"
  have small: "list_all (\<lambda>n. n < 64) ns" unfolding ns_def by (rule sextets_less) (simp add: list_all_iff)
  have plain: "c \<noteq> CHR ''='' \<and> byte c \<notin> {9, 10, 12, 13, 32}" if "c \<in> set (map sextet ns)" for c
    using that small alphabet_chars by (auto simp: list_all_iff)
  have "filter (\<lambda>c. byte c \<notin> {9, 10, 12, 13, 32}) (btoa s) = btoa s"
    using plain by (auto simp: btoa_def ns_def [symmetric] filter_id_conv byte_def)
  moreover have "drop_padding (btoa s) = map sextet ns"
    unfolding btoa_def ns_def [symmetric]
  proof (rule drop_padding_eq)
    show "CHR ''='' \<notin> set (map sextet ns)" using plain by blast
    have "(3 - length s mod 3) mod 3 < 3" by (rule mod_less_divisor) simp
    then show "(3 - length s mod 3) mod 3 \<le> 2" by linarith
    show "(length (map sextet ns) + (3 - length s mod 3) mod 3) mod 4 = 0"
      using btoa_length [of s] by (simp add: btoa_def ns_def)
  qed
  moreover have "length ns mod 4 \<noteq> 1"
  proof -
    have "length ns = (length s * 4 + 2) div 3" by (simp add: ns_def length_sextets)
    then show ?thesis using padded_length(2) by (simp only: not_False_eq_True)
  qed
  moreover have "all_values sextet_val (map sextet ns) = Some ns"
    using small by (intro all_values_map) (simp add: list_all_iff sextet_val_sextet)
  moreover have "map char_of (octets ns) = s"
    unfolding ns_def by (subst octets_sextets) (simp_all add: list_all_iff o_def)
  ultimately show ?thesis by (simp add: atob_def)
qed

section \<open>Printable texts\<close>

definition printable :: "char \<Rightarrow> bool" where
  "printable c \<longleftrightarrow> 33 \<le> byte c \<and> byte c \<le> 126"

lemma white_space_ends: "list_all (\<lambda>w. \<not> printable (hd w) \<and> \<not> printable (last w)) white_space"
  by (simp add: white_space_def printable_def byte_def)

lemma not_start: "w \<noteq> [] \<Longrightarrow> c \<noteq> hd w \<Longrightarrow> \<not> js_starts_with (c # s) w"
  by (cases w) (auto simp: js_starts_with_def)

text \<open>A text that starts and ends with a printable character is its own trimming.\<close>

lemma js_trim_printable:
  assumes "s \<noteq> []" "printable (hd s)" "printable (last s)"
  shows "js_trim s = s"
proof -
  have w: "w \<noteq> [] \<and> \<not> printable (hd w) \<and> \<not> printable (last w)" if "w \<in> set white_space" for w
    using that white_space_ends white_space_nonempty by (simp add: list_all_iff)
  have a: "strip_prefixes white_space s = s"
  proof (rule strip_prefixes_id)
    fix w assume "w \<in> set white_space"
    with w assms show "\<not> js_starts_with s w" using not_start [of w "hd s" "tl s"] by (metis list.collapse)
  qed
  have b: "strip_prefixes (map rev white_space) (rev s) = rev s"
  proof (rule strip_prefixes_id)
    fix v assume "v \<in> set (map rev white_space)"
    then obtain u where u: "u \<in> set white_space" "v = rev u" by auto
    with w [OF u(1)] have "v \<noteq> []" "hd v = last u" by (simp_all add: hd_rev)
    moreover have "hd (rev s) = last s" using assms(1) by (simp add: hd_rev)
    ultimately show "\<not> js_starts_with (rev s) v" using w [OF u(1)] assms not_start [of v "hd (rev s)" "tl (rev s)"]
      by (metis list.collapse rev_is_Nil_conv)
  qed
  show ?thesis by (simp add: js_trim_def a b)
qed

lemma printable_strip: "list_all printable s \<Longrightarrow> strip_prefixes white_space s = s"
proof (rule strip_prefixes_id)
  fix w assume "list_all printable s" "w \<in> set white_space" "w \<noteq> []"
  then show "\<not> js_starts_with s w" using white_space_ends not_start [of w "hd s" "tl s"]
    by (cases s) (auto simp: list_all_iff js_starts_with_def)
qed

lemma digit_printable: "is_digit c \<Longrightarrow> printable c"
  by (auto simp: is_digit_def printable_def byte_def Let_def)

lemma nat_str_printable: "list_all printable (nat_str n)"
  using nat_str_digits [of n] digit_printable by (simp add: list_all_iff)

lemma is_digit_minus: "\<not> is_digit (CHR ''-'')" "\<not> is_digit (CHR ''+'')"
  by (simp_all add: is_digit_def)

lemma parse_int_str: "0 \<le> n \<Longrightarrow> js_parse_int (int_str n) = Some n"
proof -
  assume n: "0 \<le> n"
  obtain d ds where d: "nat_str (nat n) = d # ds" using nat_str_nonempty [of "nat n"] by (cases "nat_str (nat n)") auto
  have all: "takeWhile is_digit (nat_str (nat n)) = nat_str (nat n)"
    using nat_str_digits [of "nat n"] by (simp add: takeWhile_eq_all_conv)
  have "is_digit d" using nat_str_digits [of "nat n"] d by simp
  then have "d \<noteq> CHR ''-''" "d \<noteq> CHR ''+''" using is_digit_minus by metis+
  moreover have "strip_prefixes white_space (d # ds) = d # ds"
    using printable_strip [OF nat_str_printable [of "nat n"]] d by simp
  ultimately show ?thesis using n d all digits_val_nat_str [of "nat n"]
    by (simp add: js_parse_int_def int_str_def Let_def)
qed

lemma escape_printable: "list_all printable (escape c)"
proof -
  have hex: "printable (hex_digit n)" if "n < 16" for n
  proof -
    have "n \<in> set [0..<16]" using that by simp
    moreover have "list_all (\<lambda>n. printable (hex_digit n)) [0..<16]" by code_simp
    ultimately show ?thesis by (simp only: list_all_iff)
  qed
  have "byte c div 16 < 16" using byte_less [of c] by (simp add: less_mult_imp_div_less)
  then show ?thesis by (simp add: escape_def hex) (simp add: printable_def byte_def)
qed

lemma letter_printable: "letter_or_digit c \<Longrightarrow> printable c"
  by (auto simp: letter_or_digit_def printable_def Let_def)

lemma component_printable: "list_all printable (encode_uri_component s)"
proof -
  have "printable c" if "component_char c" for c
    using that letter_printable by (auto simp: component_char_def) (simp_all add: printable_def byte_def)
  then show ?thesis using escape_printable by (auto simp: encode_uri_component_def list_all_iff)
qed

lemma form_char_printable: "list_all printable (form_char c)"
  using letter_printable escape_printable by (auto simp: form_char_def) (simp_all add: printable_def byte_def)

lemma params_printable: "list_all printable (params_text ps)"
proof -
  have join: "list_all printable (js_join ''&'' ws)" if "list_all (list_all printable) ws" for ws
    using that by (induction "''&''" ws rule: js_join.induct) (auto simp: printable_def byte_def)
  have "printable (CHR ''='')" by (simp add: printable_def byte_def)
  then show ?thesis unfolding params_text_def
    by (intro join) (auto simp: list_all_iff dest!: form_char_printable [unfolded list_all_iff, rule_format])
qed

lemma btoa_printable: "list_all printable (btoa s)"
proof -
  have "list_all (\<lambda>n. n < 64) (sextets (map byte s))" by (rule sextets_less) (simp add: list_all_iff)
  then have "printable c" if "c \<in> set (map sextet (sextets (map byte s)))" for c
    using that by (auto simp: list_all_iff printable_def byte_sextet)
  moreover have "printable (CHR ''='')" by (simp add: printable_def byte_def)
  ultimately show ?thesis by (auto simp: btoa_def list_all_iff)
qed

end
