(* ===== verification/Proxy_Config.thy ===== *)
theory Proxy_Config
  imports Uri_Text "HOL-Library.Monad_Syntax" "HOL-Library.While_Combinator"
begin

text \<open>
  Server links (lib/proxy-config.ts): the form a link or a sing-box outbound is edited in, reading
  it and writing it back.  The URL parser of the browser and the text of JSON are arguments
  (\<open>link_env\<close>).  The fields of the form are texts and integers: where an outbound holds a value of
  another type, which the code would put into the form as it is, reading is \<open>None\<close>.
\<close>

section \<open>The form\<close>

record proxy_form =
  pf_protocol :: string
  pf_name :: string
  pf_server :: string
  pf_port :: int
  pf_uuid :: string
  pf_password :: string
  pf_username :: string
  pf_cipher :: string
  pf_alter_id :: int
  pf_flow :: string
  pf_security :: string
  pf_sni :: string
  pf_alpn :: string
  pf_fingerprint :: string
  pf_insecure :: bool
  pf_public_key :: string
  pf_short_id :: string
  pf_spider_x :: string
  pf_network :: string
  pf_path :: string
  pf_host :: string
  pf_service_name :: string
  pf_obfs :: string
  pf_obfs_password :: string
  pf_ports :: string
  pf_up_mbps :: string
  pf_down_mbps :: string
  pf_private_key :: string
  pf_peer_public_key :: string
  pf_local_address :: string
  pf_mtu :: int
  pf_reserved :: string
  pf_raw_link :: string
  pf_is_json :: bool

definition default_form :: "string \<Rightarrow> string \<Rightarrow> int \<Rightarrow> proxy_form" where
  "default_form name server port =
     \<lparr>pf_protocol = ''vless'', pf_name = name, pf_server = server, pf_port = port,
      pf_uuid = [], pf_password = [], pf_username = [], pf_cipher = ''auto'', pf_alter_id = 0, pf_flow = [],
      pf_security = ''tls'', pf_sni = [], pf_alpn = [], pf_fingerprint = ''chrome'', pf_insecure = False,
      pf_public_key = [], pf_short_id = [], pf_spider_x = [],
      pf_network = ''tcp'', pf_path = [], pf_host = [], pf_service_name = [],
      pf_obfs = [], pf_obfs_password = [], pf_ports = [], pf_up_mbps = [], pf_down_mbps = [],
      pf_private_key = [], pf_peer_public_key = [], pf_local_address = ''10.0.0.2/32'', pf_mtu = 1420,
      pf_reserved = [], pf_raw_link = [], pf_is_json = False\<rparr>"

section \<open>Base64 texts\<close>

definition url_to_standard :: "char \<Rightarrow> char" where
  "url_to_standard c = (if c = CHR ''-'' then CHR ''+'' else if c = CHR ''_'' then CHR ''/'' else c)"

text \<open>\<open>while (b64.length % 4 !== 0) b64 += "="\<close>.\<close>

function pad_b64 :: "string \<Rightarrow> string" where
  "pad_b64 s = (if length s mod 4 \<noteq> 0 then pad_b64 (s @ ''='') else s)"
  by auto
termination
proof (relation "measure (\<lambda>s. (4 - length s mod 4) mod 4)")
  fix s :: string
  assume "length s mod 4 \<noteq> 0"
  then have "length s mod 4 \<in> {1, 2, 3}" by (simp, arith)
  moreover have "length (s @ ''='') mod 4 = (length s mod 4 + 1) mod 4" by (simp add: mod_Suc_eq)
  ultimately show "(s @ ''='', s) \<in> measure (\<lambda>s. (4 - length s mod 4) mod 4)" by auto
qed simp

declare pad_b64.simps [simp del]

text \<open>A binary string as a text: each byte is the character of that code.\<close>

definition latin1_text :: "string \<Rightarrow> string" where
  "latin1_text s =
     concat (map (\<lambda>c. if byte c < 128 then [c] else [char_of (192 + byte c div 64), char_of (128 + byte c mod 64)]) s)"

definition safe_b64_decode :: "string \<Rightarrow> string" where
  "safe_b64_decode s =
     (case Option.bind (atob (pad_b64 (map url_to_standard s))) (\<lambda>bytes. if utf8_valid bytes then Some bytes else None) of
        Some t \<Rightarrow> t
      | None \<Rightarrow> (case atob s of Some bytes \<Rightarrow> latin1_text bytes | None \<Rightarrow> []))"

definition safe_b64_encode :: "string \<Rightarrow> string" where
  "safe_b64_encode s = (case unescape (encode_uri_component s) of Some bytes \<Rightarrow> btoa bytes | None \<Rightarrow> btoa s)"

section \<open>Reading\<close>

record url_parts =
  u_protocol :: string
  u_hostname :: string
  u_port :: string
  u_username :: string
  u_password :: string
  u_hash :: string
  u_params :: "(string \<times> string) list"

record link_env =
  le_url :: "string \<Rightarrow> url_parts option"
  le_parse :: "string \<Rightarrow> json option"
  le_stringify :: "json \<Rightarrow> string"
  le_pretty :: "json \<Rightarrow> string"

text \<open>\<open>v || d\<close> where the value is used as a text.\<close>

definition text_or :: "json option \<Rightarrow> string \<Rightarrow> string option" where
  "text_or v d =
     (case v of
        None \<Rightarrow> Some d
      | Some (JStr s) \<Rightarrow> Some (if s = [] then d else s)
      | Some j \<Rightarrow> if json_truthy j then None else Some d)"

definition field :: "json \<Rightarrow> string \<Rightarrow> string \<Rightarrow> string option" where
  "field obj k d = text_or (json_get k obj) d"

definition truthy_field :: "json \<Rightarrow> string \<Rightarrow> bool" where
  "truthy_field obj k = (case json_get k obj of Some j \<Rightarrow> json_truthy j | None \<Rightarrow> False)"

definition sub_object :: "json \<Rightarrow> string \<Rightarrow> json" where
  "sub_object obj k = or_else (json_get k obj) JNull"

definition port_number :: "json option \<Rightarrow> int option" where
  "port_number v =
     (case v of Some (JNum (Fin q)) \<Rightarrow> if q = of_int \<lfloor>q\<rfloor> then Some \<lfloor>q\<rfloor> else None
      | Some (JNum _) \<Rightarrow> None | _ \<Rightarrow> Some 443)"

definition joined_texts :: "json option \<Rightarrow> string option" where
  "joined_texts v =
     (case v of Some (JArr vs) \<Rightarrow> map_option (js_join '','') (all_values (\<lambda>j. case j of JStr s \<Rightarrow> Some s | _ \<Rightarrow> None) vs)
      | _ \<Rightarrow> Some [])"

definition read_tls :: "json \<Rightarrow> proxy_form \<Rightarrow> proxy_form option" where
  "read_tls obj st =
     (if \<not> truthy_field obj ''tls'' then Some (st\<lparr>pf_security := ''none''\<rparr>)
      else (let tls = sub_object obj ''tls''; reality = sub_object tls ''reality''; utls = sub_object tls ''utls'' in
        do { st1 \<leftarrow> (if truthy_field reality ''enabled'' then
                 do { pk \<leftarrow> field reality ''public_key'' []; sid \<leftarrow> field reality ''short_id'' [];
                      Some (st\<lparr>pf_security := ''reality'', pf_public_key := pk, pf_short_id := sid\<rparr>) }
               else if truthy_field tls ''enabled'' then Some (st\<lparr>pf_security := ''tls''\<rparr>)
               else Some (st\<lparr>pf_security := ''none''\<rparr>));
             sni \<leftarrow> field tls ''server_name'' []; fp \<leftarrow> field utls ''fingerprint'' ''chrome'';
             alpn \<leftarrow> joined_texts (json_get ''alpn'' tls);
             Some (st1\<lparr>pf_sni := sni, pf_fingerprint := fp, pf_insecure := truthy_field tls ''insecure'', pf_alpn := alpn\<rparr>) }))"

definition read_transport :: "json \<Rightarrow> proxy_form \<Rightarrow> proxy_form option" where
  "read_transport obj st =
     (if \<not> truthy_field obj ''transport'' then Some st
      else (let tr = sub_object obj ''transport'' in
        do { network \<leftarrow> field tr ''type'' ''tcp''; path \<leftarrow> field tr ''path'' [];
             host \<leftarrow> field (sub_object tr ''headers'') ''Host'' []; service \<leftarrow> field tr ''service_name'' [];
             Some (st\<lparr>pf_network := network, pf_path := path, pf_host := host, pf_service_name := service\<rparr>) }))"

definition form_of_json :: "json \<Rightarrow> string \<Rightarrow> proxy_form \<Rightarrow> proxy_form option" where
  "form_of_json obj fallback st =
     do { protocol \<leftarrow> field obj ''type'' ''json''; name \<leftarrow> field obj ''tag'' fallback; server \<leftarrow> field obj ''server'' [];
          port \<leftarrow> port_number (json_get ''server_port'' obj); uuid \<leftarrow> field obj ''uuid'' [];
          password \<leftarrow> field obj ''password'' []; username \<leftarrow> field obj ''username'' []; flow \<leftarrow> field obj ''flow'' [];
          st1 \<leftarrow> read_tls obj (st\<lparr>pf_is_json := True, pf_protocol := protocol, pf_name := name, pf_server := server,
             pf_port := port, pf_uuid := uuid, pf_password := password, pf_username := username, pf_flow := flow\<rparr>);
          read_transport obj st1 }"

text \<open>\<open>parseInt(v, 10) || d\<close>; a number is read by its text, which for an integer is the integer.\<close>

definition int_or :: "json option \<Rightarrow> int \<Rightarrow> int option" where
  "int_or v d =
     (case v of
        Some (JStr s) \<Rightarrow> Some (let n = or_else (js_parse_int s) 0 in if n = 0 then d else n)
      | Some (JNum (Fin q)) \<Rightarrow> if q = of_int \<lfloor>q\<rfloor> then Some (if q = 0 then d else \<lfloor>q\<rfloor>) else None
      | Some (JArr _) \<Rightarrow> None | Some (JObj _) \<Rightarrow> None
      | _ \<Rightarrow> Some d)"

definition form_of_vmess :: "json \<Rightarrow> string \<Rightarrow> proxy_form \<Rightarrow> proxy_form option" where
  "form_of_vmess v fallback st =
     do { name \<leftarrow> field v ''ps'' fallback; server \<leftarrow> field v ''add'' []; port \<leftarrow> int_or (json_get ''port'' v) 443;
          uuid \<leftarrow> field v ''id'' []; aid \<leftarrow> int_or (json_get ''aid'' v) 0; cipher \<leftarrow> field v ''scy'' ''auto'';
          network \<leftarrow> field v ''net'' ''tcp''; path \<leftarrow> field v ''path'' []; host \<leftarrow> field v ''host'' [];
          sni \<leftarrow> field v ''sni'' []; fp \<leftarrow> field v ''fp'' ''chrome'';
          Some (st\<lparr>pf_protocol := ''vmess'', pf_name := name, pf_server := server, pf_port := port, pf_uuid := uuid,
             pf_alter_id := aid, pf_cipher := cipher, pf_network := js_lower network, pf_path := path, pf_host := host,
             pf_security := (if json_get ''tls'' v = Some (JStr ''tls'') then ''tls'' else ''none''),
             pf_sni := sni, pf_fingerprint := fp\<rparr>) }"

section \<open>Links\<close>

definition or_text :: "string \<Rightarrow> string \<Rightarrow> string" where
  "or_text a b = (if a = [] then b else a)"

definition param :: "url_parts \<Rightarrow> string \<Rightarrow> string" where
  "param u k = or_else (map_of (u_params u) k) []"

text \<open>Assignments of decoded texts, in order; a broken escape ends them (the flag), and what was assigned before stays.\<close>

type_synonym assignment = "string \<times> (string \<Rightarrow> proxy_form \<Rightarrow> proxy_form)"

fun assign_decoded :: "assignment list \<Rightarrow> proxy_form \<Rightarrow> proxy_form \<times> bool" where
  "assign_decoded [] st = (st, True)"
| "assign_decoded ((v, put) # rest) st =
     (case decode_uri_component v of None \<Rightarrow> (st, False) | Some t \<Rightarrow> assign_decoded rest (put t st))"

abbreviation set_uuid :: "string \<Rightarrow> proxy_form \<Rightarrow> proxy_form" where
  "set_uuid t st \<equiv> st\<lparr>pf_uuid := t\<rparr>"
abbreviation set_password :: "string \<Rightarrow> proxy_form \<Rightarrow> proxy_form" where
  "set_password t st \<equiv> st\<lparr>pf_password := t\<rparr>"
abbreviation set_username :: "string \<Rightarrow> proxy_form \<Rightarrow> proxy_form" where
  "set_username t st \<equiv> st\<lparr>pf_username := t\<rparr>"
abbreviation set_cipher :: "string \<Rightarrow> proxy_form \<Rightarrow> proxy_form" where
  "set_cipher t st \<equiv> st\<lparr>pf_cipher := t\<rparr>"

definition ss_credentials :: "url_parts \<Rightarrow> proxy_form \<Rightarrow> proxy_form \<times> bool" where
  "ss_credentials u st =
     (if u_password u \<noteq> [] then assign_decoded [(u_username u, set_cipher), (u_password u, set_password)] st
      else if u_username u \<noteq> [] then
        (let decoded = safe_b64_decode (u_username u) in
         if CHR '':'' \<in> set decoded
         then (st\<lparr>pf_cipher := js_split (CHR '':'') decoded ! 0, pf_password := js_split (CHR '':'') decoded ! 1\<rparr>, True)
         else (st\<lparr>pf_password := u_username u\<rparr>, True))
      else (st, True))"

definition credentials :: "string \<Rightarrow> url_parts \<Rightarrow> proxy_form \<Rightarrow> proxy_form \<times> bool" where
  "credentials scheme u st =
     (if scheme = ''vless'' \<or> scheme = ''vmess'' then
        (case assign_decoded [(u_username u, set_uuid)] st of
           (st1, ok) \<Rightarrow> if ok then (st1\<lparr>pf_flow := param u ''flow''\<rparr>, True) else (st1, False))
      else if scheme \<in> {''trojan'', ''hysteria2'', ''hy2''} then
        assign_decoded [(or_text (u_username u) (u_password u), set_password)] st
      else if scheme = ''ss'' then ss_credentials u st
      else if scheme = ''tuic'' then assign_decoded [(u_username u, set_uuid), (u_password u, set_password)] st
      else if scheme \<in> {''socks'', ''socks5'', ''http'', ''https''} then
        assign_decoded [(u_username u, set_username), (u_password u, set_password)] st
      else (st, True))"

definition link_security :: "string \<Rightarrow> url_parts \<Rightarrow> string" where
  "link_security scheme u =
     (let sec = js_lower (param u ''security'') in
      if sec = ''reality'' then ''reality''
      else if sec = ''tls'' \<or> scheme \<in> {''trojan'', ''hysteria2'', ''tuic''} then ''tls'' else ''none'')"

definition link_network :: "url_parts \<Rightarrow> string" where
  "link_network u =
     (let n = js_lower (or_text (param u ''type'') (or_text (param u ''net'') ''tcp'')) in
      if n = ''ws'' \<or> n = ''websocket'' then ''ws''
      else if n = ''grpc'' then ''grpc''
      else if n = ''httpupgrade'' then ''httpupgrade''
      else if n = ''http'' \<or> n = ''h2'' then ''http'' else ''tcp'')"

definition link_params :: "string \<Rightarrow> url_parts \<Rightarrow> proxy_form \<Rightarrow> proxy_form" where
  "link_params scheme u st =
     st\<lparr>pf_security := link_security scheme u,
        pf_sni := or_text (param u ''sni'') (param u ''peer''), pf_fingerprint := or_text (param u ''fp'') ''chrome'',
        pf_alpn := param u ''alpn'',
        pf_insecure := (map_of (u_params u) ''insecure'' = Some ''1'' \<or> map_of (u_params u) ''allowInsecure'' = Some ''1''),
        pf_public_key := param u ''pbk'', pf_short_id := param u ''sid'', pf_spider_x := param u ''spx'',
        pf_network := link_network u, pf_path := param u ''path'', pf_host := param u ''host'',
        pf_service_name := param u ''serviceName'', pf_obfs := param u ''obfs'', pf_obfs_password := param u ''obfs-password'',
        pf_ports := or_text (param u ''mport'') (param u ''ports''), pf_up_mbps := param u ''upmbps'',
        pf_down_mbps := param u ''downmbps''\<rparr>"

text \<open>\<open>replace(":", "")\<close> takes away the first colon.\<close>

definition url_scheme :: "url_parts \<Rightarrow> string" where
  "url_scheme u = js_lower (remove1 (CHR '':'') (u_protocol u))"

definition link_name :: "url_parts \<Rightarrow> string \<Rightarrow> string \<Rightarrow> string" where
  "link_name u name fallback =
     or_text (if u_hash u = [] then name else or_else (decode_uri_component (drop 1 (u_hash u))) (drop 1 (u_hash u))) fallback"

definition form_of_url :: "url_parts \<Rightarrow> string \<Rightarrow> proxy_form \<Rightarrow> proxy_form" where
  "form_of_url u fallback st =
     (let scheme = url_scheme u;
          port = or_else (js_parse_int (u_port u)) 0;
          st1 = st\<lparr>pf_protocol := (if scheme = ''hy2'' then ''hysteria2'' else scheme), pf_server := u_hostname u,
                  pf_port := (if port = 0 then 443 else port), pf_name := link_name u (pf_name st) fallback\<rparr>
      in case credentials scheme u st1 of (st2, ok) \<Rightarrow> if ok then link_params scheme u st2 else st2)"

definition parse_proxy_link :: "link_env \<Rightarrow> string \<Rightarrow> string \<Rightarrow> proxy_form option" where
  "parse_proxy_link env raw fallback =
     (let trimmed = js_trim raw;
          st = (default_form fallback ''127.0.0.1'' 443)\<lparr>pf_raw_link := trimmed\<rparr>;
          decoded = safe_b64_decode (drop 8 trimmed);
          by_url = Some (case le_url env trimmed of Some u \<Rightarrow> form_of_url u fallback st | None \<Rightarrow> st);
          by_vmess = (if js_starts_with (js_lower trimmed) ''vmess://'' \<and> js_starts_with (js_trim decoded) ''{''
                      then (case le_parse env decoded of Some v \<Rightarrow> form_of_vmess v fallback st | None \<Rightarrow> by_url)
                      else by_url)
      in if trimmed = [] then Some st
         else if js_starts_with trimmed ''{''
         then (case le_parse env trimmed of Some obj \<Rightarrow> form_of_json obj fallback st | None \<Rightarrow> by_vmess)
         else by_vmess)"

section \<open>Writing\<close>

definition opt_text :: "string \<Rightarrow> string \<Rightarrow> (string \<times> json) list" where
  "opt_text k v = (if v = [] then [] else [(k, JStr v)])"

definition alpn_list :: "string \<Rightarrow> string list" where
  "alpn_list alpn = filter (\<lambda>s. s \<noteq> []) (map js_trim (js_split (CHR '','') alpn))"

definition tls_json :: "proxy_form \<Rightarrow> json" where
  "tls_json f = JObj
     ([(''enabled'', JBool True), (''server_name'', JStr (or_text (pf_sni f) (pf_server f))),
       (''insecure'', JBool (pf_insecure f))] @
      (if pf_alpn f = [] then [] else [(''alpn'', JArr (map JStr (alpn_list (pf_alpn f))))]) @
      (if pf_fingerprint f = [] then []
       else [(''utls'', JObj [(''enabled'', JBool True), (''fingerprint'', JStr (pf_fingerprint f))])]) @
      (if pf_security f = ''reality''
       then [(''reality'', JObj [(''enabled'', JBool True), (''public_key'', JStr (pf_public_key f)),
                (''short_id'', JStr (pf_short_id f))])] else []))"

definition transport_json :: "proxy_form \<Rightarrow> json" where
  "transport_json f = JObj
     ((''type'', JStr (pf_network f)) # opt_text ''path'' (pf_path f) @
      (if pf_host f = [] then [] else [(''headers'', JObj [(''Host'', JStr (pf_host f))])]) @
      opt_text ''service_name'' (pf_service_name f))"

definition outbound_json :: "proxy_form \<Rightarrow> json" where
  "outbound_json f =
     (let proto = js_lower (pf_protocol f) in JObj
       ([(''type'', JStr (if proto = ''json'' then ''vless'' else proto)), (''tag'', JStr (or_text (pf_name f) ''proxy'')),
         (''server'', JStr (pf_server f)), (''server_port'', JNum (Fin (of_int (pf_port f))))] @
        opt_text ''uuid'' (pf_uuid f) @ opt_text ''password'' (pf_password f) @ opt_text ''username'' (pf_username f) @
        (if proto = ''vless'' \<or> proto = ''json'' then opt_text ''flow'' (pf_flow f) else []) @
        (if pf_security f = ''none'' then [] else [(''tls'', tls_json f)]) @
        (if pf_network f = ''tcp'' then [] else [(''transport'', transport_json f)])))"

definition vmess_json :: "proxy_form \<Rightarrow> json" where
  "vmess_json f = JObj
     [(''v'', JStr ''2''), (''ps'', JStr (pf_name f)), (''add'', JStr (js_trim (pf_server f))),
      (''port'', JNum (Fin (of_int (if pf_port f = 0 then 443 else pf_port f)))), (''id'', JStr (pf_uuid f)),
      (''aid'', JNum (Fin (of_int (pf_alter_id f)))), (''scy'', JStr (or_text (pf_cipher f) ''auto'')),
      (''net'', JStr (or_text (pf_network f) ''tcp'')), (''type'', JStr ''none''), (''host'', JStr (pf_host f)),
      (''path'', JStr (pf_path f)), (''tls'', JStr (if pf_security f = ''tls'' then ''tls'' else [])),
      (''sni'', JStr (pf_sni f)), (''fp'', JStr (or_text (pf_fingerprint f) ''chrome''))]"

text \<open>\<open>URLSearchParams.set\<close> of a key not set before appends it; the code sets every key once.\<close>

definition opt_param :: "string \<Rightarrow> string \<Rightarrow> (string \<times> string) list" where
  "opt_param k v = (if v = [] then [] else [(k, v)])"

definition vless_params :: "proxy_form \<Rightarrow> (string \<times> string) list" where
  "vless_params f =
     [(''type'', or_text (pf_network f) ''tcp''), (''security'', pf_security f)] @
     (if pf_security f = ''reality''
      then opt_param ''pbk'' (pf_public_key f) @ opt_param ''sid'' (pf_short_id f) @ opt_param ''spx'' (pf_spider_x f) else []) @
     (if pf_security f \<noteq> ''none''
      then opt_param ''sni'' (pf_sni f) @ opt_param ''fp'' (pf_fingerprint f) @ opt_param ''alpn'' (pf_alpn f) else []) @
     opt_param ''flow'' (pf_flow f) @ opt_param ''path'' (pf_path f) @ opt_param ''host'' (pf_host f) @
     opt_param ''serviceName'' (pf_service_name f) @ (if pf_insecure f then [(''insecure'', ''1'')] else [])"

definition trojan_params :: "proxy_form \<Rightarrow> (string \<times> string) list" where
  "trojan_params f =
     [(''security'', if pf_security f = ''none'' then ''none'' else ''tls'')] @ opt_param ''sni'' (pf_sni f) @
     opt_param ''alpn'' (pf_alpn f) @ opt_param ''fp'' (pf_fingerprint f) @
     (if pf_network f \<noteq> ''tcp'' then [(''type'', pf_network f)] else []) @ opt_param ''path'' (pf_path f) @
     opt_param ''host'' (pf_host f) @ opt_param ''serviceName'' (pf_service_name f)"

definition hysteria_params :: "proxy_form \<Rightarrow> (string \<times> string) list" where
  "hysteria_params f =
     opt_param ''sni'' (pf_sni f) @ (if pf_insecure f then [(''insecure'', ''1'')] else []) @ opt_param ''obfs'' (pf_obfs f) @
     opt_param ''obfs-password'' (pf_obfs_password f) @ opt_param ''mport'' (pf_ports f) @
     opt_param ''upmbps'' (pf_up_mbps f) @ opt_param ''downmbps'' (pf_down_mbps f)"

definition tuic_params :: "proxy_form \<Rightarrow> (string \<times> string) list" where
  "tuic_params f = opt_param ''sni'' (pf_sni f) @ opt_param ''alpn'' (pf_alpn f)"

text \<open>The parts of a link, and their text.\<close>

record link =
  ln_scheme :: string
  ln_auth :: "string option"
  ln_host :: string
  ln_port :: int
  ln_params :: "(string \<times> string) list"
  ln_fragment :: string

definition link_text :: "link \<Rightarrow> string" where
  "link_text l =
     ln_scheme l @ ''://'' @ (case ln_auth l of Some a \<Rightarrow> a @ ''@'' | None \<Rightarrow> []) @ ln_host l @ '':'' @ int_str (ln_port l)
       @ (if ln_params l = [] then [] else ''?'' @ params_text (ln_params l))
       @ (if ln_fragment l = [] then [] else ''#'' @ ln_fragment l)"

definition form_link :: "proxy_form \<Rightarrow> string \<Rightarrow> string option \<Rightarrow> (string \<times> string) list \<Rightarrow> link" where
  "form_link f scheme auth ps =
     \<lparr>ln_scheme = scheme, ln_auth = auth, ln_host = js_trim (pf_server f), ln_port = (if pf_port f = 0 then 443 else pf_port f),
      ln_params = ps, ln_fragment = encode_uri_component (pf_name f)\<rparr>"

definition vless_link :: "proxy_form \<Rightarrow> link" where
  "vless_link f = form_link f ''vless'' (Some (encode_uri_component (pf_uuid f))) (vless_params f)"

definition trojan_link :: "proxy_form \<Rightarrow> link" where
  "trojan_link f = form_link f ''trojan'' (Some (encode_uri_component (pf_password f))) (trojan_params f)"

definition ss_link :: "proxy_form \<Rightarrow> link" where
  "ss_link f = form_link f ''ss'' (Some (safe_b64_encode (or_text (pf_cipher f) ''aes-256-gcm'' @ '':'' @ pf_password f))) []"

definition hysteria_link :: "proxy_form \<Rightarrow> link" where
  "hysteria_link f = form_link f ''hysteria2'' (Some (encode_uri_component (pf_password f))) (hysteria_params f)"

definition tuic_link :: "proxy_form \<Rightarrow> link" where
  "tuic_link f = form_link f ''tuic''
     (Some (encode_uri_component (pf_uuid f) @ '':'' @ encode_uri_component (pf_password f))) (tuic_params f)"

definition proxy_link :: "proxy_form \<Rightarrow> link" where
  "proxy_link f = form_link f (js_lower (pf_protocol f))
     (if pf_username f = [] \<and> pf_password f = [] then None
      else Some (encode_uri_component (pf_username f) @ '':'' @ encode_uri_component (pf_password f))) []"

definition serialize_proxy_config :: "link_env \<Rightarrow> proxy_form \<Rightarrow> string" where
  "serialize_proxy_config env f =
     (let proto = js_lower (pf_protocol f) in
      if pf_is_json f then le_pretty env (outbound_json f)
      else if proto = ''vless'' then link_text (vless_link f)
      else if proto = ''vmess'' then ''vmess://'' @ safe_b64_encode (le_stringify env (vmess_json f))
      else if proto = ''trojan'' then link_text (trojan_link f)
      else if proto = ''ss'' then link_text (ss_link f)
      else if proto = ''hysteria2'' \<or> proto = ''hy2'' then link_text (hysteria_link f)
      else if proto = ''tuic'' then link_text (tuic_link f)
      else if proto \<in> {''socks'', ''socks5'', ''http'', ''https''} then link_text (proxy_link f)
      else if pf_raw_link f \<noteq> [] then pf_raw_link f
      else link_text (form_link f ''vless'' (Some (encode_uri_component (pf_uuid f))) []))"

section \<open>Base64 round trip\<close>

lemma safe_b64_encode_eq: "safe_b64_encode s = btoa s"
  by (simp add: safe_b64_encode_def unescape_encode)

lemma btoa_standard: "map url_to_standard (btoa s) = btoa s"
proof -
  have small: "list_all (\<lambda>n. n < 64) (sextets (map byte s))" by (rule sextets_less) (simp add: list_all_iff)
  have "byte (sextet n) \<noteq> 45 \<and> byte (sextet n) \<noteq> 95" if "n < 64" for n using that by (auto simp: byte_sextet)
  moreover have "byte (CHR ''-'') = 45" "byte (CHR ''_'') = 95" by (simp_all add: byte_def)
  ultimately have "url_to_standard (sextet n) = sextet n" if "n < 64" for n
    using that unfolding url_to_standard_def by metis
  with small have "map url_to_standard (map sextet (sextets (map byte s))) = map sextet (sextets (map byte s))"
    by (simp add: list_all_iff)
  then show ?thesis by (simp add: btoa_def url_to_standard_def)
qed

lemma safe_b64_round_trip: "utf8_valid s \<Longrightarrow> safe_b64_decode (safe_b64_encode s) = s"
proof -
  assume v: "utf8_valid s"
  have "pad_b64 (btoa s) = btoa s" using btoa_length [of s] by (subst pad_b64.simps) simp
  with v show ?thesis by (simp add: safe_b64_decode_def safe_b64_encode_eq btoa_standard atob_btoa)
qed

section \<open>Outbounds: reading what was written\<close>

lemma text_or_JStr [simp]: "text_or (Some (JStr s)) d = Some (or_text s d)"
  by (simp add: text_or_def or_text_def)

lemma text_or_None [simp]: "text_or None d = Some d"
  by (simp add: text_or_def)

lemma or_text_Nil [simp]: "or_text s [] = s"
  by (simp add: or_text_def)

lemma or_text_nonempty [simp]: "s \<noteq> [] \<Longrightarrow> or_text s d = s"
  by (simp add: or_text_def)

text \<open>The fields of an outbound, looked up in its parts.\<close>

lemma map_of_opt_text: "map_of (opt_text k v @ kvs) j = (if j = k \<and> v \<noteq> [] then Some (JStr v) else map_of kvs j)"
  by (simp add: opt_text_def)

lemma map_of_if: "map_of ((if b then xs else ys) @ kvs) j = (if b then map_of (xs @ kvs) j else map_of (ys @ kvs) j)"
  by simp

lemma text_or_opt: "text_or (if v \<noteq> [] then Some (JStr v) else None) [] = Some v"
  by simp

text \<open>The forms an outbound stands for: what the texts leave out has its default.\<close>

definition tls_fields_ok :: "proxy_form \<Rightarrow> bool" where
  "tls_fields_ok f \<longleftrightarrow>
     (if pf_security f = ''none''
      then pf_sni f = [] \<and> pf_alpn f = [] \<and> pf_fingerprint f = ''chrome'' \<and> \<not> pf_insecure f
      else pf_sni f \<noteq> [] \<and> pf_fingerprint f \<noteq> [] \<and> (pf_alpn f = [] \<or> js_join '','' (alpn_list (pf_alpn f)) = pf_alpn f))
     \<and> (pf_security f = ''reality'' \<or> pf_public_key f = [] \<and> pf_short_id f = [])"

definition transport_fields_ok :: "proxy_form \<Rightarrow> bool" where
  "transport_fields_ok f \<longleftrightarrow> pf_network f \<noteq> [] \<and>
     (pf_network f = ''tcp'' \<longrightarrow> pf_path f = [] \<and> pf_host f = [] \<and> pf_service_name f = [])"

text \<open>The fields an outbound has no place for keep the values of a new form.\<close>

definition json_fields :: "proxy_form \<Rightarrow> string \<Rightarrow> proxy_form" where
  "json_fields f fallback =
     (default_form fallback ''127.0.0.1'' 443)
       \<lparr>pf_protocol := pf_protocol f, pf_name := pf_name f, pf_server := pf_server f, pf_port := pf_port f,
        pf_uuid := pf_uuid f, pf_password := pf_password f, pf_username := pf_username f, pf_flow := pf_flow f,
        pf_security := pf_security f, pf_sni := pf_sni f, pf_alpn := pf_alpn f, pf_fingerprint := pf_fingerprint f,
        pf_insecure := pf_insecure f, pf_public_key := pf_public_key f, pf_short_id := pf_short_id f,
        pf_network := pf_network f, pf_path := pf_path f, pf_host := pf_host f, pf_service_name := pf_service_name f,
        pf_raw_link := pf_raw_link f, pf_is_json := True\<rparr>"

definition json_form_ok :: "proxy_form \<Rightarrow> string \<Rightarrow> bool" where
  "json_form_ok f fallback \<longleftrightarrow> f = json_fields f fallback
     \<and> js_lower (pf_protocol f) = pf_protocol f \<and> pf_protocol f \<notin> {[], ''json''} \<and> pf_name f \<noteq> []
     \<and> (pf_flow f \<noteq> [] \<longrightarrow> pf_protocol f = ''vless'') \<and> pf_security f \<in> {''none'', ''tls'', ''reality''}
     \<and> tls_fields_ok f \<and> transport_fields_ok f"

lemma all_values_JStr: "all_values (\<lambda>j. case j of JStr s \<Rightarrow> Some s | _ \<Rightarrow> None) (map JStr ss) = Some ss"
  by (rule all_values_map) (simp add: list_all_iff)

lemma tls_json_get:
  "json_get ''server_name'' (tls_json f) = Some (JStr (or_text (pf_sni f) (pf_server f)))"
  "json_get ''insecure'' (tls_json f) = Some (JBool (pf_insecure f))"
  "json_get ''enabled'' (tls_json f) = Some (JBool True)"
  "json_get ''alpn'' (tls_json f) = (if pf_alpn f = [] then None else Some (JArr (map JStr (alpn_list (pf_alpn f)))))"
  "json_get ''utls'' (tls_json f) = (if pf_fingerprint f = [] then None
     else Some (JObj [(''enabled'', JBool True), (''fingerprint'', JStr (pf_fingerprint f))]))"
  "json_get ''reality'' (tls_json f) = (if pf_security f = ''reality'' then Some (JObj [(''enabled'', JBool True),
     (''public_key'', JStr (pf_public_key f)), (''short_id'', JStr (pf_short_id f))]) else None)"
  by (simp_all add: tls_json_def)

lemma transport_json_get:
  "json_get ''type'' (transport_json f) = Some (JStr (pf_network f))"
  "json_get ''path'' (transport_json f) = (if pf_path f = [] then None else Some (JStr (pf_path f)))"
  "json_get ''headers'' (transport_json f) = (if pf_host f = [] then None else Some (JObj [(''Host'', JStr (pf_host f))]))"
  "json_get ''service_name'' (transport_json f) = (if pf_service_name f = [] then None else Some (JStr (pf_service_name f)))"
  by (simp_all add: transport_json_def opt_text_def)

lemma outbound_get:
  "json_get ''type'' (outbound_json f) =
     Some (JStr (if js_lower (pf_protocol f) = ''json'' then ''vless'' else js_lower (pf_protocol f)))"
  "json_get ''tag'' (outbound_json f) = Some (JStr (or_text (pf_name f) ''proxy''))"
  "json_get ''server'' (outbound_json f) = Some (JStr (pf_server f))"
  "json_get ''server_port'' (outbound_json f) = Some (JNum (Fin (of_int (pf_port f))))"
  "json_get ''uuid'' (outbound_json f) = (if pf_uuid f = [] then None else Some (JStr (pf_uuid f)))"
  "json_get ''password'' (outbound_json f) = (if pf_password f = [] then None else Some (JStr (pf_password f)))"
  "json_get ''username'' (outbound_json f) = (if pf_username f = [] then None else Some (JStr (pf_username f)))"
  "json_get ''flow'' (outbound_json f) =
     (if pf_flow f \<noteq> [] \<and> js_lower (pf_protocol f) \<in> {''vless'', ''json''} then Some (JStr (pf_flow f)) else None)"
  "json_get ''tls'' (outbound_json f) = (if pf_security f = ''none'' then None else Some (tls_json f))"
  "json_get ''transport'' (outbound_json f) = (if pf_network f = ''tcp'' then None else Some (transport_json f))"
  by (simp_all add: outbound_json_def Let_def opt_text_def)

lemma truthy_object [simp]: "json_truthy (tls_json f)" "json_truthy (transport_json f)"
  by (simp_all add: tls_json_def transport_json_def)

lemma json_get_JNull [simp]: "json_get k JNull = None"
  by simp

lemma read_tls_outbound:
  assumes ok: "tls_fields_ok f" "pf_security f \<in> {''none'', ''tls'', ''reality''}"
    and st: "pf_sni st = []" "pf_alpn st = []" "pf_fingerprint st = ''chrome''" "\<not> pf_insecure st"
      "pf_public_key st = []" "pf_short_id st = []"
  shows "read_tls (outbound_json f) st = Some (st\<lparr>pf_security := pf_security f, pf_sni := pf_sni f, pf_alpn := pf_alpn f,
    pf_fingerprint := pf_fingerprint f, pf_insecure := pf_insecure f, pf_public_key := pf_public_key f, pf_short_id := pf_short_id f\<rparr>)"
proof (cases "pf_security f = ''none''")
  case True
  with ok st show ?thesis
    by (cases st) (simp add: read_tls_def truthy_field_def outbound_get tls_fields_ok_def)
next
  case False
  with ok(1) have f: "pf_sni f \<noteq> []" "pf_fingerprint f \<noteq> []" "pf_alpn f = [] \<or> js_join '','' (alpn_list (pf_alpn f)) = pf_alpn f"
    "pf_security f = ''reality'' \<or> pf_public_key f = [] \<and> pf_short_id f = []"
    by (simp_all add: tls_fields_ok_def)
  have tls: "truthy_field (outbound_json f) ''tls''" "sub_object (outbound_json f) ''tls'' = tls_json f"
    using False by (simp_all add: truthy_field_def sub_object_def outbound_get)
  have alpn: "joined_texts (json_get ''alpn'' (tls_json f)) = Some (pf_alpn f)"
    using f(3) by (auto simp: joined_texts_def tls_json_get all_values_JStr)
  show ?thesis
  proof (cases "pf_security f = ''reality''")
    case True
    with f(1,2) tls alpn show ?thesis
      by (simp add: read_tls_def field_def truthy_field_def sub_object_def tls_json_get)
  next
    case other: False
    with ok(2) False have "pf_security f = ''tls''" by simp
    with f st tls alpn show ?thesis
      by (cases st) (simp add: read_tls_def field_def truthy_field_def sub_object_def tls_json_get)
  qed
qed

lemma read_transport_outbound:
  assumes "transport_fields_ok f"
    "pf_network st = ''tcp''" "pf_path st = []" "pf_host st = []" "pf_service_name st = []"
  shows "read_transport (outbound_json f) st = Some (st\<lparr>pf_network := pf_network f, pf_path := pf_path f,
    pf_host := pf_host f, pf_service_name := pf_service_name f\<rparr>)"
proof (cases "pf_network f = ''tcp''")
  case True
  with assms show ?thesis
    by (cases st) (simp add: read_transport_def truthy_field_def outbound_get transport_fields_ok_def)
next
  case False
  with assms(1) show ?thesis
    by (simp add: read_transport_def truthy_field_def sub_object_def outbound_get field_def transport_json_get transport_fields_ok_def)
qed

lemma form_of_outbound:
  assumes "json_form_ok f fallback"
  shows "form_of_json (outbound_json f) fallback ((default_form fallback ''127.0.0.1'' 443)\<lparr>pf_raw_link := r\<rparr>) = Some (f\<lparr>pf_raw_link := r\<rparr>)"
proof -
  let ?st = "(default_form fallback ''127.0.0.1'' 443)\<lparr>pf_raw_link := r, pf_is_json := True, pf_protocol := pf_protocol f,
    pf_name := pf_name f, pf_server := pf_server f, pf_port := pf_port f, pf_uuid := pf_uuid f,
    pf_password := pf_password f, pf_username := pf_username f, pf_flow := pf_flow f\<rparr>"
  let ?st1 = "?st\<lparr>pf_security := pf_security f, pf_sni := pf_sni f, pf_alpn := pf_alpn f, pf_fingerprint := pf_fingerprint f,
    pf_insecure := pf_insecure f, pf_public_key := pf_public_key f, pf_short_id := pf_short_id f\<rparr>"
  have f: "js_lower (pf_protocol f) = pf_protocol f" "pf_protocol f \<noteq> []" "pf_protocol f \<noteq> ''json''" "pf_name f \<noteq> []"
      "pf_flow f = [] \<or> pf_protocol f = ''vless''" "pf_security f \<in> {''none'', ''tls'', ''reality''}"
      "tls_fields_ok f" "transport_fields_ok f" and eq: "f = json_fields f fallback"
    using assms unfolding json_form_ok_def by blast+
  have tls: "read_tls (outbound_json f) ?st = Some ?st1"
    by (rule read_tls_outbound [OF f(7,6)]) (simp_all add: default_form_def)
  have tr: "read_transport (outbound_json f) ?st1 = Some (?st1\<lparr>pf_network := pf_network f, pf_path := pf_path f,
      pf_host := pf_host f, pf_service_name := pf_service_name f\<rparr>)"
    by (rule read_transport_outbound [OF f(8)]) (simp_all add: default_form_def)
  have all: "?st1\<lparr>pf_network := pf_network f, pf_path := pf_path f, pf_host := pf_host f, pf_service_name := pf_service_name f\<rparr>
      = f\<lparr>pf_raw_link := r\<rparr>"
    by (subst (2) eq) (simp add: json_fields_def default_form_def)
  have fields: "field (outbound_json f) ''type'' ''json'' = Some (pf_protocol f)" "field (outbound_json f) ''tag'' fallback = Some (pf_name f)"
      "field (outbound_json f) ''server'' [] = Some (pf_server f)"
      "port_number (json_get ''server_port'' (outbound_json f)) = Some (pf_port f)"
      "field (outbound_json f) ''uuid'' [] = Some (pf_uuid f)" "field (outbound_json f) ''password'' [] = Some (pf_password f)"
      "field (outbound_json f) ''username'' [] = Some (pf_username f)" "field (outbound_json f) ''flow'' [] = Some (pf_flow f)"
    using f(1-5) by (auto simp: field_def outbound_get port_number_def)
  show ?thesis
    unfolding form_of_json_def fields bind.bind_lunit Option.bind.bind_lunit
    using tls tr all by (simp add: default_form_def)
qed


definition sample_outbound :: proxy_form where
  "sample_outbound = (default_form ''Home'' ''example.org'' 443)\<lparr>pf_uuid := ''1-2'', pf_sni := ''example.org'', pf_alpn := ''h2,http/1.1'',
     pf_security := ''reality'', pf_public_key := ''key'', pf_network := ''ws'', pf_path := ''/p'', pf_is_json := True\<rparr>"

lemma sample_alpn: "js_join '','' (alpn_list ''h2,http/1.1'') = ''h2,http/1.1''"
proof -
  have "js_trim ''h2'' = ''h2''" "js_trim ''http/1.1'' = ''http/1.1''"
    by (rule js_trim_printable; simp add: printable_def byte_def)+
  then show ?thesis by (simp add: alpn_list_def)
qed

lemma sample_outbound_ok: "json_form_ok sample_outbound ''x''"
proof -
  have "js_lower ''vless'' = ''vless''" by code_simp
  with sample_alpn show ?thesis
    by (simp add: json_form_ok_def sample_outbound_def default_form_def json_fields_def tls_fields_ok_def transport_fields_ok_def)
qed

definition json_env :: "json \<Rightarrow> string \<Rightarrow> link_env" where
  "json_env v t = \<lparr>le_url = (\<lambda>_. None), le_parse = (\<lambda>s. if s = t then Some v else None), le_stringify = (\<lambda>_. t), le_pretty = (\<lambda>_. t)\<rparr>"


section \<open>Links: reading what was written\<close>

text \<open>
  What the URL parser of the browser reports of a link: for a scheme that is not one of the web's
  and a plain host the parts are the texts between the separators, and the parameters are decoded.
\<close>

definition url_read :: "link \<Rightarrow> url_parts" where
  "url_read l =
     (let auth = or_else (ln_auth l) [] in
      \<lparr>u_protocol = ln_scheme l @ '':'', u_hostname = ln_host l, u_port = int_str (ln_port l),
       u_username = takeWhile (\<lambda>c. c \<noteq> CHR '':'') auth, u_password = drop 1 (dropWhile (\<lambda>c. c \<noteq> CHR '':'') auth),
       u_hash = (if ln_fragment l = [] then [] else ''#'' @ ln_fragment l), u_params = ln_params l\<rparr>)"

lemma no_colon_encoded: "CHR '':'' \<notin> set (encode_uri_component s)"
proof -
  have hex: "hex_digit n \<noteq> CHR '':''" if "n < 16" for n
  proof -
    have n: "n \<in> set [0..<16]" using that by simp
    have "list_all (\<lambda>n. hex_digit n \<noteq> CHR '':'') [0..<16]" by code_simp
    then show ?thesis unfolding list_all_iff using n by (rule bspec)
  qed
  have div: "byte c div 16 < 16" for c using byte_less [of c] by (simp add: less_mult_imp_div_less)
  have "CHR '':'' \<notin> set (escape c)" for c
    using hex [OF div [of c]] hex [of "byte c mod 16"] by (auto simp: escape_def dest: sym)
  moreover have "\<not> component_char (CHR '':'')" by (simp add: component_char_def letter_or_digit_def byte_def)
  ultimately show ?thesis by (auto simp: encode_uri_component_def)
qed

lemma takeWhile_no_colon: "CHR '':'' \<notin> set a \<Longrightarrow> takeWhile (\<lambda>c. c \<noteq> CHR '':'') a = a \<and> dropWhile (\<lambda>c. c \<noteq> CHR '':'') a = []"
  by (auto simp: takeWhile_eq_all_conv dropWhile_eq_Nil_conv)

lemma last_append_printable: "list_all printable b \<Longrightarrow> b \<noteq> [] \<Longrightarrow> printable (last (a @ b))"
  by (simp add: list_all_iff)

lemma int_str_printable: "0 \<le> n \<Longrightarrow> list_all printable (int_str n) \<and> int_str n \<noteq> []"
  by (simp add: int_str_def nat_str_printable)

lemma link_text_trim:
  assumes "ln_scheme l \<noteq> []" "printable (hd (ln_scheme l))" "0 \<le> ln_port l" "list_all printable (ln_fragment l)"
  shows "js_trim (link_text l) = link_text l"
proof (rule js_trim_printable)
  show "link_text l \<noteq> []" "printable (hd (link_text l))" using assms(1,2) by (simp_all add: link_text_def hd_append)
  have port: "list_all printable (int_str (ln_port l))" "int_str (ln_port l) \<noteq> []" using int_str_printable [OF assms(3)] by simp_all
  have "printable (CHR ''?'')" "printable (CHR ''#'')" by (simp_all add: printable_def byte_def)
  with port params_printable assms(4) have tail: "list_all printable (int_str (ln_port l)
      @ (if ln_params l = [] then [] else ''?'' @ params_text (ln_params l))
      @ (if ln_fragment l = [] then [] else ''#'' @ ln_fragment l))" by (simp only: list_all_append) simp
  have "printable (last ((ln_scheme l @ ''://'' @ (case ln_auth l of Some a \<Rightarrow> a @ ''@'' | None \<Rightarrow> []) @ ln_host l @ '':'')
      @ int_str (ln_port l) @ (if ln_params l = [] then [] else ''?'' @ params_text (ln_params l))
      @ (if ln_fragment l = [] then [] else ''#'' @ ln_fragment l)))"
    by (rule last_append_printable [OF tail]) (simp add: port)
  then show "printable (last (link_text l))" by (simp only: link_text_def append_assoc)
qed

text \<open>Looking a key up part by part.\<close>

lemma map_of_parts:
  "map_of (xs @ ys) j = (case map_of xs j of Some v \<Rightarrow> Some v | None \<Rightarrow> map_of ys j)"
  "map_of (opt_param k v) j = (if k = j \<and> v \<noteq> [] then Some v else None)"
  "map_of (if b then xs else []) j = (if b then map_of xs j else None)"
  by (auto simp: opt_param_def map_add_def split: option.splits)

lemma vless_get:
  "map_of (vless_params f) ''type'' = Some (or_text (pf_network f) ''tcp'')"
  "map_of (vless_params f) ''security'' = Some (pf_security f)"
  "map_of (vless_params f) ''pbk'' = (if pf_security f = ''reality'' \<and> pf_public_key f \<noteq> [] then Some (pf_public_key f) else None)"
  "map_of (vless_params f) ''sid'' = (if pf_security f = ''reality'' \<and> pf_short_id f \<noteq> [] then Some (pf_short_id f) else None)"
  "map_of (vless_params f) ''spx'' = (if pf_security f = ''reality'' \<and> pf_spider_x f \<noteq> [] then Some (pf_spider_x f) else None)"
  "map_of (vless_params f) ''sni'' = (if pf_security f \<noteq> ''none'' \<and> pf_sni f \<noteq> [] then Some (pf_sni f) else None)"
  "map_of (vless_params f) ''fp'' = (if pf_security f \<noteq> ''none'' \<and> pf_fingerprint f \<noteq> [] then Some (pf_fingerprint f) else None)"
  "map_of (vless_params f) ''alpn'' = (if pf_security f \<noteq> ''none'' \<and> pf_alpn f \<noteq> [] then Some (pf_alpn f) else None)"
  by (simp_all add: vless_params_def map_of_parts del: map_of_append)

lemma vless_get_more:
  "map_of (vless_params f) ''flow'' = (if pf_flow f \<noteq> [] then Some (pf_flow f) else None)"
  "map_of (vless_params f) ''path'' = (if pf_path f \<noteq> [] then Some (pf_path f) else None)"
  "map_of (vless_params f) ''host'' = (if pf_host f \<noteq> [] then Some (pf_host f) else None)"
  "map_of (vless_params f) ''serviceName'' = (if pf_service_name f \<noteq> [] then Some (pf_service_name f) else None)"
  "map_of (vless_params f) ''insecure'' = (if pf_insecure f then Some ''1'' else None)"
  "map_of (vless_params f) ''allowInsecure'' = None" "map_of (vless_params f) ''net'' = None"
  "map_of (vless_params f) ''peer'' = None" "map_of (vless_params f) ''obfs'' = None"
  "map_of (vless_params f) ''obfs-password'' = None" "map_of (vless_params f) ''mport'' = None"
  "map_of (vless_params f) ''ports'' = None" "map_of (vless_params f) ''upmbps'' = None"
  "map_of (vless_params f) ''downmbps'' = None"
  by (simp_all add: vless_params_def map_of_parts del: map_of_append)

text \<open>The forms a VLESS link stands for.\<close>

definition link_fields :: "proxy_form \<Rightarrow> string \<Rightarrow> proxy_form" where
  "link_fields f fallback =
     (default_form fallback ''127.0.0.1'' 443)
       \<lparr>pf_name := pf_name f, pf_server := pf_server f, pf_port := pf_port f, pf_uuid := pf_uuid f, pf_flow := pf_flow f,
        pf_security := pf_security f, pf_sni := pf_sni f, pf_alpn := pf_alpn f, pf_fingerprint := pf_fingerprint f,
        pf_insecure := pf_insecure f, pf_public_key := pf_public_key f, pf_short_id := pf_short_id f, pf_spider_x := pf_spider_x f,
        pf_network := pf_network f, pf_path := pf_path f, pf_host := pf_host f, pf_service_name := pf_service_name f,
        pf_raw_link := pf_raw_link f\<rparr>"

definition vless_form_ok :: "proxy_form \<Rightarrow> string \<Rightarrow> bool" where
  "vless_form_ok f fallback \<longleftrightarrow> f = link_fields f fallback \<and> utf8_valid (pf_name f) \<and> utf8_valid (pf_uuid f)
     \<and> pf_name f \<noteq> [] \<and> js_trim (pf_server f) = pf_server f \<and> 0 < pf_port f
     \<and> pf_security f \<in> {''none'', ''tls'', ''reality''} \<and> pf_network f \<in> {''tcp'', ''ws'', ''grpc'', ''http'', ''httpupgrade''}
     \<and> (if pf_security f = ''none'' then pf_sni f = [] \<and> pf_alpn f = [] \<and> pf_fingerprint f = ''chrome'' else pf_fingerprint f \<noteq> [])
     \<and> (pf_security f = ''reality'' \<or> pf_public_key f = [] \<and> pf_short_id f = [] \<and> pf_spider_x f = [])"

lemma link_name_encoded:
  assumes "utf8_valid n" "n \<noteq> []" "u_hash u = ''#'' @ encode_uri_component n"
  shows "link_name u name fallback = n"
  using assms by (simp add: link_name_def decode_encode_uri)

lemma encode_nonempty: "s \<noteq> [] \<Longrightarrow> encode_uri_component s \<noteq> []"
  by (cases s) (auto simp: encode_uri_component_def escape_def)

lemma lower_names:
  "js_lower ''vless'' = ''vless''" "js_lower ''vmess'' = ''vmess''" "js_lower ''ss'' = ''ss''"
  "js_lower ''none'' = ''none''" "js_lower ''tls'' = ''tls''" "js_lower ''reality'' = ''reality''"
  "js_lower ''tcp'' = ''tcp''" "js_lower ''ws'' = ''ws''" "js_lower ''grpc'' = ''grpc''" "js_lower ''http'' = ''http''"
  "js_lower ''httpupgrade'' = ''httpupgrade''"
  by code_simp+

lemma link_params_vless:
  assumes ok: "vless_form_ok f fallback" and u: "u_params u = vless_params f"
  shows "link_params ''vless'' u st =
    st\<lparr>pf_security := pf_security f, pf_sni := pf_sni f, pf_fingerprint := pf_fingerprint f, pf_alpn := pf_alpn f,
       pf_insecure := pf_insecure f, pf_public_key := pf_public_key f, pf_short_id := pf_short_id f, pf_spider_x := pf_spider_x f,
       pf_network := pf_network f, pf_path := pf_path f, pf_host := pf_host f, pf_service_name := pf_service_name f,
       pf_obfs := [], pf_obfs_password := [], pf_ports := [], pf_up_mbps := [], pf_down_mbps := []\<rparr>"
proof -
  have f: "pf_security f \<in> {''none'', ''tls'', ''reality''}" "pf_network f \<in> {''tcp'', ''ws'', ''grpc'', ''http'', ''httpupgrade''}"
    "if pf_security f = ''none'' then pf_sni f = [] \<and> pf_alpn f = [] \<and> pf_fingerprint f = ''chrome'' else pf_fingerprint f \<noteq> []"
    "pf_security f = ''reality'' \<or> pf_public_key f = [] \<and> pf_short_id f = [] \<and> pf_spider_x f = []"
    using ok unfolding vless_form_ok_def by blast+
  have sec: "link_security ''vless'' u = pf_security f"
    using f(1) by (auto simp: link_security_def param_def u vless_get lower_names Let_def)
  have net: "link_network u = pf_network f"
    using f(2) by (auto simp: link_network_def param_def u vless_get lower_names Let_def)
  have tls: "or_text (param u ''sni'') (param u ''peer'') = pf_sni f" "or_text (param u ''fp'') ''chrome'' = pf_fingerprint f"
      "param u ''alpn'' = pf_alpn f"
    using f(3) by (simp_all add: param_def u vless_get vless_get_more or_text_def split: if_splits)
  have reality: "param u ''pbk'' = pf_public_key f" "param u ''sid'' = pf_short_id f" "param u ''spx'' = pf_spider_x f"
    using f(4) by (auto simp: param_def u vless_get)
  have rest: "param u ''path'' = pf_path f" "param u ''host'' = pf_host f" "param u ''serviceName'' = pf_service_name f"
      "param u ''obfs'' = []" "param u ''obfs-password'' = []" "or_text (param u ''mport'') (param u ''ports'') = []"
      "param u ''upmbps'' = []" "param u ''downmbps'' = []"
    by (simp_all add: param_def u vless_get_more)
  have insecure: "(map_of (u_params u) ''insecure'' = Some ''1'' \<or> map_of (u_params u) ''allowInsecure'' = Some ''1'') = pf_insecure f"
    by (simp add: u vless_get_more)
  show ?thesis unfolding link_params_def sec net tls reality rest insecure by (rule refl)
qed

lemma url_scheme_read: "CHR '':'' \<notin> set (ln_scheme l) \<Longrightarrow> js_lower (ln_scheme l) = ln_scheme l \<Longrightarrow> url_scheme (url_read l) = ln_scheme l"
  by (simp add: url_scheme_def url_read_def Let_def remove1_append)

lemma form_of_url_read:
  assumes "CHR '':'' \<notin> set (ln_scheme l)" "js_lower (ln_scheme l) = ln_scheme l" "ln_scheme l \<noteq> ''hy2''" "0 < ln_port l"
    "ln_fragment l = encode_uri_component n" "utf8_valid n" "n \<noteq> []"
  shows "form_of_url (url_read l) fallback st =
    (case credentials (ln_scheme l) (url_read l)
        (st\<lparr>pf_protocol := ln_scheme l, pf_server := ln_host l, pf_port := ln_port l, pf_name := n\<rparr>) of
       (st2, ok) \<Rightarrow> if ok then link_params (ln_scheme l) (url_read l) st2 else st2)"
proof -
  have hash: "u_hash (url_read l) = ''#'' @ encode_uri_component n"
    using assms(5) encode_nonempty [OF assms(7)] by (simp add: url_read_def Let_def)
  have "js_parse_int (u_port (url_read l)) = Some (ln_port l)" "u_hostname (url_read l) = ln_host l"
    using assms(4) parse_int_str [of "ln_port l"] by (simp_all add: url_read_def Let_def)
  with assms(3,4) link_name_encoded [OF assms(6,7) hash] show ?thesis
    unfolding form_of_url_def url_scheme_read [OF assms(1,2)] Let_def by simp
qed

text \<open>The text of a link of the form is neither JSON nor the base64 form of VMess.\<close>

lemma parse_link_text:
  assumes "js_trim t = t" "t \<noteq> []" "hd t \<noteq> CHR ''{''" "\<not> js_starts_with (js_lower t) ''vmess://''" "le_url env t = Some u"
  shows "parse_proxy_link env t fallback = Some (form_of_url u fallback ((default_form fallback ''127.0.0.1'' 443)\<lparr>pf_raw_link := t\<rparr>))"
  using assms by (cases t) (simp_all add: parse_proxy_link_def js_starts_with_def Let_def)

lemma not_vmess:
  "\<not> js_starts_with (js_lower (''vless'' @ s)) ''vmess://''" "\<not> js_starts_with (js_lower (''ss'' @ s)) ''vmess://''"
  "\<not> js_starts_with (js_lower (''trojan'' @ s)) ''vmess://''"
  by (simp_all only: js_lower_append) (simp_all add: js_lower_def js_starts_with_def lower_char_def is_upper_def)

lemma link_text_start: "link_text l = ln_scheme l @ drop (length (ln_scheme l)) (link_text l)"
  by (simp add: link_text_def)

text \<open>C23: A VLESS link written from the form reads back as the same form, field for field, for every form such
  a link stands for, given that the browser's URL parser reports the parts of that link.\<close>

theorem vless_link_reads_back:
  assumes ok: "vless_form_ok f fallback" and written: "t = serialize_proxy_config env f"
    and url: "le_url env (link_text (vless_link f)) = Some (url_read (vless_link f))"
  shows "parse_proxy_link env t fallback = Some (f\<lparr>pf_raw_link := t\<rparr>)"
proof -
  have f: "utf8_valid (pf_name f)" "utf8_valid (pf_uuid f)" "pf_name f \<noteq> []" "js_trim (pf_server f) = pf_server f" "0 < pf_port f"
    and eq: "f = link_fields f fallback"
    using ok unfolding vless_form_ok_def by blast+
  have proto: "pf_protocol f = ''vless''" "\<not> pf_is_json f" by (subst eq, simp add: link_fields_def default_form_def)+
  have t: "t = link_text (vless_link f)" by (simp add: written serialize_proxy_config_def proto lower_names Let_def)
  let ?l = "vless_link f"
  have l: "ln_scheme ?l = ''vless''" "ln_host ?l = pf_server f" "ln_port ?l = pf_port f" "ln_params ?l = vless_params f"
      "ln_fragment ?l = encode_uri_component (pf_name f)" "ln_auth ?l = Some (encode_uri_component (pf_uuid f))"
    using f by (simp_all add: vless_link_def form_link_def)
  have trim: "js_trim t = t" unfolding t
    by (rule link_text_trim) (use l f in \<open>simp_all add: component_printable printable_def byte_def\<close>)
  have "t = ''vless'' @ drop (length ''vless'') t" using link_text_start [of ?l] unfolding t l(1) .
  then obtain r where start: "t = ''vless'' @ r" by blast
  have "t \<noteq> []" "hd t \<noteq> CHR ''{''" by (simp_all add: start)
  moreover have "\<not> js_starts_with (js_lower t) ''vmess://''" unfolding start by (rule not_vmess)
  ultimately have parse: "parse_proxy_link env t fallback =
      Some (form_of_url (url_read ?l) fallback ((default_form fallback ''127.0.0.1'' 443)\<lparr>pf_raw_link := t\<rparr>))"
    using trim url unfolding t by (intro parse_link_text)
  let ?st = "(default_form fallback ''127.0.0.1'' 443)\<lparr>pf_raw_link := t, pf_protocol := ''vless'', pf_server := pf_server f,
      pf_port := pf_port f, pf_name := pf_name f\<rparr>"
  have user: "u_username (url_read ?l) = encode_uri_component (pf_uuid f)"
    using takeWhile_no_colon [OF no_colon_encoded] by (simp add: url_read_def l Let_def)
  have ps: "u_params (url_read ?l) = vless_params f" by (simp add: url_read_def l Let_def)
  have cred: "credentials ''vless'' (url_read ?l) ?st = (?st\<lparr>pf_uuid := pf_uuid f, pf_flow := pf_flow f\<rparr>, True)"
    using decode_encode_uri [OF f(2)] by (simp add: credentials_def user param_def ps vless_get_more)
  have "form_of_url (url_read ?l) fallback ((default_form fallback ''127.0.0.1'' 443)\<lparr>pf_raw_link := t\<rparr>) =
      link_params ''vless'' (url_read ?l) (?st\<lparr>pf_uuid := pf_uuid f, pf_flow := pf_flow f\<rparr>)"
    by (subst form_of_url_read [OF _ _ _ _ l(5) f(1,3)]) (use f(5) cred in \<open>simp_all add: l lower_names\<close>)
  also have "\<dots> = f\<lparr>pf_raw_link := t\<rparr>"
    unfolding link_params_vless [OF ok ps] by (subst (18) eq) (simp add: link_fields_def default_form_def)
  finally show ?thesis using parse by simp
qed

definition sample_vless :: proxy_form where
  "sample_vless = (default_form ''x'' ''127.0.0.1'' 443)\<lparr>pf_name := ''My server'', pf_server := ''example.org'', pf_port := 8443,
     pf_uuid := ''1-2'', pf_security := ''none'', pf_network := ''ws'', pf_path := ''/a?b&c''\<rparr>"

lemma sample_vless_ok: "vless_form_ok sample_vless ''x''"
proof -
  have "js_trim ''example.org'' = ''example.org''" by (rule js_trim_printable; simp add: printable_def byte_def)
  moreover have "utf8_valid ''My server''" "utf8_valid ''1-2''" by (rule utf8_valid_ascii; simp add: byte_def)+
  ultimately show ?thesis by (simp add: vless_form_ok_def sample_vless_def default_form_def link_fields_def)
qed

definition url_env :: "url_parts \<Rightarrow> link_env" where
  "url_env u = \<lparr>le_url = (\<lambda>_. Some u), le_parse = (\<lambda>_. None), le_stringify = (\<lambda>_. []), le_pretty = (\<lambda>_. [])\<rparr>"

theorem vless_link_reads_back_witness:
  "map_option pf_path (parse_proxy_link (url_env (url_read (vless_link sample_vless)))
     (serialize_proxy_config (url_env (url_read (vless_link sample_vless))) sample_vless) ''x'') = Some ''/a?b&c''"
proof -
  let ?env = "url_env (url_read (vless_link sample_vless))"
  have "parse_proxy_link ?env (serialize_proxy_config ?env sample_vless) ''x''
      = Some (sample_vless\<lparr>pf_raw_link := serialize_proxy_config ?env sample_vless\<rparr>)"
    by (rule vless_link_reads_back [OF sample_vless_ok refl]) (simp add: url_env_def)
  then show ?thesis by (simp add: sample_vless_def default_form_def)
qed

section \<open>VMess\<close>

definition vmess_fields :: "proxy_form \<Rightarrow> string \<Rightarrow> proxy_form" where
  "vmess_fields f fallback =
     (default_form fallback ''127.0.0.1'' 443)
       \<lparr>pf_protocol := ''vmess'', pf_name := pf_name f, pf_server := pf_server f, pf_port := pf_port f, pf_uuid := pf_uuid f,
        pf_alter_id := pf_alter_id f, pf_cipher := pf_cipher f, pf_network := pf_network f, pf_path := pf_path f,
        pf_host := pf_host f, pf_security := pf_security f, pf_sni := pf_sni f, pf_fingerprint := pf_fingerprint f,
        pf_raw_link := pf_raw_link f\<rparr>"

definition vmess_form_ok :: "proxy_form \<Rightarrow> string \<Rightarrow> bool" where
  "vmess_form_ok f fallback \<longleftrightarrow> f = vmess_fields f fallback \<and> pf_name f \<noteq> [] \<and> js_trim (pf_server f) = pf_server f
     \<and> pf_port f \<noteq> 0 \<and> pf_cipher f \<noteq> [] \<and> pf_network f \<noteq> [] \<and> js_lower (pf_network f) = pf_network f
     \<and> pf_security f \<in> {''none'', ''tls''} \<and> pf_fingerprint f \<noteq> []"

lemma vmess_json_get:
  "json_get ''ps'' (vmess_json f) = Some (JStr (pf_name f))" "json_get ''add'' (vmess_json f) = Some (JStr (js_trim (pf_server f)))"
  "json_get ''port'' (vmess_json f) = Some (JNum (Fin (of_int (if pf_port f = 0 then 443 else pf_port f))))"
  "json_get ''id'' (vmess_json f) = Some (JStr (pf_uuid f))" "json_get ''aid'' (vmess_json f) = Some (JNum (Fin (of_int (pf_alter_id f))))"
  "json_get ''scy'' (vmess_json f) = Some (JStr (or_text (pf_cipher f) ''auto''))"
  "json_get ''net'' (vmess_json f) = Some (JStr (or_text (pf_network f) ''tcp''))"
  "json_get ''host'' (vmess_json f) = Some (JStr (pf_host f))" "json_get ''path'' (vmess_json f) = Some (JStr (pf_path f))"
  "json_get ''tls'' (vmess_json f) = Some (JStr (if pf_security f = ''tls'' then ''tls'' else []))"
  "json_get ''sni'' (vmess_json f) = Some (JStr (pf_sni f))"
  "json_get ''fp'' (vmess_json f) = Some (JStr (or_text (pf_fingerprint f) ''chrome''))"
  by (simp_all add: vmess_json_def)

lemma int_or_int: "int_or (Some (JNum (Fin (of_int n)))) d = Some (if n = 0 then d else n)"
  by (simp add: int_or_def)

lemma form_of_vmess_json:
  assumes "vmess_form_ok f fallback"
  shows "form_of_vmess (vmess_json f) fallback ((default_form fallback ''127.0.0.1'' 443)\<lparr>pf_raw_link := r\<rparr>) = Some (f\<lparr>pf_raw_link := r\<rparr>)"
proof -
  have f: "pf_name f \<noteq> []" "js_trim (pf_server f) = pf_server f" "pf_port f \<noteq> 0" "pf_cipher f \<noteq> []" "pf_network f \<noteq> []"
      "js_lower (pf_network f) = pf_network f" "pf_security f = ''none'' \<or> pf_security f = ''tls''" "pf_fingerprint f \<noteq> []"
    and eq: "f = vmess_fields f fallback"
    using assms unfolding vmess_form_ok_def by blast+
  have sec: "(if Some (JStr (if pf_security f = ''tls'' then ''tls'' else [])) = Some (JStr ''tls'') then ''tls'' else ''none'') = pf_security f"
    using f(7) by auto
  have "f\<lparr>pf_raw_link := r\<rparr> = (default_form fallback ''127.0.0.1'' 443)\<lparr>pf_raw_link := r, pf_protocol := ''vmess'', pf_name := pf_name f,
      pf_server := pf_server f, pf_port := pf_port f, pf_uuid := pf_uuid f, pf_alter_id := pf_alter_id f, pf_cipher := pf_cipher f,
      pf_network := pf_network f, pf_path := pf_path f, pf_host := pf_host f, pf_security := pf_security f, pf_sni := pf_sni f,
      pf_fingerprint := pf_fingerprint f\<rparr>"
    by (subst eq) (simp add: vmess_fields_def default_form_def)
  then show ?thesis
    unfolding form_of_vmess_def field_def vmess_json_get int_or_int text_or_JStr Option.bind.bind_lunit sec
    using f by (simp add: default_form_def)
qed

text \<open>A VMess link written from the form reads back as the same form, through base64 and JSON, for every form
  such a link stands for, given that parsing inverts writing of its JSON text.\<close>

theorem vmess_link_reads_back:
  assumes ok: "vmess_form_ok f fallback" and written: "t = serialize_proxy_config env f"
    and json: "le_parse env (le_stringify env (vmess_json f)) = Some (vmess_json f)"
      "utf8_valid (le_stringify env (vmess_json f))" "js_starts_with (js_trim (le_stringify env (vmess_json f))) ''{''"
  shows "parse_proxy_link env t fallback = Some (f\<lparr>pf_raw_link := t\<rparr>)"
proof -
  have eq: "f = vmess_fields f fallback" using ok unfolding vmess_form_ok_def by blast
  have proto: "pf_protocol f = ''vmess''" "\<not> pf_is_json f" by (subst eq, simp add: vmess_fields_def default_form_def)+
  let ?j = "le_stringify env (vmess_json f)"
  have t: "t = ''vmess://'' @ safe_b64_encode ?j" by (simp add: written serialize_proxy_config_def proto lower_names Let_def)
  have "?j \<noteq> []" using json(3) by (auto simp: js_starts_with_def)
  moreover have "btoa [] = []" by (simp add: btoa_def)
  ultimately have "btoa ?j \<noteq> []" using atob_btoa [of ?j] atob_btoa [of "[]"] by auto
  moreover have "printable (CHR ''v'')" by (simp add: printable_def byte_def)
  ultimately have trim: "js_trim t = t"
    unfolding t safe_b64_encode_eq using last_append_printable [OF btoa_printable] by (intro js_trim_printable) simp_all
  have dec: "safe_b64_decode (drop 8 t) = ?j" using safe_b64_round_trip [OF json(2)] by (simp add: t)
  have "js_starts_with (js_lower t) ''vmess://''"
    unfolding t js_lower_append by (simp add: js_starts_with_def js_lower_def lower_char_def is_upper_def)
  moreover have "t \<noteq> []" "\<not> js_starts_with t ''{''" by (simp_all add: t js_starts_with_def)
  ultimately show ?thesis
    using form_of_vmess_json [OF ok, of t] json by (simp add: parse_proxy_link_def trim dec Let_def)
qed

definition sample_vmess :: proxy_form where
  "sample_vmess = (default_form ''Home'' ''example.org'' 443)\<lparr>pf_protocol := ''vmess'', pf_uuid := ''1-2'', pf_alter_id := 4, pf_network := ''ws''\<rparr>"

lemma sample_vmess_ok: "vmess_form_ok sample_vmess ''x''"
proof -
  have "js_trim ''example.org'' = ''example.org''" by (rule js_trim_printable; simp add: printable_def byte_def)
  then show ?thesis
    by (simp add: vmess_form_ok_def sample_vmess_def default_form_def vmess_fields_def lower_names)
qed

theorem vmess_link_reads_back_witness:
  "map_option pf_alter_id (parse_proxy_link (json_env (vmess_json sample_vmess) ''{...}'')
     (serialize_proxy_config (json_env (vmess_json sample_vmess) ''{...}'') sample_vmess) ''x'') = Some 4"
proof -
  let ?env = "json_env (vmess_json sample_vmess) ''{...}''"
  have trim: "js_trim ''{...}'' = ''{...}''" by (rule js_trim_printable; simp add: printable_def byte_def)
  have "parse_proxy_link ?env (serialize_proxy_config ?env sample_vmess) ''x''
      = Some (sample_vmess\<lparr>pf_raw_link := serialize_proxy_config ?env sample_vmess\<rparr>)"
  proof (rule vmess_link_reads_back [OF sample_vmess_ok refl])
    have "utf8_valid ''{...}''" by (rule utf8_valid_ascii) (simp add: byte_def)
    then show "utf8_valid (le_stringify ?env (vmess_json sample_vmess))" by (simp add: json_env_def)
  qed (simp_all add: json_env_def trim js_starts_with_def)
  then show ?thesis by (simp add: sample_vmess_def default_form_def)
qed

section \<open>Shadowsocks\<close>

lemma js_split_first: "js_split c s ! 0 = takeWhile (\<lambda>x. x \<noteq> c) s"
  by (induction c s rule: js_split.induct) (auto simp: Let_def hd_conv_nth split: list.splits)

lemma no_colon_base64: "CHR '':'' \<notin> set (btoa s)"
proof -
  have "list_all (\<lambda>n. n < 64) (sextets (map byte s))" by (rule sextets_less) (simp add: list_all_iff)
  moreover have "byte (sextet n) \<noteq> 58" if "n < 64" for n using that by (auto simp: byte_sextet)
  moreover have "byte (CHR '':'') = 58" by (simp add: byte_def)
  ultimately have "CHR '':'' \<notin> set (map sextet (sextets (map byte s)))" by (auto simp: list_all_iff)
  then show ?thesis by (auto simp: btoa_def)
qed

text \<open>A Shadowsocks link written from the form reads back with the cipher, and with the password only up to
  its first colon: reading splits the credentials in at most two pieces at colons, so the rest
  of such a password is lost.\<close>

theorem ss_password_cut_at_colon:
  assumes form: "pf_protocol f = ''ss''" "\<not> pf_is_json f" "0 < pf_port f" "utf8_valid (pf_name f)" "pf_name f \<noteq> []"
    and cipher: "pf_cipher f \<noteq> []" "CHR '':'' \<notin> set (pf_cipher f)" "utf8_valid (pf_cipher f @ '':'' @ pf_password f)"
    and written: "t = serialize_proxy_config env f"
    and url: "le_url env (link_text (ss_link f)) = Some (url_read (ss_link f))"
  shows "map_option (\<lambda>g. (pf_cipher g, pf_password g)) (parse_proxy_link env t fallback)
    = Some (pf_cipher f, takeWhile (\<lambda>c. c \<noteq> CHR '':'') (pf_password f))"
proof -
  let ?l = "ss_link f" and ?auth = "safe_b64_encode (pf_cipher f @ '':'' @ pf_password f)"
  have l: "ln_scheme ?l = ''ss''" "ln_port ?l = pf_port f" "ln_auth ?l = Some ?auth" "ln_fragment ?l = encode_uri_component (pf_name f)"
    using form cipher by (simp_all add: ss_link_def form_link_def)
  have t: "t = link_text ?l" by (simp add: written serialize_proxy_config_def form lower_names Let_def)
  have trim: "js_trim t = t" unfolding t
    by (rule link_text_trim) (use l form in \<open>simp_all add: component_printable printable_def byte_def\<close>)
  have "t = ''ss'' @ drop (length ''ss'') t" using link_text_start [of ?l] unfolding t l(1) .
  then obtain r where start: "t = ''ss'' @ r" by blast
  have "t \<noteq> []" "hd t \<noteq> CHR ''{''" by (simp_all add: start)
  moreover have "\<not> js_starts_with (js_lower t) ''vmess://''" unfolding start by (rule not_vmess)
  ultimately have parse: "parse_proxy_link env t fallback =
      Some (form_of_url (url_read ?l) fallback ((default_form fallback ''127.0.0.1'' 443)\<lparr>pf_raw_link := t\<rparr>))"
    using trim url unfolding t by (intro parse_link_text)
  have user: "u_username (url_read ?l) = ?auth" "u_password (url_read ?l) = []"
    using takeWhile_no_colon [OF no_colon_base64 [of "pf_cipher f @ '':'' @ pf_password f"]]
    by (simp_all only: url_read_def l safe_b64_encode_eq Let_def or_else_simps url_parts.simps drop_Nil)
  have split: "js_split (CHR '':'') (pf_cipher f @ '':'' @ pf_password f) ! 0 = pf_cipher f"
      "js_split (CHR '':'') (pf_cipher f @ '':'' @ pf_password f) ! 1 = takeWhile (\<lambda>c. c \<noteq> CHR '':'') (pf_password f)"
    using js_split_append [OF cipher(2), of "pf_password f"] js_split_first [of "CHR '':''" "pf_password f"] by simp_all
  have "?auth \<noteq> []"
    unfolding safe_b64_encode_eq using atob_btoa [of "pf_cipher f @ '':'' @ pf_password f"] atob_btoa [of "[]"]
    by (auto simp: btoa_def [of "[]"])
  then have cred: "credentials ''ss'' (url_read ?l) st =
      (st\<lparr>pf_cipher := pf_cipher f, pf_password := takeWhile (\<lambda>c. c \<noteq> CHR '':'') (pf_password f)\<rparr>, True)" for st
    using safe_b64_round_trip [OF cipher(3)] split
    by (simp add: credentials_def ss_credentials_def user Let_def)
  have "\<exists>st. form_of_url (url_read ?l) fallback ((default_form fallback ''127.0.0.1'' 443)\<lparr>pf_raw_link := t\<rparr>) =
      link_params ''ss'' (url_read ?l) (st\<lparr>pf_cipher := pf_cipher f, pf_password := takeWhile (\<lambda>c. c \<noteq> CHR '':'') (pf_password f)\<rparr>)"
    by (subst form_of_url_read [OF _ _ _ _ l(4) form(4,5)]) (use form cred in \<open>auto simp: l lower_names\<close>)
  then show ?thesis using parse by (auto simp: link_params_def)
qed

definition sample_ss :: proxy_form where
  "sample_ss = (default_form ''Home'' ''example.org'' 8388)\<lparr>pf_protocol := ''ss'', pf_cipher := ''aes-256-gcm'', pf_password := ''a:b''\<rparr>"

theorem ss_password_cut_at_colon_witness:
  "map_option pf_password (parse_proxy_link (url_env (url_read (ss_link sample_ss)))
     (serialize_proxy_config (url_env (url_read (ss_link sample_ss))) sample_ss) ''x'') = Some ''a''"
proof -
  let ?env = "url_env (url_read (ss_link sample_ss))"
  have "map_option (\<lambda>g. (pf_cipher g, pf_password g)) (parse_proxy_link ?env (serialize_proxy_config ?env sample_ss) ''x'')
      = Some (pf_cipher sample_ss, takeWhile (\<lambda>c. c \<noteq> CHR '':'') (pf_password sample_ss))"
    by (rule ss_password_cut_at_colon [OF _ _ _ _ _ _ _ _ refl])
       (simp_all add: sample_ss_def default_form_def url_env_def utf8_valid_ascii byte_def)
  then show ?thesis by (auto simp: sample_ss_def default_form_def)
qed

section \<open>The padding loop\<close>

text \<open>The loop of \<open>safeBase64Decode\<close> as it is written: its value is \<open>None\<close> when it runs for ever.\<close>

definition pad_loop :: "string \<Rightarrow> string option" where
  "pad_loop = while_option (\<lambda>b64. length b64 mod 4 \<noteq> 0) (\<lambda>b64. b64 @ ''='')"

lemma pad_loop_ends: "pad_loop s = Some (pad_b64 s)"
proof (induction s rule: pad_b64.induct)
  case (1 s)
  then show ?case
    by (subst pad_b64.simps) (simp add: pad_loop_def while_option_unfold [of _ _ s])
qed

lemma pad_by_rest:
  "length s mod 4 = 0 \<Longrightarrow> pad_b64 s = s"
  "length s mod 4 = 3 \<Longrightarrow> pad_b64 s = s @ ''=''"
  "length s mod 4 = 2 \<Longrightarrow> pad_b64 s = s @ ''==''"
  "length s mod 4 = 1 \<Longrightarrow> pad_b64 s = s @ ''===''"
proof -
  show zero: "pad_b64 s = s" if "length s mod 4 = 0" for s
    using that by (subst pad_b64.simps) simp
  show one: "pad_b64 s = s @ ''=''" if "length s mod 4 = 3" for s
    using that zero [of "s @ ''=''"] by (subst pad_b64.simps) (simp add: mod_Suc)
  show two: "pad_b64 s = s @ ''==''" if "length s mod 4 = 2" for s
    using that one [of "s @ ''=''"] by (subst pad_b64.simps) (simp add: mod_Suc)
  show "pad_b64 s = s @ ''===''" if "length s mod 4 = 1" for s
    using that two [of "s @ ''=''"] by (subst pad_b64.simps) (simp add: mod_Suc)
qed

lemma pad_b64_rest:
  "length (pad_b64 s) mod 4 = 0 \<and> length (pad_b64 s) < length s + 4
    \<and> pad_b64 s = s @ replicate (length (pad_b64 s) - length s) CHR ''=''"
proof -
  have "length s mod 4 < 4" by simp
  then consider "length s mod 4 = 0" | "length s mod 4 = 3" | "length s mod 4 = 2" | "length s mod 4 = 1" by linarith
  then obtain n where n: "n < 4" "(length s + n) mod 4 = 0" "pad_b64 s = s @ replicate n CHR ''=''"
  proof cases
    case 1
    then show thesis using that [of 0] pad_by_rest(1) by simp
  next
    case 2
    then show thesis using that [of 1] pad_by_rest(2) by (simp add: mod_Suc)
  next
    case 3
    then show thesis using that [of 2] pad_by_rest(3) by (simp add: mod_Suc numeral_2_eq_2)
  next
    case 4
    then show thesis using that [of 3] pad_by_rest(4) by (simp add: mod_Suc numeral_3_eq_3)
  qed
  then show ?thesis by simp
qed

text \<open>C40: the loop that pads a base64 text ends on every text, with the text followed by at most three equals
  signs and its length a multiple of four.\<close>

theorem padding_loop_ends:
  "pad_loop s = Some (pad_b64 s) \<and> length (pad_b64 s) mod 4 = 0 \<and> length (pad_b64 s) < length s + 4
    \<and> pad_b64 s = s @ replicate (length (pad_b64 s) - length s) CHR ''=''"
  using pad_loop_ends pad_b64_rest [of s] by blast

end
