(* ===== verification/Settings_Sync.thy ===== *)
theory Settings_Sync
  imports App_Types
begin

text \<open>
  Who holds the settings (App.tsx: \<open>saveSettings\<close>, \<open>patchSettings\<close>, \<open>updateSetting\<close> and the settings
  event).  The service owns them: every edit is shown at once, sent whole, and replaced by what the
  service answers.  \<open>nrm\<close> is the service's normalisation.  Requests are handled in the order they
  were sent and answered in that order; edits can come between a request and its answer.
\<close>

section \<open>The window and the service\<close>

record settings_sync =
  sy_shown :: app_settings
  sy_stored :: app_settings
  sy_flight :: "(string + app_settings) list"
  sy_toasts :: "string list"

definition sync_of :: "app_settings \<Rightarrow> settings_sync" where
  "sync_of s = \<lparr>sy_shown = s, sy_stored = s, sy_flight = [], sy_toasts = []\<rparr>"

type_synonym settings_patch = "app_settings \<Rightarrow> app_settings"

text \<open>
  A patch is built on what is shown (\<open>settingsRef\<close>) and sent whole; the service stores it and
  answers with the normalised settings, or refuses it with a message.
\<close>

definition patch_settings :: "settings_patch \<Rightarrow> (app_settings \<Rightarrow> string + app_settings) \<Rightarrow> settings_sync \<Rightarrow> settings_sync" where
  "patch_settings p save v =
     (let next = p (sy_shown v) in
      v\<lparr>sy_shown := next,
        sy_stored := (case save next of Inr stored \<Rightarrow> stored | Inl _ \<Rightarrow> sy_stored v),
        sy_flight := sy_flight v @ [save next]\<rparr>)"

text \<open>An answer: \<open>setSettings(stored)\<close>, or a notice that saving failed.\<close>

definition save_answered :: "settings_sync \<Rightarrow> settings_sync" where
  "save_answered v =
     (case sy_flight v of
        [] \<Rightarrow> v
      | Inr stored # rest \<Rightarrow> v\<lparr>sy_shown := stored, sy_flight := rest\<rparr>
      | Inl message # rest \<Rightarrow> v\<lparr>sy_toasts := sy_toasts v @ [message], sy_flight := rest\<rparr>)"

text \<open>Settings changed outside the window arrive already saved.\<close>

definition settings_event :: "app_settings \<Rightarrow> settings_sync \<Rightarrow> settings_sync" where
  "settings_event s v = v\<lparr>sy_shown := s, sy_stored := s\<rparr>"

datatype sync_event =
    Patched settings_patch
  | Refused settings_patch string
  | Answered
  | ChangedOutside app_settings

fun sync_step :: "(app_settings \<Rightarrow> app_settings) \<Rightarrow> settings_sync \<Rightarrow> sync_event \<Rightarrow> settings_sync" where
  "sync_step nrm v (Patched p) = patch_settings p (\<lambda>s. Inr (nrm s)) v"
| "sync_step nrm v (Refused p message) = patch_settings p (\<lambda>s. Inl message) v"
| "sync_step nrm v Answered = save_answered v"
| "sync_step nrm v (ChangedOutside s) = settings_event s v"

definition sync_run :: "(app_settings \<Rightarrow> app_settings) \<Rightarrow> settings_sync \<Rightarrow> sync_event list \<Rightarrow> settings_sync" where
  "sync_run nrm v es = foldl (sync_step nrm) v es"

lemma sync_run_simps [simp]:
  "sync_run nrm v [] = v" "sync_run nrm v (e # es) = sync_run nrm (sync_step nrm v e) es"
  "sync_run nrm v (es @ fs) = sync_run nrm (sync_run nrm v es) fs"
  by (simp_all add: sync_run_def)

section \<open>What is shown is what is stored\<close>

text \<open>Between the answers: the last answer on its way carries what is stored.\<close>

fun sync_inv :: "settings_sync \<Rightarrow> bool" where
  "sync_inv v = (if sy_flight v = [] then sy_shown v = sy_stored v else last (sy_flight v) = Inr (sy_stored v))"

fun event_ok :: "settings_sync \<Rightarrow> sync_event \<Rightarrow> bool" where
  "event_ok v (Refused p message) = False"
| "event_ok v (ChangedOutside s) = (sy_flight v = [])"
| "event_ok v e = True"

fun sync_runs :: "(app_settings \<Rightarrow> app_settings) \<Rightarrow> settings_sync \<Rightarrow> sync_event list \<Rightarrow> bool" where
  "sync_runs nrm v [] = True"
| "sync_runs nrm v (e # es) = (event_ok v e \<and> sync_runs nrm (sync_step nrm v e) es)"

lemma sync_step_inv: "sync_inv v \<Longrightarrow> event_ok v e \<Longrightarrow> sync_inv (sync_step nrm v e)"
  by (cases e)
    (auto simp: patch_settings_def save_answered_def settings_event_def Let_def split: list.splits sum.splits if_splits)

lemma sync_run_inv: "sync_inv v \<Longrightarrow> sync_runs nrm v es \<Longrightarrow> sync_inv (sync_run nrm v es)"
proof (induction es arbitrary: v)
  case (Cons e es)
  then show ?case using sync_step_inv [of v e nrm] by (simp del: sync_inv.simps)
qed simp

lemma patches_unanswered:
  "sync_run nrm v (map Patched ps) = v\<lparr>
     sy_shown := foldl (\<lambda>s p. p s) (sy_shown v) ps,
     sy_stored := (if ps = [] then sy_stored v else nrm (foldl (\<lambda>s p. p s) (sy_shown v) ps)),
     sy_flight := sy_flight v @ map (\<lambda>k. Inr (nrm (foldl (\<lambda>s p. p s) (sy_shown v) (take (Suc k) ps)))) [0..<length ps]\<rparr>"
proof (induction ps arbitrary: v)
  case (Cons p ps)
  have "[0..<length (p # ps)] = 0 # map Suc [0..<length ps]" by (simp add: upt_conv_Cons map_Suc_upt del: upt_Suc)
  with Cons show ?case by (simp add: patch_settings_def Let_def del: upt_Suc)
qed simp

lemma answers_keep_stored: "sy_stored (sync_run nrm v (replicate n Answered)) = sy_stored v"
  by (induction n arbitrary: v) (auto simp: save_answered_def split: list.splits sum.splits)

lemma patches_answered:
  "sy_flight v = [] \<Longrightarrow> sync_run nrm v (concat (map (\<lambda>p. [Patched p, Answered]) ps))
    = v\<lparr>sy_shown := foldl (\<lambda>s p. nrm (p s)) (sy_shown v) ps,
        sy_stored := (if ps = [] then sy_stored v else foldl (\<lambda>s p. nrm (p s)) (sy_shown v) ps)\<rparr>"
  by (induction ps arbitrary: v) (simp_all add: patch_settings_def save_answered_def Let_def)

section \<open>Properties\<close>


abbreviation set_mtu :: "int \<Rightarrow> settings_patch" where
  "set_mtu n s \<equiv> s\<lparr>st_mtu := n\<rparr>"
abbreviation set_kill_switch :: "bool \<Rightarrow> settings_patch" where
  "set_kill_switch b s \<equiv> s\<lparr>kill_switch := b\<rparr>"


text \<open>C17: Edits are kept when they come in a burst or each after the answer to the one before: the result is all
  of them in order.  An edit made between the answers to the two before it is built on the first
  answer, so it is sent without the second edit, which is then lost from the window and the
  store.\<close>

theorem edit_between_answers_loses_one:
  assumes "sy_flight v = []" "ps \<noteq> []"
  shows "sy_stored (sync_run nrm v (map Patched ps @ replicate (length ps) Answered)) = nrm (foldl (\<lambda>s p. p s) (sy_shown v) ps)
    \<and> sy_stored (sync_run nrm v (concat (map (\<lambda>p. [Patched p, Answered]) ps))) = foldl (\<lambda>s p. nrm (p s)) (sy_shown v) ps
    \<and> sync_run nrm v [Patched f, Patched g, Answered, Patched h, Answered, Answered]
       = v\<lparr>sy_shown := nrm (h (nrm (f (sy_shown v)))), sy_stored := nrm (h (nrm (f (sy_shown v))))\<rparr>"
proof (intro conjI)
  show "sy_stored (sync_run nrm v (map Patched ps @ replicate (length ps) Answered)) = nrm (foldl (\<lambda>s p. p s) (sy_shown v) ps)"
    using assms(2) by (simp add: answers_keep_stored patches_unanswered)
  show "sync_run nrm v [Patched f, Patched g, Answered, Patched h, Answered, Answered]
       = v\<lparr>sy_shown := nrm (h (nrm (f (sy_shown v)))), sy_stored := nrm (h (nrm (f (sy_shown v))))\<rparr>"
    using assms(1) by (simp add: patch_settings_def save_answered_def Let_def)
  show "sy_stored (sync_run nrm v (concat (map (\<lambda>p. [Patched p, Answered]) ps))) = foldl (\<lambda>s p. nrm (p s)) (sy_shown v) ps"
    using assms by (simp add: patches_answered)
qed

theorem edit_between_answers_loses_one_witness:
  "kill_switch (sy_stored (sync_run id (sync_of pending_settings)
     [Patched (set_mtu 1400), Patched (set_kill_switch True), Answered, Patched (\<lambda>s. s\<lparr>fastest_server := True\<rparr>), Answered, Answered])) = False"
proof -
  have "sy_flight (sync_of pending_settings) = []" by (simp add: sync_of_def)
  from edit_between_answers_loses_one [OF this, of "[set_mtu 1400]" id "set_mtu 1400" "set_kill_switch True" "\<lambda>s. s\<lparr>fastest_server := True\<rparr>"]
  show ?thesis by (simp add: sync_of_def pending_settings_def)
qed

end
