(* ===== verification/App_Shell.thy ===== *)
theory App_Shell
  imports Profiles App_Hooks
begin

text \<open>
  The window's shell (App.tsx): what its buttons do.  A handler takes the state and the answers of
  the service it waits for, and gives the state after it with the effects it asked for, in order.
  A notice is its words, or the key of a message and its parameters.
\<close>

section \<open>State and effects\<close>

datatype notice = Words string | Phrase string "(string \<times> string) list"

datatype shell_effect =
    AskSave app_settings
  | AskConnect string proxy_mode string
  | AskDisconnect
  | AskDelete "string list"
  | AskRefresh string
  | AskPings string
  | AskProbe string "string list"
  | AskFavorites "string list" bool
  | AskAdd string string
  | AskImport string
  | AskPush app_settings
  | CopyText string
  | LogLines "string list"
  | GoodToast string notice
  | BadToast string notice

record shell =
  sh_store :: profile_store
  sh_settings :: app_settings
  sh_pings :: "(string, jsnum option) omap"
  sh_tab :: string
  sh_settings_home :: nat
  sh_refreshing :: string
  sh_onboarding :: "string option"
  sh_platform :: string
  sh_restored :: bool

abbreviation sh_profiles :: "shell \<Rightarrow> profile list" where
  "sh_profiles v \<equiv> ps_profiles (sh_store v)"
abbreviation sh_selection :: "shell \<Rightarrow> selection" where
  "sh_selection v \<equiv> ps_selection (sh_store v)"

definition set_selection :: "selection \<Rightarrow> shell \<Rightarrow> shell" where
  "set_selection s v = v\<lparr>sh_store := (sh_store v)\<lparr>ps_selection := s\<rparr>\<rparr>"

definition guess_platform :: "string \<Rightarrow> string" where
  "guess_platform agent =
     (if js_includes agent ''Android'' then ''android''
      else if list_ex (js_includes (js_lower agent)) [''iphone'', ''ipad'', ''ipod''] then ''ios''
      else if js_includes agent ''Windows'' then ''windows''
      else if js_includes agent ''Mac OS'' then ''macos'' else ''linux'')"

definition opened_shell :: "string \<Rightarrow> shell" where
  "opened_shell agent = \<lparr>sh_store = opened_store, sh_settings = pending_settings, sh_pings = [], sh_tab = ''connection'',
     sh_settings_home = 0, sh_refreshing = [], sh_onboarding = None, sh_platform = guess_platform agent, sh_restored = False\<rparr>"

text \<open>\<open>saveSettings\<close>: the window holds what was stored; a refusal is thrown to the caller.\<close>

definition after_save :: "string + app_settings \<Rightarrow> shell \<Rightarrow> shell" where
  "after_save answer v = (case answer of Inr stored \<Rightarrow> v\<lparr>sh_settings := stored\<rparr> | Inl _ \<Rightarrow> v)"

section \<open>Connecting\<close>

definition toggle_asks :: "connection_state \<Rightarrow> shell \<Rightarrow> shell_effect list" where
  "toggle_asks st v =
     (if is_connected st \<or> cs_reconnecting st = Some True \<or> cs_blocked st = Some True then [AskDisconnect]
      else if sh_profiles v = [] then [BadToast ''no-profiles'' (Phrase ''toast.noProfiles'' [])]
      else [AskConnect (sel_domain (sh_selection v)) (sel_mode (sh_selection v)) (sel_profile_id (sh_selection v))])"

definition toggle_connection :: "connection_state \<Rightarrow> string + connection_state \<Rightarrow> shell \<Rightarrow> shell_effect list" where
  "toggle_connection st answer v =
     toggle_asks st v @
     (case answer of
        Inl message \<Rightarrow> if \<not> (is_connected st \<or> cs_reconnecting st = Some True \<or> cs_blocked st = Some True) \<and> sh_profiles v = [] then []
                      else [BadToast ''connect'' (Words message)]
      | Inr _ \<Rightarrow> [])"

text \<open>What a plugin's connect call does.\<close>

definition plugin_connect :: "string option \<Rightarrow> shell \<Rightarrow> shell_effect" where
  "plugin_connect server v =
     (case Option.bind server (\<lambda>i. if i = [] then None else find (\<lambda>p. p_id p = i) (sh_profiles v)) of
        Some p \<Rightarrow> AskConnect (profile_domain p) Manual (p_id p)
      | None \<Rightarrow> AskConnect (sel_domain (sh_selection v)) (sel_mode (sh_selection v)) (sel_profile_id (sh_selection v)))"

section \<open>Adding\<close>

definition short_name :: "string \<Rightarrow> string \<Rightarrow> string" where
  "short_name name link = (if name = [] then take 40 link else name)"

definition handle_add_profile :: "string \<Rightarrow> string \<Rightarrow> string + profile list \<Rightarrow> shell \<Rightarrow> shell \<times> shell_effect list" where
  "handle_add_profile name link answer v =
     (case answer of
        Inl _ \<Rightarrow> (v, [AskAdd name link])
      | Inr ps \<Rightarrow> (v\<lparr>sh_store := add_profile ps (sh_store v), sh_tab := ''configuration''\<rparr>,
          [AskAdd name link, LogLines [''Profile '' @ [CHR 0x22] @ short_name name link @ [CHR 0x22] @ '' added.'']]))"

definition handle_import_subscription ::
  "(string \<Rightarrow> string \<Rightarrow> bool) \<Rightarrow> (string \<Rightarrow> string option) \<Rightarrow> string \<Rightarrow> string + profile list \<Rightarrow> shell \<Rightarrow> shell \<times> shell_effect list" where
  "handle_import_subscription lc hostname url answer v =
     (case answer of
        Inl _ \<Rightarrow> (v, [AskImport url])
      | Inr ps \<Rightarrow> (v\<lparr>sh_store := import_subscription lc hostname url ps (sh_store v), sh_tab := ''proxies''\<rparr>,
          [AskImport url, LogLines [''Subscription imported.'']]))"

section \<open>Sources\<close>

text \<open>The profiles a configuration source stands for.\<close>

fun profiles_of :: "profile list \<Rightarrow> config_source \<Rightarrow> profile list" where
  "profiles_of ps (ProfileSource key label detail pid) = filter (\<lambda>p. p_id p = pid) ps"
| "profiles_of ps (SubscriptionSource key d label detail n info) = filter (\<lambda>p. profile_domain p = trimmed_or_local d) ps"

fun deleted_line :: "config_source \<Rightarrow> string" where
  "deleted_line (ProfileSource key label detail pid) = ''Profile '' @ [CHR 0x22] @ label @ [CHR 0x22] @ '' deleted.''"
| "deleted_line (SubscriptionSource key d label detail n info) =
     ''Configuration '' @ [CHR 0x22] @ trimmed_or_local d @ [CHR 0x22] @ '' deleted.''"

definition ids_of :: "profile list \<Rightarrow> config_source list \<Rightarrow> string list" where
  "ids_of ps srcs = concat (map (\<lambda>s. map p_id (profiles_of ps s)) srcs)"

definition alive_chain :: "profile list \<Rightarrow> string list \<Rightarrow> string list" where
  "alive_chain remaining chain = filter (\<lambda>i. i \<in> set (map p_id remaining)) chain"

text \<open>A hop that no longer exists is pruned; the settings are saved only when that changes them.\<close>

definition prune_chain :: "profile list \<Rightarrow> (app_settings \<Rightarrow> string + app_settings) \<Rightarrow> shell \<Rightarrow> shell \<times> shell_effect list" where
  "prune_chain remaining save v =
     (let chain = alive_chain remaining (proxy_chain (sh_settings v));
          next = (sh_settings v)\<lparr>proxy_chain := chain\<rparr>
      in if length chain = length (proxy_chain (sh_settings v)) then (v, [])
         else (after_save (save next) v,
               AskSave next # (case save next of Inl e \<Rightarrow> [BadToast [] (Phrase ''toast.deleteFailed'' [(''error'', e)])] | Inr _ \<Rightarrow> [])))"

definition delete_and_prune ::
  "(string \<Rightarrow> string \<Rightarrow> bool) \<Rightarrow> string list \<Rightarrow> shell_effect list \<Rightarrow> string + profile list \<Rightarrow> (app_settings \<Rightarrow> string + app_settings)
     \<Rightarrow> shell \<Rightarrow> shell \<times> shell_effect list" where
  "delete_and_prune lc ids logs answer save v =
     (case answer of
        Inl e \<Rightarrow> (v, [AskDelete ids, BadToast [] (Phrase ''toast.deleteFailed'' [(''error'', e)])])
      | Inr remaining \<Rightarrow>
          (case prune_chain remaining save (v\<lparr>sh_store := delete_ids lc ids remaining (sh_store v)\<rparr>) of
             (w, es) \<Rightarrow> (w, AskDelete ids # logs @ es)))"

definition handle_delete_sources ::
  "(string \<Rightarrow> string \<Rightarrow> bool) \<Rightarrow> config_source list \<Rightarrow> string + profile list \<Rightarrow> (app_settings \<Rightarrow> string + app_settings)
     \<Rightarrow> shell \<Rightarrow> shell \<times> shell_effect list" where
  "handle_delete_sources lc srcs answer save v =
     (let ids = ids_of (sh_profiles v) srcs in
      if ids = [] then (v, []) else delete_and_prune lc ids [LogLines (map deleted_line srcs)] answer save v)"

text \<open>
  \<open>deleteProfiles\<close> of the Proxies screen is the same without log lines; with no id the backend is
  not asked and the list is the one there is.
\<close>

definition delete_profiles ::
  "(string \<Rightarrow> string \<Rightarrow> bool) \<Rightarrow> string list \<Rightarrow> string + profile list \<Rightarrow> (app_settings \<Rightarrow> string + app_settings)
     \<Rightarrow> shell \<Rightarrow> shell \<times> shell_effect list" where
  "delete_profiles lc ids answer save v =
     (if ids = [] then prune_chain (sh_profiles v) save v else delete_and_prune lc ids [] answer save v)"

definition refresh_one ::
  "(string \<Rightarrow> string \<Rightarrow> bool) \<Rightarrow> string \<Rightarrow> bool \<Rightarrow> string + refresh_summary \<times> profile list \<Rightarrow> shell \<Rightarrow> shell \<times> shell_effect list \<times> bool" where
  "refresh_one lc domain quiet answer v =
     (case answer of
        Inr (summary, ps) \<Rightarrow>
          (v\<lparr>sh_store := apply_profiles lc ps (sh_store v), sh_refreshing := []\<rparr>,
           [AskRefresh domain,
            LogLines [domain @ '': '' @ nat_str (rs_refreshed summary) @ '' updated, '' @ nat_str (rs_failed summary) @ '' failed, ''
                      @ nat_str (rs_skipped summary) @ '' skipped.'']]
           @ (if quiet then [] else [GoodToast (''refresh-'' @ domain) (Phrase ''toast.refreshed'' [(''name'', domain)])]), True)
      | Inl message \<Rightarrow>
          (v\<lparr>sh_refreshing := []\<rparr>,
           [AskRefresh domain, LogLines [''Refresh failed for '' @ domain @ '': '' @ message],
            BadToast (''refresh-'' @ domain) (Phrase ''toast.refreshFailed'' [(''name'', domain), (''error'', take 200 message)])], False))"

fun refresh_each ::
  "(string \<Rightarrow> string \<Rightarrow> bool) \<Rightarrow> (string \<Rightarrow> string + refresh_summary \<times> profile list) \<Rightarrow> string list \<Rightarrow> shell \<Rightarrow> shell \<times> shell_effect list \<times> nat" where
  "refresh_each lc answers [] v = (v, [], 0)"
| "refresh_each lc answers (d # ds) v =
     (case refresh_one lc d True (answers d) v of
        (w, es, ok) \<Rightarrow> case refresh_each lc answers ds w of (u, fs, n) \<Rightarrow> (u, es @ fs, n + (if ok then 1 else 0)))"

definition refreshable :: "config_source list \<Rightarrow> string list" where
  "refreshable srcs =
     filter (\<lambda>d. d \<noteq> [] \<and> d \<noteq> LOCAL)
       (concat (map (\<lambda>s. case s of SubscriptionSource key d label detail n info \<Rightarrow> [js_trim d] | _ \<Rightarrow> []) srcs))"

definition handle_refresh_sources ::
  "(string \<Rightarrow> string \<Rightarrow> bool) \<Rightarrow> (string \<Rightarrow> string + refresh_summary \<times> profile list) \<Rightarrow> config_source list \<Rightarrow> shell \<Rightarrow> shell \<times> shell_effect list" where
  "handle_refresh_sources lc answers srcs v =
     (case refreshable srcs of
        [d] \<Rightarrow> (case refresh_one lc d False (answers d) v of (w, es, ok) \<Rightarrow> (w, es))
      | ds \<Rightarrow> (case refresh_each lc answers ds v of
                (w, es, n) \<Rightarrow> (w, es @ (if n > 0 then [GoodToast ''refresh-bulk'' (Phrase ''configuration.bulk.refreshed'' [(''count'', nat_str n)])] else []))))"

fun link_of :: "profile list \<Rightarrow> config_source \<Rightarrow> string" where
  "link_of ps (SubscriptionSource key d label detail n info) =
     (case find (\<lambda>p. or_else (p_subscription_url p) [] \<noteq> []) (profiles_of ps (SubscriptionSource key d label detail n info)) of
        Some p \<Rightarrow> or_else (p_subscription_url p) [] | None \<Rightarrow> [])"
| "link_of ps (ProfileSource key label detail pid) =
     (case profiles_of ps (ProfileSource key label detail pid) of p # _ \<Rightarrow> p_config_link p | [] \<Rightarrow> [])"

definition handle_copy_sources :: "config_source list \<Rightarrow> string option \<Rightarrow> shell \<Rightarrow> shell_effect list" where
  "handle_copy_sources srcs failure v =
     (let links = filter (\<lambda>l. l \<noteq> []) (map (link_of (sh_profiles v)) srcs) in
      if links = [] then [BadToast ''copy-links'' (Phrase ''configuration.bulk.nothingToCopy'' [])]
      else [CopyText (js_join [CHR 0x0A] links),
            case failure of None \<Rightarrow> GoodToast ''copy-links'' (Phrase ''configuration.bulk.copied'' [(''count'', nat_str (length links))])
            | Some message \<Rightarrow> BadToast ''copy-links'' (Words message)])"

section \<open>Latencies\<close>

definition put_results :: "profile_ping list \<Rightarrow> (string, jsnum option) omap \<Rightarrow> (string, jsnum option) omap" where
  "put_results results m = foldl (\<lambda>m r. om_set m (pp_id r) (pp_ping_ms r)) m results"

definition put_none :: "string list \<Rightarrow> (string, jsnum option) omap \<Rightarrow> (string, jsnum option) omap" where
  "put_none ids m = foldl (\<lambda>m i. om_set m i None) m ids"

definition refresh_pings :: "string + profile_ping list \<Rightarrow> shell \<Rightarrow> shell \<times> shell_effect list" where
  "refresh_pings answer v =
     (let domain = trimmed_or_local (sel_domain (sh_selection v));
          members = filter (\<lambda>p. profile_domain p = domain) (sh_profiles v);
          blank = put_none (map p_id members) []
      in if members = [] then (v\<lparr>sh_pings := []\<rparr>, [])
         else (v\<lparr>sh_pings := (case answer of Inr results \<Rightarrow> put_results results blank | Inl _ \<Rightarrow> blank)\<rparr>, [AskPings domain]))"

text \<open>Without ids every server of the list is measured; with ids only those, blank until the answer.\<close>

definition test_profiles :: "string list option \<Rightarrow> string + profile_ping list \<Rightarrow> shell \<Rightarrow> shell \<times> shell_effect list" where
  "test_profiles chosen answer v =
     (case chosen of
        None \<Rightarrow> refresh_pings answer v
      | Some ids \<Rightarrow>
          (let cleared = foldl om_delete (sh_pings v) ids;
               ask = AskProbe (trimmed_or_local (sel_domain (sh_selection v))) ids
           in case answer of
                Inr results \<Rightarrow> (v\<lparr>sh_pings := put_results results (put_none ids cleared)\<rparr>, [ask])
              | Inl message \<Rightarrow> (v\<lparr>sh_pings := cleared\<rparr>, [ask, BadToast ''test-profiles'' (Words message)])))"

definition set_favorites ::
  "(string \<Rightarrow> string \<Rightarrow> bool) \<Rightarrow> string list \<Rightarrow> bool \<Rightarrow> string + profile list \<Rightarrow> shell \<Rightarrow> shell \<times> shell_effect list" where
  "set_favorites lc ids favorite answer v =
     (case answer of
        Inr ps \<Rightarrow> (v\<lparr>sh_store := apply_profiles lc ps (sh_store v)\<rparr>, [AskFavorites ids favorite])
      | Inl message \<Rightarrow> (v, [AskFavorites ids favorite, BadToast ''favorites'' (Words message)]))"

section \<open>The proxy chain and the exit\<close>

definition add_hop :: "selection \<Rightarrow> string list \<Rightarrow> string \<Rightarrow> string list" where
  "add_hop sel chain i =
     (if i \<notin> set chain \<and> \<not> (sel_mode sel = Manual \<and> sel_profile_id sel = i) then chain @ [i] else chain)"

definition add_to_chain :: "string list \<Rightarrow> (app_settings \<Rightarrow> string + app_settings) \<Rightarrow> shell \<Rightarrow> shell \<times> shell_effect list" where
  "add_to_chain ids save v =
     (let chain = foldl (add_hop (sh_selection v)) (proxy_chain (sh_settings v)) ids;
          next = (sh_settings v)\<lparr>proxy_chain := chain, proxy_chain_enabled := True\<rparr>
      in (after_save (save next) v,
          AskSave next # (case save next of
             Inr _ \<Rightarrow> [GoodToast ''chain'' (Phrase ''proxies.bulk.chained'' [(''count'', nat_str (length chain))])] | Inl _ \<Rightarrow> [])))"

fun select_source :: "config_source \<Rightarrow> bool \<Rightarrow> shell \<Rightarrow> shell" where
  "select_source (ProfileSource key label detail pid) focus v =
     (set_selection \<lparr>sel_domain = LOCAL, sel_mode = Manual, sel_profile_id = pid\<rparr> v)
       \<lparr>sh_tab := (if focus then ''proxies'' else sh_tab v)\<rparr>"
| "select_source (SubscriptionSource key d label detail n info) focus v =
     (let domain = trimmed_or_local d;
          valid = list_ex (\<lambda>p. p_id p = sel_profile_id (sh_selection v) \<and> profile_domain p = domain) (sh_profiles v)
      in (set_selection (if valid then (sh_selection v)\<lparr>sel_domain := domain\<rparr> else auto_selection domain) v)
           \<lparr>sh_tab := (if focus then ''proxies'' else sh_tab v)\<rparr>)"

text \<open>A hop cannot also be the exit: choosing one takes it out of the chain in use.\<close>

definition handle_select_proxy :: "string \<Rightarrow> (app_settings \<Rightarrow> string + app_settings) \<Rightarrow> shell \<Rightarrow> shell \<times> shell_effect list" where
  "handle_select_proxy i save v =
     (case find (\<lambda>p. p_id p = i) (sh_profiles v) of
        None \<Rightarrow> (v, [])
      | Some p \<Rightarrow>
          (let next = (sh_settings v)\<lparr>proxy_chain := filter (\<lambda>entry. entry \<noteq> i) (proxy_chain (sh_settings v))\<rparr>;
               hop = (proxy_chain_enabled (sh_settings v) \<and> i \<in> set (proxy_chain (sh_settings v)));
               w = set_selection \<lparr>sel_domain = profile_domain p, sel_mode = Manual, sel_profile_id = i\<rparr> v
           in if hop then (after_save (save next) w, [AskSave next]) else (w, [])))"

definition handle_select_auto :: "shell \<Rightarrow> shell" where
  "handle_select_auto v = set_selection ((sh_selection v)\<lparr>sel_mode := Auto, sel_profile_id := []\<rparr>) v"

fun is_selected :: "selection \<Rightarrow> config_source \<Rightarrow> bool" where
  "is_selected s (ProfileSource key label detail pid) = (sel_domain s = LOCAL \<and> pid = sel_profile_id s)"
| "is_selected s (SubscriptionSource key d label detail n info) = (d = sel_domain s)"

definition selected_source :: "config_source list \<Rightarrow> selection \<Rightarrow> config_source option" where
  "selected_source srcs s = find (is_selected s) srcs"

section \<open>Screens\<close>

definition NAV_TABS :: "string list" where
  "NAV_TABS = [''connection'', ''proxies'', ''configuration'', ''routing'', ''activity'', ''settings'']"

definition change_tab :: "string \<Rightarrow> shell \<Rightarrow> shell" where
  "change_tab tab v =
     (if tab = ''settings'' \<and> sh_tab v = ''settings'' then v\<lparr>sh_settings_home := sh_settings_home v + 1\<rparr> else v\<lparr>sh_tab := tab\<rparr>)"

fun index_of :: "'a \<Rightarrow> 'a list \<Rightarrow> int" where
  "index_of x [] = -1"
| "index_of x (y # ys) = (if x = y then 0 else (let i = index_of x ys in if i < 0 then -1 else i + 1))"

definition at_index :: "'a list \<Rightarrow> int \<Rightarrow> 'a option" where
  "at_index xs i = (if 0 \<le> i \<and> i < int (length xs) then Some (xs ! nat i) else None)"

datatype arrow = ArrowLeft | ArrowRight

text \<open>An arrow key that nothing else wants; in a right-to-left page they are swapped.\<close>

definition arrow_key :: "bool \<Rightarrow> arrow \<Rightarrow> shell \<Rightarrow> shell" where
  "arrow_key rtl key v =
     (let forward = ((key = ArrowRight) \<noteq> rtl)
      in case at_index NAV_TABS (index_of (sh_tab v) NAV_TABS + (if forward then 1 else -1)) of
           Some tab \<Rightarrow> change_tab tab v | None \<Rightarrow> v)"

section \<open>What the handlers keep\<close>

lemma trimmed_domain: "trimmed_or_local (profile_domain p) = profile_domain p"
proof -
  have "js_trim LOCAL = LOCAL" by (simp add: LOCAL_def) code_simp
  then show ?thesis by (auto simp: trimmed_or_local_def profile_domain_def Let_def LOCAL_def)
qed

lemma source_in_list:
  assumes "src \<in> set (build_sources lc ps)"
  shows "(\<exists>p \<in> set ps. profile_domain p = LOCAL \<and> src = profile_source p)
    \<or> (\<exists>p \<in> set ps. \<exists>g n. profile_domain p \<noteq> LOCAL \<and> src = subscription_source g (profile_domain p, n))"
proof -
  have k: "d \<in> profile_domain ` set (subscribed ps)" if "(d, n) \<in> set (om_tally (map profile_domain (subscribed ps)))" for d n
    using that set_om_keys_tally [of "map profile_domain (subscribed ps)"] by (force simp del: set_filter)
  show ?thesis
    using assms k by (fastforce simp: build_sources_def Let_def group_local group_counts)
qed

lemma manual_choice_ok:
  assumes "p \<in> set ps"
  shows "selection_ok ps \<lparr>sel_domain = profile_domain p, sel_mode = Manual, sel_profile_id = p_id p\<rparr>"
proof -
  have "profile_domain p \<in> set (map profile_domain ps)" using assms by simp
  moreover have "ps \<noteq> []" using assms by auto
  ultimately show ?thesis using assms by (auto simp only: selection_ok_def names_profile_iff selection.simps split: if_splits)
qed

lemma ids_of_members:
  "set (ids_of ps srcs) = {p_id p | p. p \<in> set ps \<and> (\<exists>src \<in> set srcs. p \<in> set (profiles_of ps src))}"
proof -
  have "p \<in> set ps" if "p \<in> set (profiles_of ps src)" for p src using that by (cases src) auto
  then show ?thesis by (auto simp: ids_of_def)
qed

lemma prune_chain_kept:
  assumes "\<And>s. proxy_chain (nrm s) = proxy_chain s"
  shows "proxy_chain (sh_settings (fst (prune_chain remaining (\<lambda>s. Inr (nrm s)) v))) = alive_chain remaining (proxy_chain (sh_settings v))
    \<and> sh_store (fst (prune_chain remaining (\<lambda>s. Inr (nrm s)) v)) = sh_store v"
proof -
  have "xs = filter P xs" if "length (filter P xs) = length xs" for P and xs :: "string list"
    using that length_filter_less by (metis filter_True less_irrefl)
  then show ?thesis using assms by (simp add: prune_chain_def Let_def after_save_def alive_chain_def)
qed

lemma add_hops:
  assumes "distinct chain"
  shows "\<exists>added. foldl (add_hop sel) chain ids = chain @ added \<and> distinct (chain @ added)
    \<and> set added = {i \<in> set ids. i \<notin> set chain \<and> \<not> (sel_mode sel = Manual \<and> sel_profile_id sel = i)}"
  using assms
proof (induction ids arbitrary: chain)
  case (Cons i ids)
  show ?case
  proof (cases "add_hop sel chain i = chain")
    case True
    then have "i \<in> set chain \<or> sel_mode sel = Manual \<and> sel_profile_id sel = i" by (auto simp: add_hop_def split: if_splits)
    moreover from Cons.IH [OF Cons.prems] obtain added where "foldl (add_hop sel) chain ids = chain @ added" "distinct (chain @ added)"
      "set added = {i \<in> set ids. i \<notin> set chain \<and> \<not> (sel_mode sel = Manual \<and> sel_profile_id sel = i)}" by blast
    ultimately show ?thesis using True by (intro exI [of _ added]) auto
  next
    case False
    then have i: "add_hop sel chain i = chain @ [i]" "i \<notin> set chain" "\<not> (sel_mode sel = Manual \<and> sel_profile_id sel = i)"
      by (auto simp: add_hop_def split: if_splits)
    have "distinct (chain @ [i])" using Cons.prems i by simp
    from Cons.IH [OF this] obtain added where "foldl (add_hop sel) (chain @ [i]) ids = (chain @ [i]) @ added"
      "distinct ((chain @ [i]) @ added)"
      "set added = {k \<in> set ids. k \<notin> set (chain @ [i]) \<and> \<not> (sel_mode sel = Manual \<and> sel_profile_id sel = k)}" by blast
    then show ?thesis using i by (intro exI [of _ "i # added"]) auto
  qed
qed simp

lemma index_of_nth: "distinct xs \<Longrightarrow> k < length xs \<Longrightarrow> index_of (xs ! k) xs = int k"
proof (induction xs arbitrary: k)
  case (Cons x xs)
  then show ?case by (cases k) (auto simp: Let_def)
qed simp

lemma sh_tab_change [simp]: "sh_tab (change_tab tab v) = tab"
  by (simp add: change_tab_def)

lemma arrow_moves:
  assumes "sh_tab v = NAV_TABS ! k" "k < length NAV_TABS"
  shows "arrow_key rtl key v =
    (case at_index NAV_TABS (int k + (if (key = ArrowRight) \<noteq> rtl then 1 else -1)) of Some tab \<Rightarrow> change_tab tab v | None \<Rightarrow> v)"
proof -
  have "distinct NAV_TABS" by (simp add: NAV_TABS_def)
  from index_of_nth [OF this assms(2)] show ?thesis by (simp add: arrow_key_def assms(1) Let_def)
qed

section \<open>Properties\<close>

text \<open>C18: Deleting configurations asks the service for exactly the profiles they stand for; afterwards the
  list is what the service left, the selection is valid for it, and the proxy chain has lost
  exactly the hops that no longer exist.\<close>

theorem deleting_sources_prunes_chain:
  assumes "ids_of (sh_profiles v) srcs \<noteq> []" "\<And>s. proxy_chain (nrm s) = proxy_chain s"
    and "handle_delete_sources lc srcs (Inr remaining) (\<lambda>s. Inr (nrm s)) v = (w, es)"
  shows "hd es = AskDelete (ids_of (sh_profiles v) srcs)
    \<and> set (ids_of (sh_profiles v) srcs) = {p_id p | p. p \<in> set (sh_profiles v) \<and> (\<exists>src \<in> set srcs. p \<in> set (profiles_of (sh_profiles v) src))}
    \<and> sh_profiles w = remaining \<and> selection_ok remaining (sh_selection w)
    \<and> proxy_chain (sh_settings w) = filter (\<lambda>i. i \<in> set (map p_id remaining)) (proxy_chain (sh_settings v))"
proof -
  let ?v = "v\<lparr>sh_store := delete_ids lc (ids_of (sh_profiles v) srcs) remaining (sh_store v)\<rparr>"
  have "w = fst (prune_chain remaining (\<lambda>s. Inr (nrm s)) ?v)" "hd es = AskDelete (ids_of (sh_profiles v) srcs)"
    using assms(1,3) by (auto simp: handle_delete_sources_def delete_and_prune_def Let_def split: prod.splits)
  then show ?thesis
    using prune_chain_kept [OF assms(2), of remaining ?v] assms(1) ids_of_members
    by (simp add: delete_ids_def apply_profiles_def reconcile_ok alive_chain_def)
qed

definition sample_shell :: shell where
  "sample_shell = (opened_shell [])\<lparr>sh_store := \<lparr>ps_profiles = [sample_profile ''a'' None, sample_profile ''b'' None],
     ps_selection = \<lparr>sel_domain = LOCAL, sel_mode = Manual, sel_profile_id = ''b''\<rparr>\<rparr>,
     sh_settings := pending_settings\<lparr>proxy_chain_enabled := True, proxy_chain := [''b'', ''a'']\<rparr>\<rparr>"

theorem deleting_sources_prunes_chain_witness:
  "proxy_chain (sh_settings (fst (handle_delete_sources text_le [ProfileSource ''k'' ''b'' [] ''b''] (Inr [sample_profile ''a'' None]) (\<lambda>s. Inr (id s)) sample_shell))) = [''a'']"
proof -
  obtain w es where w: "handle_delete_sources text_le [ProfileSource ''k'' ''b'' [] ''b''] (Inr [sample_profile ''a'' None]) (\<lambda>s. Inr (id s)) sample_shell = (w, es)"
    by fastforce
  have "ids_of (sh_profiles sample_shell) [ProfileSource ''k'' ''b'' [] ''b''] \<noteq> []"
    by (simp add: ids_of_def sample_shell_def)
  from deleting_sources_prunes_chain [OF this _ w] show ?thesis unfolding w by (simp add: sample_shell_def)
qed

text \<open>A server is never made a hop while it is the chosen exit, hops are added once and in order after
  those there are, and choosing a hop as the exit takes it out of the chain in use.  Only the
  card of a hand-added server forgets to: choosing it leaves the server in the chain.\<close>

theorem exit_is_no_hop_except_by_card:
  assumes "\<And>s. proxy_chain (nrm s) = proxy_chain s" "distinct (proxy_chain (sh_settings v))"
  shows "(\<exists>added. proxy_chain (sh_settings (fst (add_to_chain ids (\<lambda>s. Inr (nrm s)) v))) = proxy_chain (sh_settings v) @ added
        \<and> distinct (proxy_chain (sh_settings v) @ added)
        \<and> set added = {i \<in> set ids. i \<notin> set (proxy_chain (sh_settings v))
             \<and> \<not> (sel_mode (sh_selection v) = Manual \<and> sel_profile_id (sh_selection v) = i)})
    \<and> (i \<in> p_id ` set (sh_profiles v) \<and> proxy_chain_enabled (sh_settings v) \<longrightarrow>
        sel_profile_id (sh_selection (fst (handle_select_proxy i (\<lambda>s. Inr (nrm s)) v))) = i
        \<and> proxy_chain (sh_settings (fst (handle_select_proxy i (\<lambda>s. Inr (nrm s)) v))) = filter (\<lambda>k. k \<noteq> i) (proxy_chain (sh_settings v)))
    \<and> sel_profile_id (sh_selection (select_source (ProfileSource key label detail i) focus v)) = i
    \<and> sh_settings (select_source (ProfileSource key label detail i) focus v) = sh_settings v"
proof (intro conjI impI)
  let ?next = "(sh_settings v)\<lparr>proxy_chain := foldl (add_hop (sh_selection v)) (proxy_chain (sh_settings v)) ids, proxy_chain_enabled := True\<rparr>"
  have "fst (add_to_chain ids (\<lambda>s. Inr (nrm s)) v) = v\<lparr>sh_settings := nrm ?next\<rparr>"
    by (simp add: add_to_chain_def after_save_def Let_def)
  then show "\<exists>added. proxy_chain (sh_settings (fst (add_to_chain ids (\<lambda>s. Inr (nrm s)) v))) = proxy_chain (sh_settings v) @ added
        \<and> distinct (proxy_chain (sh_settings v) @ added)
        \<and> set added = {i \<in> set ids. i \<notin> set (proxy_chain (sh_settings v))
             \<and> \<not> (sel_mode (sh_selection v) = Manual \<and> sel_profile_id (sh_selection v) = i)}"
    using add_hops [OF assms(2), of "sh_selection v" ids] by (simp add: assms(1))
next
  assume i: "i \<in> p_id ` set (sh_profiles v) \<and> proxy_chain_enabled (sh_settings v)"
  then obtain p where p: "find (\<lambda>p. p_id p = i) (sh_profiles v) = Some p"
    by (metis (mono_tags, lifting) find_None_all image_iff option.exhaust)
  have f: "filter (\<lambda>k. k \<noteq> i) xs = xs" if "i \<notin> set xs" for xs using that by (induction xs) auto
  show "sel_profile_id (sh_selection (fst (handle_select_proxy i (\<lambda>s. Inr (nrm s)) v))) = i"
    "proxy_chain (sh_settings (fst (handle_select_proxy i (\<lambda>s. Inr (nrm s)) v))) = filter (\<lambda>k. k \<noteq> i) (proxy_chain (sh_settings v))"
    using p i f by (simp_all add: handle_select_proxy_def Let_def after_save_def set_selection_def assms(1))
qed (simp_all add: set_selection_def)

theorem exit_is_no_hop_except_by_card_witness:
  "''b'' \<in> set (proxy_chain (sh_settings (select_source (ProfileSource ''k'' ''b'' [] ''b'') True sample_shell)))
    \<and> proxy_chain (sh_settings (fst (handle_select_proxy ''b'' (\<lambda>s. Inr (id s)) sample_shell))) = [''a'']"
  using exit_is_no_hop_except_by_card [of id sample_shell "[]" "''b''"]
  by (simp add: sample_shell_def)

text \<open>Every picker of the window leaves a valid selection - a card of the configurations, a server, and
  the automatic choice in a subscription.  The automatic choice among the hand-added servers,
  which the server menu offers too, does not last: the next time the list arrives the first of
  them is selected in its place.\<close>

theorem pickers_leave_valid_selection:
  assumes "store_ok (sh_store v)" "sh_profiles v \<noteq> []"
  shows "(\<forall>src \<in> set (build_sources lc (sh_profiles v)). store_ok (sh_store (select_source src focus v)))
    \<and> (\<forall>i. store_ok (sh_store (fst (handle_select_proxy i save v))))
    \<and> (sel_domain (sh_selection v) \<noteq> LOCAL \<longrightarrow> store_ok (sh_store (handle_select_auto v)))
    \<and> (sel_domain (sh_selection v) = LOCAL \<and> (\<forall>p \<in> set (sh_profiles v). p_id p \<noteq> []) \<longrightarrow>
         ps_selection (apply_profiles lc (sh_profiles v) (sh_store (handle_select_auto v)))
           = \<lparr>sel_domain = LOCAL, sel_mode = Manual, sel_profile_id = p_id (hd (filter (\<lambda>p. profile_domain p = LOCAL) (sh_profiles v)))\<rparr>)"
proof (intro conjI ballI allI impI)
  fix src
  assume "src \<in> set (build_sources lc (sh_profiles v))"
  then consider p where "p \<in> set (sh_profiles v)" "profile_domain p = LOCAL" "src = profile_source p"
    | p g n where "p \<in> set (sh_profiles v)" "profile_domain p \<noteq> LOCAL" "src = subscription_source g (profile_domain p, n)"
    using source_in_list by blast
  then show "store_ok (sh_store (select_source src focus v))"
  proof cases
    case 1
    from manual_choice_ok [OF 1(1)] 1(2,3) show ?thesis by (simp add: profile_source_def set_selection_def)
  next
    case 2
    then show ?thesis using assms(2)
      by (auto simp: subscription_source_def set_selection_def selection_ok_def names_profile_iff trimmed_domain
          auto_selection_def list_ex_iff Let_def)
  qed
next
  fix i
  show "store_ok (sh_store (fst (handle_select_proxy i save v)))"
  proof (cases "find (\<lambda>p. p_id p = i) (sh_profiles v)")
    case None
    then show ?thesis using assms(1) by (simp add: handle_select_proxy_def)
  next
    case (Some p)
    then have "p \<in> set (sh_profiles v) \<and> p_id p = i" by (rule find_Some_in)
    with manual_choice_ok [of p] Some show ?thesis
      by (auto simp: handle_select_proxy_def Let_def after_save_def set_selection_def split: sum.split)
  qed
next
  assume "sel_domain (sh_selection v) \<noteq> LOCAL"
  with assms show "store_ok (sh_store (handle_select_auto v))"
    by (simp add: handle_select_auto_def set_selection_def selection_ok_def)
next
  assume a: "sel_domain (sh_selection v) = LOCAL \<and> (\<forall>p \<in> set (sh_profiles v). p_id p \<noteq> [])"
  then have "LOCAL \<in> set (map profile_domain (sh_profiles v))" using assms by (simp add: selection_ok_def)
  then have "filter (\<lambda>p. profile_domain p = LOCAL) (sh_profiles v) \<noteq> []" by (fastforce simp: filter_empty_conv)
  moreover have "\<not> list_ex (\<lambda>p. p_id p = []) (filter (\<lambda>p. profile_domain p = LOCAL) (sh_profiles v))"
    using a by (auto simp: list_ex_iff)
  moreover have "LOCAL \<in> set (sorted_domains lc (sh_profiles v))" using a assms by (simp add: selection_ok_def)
  ultimately show "ps_selection (apply_profiles lc (sh_profiles v) (sh_store (handle_select_auto v)))
      = \<lparr>sel_domain = LOCAL, sel_mode = Manual, sel_profile_id = p_id (hd (filter (\<lambda>p. profile_domain p = LOCAL) (sh_profiles v)))\<rparr>"
    using a assms(2) by (simp add: apply_profiles_def reconcile_selection_def handle_select_auto_def set_selection_def)
qed

theorem pickers_leave_valid_selection_witness:
  "sel_mode (ps_selection (apply_profiles text_le (sh_profiles sample_shell) (sh_store (handle_select_auto sample_shell)))) = Manual"
proof -
  have "store_ok (sh_store sample_shell)" "sh_profiles sample_shell \<noteq> []"
    by (simp_all add: sample_shell_def selection_ok_def names_profile_iff)
  from pickers_leave_valid_selection [OF this, of text_le] show ?thesis by (simp add: sample_shell_def)
qed

text \<open>Testing chosen servers changes the latencies of those servers and of what the service reports, and of
  nothing else: a tested server shows its last result, or none; after a failed test it shows as
  not measured.\<close>

theorem testing_changes_only_tested:
  assumes "i \<notin> pp_id ` set results"
  shows "om_get (sh_pings (fst (test_profiles (Some ids) (Inr results) v))) i = (if i \<in> set ids then Some None else om_get (sh_pings v) i)
    \<and> om_get (sh_pings (fst (test_profiles (Some ids) (Inr (results @ [r])) v))) (pp_id r) = Some (pp_ping_ms r)
    \<and> om_get (sh_pings (fst (test_profiles (Some ids) (Inl message) v))) i = (if i \<in> set ids then None else om_get (sh_pings v) i)"
proof -
  have del: "om_get (foldl om_delete m ids) k = (if k \<in> set ids then None else om_get m k)" for m :: "(string, jsnum option) omap" and ids k
    by (induction ids arbitrary: m) (auto simp: om.look_del)
  have none: "om_get (put_none ids m) k = (if k \<in> set ids then Some None else om_get m k)" for m ids k
    by (induction ids arbitrary: m) (auto simp: put_none_def om.look_put)
  show ?thesis
    using assms om.foldl_put_other [of i pp_id results pp_ping_ms]
      om.foldl_put_last [of pp_id pp_ping_ms _ "results @ [r]" "pp_id r"]
    by (simp add: test_profiles_def Let_def put_results_def none del)
qed

theorem testing_changes_only_tested_witness:
  "om_get (sh_pings (fst (test_profiles (Some [''a'']) (Inr []) (opened_shell [])))) ''a'' = Some None"
  using testing_changes_only_tested [of "''a''" "[]" "[''a'']" "opened_shell []"] by simp

text \<open>The arrow keys walk the screens as the bar shows them: a step forward and a step back return to the
  same screen, the ends stop, and in a right-to-left page the arrows are swapped.\<close>

theorem arrows_walk_tabs:
  assumes "Suc k < length NAV_TABS" "sh_tab v = NAV_TABS ! k"
  shows "sh_tab (arrow_key rtl (if rtl then ArrowLeft else ArrowRight) v) = NAV_TABS ! Suc k
    \<and> sh_tab (arrow_key rtl (if rtl then ArrowRight else ArrowLeft) (arrow_key rtl (if rtl then ArrowLeft else ArrowRight) v)) = sh_tab v
    \<and> (k = 0 \<longrightarrow> arrow_key rtl (if rtl then ArrowRight else ArrowLeft) v = v)"
proof -
  have ne: "NAV_TABS \<noteq> []" by (simp add: NAV_TABS_def)
  let ?w = "arrow_key rtl (if rtl then ArrowLeft else ArrowRight) v"
  have w: "sh_tab ?w = NAV_TABS ! Suc k" using arrow_moves [OF assms(2), of rtl] assms(1) by (simp add: at_index_def nat_add_distrib)
  moreover have "sh_tab (arrow_key rtl (if rtl then ArrowRight else ArrowLeft) ?w) = NAV_TABS ! k"
    using arrow_moves [OF w, of rtl] assms(1) by (simp add: at_index_def)
  moreover have "k = 0 \<Longrightarrow> arrow_key rtl (if rtl then ArrowRight else ArrowLeft) v = v"
    using arrow_moves [OF assms(2), of rtl "if rtl then ArrowRight else ArrowLeft"] assms(1)
    by (cases rtl) (simp_all add: at_index_def ne)
  ultimately show ?thesis using assms(2) by simp
qed

theorem arrows_walk_tabs_witness:
  "sh_tab (arrow_key True ArrowLeft (opened_shell [])) = ''proxies''"
  using arrows_walk_tabs [of 0 "opened_shell []" True] by (simp add: NAV_TABS_def opened_shell_def)

end
