(* ===== verification/App_Startup.thy ===== *)
theory App_Startup
  imports App_Shell
begin

text \<open>
  The start of the window (the \<open>start\<close> effect of App.tsx) and the remembered selection.  The answers
  of the service to the calls of the start are one record; a failed call is \<open>Inl\<close> its message.
\<close>

section \<open>The selection of the last run\<close>

text \<open>By id, or by name when the provider has since changed that server's link.\<close>

definition saved_match :: "profile list \<Rightarrow> saved_selection \<Rightarrow> profile option" where
  "saved_match loaded saved =
     (case find (\<lambda>p. p_id p = ss_profile_id saved) loaded of
        Some p \<Rightarrow> Some p
      | None \<Rightarrow> find (\<lambda>p. profile_domain p = ss_domain saved \<and> p_name p = ss_profile_name saved) loaded)"

definition id_or_blank :: "profile option \<Rightarrow> string" where
  "id_or_blank m = (case m of Some p \<Rightarrow> p_id p | None \<Rightarrow> [])"

definition restored_selection :: "(string \<Rightarrow> string \<Rightarrow> bool) \<Rightarrow> profile list \<Rightarrow> saved_selection \<Rightarrow> selection" where
  "restored_selection lc loaded saved =
     reconcile_selection lc loaded
       \<lparr>sel_domain = ss_domain saved, sel_mode = ss_mode saved, sel_profile_id = id_or_blank (saved_match loaded saved)\<rparr>"

definition auto_target :: "(string \<Rightarrow> string \<Rightarrow> bool) \<Rightarrow> profile list \<Rightarrow> saved_selection option \<Rightarrow> selection" where
  "auto_target lc loaded saved =
     reconcile_selection lc loaded
       (case saved of
          Some s \<Rightarrow> \<lparr>sel_domain = ss_domain s, sel_mode = ss_mode s,
                     sel_profile_id = id_or_blank (find (\<lambda>p. p_id p = ss_profile_id s) loaded)\<rparr>
        | None \<Rightarrow> \<lparr>sel_domain = [], sel_mode = Auto, sel_profile_id = []\<rparr>)"

definition remembered :: "profile list \<Rightarrow> selection \<Rightarrow> saved_selection" where
  "remembered ps s =
     \<lparr>ss_domain = sel_domain s, ss_mode = sel_mode s, ss_profile_id = sel_profile_id s,
      ss_profile_name = (case find (\<lambda>p. p_id p = sel_profile_id s) ps of Some p \<Rightarrow> p_name p | None \<Rightarrow> [])\<rparr>"

text \<open>
  Runs whenever the selection or the list changes: what is to be saved, if anything.  Until the
  saved selection is restored the empty one must not be saved over it.
\<close>

definition selection_to_save :: "shell \<Rightarrow> saved_selection option" where
  "selection_to_save v =
     (let next = remembered (sh_profiles v) (sh_selection v) in
      if \<not> sh_restored v \<or> sel_domain (sh_selection v) = [] \<or> last_selection (sh_settings v) = Some next then None
      else Some next)"

definition remember_selection :: "(app_settings \<Rightarrow> string + app_settings) \<Rightarrow> shell \<Rightarrow> shell \<times> shell_effect list" where
  "remember_selection save v =
     (case selection_to_save v of
        None \<Rightarrow> (v, [])
      | Some s \<Rightarrow>
          (let next = (sh_settings v)\<lparr>last_selection := Some s\<rparr> in
           (after_save (save next) (v\<lparr>sh_settings := next\<rparr>),
            AskSave next # (case save next of
               Inl e \<Rightarrow> [BadToast ''save-settings'' (Phrase ''toast.saveFailed'' [(''error'', e)])] | Inr _ \<Rightarrow> []))))"

section \<open>The start\<close>

record start_answers =
  sa_platform :: "string option"
  sa_settings :: "string + app_settings"
  sa_push :: "string option"
  sa_save :: "app_settings \<Rightarrow> string + app_settings"
  sa_profiles :: "string + profile list"
  sa_refresh :: "string + refresh_summary \<times> profile list"

definition filled :: "string option \<Rightarrow> bool" where
  "filled v = (or_else v [] \<noteq> [])"

definition start_platform :: "start_answers \<Rightarrow> shell \<Rightarrow> shell" where
  "start_platform a v = (case sa_platform a of Some p \<Rightarrow> v\<lparr>sh_platform := p\<rparr> | None \<Rightarrow> v)"

text \<open>Profiles that the last run left to send to the user's server.\<close>

definition start_sync :: "start_answers \<Rightarrow> app_settings \<Rightarrow> shell \<Rightarrow> shell \<times> shell_effect list" where
  "start_sync a stored v =
     (if pending_sync_upload stored \<and> filled (auth_server stored) \<and> filled (auth_token stored)
      then (let next = stored\<lparr>pending_sync_upload := False\<rparr> in
            case sa_push a of
              Some e \<Rightarrow> (v, [AskPush stored, LogLines [''Profile sync failed: '' @ e]])
            | None \<Rightarrow> (after_save (sa_save a next) v,
                [AskPush stored, AskSave next,
                 LogLines [case sa_save a next of Inr _ \<Rightarrow> ''Profiles synced to the server.'' | Inl e \<Rightarrow> ''Profile sync failed: '' @ e]]))
      else (v, []))"

definition start_settings :: "start_answers \<Rightarrow> shell \<Rightarrow> shell \<times> shell_effect list" where
  "start_settings a v =
     (case sa_settings a of
        Inl e \<Rightarrow> (v, [LogLines [''Could not load settings: '' @ e]])
      | Inr stored \<Rightarrow>
          start_sync a stored
            (v\<lparr>sh_settings := stored,
               sh_onboarding := (if \<not> filled (auth_server stored) \<and> \<not> skip_auth stored then Some ''welcome'' else sh_onboarding v)\<rparr>))"

definition start_profiles ::
  "(string \<Rightarrow> string \<Rightarrow> bool) \<Rightarrow> saved_selection option \<Rightarrow> bool \<Rightarrow> start_answers \<Rightarrow> shell \<Rightarrow> shell \<times> shell_effect list" where
  "start_profiles lc saved connect a v =
     (case sa_profiles a of
        Inl e \<Rightarrow> (v, [LogLines [''Could not load profiles: '' @ e]])
      | Inr loaded \<Rightarrow>
          (let v1 = v\<lparr>sh_store := apply_profiles lc loaded (sh_store v)\<rparr>;
               target = auto_target lc loaded saved
           in (case saved of Some s \<Rightarrow> set_selection (restored_selection lc loaded s) v1 | None \<Rightarrow> v1,
               if connect \<and> loaded \<noteq> []
               then [LogLines [''Connecting automatically.''], AskConnect (sel_domain target) (sel_mode target) (sel_profile_id target)]
               else [])))"

definition start_refresh :: "(string \<Rightarrow> string \<Rightarrow> bool) \<Rightarrow> start_answers \<Rightarrow> shell \<Rightarrow> shell \<times> shell_effect list" where
  "start_refresh lc a v =
     (case sa_refresh a of
        Inl e \<Rightarrow> (v, [LogLines [''Subscription refresh failed: '' @ e]])
      | Inr (summary, ps) \<Rightarrow>
          (v\<lparr>sh_store := apply_profiles lc ps (sh_store v)\<rparr>,
           if rs_refreshed summary \<noteq> 0 \<or> rs_failed summary \<noteq> 0 \<or> rs_skipped summary \<noteq> 0
           then [LogLines [''Subscriptions refreshed: '' @ nat_str (rs_refreshed summary) @ '' updated, '' @ nat_str (rs_failed summary)
                   @ '' failed, '' @ nat_str (rs_skipped summary) @ '' skipped.'']]
           else []))"

definition startup :: "(string \<Rightarrow> string \<Rightarrow> bool) \<Rightarrow> start_answers \<Rightarrow> shell \<Rightarrow> shell \<times> shell_effect list" where
  "startup lc a v =
     (let stored = (case sa_settings a of Inr s \<Rightarrow> Some s | Inl _ \<Rightarrow> None);
          saved = Option.bind stored last_selection;
          connect = (case stored of Some s \<Rightarrow> auto_connect s | None \<Rightarrow> False);
          update = (case stored of Some s \<Rightarrow> subscription_auto_update s \<noteq> Some False | None \<Rightarrow> True)
      in case start_settings a (start_platform a v) of (v1, es1) \<Rightarrow>
         case start_profiles lc saved connect a v1 of (v2, es2) \<Rightarrow>
         case (if update then start_refresh lc a (v2\<lparr>sh_restored := True\<rparr>) else (v2\<lparr>sh_restored := True\<rparr>, [])) of (v3, es3) \<Rightarrow>
           (v3, LogLines [''NuggetVPN started.''] # es1 @ es2 @ es3))"

section \<open>While the window is open\<close>

text \<open>A link on the clipboard is offered once, and not when it is already added.\<close>

definition clipboard_check :: "string option \<Rightarrow> profile list \<Rightarrow> string list \<Rightarrow> string list \<times> string option" where
  "clipboard_check answer ps offered =
     (case answer of
        None \<Rightarrow> (offered, None)
      | Some link \<Rightarrow>
          if link = [] \<or> link \<in> set offered then (offered, None)
          else (link # offered,
                if list_ex (\<lambda>p. p_config_link p = link \<or> p_subscription_url p = Some link) ps then None else Some link))"

text \<open>A new release is announced once per version.\<close>

definition update_announcement :: "update_info option \<Rightarrow> string \<Rightarrow> string \<times> string option" where
  "update_announcement answer announced =
     (case answer of
        None \<Rightarrow> (announced, None)
      | Some info \<Rightarrow>
          if \<not> up_available info \<or> announced = up_latest info then (announced, None)
          else (up_latest info, Some (up_latest info)))"

text \<open>The public address, asked for only when the user allows it.\<close>

definition check_ip :: "app_settings \<Rightarrow> ip_info option \<Rightarrow> ip_info option" where
  "check_ip s answer = (if ip_check_enabled s = Some True then answer else None)"

text \<open>What the window was opened or offered with goes into the dialog for adding; nothing is added by itself.\<close>

record add_dialog =
  ad_open :: bool
  ad_link :: string

definition open_with_link :: "string \<Rightarrow> add_dialog" where
  "open_with_link link = \<lparr>ad_open = True, ad_link = link\<rparr>"

definition close_add_dialog :: add_dialog where
  "close_add_dialog = \<lparr>ad_open = False, ad_link = []\<rparr>"

definition pending_link :: "string option \<Rightarrow> add_dialog \<Rightarrow> add_dialog" where
  "pending_link answer dialog = (case answer of Some (c # cs) \<Rightarrow> open_with_link (c # cs) | _ \<Rightarrow> dialog)"

fun clipboard_offers :: "(string option \<times> profile list) list \<Rightarrow> string list \<Rightarrow> string list" where
  "clipboard_offers [] offered = []"
| "clipboard_offers ((answer, ps) # visits) offered =
     (case clipboard_check answer ps offered of
        (offered', shown) \<Rightarrow> (case shown of Some link \<Rightarrow> [link] | None \<Rightarrow> []) @ clipboard_offers visits offered')"

lemma clipboard_offers_once:
  "distinct (clipboard_offers visits offered) \<and> set (clipboard_offers visits offered) \<inter> set offered = {}"
proof (induction visits offered rule: clipboard_offers.induct)
  case (2 answer ps visits offered)
  obtain offered' shown where c: "clipboard_check answer ps offered = (offered', shown)" by fastforce
  from 2 [OF c [symmetric]] c show ?case by (auto simp: clipboard_check_def split: option.splits if_splits)
qed simp

section \<open>Properties\<close>

lemma restored_remembered:
  assumes "selection_ok ps s" "distinct (map p_id ps)" "\<forall>p \<in> set ps. p_id p \<noteq> [] \<and> p_name p \<noteq> []"
  shows "restored_selection lc ps (remembered ps s) = s"
    and "auto_target lc ps (Some (remembered ps s)) = s"
proof -
  have keep: "reconcile_selection lc ps \<lparr>sel_domain = sel_domain s, sel_mode = sel_mode s, sel_profile_id = sel_profile_id s\<rparr> = s"
    using reconcile_keeps [OF assms(1,2), of lc] assms(3) by (cases s) simp
  have a: "id_or_blank (find (\<lambda>p. p_id p = sel_profile_id s) ps) = sel_profile_id s"
    and b: "id_or_blank (saved_match ps (remembered ps s)) = sel_profile_id s"
  proof -
    consider p where "p \<in> set ps" "p_id p = sel_profile_id s" | "sel_profile_id s = []"
      using assms(1) by (auto simp: selection_ok_def names_profile_iff EMPTY_SELECTION_def split: if_splits)
    then have "id_or_blank (find (\<lambda>p. p_id p = sel_profile_id s) ps) = sel_profile_id s
        \<and> id_or_blank (saved_match ps (remembered ps s)) = sel_profile_id s"
    proof cases
      case 1
      with find_key [OF assms(2) 1(1)] show ?thesis by (simp add: saved_match_def remembered_def id_or_blank_def)
    next
      case 2
      with assms(3) have "find (\<lambda>p. p_id p = sel_profile_id s) ps = None" by (auto simp: find_None_iff)
      moreover have "find (\<lambda>p. profile_domain p = sel_domain s \<and> p_name p = []) ps = None"
        using assms(3) by (auto simp: find_None_iff)
      ultimately show ?thesis using 2 by (simp add: saved_match_def remembered_def id_or_blank_def)
    qed
    then show "id_or_blank (find (\<lambda>p. p_id p = sel_profile_id s) ps) = sel_profile_id s"
      "id_or_blank (saved_match ps (remembered ps s)) = sel_profile_id s" by simp_all
  qed
  show "restored_selection lc ps (remembered ps s) = s" using b keep by (simp add: restored_selection_def remembered_def)
  show "auto_target lc ps (Some (remembered ps s)) = s" using a keep by (simp add: auto_target_def remembered_def)
qed


definition sample_answers :: start_answers where
  "sample_answers = \<lparr>sa_platform = None,
     sa_settings = Inr (pending_settings\<lparr>last_selection := Some (remembered [sample_profile ''a'' None]
         \<lparr>sel_domain = LOCAL, sel_mode = Manual, sel_profile_id = ''a''\<rparr>),
       subscription_auto_update := Some False, auto_connect := True\<rparr>),
     sa_push = None, sa_save = Inr, sa_profiles = Inr [sample_profile ''a'' None], sa_refresh = Inl []\<rparr>"


text \<open>When a subscription's provider changed the link of the remembered server, so that its id is new, the
  window finds it again by its name and selects it; the automatic connection of the same start
  does not look for the name, so it is asked for any server of that subscription.\<close>

theorem autoconnect_misses_renewed_server:
  assumes "distinct (map p_id ps)" "p \<in> set ps" "\<forall>q \<in> set ps. p_id q \<noteq> ss_profile_id saved \<and> p_id q \<noteq> []"
    and "find (\<lambda>q. profile_domain q = ss_domain saved \<and> p_name q = ss_profile_name saved) ps = Some p" "profile_domain p \<noteq> LOCAL"
  shows "sel_profile_id (restored_selection lc ps saved) = p_id p \<and> sel_mode (restored_selection lc ps saved) = ss_mode saved
    \<and> auto_target lc ps (Some saved) = auto_selection (ss_domain saved)"
proof -
  have ne: "ps \<noteq> []" using assms(2) by auto
  have d: "profile_domain p = ss_domain saved" using find_Some_in [OF assms(4)] by simp
  have dom: "ss_domain saved \<in> set (sorted_domains lc ps)" using assms(2) d [symmetric] by simp
  have none: "find (\<lambda>q. p_id q = ss_profile_id saved) ps = None" "find (\<lambda>q. p_id q = []) ps = None"
    using assms(3) by (auto simp: find_None_iff)
  have "saved_match ps saved = Some p" using none assms(4) by (simp add: saved_match_def)
  then show ?thesis
    using none ne dom d assms(5) find_key [OF assms(1,2)]
    by (auto simp: restored_selection_def auto_target_def id_or_blank_def reconcile_selection_def Let_def)
qed

theorem autoconnect_misses_renewed_server_witness:
  "auto_target text_le [sample_profile ''b'' (Some ''sub.example'')]
     (Some \<lparr>ss_domain = ''sub.example'', ss_mode = Manual, ss_profile_id = ''a'', ss_profile_name = ''b''\<rparr>) = auto_selection ''sub.example''"
proof -
  let ?p = "sample_profile ''b'' (Some ''sub.example'')"
  have d: "profile_domain ?p = ''sub.example''"
    by (simp add: profile_domain_def sample_profile_def Let_def) code_simp
  show ?thesis
    using autoconnect_misses_renewed_server [of "[?p]" ?p "\<lparr>ss_domain = ''sub.example'', ss_mode = Manual, ss_profile_id = ''a'', ss_profile_name = ''b''\<rparr>" text_le]
    by (simp add: d LOCAL_def) (simp add: sample_profile_def)
qed

end
