(* ===== verification/Subscriptions.thy ===== *)
theory Subscriptions
  imports App_Shell
begin

text \<open>
  Subscriptions: how close one is to running out (components/subscription-usage.tsx), what its
  provider suggests and the answer to it (components/subscription-suggestions.tsx), and the
  scheduled refresh and the warnings of App.tsx.  Times are milliseconds; the text of JSON is the
  argument \<open>stringify\<close>.
\<close>

section \<open>Running out\<close>

datatype alert = Expired | Exhausted | Expiring | Low

definition DAY :: int where
  "DAY = 24 * 60 * 60 * 1000"

definition subscription_alert :: "subscription_info option \<Rightarrow> int \<Rightarrow> alert option" where
  "subscription_alert info now =
     (case info of
        None \<Rightarrow> None
      | Some i \<Rightarrow>
          (let used = si_upload i + si_download i in
           if si_expire i > 0 \<and> si_expire i * 1000 \<le> now then Some Expired
           else if si_total i > 0 \<and> used \<ge> si_total i then Some Exhausted
           else if si_expire i > 0 \<and> si_expire i * 1000 - now < 3 * DAY then Some Expiring
           else if si_total i > 0 \<and> rat_of_int used / rat_of_int (si_total i) \<ge> 9 / 10 then Some Low
           else None))"

text \<open>The bar, from 0 to 1, and the whole days left, rounded up.\<close>

definition used_share :: "subscription_info \<Rightarrow> rat" where
  "used_share i =
     (if si_total i > 0 then min 1 (rat_of_int (si_upload i + si_download i) / rat_of_int (si_total i)) else 0)"

datatype expiry_text = NoExpiry | ExpiredOn int | ExpiresIn int int

definition expiry :: "subscription_info \<Rightarrow> int \<Rightarrow> expiry_text" where
  "expiry i now =
     (if si_expire i = 0 then NoExpiry
      else (let days = \<lceil>rat_of_int (si_expire i * 1000 - now) / rat_of_int DAY\<rceil> in
            if days \<le> 0 then ExpiredOn (si_expire i * 1000) else ExpiresIn (si_expire i * 1000) days))"

definition alert_key :: "alert \<Rightarrow> string" where
  "alert_key a = (case a of Expired \<Rightarrow> ''expired'' | Exhausted \<Rightarrow> ''exhausted'' | Expiring \<Rightarrow> ''expiring'' | Low \<Rightarrow> ''low'')"

text \<open>One warning per subscription and alert in a session.\<close>

fun warn_source :: "int \<Rightarrow> string list \<times> shell_effect list \<Rightarrow> config_source \<Rightarrow> string list \<times> shell_effect list" where
  "warn_source now (warned, es) (ProfileSource key label detail pid) = (warned, es)"
| "warn_source now (warned, es) (SubscriptionSource key d label detail n info) =
     (case subscription_alert info now of
        None \<Rightarrow> (warned, es)
      | Some a \<Rightarrow>
          (let k = d @ '':'' @ alert_key a in
           if k \<in> set warned then (warned, es)
           else (warned @ [k], es @ [GoodToast k (Phrase (''usage.alert.'' @ alert_key a) [(''name'', label)])])))"

definition warn_sources :: "int \<Rightarrow> config_source list \<Rightarrow> string list \<Rightarrow> string list \<times> shell_effect list" where
  "warn_sources now srcs warned = foldl (warn_source now) (warned, []) srcs"

section \<open>Refreshing on a schedule\<close>

definition DEFAULT_REFRESH_HOURS :: rat where
  "DEFAULT_REFRESH_HOURS = 6"

text \<open>A number of hours that is there and not zero.\<close>

definition some_hours :: "rat option \<Rightarrow> rat \<Rightarrow> rat" where
  "some_hours h d = (case h of Some q \<Rightarrow> if q = 0 then d else q | None \<Rightarrow> d)"

definition refresh_hours :: "(string \<rightharpoonup> subscription_choice) \<Rightarrow> string \<Rightarrow> rat" where
  "refresh_hours choices d =
     some_hours (Option.bind (choices d) sc_refresh_hours) DEFAULT_REFRESH_HOURS"

definition last_read :: "(string, int) omap \<Rightarrow> string \<Rightarrow> subscription_info option \<Rightarrow> int" where
  "last_read tried d info =
     max (case info of Some i \<Rightarrow> si_updated_at i * 1000 | None \<Rightarrow> 0) (or_else (om_get tried d) 0)"

definition is_due :: "int \<Rightarrow> (string \<rightharpoonup> subscription_choice) \<Rightarrow> (string, int) omap \<Rightarrow> string \<Rightarrow> subscription_info option \<Rightarrow> bool" where
  "is_due now choices tried d info =
     (\<not> rat_of_int (now - last_read tried d info) < refresh_hours choices d * 3600000)"

record refresh_run =
  ru_tried :: "(string, int) omap"
  ru_shell :: shell
  ru_effects :: "shell_effect list"

definition refresh_due ::
  "(string \<Rightarrow> string \<Rightarrow> bool) \<Rightarrow> int \<Rightarrow> string \<Rightarrow> string + refresh_summary \<times> profile list \<Rightarrow> refresh_run \<Rightarrow> refresh_run" where
  "refresh_due lc now d answer r =
     (case answer of
        Inr (summary, ps) \<Rightarrow>
          \<lparr>ru_tried = om_set (ru_tried r) d now, ru_shell = (ru_shell r)\<lparr>sh_store := apply_profiles lc ps (sh_store (ru_shell r))\<rparr>,
           ru_effects = ru_effects r @ [AskRefresh d,
             LogLines [d @ '': refreshed on schedule ('' @ nat_str (rs_refreshed summary) @ '' updated).'']]\<rparr>
      | Inl e \<Rightarrow>
          \<lparr>ru_tried = om_set (ru_tried r) d now, ru_shell = ru_shell r,
           ru_effects = ru_effects r @ [AskRefresh d, LogLines [''Scheduled refresh failed for '' @ d @ '': '' @ e]]\<rparr>)"

text \<open>One tick: the sources, the choices and the time are those of its start.\<close>

fun tick_source ::
  "(string \<Rightarrow> string \<Rightarrow> bool) \<Rightarrow> int \<Rightarrow> (string \<rightharpoonup> subscription_choice) \<Rightarrow> (string \<Rightarrow> string + refresh_summary \<times> profile list)
     \<Rightarrow> refresh_run \<Rightarrow> config_source \<Rightarrow> refresh_run" where
  "tick_source lc now choices answers r (ProfileSource key label detail pid) = r"
| "tick_source lc now choices answers r (SubscriptionSource key d label detail n info) =
     (if is_due now choices (ru_tried r) d info then refresh_due lc now d (answers d) r else r)"

definition refresh_tick ::
  "(string \<Rightarrow> string \<Rightarrow> bool) \<Rightarrow> int \<Rightarrow> (string \<rightharpoonup> subscription_choice) \<Rightarrow> (string \<Rightarrow> string + refresh_summary \<times> profile list)
     \<Rightarrow> config_source list \<Rightarrow> refresh_run \<Rightarrow> refresh_run" where
  "refresh_tick lc now choices answers srcs r = foldl (tick_source lc now choices answers) r srcs"

section \<open>What a provider suggests\<close>

record offer =
  of_hours :: rat
  of_apps :: "(apps_mode \<times> string list) option"
  of_key :: string

definition apps_json :: "(apps_mode \<times> string list) option \<Rightarrow> json" where
  "apps_json apps =
     (case apps of
        None \<Rightarrow> JNull
      | Some (mode, xs) \<Rightarrow> JObj [(''mode'', JStr (case mode of BypassApps \<Rightarrow> ''bypass'' | ProxyApps \<Rightarrow> ''proxy'')),
                               (''list'', JArr (map JStr xs))])"

definition offer_key :: "(json \<Rightarrow> string) \<Rightarrow> rat \<Rightarrow> (apps_mode \<times> string list) option \<Rightarrow> string" where
  "offer_key stringify hours apps = stringify (JObj [(''hours'', JNum (Fin hours)), (''apps'', apps_json apps)])"

definition offer_of :: "(json \<Rightarrow> string) \<Rightarrow> bool \<Rightarrow> subscription_info option \<Rightarrow> offer option" where
  "offer_of stringify android info =
     (let hours = (case Option.bind info si_update_hours of
                     Some q \<Rightarrow> if q \<noteq> 0 \<and> q \<noteq> DEFAULT_REFRESH_HOURS then q else 0 | None \<Rightarrow> 0);
          apps = (case info of
                    Some i \<Rightarrow> (case (si_apps i, si_apps_mode i) of
                                 (Some (x # xs), Some mode) \<Rightarrow> if android then Some (mode, x # xs) else None
                               | _ \<Rightarrow> None)
                  | None \<Rightarrow> None)
      in if hours = 0 \<and> apps = None then None
         else Some \<lparr>of_hours = hours, of_apps = apps, of_key = offer_key stringify hours apps\<rparr>)"

definition choices_of :: "app_settings \<Rightarrow> string \<rightharpoonup> subscription_choice" where
  "choices_of s = or_else (subscription_choices s) Map.empty"

definition NO_CHOICE :: subscription_choice where
  "NO_CHOICE = \<lparr>sc_answered = None, sc_refresh_hours = None, sc_apps_rule = None\<rparr>"

text \<open>The first subscription with something to ask about: not put off, not answered already.\<close>

fun pending_offer ::
  "(json \<Rightarrow> string) \<Rightarrow> bool \<Rightarrow> string list \<Rightarrow> app_settings \<Rightarrow> config_source list \<Rightarrow> (string \<times> offer) option" where
  "pending_offer stringify android later s [] = None"
| "pending_offer stringify android later s (ProfileSource key label detail pid # srcs) = pending_offer stringify android later s srcs"
| "pending_offer stringify android later s (SubscriptionSource key d label detail n info # srcs) =
     (if d \<in> set later then pending_offer stringify android later s srcs
      else case offer_of stringify android info of
             Some o1 \<Rightarrow> if Option.bind (choices_of s d) sc_answered = Some (of_key o1) then pending_offer stringify android later s srcs
                       else Some (d, o1)
           | None \<Rightarrow> pending_offer stringify android later s srcs)"

definition apps_rule :: "string \<Rightarrow> apps_mode \<Rightarrow> string list \<Rightarrow> routing_rule" where
  "apps_rule rid mode xs =
     \<lparr>rr_id = rid, rr_kind = Single Apps, rr_values = xs, rr_action = Some Direct, rr_invert = Some (mode = ProxyApps),
      rr_server = None, rr_dns = None, rr_mode = None, rr_conditions = None\<rparr>"

definition answer_offer :: "bool \<Rightarrow> bool \<Rightarrow> bool \<Rightarrow> string \<Rightarrow> offer \<Rightarrow> app_settings \<Rightarrow> app_settings" where
  "answer_offer accept take_refresh take_apps d o1 s =
     (let choice = or_else (choices_of s d) NO_CHOICE;
          existing = (case sc_apps_rule choice of
                        Some (c # cs) \<Rightarrow> find (\<lambda>r. rr_id r = c # cs) (routing_rules s) | _ \<Rightarrow> None);
          next = choice\<lparr>sc_answered := Some (of_key o1)\<rparr>;
          next1 = (if accept \<and> of_hours o1 \<noteq> 0 \<and> take_refresh then next\<lparr>sc_refresh_hours := Some (of_hours o1)\<rparr> else next)
      in case (if accept \<and> take_apps then of_apps o1 else None) of
           None \<Rightarrow> s\<lparr>subscription_choices := Some ((choices_of s)(d \<mapsto> next1))\<rparr>
         | Some (mode, xs) \<Rightarrow>
             (let rid = (case existing of Some r \<Rightarrow> rr_id r | None \<Rightarrow> ''subscription-apps-'' @ d);
                  rule = apps_rule rid mode xs
              in s\<lparr>routing_rules := (if existing \<noteq> None then map (\<lambda>r. if rr_id r = rid then rule else r) (routing_rules s)
                                    else routing_rules s @ [rule]),
                   subscription_choices := Some ((choices_of s)(d \<mapsto> next1\<lparr>sc_apps_rule := Some rid\<rparr>))\<rparr>))"

section \<open>Properties\<close>

fun severity :: "alert option \<Rightarrow> nat" where
  "severity None = 0"
| "severity (Some Low) = 1"
| "severity (Some Expiring) = 2"
| "severity (Some Exhausted) = 3"
| "severity (Some Expired) = 4"

lemma nine_tenths: "0 < n \<Longrightarrow> (9 / 10 \<le> rat_of_int u / rat_of_int n) = (9 * n \<le> 10 * u)"
proof -
  assume "0 < n"
  then have "(9 / 10 \<le> rat_of_int u / rat_of_int n) = (9 * rat_of_int n \<le> 10 * rat_of_int u)" by (simp add: field_simps)
  also have "\<dots> = (rat_of_int (9 * n) \<le> rat_of_int (10 * u))" by simp
  finally show ?thesis by (simp only: of_int_le_iff)
qed

lemma severity_if:
  "severity (subscription_alert (Some i) t) =
    (if 0 < si_expire i \<and> si_expire i * 1000 \<le> t then 4
     else if 0 < si_total i \<and> si_total i \<le> si_upload i + si_download i then 3
     else if 0 < si_expire i \<and> si_expire i * 1000 - t < 3 * DAY then 2
     else if 0 < si_total i \<and> 9 * si_total i \<le> 10 * (si_upload i + si_download i) then 1 else 0)"
proof -
  have low: "(0 < n \<and> 9 / 10 \<le> rat_of_int u / rat_of_int n) = (0 < n \<and> 9 * n \<le> 10 * u)" for n u
    using nine_tenths by blast
  show ?thesis
    unfolding subscription_alert_def Let_def option.case low by (simp only: if_distrib [of severity] severity.simps)
qed

lemma severity_None: "subscription_alert info t = None \<longleftrightarrow> severity (subscription_alert info t) = 0"
  by (cases "subscription_alert info t" rule: severity.cases) simp_all

lemma severity_mono:
  "(a \<Longrightarrow> a') \<Longrightarrow> (b \<Longrightarrow> b') \<Longrightarrow> (c \<Longrightarrow> c') \<Longrightarrow> (d \<Longrightarrow> d') \<Longrightarrow>
    (if a then 4 else if b then 3 else if c then 2 else if d then 1 else (0 :: nat))
      \<le> (if a' then 4 else if b' then 3 else if c' then 2 else if d' then 1 else 0)"
  by (cases a; cases b; cases c; cases d) simp_all

text \<open>As time passes and data is used a subscription's alert only gets worse; it is silent exactly when
  more than three days are left (or it never expires) and less than nine tenths of the data is
  used (or the data is unlimited), and says expired exactly from the moment of expiry.\<close>

theorem alerts_escalate:
  "(t \<le> t' \<and> 0 \<le> extra \<longrightarrow>
      severity (subscription_alert (Some i) t) \<le> severity (subscription_alert (Some (i\<lparr>si_download := si_download i + extra\<rparr>)) t'))
    \<and> (subscription_alert (Some i) t = None \<longleftrightarrow>
        (si_expire i \<le> 0 \<or> si_expire i * 1000 - t \<ge> 3 * DAY)
        \<and> (si_total i \<le> 0 \<or> 10 * (si_upload i + si_download i) < 9 * si_total i))
    \<and> (subscription_alert (Some i) t = Some Expired \<longleftrightarrow> 0 < si_expire i \<and> si_expire i * 1000 \<le> t)"
proof (intro conjI impI)
  assume a: "t \<le> t' \<and> 0 \<le> extra"
  have "t \<le> t'" "0 \<le> extra" using a by simp_all
  then show "severity (subscription_alert (Some i) t) \<le> severity (subscription_alert (Some (i\<lparr>si_download := si_download i + extra\<rparr>)) t')"
    unfolding severity_if by (intro severity_mono) auto
next
  show "subscription_alert (Some i) t = None \<longleftrightarrow> (si_expire i \<le> 0 \<or> si_expire i * 1000 - t \<ge> 3 * DAY)
      \<and> (si_total i \<le> 0 \<or> 10 * (si_upload i + si_download i) < 9 * si_total i)"
    unfolding severity_None severity_if by (auto simp: DAY_def split: if_splits)
next
  show "subscription_alert (Some i) t = Some Expired \<longleftrightarrow> 0 < si_expire i \<and> si_expire i * 1000 \<le> t"
    by (simp add: subscription_alert_def Let_def)
qed

theorem alerts_escalate_witness:
  "severity (subscription_alert (Some \<lparr>si_upload = 0, si_download = 1, si_total = 10, si_expire = 0, si_title = None, si_support_url = None,
     si_web_page_url = None, si_announce = None, si_announce_url = None, si_community_url = None, si_icon_url = None, si_banner_image = None,
     si_banner_color = None, si_update_hours = None, si_apps_mode = None, si_apps = None, si_updated_at = 0\<rparr>) 0)
   \<le> severity (subscription_alert (Some (\<lparr>si_upload = 0, si_download = 1, si_total = 10, si_expire = 0, si_title = None, si_support_url = None,
     si_web_page_url = None, si_announce = None, si_announce_url = None, si_community_url = None, si_icon_url = None, si_banner_image = None,
     si_banner_color = None, si_update_hours = None, si_apps_mode = None, si_apps = None, si_updated_at = 0\<rparr>\<lparr>si_download := 1 + 8\<rparr>)) 5)"
proof -
  let ?i = "\<lparr>si_upload = 0, si_download = 1, si_total = 10, si_expire = 0, si_title = None, si_support_url = None,
     si_web_page_url = None, si_announce = None, si_announce_url = None, si_community_url = None, si_icon_url = None, si_banner_image = None,
     si_banner_color = None, si_update_hours = None, si_apps_mode = None, si_apps = None, si_updated_at = 0\<rparr>"
  from alerts_escalate [THEN conjunct1, of 0 5 8 ?i] show ?thesis by simp
qed

text \<open>Warnings of a session: each look at the sources with its time.\<close>

definition look_once :: "string list \<times> shell_effect list \<Rightarrow> int \<times> config_source list \<Rightarrow> string list \<times> shell_effect list" where
  "look_once st visit =
     (case warn_sources (fst visit) (snd visit) (fst st) of (warned, es) \<Rightarrow> (warned, snd st @ es))"

fun toast_key :: "shell_effect \<Rightarrow> string" where
  "toast_key (GoodToast k n) = k"
| "toast_key _ = []"

fun alert_of :: "int \<Rightarrow> config_source \<Rightarrow> string option" where
  "alert_of now (ProfileSource key label detail pid) = None"
| "alert_of now (SubscriptionSource key d label detail n info) =
     map_option (\<lambda>a. d @ '':'' @ alert_key a) (subscription_alert info now)"

definition session_ok :: "string list \<times> shell_effect list \<Rightarrow> bool" where
  "session_ok st \<longleftrightarrow> map toast_key (snd st) = fst st \<and> distinct (fst st)"

lemma warn_source_step:
  "session_ok st \<Longrightarrow> session_ok (warn_source now st src) \<and> set (fst st) \<subseteq> set (fst (warn_source now st src))
    \<and> (alert_of now src = Some k \<longrightarrow> k \<in> set (fst (warn_source now st src)))"
  by (cases st; cases src) (auto simp: session_ok_def Let_def split: option.splits)

lemma warn_fold:
  "session_ok st \<Longrightarrow> session_ok (foldl (warn_source now) st srcs) \<and> set (fst st) \<subseteq> set (fst (foldl (warn_source now) st srcs))
    \<and> (\<forall>src \<in> set srcs. \<forall>k. alert_of now src = Some k \<longrightarrow> k \<in> set (fst (foldl (warn_source now) st srcs)))"
proof (induction srcs arbitrary: st)
  case (Cons src srcs)
  from warn_source_step [OF Cons.prems] Cons.IH [of "warn_source now st src"] show ?case
    by (auto simp: subset_iff)
qed simp

lemma warn_source_shift:
  "warn_source now (w, es @ fs) src = (fst (warn_source now (w, fs) src), es @ snd (warn_source now (w, fs) src))"
  by (cases src) (auto simp: Let_def split: option.splits)

lemma warn_shift:
  "foldl (warn_source now) (w, es @ fs) srcs
    = (fst (foldl (warn_source now) (w, fs) srcs), es @ snd (foldl (warn_source now) (w, fs) srcs))"
proof (induction srcs arbitrary: w fs)
  case (Cons src srcs)
  show ?case by (simp add: warn_source_shift Cons.IH)
qed simp

lemma look_once_fold: "look_once st visit = foldl (warn_source (fst visit)) st (snd visit)"
  using warn_shift [of "fst visit" "fst st" "snd st" "[]" "snd visit"]
  by (simp add: look_once_def warn_sources_def split: prod.splits)

lemma session_fold:
  "session_ok st \<Longrightarrow> session_ok (foldl look_once st visits) \<and> set (fst st) \<subseteq> set (fst (foldl look_once st visits))
    \<and> (\<forall>visit \<in> set visits. \<forall>src \<in> set (snd visit). \<forall>k. alert_of (fst visit) src = Some k \<longrightarrow> k \<in> set (fst (foldl look_once st visits)))"
proof (induction visits arbitrary: st)
  case (Cons visit visits)
  from warn_fold [OF Cons.prems, of "fst visit" "snd visit"] Cons.IH [of "look_once st visit"] show ?case
    unfolding look_once_fold by (auto simp: subset_iff look_once_fold)
qed simp

text \<open>In a session every subscription's alert is shown once, however often the sources are looked at:
  no two warnings have the same key, and every alert that was ever due has been shown.\<close>

theorem warnings_shown_once:
  assumes "foldl look_once ([], []) visits = (warned, es)"
  shows "distinct (map toast_key es) \<and> set (map toast_key es) = set warned
    \<and> (\<forall>visit \<in> set visits. \<forall>src \<in> set (snd visit). \<forall>k. alert_of (fst visit) src = Some k \<longrightarrow> k \<in> set (map toast_key es))"
proof -
  have "session_ok ([], [])" by (simp add: session_ok_def)
  from session_fold [OF this, of visits] show ?thesis unfolding assms session_ok_def by simp
qed

definition sample_info :: subscription_info where
  "sample_info = \<lparr>si_upload = 0, si_download = 10, si_total = 10, si_expire = 0, si_title = None, si_support_url = None,
     si_web_page_url = None, si_announce = None, si_announce_url = None, si_community_url = None, si_icon_url = None, si_banner_image = None,
     si_banner_color = None, si_update_hours = Some 2, si_apps_mode = None, si_apps = None, si_updated_at = 0\<rparr>"

definition sample_source :: config_source where
  "sample_source = SubscriptionSource ''k'' ''sub.example'' ''Sub'' [] 1 (Some sample_info)"

theorem warnings_shown_once_witness:
  "length (snd (foldl look_once ([], []) [(0, [sample_source]), (5, [sample_source])])) = 1"
proof -
  obtain warned es where r: "foldl look_once ([], []) [(0, [sample_source]), (5, [sample_source])] = (warned, es)" by fastforce
  from warnings_shown_once [OF r] have d: "distinct (map toast_key es)" "set (map toast_key es) = set warned" by blast+
  have "warned = [''sub.example:exhausted'']"
    using r by (simp add: look_once_def warn_sources_def sample_source_def subscription_alert_def sample_info_def alert_key_def Let_def)
  with d have "card (set (map toast_key es)) = 1" by simp
  then have "length (map toast_key es) = 1" using distinct_card [OF d(1)] by simp
  then show ?thesis unfolding r by simp
qed

section \<open>Scheduled refreshes\<close>

text \<open>
  The ticks of a session as the sources they looked at, each with the time and the choices of its
  tick; and the refreshes that were asked for, with their time and the interval then in force.
\<close>

type_synonym tick_look = "int \<times> (string \<rightharpoonup> subscription_choice) \<times> config_source"

fun look_tick :: "(string \<Rightarrow> string \<Rightarrow> bool) \<Rightarrow> (string \<Rightarrow> string + refresh_summary \<times> profile list) \<Rightarrow> refresh_run \<Rightarrow> tick_look \<Rightarrow> refresh_run" where
  "look_tick lc answers r (now, choices, src) = tick_source lc now choices answers r src"

fun asked :: "(string \<Rightarrow> string \<Rightarrow> bool) \<Rightarrow> (string \<Rightarrow> string + refresh_summary \<times> profile list) \<Rightarrow> refresh_run \<Rightarrow> tick_look list
    \<Rightarrow> (int \<times> string \<times> rat) list" where
  "asked lc answers r [] = []"
| "asked lc answers r ((now, choices, src) # looks) =
     (let r' = tick_source lc now choices answers r src in
      if ru_effects r' = ru_effects r then asked lc answers r' looks
      else (now, source_domain src, refresh_hours choices (source_domain src)) # asked lc answers r' looks)"

lemma refresh_due_simps:
  "ru_tried (refresh_due lc now d answer r) = om_set (ru_tried r) d now"
  "ru_effects (refresh_due lc now d answer r) \<noteq> ru_effects r"
  by (auto simp: refresh_due_def split: sum.splits)

lemma tick_source_cases:
  obtains (kept) "tick_source lc now choices answers r src = r"
  | (tried) d where "source_domain src = d" "ru_tried (tick_source lc now choices answers r src) = om_set (ru_tried r) d now"
      "ru_effects (tick_source lc now choices answers r src) \<noteq> ru_effects r"
      "refresh_hours choices d * 3600000 \<le> rat_of_int (now - or_else (om_get (ru_tried r) d) 0)"
proof (cases "tick_source lc now choices answers r src = r")
  case False
  then obtain key d label detail n info where src: "src = SubscriptionSource key d label detail n info"
    and due: "is_due now choices (ru_tried r) d info" by (cases src) (auto split: if_splits)
  have "rat_of_int (now - last_read (ru_tried r) d info) \<le> rat_of_int (now - or_else (om_get (ru_tried r) d) 0)"
    by (simp add: last_read_def)
  with due have "refresh_hours choices d * 3600000 \<le> rat_of_int (now - or_else (om_get (ru_tried r) d) 0)"
    by (simp add: is_due_def)
  then show thesis using tried [of d] src due refresh_due_simps by simp
qed (rule kept)

lemma asked_later:
  assumes "sorted (map fst looks)" "\<forall>look \<in> set looks. t \<le> fst look" "om_get (ru_tried r) d = Some t"
    and "(u, d, h) \<in> set (asked lc answers r looks)"
  shows "h * 3600000 \<le> rat_of_int (u - t)"
  using assms
proof (induction lc answers r looks arbitrary: t rule: asked.induct)
  case (2 lc answers r now choices src looks)
  show ?case
  proof (cases rule: tick_source_cases [of lc now choices answers r src])
    case kept
    then show ?thesis using 2 by simp
  next
    case (tried e)
    show ?thesis
    proof (cases "e = d")
      case True
      have now: "om_get (ru_tried (tick_source lc now choices answers r src)) d = Some now"
        using tried(2) True by (simp add: om_simps)
      have "h * 3600000 \<le> rat_of_int (u - now)" if "(u, d, h) \<in> set (asked lc answers (tick_source lc now choices answers r src) looks)"
        by (rule 2(2) [OF refl tried(3) _ _ now that]) (use 2(3) in auto)
      moreover have "t \<le> now" using 2(4) by simp
      ultimately show ?thesis using 2(5,6) tried True by (fastforce simp: Let_def)
    next
      case False
      have still: "om_get (ru_tried (tick_source lc now choices answers r src)) d = Some t"
        using tried(2) False 2(5) by (simp add: om_simps)
      have "(u, d, h) \<in> set (asked lc answers (tick_source lc now choices answers r src) looks)"
        using 2(6) tried(1,3) False by (auto simp: Let_def)
      from 2(2) [OF refl tried(3) _ _ still this] 2(3,4) show ?thesis by simp
    qed
  qed
qed simp

lemma tick_keeps_effects: "set (ru_effects r) \<subseteq> set (ru_effects (tick_source lc now choices answers r src))"
  by (cases src) (auto simp: refresh_due_def split: sum.splits)

lemma tick_asks_due:
  assumes "SubscriptionSource key d label detail n info \<in> set srcs" "is_due now choices tried d info"
    and "om_get (ru_tried r) d = om_get tried d \<or> AskRefresh d \<in> set (ru_effects r)"
  shows "AskRefresh d \<in> set (ru_effects (refresh_tick lc now choices answers srcs r))"
proof -
  have grow: "set (ru_effects r) \<subseteq> set (ru_effects (foldl (tick_source lc now choices answers) r srcs))" for r srcs
    using tick_keeps_effects by (induction srcs arbitrary: r) fastforce+
  have step: "AskRefresh (source_domain src) \<in> set (ru_effects (tick_source lc now choices answers r src))
      \<or> tick_source lc now choices answers r src = r" for r src
    by (cases src) (auto simp: refresh_due_def split: sum.splits)
  show ?thesis
    using assms(1,3) unfolding refresh_tick_def
  proof (induction srcs arbitrary: r)
    case (Cons src srcs)
    let ?r = "tick_source lc now choices answers r src"
    have "AskRefresh d \<in> set (ru_effects ?r)" if "src = SubscriptionSource key d label detail n info"
      using that assms(2) Cons.prems(2)
      by (auto simp: is_due_def last_read_def refresh_due_def split: sum.splits)
    moreover have "om_get (ru_tried ?r) d = om_get tried d \<or> AskRefresh d \<in> set (ru_effects ?r)"
    proof (cases "AskRefresh d \<in> set (ru_effects r)")
      case True
      then show ?thesis using tick_keeps_effects by blast
    next
      case False
      then show ?thesis using Cons.prems(2) tick_source_cases [of lc now choices answers r src] step [of src r]
        by (metis om_get_set refresh_due_simps(2))
    qed
    ultimately show ?case using Cons.IH [of ?r] Cons.prems(1) grow [of ?r srcs] by auto
  qed simp
qed

text \<open>C20: A subscription is never asked for again before its interval has passed since it was last asked for,
  whatever the answers were; and a tick asks for every subscription whose interval has passed at
  its start, also after others failed.\<close>

theorem scheduled_refreshes_spaced:
  assumes "sorted (map fst looks)"
  shows "sorted_wrt (\<lambda>(t, d, h) (t', d', h'). d = d' \<longrightarrow> h' * 3600000 \<le> rat_of_int (t' - t)) (asked lc answers r looks)
    \<and> (SubscriptionSource key d label detail n info \<in> set srcs \<and> is_due now choices (ru_tried r) d info
         \<longrightarrow> AskRefresh d \<in> set (ru_effects (refresh_tick lc now choices answers srcs r)))"
proof (intro conjI impI)
  show "sorted_wrt (\<lambda>(t, d, h) (t', d', h'). d = d' \<longrightarrow> h' * 3600000 \<le> rat_of_int (t' - t)) (asked lc answers r looks)"
    using assms
  proof (induction lc answers r looks rule: asked.induct)
    case (2 lc answers r now choices src looks)
    let ?r = "tick_source lc now choices answers r src"
    show ?case
    proof (cases rule: tick_source_cases [of lc now choices answers r src])
      case kept
      then show ?thesis using 2 by simp
    next
      case (tried d)
      have now: "om_get (ru_tried ?r) d = Some now" using tried(2) by (simp add: om_simps)
      have "h * 3600000 \<le> rat_of_int (u - now)" if "(u, d, h) \<in> set (asked lc answers ?r looks)" for u h
        by (rule asked_later [OF _ _ now that]) (use 2(3) in auto)
      then show ?thesis using 2 tried by (auto simp: Let_def)
    qed
  qed simp
qed (blast intro: tick_asks_due)

definition fresh_run :: refresh_run where
  "fresh_run = \<lparr>ru_tried = [], ru_shell = opened_shell [], ru_effects = []\<rparr>"

theorem scheduled_refreshes_spaced_witness:
  "AskRefresh ''sub.example'' \<in> set (ru_effects (refresh_tick text_le 90000000 Map.empty (\<lambda>d. Inl ''timeout'') [sample_source] fresh_run))"
proof -
  have "SubscriptionSource ''k'' ''sub.example'' ''Sub'' [] 1 (Some sample_info) \<in> set [sample_source]"
    "is_due 90000000 Map.empty (ru_tried fresh_run) ''sub.example'' (Some sample_info)"
    by (simp_all add: sample_source_def is_due_def last_read_def fresh_run_def sample_info_def refresh_hours_def some_hours_def
        DEFAULT_REFRESH_HOURS_def om_simps)
  with scheduled_refreshes_spaced [of "[]" text_le "\<lambda>d. Inl ''timeout''" fresh_run] show ?thesis by auto
qed

section \<open>Answers to suggestions\<close>

lemma pending_unanswered:
  "pending_offer stringify android later s srcs = Some (d, o2) \<Longrightarrow>
    Option.bind (choices_of s d) sc_answered \<noteq> Some (of_key o2) \<and> d \<notin> set later"
  by (induction stringify android later s srcs rule: pending_offer.induct) (auto split: if_splits option.splits)

lemma answered_choice:
  "choices_of (answer_offer accept take_refresh take_apps d o1 s) d' =
    (if d' = d then choices_of (answer_offer accept take_refresh take_apps d o1 s) d else choices_of s d')"
  "Option.bind (choices_of (answer_offer accept take_refresh take_apps d o1 s) d) sc_answered = Some (of_key o1)"
  by (auto simp: answer_offer_def choices_of_def Let_def split: option.split)

text \<open>An answered suggestion is not asked again until the provider suggests something else; declining, or
  leaving the applications out, changes no routing rule; taking the applications writes one rule
  for them - the one already there when there is one - and leaves every other rule as it was; and
  no other subscription's answers change.\<close>

theorem answered_offer_stays_answered:
  assumes "pending_offer stringify android later s srcs = Some (d, o1)"
    and "s' = answer_offer accept take_refresh take_apps d o1 s"
  shows "(\<forall>o2. pending_offer stringify android later s' srcs = Some (d, o2) \<longrightarrow> of_key o2 \<noteq> of_key o1)
    \<and> (\<not> accept \<or> \<not> take_apps \<or> of_apps o1 = None \<longrightarrow> routing_rules s' = routing_rules s)
    \<and> (\<forall>mode xs. accept \<and> take_apps \<and> of_apps o1 = Some (mode, xs) \<longrightarrow>
        (\<exists>rid. Option.bind (choices_of s' d) sc_apps_rule = Some rid \<and> apps_rule rid mode xs \<in> set (routing_rules s')
          \<and> filter (\<lambda>r. rr_id r \<noteq> rid) (routing_rules s') = filter (\<lambda>r. rr_id r \<noteq> rid) (routing_rules s)))
    \<and> (\<forall>d'. d' \<noteq> d \<longrightarrow> choices_of s' d' = choices_of s d')"
proof (intro conjI allI impI)
  fix o2
  assume "pending_offer stringify android later s' srcs = Some (d, o2)"
  from pending_unanswered [OF this] answered_choice(2) [of accept take_refresh take_apps d o1 s] show "of_key o2 \<noteq> of_key o1"
    by (auto simp: assms(2))
next
  assume "\<not> accept \<or> \<not> take_apps \<or> of_apps o1 = None"
  then show "routing_rules s' = routing_rules s"
    by (auto simp: assms(2) answer_offer_def Let_def split: option.splits)
next
  fix mode xs
  assume a: "accept \<and> take_apps \<and> of_apps o1 = Some (mode, xs)"
  define existing where "existing = (case sc_apps_rule (or_else (choices_of s d) NO_CHOICE) of
      Some (c # cs) \<Rightarrow> find (\<lambda>r. rr_id r = c # cs) (routing_rules s) | _ \<Rightarrow> None)"
  define rid where "rid = (case existing of Some r \<Rightarrow> rr_id r | None \<Rightarrow> ''subscription-apps-'' @ d)"
  have rules: "routing_rules s' = (if existing \<noteq> None then map (\<lambda>r. if rr_id r = rid then apps_rule rid mode xs else r) (routing_rules s)
      else routing_rules s @ [apps_rule rid mode xs])"
    and choice: "Option.bind (choices_of s' d) sc_apps_rule = Some rid"
    using a unfolding assms(2) answer_offer_def Let_def existing_def [symmetric] rid_def [symmetric]
    by (simp_all add: choices_of_def)
  have ex: "r \<in> set (routing_rules s) \<and> rid = rr_id r" if "existing = Some r" for r
    using that find_Some_in [of _ "routing_rules s" r] by (auto simp: existing_def rid_def split: option.splits list.splits)
  have "filter (\<lambda>r. rr_id r \<noteq> rid) (map (\<lambda>r. if rr_id r = rid then apps_rule rid mode xs else r) rs) = filter (\<lambda>r. rr_id r \<noteq> rid) rs" for rs
    by (induction rs) (auto simp: apps_rule_def)
  moreover have "apps_rule rid mode xs \<in> set (routing_rules s')" using ex unfolding rules by (cases existing) (auto simp: image_iff)
  ultimately show "\<exists>rid. Option.bind (choices_of s' d) sc_apps_rule = Some rid \<and> apps_rule rid mode xs \<in> set (routing_rules s')
      \<and> filter (\<lambda>r. rr_id r \<noteq> rid) (routing_rules s') = filter (\<lambda>r. rr_id r \<noteq> rid) (routing_rules s)"
    using choice rules by (intro exI [of _ rid]) (auto simp: apps_rule_def)
next
  fix d'
  assume "d' \<noteq> d"
  then show "choices_of s' d' = choices_of s d'"
    using answered_choice(1) [of accept take_refresh take_apps d o1 s d'] unfolding assms(2) by metis
qed

theorem answered_offer_stays_answered_witness:
  "routing_rules (answer_offer False True True ''sub.example'' \<lparr>of_hours = 2, of_apps = None, of_key = []\<rparr> pending_settings) = []"
proof -
  have "pending_offer (\<lambda>_. []) False [] pending_settings [sample_source] = Some (''sub.example'', \<lparr>of_hours = 2, of_apps = None, of_key = []\<rparr>)"
    by (simp add: sample_source_def offer_of_def sample_info_def DEFAULT_REFRESH_HOURS_def offer_key_def choices_of_def
        pending_settings_def Let_def)
  from answered_offer_stays_answered [OF this refl, of False True True] show ?thesis by (simp add: pending_settings_def)
qed

end
