(* ===== verification/Setups.thy ===== *)
theory Setups
  imports App_Types Uri_Text Js_Order
begin

text \<open>
  Saved routing setups and their schedule: the switcher and the dialog
  (components/routing/setups.tsx, schedule.tsx) and the service's side of them
  (internal/models/setups.go, schedule.go; \<open>SwitchRoutingSetup\<close> of internal/app/routing.go).
  \<open>rest\<close> stands for the steps of the service's \<open>Normalize\<close> that are about other settings.
\<close>

section \<open>Graphs and setups\<close>

definition live_graph :: "app_settings \<Rightarrow> routing_graph" where
  "live_graph s =
     \<lparr>rg_rules = routing_rules s, rg_default_action = default_action s, rg_default_server = Some (default_server s),
      rg_layout = routing_layout s, rg_comments = routing_comments s, rg_servers = Some (or_else (routing_servers s) [])\<rparr>"

definition EMPTY_GRAPH :: routing_graph where
  "EMPTY_GRAPH = \<lparr>rg_rules = [], rg_default_action = Proxy, rg_default_server = None, rg_layout = Map.empty,
     rg_comments = [], rg_servers = Some []\<rparr>"

definition set_graph :: "routing_graph \<Rightarrow> app_settings \<Rightarrow> app_settings" where
  "set_graph g s =
     s\<lparr>routing_rules := rg_rules g, default_action := rg_default_action g, default_server := or_else (rg_default_server g) [],
       routing_layout := rg_layout g, routing_comments := rg_comments g, routing_servers := rg_servers g\<rparr>"

definition setups_of :: "app_settings \<Rightarrow> routing_setup list" where
  "setups_of s = or_else (routing_setups s) []"

definition mirror_active :: "app_settings \<Rightarrow> app_settings" where
  "mirror_active s =
     s\<lparr>routing_setups := Some (map (\<lambda>u. if su_id u = active_routing_setup s then u\<lparr>su_graph := live_graph s\<rparr> else u) (setups_of s))\<rparr>"

section \<open>The service's side\<close>

definition DEFAULT_SETUP_ID :: string where
  "DEFAULT_SETUP_ID = ''main''"

fun take_runes :: "nat \<Rightarrow> string \<Rightarrow> string" where
  "take_runes n [] = []"
| "take_runes n (c # cs) =
     (if continuation c then c # take_runes n cs else if n = 0 then [] else c # take_runes (n - 1) cs)"

definition tidy_setup :: "routing_setup \<Rightarrow> routing_setup" where
  "tidy_setup u = u\<lparr>su_id := js_trim (su_id u), su_name := take_runes 60 (js_trim (su_name u))\<rparr>"

fun tidy_setups :: "string list \<Rightarrow> routing_setup list \<Rightarrow> routing_setup list" where
  "tidy_setups seen [] = []"
| "tidy_setups seen (u # us) =
     (let t = tidy_setup u in
      if su_id t = [] \<or> su_id t \<in> set seen then tidy_setups seen us else t # tidy_setups (su_id t # seen) us)"

definition normalize_setups :: "app_settings \<Rightarrow> app_settings" where
  "normalize_setups s =
     (let kept = tidy_setups [] (setups_of s);
          setups = (if kept = [] then [\<lparr>su_id = DEFAULT_SETUP_ID, su_name = [], su_graph = live_graph s\<rparr>] else kept);
          active = (if active_routing_setup s \<in> set (map su_id kept) then active_routing_setup s else su_id (hd setups))
      in mirror_active (s\<lparr>routing_setups := Some setups, active_routing_setup := active\<rparr>))"

text \<open>A time of day \<open>h:mm\<close> or \<open>hh:mm\<close> in minutes.\<close>

definition clock_minutes :: "string \<Rightarrow> nat option" where
  "clock_minutes v =
     (case js_split (CHR '':'') (js_trim v) of
        [h, m] \<Rightarrow>
          if list_all is_digit h \<and> list_all is_digit m \<and> length h \<in> {1, 2} \<and> length m = 2 \<and> digits_val h < 24 \<and> digits_val m < 60
          then Some (digits_val h * 60 + digits_val m) else None
      | _ \<Rightarrow> None)"

text \<open>Whether an entry is on, at a minute of a day of the week (0 for Sunday).\<close>

definition covers :: "schedule_entry \<Rightarrow> nat \<Rightarrow> nat \<Rightarrow> bool" where
  "covers e today minute =
     (case (clock_minutes (se_start e), clock_minutes (se_end e)) of
        (Some start, Some end1) \<Rightarrow>
          if start = end1 then False
          else if start < end1 then today \<in> set (se_days e) \<and> start \<le> minute \<and> minute < end1
          else (today \<in> set (se_days e) \<and> start \<le> minute) \<or> ((today + 6) mod 7 \<in> set (se_days e) \<and> minute < end1)
      | _ \<Rightarrow> False)"

definition scheduled_setup :: "app_settings \<Rightarrow> nat \<Rightarrow> nat \<Rightarrow> string" where
  "scheduled_setup s today minute =
     (case find (\<lambda>e. covers e today minute) (routing_schedule s) of Some e \<Rightarrow> se_setup e | None \<Rightarrow> schedule_fallback s)"

definition MAX_SCHEDULE_ENTRIES :: nat where
  "MAX_SCHEDULE_ENTRIES = 50"

text \<open>The loop over the schedule: the index of the entry, how many were kept, the entries left.\<close>

fun tidy_schedule :: "string list \<Rightarrow> nat \<Rightarrow> nat \<Rightarrow> schedule_entry list \<Rightarrow> schedule_entry list" where
  "tidy_schedule names index kept [] = []"
| "tidy_schedule names index kept (e # es) =
     (let days = js_unique (filter (\<lambda>d. d \<le> 6) (se_days e)) in
      if kept = MAX_SCHEDULE_ENTRIES then []
      else if se_setup e \<notin> set names \<or> clock_minutes (se_start e) = None \<or> clock_minutes (se_end e) = None
              \<or> se_start e = se_end e \<or> days = []
           then tidy_schedule names (index + 1) kept es
      else e\<lparr>se_days := days, se_id := (if se_id e = [] then ''schedule-'' @ nat_str (index + 1) else se_id e)\<rparr>
             # tidy_schedule names (index + 1) (kept + 1) es)"

definition normalize_schedule :: "app_settings \<Rightarrow> app_settings" where
  "normalize_schedule s =
     (let names = map su_id (setups_of s) in
      s\<lparr>routing_schedule := tidy_schedule names 0 0 (routing_schedule s),
        schedule_fallback := (if schedule_fallback s \<noteq> [] \<and> schedule_fallback s \<notin> set names then [] else schedule_fallback s)\<rparr>)"

definition normalize :: "(app_settings \<Rightarrow> app_settings) \<Rightarrow> app_settings \<Rightarrow> app_settings" where
  "normalize rest s = normalize_schedule (normalize_setups (rest s))"

text \<open>\<open>SwitchSetup\<close>: the last setup with the id is the target.\<close>

definition switch_setup :: "(app_settings \<Rightarrow> app_settings) \<Rightarrow> string \<Rightarrow> app_settings \<Rightarrow> app_settings option" where
  "switch_setup rest i s =
     (case find (\<lambda>u. su_id u = i) (rev (setups_of (mirror_active s))) of
        None \<Rightarrow> None
      | Some u \<Rightarrow> Some (normalize rest ((set_graph (su_graph u) (mirror_active s))\<lparr>active_routing_setup := i\<rparr>)))"

text \<open>The two commands, on what is stored: what is stored after, and the answer.\<close>

definition svc_save :: "(app_settings \<Rightarrow> app_settings) \<Rightarrow> app_settings \<Rightarrow> app_settings" where
  "svc_save rest s = normalize rest s"

definition svc_switch :: "(app_settings \<Rightarrow> app_settings) \<Rightarrow> string \<Rightarrow> app_settings \<Rightarrow> string + app_settings" where
  "svc_switch rest i stored =
     (if active_routing_setup stored = i then Inr stored
      else case switch_setup rest i stored of
             None \<Rightarrow> Inl (''there is no routing setup '' @ [CHR 0x22] @ i @ [CHR 0x22])
           | Some s \<Rightarrow> Inr (svc_save rest s))"

section \<open>The switcher\<close>

text \<open>\<open>switchTo\<close>: saved first, so the graph being left is stored as it is on screen.\<close>

definition switch_to :: "(app_settings \<Rightarrow> app_settings) \<Rightarrow> string \<Rightarrow> app_settings \<Rightarrow> string + app_settings" where
  "switch_to rest i base = svc_switch rest i (svc_save rest base)"

definition create_setup :: "(app_settings \<Rightarrow> app_settings) \<Rightarrow> string \<Rightarrow> string \<Rightarrow> routing_graph \<Rightarrow> app_settings \<Rightarrow> string + app_settings" where
  "create_setup rest stamp name g s =
     (let i = ''setup-'' @ stamp in
      switch_to rest i (s\<lparr>routing_setups := Some (setups_of s @ [\<lparr>su_id = i, su_name = js_trim name, su_graph = g\<rparr>])\<rparr>))"

definition rename_setup :: "(app_settings \<Rightarrow> app_settings) \<Rightarrow> string \<Rightarrow> string \<Rightarrow> app_settings \<Rightarrow> app_settings" where
  "rename_setup rest i name s =
     svc_save rest (s\<lparr>routing_setups := Some (map (\<lambda>u. if su_id u = i then u\<lparr>su_name := js_trim name\<rparr> else u) (setups_of s))\<rparr>)"

definition without_setup :: "string \<Rightarrow> app_settings \<Rightarrow> app_settings" where
  "without_setup i s = s\<lparr>routing_setups := Some (filter (\<lambda>u. su_id u \<noteq> i) (setups_of s))\<rparr>"

definition delete_setup :: "(app_settings \<Rightarrow> app_settings) \<Rightarrow> string \<Rightarrow> app_settings \<Rightarrow> string + app_settings" where
  "delete_setup rest i s =
     (if i = active_routing_setup s then
        (case find (\<lambda>u. su_id u \<noteq> i) (setups_of s) of
           None \<Rightarrow> Inr s
         | Some other \<Rightarrow> (case switch_to rest (su_id other) s of
                           Inl e \<Rightarrow> Inl e | Inr current \<Rightarrow> Inr (svc_save rest (without_setup i current))))
      else Inr (svc_save rest (without_setup i s)))"

datatype editing = NewSetup | DuplicateSetup | RenameSetup routing_setup | DeleteSetup routing_setup

definition submit_setup :: "(app_settings \<Rightarrow> app_settings) \<Rightarrow> string \<Rightarrow> string \<Rightarrow> editing \<Rightarrow> app_settings \<Rightarrow> string + app_settings" where
  "submit_setup rest stamp name ed s =
     (case ed of
        NewSetup \<Rightarrow> create_setup rest stamp name EMPTY_GRAPH s
      | DuplicateSetup \<Rightarrow> create_setup rest stamp name (live_graph s) s
      | RenameSetup u \<Rightarrow> Inr (rename_setup rest (su_id u) name s)
      | DeleteSetup u \<Rightarrow> delete_setup rest (su_id u) s)"

definition may_submit :: "bool \<Rightarrow> string \<Rightarrow> editing \<Rightarrow> bool" where
  "may_submit busy name ed = (\<not> busy \<and> ((case ed of DeleteSetup _ \<Rightarrow> True | _ \<Rightarrow> False) \<or> js_trim name \<noteq> []))"

definition active_setup :: "app_settings \<Rightarrow> routing_setup option" where
  "active_setup s =
     (case find (\<lambda>u. su_id u = active_routing_setup s) (setups_of s) of
        Some u \<Rightarrow> Some u | None \<Rightarrow> (case setups_of s of u # _ \<Rightarrow> Some u | [] \<Rightarrow> None))"

section \<open>The schedule dialog\<close>

definition WEEK :: "nat list" where
  "WEEK = [1, 2, 3, 4, 5, 6, 0]"

definition update_entry :: "nat \<Rightarrow> (schedule_entry \<Rightarrow> schedule_entry) \<Rightarrow> schedule_entry list \<Rightarrow> schedule_entry list" where
  "update_entry k p es = map (\<lambda>(j, e). if j = k then p e else e) (zip [0..<length es] es)"

definition add_entry :: "string \<Rightarrow> app_settings \<Rightarrow> schedule_entry list \<Rightarrow> schedule_entry list" where
  "add_entry stamp s es =
     es @ [\<lparr>se_id = ''schedule-'' @ stamp,
            se_setup = (case find (\<lambda>u. su_id u \<noteq> active_routing_setup s) (setups_of s) of
                          Some u \<Rightarrow> su_id u | None \<Rightarrow> (case setups_of s of u # _ \<Rightarrow> su_id u | [] \<Rightarrow> [])),
            se_days = [1, 2, 3, 4, 5], se_start = ''09:00'', se_end = ''18:00''\<rparr>]"

definition remove_entry :: "nat \<Rightarrow> schedule_entry list \<Rightarrow> schedule_entry list" where
  "remove_entry k es = map snd (filter (\<lambda>(j, e). j \<noteq> k) (zip [0..<length es] es))"

definition toggle_day :: "nat \<Rightarrow> schedule_entry \<Rightarrow> schedule_entry" where
  "toggle_day day e =
     e\<lparr>se_days := (if day \<in> set (se_days e) then filter (\<lambda>d. d \<noteq> day) (se_days e) else se_days e @ [day])\<rparr>"

definition valid_schedule :: "schedule_entry list \<Rightarrow> bool" where
  "valid_schedule es \<longleftrightarrow>
     list_all (\<lambda>e. se_setup e \<noteq> [] \<and> se_days e \<noteq> [] \<and> se_start e \<noteq> [] \<and> se_end e \<noteq> [] \<and> se_start e \<noteq> se_end e) es"

definition save_schedule :: "(app_settings \<Rightarrow> app_settings) \<Rightarrow> schedule_entry list \<Rightarrow> string \<Rightarrow> app_settings \<Rightarrow> app_settings" where
  "save_schedule rest es fallback s = svc_save rest (s\<lparr>routing_schedule := es, schedule_fallback := fallback\<rparr>)"

section \<open>The schedule, minute by minute\<close>

lemma clock_minutes_bound: "clock_minutes v = Some n \<Longrightarrow> n < 1440"
  by (auto simp: clock_minutes_def split: list.splits if_splits)

lemma week_offset:
  fixes today d minute a :: nat
  assumes "today < 7" "d < 7" "minute < 1440" "a < 1440"
  defines "k \<equiv> (today + 7 - d) mod 7"
  shows "(today * 1440 + minute + 10080 - (d * 1440 + a)) mod 10080
      = (if k = 0 \<and> minute < a then 10080 + minute - a else k * 1440 + minute - a)"
    and "k = 0 \<longleftrightarrow> d = today" and "k = 1 \<longleftrightarrow> d = (today + 6) mod 7" and "k < 7"
proof -
  have k: "k = (if d \<le> today then today - d else today + 7 - d)"
    using assms(1,2) unfolding k_def by (auto simp: mod_if)
  show "k < 7" by (simp add: k_def)
  show "k = 0 \<longleftrightarrow> d = today" using assms(1,2) k by auto
  show "k = 1 \<longleftrightarrow> d = (today + 6) mod 7" using assms(1,2) k by (auto simp: mod_if)
  have e: "today * 1440 + minute + 10080 - (d * 1440 + a) = (if d \<le> today then k * 1440 + minute + 10080 - a else k * 1440 + minute - a)"
    using assms(1-4) unfolding k by auto
  have "k * 1440 + minute - a < 10080" using \<open>k < 7\<close> assms(3) by linarith
  moreover have "d > today \<Longrightarrow> k > 0" using assms(1,2) k by auto
  moreover have "(k * 1440 + minute + 10080 - a) mod 10080 = (if k = 0 \<and> minute < a then 10080 + minute - a else k * 1440 + minute - a)"
  proof (cases "k = 0 \<and> minute < a")
    case True
    then have "minute + 10080 - a < 10080" by linarith
    with True show ?thesis by (simp add: add.commute)
  next
    case False
    then have "a \<le> k * 1440 + minute" using assms(4) by (cases k) auto
    then have "k * 1440 + minute + 10080 - a = (k * 1440 + minute - a) + 10080" by simp
    with False \<open>k * 1440 + minute - a < 10080\<close> show ?thesis by (simp only: mod_add_self2) simp
  qed
  ultimately show "(today * 1440 + minute + 10080 - (d * 1440 + a)) mod 10080
      = (if k = 0 \<and> minute < a then 10080 + minute - a else k * 1440 + minute - a)"
    unfolding e by auto
qed

lemma covers_day:
  fixes today d minute a b :: nat
  assumes "today < 7" "d < 7" "minute < 1440" "a < 1440" "b < 1440" "a \<noteq> b"
  shows "(today * 1440 + minute + 10080 - (d * 1440 + a)) mod 10080 < (b + 1440 - a) mod 1440
    \<longleftrightarrow> (if a < b then d = today \<and> a \<le> minute \<and> minute < b
         else (d = today \<and> a \<le> minute) \<or> (d = (today + 6) mod 7 \<and> minute < b))"
proof -
  note o = week_offset [OF assms(1-4)]
  define k where "k = (today + 7 - d) mod 7"
  have len: "(b + 1440 - a) mod 1440 = (if a < b then b - a else b + 1440 - a)"
    using assms(4-6) by (auto simp: mod_if)
  have "(if k = 0 \<and> minute < a then 10080 + minute - a else k * 1440 + minute - a) < (if a < b then b - a else b + 1440 - a)
      \<longleftrightarrow> (if a < b then k = 0 \<and> a \<le> minute \<and> minute < b else (k = 0 \<and> a \<le> minute) \<or> (k = 1 \<and> minute < b))"
  proof -
    consider "k = 0" | "k = 1" | "2 \<le> k" by linarith
    then show ?thesis
    proof cases
      case 3
      then have "2880 \<le> k * 1440" by simp
      with 3 assms(3-6) show ?thesis by auto
    qed (use assms(3-6) in auto)
  qed
  then show ?thesis unfolding o(1) len using o(2,3) unfolding k_def by simp
qed

text \<open>C8: An entry is on exactly during the stretch that begins at its start on each of its days and lasts until
  its end, around midnight and around the end of the week: counting the minutes of the week, when
  the time since a listed start is less than the length of the stretch.\<close>

theorem entry_on_between_times:
  assumes "clock_minutes (se_start e) = Some a" "clock_minutes (se_end e) = Some b" "a \<noteq> b"
    and "today < 7" "minute < 1440" "\<forall>d \<in> set (se_days e). d < 7"
  shows "covers e today minute \<longleftrightarrow>
    (\<exists>d \<in> set (se_days e). (today * 1440 + minute + 10080 - (d * 1440 + a)) mod 10080 < (b + 1440 - a) mod 1440)"
proof -
  have ab: "a < 1440" "b < 1440" using assms(1,2) by (auto dest: clock_minutes_bound)
  have "covers e today minute \<longleftrightarrow> (\<exists>d \<in> set (se_days e).
      if a < b then d = today \<and> a \<le> minute \<and> minute < b else (d = today \<and> a \<le> minute) \<or> (d = (today + 6) mod 7 \<and> minute < b))"
    using assms(1-3) by (auto simp: covers_def)
  also have "\<dots> \<longleftrightarrow> (\<exists>d \<in> set (se_days e). (today * 1440 + minute + 10080 - (d * 1440 + a)) mod 10080 < (b + 1440 - a) mod 1440)"
    using covers_day [OF assms(4) _ assms(5) ab assms(3)] assms(6) by (intro bex_cong) auto
  finally show ?thesis .
qed

definition sample_entry :: schedule_entry where
  "sample_entry = \<lparr>se_id = ''s'', se_setup = ''night'', se_days = [6], se_start = ''23:00'', se_end = ''02:00''\<rparr>"

lemma sample_times: "clock_minutes ''23:00'' = Some 1380" "clock_minutes ''02:00'' = Some 120"
  by code_simp+

theorem entry_on_between_times_witness: "covers sample_entry 0 119"
  using entry_on_between_times [of sample_entry 1380 120 0 119]
  by (simp add: sample_entry_def sample_times)

section \<open>What is stored\<close>

abbreviation setup_ids :: "app_settings \<Rightarrow> string list" where
  "setup_ids s \<equiv> map su_id (setups_of s)"

definition setups_ok :: "app_settings \<Rightarrow> bool" where
  "setups_ok s \<longleftrightarrow>
     distinct (setup_ids s) \<and> active_routing_setup s \<in> set (setup_ids s)
     \<and> (\<forall>u \<in> set (setups_of s). su_id u \<noteq> [] \<and> js_trim (su_id u) = su_id u \<and> (su_id u = active_routing_setup s \<longrightarrow> su_graph u = live_graph s))"

definition schedule_ok :: "app_settings \<Rightarrow> bool" where
  "schedule_ok s \<longleftrightarrow>
     length (routing_schedule s) \<le> MAX_SCHEDULE_ENTRIES
     \<and> (\<forall>e \<in> set (routing_schedule s). se_setup e \<in> set (setup_ids s) \<and> clock_minutes (se_start e) \<noteq> None
          \<and> clock_minutes (se_end e) \<noteq> None \<and> se_days e \<noteq> [] \<and> distinct (se_days e) \<and> (\<forall>d \<in> set (se_days e). d < 7) \<and> se_id e \<noteq> [])
     \<and> (schedule_fallback s = [] \<or> schedule_fallback s \<in> set (setup_ids s))"

lemma tidy_setup_simps [simp]: "su_id (tidy_setup u) = js_trim (su_id u)" "su_graph (tidy_setup u) = su_graph u"
  by (simp_all add: tidy_setup_def)

lemma tidy_setups_clean:
  "distinct (map su_id (tidy_setups seen us)) \<and> set (map su_id (tidy_setups seen us)) \<inter> set seen = {}
    \<and> (\<forall>u \<in> set (tidy_setups seen us). su_id u \<noteq> [] \<and> js_trim (su_id u) = su_id u)"
proof (induction seen us rule: tidy_setups.induct)
  case (2 seen u us)
  show ?case
  proof (cases "js_trim (su_id u) = [] \<or> js_trim (su_id u) \<in> set seen")
    case True
    with 2(1) [OF refl] show ?thesis by (simp add: Let_def)
  next
    case False
    then have "tidy_setups seen (u # us) = tidy_setup u # tidy_setups (js_trim (su_id u) # seen) us" by (simp add: Let_def)
    with 2(2) [OF refl] False show ?thesis by auto
  qed
qed simp

lemma tidy_setups_same:
  "distinct (map su_id us) \<Longrightarrow> set (map su_id us) \<inter> set seen = {} \<Longrightarrow> \<forall>u \<in> set us. su_id u \<noteq> [] \<and> js_trim (su_id u) = su_id u
    \<Longrightarrow> tidy_setups seen us = map tidy_setup us"
proof (induction us arbitrary: seen)
  case (Cons u us)
  have "tidy_setups (su_id u # seen) us = map tidy_setup us" using Cons.prems by (intro Cons.IH) auto
  with Cons.prems show ?case by (simp add: Let_def)
qed simp

lemma setups_of_mirror:
  "setups_of (mirror_active s) = map (\<lambda>u. if su_id u = active_routing_setup s then u\<lparr>su_graph := live_graph s\<rparr> else u) (setups_of s)"
  "live_graph (mirror_active s) = live_graph s" "active_routing_setup (mirror_active s) = active_routing_setup s"
  by (simp_all add: mirror_active_def setups_of_def live_graph_def)

lemma setup_ids_mirror: "setup_ids (mirror_active s) = setup_ids s"
  unfolding setups_of_mirror by (induction "setups_of s") auto

lemma mirror_ok:
  assumes "distinct (setup_ids s)" "active_routing_setup s \<in> set (setup_ids s)"
    and "\<forall>u \<in> set (setups_of s). su_id u \<noteq> [] \<and> js_trim (su_id u) = su_id u"
  shows "setups_ok (mirror_active s)"
  unfolding setups_ok_def setup_ids_mirror setups_of_mirror(2,3)
proof (intro conjI assms(1,2))
  show "\<forall>u \<in> set (setups_of (mirror_active s)). su_id u \<noteq> [] \<and> js_trim (su_id u) = su_id u
      \<and> (su_id u = active_routing_setup s \<longrightarrow> su_graph u = live_graph s)"
    using assms(3) unfolding setups_of_mirror(1) by auto
qed

lemma normalize_setups_ok: "setups_ok (normalize_setups s)"
proof -
  let ?kept = "tidy_setups [] (setups_of s)"
  have main: "js_trim ''main'' = ''main''" by (rule js_trim_printable; simp add: printable_def byte_def)
  show ?thesis
  proof (cases "?kept = []")
    case True
    then show ?thesis unfolding normalize_setups_def Let_def
      by (intro mirror_ok) (simp_all add: setups_of_def DEFAULT_SETUP_ID_def main)
  next
    case False
    with tidy_setups_clean [of "[]" "setups_of s"] show ?thesis unfolding normalize_setups_def Let_def
      by (intro mirror_ok) (simp_all add: setups_of_def)
  qed
qed

lemma tidy_schedule_ok:
  "kept \<le> MAX_SCHEDULE_ENTRIES \<Longrightarrow> length (tidy_schedule names index kept es) + kept \<le> MAX_SCHEDULE_ENTRIES
    \<and> (\<forall>e \<in> set (tidy_schedule names index kept es). se_setup e \<in> set names \<and> clock_minutes (se_start e) \<noteq> None
          \<and> clock_minutes (se_end e) \<noteq> None \<and> se_days e \<noteq> [] \<and> distinct (se_days e) \<and> (\<forall>d \<in> set (se_days e). d < 7) \<and> se_id e \<noteq> [])"
proof (induction names index kept es rule: tidy_schedule.induct)
  case (2 names index kept e es)
  let ?days = "js_unique (filter (\<lambda>d. d \<le> 6) (se_days e))"
  show ?case
  proof (cases "kept = MAX_SCHEDULE_ENTRIES")
    case False
    then have k: "kept + 1 \<le> MAX_SCHEDULE_ENTRIES" using 2(3) by simp
    show ?thesis
    proof (cases "se_setup e \<notin> set names \<or> clock_minutes (se_start e) = None \<or> clock_minutes (se_end e) = None
        \<or> se_start e = se_end e \<or> ?days = []")
      case True
      have "tidy_schedule names index kept (e # es) = tidy_schedule names (index + 1) kept es"
        using True False by (simp only: tidy_schedule.simps Let_def if_False if_True)
      with 2(1) [OF refl False True 2(3)] show ?thesis by simp
    next
      case f: False
      have "tidy_schedule names index kept (e # es) =
          e\<lparr>se_days := ?days, se_id := (if se_id e = [] then ''schedule-'' @ nat_str (index + 1) else se_id e)\<rparr>
            # tidy_schedule names (index + 1) (kept + 1) es"
        using f False by (simp only: tidy_schedule.simps Let_def if_False)
      with 2(2) [OF refl False f k] f show ?thesis by auto
    qed
  qed simp
qed simp

lemma normalize_schedule_ok: "schedule_ok (normalize_schedule s)"
  using tidy_schedule_ok [of 0 "setup_ids s" 0 "routing_schedule s"]
  by (auto simp: schedule_ok_def normalize_schedule_def Let_def setups_of_def)

lemma normalize_schedule_keeps:
  "setups_of (normalize_schedule s) = setups_of s" "active_routing_setup (normalize_schedule s) = active_routing_setup s"
  "live_graph (normalize_schedule s) = live_graph s"
  by (simp_all add: normalize_schedule_def Let_def setups_of_def live_graph_def)

lemma stored_setups_ok: "setups_ok (svc_save rest s)"
  using normalize_setups_ok [of "rest s"]
  by (simp add: svc_save_def normalize_def setups_ok_def normalize_schedule_keeps)

text \<open>C9: Whatever the window sends, the stored settings have at least one setup, setups with distinct ids
  that are not blank, an active one among them that is the graph being edited, and a schedule
  whose every entry names a setup that exists, at times that can be read, on days of the week.\<close>

theorem stored_setups_well_formed:
  "setups_ok (svc_save rest s) \<and> schedule_ok (svc_save rest s) \<and> setups_of (svc_save rest s) \<noteq> []"
  using stored_setups_ok [of rest s] normalize_schedule_ok [of "normalize_setups (rest s)"] by (auto simp: svc_save_def normalize_def setups_ok_def)

section \<open>Switching, adding and deleting\<close>

text \<open>A graph as it is once loaded, and the graph of each setup.\<close>

definition canon :: "routing_graph \<Rightarrow> routing_graph" where
  "canon g = g\<lparr>rg_default_server := Some (or_else (rg_default_server g) []), rg_servers := Some (or_else (rg_servers g) [])\<rparr>"

definition graph_at :: "app_settings \<Rightarrow> string \<rightharpoonup> routing_graph" where
  "graph_at s = map_of (map (\<lambda>u. (su_id u, canon (su_graph u))) (setups_of s))"

text \<open>The rest of the normalisation is not about setups, and leaves a stored graph as it is.\<close>

definition keeps_setups :: "(app_settings \<Rightarrow> app_settings) \<Rightarrow> bool" where
  "keeps_setups rest \<longleftrightarrow> (\<forall>s. routing_setups (rest s) = routing_setups s \<and> active_routing_setup (rest s) = active_routing_setup s)"

definition clean_graph :: "(app_settings \<Rightarrow> app_settings) \<Rightarrow> routing_graph \<Rightarrow> bool" where
  "clean_graph rest g \<longleftrightarrow> (\<forall>t. live_graph t = g \<longrightarrow> live_graph (rest t) = g)"

lemma canon_live [simp]: "canon (live_graph s) = live_graph s"
  by (simp add: canon_def live_graph_def)

lemma live_set_graph [simp]: "live_graph (set_graph g s) = canon g"
  by (simp add: live_graph_def set_graph_def canon_def)

lemma live_graph_updates [simp]:
  "live_graph (s\<lparr>active_routing_setup := i\<rparr>) = live_graph s" "live_graph (s\<lparr>routing_setups := us\<rparr>) = live_graph s"
  by (simp_all add: live_graph_def)

lemma set_graph_keeps: "setups_of (set_graph g s) = setups_of s" "setups_of (s\<lparr>active_routing_setup := i\<rparr>) = setups_of s"
  by (simp_all add: set_graph_def setups_of_def)

lemma graph_at_schedule: "graph_at (normalize_schedule s) = graph_at s"
  by (simp add: graph_at_def normalize_schedule_keeps)

lemma graph_at_active: "setups_ok s \<Longrightarrow> graph_at s (active_routing_setup s) = Some (live_graph s)"
  unfolding graph_at_def by (rule map_of_is_SomeI) (force simp: setups_ok_def comp_def)+

lemma graph_at_dom: "graph_at s i = None \<longleftrightarrow> i \<notin> set (setup_ids s)"
  by (force simp: graph_at_def map_of_eq_None_iff)

lemma map_of_mirror:
  "map_of (map (\<lambda>u. (su_id u, canon (su_graph u))) (map (\<lambda>u. if su_id u = a then u\<lparr>su_graph := g\<rparr> else u) us)) i
    = (if i = a \<and> a \<in> set (map su_id us) then Some (canon g) else map_of (map (\<lambda>u. (su_id u, canon (su_graph u))) us) i)"
  by (induction us) auto

lemma graph_at_mirror:
  "graph_at (mirror_active s) i = (if i = active_routing_setup s \<and> i \<in> set (setup_ids s) then Some (live_graph s) else graph_at s i)"
  unfolding graph_at_def setups_of_mirror(1) map_of_mirror by auto

text \<open>Input of a save that needs no repair.\<close>

definition tidy_input :: "app_settings \<Rightarrow> bool" where
  "tidy_input s \<longleftrightarrow>
     distinct (setup_ids s) \<and> active_routing_setup s \<in> set (setup_ids s)
     \<and> (\<forall>u \<in> set (setups_of s). su_id u \<noteq> [] \<and> js_trim (su_id u) = su_id u)"

lemma setups_ok_tidy: "setups_ok s \<Longrightarrow> tidy_input s"
  by (auto simp: setups_ok_def tidy_input_def)

lemma save_effect:
  assumes "keeps_setups rest" "tidy_input t" "live_graph (rest t) = live_graph t"
  shows "setup_ids (svc_save rest t) = setup_ids t" "active_routing_setup (svc_save rest t) = active_routing_setup t"
    "live_graph (svc_save rest t) = live_graph t" "setups_ok (svc_save rest t)"
    "graph_at (svc_save rest t) = (graph_at t)(active_routing_setup t \<mapsto> live_graph t)"
proof -
  let ?r = "rest t"
  have r: "setups_of ?r = setups_of t" "active_routing_setup ?r = active_routing_setup t"
    using assms(1) by (simp_all add: keeps_setups_def setups_of_def)
  have tidy: "tidy_setups [] (setups_of ?r) = map tidy_setup (setups_of t)"
    unfolding r using assms(2) by (intro tidy_setups_same) (simp_all add: tidy_input_def)
  have ids: "map su_id (map tidy_setup (setups_of t)) = setup_ids t"
    using assms(2) by (simp add: tidy_input_def)
  have ne: "setups_of t \<noteq> []" using assms(2) by (auto simp: tidy_input_def)
  have active: "active_routing_setup t \<in> set (map su_id (map tidy_setup (setups_of t)))"
    unfolding ids using assms(2) by (simp add: tidy_input_def)
  let ?m = "?r\<lparr>routing_setups := Some (map tidy_setup (setups_of t)), active_routing_setup := active_routing_setup t\<rparr>"
  have n: "normalize_setups ?r = mirror_active ?m"
    unfolding normalize_setups_def Let_def tidy r(2) if_P [OF active] using ne by simp
  have of_m: "setups_of ?m = map tidy_setup (setups_of t)" by (simp add: setups_of_def)
  have g: "graph_at ?m = graph_at t"
    using assms(2) unfolding graph_at_def of_m by (intro arg_cong [of _ _ map_of]) (simp add: tidy_input_def)
  note keep = normalize_schedule_keeps [of "normalize_setups ?r"]
  show "setup_ids (svc_save rest t) = setup_ids t"
    unfolding svc_save_def normalize_def keep unfolding n setup_ids_mirror of_m ids ..
  show "active_routing_setup (svc_save rest t) = active_routing_setup t"
    unfolding svc_save_def normalize_def keep unfolding n setups_of_mirror by simp
  show live: "live_graph (svc_save rest t) = live_graph t"
    unfolding svc_save_def normalize_def keep unfolding n setups_of_mirror using assms(3) by simp
  show "setups_ok (svc_save rest t)" using stored_setups_ok by blast
  show "graph_at (svc_save rest t) = (graph_at t)(active_routing_setup t \<mapsto> live_graph t)"
  proof
    fix i
    have "graph_at (svc_save rest t) i = graph_at (mirror_active ?m) i"
      unfolding svc_save_def normalize_def graph_at_schedule unfolding n ..
    also have "\<dots> = ((graph_at t)(active_routing_setup t \<mapsto> live_graph t)) i"
      using active unfolding graph_at_mirror of_m g by (simp add: assms(3))
    finally show "graph_at (svc_save rest t) i = ((graph_at t)(active_routing_setup t \<mapsto> live_graph t)) i" .
  qed
qed

lemma save_stored:
  assumes "keeps_setups rest" "setups_ok s" "clean_graph rest (live_graph s)"
  shows "setup_ids (svc_save rest s) = setup_ids s \<and> active_routing_setup (svc_save rest s) = active_routing_setup s
    \<and> live_graph (svc_save rest s) = live_graph s \<and> graph_at (svc_save rest s) = graph_at s \<and> setups_ok (svc_save rest s)"
proof -
  have "live_graph (rest s) = live_graph s" using assms(3) by (simp add: clean_graph_def)
  note e = save_effect [OF assms(1) setups_ok_tidy [OF assms(2)] this]
  have "(graph_at s)(active_routing_setup s \<mapsto> live_graph s) = graph_at s" using graph_at_active [OF assms(2)] by auto
  with e show ?thesis by simp
qed

lemma switch_effect:
  assumes "keeps_setups rest" "setups_ok s" "\<forall>g \<in> ran (graph_at s). clean_graph rest g"
    and "j \<in> set (setup_ids s)" "j \<noteq> active_routing_setup s"
  obtains s1 where "svc_switch rest j s = Inr s1" "active_routing_setup s1 = j" "graph_at s j = Some (live_graph s1)"
    "graph_at s1 = graph_at s" "setup_ids s1 = setup_ids s" "setups_ok s1"
proof -
  let ?m = "mirror_active s"
  have m: "setup_ids ?m = setup_ids s" "graph_at ?m = graph_at s"
    using setup_ids_mirror graph_at_mirror [of s] graph_at_active [OF assms(2)] by (auto intro!: ext)
  have "\<exists>u. find (\<lambda>u. su_id u = j) (rev (setups_of ?m)) = Some u"
    using assms(4) unfolding m(1) [symmetric] by (auto simp: find_None_iff simp flip: not_None_eq)
  then obtain u where u: "find (\<lambda>u. su_id u = j) (rev (setups_of ?m)) = Some u" by blast
  then have u': "u \<in> set (setups_of ?m)" "su_id u = j" using find_Some_in [OF u] by simp_all
  let ?t = "(set_graph (su_graph u) ?m)\<lparr>active_routing_setup := j\<rparr>"
  have t: "setups_of ?t = setups_of ?m" "live_graph ?t = canon (su_graph u)" "active_routing_setup ?t = j" "graph_at ?t = graph_at ?m"
    by (simp_all add: set_graph_keeps graph_at_def)
  have "distinct (setup_ids ?m)" using assms(2) unfolding m(1) by (simp add: setups_ok_def)
  then have "graph_at ?m j = Some (canon (su_graph u))"
    unfolding graph_at_def using u' by (intro map_of_is_SomeI) (auto simp: comp_def)
  then have gj: "graph_at s j = Some (canon (su_graph u))" unfolding m(2) .
  then have clean: "clean_graph rest (canon (su_graph u))" using assms(3) by (auto simp: ran_def)
  have "setups_ok ?m" by (rule mirror_ok) (use assms(2) in \<open>auto simp: setups_ok_def\<close>)
  then have "tidy_input ?m" by (rule setups_ok_tidy)
  then have tidy: "tidy_input ?t" using assms(4) unfolding tidy_input_def t(1,3) m(1) by blast
  have "live_graph (rest ?t) = live_graph ?t" using clean t(2) by (simp add: clean_graph_def)
  note e = save_effect [OF assms(1) tidy this]
  let ?t1 = "svc_save rest ?t"
  have "clean_graph rest (live_graph ?t1)" using clean e(3) t(2) by simp
  note f = save_stored [OF assms(1) e(4) this]
  have ga: "graph_at ?t1 = graph_at s" unfolding e(5) t m(2) using gj by auto
  have sw: "svc_switch rest j s = Inr (svc_save rest ?t1)"
    using assms(5) u by (simp add: svc_switch_def switch_setup_def svc_save_def)
  show thesis
  proof (rule that [OF sw])
    show "active_routing_setup (svc_save rest ?t1) = j" using f e(2) t(3) by simp
    show "graph_at s j = Some (live_graph (svc_save rest ?t1))" using f e(3) t(2) gj by simp
    show "graph_at (svc_save rest ?t1) = graph_at s" using f ga by simp
    show "setup_ids (svc_save rest ?t1) = setup_ids s" using f e(1) t(1) m(1) by simp
    show "setups_ok (svc_save rest ?t1)" using f by simp
  qed
qed

text \<open>Switching to another setup and back loses nothing: the setup becomes the active one with its own
  graph on the canvas, every setup keeps its graph, also the one being left with its last edits,
  and switching back puts that graph on the canvas again.\<close>

theorem switching_keeps_every_graph:
  assumes "keeps_setups rest" "setups_ok s" "\<forall>g \<in> ran (graph_at s). clean_graph rest g"
    and "j \<in> set (setup_ids s)" "j \<noteq> active_routing_setup s"
  shows "\<exists>s1 s2. svc_switch rest j s = Inr s1 \<and> svc_switch rest (active_routing_setup s) s1 = Inr s2
    \<and> active_routing_setup s1 = j \<and> graph_at s j = Some (live_graph s1) \<and> graph_at s1 = graph_at s \<and> setup_ids s1 = setup_ids s
    \<and> active_routing_setup s2 = active_routing_setup s \<and> live_graph s2 = live_graph s \<and> graph_at s2 = graph_at s"
proof -
  obtain s1 where s1: "svc_switch rest j s = Inr s1" "active_routing_setup s1 = j" "graph_at s j = Some (live_graph s1)"
    "graph_at s1 = graph_at s" "setup_ids s1 = setup_ids s" "setups_ok s1"
    by (rule switch_effect [OF assms])
  have "active_routing_setup s \<in> set (setup_ids s1)" unfolding s1(5) using assms(2) by (simp add: setups_ok_def)
  then obtain s2 where s2: "svc_switch rest (active_routing_setup s) s1 = Inr s2" "active_routing_setup s2 = active_routing_setup s"
    "graph_at s1 (active_routing_setup s) = Some (live_graph s2)" "graph_at s2 = graph_at s1"
    using assms(3,5) s1(2) by (auto simp: s1(4) intro: switch_effect [OF assms(1) s1(6), of "active_routing_setup s"])
  have "live_graph s2 = live_graph s" using s2(3) graph_at_active [OF assms(2)] by (simp add: s1(4))
  with s1 s2 show ?thesis by auto
qed

definition sample_setups :: app_settings where
  "sample_setups = pending_settings\<lparr>routing_setups :=
     Some [\<lparr>su_id = ''main'', su_name = [], su_graph = live_graph pending_settings\<rparr>, \<lparr>su_id = ''work'', su_name = ''Work'', su_graph = EMPTY_GRAPH\<rparr>],
     active_routing_setup := ''main''\<rparr>"

lemma sample_setups_ok: "setups_ok sample_setups"
proof -
  have "js_trim ''main'' = ''main''" "js_trim ''work'' = ''work''" by (rule js_trim_printable; simp add: printable_def byte_def)+
  then show ?thesis by (simp add: setups_ok_def sample_setups_def setups_of_def)
qed

theorem switching_keeps_every_graph_witness:
  "\<exists>s1. svc_switch id ''work'' sample_setups = Inr s1 \<and> active_routing_setup s1 = ''work''"
proof -
  have "keeps_setups id" "\<forall>g \<in> ran (graph_at sample_setups). clean_graph id g" by (simp_all add: keeps_setups_def clean_graph_def)
  from switching_keeps_every_graph [OF this(1) sample_setups_ok this(2), of "''work''"] show ?thesis
    by (auto simp: sample_setups_def setups_of_def)
qed

lemma setups_of_without: "setups_of (without_setup i s) = filter (\<lambda>u. su_id u \<noteq> i) (setups_of s)"
  by (simp add: without_setup_def setups_of_def)

lemma without_effect:
  assumes "keeps_setups rest" "setups_ok s" "clean_graph rest (live_graph s)" "i \<noteq> active_routing_setup s"
  shows "setup_ids (svc_save rest (without_setup i s)) = filter (\<lambda>k. k \<noteq> i) (setup_ids s)
    \<and> active_routing_setup (svc_save rest (without_setup i s)) = active_routing_setup s
    \<and> live_graph (svc_save rest (without_setup i s)) = live_graph s
    \<and> graph_at (svc_save rest (without_setup i s)) = (graph_at s)(i := None)"
proof -
  let ?w = "without_setup i s"
  have w: "active_routing_setup ?w = active_routing_setup s" "live_graph ?w = live_graph s" by (simp_all add: without_setup_def)
  have ids: "setup_ids ?w = filter (\<lambda>k. k \<noteq> i) (setup_ids s)"
    unfolding setups_of_without by (simp add: filter_map comp_def)
  have "tidy_input ?w"
    using setups_ok_tidy [OF assms(2)] assms(4) unfolding tidy_input_def w(1) setups_of_without by (auto intro: distinct_map_filter)
  moreover have "live_graph (rest ?w) = live_graph ?w" using assms(3) w(2) by (simp add: clean_graph_def)
  ultimately have e: "setup_ids (svc_save rest ?w) = setup_ids ?w" "active_routing_setup (svc_save rest ?w) = active_routing_setup ?w"
    "live_graph (svc_save rest ?w) = live_graph ?w" "graph_at (svc_save rest ?w) = (graph_at ?w)(active_routing_setup ?w \<mapsto> live_graph ?w)"
    using save_effect [OF assms(1)] by simp_all
  have f: "map_of (map (\<lambda>u. (su_id u, canon (su_graph u))) (filter (\<lambda>u. su_id u \<noteq> i) us)) k
      = (if k = i then None else map_of (map (\<lambda>u. (su_id u, canon (su_graph u))) us) k)" for us k
    by (induction us) auto
  have "graph_at ?w = (graph_at s)(i := None)"
    unfolding graph_at_def setups_of_without by (rule ext) (simp add: f)
  then have "graph_at (svc_save rest ?w) = (graph_at s)(i := None)"
    unfolding e(4) w using assms(4) graph_at_active [OF assms(2)] by auto
  then show ?thesis using e ids w by simp
qed

text \<open>C10: Deleting a setup removes that setup and nothing else: the others stay in their order with their
  graphs.  When it was the active one another one is on the canvas afterwards, with its own graph;
  otherwise the canvas does not change.\<close>

theorem deleting_setup_removes_only_it:
  assumes "keeps_setups rest" "setups_ok s" "\<forall>g \<in> ran (graph_at s). clean_graph rest g"
    and "k \<in> set (setup_ids s)" "k \<noteq> i"
  shows "\<exists>s'. delete_setup rest i s = Inr s' \<and> setup_ids s' = filter (\<lambda>j. j \<noteq> i) (setup_ids s)
    \<and> graph_at s' = (graph_at s)(i := None) \<and> graph_at s' (active_routing_setup s') = Some (live_graph s')
    \<and> (i \<noteq> active_routing_setup s \<longrightarrow> active_routing_setup s' = active_routing_setup s \<and> live_graph s' = live_graph s)"
proof (cases "i = active_routing_setup s")
  case False
  have "clean_graph rest (live_graph s)" using assms(3) graph_at_active [OF assms(2)] by (auto simp: ran_def)
  from without_effect [OF assms(1,2) this False] False show ?thesis
    using graph_at_active [OF stored_setups_ok [of rest "without_setup i s"]] by (simp add: delete_setup_def)
next
  case True
  have live: "clean_graph rest (live_graph s)" using assms(3) graph_at_active [OF assms(2)] by (auto simp: ran_def)
  note saved = save_stored [OF assms(1,2) live]
  obtain other where other: "find (\<lambda>u. su_id u \<noteq> i) (setups_of s) = Some other"
    using assms(4,5) by (cases "find (\<lambda>u. su_id u \<noteq> i) (setups_of s)") (auto simp: find_None_iff)
  then have o: "su_id other \<in> set (setup_ids s)" "su_id other \<noteq> i" using find_Some_in [OF other] by simp_all
  let ?s = "svc_save rest s"
  have "\<forall>g \<in> ran (graph_at ?s). clean_graph rest g" "su_id other \<in> set (setup_ids ?s)" "su_id other \<noteq> active_routing_setup ?s"
    using saved assms(3) o True by simp_all
  then obtain s1 where s1: "svc_switch rest (su_id other) ?s = Inr s1" "active_routing_setup s1 = su_id other"
    "graph_at ?s (su_id other) = Some (live_graph s1)" "graph_at s1 = graph_at ?s" "setup_ids s1 = setup_ids ?s" "setups_ok s1"
    using switch_effect [OF assms(1)] saved by metis
  have "clean_graph rest (live_graph s1)" using assms(3) saved s1(3) by (auto simp: ran_def)
  moreover have "i \<noteq> active_routing_setup s1" using s1(2) o(2) by simp
  ultimately have w: "setup_ids (svc_save rest (without_setup i s1)) = filter (\<lambda>k. k \<noteq> i) (setup_ids s1)"
    "graph_at (svc_save rest (without_setup i s1)) = (graph_at s1)(i := None)"
    using without_effect [OF assms(1) s1(6)] by simp_all
  have "delete_setup rest i s = Inr (svc_save rest (without_setup i s1))"
    using True other s1(1) by (simp add: delete_setup_def switch_to_def)
  then show ?thesis
    using w s1(4,5) saved True graph_at_active [OF stored_setups_ok [of rest "without_setup i s1"]] by auto
qed

theorem deleting_setup_removes_only_it_witness:
  "\<exists>s'. delete_setup id ''main'' sample_setups = Inr s' \<and> setup_ids s' = [''work'']"
proof -
  have "keeps_setups id" "\<forall>g \<in> ran (graph_at sample_setups). clean_graph id g" by (simp_all add: keeps_setups_def clean_graph_def)
  from deleting_setup_removes_only_it [OF this(1) sample_setups_ok this(2), of "''work''" "''main''"] show ?thesis
    by (auto simp: sample_setups_def setups_of_def)
qed

end
