(* ===== verification/Server_List.thy ===== *)
theory Server_List
  imports Profiles
begin

text \<open>
  The list of a subscription's servers (components/views/ProxiesView.tsx): what is shown and in which
  order, its sections and which of them are folded; and picking several cards at once, which the
  Configuration screen (components/views/ConfigurationView.tsx) does the same way.
\<close>

section \<open>What is shown\<close>

datatype server_sort = ByList | ByName | ByPing

definition domain_servers :: "profile list \<Rightarrow> string \<Rightarrow> profile list" where
  "domain_servers ps selected =
     (let domain = trimmed_or_local selected in
      if domain \<noteq> LOCAL then filter (\<lambda>p. trimmed_or_local (or_else (p_source_domain p) []) = domain) ps else [])"

definition starred :: "profile \<Rightarrow> bool" where
  "starred p = (p_favorite p = Some True)"

definition matches_search :: "string \<Rightarrow> bool \<Rightarrow> profile \<Rightarrow> bool" where
  "matches_search query starred_only p =
     (let needle = js_lower (js_trim query) in
      (\<not> starred_only \<or> starred p)
      \<and> (needle = [] \<or> list_ex (\<lambda>field. js_includes (js_lower field) needle) [p_name p, p_server p, p_protocol p]))"

text \<open>A latency that is missing counts as infinite: \<open>None\<close>.\<close>

definition ping_value :: "(string, jsnum option) omap \<Rightarrow> profile \<Rightarrow> rat option" where
  "ping_value pings p = (case om_get pings (p_id p) of Some (Some (Fin q)) \<Rightarrow> Some q | _ \<Rightarrow> None)"

text \<open>The place of a server in the list; of two with one id the last counts, as in a \<open>Map\<close>.\<close>

definition list_place :: "profile list \<Rightarrow> profile \<Rightarrow> nat" where
  "list_place ps p = or_else (map_of (rev (zip (map p_id ps) [0..<length ps])) (p_id p)) 0"

definition server_le ::
  "(string \<Rightarrow> string \<Rightarrow> bool) \<Rightarrow> server_sort \<Rightarrow> (string, jsnum option) omap \<Rightarrow> (profile \<Rightarrow> nat) \<Rightarrow> profile \<Rightarrow> profile \<Rightarrow> bool" where
  "server_le lc srt pings place a b =
     (if starred a \<noteq> starred b then starred a
      else case srt of
             ByName \<Rightarrow> lc (p_name a) (p_name b)
           | ByPing \<Rightarrow> (case (ping_value pings a, ping_value pings b) of
                          (Some x, Some y) \<Rightarrow> x < y \<or> (x = y \<and> place a \<le> place b)
                        | (Some x, None) \<Rightarrow> True
                        | (None, Some y) \<Rightarrow> False
                        | (None, None) \<Rightarrow> place a \<le> place b)
           | ByList \<Rightarrow> place a \<le> place b)"

definition shown_servers ::
  "(string \<Rightarrow> string \<Rightarrow> bool) \<Rightarrow> profile list \<Rightarrow> string \<Rightarrow> bool \<Rightarrow> server_sort \<Rightarrow> (string, jsnum option) omap \<Rightarrow> profile list" where
  "shown_servers lc servers query starred_only srt pings =
     js_sort (server_le lc srt pings (list_place servers)) (filter (matches_search query starred_only) servers)"

sublocale collation \<subseteq> servers: comparator "server_le compare_le srt pings place"
proof
  show "server_le compare_le srt pings place x y \<or> server_le compare_le srt pings place y x" for x y
    using le_total by (cases srt) (auto simp: server_le_def split: option.splits)
  show "server_le compare_le srt pings place x y \<Longrightarrow> server_le compare_le srt pings place y z
      \<Longrightarrow> server_le compare_le srt pings place x z" for x y z
  proof (cases srt)
    case ByName
    then show "server_le compare_le srt pings place x y \<Longrightarrow> server_le compare_le srt pings place y z
      \<Longrightarrow> server_le compare_le srt pings place x z"
      using le_trans [of "p_name x" "p_name y" "p_name z"] by (simp add: server_le_def split: if_splits)
  next
    case ByPing
    then show "server_le compare_le srt pings place x y \<Longrightarrow> server_le compare_le srt pings place y z
      \<Longrightarrow> server_le compare_le srt pings place x z"
      by (cases "ping_value pings x"; cases "ping_value pings y"; cases "ping_value pings z")
        (auto simp: server_le_def split: if_splits)
  next
    case ByList
    then show "server_le compare_le srt pings place x y \<Longrightarrow> server_le compare_le srt pings place y z
      \<Longrightarrow> server_le compare_le srt pings place x z"
      by (simp add: server_le_def split: if_splits)
  qed
qed

section \<open>Sections\<close>

definition group_name :: "profile \<Rightarrow> string" where
  "group_name p = or_else (p_group p) []"

definition group_place :: "profile list \<Rightarrow> string \<Rightarrow> nat" where
  "group_place servers g =
     or_else (om_get (foldl (\<lambda>m p. if om_get m (group_name p) = None then om_set m (group_name p) (length m) else m) [] servers) g) 0"

definition by_group :: "profile list \<Rightarrow> (string, profile list) omap" where
  "by_group shown = foldl (\<lambda>m p. om_set m (group_name p) (or_else (om_get m (group_name p)) [] @ [p])) [] shown"

text \<open>A list without sections is one nameless one; servers before the first separator have no heading.\<close>

definition server_sections :: "profile list \<Rightarrow> profile list \<Rightarrow> (string option \<times> profile list) list" where
  "server_sections servers shown =
     (if \<not> list_ex (\<lambda>p. group_name p \<noteq> []) shown then [(None, shown)]
      else map (\<lambda>(g, ps). (if g = [] then None else Some g, ps))
             (js_sort (\<lambda>a b. group_place servers (fst a) \<le> group_place servers (fst b)) (by_group shown)))"

definition toggle_group :: "string \<Rightarrow> string list \<Rightarrow> string list" where
  "toggle_group name collapsed = (if name \<in> set collapsed then filter (\<lambda>n. n \<noteq> name) collapsed else collapsed @ [name])"

definition section_open :: "string \<Rightarrow> string list \<Rightarrow> string \<Rightarrow> bool" where
  "section_open query collapsed name = (js_trim query \<noteq> [] \<or> name \<notin> set collapsed)"

text \<open>The folded groups on this device, per subscription, as the object in the browser's storage.\<close>

fun texts_of :: "json \<Rightarrow> string list" where
  "texts_of (JArr vs) = concat (map (\<lambda>j. case j of JStr s \<Rightarrow> [s] | _ \<Rightarrow> []) vs)"
| "texts_of _ = []"

definition load_collapsed :: "json option \<Rightarrow> string \<Rightarrow> string list" where
  "load_collapsed stored domain =
     (case Option.bind stored (json_get domain) of Some (JArr vs) \<Rightarrow> texts_of (JArr vs) | _ \<Rightarrow> [])"

definition save_collapsed :: "json option \<Rightarrow> string \<Rightarrow> string list \<Rightarrow> json" where
  "save_collapsed stored domain groups =
     JObj (om_set (case stored of Some (JObj fs) \<Rightarrow> fs | _ \<Rightarrow> []) domain (JArr (map JStr groups)))"

datatype ping_tone = Muted | Good | Fair | Bad

definition tone_of_ping :: "jsnum option option \<Rightarrow> ping_tone" where
  "tone_of_ping ping =
     (case ping of Some (Some (Fin q)) \<Rightarrow> if q < 120 then Good else if q < 300 then Fair else Bad
      | Some (Some NegInf) \<Rightarrow> Good | Some (Some v) \<Rightarrow> Bad | _ \<Rightarrow> Muted)"

section \<open>Picking several\<close>

text \<open>A \<open>Set\<close> in the order of insertion, and the card the last single click was on.\<close>

record picking =
  pk_on :: bool
  pk_picked :: "string list"
  pk_anchor :: "string option"

definition no_picking :: picking where
  "no_picking = \<lparr>pk_on = False, pk_picked = [], pk_anchor = None\<rparr>"

fun first_place :: "'a \<Rightarrow> 'a list \<Rightarrow> nat option" where
  "first_place x [] = None"
| "first_place x (y # ys) = (if x = y then Some 0 else map_option Suc (first_place x ys))"

definition keys_between :: "string list \<Rightarrow> string \<Rightarrow> string \<Rightarrow> string list option" where
  "keys_between keys a b =
     (case (first_place a keys, first_place b keys) of
        (Some i, Some j) \<Rightarrow> (let low = min i j; high = max i j in Some (take (Suc high - low) (drop low keys)))
      | _ \<Rightarrow> None)"

definition add_keys :: "string list \<Rightarrow> string list \<Rightarrow> string list" where
  "add_keys picked ks = picked @ filter (\<lambda>k. k \<notin> set picked) (js_unique ks)"

definition toggle_key :: "string \<Rightarrow> string list \<Rightarrow> string list" where
  "toggle_key k picked = (if k \<in> set picked then filter (\<lambda>x. x \<noteq> k) picked else picked @ [k])"

text \<open>\<open>Inl\<close>: an ordinary click, which selects the card's configuration or server.\<close>

definition click_card :: "string list \<Rightarrow> string \<Rightarrow> bool \<Rightarrow> bool \<Rightarrow> picking \<Rightarrow> string + picking" where
  "click_card keys k toggle shift pk =
     (if \<not> pk_on pk \<and> \<not> toggle \<and> \<not> shift then Inl k
      else Inr (case (if shift then Option.bind (pk_anchor pk) (\<lambda>a. if a = [] then None else keys_between keys a k) else None) of
                  Some ks \<Rightarrow> pk\<lparr>pk_on := True, pk_picked := add_keys (pk_picked pk) ks\<rparr>
                | None \<Rightarrow> pk\<lparr>pk_on := True, pk_picked := toggle_key k (pk_picked pk), pk_anchor := Some k\<rparr>))"

text \<open>On the Proxies screen a server the core cannot run is not selected; its reason is shown.\<close>

definition click_server :: "(string \<rightharpoonup> string) \<Rightarrow> string list \<Rightarrow> string \<Rightarrow> bool \<Rightarrow> bool \<Rightarrow> picking \<Rightarrow> string + (string + picking)" where
  "click_server unsupported keys k toggle shift pk =
     (case click_card keys k toggle shift pk of
        Inl i \<Rightarrow> (case unsupported i of Some (c # cs) \<Rightarrow> Inl (c # cs) | _ \<Rightarrow> Inr (Inl i))
      | Inr pk' \<Rightarrow> Inr (Inr pk'))"

definition prune_picked :: "string list \<Rightarrow> picking \<Rightarrow> picking" where
  "prune_picked keys pk = pk\<lparr>pk_picked := filter (\<lambda>k. k \<in> set keys) (pk_picked pk)\<rparr>"

definition leave_list :: "picking \<Rightarrow> picking" where
  "leave_list pk = pk\<lparr>pk_on := False, pk_picked := []\<rparr>"

definition pick_all :: "string list \<Rightarrow> picking \<Rightarrow> picking" where
  "pick_all keys pk = pk\<lparr>pk_picked := js_unique keys\<rparr>"

datatype picking_event = Clicked string bool bool | KeysAre "string list" | AllKey | EscapeKey | LeftList

text \<open>The screen: the keys it shows now, and what is picked.\<close>

fun picking_step :: "string list \<times> picking \<Rightarrow> picking_event \<Rightarrow> string list \<times> picking" where
  "picking_step (keys, pk) (Clicked k toggle shift) =
     (keys, case click_card keys k toggle shift pk of Inl _ \<Rightarrow> pk | Inr pk' \<Rightarrow> pk')"
| "picking_step (keys, pk) (KeysAre keys') = (keys', prune_picked keys' pk)"
| "picking_step (keys, pk) AllKey = (keys, if pk_on pk then pick_all keys pk else pk)"
| "picking_step (keys, pk) EscapeKey = (keys, if pk_on pk then no_picking else pk)"
| "picking_step (keys, pk) LeftList = (keys, leave_list pk)"

section \<open>Lemmas\<close>

lemma by_group_get:
  "or_else (om_get (foldl (\<lambda>m p. om_set m (group_name p) (or_else (om_get m (group_name p)) [] @ [p])) m shown) g) []
    = or_else (om_get m g) [] @ filter (\<lambda>p. group_name p = g) shown"
  by (induction shown arbitrary: m) (auto simp: om_simps)

lemma by_group_keys:
  "distinct (om_keys m) \<Longrightarrow> distinct (om_keys (foldl (\<lambda>m p. om_set m (group_name p) (or_else (om_get m (group_name p)) [] @ [p])) m shown))
    \<and> set (om_keys (foldl (\<lambda>m p. om_set m (group_name p) (or_else (om_get m (group_name p)) [] @ [p])) m shown))
      = set (om_keys m) \<union> group_name ` set shown"
proof (induction shown arbitrary: m)
  case (Cons p shown)
  from Cons.IH [of "om_set m (group_name p) (or_else (om_get m (group_name p)) [] @ [p])"] distinct_om_set [OF Cons.prems]
  show ?case by (auto simp: om_keys_set)
qed simp

lemma by_group_entry:
  assumes "(g, ps) \<in> set (by_group shown)"
  shows "ps = filter (\<lambda>p. group_name p = g) shown \<and> ps \<noteq> []"
proof -
  note k = by_group_keys [of "[]" shown, folded by_group_def]
  have "om_get (by_group shown) g = Some ps"
    using assms k unfolding om_get_def by (intro map_of_is_SomeI) simp_all
  then have "ps = filter (\<lambda>p. group_name p = g) shown"
    using by_group_get [of "[]" shown g, folded by_group_def] by (simp add: om_simps)
  moreover have "g \<in> group_name ` set shown" using assms k by force
  ultimately show ?thesis by (auto simp: filter_empty_conv)
qed

lemma mset_by_filter:
  "distinct gs \<Longrightarrow> group_name ` set ps \<subseteq> set gs \<Longrightarrow> mset (concat (map (\<lambda>g. filter (\<lambda>p. group_name p = g) ps) gs)) = mset ps"
proof (induction gs arbitrary: ps)
  case (Cons g gs)
  let ?rest = "filter (\<lambda>p. group_name p \<noteq> g) ps"
  have e: "map (\<lambda>h. filter (\<lambda>p. group_name p = h) ps) gs = map (\<lambda>h. filter (\<lambda>p. group_name p = h) ?rest) gs"
    using Cons.prems(1) by (auto intro!: filter_cong)
  have ih: "mset (concat (map (\<lambda>h. filter (\<lambda>p. group_name p = h) ?rest) gs)) = mset ?rest"
    by (rule Cons.IH) (use Cons.prems in auto)
  have "mset ps = filter_mset (\<lambda>p. group_name p = g) (mset ps) + filter_mset (\<lambda>p. group_name p \<noteq> g) (mset ps)"
    by (rule multiset_partition)
  then show ?case unfolding list.map concat.simps mset_append e ih by simp
qed simp

lemma first_place_nth: "first_place x xs = Some i \<Longrightarrow> i < length xs \<and> xs ! i = x"
  by (induction xs arbitrary: i) (auto split: if_splits)

context collation
begin

lemma servers_in_order:
  "sorted_wrt (server_le compare_le srt pings (list_place servers)) (shown_servers compare_le servers query starred_only srt pings)"
  unfolding shown_servers_def by (rule servers.sorted_sort)

end

section \<open>Properties\<close>

text \<open>The list shows exactly the servers that match the search and the star filter, each once; the starred
  ones come before the others, and with the latency order no server stands behind a slower one
  or behind one without a latency, unless it is starred.\<close>

theorem shown_servers_sorted:
  assumes "collation lc"
  shows "mset (shown_servers lc servers query starred_only srt pings) = mset (filter (matches_search query starred_only) servers)
    \<and> sorted_wrt (\<lambda>a b. starred b \<longrightarrow> starred a) (shown_servers lc servers query starred_only srt pings)
    \<and> sorted_wrt (\<lambda>a b. starred a = starred b \<longrightarrow> (\<forall>y. ping_value pings b = Some y \<longrightarrow>
          (\<exists>x. ping_value pings a = Some x \<and> x \<le> y))) (shown_servers lc servers query starred_only ByPing pings)"
proof (intro conjI)
  note s = collation.servers_in_order [OF assms, of srt pings servers query starred_only for srt]
  show "mset (shown_servers lc servers query starred_only srt pings) = mset (filter (matches_search query starred_only) servers)"
    by (simp add: shown_servers_def)
  show "sorted_wrt (\<lambda>a b. starred b \<longrightarrow> starred a) (shown_servers lc servers query starred_only srt pings)"
    by (rule sorted_wrt_mono_rel [OF _ s]) (auto simp: server_le_def split: if_splits)
  show "sorted_wrt (\<lambda>a b. starred a = starred b \<longrightarrow> (\<forall>y. ping_value pings b = Some y \<longrightarrow>
      (\<exists>x. ping_value pings a = Some x \<and> x \<le> y))) (shown_servers lc servers query starred_only ByPing pings)"
    by (rule sorted_wrt_mono_rel [OF _ s]) (auto simp: server_le_def split: option.splits if_splits)
qed

theorem shown_servers_sorted_witness:
  "mset (shown_servers text_le [sample_profile ''a'' None, sample_profile ''b'' None] [] False ByPing [])
     = {#sample_profile ''a'' None, sample_profile ''b'' None#}"
proof -
  have "js_lower (js_trim []) = []" by code_simp
  then have "matches_search [] False p" for p by (simp add: matches_search_def)
  then show ?thesis
    using conjunct1 [OF shown_servers_sorted [OF code_units.collation_axioms,
          of "[sample_profile ''a'' None, sample_profile ''b'' None]" "[]" False ByPing "[]"]] by simp
qed

text \<open>The sections hold every shown server exactly once, under the heading of its own group and in the
  order of the list, no two sections have the same heading, and none is empty.\<close>

theorem sections_partition_servers:
  assumes "shown \<noteq> []"
  shows "mset (concat (map snd (server_sections servers shown))) = mset shown
    \<and> distinct (map fst (server_sections servers shown))
    \<and> (\<forall>(heading, ps) \<in> set (server_sections servers shown). ps \<noteq> [] \<and> ps = filter (\<lambda>p. group_name p = or_else heading []) shown)"
proof (cases "list_ex (\<lambda>p. group_name p \<noteq> []) shown")
  case False
  then have "filter (\<lambda>p. group_name p = []) shown = shown" by (simp add: list_ex_iff)
  with False assms show ?thesis by (simp add: server_sections_def)
next
  case True
  let ?sorted = "js_sort (\<lambda>a b. group_place servers (fst a) \<le> group_place servers (fst b)) (by_group shown)"
  let ?head = "\<lambda>g. if g = [] then None else Some (g :: string)"
  have secs: "server_sections servers shown = map (\<lambda>(g, ps). (?head g, ps)) ?sorted"
    using True by (simp add: server_sections_def)
  note k = by_group_keys [of "[]" shown, folded by_group_def]
  have e: "ps = filter (\<lambda>p. group_name p = g) shown \<and> ps \<noteq> []" if "(g, ps) \<in> set ?sorted" for g ps
    by (rule by_group_entry) (use that in simp)
  have d: "distinct (map fst ?sorted)"
    using k mset_eq_imp_distinct_iff [of "map fst ?sorted" "map fst (by_group shown)"] by (simp add: mset_map)
  have keys: "set (map fst ?sorted) = group_name ` set shown" using k by simp
  have snds: "map snd ?sorted = map (\<lambda>g. filter (\<lambda>p. group_name p = g) shown) (map fst ?sorted)"
    using e by (auto simp: comp_def intro!: map_cong)
  have "mset (concat (map snd ?sorted)) = mset shown" unfolding snds by (rule mset_by_filter [OF d]) (use keys in blast)
  moreover have "map snd (server_sections servers shown) = map snd ?sorted" unfolding secs by (simp add: comp_def case_prod_beta)
  moreover have "map fst (server_sections servers shown) = map ?head (map fst ?sorted)" unfolding secs by (simp add: comp_def case_prod_beta)
  moreover have "distinct (map ?head (map fst ?sorted))" using d unfolding distinct_map [of ?head] by (auto simp: inj_on_def)
  moreover have "ps \<noteq> [] \<and> ps = filter (\<lambda>p. group_name p = or_else h []) shown" if "(h, ps) \<in> set (server_sections servers shown)" for h ps
    using that e unfolding secs by (auto split: if_splits)
  ultimately show ?thesis by auto
qed

theorem sections_partition_servers_witness:
  "mset (concat (map snd (server_sections [] [sample_profile ''a'' None, (sample_profile ''b'' None)\<lparr>p_group := Some ''WiFi''\<rparr>])))
     = {#sample_profile ''a'' None, (sample_profile ''b'' None)\<lparr>p_group := Some ''WiFi''\<rparr>#}"
  using sections_partition_servers [of "[sample_profile ''a'' None, (sample_profile ''b'' None)\<lparr>p_group := Some ''WiFi''\<rparr>]" "[]"]
  by simp

definition picking_ok :: "string list \<times> picking \<Rightarrow> bool" where
  "picking_ok st \<longleftrightarrow> distinct (pk_picked (snd st)) \<and> set (pk_picked (snd st)) \<subseteq> set (fst st)"

fun click_on_screen :: "string list \<times> picking \<Rightarrow> picking_event \<Rightarrow> bool" where
  "click_on_screen (keys, pk) (Clicked k toggle shift) = (k \<in> set keys)"
| "click_on_screen st e = True"

fun picking_run :: "string list \<times> picking \<Rightarrow> picking_event list \<Rightarrow> (string list \<times> picking) option" where
  "picking_run st [] = Some st"
| "picking_run st (e # es) = (if click_on_screen st e then picking_run (picking_step st e) es else None)"

lemma keys_between_sub: "keys_between keys a k = Some ks \<Longrightarrow> set ks \<subseteq> set keys"
  by (auto simp: keys_between_def Let_def split: option.splits dest: in_set_takeD in_set_dropD)

lemma picking_step_ok: "picking_ok st \<Longrightarrow> click_on_screen st e \<Longrightarrow> picking_ok (picking_step st e)"
proof (induction st e rule: picking_step.induct)
  case (1 keys pk k toggle shift)
  have range: "x \<in> set keys" if "Option.bind (pk_anchor pk) (\<lambda>a. if a = [] then None else keys_between keys a k) = Some ks" "x \<in> set ks"
    for ks x using that keys_between_sub [of keys _ k ks] by (auto simp: bind_eq_Some_conv split: if_splits)
  from 1 show ?case
    using range
    by (auto simp: picking_ok_def click_card_def add_keys_def toggle_key_def split: option.splits sum.splits if_splits)
qed (auto simp: picking_ok_def prune_picked_def pick_all_def no_picking_def leave_list_def)

lemma picking_run_ok: "picking_ok st \<Longrightarrow> picking_run st es = Some st' \<Longrightarrow> picking_ok st'"
proof (induction es arbitrary: st)
  case (Cons e es)
  then show ?case using picking_step_ok [of st e] by (simp split: if_splits)
qed simp

lemma set_take_drop:
  assumes "m \<le> n" "n < length xs"
  shows "set (take (Suc n - m) (drop m xs)) = {xs ! q | q. m \<le> q \<and> q \<le> n}"
proof -
  have l: "length (take (Suc n - m) (drop m xs)) = Suc n - m" using assms by simp
  have "set (take (Suc n - m) (drop m xs)) = (\<lambda>q. xs ! (m + q)) ` {q. q < Suc n - m}"
  proof -
    have "set (take (Suc n - m) (drop m xs)) = (\<lambda>q. take (Suc n - m) (drop m xs) ! q) ` {q. q < Suc n - m}"
      unfolding set_conv_nth l by blast
    also have "\<dots> = (\<lambda>q. xs ! (m + q)) ` {q. q < Suc n - m}" by (rule image_cong) (use assms in simp_all)
    finally show ?thesis .
  qed
  also have "\<dots> = {xs ! q | q. m \<le> q \<and> q \<le> n}"
  proof (intro set_eqI iffI)
    fix x
    assume "x \<in> {xs ! q | q. m \<le> q \<and> q \<le> n}"
    then obtain q where q: "x = xs ! q" "m \<le> q" "q \<le> n" by blast
    then have "x = xs ! (m + (q - m))" "q - m < Suc n - m" by auto
    then show "x \<in> (\<lambda>q. xs ! (m + q)) ` {q. q < Suc n - m}" by blast
  next
    fix x
    assume "x \<in> (\<lambda>q. xs ! (m + q)) ` {q. q < Suc n - m}"
    then obtain q where "x = xs ! (m + q)" "q < Suc n - m" by auto
    moreover from this have "m + q \<le> n" by linarith
    ultimately show "x \<in> {xs ! q | q. m \<le> q \<and> q \<le> n}" by force
  qed
  finally show ?thesis .
qed

lemma picked_range:
  assumes "first_place a keys = Some i" "first_place k keys = Some j" "a \<noteq> []"
  shows "\<exists>pk'. click_card keys k toggle True (pk\<lparr>pk_anchor := Some a\<rparr>) = Inr pk'
    \<and> set (pk_picked pk') = set (pk_picked pk) \<union> {keys ! n | n. min i j \<le> n \<and> n \<le> max i j}"
proof -
  have l: "max i j < length keys" using first_place_nth [OF assms(1)] first_place_nth [OF assms(2)] by simp
  have "set (take (Suc (max i j) - min i j) (drop (min i j) keys)) = {keys ! n | n. min i j \<le> n \<and> n \<le> max i j}"
    by (rule set_take_drop) (use l in auto)
  then show ?thesis using assms by (auto simp: click_card_def keys_between_def add_keys_def Let_def)
qed

text \<open>Only cards that are on the screen are ever picked, each once, as long as the screen is told when its
  cards change; and a click with Shift picks exactly the cards from the last clicked one to this
  one, both included, besides those picked before.\<close>

theorem picks_stay_on_screen:
  assumes "picking_run (keys0, no_picking) es = Some (keys, pk)"
  shows "distinct (pk_picked pk) \<and> set (pk_picked pk) \<subseteq> set keys
    \<and> (\<forall>a k i j. first_place a keys = Some i \<and> first_place k keys = Some j \<and> pk_anchor pk = Some a \<and> a \<noteq> [] \<longrightarrow>
        (\<exists>pk'. click_card keys k toggle True pk = Inr pk'
          \<and> set (pk_picked pk') = set (pk_picked pk) \<union> {keys ! n | n. min i j \<le> n \<and> n \<le> max i j}))"
proof (intro conjI allI impI)
  have "picking_ok (keys, pk)" by (rule picking_run_ok [OF _ assms]) (simp add: picking_ok_def no_picking_def)
  then show "distinct (pk_picked pk)" "set (pk_picked pk) \<subseteq> set keys" by (simp_all add: picking_ok_def)
  fix a k i j
  assume a: "first_place a keys = Some i \<and> first_place k keys = Some j \<and> pk_anchor pk = Some a \<and> a \<noteq> []"
  then have "pk\<lparr>pk_anchor := Some a\<rparr> = pk" by simp
  with a picked_range [of a keys i k j toggle pk] show "\<exists>pk'. click_card keys k toggle True pk = Inr pk'
      \<and> set (pk_picked pk') = set (pk_picked pk) \<union> {keys ! n | n. min i j \<le> n \<and> n \<le> max i j}" by auto
qed

theorem picks_stay_on_screen_witness:
  "set (pk_picked (snd (the (picking_run ([''a'', ''b''], no_picking) [Clicked ''a'' True False, KeysAre [''b'']])))) \<subseteq> {''b''}"
proof -
  obtain keys pk where r: "picking_run ([''a'', ''b''], no_picking) [Clicked ''a'' True False, KeysAre [''b'']] = Some (keys, pk)"
    by (simp add: click_card_def)
  then have "keys = [''b'']" by (auto simp: click_card_def)
  with picks_stay_on_screen [OF r, of True] r show ?thesis by simp
qed

end
