(* ===== verification/Theme_Presets.thy ===== *)
theory Theme_Presets
  imports Appearance Js_Order
begin

text \<open>
  The built-in themes (lib/themes.ts), the theme picker's lists (components/settings/theme-picker.tsx)
  and the editor of the user's own themes (components/settings/theme-editor.tsx).
\<close>

section \<open>The presets\<close>

record theme_preset =
  tp_id :: string
  tp_label :: string
  tp_hint :: string
  tp_mode :: mode
  tp_palette :: bool
  tp_class :: string
  tp_background :: string
  tp_surface :: string
  tp_accent :: string

definition preset ::
  "string \<Rightarrow> string \<Rightarrow> string \<Rightarrow> mode \<Rightarrow> bool \<Rightarrow> string \<Rightarrow> string \<Rightarrow> string \<Rightarrow> string \<Rightarrow> theme_preset" where
  "preset i label hint m palette cls background surface accent =
     \<lparr>tp_id = i, tp_label = label, tp_hint = hint, tp_mode = m, tp_palette = palette, tp_class = cls,
      tp_background = background, tp_surface = surface, tp_accent = accent\<rparr>"

definition LIGHT_PRESETS :: "theme_preset list" where
  "LIGHT_PRESETS =
     [preset ''light'' ''theme.light'' ''theme.light.hint'' Light False ''light''
        ''oklch(1 0 0)'' ''oklch(0.945 0.001 286.375)'' ''oklch(0.58 0.145 58)'',
      preset ''paper'' ''theme.paper'' ''theme.paper.hint'' Light False ''theme-light-paper''
        ''oklch(0.975 0.012 85)'' ''oklch(0.93 0.015 85)'' ''oklch(0.58 0.145 58)'',
      preset ''frost'' ''theme.frost'' ''theme.frost.hint'' Light False ''theme-light-frost''
        ''oklch(0.985 0.01 245)'' ''oklch(0.93 0.012 245)'' ''oklch(0.55 0.15 250)'']"

definition DARK_PRESETS :: "theme_preset list" where
  "DARK_PRESETS =
     [preset ''dark'' ''theme.dark'' ''theme.dark.hint'' Dark False ''dark''
        ''oklch(0.141 0.006 286.033)'' ''oklch(0.274 0.006 286.033)'' ''oklch(0.79 0.145 70)'',
      preset ''oled'' ''theme.oled'' ''theme.oled.hint'' Dark False ''theme-dark-oled''
        ''oklch(0 0 0)'' ''oklch(0.2 0 0)'' ''oklch(0.79 0.145 70)'',
      preset ''contrast'' ''theme.contrast'' ''theme.contrast.hint'' Dark False ''theme-dark-contrast''
        ''oklch(0 0 0)'' ''oklch(0.28 0 0)'' ''oklch(0.86 0.16 80)'',
      preset ''slate'' ''theme.slate'' ''theme.slate.hint'' Dark False ''theme-dark-slate''
        ''oklch(0.17 0.02 255)'' ''oklch(0.29 0.02 255)'' ''oklch(0.79 0.145 70)'',
      preset ''stone'' ''theme.stone'' ''theme.stone.hint'' Dark False ''theme-dark-stone''
        ''oklch(0.16 0.012 75)'' ''oklch(0.285 0.012 75)'' ''oklch(0.79 0.145 70)'',
      preset ''nord'' ''theme.nord'' ''theme.nord.hint'' Dark False ''theme-dark-nord''
        ''oklch(0.205 0.025 258)'' ''oklch(0.325 0.025 258)'' ''oklch(0.82 0.075 220)'',
      preset ''cosmos'' ''theme.cosmos'' ''theme.cosmos.hint'' Dark False ''theme-dark-cosmos''
        ''oklch(0.145 0.05 255)'' ''oklch(0.275 0.05 255)'' ''oklch(0.8 0.12 210)'',
      preset ''violet'' ''theme.violet'' ''theme.violet.hint'' Dark False ''theme-dark-violet''
        ''oklch(0.155 0.04 305)'' ''oklch(0.285 0.04 305)'' ''oklch(0.74 0.18 300)'',
      preset ''emerald'' ''theme.emerald'' ''theme.emerald.hint'' Dark False ''theme-dark-emerald''
        ''oklch(0.15 0.028 165)'' ''oklch(0.275 0.028 165)'' ''oklch(0.78 0.15 160)'',
      preset ''sunset'' ''theme.sunset'' ''theme.sunset.hint'' Dark False ''theme-dark-sunset''
        ''oklch(0.16 0.035 40)'' ''oklch(0.285 0.035 40)'' ''oklch(0.77 0.17 35)'',
      preset ''rose'' ''theme.rose'' ''theme.rose.hint'' Dark False ''theme-dark-rose''
        ''oklch(0.155 0.035 350)'' ''oklch(0.28 0.035 350)'' ''oklch(0.75 0.17 350)'',
      preset ''mocha'' ''theme.mocha'' ''theme.mocha.hint'' Dark False ''theme-dark-mocha''
        ''oklch(0.165 0.03 55)'' ''oklch(0.29 0.03 55)'' ''oklch(0.79 0.1 65)'']"

definition VIVID_PRESETS :: "theme_preset list" where
  "VIVID_PRESETS =
     [preset ''sakura'' ''theme.sakura'' ''theme.sakura.hint'' Light False ''theme-light-p-sakura''
        ''#fff7f9'' ''#fbe4eb'' ''#c2336a'',
      preset ''mint'' ''theme.mint'' ''theme.mint.hint'' Light False ''theme-light-p-mint''
        ''#f4fbf8'' ''#dcefe6'' ''#0f7a5f'',
      preset ''contrast-light'' ''theme.contrast-light'' ''theme.contrast-light.hint'' Light False ''theme-light-p-contrast''
        ''#ffffff'' ''#e8e8e8'' ''#7a3f00'',
      preset ''ember'' ''theme.ember'' ''theme.ember.hint'' Dark False ''theme-dark-p-ember''
        ''#1a1210'' ''#33231d'' ''#ff6b3d'',
      preset ''crimson'' ''theme.crimson'' ''theme.crimson.hint'' Dark False ''theme-dark-p-crimson''
        ''#14090d'' ''#2c151e'' ''#a81228'',
      preset ''ocean'' ''theme.ocean'' ''theme.ocean.hint'' Dark False ''theme-dark-p-ocean''
        ''#0b1a26'' ''#173246'' ''#3fb6d9'',
      preset ''teal'' ''theme.teal'' ''theme.teal.hint'' Dark False ''theme-dark-p-teal''
        ''#0d1a1a'' ''#1b3434'' ''#2dd4bf'']"

definition PALETTE_PRESETS :: "theme_preset list" where
  "PALETTE_PRESETS =
     [preset ''solarized-light'' ''theme.solarized-light'' ''theme.solarized-light.hint'' Light True ''theme-light-p-solarized''
        ''#fdf6e3'' ''#e4dcc4'' ''#b58900'',
      preset ''ctp-latte'' ''theme.ctp-latte'' ''theme.ctp-latte.hint'' Light True ''theme-light-p-latte''
        ''#eff1f5'' ''#ccd0da'' ''#8839ef'',
      preset ''ctp-frappe'' ''theme.ctp-frappe'' ''theme.ctp-frappe.hint'' Dark True ''theme-dark-p-ctp-frappe''
        ''#303446'' ''#51576d'' ''#ca9ee6'',
      preset ''ctp-macchiato'' ''theme.ctp-macchiato'' ''theme.ctp-macchiato.hint'' Dark True ''theme-dark-p-ctp-macchiato''
        ''#24273a'' ''#494d64'' ''#c6a0f6'',
      preset ''ctp-mocha'' ''theme.ctp-mocha'' ''theme.ctp-mocha.hint'' Dark True ''theme-dark-p-ctp-mocha''
        ''#1e1e2e'' ''#45475a'' ''#cba6f7'',
      preset ''dracula'' ''theme.dracula'' ''theme.dracula.hint'' Dark True ''theme-dark-p-dracula''
        ''#282a36'' ''#44475a'' ''#bd93f9'',
      preset ''gruvbox'' ''theme.gruvbox'' ''theme.gruvbox.hint'' Dark True ''theme-dark-p-gruvbox''
        ''#282828'' ''#3c3836'' ''#fabd2f'',
      preset ''tokyo-night'' ''theme.tokyo-night'' ''theme.tokyo-night.hint'' Dark True ''theme-dark-p-tokyo''
        ''#1a1b26'' ''#292e42'' ''#7aa2f7'',
      preset ''rose-pine'' ''theme.rose-pine'' ''theme.rose-pine.hint'' Dark True ''theme-dark-p-rose-pine''
        ''#191724'' ''#26233a'' ''#ebbcba'',
      preset ''everforest'' ''theme.everforest'' ''theme.everforest.hint'' Dark True ''theme-dark-p-everforest''
        ''#2d353b'' ''#3d484d'' ''#a7c080'']"

definition THEME_PRESETS :: "theme_preset list" where
  "THEME_PRESETS = LIGHT_PRESETS @ DARK_PRESETS @ VIVID_PRESETS @ PALETTE_PRESETS"

definition SYSTEM_THEME :: string where "SYSTEM_THEME = ''system''"

definition THEME_IDS :: "string list" where
  "THEME_IDS = SYSTEM_THEME # map tp_id THEME_PRESETS"

definition THEME_CLASSES :: "(string, string) omap" where
  "THEME_CLASSES = foldl (\<lambda>m p. om_set m (tp_id p) (tp_class p)) [] THEME_PRESETS"

definition PROVIDER_THEMES :: "string list" where
  "PROVIDER_THEMES = THEME_IDS @ [CUSTOM_THEME_DARK, CUSTOM_THEME_LIGHT]"

definition PROVIDER_CLASSES :: "(string, string) omap" where
  "PROVIDER_CLASSES = foldl (\<lambda>m (k, v). om_set m k v) THEME_CLASSES CUSTOM_THEME_CLASSES"

text \<open>How the page, the picker and the system bars tell a dark theme: by its class.\<close>

definition is_dark_class :: "string list \<Rightarrow> bool" where
  "is_dark_class classes \<longleftrightarrow> ''dark'' \<in> set classes \<or> list_ex (\<lambda>c. js_starts_with c ''theme-dark-'') classes"

section \<open>The picker\<close>

datatype picker_tab = AllTab | DarkTab | LightTab | PalettesTab | CustomTab

definition own_presets :: "theme_preset list" where
  "own_presets = filter (\<lambda>p. \<not> tp_palette p) THEME_PRESETS"

definition light_presets :: "theme_preset list" where
  "light_presets = filter (\<lambda>p. tp_mode p = Light) own_presets"

definition dark_presets :: "theme_preset list" where
  "dark_presets = filter (\<lambda>p. tp_mode p = Dark) own_presets"

definition palette_presets :: "theme_preset list" where
  "palette_presets = js_sort (\<lambda>a b. tp_mode a = Dark \<longrightarrow> tp_mode b = Dark) (filter tp_palette THEME_PRESETS)"

fun filtered_presets :: "picker_tab \<Rightarrow> theme_preset list" where
  "filtered_presets DarkTab = dark_presets"
| "filtered_presets LightTab = light_presets"
| "filtered_presets PalettesTab = palette_presets"
| "filtered_presets CustomTab = []"
| "filtered_presets AllTab = dark_presets @ light_presets @ palette_presets"

definition preset_tag :: "theme_preset \<Rightarrow> string" where
  "preset_tag p = (if tp_palette p then ''Palette'' else mode_name (tp_mode p))"

section \<open>The editor\<close>

definition set_image :: "(theme_image \<Rightarrow> theme_image) \<Rightarrow> custom_theme \<Rightarrow> custom_theme" where
  "set_image f d = (case ct_image d of Some im \<Rightarrow> d\<lparr>ct_image := Some (f im)\<rparr> | None \<Rightarrow> d)"

text \<open>A picked file replaces the picture and keeps its settings; \<open>None\<close>: the dialog was closed.\<close>

definition pick_image :: "string + string option \<Rightarrow> custom_theme \<Rightarrow> custom_theme \<times> string" where
  "pick_image answer d =
     (case answer of
        Inl e \<Rightarrow> (d, e)
      | Inr None \<Rightarrow> (d, [])
      | Inr (Some url) \<Rightarrow>
          (d\<lparr>ct_image := Some (case ct_image d of Some im \<Rightarrow> im\<lparr>im_url := url\<rparr> | None \<Rightarrow> default_theme_image url)\<rparr>, []))"

text \<open>The page's lightness moves into the new mode's range, mirrored.\<close>

definition switch_mode :: "mode \<Rightarrow> custom_theme \<Rightarrow> custom_theme" where
  "switch_mode m d =
     (if m = ct_mode d then d
      else let from = BACKGROUND_LIGHTNESS (ct_mode d); to = BACKGROUND_LIGHTNESS m;
               position = (ct_bg_l d - fst from) / (snd from - fst from)
           in d\<lparr>ct_mode := m, ct_bg_l := snd to - position * (snd to - fst to)\<rparr>)"

text \<open>The themes that can be a starting point, and the colours taken from one: name and id stay.\<close>

definition start_themes :: "appearance_prefs \<Rightarrow> custom_theme \<Rightarrow> custom_theme list" where
  "start_themes p d = filter (\<lambda>t. ct_id t \<noteq> ct_id d) (ap_custom_themes p @ ap_plugin_themes p)"

definition take_colours :: "custom_theme \<Rightarrow> custom_theme \<Rightarrow> custom_theme" where
  "take_colours t d =
     d\<lparr>ct_mode := ct_mode t, ct_bg_h := ct_bg_h t, ct_bg_c := ct_bg_c t, ct_bg_l := ct_bg_l t,
       ct_accent_h := ct_accent_h t, ct_accent_c := ct_accent_c t, ct_image := ct_image t\<rparr>"

text \<open>\<open>template\<close> is \<open>templateFrom\<close>, which computes a preset's numbers in floating point.\<close>

definition start_from :: "(theme_preset \<Rightarrow> custom_theme) \<Rightarrow> appearance_prefs \<Rightarrow> string \<Rightarrow> custom_theme \<Rightarrow> custom_theme" where
  "start_from template p choice d =
     (let parts = js_split (CHR ''|'') choice; kind = hd parts; i = (if length parts > 1 then parts ! 1 else []) in
      if kind = ''preset'' then
        (case find (\<lambda>q. tp_id q = i) THEME_PRESETS of
           Some q \<Rightarrow> take_colours ((template q)\<lparr>ct_image := None\<rparr>) d
         | None \<Rightarrow> d)
      else (case find (\<lambda>t. ct_id t = i) (start_themes p d) of Some t \<Rightarrow> take_colours t d | None \<Rightarrow> d))"

text \<open>What is handed to \<open>onSave\<close>.\<close>

definition saved_draft :: "custom_theme \<Rightarrow> custom_theme" where
  "saved_draft d = d\<lparr>ct_name := js_trim (ct_name d)\<rparr>"

section \<open>Lemmas\<close>

lemmas preset_tables = THEME_PRESETS_def LIGHT_PRESETS_def DARK_PRESETS_def VIVID_PRESETS_def PALETTE_PRESETS_def preset_def

lemma preset_ids_distinct: "distinct (map tp_id THEME_PRESETS)"
  by (simp add: preset_tables)

lemma preset_classes_distinct: "distinct (map tp_class THEME_PRESETS)"
  by (simp add: preset_tables)

lemma preset_classes_marked:
  "list_all (\<lambda>p. (tp_class p \<in> {''light'', ''dark''} \<or> js_starts_with (tp_class p) (if tp_mode p = Dark then ''theme-dark-'' else ''theme-light-''))
      \<and> (tp_class p = ''dark'' \<longrightarrow> tp_mode p = Dark) \<and> (tp_class p = ''light'' \<longrightarrow> tp_mode p = Light)
      \<and> CHR '' '' \<notin> set (tp_class p)) THEME_PRESETS"
  by (simp add: preset_tables js_starts_with_def)

lemma om_get_fold_presets:
  "distinct (map k xs) \<Longrightarrow> om_get (foldl (\<lambda>m p. om_set m (k p) (v p)) m xs) i
     = (case find (\<lambda>p. k p = i) xs of Some p \<Rightarrow> Some (v p) | None \<Rightarrow> om_get m i)"
  by (induction xs arbitrary: m) (auto simp: om_simps split: option.splits dest!: find_Some_in)

lemma theme_class_get:
  "om_get THEME_CLASSES i = map_option tp_class (find (\<lambda>p. tp_id p = i) THEME_PRESETS)"
  unfolding THEME_CLASSES_def om_get_fold_presets [OF preset_ids_distinct] by (simp add: om_simps split: option.split)

lemma provider_class_get:
  "om_get PROVIDER_CLASSES i =
     (if i = CUSTOM_THEME_LIGHT then Some (custom_class Light) else if i = CUSTOM_THEME_DARK then Some (custom_class Dark)
      else map_option tp_class (find (\<lambda>p. tp_id p = i) THEME_PRESETS))"
  by (simp add: PROVIDER_CLASSES_def CUSTOM_THEME_CLASSES_def om_simps theme_class_get)

lemma preset_ids_reserved: "list_all (\<lambda>p. tp_id p \<notin> {SYSTEM_THEME, CUSTOM_THEME_DARK, CUSTOM_THEME_LIGHT}) THEME_PRESETS"
  by (simp add: preset_tables SYSTEM_THEME_def CUSTOM_THEME_DARK_def CUSTOM_THEME_LIGHT_def)

lemma dark_class_iff:
  "p \<in> set THEME_PRESETS \<Longrightarrow> is_dark_class [tp_class p] \<longleftrightarrow> tp_mode p = Dark"
proof -
  have "list_all (\<lambda>p. is_dark_class [tp_class p] \<longleftrightarrow> tp_mode p = Dark) THEME_PRESETS"
    by (simp add: preset_tables is_dark_class_def js_starts_with_def)
  then show "p \<in> set THEME_PRESETS \<Longrightarrow> is_dark_class [tp_class p] \<longleftrightarrow> tp_mode p = Dark" by (simp add: list_all_iff)
qed

lemma preset_found: "p \<in> set THEME_PRESETS \<Longrightarrow> find (\<lambda>q. tp_id q = tp_id p) THEME_PRESETS = Some p"
  using find_distinct_key [of tp_id THEME_PRESETS p "[]"] preset_ids_distinct by simp

lemma mset_mode_split: "mset (filter (\<lambda>p. tp_mode p = Dark) xs) + mset (filter (\<lambda>p. tp_mode p = Light) xs) = mset xs"
proof (induction xs)
  case (Cons x xs)
  then show ?case by (cases "tp_mode x") auto
qed simp

lemma switch_mode_eq:
  "m \<noteq> ct_mode d \<Longrightarrow> switch_mode m d =
     d\<lparr>ct_mode := m, ct_bg_l := (if m = Light then 1 - ct_bg_l d / 3 else 3/10 - (ct_bg_l d - 9/10) * 3)\<rparr>"
  by (cases m; cases "ct_mode d") (simp_all add: switch_mode_def)

section \<open>Properties\<close>

text \<open>Every built-in theme has an id of its own, which is not one of the reserved ones, and a class of its
  own that is one word; the class the page gets for an id - a preset's or one of the two for the
  user's own themes - tells by itself whether the theme is dark.\<close>

theorem theme_ids_and_classes:
  "distinct (PROVIDER_THEMES) \<and> distinct (map tp_class THEME_PRESETS)
    \<and> list_all (\<lambda>p. om_get PROVIDER_CLASSES (tp_id p) = Some (tp_class p) \<and> CHR '' '' \<notin> set (tp_class p)
        \<and> is_dark_class [tp_class p] = (tp_mode p = Dark)) THEME_PRESETS
    \<and> map_option (\<lambda>c. is_dark_class [c]) (om_get PROVIDER_CLASSES CUSTOM_THEME_DARK) = Some True
    \<and> map_option (\<lambda>c. is_dark_class [c]) (om_get PROVIDER_CLASSES CUSTOM_THEME_LIGHT) = Some False"
proof (intro conjI)
  show "distinct PROVIDER_THEMES"
    using preset_ids_distinct preset_ids_reserved
    by (auto simp: PROVIDER_THEMES_def THEME_IDS_def list_all_iff SYSTEM_THEME_def CUSTOM_THEME_DARK_def CUSTOM_THEME_LIGHT_def)
  show "distinct (map tp_class THEME_PRESETS)" by (rule preset_classes_distinct)
  show "list_all (\<lambda>p. om_get PROVIDER_CLASSES (tp_id p) = Some (tp_class p) \<and> CHR '' '' \<notin> set (tp_class p)
        \<and> is_dark_class [tp_class p] = (tp_mode p = Dark)) THEME_PRESETS"
    using preset_ids_reserved preset_classes_marked preset_found dark_class_iff
    by (simp add: list_all_iff provider_class_get)
qed (simp_all add: provider_class_get CUSTOM_THEME_DARK_def CUSTOM_THEME_LIGHT_def is_dark_class_def js_starts_with_def)

text \<open>The picker's first tab shows every built-in theme exactly once, and the other tabs together show the
  same ones: dark, light, and the palettes, of which the light ones come first and each kind keeps
  the table's order.\<close>

theorem picker_shows_every_preset:
  "mset (filtered_presets AllTab) = mset THEME_PRESETS
    \<and> filtered_presets AllTab = concat (map filtered_presets [DarkTab, LightTab, PalettesTab, CustomTab])
    \<and> filtered_presets PalettesTab = filter (\<lambda>p. tp_mode p = Light) (filter tp_palette THEME_PRESETS)
        @ filter (\<lambda>p. tp_mode p = Dark) (filter tp_palette THEME_PRESETS)"
proof (intro conjI)
  have split: "mset (filter P xs) + mset (filter (\<lambda>p. \<not> P p) xs) = mset xs" for P :: "theme_preset \<Rightarrow> bool" and xs
    by (metis mset_filter multiset_partition)
  have "mset (filtered_presets AllTab) = mset own_presets + mset (filter tp_palette THEME_PRESETS)"
    using mset_mode_split [of own_presets] by (simp add: dark_presets_def light_presets_def palette_presets_def flip: add.assoc)
  also have "\<dots> = mset THEME_PRESETS" unfolding own_presets_def using split [of tp_palette THEME_PRESETS] by (simp add: add.commute)
  finally show "mset (filtered_presets AllTab) = mset THEME_PRESETS" .
  show "filtered_presets AllTab = concat (map filtered_presets [DarkTab, LightTab, PalettesTab, CustomTab])" by simp
  show "filtered_presets PalettesTab = filter (\<lambda>p. tp_mode p = Light) (filter tp_palette THEME_PRESETS)
        @ filter (\<lambda>p. tp_mode p = Dark) (filter tp_palette THEME_PRESETS)"
    by (simp add: palette_presets_def preset_tables)
qed

text \<open>Switching a draft between dark and light keeps it a valid theme with the same id, name, colours and
  picture, mirrors the page's lightness, so that lighter drafts become darker ones, and is undone
  by switching back.\<close>

theorem switching_mode_mirrors:
  assumes "theme_ok d"
  shows "theme_ok (switch_mode m d) \<and> switch_mode (ct_mode d) (switch_mode m d) = d
    \<and> (\<forall>e. ct_mode e = ct_mode d \<and> m \<noteq> ct_mode d \<and> ct_bg_l d < ct_bg_l e \<longrightarrow> ct_bg_l (switch_mode m e) < ct_bg_l (switch_mode m d))
    \<and> ct_id (switch_mode m d) = ct_id d \<and> ct_name (switch_mode m d) = ct_name d \<and> ct_image (switch_mode m d) = ct_image d"
proof (cases "m = ct_mode d")
  case True
  with assms show ?thesis by (simp add: switch_mode_def)
next
  case False
  have "switch_mode (ct_mode d) (switch_mode m d) = d"
    using False by (cases m; cases "ct_mode d") (simp_all add: switch_mode_eq diff_divide_distrib)
  moreover have "theme_ok (switch_mode m d)"
    using assms False by (cases m; cases "ct_mode d") (simp_all add: switch_mode_eq theme_ok_def in_range_def)
  ultimately show ?thesis using False by (cases m; cases "ct_mode d") (simp_all add: switch_mode_eq)
qed

theorem switching_mode_mirrors_witness:
  "switch_mode Dark (switch_mode Light (new_custom_theme ''1'' Dark)) = new_custom_theme ''1'' Dark"
proof -
  have ok: "theme_ok (new_custom_theme ''1'' Dark)"
    by (simp add: theme_ok_def new_custom_theme_def in_range_def CUSTOM_PREFIX_def)
  have "ct_mode (new_custom_theme ''1'' Dark) = Dark" by (simp add: new_custom_theme_def)
  with switching_mode_mirrors [OF ok, of Light] show ?thesis by simp
qed

end
