(* ===== verification/Appearance_Store.thy ===== *)
theory Appearance_Store
  imports Theme_Presets Uri_Text
begin

text \<open>
  The owner of the appearance (components/appearance-provider.tsx): the preferences, the theme id
  handed to the theme library and the fonts registered, every way they change, and what is put on
  the page before the first frame and after it; and the theme made from the wallpaper's colours
  (lib/monet.ts).
\<close>

section \<open>The wallpaper's theme\<close>

text \<open>An Android palette: dark, \<open>accent1\<close>, \<open>neutral1\<close>, \<open>neutral2\<close>; a desktop one is a seed colour.\<close>

datatype system_palette =
    AndroidPalette bool "string list" "string list" "string list"
  | SeedPalette string

definition MONET_THEME_ID :: string where "MONET_THEME_ID = ''custom-monet''"

definition rgb_of_hex :: "string \<Rightarrow> (nat \<times> nat \<times> nat) option" where
  "rgb_of_hex hex =
     (let s = js_trim hex; h = (if js_starts_with s ''#'' then drop 1 s else s) in
      if length h = 6 then
        (case all_values hex_val h of
           Some [a, b, c, d, e, f] \<Rightarrow> Some (a * 16 + b, c * 16 + d, e * 16 + f)
         | _ \<Rightarrow> None)
      else None)"

definition nth_or_blank :: "string list \<Rightarrow> nat \<Rightarrow> string" where
  "nth_or_blank xs n = (if n < length xs then xs ! n else [])"

fun is_desktop :: "system_palette \<Rightarrow> bool" where
  "is_desktop (SeedPalette _) = True"
| "is_desktop (AndroidPalette _ _ _ _) = False"

fun palette_mode :: "system_palette \<Rightarrow> mode" where
  "palette_mode (AndroidPalette dark _ _ _) = (if dark then Dark else Light)"
| "palette_mode (SeedPalette _) = Light"

fun surface_hex :: "system_palette \<Rightarrow> string" where
  "surface_hex (SeedPalette seed) = seed"
| "surface_hex (AndroidPalette _ _ _ neutral2) = nth_or_blank neutral2 1"

fun accent_hex :: "system_palette \<Rightarrow> string" where
  "accent_hex (SeedPalette seed) = seed"
| "accent_hex (AndroidPalette _ accent1 _ _) = nth_or_blank accent1 2"

text \<open>\<open>oklch\<close> turns the channels of a colour into lightness, chroma and hue, in floating point.\<close>

definition monet_theme :: "(nat \<times> nat \<times> nat \<Rightarrow> rat \<times> rat \<times> rat) \<Rightarrow> system_palette \<Rightarrow> custom_theme option" where
  "monet_theme oklch palette =
     (let desktop = is_desktop palette; m = palette_mode palette; bounds = BACKGROUND_LIGHTNESS m in
      case (map_option oklch (rgb_of_hex (surface_hex palette)), map_option oklch (rgb_of_hex (accent_hex palette))) of
        (Some (sl, sc, sh), Some (al, ac, ah)) \<Rightarrow>
          Some \<lparr>ct_id = MONET_THEME_ID, ct_name = (if desktop then ''Wallpaper'' else ''Material You''), ct_mode = m,
                ct_bg_h = sh, ct_bg_c = clamp_to (if desktop then 0 else 4/1000) (3/100) (sc * (6/10)),
                ct_bg_l = clamp_to (fst bounds) (snd bounds) (if m = Dark then 16/100 else 975/1000),
                ct_accent_h = ah, ct_accent_c = clamp_to (if desktop then 0 else 6/100) (2/10) ac, ct_image = None\<rparr>
      | _ \<Rightarrow> None)"

definition monet_for_mode :: "custom_theme option \<Rightarrow> mode \<Rightarrow> custom_theme option" where
  "monet_for_mode theme m =
     map_option (\<lambda>t. t\<lparr>ct_mode := m, ct_bg_l := (if m = Dark then 16/100 else 975/1000)\<rparr>) theme"

text \<open>What is stored, as parsed: \<open>None\<close> when there is no storage or the text cannot be parsed.\<close>

definition load_monet :: "json option \<Rightarrow> json option" where
  "load_monet stored =
     (case stored of
        Some raw \<Rightarrow> if is_object raw \<and> json_get ''id'' raw = Some (JStr MONET_THEME_ID) then Some raw else None
      | None \<Rightarrow> None)"

definition save_monet :: "custom_theme option \<Rightarrow> json option" where
  "save_monet theme = map_option theme_json theme"

section \<open>State\<close>

record look =
  lk_prefs :: appearance_prefs
  lk_theme :: string
  lk_fonts :: font_state
  lk_monet :: "custom_theme option"

datatype look_effect = AskRemoveFont string

definition update_prefs :: "(appearance_prefs \<Rightarrow> appearance_prefs) \<Rightarrow> look \<Rightarrow> look" where
  "update_prefs f v = v\<lparr>lk_prefs := f (lk_prefs v)\<rparr>"

definition active_custom :: "look \<Rightarrow> custom_theme option" where
  "active_custom v = active_custom_theme (lk_prefs v) (Some (lk_theme v))"

fun CUSTOM_THEME_IDS :: "mode \<Rightarrow> string" where
  "CUSTOM_THEME_IDS Dark = CUSTOM_THEME_DARK"
| "CUSTOM_THEME_IDS Light = CUSTOM_THEME_LIGHT"

section \<open>Changes\<close>

definition set_font :: "string \<Rightarrow> look \<Rightarrow> look" where
  "set_font i = update_prefs (\<lambda>p. p\<lparr>ap_font := i\<rparr>)"

definition set_radius :: "string \<Rightarrow> look \<Rightarrow> look" where
  "set_radius i = update_prefs (\<lambda>p. p\<lparr>ap_radius := i\<rparr>)"

definition set_radius_custom :: "rat \<Rightarrow> look \<Rightarrow> look" where
  "set_radius_custom rem = update_prefs (\<lambda>p. p\<lparr>ap_radius := ''custom'', ap_radius_custom := rem\<rparr>)"

definition set_motion :: "string \<Rightarrow> look \<Rightarrow> look" where
  "set_motion i = update_prefs (\<lambda>p. p\<lparr>ap_motion := i\<rparr>)"

definition set_motion_speed :: "rat \<Rightarrow> look \<Rightarrow> look" where
  "set_motion_speed q = update_prefs (\<lambda>p. p\<lparr>ap_motion_speed := q\<rparr>)"

definition set_motion_stagger :: "rat \<Rightarrow> look \<Rightarrow> look" where
  "set_motion_stagger ms = update_prefs (\<lambda>p. p\<lparr>ap_motion_stagger := ms\<rparr>)"

definition set_units :: "unit_choice \<Rightarrow> look \<Rightarrow> look" where
  "set_units u = update_prefs (\<lambda>p. p\<lparr>ap_units := u\<rparr>)"

definition set_stats_chart :: "string \<Rightarrow> look \<Rightarrow> look" where
  "set_stats_chart c = update_prefs (\<lambda>p. p\<lparr>ap_stats_chart := c\<rparr>)"

definition set_accent :: "(rat \<times> rat) option \<Rightarrow> look \<Rightarrow> look" where
  "set_accent a = update_prefs (\<lambda>p. p\<lparr>ap_accent := a\<rparr>)"

text \<open>A part of the layout; \<open>None\<close> leaves a field as it is.\<close>

record layout_patch =
  lp_nav :: "string option"
  lp_sidebar :: "string option"
  lp_cockpit :: "string option"
  lp_placement :: "string option"
  lp_order :: "string list option"
  lp_download :: "bool option"
  lp_upload :: "bool option"
  lp_latency :: "bool option"
  lp_speed_test :: "bool option"
  lp_width :: "string option"
  lp_proxies :: "string option"
  lp_config :: "string option"

definition patched_layout :: "layout_patch \<Rightarrow> layout_prefs \<Rightarrow> layout_prefs" where
  "patched_layout c l =
     \<lparr>ly_nav = or_else (lp_nav c) (ly_nav l), ly_sidebar = or_else (lp_sidebar c) (ly_sidebar l),
      ly_cockpit = or_else (lp_cockpit c) (ly_cockpit l), ly_placement = or_else (lp_placement c) (ly_placement l),
      ly_order = or_else (lp_order c) (ly_order l), ly_download = or_else (lp_download c) (ly_download l),
      ly_upload = or_else (lp_upload c) (ly_upload l), ly_latency = or_else (lp_latency c) (ly_latency l),
      ly_speed_test = or_else (lp_speed_test c) (ly_speed_test l), ly_width = or_else (lp_width c) (ly_width l),
      ly_proxies = or_else (lp_proxies c) (ly_proxies l), ly_config = or_else (lp_config c) (ly_config l)\<rparr>"

definition set_layout :: "layout_patch \<Rightarrow> look \<Rightarrow> look" where
  "set_layout c = update_prefs (\<lambda>p. p\<lparr>ap_layout := patched_layout c (ap_layout p)\<rparr>)"

definition reset_layout :: "look \<Rightarrow> look" where
  "reset_layout = update_prefs (\<lambda>p. p\<lparr>ap_layout := DEFAULT_LAYOUT\<rparr>)"

definition pick_theme :: "string \<Rightarrow> look \<Rightarrow> look" where
  "pick_theme i v = v\<lparr>lk_theme := i\<rparr>"

definition show_custom_theme :: "custom_theme \<Rightarrow> look \<Rightarrow> look" where
  "show_custom_theme t v = (update_prefs (\<lambda>p. p\<lparr>ap_active_custom := ct_id t\<rparr>) v)\<lparr>lk_theme := CUSTOM_THEME_IDS (ct_mode t)\<rparr>"

definition put_theme :: "custom_theme \<Rightarrow> custom_theme list \<Rightarrow> custom_theme list" where
  "put_theme t ts =
     (if list_ex (\<lambda>x. ct_id x = ct_id t) ts then map (\<lambda>x. if ct_id x = ct_id t then t else x) ts else ts @ [t])"

definition save_custom_theme :: "custom_theme \<Rightarrow> look \<Rightarrow> look" where
  "save_custom_theme t v =
     (let w = update_prefs (\<lambda>p. p\<lparr>ap_custom_themes := put_theme t (ap_custom_themes p)\<rparr>) v in
      if map_option ct_id (active_custom v) = Some (ct_id t) then w\<lparr>lk_theme := CUSTOM_THEME_IDS (ct_mode t)\<rparr> else w)"

definition delete_custom_theme :: "string \<Rightarrow> look \<Rightarrow> look" where
  "delete_custom_theme i v =
     (let w = update_prefs (\<lambda>p. p\<lparr>ap_custom_themes := filter (\<lambda>t. ct_id t \<noteq> i) (ap_custom_themes p),
                ap_active_custom := (if ap_active_custom p = i then [] else ap_active_custom p)\<rparr>) v
      in if map_option ct_id (active_custom v) = Some i then w\<lparr>lk_theme := SYSTEM_THEME\<rparr> else w)"

text \<open>The picker's \<open>onSave\<close>: a new theme is shown as well.\<close>

definition saved_in_picker :: "bool \<Rightarrow> custom_theme \<Rightarrow> look \<Rightarrow> look" where
  "saved_in_picker is_new t v =
     (let w = save_custom_theme t v in if is_new then show_custom_theme t w else w)"

definition add_user_font :: "user_font \<Rightarrow> look \<Rightarrow> look" where
  "add_user_font f v =
     (let fonts = filter (\<lambda>x. uf_id x \<noteq> uf_id f) (ap_user_fonts (lk_prefs v)) @ [f] in
      (update_prefs (\<lambda>p. p\<lparr>ap_user_fonts := fonts, ap_font := USER_FONT_PREFIX @ uf_id f\<rparr>) v)
        \<lparr>lk_fonts := set_user_fonts fonts (lk_fonts v)\<rparr>)"

definition remove_user_font :: "string \<Rightarrow> look \<Rightarrow> look \<times> look_effect list" where
  "remove_user_font i v =
     (let fonts = filter (\<lambda>x. uf_id x \<noteq> i) (ap_user_fonts (lk_prefs v)) in
      ((update_prefs (\<lambda>p. p\<lparr>ap_user_fonts := fonts,
            ap_font := (if ap_font p = USER_FONT_PREFIX @ i then ap_font DEFAULT_APPEARANCE else ap_font p)\<rparr>) v)
         \<lparr>lk_fonts := set_user_fonts fonts (lk_fonts v)\<rparr>, [AskRemoveFont i]))"

text \<open>At start the backend's folder is asked for its fonts.\<close>

definition fonts_listed :: "user_font list \<Rightarrow> look \<Rightarrow> look" where
  "fonts_listed fonts v =
     (let ids = map (\<lambda>f. USER_FONT_PREFIX @ uf_id f) fonts in
      (update_prefs (\<lambda>p. p\<lparr>ap_user_fonts := fonts,
           ap_font := (if js_starts_with (ap_font p) USER_FONT_PREFIX \<and> ap_font p \<notin> set ids
                       then ap_font DEFAULT_APPEARANCE else ap_font p)\<rparr>) v)
        \<lparr>lk_fonts := set_user_fonts fonts (lk_fonts v)\<rparr>)"

definition set_plugin_content :: "custom_theme list \<Rightarrow> user_font list \<Rightarrow> look \<Rightarrow> look" where
  "set_plugin_content themes fonts v =
     (let shown_gone = (case active_custom v of
            Some t \<Rightarrow> js_starts_with (ct_id t) PLUGIN_THEME_PREFIX \<and> ct_id t \<notin> set (map ct_id themes)
          | None \<Rightarrow> False);
          font_ids = map (\<lambda>f. USER_FONT_PREFIX @ uf_id f) fonts;
          w = update_prefs (\<lambda>p. p\<lparr>ap_plugin_themes := themes, ap_plugin_fonts := fonts,
                ap_font := (if js_starts_with (ap_font p) (USER_FONT_PREFIX @ ''plugin-'') \<and> ap_font p \<notin> set font_ids
                            then ap_font DEFAULT_APPEARANCE else ap_font p),
                ap_active_custom := (if js_starts_with (ap_active_custom p) ''plugin:'' \<and> ap_active_custom p \<notin> set (map ct_id themes)
                                     then [] else ap_active_custom p)\<rparr>) v
      in w\<lparr>lk_fonts := set_plugin_fonts fonts (lk_fonts v), lk_theme := (if shown_gone then SYSTEM_THEME else lk_theme v)\<rparr>)"

definition palette_answered :: "(nat \<times> nat \<times> nat \<Rightarrow> rat \<times> rat \<times> rat) \<Rightarrow> system_palette option \<Rightarrow> look \<Rightarrow> look" where
  "palette_answered oklch answer v = v\<lparr>lk_monet := Option.bind answer (monet_theme oklch)\<rparr>"

section \<open>The page\<close>

definition shown_theme :: "appearance_prefs \<Rightarrow> string \<Rightarrow> bool \<Rightarrow> custom_theme option \<Rightarrow> custom_theme option" where
  "shown_theme p theme dark monet =
     (case active_custom_theme p (Some theme) of
        Some t \<Rightarrow> Some t
      | None \<Rightarrow> if theme = SYSTEM_THEME then monet_for_mode monet (if dark then Dark else Light) else None)"

text \<open>Before the first frame: the class and the page.  \<open>stored\<close> is the theme in storage, \<open>dark\<close> what the system prefers.\<close>

definition boot_class :: "string option \<Rightarrow> bool \<Rightarrow> string option" where
  "boot_class stored dark =
     (let theme = or_else stored SYSTEM_THEME;
          resolved = (if theme = SYSTEM_THEME then (if dark then ''dark'' else ''light'') else theme)
      in om_get PROVIDER_CLASSES resolved)"

definition boot_page :: "appearance_prefs \<Rightarrow> font_state \<Rightarrow> script \<Rightarrow> string option \<Rightarrow> bool \<Rightarrow> custom_theme option \<Rightarrow> page \<Rightarrow> page" where
  "boot_page p st s stored dark monet pg =
     apply_custom_theme (shown_theme p (or_else stored SYSTEM_THEME) dark monet) (apply_appearance p s st pg)"

text \<open>The layout effects of a frame.\<close>

definition frame_page :: "look \<Rightarrow> script \<Rightarrow> bool \<Rightarrow> page \<Rightarrow> page" where
  "frame_page v s dark pg =
     apply_accent (ap_accent (lk_prefs v))
       (apply_custom_theme (shown_theme (lk_prefs v) (lk_theme v) dark (lk_monet v)) (apply_appearance (lk_prefs v) s (lk_fonts v) pg))"

section \<open>Lemmas\<close>

lemmas look_ops = set_font_def set_radius_def set_radius_custom_def set_motion_def set_motion_speed_def set_motion_stagger_def
  set_units_def set_stats_chart_def set_accent_def set_layout_def reset_layout_def pick_theme_def show_custom_theme_def
  save_custom_theme_def delete_custom_theme_def add_user_font_def remove_user_font_def fonts_listed_def
  set_plugin_content_def palette_answered_def update_prefs_def

abbreviation theme_named :: "string \<Rightarrow> look \<Rightarrow> custom_theme option" where
  "theme_named i v \<equiv> find (\<lambda>t. ct_id t = i) (ap_custom_themes (lk_prefs v) @ ap_plugin_themes (lk_prefs v))"

lemma custom_id_iff: "is_custom_theme_id (Some i) \<longleftrightarrow> (\<exists>m. i = CUSTOM_THEME_IDS m)"
proof
  assume "is_custom_theme_id (Some i)"
  then have "i = CUSTOM_THEME_IDS Dark \<or> i = CUSTOM_THEME_IDS Light" by (simp add: is_custom_theme_id_def)
  then show "\<exists>m. i = CUSTOM_THEME_IDS m" by blast
next
  assume "\<exists>m. i = CUSTOM_THEME_IDS m"
  then obtain m where "i = CUSTOM_THEME_IDS m" by blast
  then show "is_custom_theme_id (Some i)" by (cases m) (simp_all add: is_custom_theme_id_def)
qed

lemma active_custom_eq:
  "active_custom v = (if \<exists>m. lk_theme v = CUSTOM_THEME_IDS m then theme_named (ap_active_custom (lk_prefs v)) v else None)"
  unfolding active_custom_def active_custom_theme_def custom_id_iff by simp

lemma custom_ids [simp]: "CUSTOM_THEME_IDS m = CUSTOM_THEME_IDS n \<longleftrightarrow> m = n" "CUSTOM_THEME_IDS m \<noteq> SYSTEM_THEME"
  "SYSTEM_THEME \<noteq> CUSTOM_THEME_IDS m" "CUSTOM_THEME_DARK = CUSTOM_THEME_IDS m \<longleftrightarrow> m = Dark"
  by (cases m; cases n; simp add: CUSTOM_THEME_DARK_def CUSTOM_THEME_LIGHT_def SYSTEM_THEME_def)+

lemma custom_id_class: "om_get PROVIDER_CLASSES (CUSTOM_THEME_IDS m) = Some (custom_class m)"
  by (cases m) (simp_all add: provider_class_get CUSTOM_THEME_DARK_def CUSTOM_THEME_LIGHT_def)

lemma custom_class_dark: "is_dark_class [custom_class m] \<longleftrightarrow> m = Dark"
  by (cases m) (simp_all add: is_dark_class_def js_starts_with_def)

lemma find_append_Some: "find P (xs @ ys) = (case find P xs of Some x \<Rightarrow> Some x | None \<Rightarrow> find P ys)"
  by (induction xs) auto

lemma find_put_theme: "find (\<lambda>x. ct_id x = i) (put_theme t ts) = (if i = ct_id t then Some t else find (\<lambda>x. ct_id x = i) ts)"
proof (cases "list_ex (\<lambda>x. ct_id x = ct_id t) ts")
  case True
  have other: "i \<noteq> ct_id t \<Longrightarrow> find (\<lambda>x. ct_id x = i) (map (\<lambda>x. if ct_id x = ct_id t then t else x) ts) = find (\<lambda>x. ct_id x = i) ts" for ts
    by (induction ts) auto
  have "list_ex (\<lambda>x. ct_id x = ct_id t) ts \<Longrightarrow> find (\<lambda>x. ct_id x = ct_id t) (map (\<lambda>x. if ct_id x = ct_id t then t else x) ts) = Some t"
    by (induction ts) auto
  with True other show ?thesis by (simp add: put_theme_def)
next
  case False
  then have "find (\<lambda>x. ct_id x = ct_id t) ts = None" by (auto simp: find_None_iff list_ex_iff)
  with False show ?thesis by (auto simp: put_theme_def find_append_Some split: option.split)
qed

lemma find_without: "i \<noteq> j \<Longrightarrow> find (\<lambda>x. ct_id x = j) (filter (\<lambda>t. ct_id t \<noteq> i) ts) = find (\<lambda>x. ct_id x = j) ts"
  by (induction ts) auto

section \<open>The class on the page and the theme on screen\<close>

text \<open>
  A theme of the user's or of a plugin is shown through one of two fixed ids, one per mode; the
  id decides the class, so it has to be the one of the mode of the theme that is shown.
\<close>

datatype look_event =
    PrefsSet "appearance_prefs \<Rightarrow> appearance_prefs"
  | ThemePicked string
  | ThemeShown custom_theme
  | ThemeSaved bool custom_theme
  | ThemeDeleted string
  | FontAdded user_font
  | FontRemoved string
  | FontsListed "user_font list"
  | PluginContent "custom_theme list" "user_font list"

fun look_step :: "look \<Rightarrow> look_event \<Rightarrow> look" where
  "look_step v (PrefsSet f) = update_prefs f v"
| "look_step v (ThemePicked i) = pick_theme i v"
| "look_step v (ThemeShown t) = show_custom_theme t v"
| "look_step v (ThemeSaved is_new t) = saved_in_picker is_new t v"
| "look_step v (ThemeDeleted i) = delete_custom_theme i v"
| "look_step v (FontAdded f) = add_user_font f v"
| "look_step v (FontRemoved i) = fst (remove_user_font i v)"
| "look_step v (FontsListed fs) = fonts_listed fs v"
| "look_step v (PluginContent ts fs) = set_plugin_content ts fs v"

text \<open>What the window's controls can ask for; a plugin must not change the mode of its theme on screen.\<close>

fun look_allowed :: "look \<Rightarrow> look_event \<Rightarrow> bool" where
  "look_allowed v (PrefsSet f) = (ap_custom_themes (f (lk_prefs v)) = ap_custom_themes (lk_prefs v)
     \<and> ap_plugin_themes (f (lk_prefs v)) = ap_plugin_themes (lk_prefs v)
     \<and> ap_active_custom (f (lk_prefs v)) = ap_active_custom (lk_prefs v))"
| "look_allowed v (ThemePicked i) = (i \<in> set THEME_IDS)"
| "look_allowed v (ThemeShown t) = (theme_named (ct_id t) v = Some t)"
| "look_allowed v (ThemeSaved is_new t) = (\<not> js_starts_with (ct_id t) PLUGIN_THEME_PREFIX)"
| "look_allowed v (ThemeDeleted i) = (\<not> js_starts_with i PLUGIN_THEME_PREFIX)"
| "look_allowed v (PluginContent ts fs) =
     (list_all (\<lambda>t. js_starts_with (ct_id t) PLUGIN_THEME_PREFIX) ts
      \<and> (\<forall>a. active_custom v = Some a \<longrightarrow> (\<forall>t. find (\<lambda>x. ct_id x = ct_id a) ts = Some t \<longrightarrow> ct_mode t = ct_mode a)))"
| "look_allowed v e = True"

fun look_run :: "look \<Rightarrow> look_event list \<Rightarrow> look option" where
  "look_run v [] = Some v"
| "look_run v (e # es) = (if look_allowed v e then look_run (look_step v e) es else None)"

definition class_follows :: "look \<Rightarrow> bool" where
  "class_follows v \<longleftrightarrow>
     (\<forall>m. lk_theme v = CUSTOM_THEME_IDS m \<longrightarrow> (\<exists>t. theme_named (ap_active_custom (lk_prefs v)) v = Some t \<and> ct_mode t = m))
     \<and> list_all (\<lambda>t. \<not> js_starts_with (ct_id t) PLUGIN_THEME_PREFIX) (ap_custom_themes (lk_prefs v))
     \<and> list_all (\<lambda>t. js_starts_with (ct_id t) PLUGIN_THEME_PREFIX) (ap_plugin_themes (lk_prefs v))"

lemma preset_not_custom: "i \<in> set THEME_IDS \<Longrightarrow> i \<noteq> CUSTOM_THEME_IDS m"
  using preset_ids_reserved by (cases m) (auto simp: THEME_IDS_def list_all_iff SYSTEM_THEME_def CUSTOM_THEME_DARK_def CUSTOM_THEME_LIGHT_def)

lemma put_theme_all: "list_all P ts \<Longrightarrow> P t \<Longrightarrow> list_all P (put_theme t ts)"
  by (auto simp: put_theme_def list_all_iff)

lemma save_follows:
  assumes "class_follows v" "\<not> js_starts_with (ct_id t) PLUGIN_THEME_PREFIX"
  shows "class_follows (save_custom_theme t v) \<and> theme_named (ct_id t) (save_custom_theme t v) = Some t"
proof -
  let ?w = "save_custom_theme t v" and ?a = "ap_active_custom (lk_prefs v)"
  have found: "theme_named i ?w = (if i = ct_id t then Some t else theme_named i v)" for i
    by (auto simp: save_custom_theme_def Let_def update_prefs_def find_append_Some find_put_theme split: option.split)
  have w: "ap_active_custom (lk_prefs ?w) = ?a" "ap_plugin_themes (lk_prefs ?w) = ap_plugin_themes (lk_prefs v)"
    "ap_custom_themes (lk_prefs ?w) = put_theme t (ap_custom_themes (lk_prefs v))"
    "lk_theme ?w = (if map_option ct_id (active_custom v) = Some (ct_id t) then CUSTOM_THEME_IDS (ct_mode t) else lk_theme v)"
    by (simp_all add: save_custom_theme_def Let_def update_prefs_def del: map_option_eq_Some)
  have "\<exists>x. theme_named ?a ?w = Some x \<and> ct_mode x = m" if m: "lk_theme ?w = CUSTOM_THEME_IDS m" for m
  proof (cases "map_option ct_id (active_custom v) = Some (ct_id t)")
    case True
    then have "?a = ct_id t" by (auto simp: active_custom_eq split: if_splits dest!: find_Some_in)
    moreover have "m = ct_mode t" using m True w(4) by simp
    ultimately show ?thesis using found by simp
  next
    case False
    have old: "lk_theme v = CUSTOM_THEME_IDS m" using m unfolding w(4) by (simp only: False if_False)
    then obtain x where x: "theme_named ?a v = Some x" "ct_mode x = m" "active_custom v = Some x"
      using assms(1) by (auto simp: class_follows_def active_custom_eq)
    have "ct_id x = ?a" using find_Some_in [OF x(1)] by simp
    with x found [of ?a] False show ?thesis by auto
  qed
  with assms w found [of "ct_id t"] show ?thesis by (simp add: class_follows_def put_theme_all)
qed

lemma show_follows: "class_follows v \<Longrightarrow> theme_named (ct_id t) v = Some t \<Longrightarrow> class_follows (show_custom_theme t v)"
  by (auto simp: class_follows_def show_custom_theme_def update_prefs_def)

lemma delete_follows:
  assumes "class_follows v" "\<not> js_starts_with i PLUGIN_THEME_PREFIX"
  shows "class_follows (delete_custom_theme i v)"
proof -
  let ?w = "delete_custom_theme i v" and ?p = "lk_prefs v"
  have w: "ap_custom_themes (lk_prefs ?w) = filter (\<lambda>t. ct_id t \<noteq> i) (ap_custom_themes ?p)"
    "ap_plugin_themes (lk_prefs ?w) = ap_plugin_themes ?p"
    "ap_active_custom (lk_prefs ?w) = (if ap_active_custom ?p = i then [] else ap_active_custom ?p)"
    "lk_theme ?w = (if map_option ct_id (active_custom v) = Some i then SYSTEM_THEME else lk_theme v)"
    by (simp_all add: delete_custom_theme_def Let_def update_prefs_def del: map_option_eq_Some)
  have "\<exists>t. theme_named (ap_active_custom (lk_prefs ?w)) ?w = Some t \<and> ct_mode t = m" if m: "lk_theme ?w = CUSTOM_THEME_IDS m" for m
  proof -
    from m w(4) have old: "lk_theme v = CUSTOM_THEME_IDS m" "map_option ct_id (active_custom v) \<noteq> Some i" by (auto split: if_splits)
    then obtain t where t: "theme_named (ap_active_custom ?p) v = Some t" "ct_mode t = m" "active_custom v = Some t"
      using assms(1) by (auto simp: class_follows_def active_custom_eq)
    have "ct_id t = ap_active_custom ?p" using find_Some_in [OF t(1)] by simp
    with old t have "ap_active_custom ?p \<noteq> i" by auto
    with t w show ?thesis by (simp add: find_append_Some find_without)
  qed
  with assms(1) w show ?thesis by (auto simp: class_follows_def list_all_iff)
qed

lemma plugins_follow:
  assumes "class_follows v" "look_allowed v (PluginContent ts fs)"
  shows "class_follows (set_plugin_content ts fs v)"
proof -
  let ?p = "lk_prefs v" and ?w = "set_plugin_content ts fs v"
  have customs: "ap_custom_themes (lk_prefs ?w) = ap_custom_themes ?p" "ap_plugin_themes (lk_prefs ?w) = ts"
    by (simp_all add: set_plugin_content_def Let_def update_prefs_def)
  have plugins: "list_all (\<lambda>t. js_starts_with (ct_id t) PLUGIN_THEME_PREFIX) ts" using assms(2) by simp
  have "\<exists>t. theme_named (ap_active_custom (lk_prefs ?w)) ?w = Some t \<and> ct_mode t = m" if m: "lk_theme ?w = CUSTOM_THEME_IDS m" for m
  proof -
    from m have old: "lk_theme v = CUSTOM_THEME_IDS m"
      by (auto simp: set_plugin_content_def Let_def split: if_splits)
    then obtain a where a: "theme_named (ap_active_custom ?p) v = Some a" "ct_mode a = m" "active_custom v = Some a"
      using assms(1) by (auto simp: class_follows_def active_custom_eq)
    have i: "ct_id a = ap_active_custom ?p" using find_Some_in [OF a(1)] by simp
    show ?thesis
    proof (cases "js_starts_with (ct_id a) PLUGIN_THEME_PREFIX")
      case True
      with m a i have "ct_id a \<in> set (map ct_id ts)"
        by (auto simp: set_plugin_content_def Let_def split: if_splits)
      then obtain t where t: "find (\<lambda>x. ct_id x = ct_id a) ts = Some t" by (cases "find (\<lambda>x. ct_id x = ct_id a) ts") (auto dest: find_None_all)
      have "find (\<lambda>x. ct_id x = ct_id a) (ap_custom_themes ?p) = None"
        using True assms(1) by (auto simp: class_follows_def find_None_iff list_all_iff)
      moreover have "ct_mode t = m" using assms(2) a t by auto
      moreover have "ap_active_custom (lk_prefs ?w) = ct_id a"
        using \<open>ct_id a \<in> _\<close> i by (simp add: set_plugin_content_def Let_def update_prefs_def)
      ultimately show ?thesis using t by (simp add: customs find_append_Some)
    next
      case False
      then have "ap_active_custom (lk_prefs ?w) = ct_id a"
        using i by (simp add: set_plugin_content_def Let_def update_prefs_def PLUGIN_THEME_PREFIX_def)
      moreover have "find (\<lambda>x. ct_id x = ct_id a) (ap_custom_themes ?p) = Some a"
      proof (cases "find (\<lambda>x. ct_id x = ct_id a) (ap_custom_themes ?p)")
        case None
        with a(1) i have "a \<in> set (ap_plugin_themes ?p)" by (auto simp: find_append_Some dest: find_Some_in)
        with assms(1) False show ?thesis by (auto simp: class_follows_def list_all_iff)
      qed (use a(1) i in \<open>simp add: find_append_Some\<close>)
      ultimately show ?thesis using a(2) by (simp add: customs find_append_Some)
    qed
  qed
  with assms(1) plugins show ?thesis by (auto simp: class_follows_def customs)
qed

lemma prefs_follow:
  "class_follows v \<Longrightarrow> ap_custom_themes (lk_prefs w) = ap_custom_themes (lk_prefs v) \<Longrightarrow> ap_plugin_themes (lk_prefs w) = ap_plugin_themes (lk_prefs v)
    \<Longrightarrow> ap_active_custom (lk_prefs w) = ap_active_custom (lk_prefs v) \<Longrightarrow> lk_theme w = lk_theme v \<Longrightarrow> class_follows w"
  by (simp add: class_follows_def)

lemma look_step_follows: "class_follows v \<Longrightarrow> look_allowed v e \<Longrightarrow> class_follows (look_step v e)"
proof (cases e)
  case (ThemePicked i)
  then show "class_follows v \<Longrightarrow> look_allowed v e \<Longrightarrow> ?thesis"
    by (simp add: class_follows_def pick_theme_def preset_not_custom)
next
  case (ThemeSaved is_new t)
  then show "class_follows v \<Longrightarrow> look_allowed v e \<Longrightarrow> ?thesis"
    using save_follows [of v t] show_follows [of "save_custom_theme t v" t] by (simp add: saved_in_picker_def Let_def)
next
  case (ThemeDeleted i)
  then show "class_follows v \<Longrightarrow> look_allowed v e \<Longrightarrow> ?thesis" using delete_follows by simp
next
  case (PluginContent ts fs)
  show "class_follows v \<Longrightarrow> look_allowed v e \<Longrightarrow> ?thesis" unfolding PluginContent look_step.simps by (rule plugins_follow)
next
  case (ThemeShown t)
  then show "class_follows v \<Longrightarrow> look_allowed v e \<Longrightarrow> ?thesis" using show_follows by simp
next
  case (PrefsSet f)
  then show "class_follows v \<Longrightarrow> look_allowed v e \<Longrightarrow> ?thesis" 
    using prefs_follow [of v "look_step v e"] by (simp add: update_prefs_def)
next
  case (FontAdded f)
  then show "class_follows v \<Longrightarrow> ?thesis" 
    using prefs_follow [of v "look_step v e"] by (simp add: add_user_font_def Let_def update_prefs_def)
next
  case (FontRemoved i)
  then show "class_follows v \<Longrightarrow> ?thesis" 
    using prefs_follow [of v "look_step v e"] by (simp add: remove_user_font_def Let_def update_prefs_def)
next
  case (FontsListed fs)
  then show "class_follows v \<Longrightarrow> ?thesis" 
    using prefs_follow [of v "look_step v e"] by (simp add: fonts_listed_def Let_def update_prefs_def)
qed

lemma look_run_follows: "class_follows v \<Longrightarrow> look_run v es = Some w \<Longrightarrow> class_follows w"
proof (induction es arbitrary: v)
  case (Cons e es)
  then show ?case using look_step_follows [of v e] by (simp split: if_splits)
qed simp

section \<open>The page before and after the first frame\<close>

lemma backdrop_lookup:
  "om_get (pa_style (apply_backdrop im pg)) k =
     (if k = ''--backdrop-dim'' then (case im of Some i \<Rightarrow> if rx_test BACKGROUND_URL (im_url i) then Some (CssNum (im_dim i)) else None | None \<Rightarrow> None)
      else if k = ''--backdrop-panel'' then (case im of Some i \<Rightarrow> if rx_test BACKGROUND_URL (im_url i) then Some (CssNum (im_panel i)) else None | None \<Rightarrow> None)
      else om_get (pa_style pg) k)"
  by (simp add: apply_backdrop_def style_set style_remove split: option.split)

lemma custom_theme_shape:
  "apply_custom_theme th pg =
     foldl (\<lambda>p (k, v). set_property k (CssNum v) p)
       (apply_backdrop (Option.bind th ct_image) (foldl (\<lambda>p k. remove_property k p) pg KNOB_NAMES))
       (case th of Some t \<Rightarrow> custom_theme_knobs t | None \<Rightarrow> [])"
  unfolding apply_custom_theme_def Let_def by (cases th) simp_all

lemma custom_theme_knob_names: "set (map fst (case th of Some t \<Rightarrow> custom_theme_knobs t | None \<Rightarrow> [])) \<subseteq> set KNOB_NAMES"
  by (cases th) (simp_all only: option.case knob_names list.map list.set, simp_all)

lemma custom_theme_other:
  assumes "k \<notin> set KNOB_NAMES"
  shows "om_get (pa_style (apply_custom_theme th pg)) k
    = om_get (pa_style (apply_backdrop (Option.bind th ct_image) (foldl (\<lambda>p k. remove_property k p) pg KNOB_NAMES))) k"
proof -
  let ?kvs = "case th of Some t \<Rightarrow> custom_theme_knobs t | None \<Rightarrow> []"
  have d: "distinct (map fst ?kvs)" by (cases th) (simp_all only: option.case knobs_distinct list.map distinct.simps)
  have "map_of ?kvs k = None" using assms custom_theme_knob_names [of th] unfolding map_of_eq_None_iff set_map by blast
  then show ?thesis unfolding custom_theme_shape style_written [OF d] by simp
qed

lemma custom_theme_lookup:
  "om_get (pa_style (apply_custom_theme th pg)) k =
     (if k \<in> set KNOB_NAMES then (case th of Some t \<Rightarrow> map_option CssNum (map_of (custom_theme_knobs t) k) | None \<Rightarrow> None)
      else om_get (pa_style (apply_backdrop (Option.bind th ct_image) pg)) k)"
proof (cases "k \<in> set KNOB_NAMES")
  case True
  then show ?thesis by (simp only: applied_knob if_True)
next
  case False
  then show ?thesis unfolding custom_theme_other [OF False] backdrop_lookup style_removed by (simp only: if_False)
qed

lemma backdrop_fields:
  "pa_motion (apply_backdrop im pg) = pa_motion pg" "pa_units (apply_backdrop im pg) = pa_units pg"
  "pa_layer (apply_backdrop im pg) = pa_layer (apply_backdrop im pg')" "pa_backdrop (apply_backdrop im pg) = pa_backdrop (apply_backdrop im pg')"
  by (simp_all add: apply_backdrop_def set_property_def remove_property_def split: option.split)

lemma written_fields:
  "pa_motion (foldl (\<lambda>p (k, v). set_property k (CssNum v) p) pg kvs) = pa_motion pg"
  "pa_units (foldl (\<lambda>p (k, v). set_property k (CssNum v) p) pg kvs) = pa_units pg"
  by (induction kvs arbitrary: pg) (simp_all add: set_property_def split: prod.split)

lemma removed_fields:
  "pa_motion (foldl (\<lambda>p k. remove_property k p) pg ks) = pa_motion pg" "pa_units (foldl (\<lambda>p k. remove_property k p) pg ks) = pa_units pg"
  by (induction ks arbitrary: pg) (simp_all add: remove_property_def)

lemma custom_theme_fields:
  "pa_motion (apply_custom_theme th pg) = pa_motion pg" "pa_units (apply_custom_theme th pg) = pa_units pg"
  "pa_layer (apply_custom_theme th pg) = pa_layer (apply_backdrop (Option.bind th ct_image) pg')"
  "pa_backdrop (apply_custom_theme th pg) = pa_backdrop (apply_backdrop (Option.bind th ct_image) pg')"
  unfolding custom_theme_shape written_fields written_keeps backdrop_fields(1,2) removed_fields
  by (rule refl refl backdrop_fields)+

lemma appearance_lookup:
  "om_get (pa_style (apply_appearance p s st pg)) k =
     (if k = ''--app-font'' then Some (CssText (fo_family (effective_font st (ap_font p) s)))
      else if k = ''--radius'' then Some (radius_value p)
      else if k = ''--motion-scale'' then Some (CssNum (1 / (if ap_motion_speed p = 0 then 1 else ap_motion_speed p)))
      else if k = ''--enter-step'' then Some (CssUnit (ap_motion_stagger p) ''ms'')
      else om_get (pa_style pg) k)"
  by (simp add: apply_appearance_def Let_def style_set)

lemma appearance_fields:
  "pa_motion (apply_appearance p s st pg) = Some (ap_motion p)" "pa_units (apply_appearance p s st pg) = ap_units p"
  by (simp_all add: apply_appearance_def Let_def set_property_def)

lemma accent_lookup:
  "om_get (pa_style (apply_accent a pg)) k =
     (case a of None \<Rightarrow> om_get (pa_style pg) k
      | Some (h, c) \<Rightarrow> if k = ''--brand-c'' then Some (CssNum c) else if k = ''--brand-h'' then Some (CssNum h) else om_get (pa_style pg) k)"
  by (simp add: apply_accent_def style_set split: option.split prod.split)

lemma accent_fields:
  "pa_motion (apply_accent a pg) = pa_motion pg" "pa_units (apply_accent a pg) = pa_units pg"
  "pa_layer (apply_accent a pg) = pa_layer pg" "pa_backdrop (apply_accent a pg) = pa_backdrop pg"
  by (simp_all add: apply_accent_def set_property_def split: option.split prod.split)

lemma knob_names_list:
  "set KNOB_NAMES = {''--ui-h'', ''--ui-c'', ''--ui-bg-l'', ''--ui-card-l'', ''--ui-lift-l'', ''--brand-l'', ''--brand-c'', ''--brand-h''}"
  by (simp add: KNOB_NAMES_def custom_theme_knobs_def Let_def insert_commute)

text \<open>Drawing the same preferences again changes nothing.\<close>

lemma drawn_again:
  "om_get (pa_style (apply_custom_theme th (apply_appearance p s st (apply_custom_theme th (apply_appearance p s st pg))))) k
    = om_get (pa_style (apply_custom_theme th (apply_appearance p s st pg))) k"
  by (simp only: custom_theme_lookup backdrop_lookup appearance_lookup) (simp split: if_split)

section \<open>Properties\<close>


definition opened_look :: look where
  "opened_look = \<lparr>lk_prefs = DEFAULT_APPEARANCE, lk_theme = SYSTEM_THEME, lk_fonts = no_fonts, lk_monet = None\<rparr>"

lemma opened_follows: "class_follows opened_look"
  by (simp add: class_follows_def opened_look_def DEFAULT_APPEARANCE_def)


text \<open>When a plugin whose theme is on screen brings that theme with the other mode, its new colours are shown
  under the class of the old mode: dark colours in a light window, or light ones in a dark one.\<close>

theorem plugin_update_keeps_old_class:
  assumes "class_follows v" "active_custom v = Some a" "js_starts_with (ct_id a) PLUGIN_THEME_PREFIX"
    and "find (\<lambda>x. ct_id x = ct_id a) ts = Some t" "ct_mode t \<noteq> ct_mode a"
  shows "active_custom (set_plugin_content ts fs v) = Some t
    \<and> om_get PROVIDER_CLASSES (lk_theme (set_plugin_content ts fs v)) = Some (custom_class (ct_mode a))
    \<and> is_dark_class [custom_class (ct_mode a)] \<noteq> (ct_mode t = Dark)"
proof -
  let ?p = "lk_prefs v" and ?w = "set_plugin_content ts fs v"
  from assms(2) obtain m where m: "lk_theme v = CUSTOM_THEME_IDS m" "theme_named (ap_active_custom ?p) v = Some a"
    by (auto simp: active_custom_eq split: if_splits)
  with assms(1) have mode: "m = ct_mode a" by (auto simp: class_follows_def)
  have i: "ct_id a = ap_active_custom ?p" using find_Some_in [OF m(2)] by simp
  have mem: "ct_id a \<in> set (map ct_id ts)" using find_Some_in [OF assms(4)] by (auto intro!: rev_image_eqI [of t])
  have none: "find (\<lambda>x. ct_id x = ct_id a) (ap_custom_themes ?p) = None"
    using assms(1,3) by (auto simp: class_follows_def find_None_iff list_all_iff)
  have "lk_theme ?w = CUSTOM_THEME_IDS m" "theme_named (ap_active_custom (lk_prefs ?w)) ?w = Some t"
    using m(1) assms(2,4) mem i none by (simp_all add: set_plugin_content_def Let_def update_prefs_def find_append_Some)
  moreover have "(ct_mode a = Dark) \<noteq> (ct_mode t = Dark)" using assms(5) mode.exhaust by metis
  ultimately show ?thesis using mode by (auto simp: active_custom_eq custom_id_class custom_class_dark)
qed

definition plugin_theme :: "mode \<Rightarrow> custom_theme" where
  "plugin_theme m = (new_custom_theme [] m)\<lparr>ct_id := ''plugin:sea/night''\<rparr>"

theorem plugin_update_keeps_old_class_witness:
  "\<exists>v. active_custom v = Some (plugin_theme Light) \<and> om_get PROVIDER_CLASSES (lk_theme v) = Some (custom_class Dark)"
proof -
  let ?v = "show_custom_theme (plugin_theme Dark) (set_plugin_content [plugin_theme Dark] [] opened_look)"
  have f: "class_follows ?v"
    by (simp add: class_follows_def look_ops Let_def opened_look_def DEFAULT_APPEARANCE_def plugin_theme_def new_custom_theme_def
        PLUGIN_THEME_PREFIX_def js_starts_with_def active_custom_eq)
  have a: "active_custom ?v = Some (plugin_theme Dark)"
    by (simp add: active_custom_eq look_ops Let_def opened_look_def DEFAULT_APPEARANCE_def plugin_theme_def new_custom_theme_def)
  have "ct_id (plugin_theme m) = ''plugin:sea/night''" "ct_mode (plugin_theme m) = m" for m
    by (simp_all add: plugin_theme_def new_custom_theme_def)
  with plugin_update_keeps_old_class [OF f a, of "[plugin_theme Light]" "plugin_theme Light" "[]"] show ?thesis
    by (auto simp: PLUGIN_THEME_PREFIX_def js_starts_with_def)
qed

text \<open>When the list of the user's own fonts arrives, which it does once after every start, a chosen font
  that a plugin brings is given up for the default, although that font is still on offer; a chosen
  font of the user's own is given up only when it is no longer listed.\<close>

theorem start_forgets_plugin_font:
  assumes "ap_font (lk_prefs v) = USER_FONT_PREFIX @ i" "w = fonts_listed fonts v"
  shows "ap_font (lk_prefs w) = (if i \<in> uf_id ` set fonts then USER_FONT_PREFIX @ i else ap_font DEFAULT_APPEARANCE)
    \<and> fs_plugin (lk_fonts w) = fs_plugin (lk_fonts v) \<and> ap_plugin_fonts (lk_prefs w) = ap_plugin_fonts (lk_prefs v)
    \<and> (USER_FONT_PREFIX @ i \<in> fo_id ` set (fs_plugin (lk_fonts v)) \<longrightarrow> USER_FONT_PREFIX @ i \<in> fo_id ` set (all_fonts (lk_fonts w)))"
  using assms by (auto simp: fonts_listed_def Let_def update_prefs_def all_fonts_def set_user_fonts_def)

definition look_with_plugin_font :: look where
  "look_with_plugin_font =
     set_font (USER_FONT_PREFIX @ ''plugin-sea-0'')
       (opened_look\<lparr>lk_fonts := no_fonts\<lparr>fs_plugin := [font (USER_FONT_PREFIX @ ''plugin-sea-0'') ''Sea'' [] None]\<rparr>\<rparr>)"

theorem start_forgets_plugin_font_witness:
  "ap_font (lk_prefs (fonts_listed [] look_with_plugin_font)) = ''google-sans''
    \<and> USER_FONT_PREFIX @ ''plugin-sea-0'' \<in> fo_id ` set (all_fonts (lk_fonts (fonts_listed [] look_with_plugin_font)))"
proof -
  have f: "ap_font (lk_prefs look_with_plugin_font) = USER_FONT_PREFIX @ ''plugin-sea-0''"
    "USER_FONT_PREFIX @ ''plugin-sea-0'' \<in> fo_id ` set (fs_plugin (lk_fonts look_with_plugin_font))"
    by (simp_all add: look_with_plugin_font_def set_font_def update_prefs_def font_def)
  from start_forgets_plugin_font [OF f(1) refl, of "[]"] f(2) show ?thesis by (simp add: DEFAULT_APPEARANCE_def)
qed

definition first_frame :: "appearance_prefs \<Rightarrow> font_state \<Rightarrow> script \<Rightarrow> string option \<Rightarrow> bool \<Rightarrow> custom_theme option \<Rightarrow> page \<Rightarrow> page" where
  "first_frame p st s stored dark monet =
     frame_page \<lparr>lk_prefs = p, lk_theme = or_else stored SYSTEM_THEME, lk_fonts = st, lk_monet = monet\<rparr> s dark"

text \<open>The page drawn before the first frame is the page of the first frame - theme, picture, font, corners,
  motion and units - and drawing it again changes nothing, except that the accent the user chose
  over the theme's own is missing from it.\<close>

theorem first_frame_lacks_accent_only:
  assumes "b = boot_page p st s stored dark monet pg" "f = first_frame p st s stored dark monet b"
  shows "(\<forall>k. k \<notin> {''--brand-c'', ''--brand-h''} \<longrightarrow> om_get (pa_style f) k = om_get (pa_style b) k)
    \<and> (pa_layer f, pa_backdrop f, pa_motion f, pa_units f) = (pa_layer b, pa_backdrop b, pa_motion b, pa_units b)
    \<and> (case ap_accent p of
         None \<Rightarrow> om_get (pa_style f) ''--brand-h'' = om_get (pa_style b) ''--brand-h''
       | Some (h, c) \<Rightarrow> om_get (pa_style f) ''--brand-h'' = Some (CssNum h)
           \<and> om_get (pa_style b) ''--brand-h'' = map_option (\<lambda>t. CssNum (ct_accent_h t)) (shown_theme p (or_else stored SYSTEM_THEME) dark monet))"
proof -
  let ?th = "shown_theme p (or_else stored SYSTEM_THEME) dark monet"
  have b: "b = apply_custom_theme ?th (apply_appearance p s st pg)" using assms(1) by (simp add: boot_page_def)
  have f: "f = apply_accent (ap_accent p) (apply_custom_theme ?th (apply_appearance p s st b))" using assms(2) by (simp add: frame_page_def first_frame_def)
  have same: "om_get (pa_style (apply_custom_theme ?th (apply_appearance p s st b))) k = om_get (pa_style b) k" for k
    unfolding b by (rule drawn_again)
  have brand: "om_get (pa_style b) ''--brand-h'' = map_option (\<lambda>t. CssNum (ct_accent_h t)) ?th"
    unfolding b custom_theme_lookup knob_names_list by (simp add: custom_theme_knobs_def Let_def split: option.split)
  have fields: "(pa_layer f, pa_backdrop f, pa_motion f, pa_units f) = (pa_layer b, pa_backdrop b, pa_motion b, pa_units b)"
    unfolding f accent_fields custom_theme_fields(1,2) appearance_fields custom_theme_fields(3) [where pg' = pg] custom_theme_fields(4) [where pg' = pg]
    unfolding b custom_theme_fields(1,2) appearance_fields custom_theme_fields(3) [where pg' = pg] custom_theme_fields(4) [where pg' = pg] by (rule refl)
  show ?thesis
    using fields brand unfolding f accent_lookup same by (simp split: option.split prod.split)
qed

theorem first_frame_lacks_accent_only_witness:
  "om_get (pa_style (boot_page (DEFAULT_APPEARANCE\<lparr>ap_accent := Some (200, 1/10)\<rparr>) no_fonts Latin None True None
      \<lparr>pa_style = [], pa_motion = None, pa_backdrop = False, pa_layer = None, pa_units = \<lparr>un_rate = BytesRate, un_size = AutoSize\<rparr>\<rparr>)) ''--brand-h''
     = None"
proof -
  have "shown_theme (DEFAULT_APPEARANCE\<lparr>ap_accent := Some (200, 1/10)\<rparr>) (or_else None SYSTEM_THEME) True None = None"
    by (simp add: shown_theme_def active_custom_theme_def is_custom_theme_id_def SYSTEM_THEME_def CUSTOM_THEME_DARK_def
        CUSTOM_THEME_LIGHT_def monet_for_mode_def)
  then show ?thesis
    using first_frame_lacks_accent_only [OF refl refl, of "DEFAULT_APPEARANCE\<lparr>ap_accent := Some (200, 1/10)\<rparr>" no_fonts Latin None True None
        "\<lparr>pa_style = [], pa_motion = None, pa_backdrop = False, pa_layer = None, pa_units = \<lparr>un_rate = BytesRate, un_size = AutoSize\<rparr>\<rparr>"]
    by simp
qed

section \<open>The wallpaper's theme is a valid theme\<close>

lemma clamped: "0 \<le> lo \<Longrightarrow> lo \<le> hi \<Longrightarrow> in_range (0, hi) (clamp_to lo hi v)"
  using clamp_to_range [of lo hi v] by (auto simp: in_range_def intro: order_trans)

lemma wallpaper_names: "js_trim ''Wallpaper'' \<noteq> []" "js_trim ''Material You'' \<noteq> []"
  by code_simp+

text \<open>The theme made from the wallpaper is a valid theme of the palette's mode whenever the hues are hues; its
  page is never more than faintly tinted, switching between light and dark keeps it valid and
  changes nothing but mode and lightness, and it is found again in storage.\<close>

theorem wallpaper_theme_ok:
  assumes "monet_theme oklch palette = Some t" "\<forall>rgb. in_range (0, 360) (snd (snd (oklch rgb)))"
  shows "theme_ok t \<and> ct_mode t = palette_mode palette \<and> ct_bg_c t \<le> 3/100 \<and> ct_image t = None
    \<and> (\<exists>u. monet_for_mode (Some t) m = Some u \<and> theme_ok u \<and> ct_mode u = m
        \<and> u\<lparr>ct_mode := ct_mode t, ct_bg_l := ct_bg_l t\<rparr> = t)
    \<and> Option.bind (load_monet (save_monet (Some t))) (\<lambda>j. sanitize_theme j CUSTOM_PREFIX) = Some t"
proof -
  obtain a b sl sc sh al ac ah where
    rgb: "rgb_of_hex (surface_hex palette) = Some a" "rgb_of_hex (accent_hex palette) = Some b"
    and ab: "oklch a = (sl, sc, sh)" "oklch b = (al, ac, ah)"
    using assms(1) by (auto simp: monet_theme_def Let_def split: option.splits prod.splits)
  have h: "in_range (0, 360) sh" "in_range (0, 360) ah" using assms(2) ab by (metis snd_conv)+
  let ?m = "palette_mode palette"
  have t: "t = \<lparr>ct_id = MONET_THEME_ID, ct_name = (if is_desktop palette then ''Wallpaper'' else ''Material You''), ct_mode = ?m,
                ct_bg_h = sh, ct_bg_c = clamp_to (if is_desktop palette then 0 else 4/1000) (3/100) (sc * (6/10)),
                ct_bg_l = (if ?m = Dark then 16/100 else 975/1000),
                ct_accent_h = ah, ct_accent_c = clamp_to (if is_desktop palette then 0 else 6/100) (2/10) ac, ct_image = None\<rparr>"
    using assms(1) rgb ab by (cases ?m) (simp_all add: monet_theme_def Let_def clamp_to_def)
  have c: "in_range (0, 3/100) (ct_bg_c t)" "in_range (0, 2/10) (ct_accent_c t)"
    unfolding t by (simp_all add: clamped)
  have ok: "theme_ok t"
    using h c unfolding theme_ok_def by (cases ?m) (simp_all add: t in_range_def MONET_THEME_ID_def)
  have name: "name_ok t" using wallpaper_names by (simp add: name_ok_def t)
  note ok
  moreover have "theme_ok (t\<lparr>ct_mode := m, ct_bg_l := (if m = Dark then 16/100 else 975/1000)\<rparr>)"
    using ok unfolding theme_ok_def by (cases m) (simp_all add: in_range_def)
  moreover have "load_monet (save_monet (Some t)) = Some (theme_json t)"
    by (simp add: load_monet_def save_monet_def theme_json_def t)
  moreover have "sanitize_theme (theme_json t) CUSTOM_PREFIX = Some t"
    unfolding sanitize_theme_json [OF ok name] by (simp add: t MONET_THEME_ID_def CUSTOM_PREFIX_def js_starts_with_def)
  ultimately show ?thesis using c by (simp add: monet_for_mode_def in_range_def t)
qed

theorem wallpaper_theme_ok_witness:
  "\<exists>t. monet_theme (\<lambda>_. (1/2, 1/10, 250)) (SeedPalette ''#336699'') = Some t \<and> theme_ok t"
proof -
  have "rgb_of_hex ''#336699'' \<noteq> None" by code_simp
  then obtain t where t: "monet_theme (\<lambda>_. (1/2, 1/10, 250)) (SeedPalette ''#336699'') = Some t"
    by (auto simp: monet_theme_def Let_def)
  with wallpaper_theme_ok [OF t, of Dark] show ?thesis by (simp add: in_range_def)
qed

end
