(* ===== verification/Translation.thy ===== *)
theory Translation
  imports Appearance_Fonts
begin

text \<open>
  Translation (lib/i18n.tsx): which language the window is shown in, what that sets on the page, and
  how a message is formatted.  The catalogues (locales/) are an argument, as are the browser's
  plural rules and its texts of numbers.
\<close>

section \<open>Languages\<close>

datatype direction = Ltr | Rtl

record language_option =
  lg_id :: string
  lg_label :: string
  lg_tag :: string
  lg_script :: script
  lg_dir :: direction

definition language_entry :: "string \<Rightarrow> string \<Rightarrow> string \<Rightarrow> script \<Rightarrow> direction \<Rightarrow> language_option" where
  "language_entry i label tag s d = \<lparr>lg_id = i, lg_label = label, lg_tag = tag, lg_script = s, lg_dir = d\<rparr>"

definition LANGUAGES :: "language_option list" where
  "LANGUAGES =
     [language_entry ''en''
        (''English'') ''en'' Latin Ltr,
      language_entry ''ru''
        ([CHR 0xD0, CHR 0xA0, CHR 0xD1, CHR 0x83, CHR 0xD1, CHR 0x81, CHR 0xD1, CHR 0x81, CHR 0xD0, CHR 0xBA, CHR 0xD0, CHR 0xB8, CHR 0xD0, CHR 0xB9]) ''ru'' Cyrillic Ltr,
      language_entry ''uk''
        ([CHR 0xD0, CHR 0xA3, CHR 0xD0, CHR 0xBA, CHR 0xD1, CHR 0x80, CHR 0xD0, CHR 0xB0, CHR 0xD1, CHR 0x97, CHR 0xD0, CHR 0xBD, CHR 0xD1, CHR 0x81, CHR 0xD1, CHR 0x8C, CHR 0xD0, CHR 0xBA, CHR 0xD0, CHR 0xB0]) ''uk'' Cyrillic Ltr,
      language_entry ''zh''
        ([CHR 0xE4, CHR 0xB8, CHR 0xAD, CHR 0xE6, CHR 0x96, CHR 0x87]) ''zh-CN'' Hans Ltr,
      language_entry ''ja''
        ([CHR 0xE6, CHR 0x97, CHR 0xA5, CHR 0xE6, CHR 0x9C, CHR 0xAC, CHR 0xE8, CHR 0xAA, CHR 0x9E]) ''ja'' Jpan Ltr,
      language_entry ''fa''
        ([CHR 0xD9, CHR 0x81, CHR 0xD8, CHR 0xA7, CHR 0xD8, CHR 0xB1, CHR 0xD8, CHR 0xB3, CHR 0xDB, CHR 0x8C]) ''fa'' Arab Rtl]"

definition entry_of :: "string \<Rightarrow> language_option option" where
  "entry_of language = find (\<lambda>l. lg_id l = language) LANGUAGES"

definition script_of :: "string \<Rightarrow> script" where
  "script_of language = (case entry_of language of Some l \<Rightarrow> lg_script l | None \<Rightarrow> Latin)"

definition known_language :: "string \<Rightarrow> bool" where
  "known_language i = list_ex (\<lambda>l. lg_id l = i) LANGUAGES"

definition base_tag :: "string \<Rightarrow> string" where
  "base_tag tag = hd (js_split (CHR ''-'') (js_lower tag))"

text \<open>The first of the system's preferred languages this app has.\<close>

definition system_language :: "string list \<Rightarrow> string" where
  "system_language preferred =
     (case find (\<lambda>tag. known_language (base_tag tag)) preferred of Some tag \<Rightarrow> base_tag tag | None \<Rightarrow> ''en'')"

text \<open>The stored choice; \<open>None\<close> when nothing is stored or there is no storage.\<close>

definition load_choice :: "string option \<Rightarrow> string" where
  "load_choice stored =
     (case stored of Some c \<Rightarrow> if c = ''system'' \<or> known_language c then c else ''system'' | None \<Rightarrow> ''system'')"

definition chosen_language :: "string list \<Rightarrow> string \<Rightarrow> string" where
  "chosen_language preferred choice = (if choice = ''system'' then system_language preferred else choice)"

definition current_language :: "string list \<Rightarrow> string option \<Rightarrow> string" where
  "current_language preferred stored = chosen_language preferred (load_choice stored)"

text \<open>What the root element says: \<open>lang\<close> and \<open>dir\<close>.\<close>

definition boot_language :: "string list \<Rightarrow> string option \<Rightarrow> string \<times> direction" where
  "boot_language preferred stored =
     (case entry_of (current_language preferred stored) of
        Some l \<Rightarrow> (lg_tag l, lg_dir l) | None \<Rightarrow> (''en'', Ltr))"

section \<open>The provider\<close>

text \<open>The chosen language, the text in storage (if it can be written), and what the root element says.\<close>

record i18n =
  in_choice :: string
  in_stored :: "string option"
  in_lang :: string
  in_dir :: direction
  in_told :: "string list"

definition language_effect :: "string list \<Rightarrow> i18n \<Rightarrow> i18n" where
  "language_effect preferred v =
     (let language = chosen_language preferred (in_choice v) in
      v\<lparr>in_lang := (case entry_of language of Some l \<Rightarrow> lg_tag l | None \<Rightarrow> language),
        in_dir := (case entry_of language of Some l \<Rightarrow> lg_dir l | None \<Rightarrow> Ltr),
        in_told := in_told v @ [language]\<rparr>)"

definition opened_i18n :: "string list \<Rightarrow> string option \<Rightarrow> i18n" where
  "opened_i18n preferred stored =
     (case boot_language preferred stored of (lang, d) \<Rightarrow>
        \<lparr>in_choice = load_choice stored, in_stored = stored, in_lang = lang, in_dir = d, in_told = []\<rparr>)"

definition set_choice :: "bool \<Rightarrow> string \<Rightarrow> i18n \<Rightarrow> i18n" where
  "set_choice writable next v = v\<lparr>in_choice := next, in_stored := (if writable then Some next else in_stored v)\<rparr>"

definition provider_dir :: "string list \<Rightarrow> i18n \<Rightarrow> direction" where
  "provider_dir preferred v =
     (case entry_of (chosen_language preferred (in_choice v)) of Some l \<Rightarrow> lg_dir l | None \<Rightarrow> Ltr)"

section \<open>Messages\<close>

datatype plural_form = Zero | One | Two | Few | Many | Other

record plural =
  pl_zero :: "string option"
  pl_one :: "string option"
  pl_two :: "string option"
  pl_few :: "string option"
  pl_many :: "string option"
  pl_other :: string

datatype message = Plain string | Counted plural

datatype param = TextParam string | NumParam jsnum

text \<open>What the browser knows: the plural form of a number, the text of one, and the number a text reads as.\<close>

record intl =
  it_form :: "string \<Rightarrow> jsnum \<Rightarrow> plural_form"
  it_text :: "string \<Rightarrow> jsnum \<Rightarrow> string"
  it_number :: "string \<Rightarrow> jsnum"

fun plural_text :: "plural \<Rightarrow> plural_form \<Rightarrow> string" where
  "plural_text p Zero = or_else (pl_zero p) (pl_other p)"
| "plural_text p One = or_else (pl_one p) (pl_other p)"
| "plural_text p Two = or_else (pl_two p) (pl_other p)"
| "plural_text p Few = or_else (pl_few p) (pl_other p)"
| "plural_text p Many = or_else (pl_many p) (pl_other p)"
| "plural_text p Other = pl_other p"

definition word_char :: "char \<Rightarrow> bool" where
  "word_char c \<longleftrightarrow> c \<in> set (lower_letters @ upper_letters @ digits @ ''_'')"

text \<open>A name and a closing brace at the start of a text: the name and what follows.\<close>

definition placeholder :: "string \<Rightarrow> (string \<times> string) option" where
  "placeholder cs =
     (let name = takeWhile word_char cs in
      case dropWhile word_char cs of
        [] \<Rightarrow> None
      | d # after \<Rightarrow> if name \<noteq> [] \<and> d = CHR ''}'' then Some (name, after) else None)"

lemma placeholder_Some:
  assumes "placeholder cs = Some (name, after)"
  shows "cs = name @ CHR ''}'' # after \<and> name \<noteq> [] \<and> list_all word_char name"
proof -
  have d: "dropWhile word_char cs = CHR ''}'' # after" "name = takeWhile word_char cs" "name \<noteq> []"
    using assms by (auto simp: placeholder_def Let_def split: list.splits if_splits)
  moreover have "takeWhile word_char cs @ dropWhile word_char cs = cs" by simp
  moreover have "list_all word_char (takeWhile word_char cs)" by (auto simp: list_all_iff dest: set_takeWhileD)
  ultimately show ?thesis by simp
qed

lemma placeholder_length [termination_simp]:
  "(if b then placeholder cs else None) = Some (name, after) \<Longrightarrow> length after < Suc (length cs)"
  by (cases b) (auto dest: placeholder_Some)

text \<open>\<open>replace\<close> with \<open>/\{(\w+)\}/g\<close>: scanning goes on after a match, or one character on.\<close>

fun fill :: "(string \<Rightarrow> string option) \<Rightarrow> string \<Rightarrow> string" where
  "fill v [] = []"
| "fill v (c # cs) =
     (case (if c = CHR ''{'' then placeholder cs else None) of
        Some (name, after) \<Rightarrow> or_else (v name) (CHR ''{'' # name @ [CHR ''}'']) @ fill v after
      | None \<Rightarrow> c # fill v cs)"

definition param_text :: "intl \<Rightarrow> string \<Rightarrow> param \<Rightarrow> string" where
  "param_text i language p = (case p of TextParam s \<Rightarrow> s | NumParam n \<Rightarrow> it_text i language n)"

definition count_of :: "intl \<Rightarrow> (string, param) omap option \<Rightarrow> jsnum" where
  "count_of i params =
     (case Option.bind params (\<lambda>ps. om_get ps ''count'') of
        Some (NumParam n) \<Rightarrow> n | Some (TextParam s) \<Rightarrow> it_number i s | None \<Rightarrow> Fin 0)"

definition message_text :: "intl \<Rightarrow> string \<Rightarrow> message \<Rightarrow> (string, param) omap option \<Rightarrow> string" where
  "message_text i language m params =
     (case m of Plain s \<Rightarrow> s | Counted p \<Rightarrow> plural_text p (it_form i language (count_of i params)))"

definition translate ::
  "intl \<Rightarrow> (string \<Rightarrow> string \<Rightarrow> message option) \<Rightarrow> (string \<Rightarrow> message) \<Rightarrow> string \<Rightarrow> string \<Rightarrow> (string, param) omap option \<Rightarrow> string" where
  "translate i catalog en language key params =
     (let text = message_text i language (or_else (catalog language key) (en key)) params in
      case params of
        None \<Rightarrow> text
      | Some ps \<Rightarrow> fill (\<lambda>name. map_option (param_text i language) (om_get ps name)) text)"

section \<open>Lemmas\<close>

lemma language_ids: "known_language i \<longleftrightarrow> i \<in> {''en'', ''ru'', ''uk'', ''zh'', ''ja'', ''fa''}"
  by (auto simp: known_language_def LANGUAGES_def language_entry_def)

lemma system_not_language: "\<not> known_language ''system''"
  by (simp add: language_ids)

lemma system_language_known: "known_language (system_language preferred)"
  by (auto simp: system_language_def language_ids split: option.split dest!: find_Some_in)

lemma load_choice_valid: "load_choice stored = ''system'' \<or> known_language (load_choice stored)"
  by (simp add: load_choice_def split: option.split)

lemma load_choice_id: "c = ''system'' \<or> known_language c \<Longrightarrow> load_choice (Some c) = c"
  by (simp add: load_choice_def)

lemma chosen_known: "c = ''system'' \<or> known_language c \<Longrightarrow> known_language (chosen_language preferred c)"
  using system_language_known system_not_language by (auto simp: chosen_language_def)

lemma known_entry: "known_language i \<Longrightarrow> \<exists>l. entry_of i = Some l \<and> l \<in> set LANGUAGES \<and> lg_id l = i"
proof -
  assume "known_language i"
  then obtain l where "entry_of i = Some l"
    by (cases "entry_of i") (auto simp: known_language_def entry_of_def find_None_iff list_ex_iff)
  with find_Some_in [OF this [unfolded entry_of_def]] show ?thesis by simp
qed

lemma rtl_iff: "entry_of i = Some l \<Longrightarrow> lg_dir l = Rtl \<longleftrightarrow> i = ''fa''"
proof -
  assume "entry_of i = Some l"
  then have "l \<in> set LANGUAGES" "lg_id l = i" using find_Some_in [of "\<lambda>l. lg_id l = i" LANGUAGES l] by (simp_all add: entry_of_def)
  moreover have "list_all (\<lambda>l. lg_dir l = Rtl \<longleftrightarrow> lg_id l = ''fa'') LANGUAGES" by (simp add: LANGUAGES_def language_entry_def)
  ultimately show ?thesis by (auto simp: list_all_iff)
qed

text \<open>A message as its pieces: a character that stands for itself, or a placeholder.\<close>

datatype piece = Lit char | Hole string

fun pieces :: "string \<Rightarrow> piece list" where
  "pieces [] = []"
| "pieces (c # cs) =
     (case (if c = CHR ''{'' then placeholder cs else None) of
        Some (name, after) \<Rightarrow> Hole name # pieces after
      | None \<Rightarrow> Lit c # pieces cs)"

fun written :: "(string \<Rightarrow> string option) \<Rightarrow> piece \<Rightarrow> string" where
  "written v (Lit c) = [c]"
| "written v (Hole name) = or_else (v name) (CHR ''{'' # name @ [CHR ''}''])"

lemma fill_pieces: "fill v m = concat (map (written v) (pieces m))"
proof (induction m rule: pieces.induct)
  case (2 c cs)
  then show ?case by (cases "if c = CHR ''{'' then placeholder cs else None") auto
qed simp

lemma pieces_message: "concat (map (written (\<lambda>_. None)) (pieces m)) = m"
proof (induction m rule: pieces.induct)
  case (2 c cs)
  then show ?case
    by (cases "if c = CHR ''{'' then placeholder cs else None") (auto split: if_splits dest: placeholder_Some)
qed simp

lemma hole_names: "Hole name \<in> set (pieces m) \<Longrightarrow> name \<noteq> [] \<and> list_all word_char name"
proof (induction m rule: pieces.induct)
  case (2 c cs)
  then show ?case
    by (cases "if c = CHR ''{'' then placeholder cs else None") (auto split: if_splits dest: placeholder_Some)
qed simp

lemma brace_not_word: "\<not> word_char (CHR ''}'')"
  by (simp add: word_char_def lower_letters_def upper_letters_def digits_def)

lemma fill_hole:
  assumes "name \<noteq> []" "list_all word_char name"
  shows "fill v (CHR ''{'' # name @ CHR ''}'' # w) = or_else (v name) (CHR ''{'' # name @ [CHR ''}'']) @ fill v w"
proof -
  have "takeWhile word_char (name @ CHR ''}'' # w) = name" "dropWhile word_char (name @ CHR ''}'' # w) = CHR ''}'' # w"
    using assms(2) brace_not_word by (simp_all add: list_all_iff takeWhile_append2 dropWhile_append2)
  then have "placeholder (name @ CHR ''}'' # w) = Some (name, w)" using assms(1) by (simp add: placeholder_def)
  then show ?thesis by simp
qed

lemma fill_plain: "CHR ''{'' \<notin> set u \<Longrightarrow> fill v (u @ w) = u @ fill v w"
  by (induction u) auto

section \<open>Properties\<close>

text \<open>C37: Every placeholder of a message whose name is among the parameters is replaced by its value, exactly
  once: what is replaced is decided by the message alone, so text inside a value - also a
  placeholder in it - is shown as it is, and everything else of the message is kept.\<close>

theorem placeholders_filled_once:
  "(\<exists>ps. m = concat (map (written (\<lambda>_. None)) ps) \<and> (\<forall>v. fill v m = concat (map (written v) ps))
      \<and> (\<forall>name. Hole name \<in> set ps \<longrightarrow> name \<noteq> [] \<and> list_all word_char name))
   \<and> (\<forall>u name w v. CHR ''{'' \<notin> set u \<and> name \<noteq> [] \<and> list_all word_char name \<longrightarrow>
        fill v (u @ CHR ''{'' # name @ CHR ''}'' # w) = u @ or_else (v name) (CHR ''{'' # name @ [CHR ''}'']) @ fill v w)"
proof (intro conjI)
  show "\<exists>ps. m = concat (map (written (\<lambda>_. None)) ps) \<and> (\<forall>v. fill v m = concat (map (written v) ps))
      \<and> (\<forall>name. Hole name \<in> set ps \<longrightarrow> name \<noteq> [] \<and> list_all word_char name)"
    using pieces_message fill_pieces hole_names by metis
  show "\<forall>u name w v. CHR ''{'' \<notin> set u \<and> name \<noteq> [] \<and> list_all word_char name \<longrightarrow>
        fill v (u @ CHR ''{'' # name @ CHR ''}'' # w) = u @ or_else (v name) (CHR ''{'' # name @ [CHR ''}'']) @ fill v w"
    using fill_plain fill_hole by simp
qed

theorem placeholders_filled_once_witness:
  "fill (\<lambda>name. Some ''{count}'') (''Delete '' @ CHR ''{'' # ''name'' @ CHR ''}'' # []) = ''Delete '' @ ''{count}''"
proof -
  have "CHR ''{'' \<notin> set ''Delete '' \<and> ''name'' \<noteq> [] \<and> list_all word_char ''name''"
    by (simp add: word_char_def lower_letters_def)
  with conjunct2 [OF placeholders_filled_once [of "[]"], rule_format, of "''Delete ''" "''name''" "\<lambda>name. Some ''{count}''" "[]"]
  show ?thesis by (simp only: fill.simps(1) or_else_simps append_Nil2 simp_thms)
qed

text \<open>A language picked in the settings, or following the system, is kept: at the next start the same choice
  is loaded, the root element has the same language and direction before the first frame as it had
  after the choice, and the provider's first effect changes nothing.  The language shown is always
  one the app has, and the page runs from right to left exactly in Persian.\<close>

theorem language_survives_restart:
  assumes "c = ''system'' \<or> known_language c"
    and "v = language_effect preferred (set_choice True c (opened_i18n preferred stored))"
    and "w = opened_i18n preferred (in_stored v)"
  shows "in_choice w = c \<and> in_lang w = in_lang v \<and> in_dir w = in_dir v
    \<and> in_lang (language_effect preferred w) = in_lang w \<and> in_dir (language_effect preferred w) = in_dir w
    \<and> known_language (chosen_language preferred c) \<and> in_told v = [chosen_language preferred c]
    \<and> provider_dir preferred v = in_dir v \<and> (in_dir v = Rtl \<longleftrightarrow> chosen_language preferred c = ''fa'')"
proof -
  let ?l = "chosen_language preferred c"
  have k: "known_language ?l" using chosen_known [OF assms(1)] .
  then obtain l where l: "entry_of ?l = Some l" using known_entry by blast
  have v: "in_choice v = c" "in_stored v = Some c" "in_lang v = lg_tag l" "in_dir v = lg_dir l" "in_told v = [?l]"
    unfolding assms(2) by (simp_all add: language_effect_def set_choice_def Let_def l opened_i18n_def split: prod.split)
  have w: "in_choice w = c" "in_lang w = lg_tag l" "in_dir w = lg_dir l"
    unfolding assms(3) v by (simp_all add: opened_i18n_def boot_language_def current_language_def load_choice_id [OF assms(1)] l)
  show ?thesis using k v w l rtl_iff [OF l] by (simp add: language_effect_def Let_def provider_dir_def)
qed

theorem language_survives_restart_witness:
  "in_dir (opened_i18n [''uk-UA''] (in_stored (language_effect [''uk-UA''] (set_choice True ''fa'' (opened_i18n [''uk-UA''] None))))) = Rtl"
  using language_survives_restart [of "''fa''", OF _ refl refl, of "[''uk-UA'']" None]
  by (simp add: language_ids chosen_language_def)

text \<open>A message that a catalogue lacks is the English one, a plural form it lacks its general one.\<close>

theorem message_falls_back:
  "translate i catalog en language key None =
     (case or_else (catalog language key) (en key) of
        Plain s \<Rightarrow> s
      | Counted p \<Rightarrow> or_else (case it_form i language (Fin 0) of Zero \<Rightarrow> pl_zero p | One \<Rightarrow> pl_one p | Two \<Rightarrow> pl_two p | Few \<Rightarrow> pl_few p
          | Many \<Rightarrow> pl_many p | Other \<Rightarrow> None) (pl_other p))"
  by (simp add: translate_def message_text_def count_of_def Let_def split: message.split plural_form.split)

end
