(* ===== verification/Statistics.thy ===== *)
theory Statistics
  imports Traffic_Apps Format Profiles
begin

text \<open>
  The Statistics page (components/views/StatisticsView.tsx): the numbers read for each period and
  which of them are on screen, the charts of traffic by day and by application, and the servers
  with their record of checks.  Texts come from \<open>t\<close>, an argument; the length of the circle the
  shares are drawn on (\<open>2 * Math.PI * 40\<close>) is an argument too, as are the calendar (the month a
  day is in) and \<open>localeCompare\<close>.
\<close>

section \<open>What the page has read\<close>

record usage_day =
  ud_day :: string
  ud_up :: nat
  ud_down :: nat

record app_usage =
  au_programs :: "program_usage list"
  au_days :: "usage_day list"

definition PERIODS :: "(nat \<times> string) list" where
  "PERIODS = [(1, ''stats.today''), (7, ''stats.week''), (30, ''stats.month'')]"

text \<open>
  \<open>usageCache\<close> and \<open>healthCache\<close> outlive the page; the rest is its own state.  \<open>sv_shown\<close> is the
  ref that keeps the last numbers drawn.
\<close>

record stats_view =
  sv_days :: nat
  sv_shown :: "(nat \<times> app_usage) option"
  sv_usage :: "(nat, app_usage) omap"
  sv_health :: "(string, server_health_info) omap"
  sv_confirm :: bool
  sv_all :: bool

datatype stats_call = GetAppUsage nat | GetServerHealth | ClearStatistics

definition draw_usage :: "stats_view \<Rightarrow> stats_view" where
  "draw_usage v = (case om_get (sv_usage v) (sv_days v) of
     Some data \<Rightarrow> v\<lparr>sv_shown := Some (sv_days v, data)\<rparr> | None \<Rightarrow> v)"

definition load_calls :: "stats_view \<Rightarrow> stats_call list" where
  "load_calls v = [GetAppUsage (sv_days v), GetServerHealth]"

definition opening_calls :: "bool \<Rightarrow> stats_view \<Rightarrow> stats_call list" where
  "opening_calls visible v =
     map GetAppUsage (filter (\<lambda>d. d \<noteq> sv_days v) (map fst PERIODS)) @ (if visible then load_calls v else [])"

datatype stats_event =
    ChoosePeriod nat
  | UsageRead nat app_usage
  | HealthRead "(string, server_health_info) omap option"
  | ReadFailed
  | Tick
  | ToggleAll
  | AskClear
  | CancelClear
  | ConfirmClear
  | Cleared
  | ClearFailed

definition clear_answered :: "stats_view \<Rightarrow> stats_view \<times> stats_call list" where
  "clear_answered v = (v\<lparr>sv_usage := []\<rparr>, map GetAppUsage (map fst PERIODS) @ load_calls v)"

definition stats_step :: "stats_event \<Rightarrow> stats_view \<Rightarrow> stats_view \<times> stats_call list" where
  "stats_step e v = (case e of
     ChoosePeriod d \<Rightarrow> let v' = draw_usage (v\<lparr>sv_days := d, sv_all := False\<rparr>) in
       (v', if d = sv_days v then [] else load_calls v')
   | UsageRead d data \<Rightarrow> (draw_usage (v\<lparr>sv_usage := om_set (sv_usage v) d data\<rparr>), [])
   | HealthRead value \<Rightarrow> (draw_usage (v\<lparr>sv_health := or_else value []\<rparr>), [])
   | ReadFailed \<Rightarrow> (v, [])
   | Tick \<Rightarrow> (v, load_calls v)
   | ToggleAll \<Rightarrow> (draw_usage (v\<lparr>sv_all := \<not> sv_all v\<rparr>), [])
   | AskClear \<Rightarrow> (draw_usage (v\<lparr>sv_confirm := True\<rparr>), [])
   | CancelClear \<Rightarrow> (draw_usage (v\<lparr>sv_confirm := False\<rparr>), [])
   | ConfirmClear \<Rightarrow> (draw_usage (v\<lparr>sv_confirm := False\<rparr>), [ClearStatistics])
   | Cleared \<Rightarrow> clear_answered v
   | ClearFailed \<Rightarrow> (v, []))"

definition opened_stats :: "(nat, app_usage) omap \<Rightarrow> (string, server_health_info) omap \<Rightarrow> nat \<Rightarrow> stats_view" where
  "opened_stats usage health d =
     draw_usage \<lparr>sv_days = d, sv_shown = None, sv_usage = usage, sv_health = health, sv_confirm = False, sv_all = False\<rparr>"

definition stats_run :: "stats_event list \<Rightarrow> stats_view \<Rightarrow> stats_view" where
  "stats_run es v = foldl (\<lambda>v e. fst (stats_step e v)) v es"

text \<open>
  The reference: the numbers last read for a period since the statistics were last cleared, the
  latest event first; before the first event they are those of the previous visit.
\<close>

fun answered :: "(nat, app_usage) omap \<Rightarrow> nat \<Rightarrow> stats_event list \<Rightarrow> app_usage option" where
  "answered before d [] = om_get before d"
| "answered before d (UsageRead p data # es) = (if p = d then Some data else answered before d es)"
| "answered before d (Cleared # es) = None"
| "answered before d (e # es) = answered before d es"

lemma draw_usage_simps [simp]:
  "sv_usage (draw_usage v) = sv_usage v" "sv_days (draw_usage v) = sv_days v"
  "sv_health (draw_usage v) = sv_health v"
  "om_get (sv_usage v) (sv_days v) = Some data \<Longrightarrow> sv_shown (draw_usage v) = Some (sv_days v, data)"
  by (simp_all add: draw_usage_def split: option.split)

definition stats_ok :: "(nat, app_usage) omap \<Rightarrow> stats_event list \<Rightarrow> stats_view \<Rightarrow> bool" where
  "stats_ok before es v \<longleftrightarrow> (\<forall>d. om_get (sv_usage v) d = answered before d es)
     \<and> (\<forall>data. om_get (sv_usage v) (sv_days v) = Some data \<longrightarrow> sv_shown v = Some (sv_days v, data))"

lemma stats_step_ok:
  assumes "stats_ok before es v"
  shows "stats_ok before (e # es) (fst (stats_step e v))"
  using assms by (cases e) (simp_all add: stats_ok_def stats_step_def clear_answered_def Let_def om_simps)

lemma stats_run_ok: "stats_ok before (rev es) (stats_run es (opened_stats before health d))"
proof (induction es rule: rev_induct)
  case (snoc e es)
  then show ?case using stats_step_ok by (simp add: stats_run_def)
qed (simp add: stats_ok_def stats_run_def opened_stats_def om_simps)

section \<open>Traffic by day\<close>

definition js_max :: "rat \<Rightarrow> rat list \<Rightarrow> rat" where
  "js_max least xs = foldl max least xs"

definition day_total :: "usage_day \<Rightarrow> rat" where
  "day_total d = of_nat (ud_up d + ud_down d)"

definition largest_day :: "usage_day list \<Rightarrow> rat" where
  "largest_day days = js_max 1 (map day_total days)"

text \<open>The two parts of a bar, in per cent of the chart's height, and whether it is a bare line.\<close>

definition day_bar :: "usage_day list \<Rightarrow> usage_day \<Rightarrow> rat \<times> rat \<times> bool" where
  "day_bar days d = (of_nat (ud_down d) / largest_day days * 100, of_nat (ud_up d) / largest_day days * 100,
     ud_up d + ud_down d = 0)"

datatype day_label = NoLabel | WeekdayOf string | DayNumber string | DayAndMonth string

fun month_labels :: "(string \<Rightarrow> nat) \<Rightarrow> nat option \<Rightarrow> usage_day list \<Rightarrow> day_label list" where
  "month_labels month last_month [] = []"
| "month_labels month last_month (d # ds) =
     (if length ds mod 5 \<noteq> 0 then NoLabel # month_labels month last_month ds
      else (if last_month \<noteq> Some (month (ud_day d)) then DayAndMonth (ud_day d) else DayNumber (ud_day d))
        # month_labels month (Some (month (ud_day d))) ds)"

definition day_labels :: "(string \<Rightarrow> nat) \<Rightarrow> usage_day list \<Rightarrow> day_label list" where
  "day_labels month days =
     (if length days \<le> 7 then map (\<lambda>d. WeekdayOf (ud_day d)) days else month_labels month None days)"

lemma js_max_Max: "js_max least xs = Max (insert least (set xs))"
proof -
  have "foldl max least xs = fold max xs least" for least :: rat
    by (induction xs arbitrary: least) (simp_all add: max.commute)
  then show ?thesis by (simp add: js_max_def Max.set_eq_fold [symmetric])
qed

lemma js_max_ge: "least \<le> js_max least xs" "x \<in> set xs \<Longrightarrow> x \<le> js_max least xs"
  by (simp_all add: js_max_Max)

lemma largest_day_pos: "1 \<le> largest_day days"
  by (simp add: largest_day_def js_max_ge)

lemma length_month_labels [simp]: "length (month_labels month m days) = length days"
  by (induction days arbitrary: m) simp_all

lemma month_labels_unlabelled:
  "i < length days \<Longrightarrow> month_labels month m days ! i = NoLabel \<longleftrightarrow> (length days - 1 - i) mod 5 \<noteq> 0"
proof (induction days arbitrary: m i)
  case (Cons d ds)
  then show ?case by (cases i) simp_all
qed simp

text \<open>The month the label before position \<open>i\<close> was in, if there is one.\<close>

lemma month_labels_named:
  "i < length days \<Longrightarrow> (length days - 1 - i) mod 5 = 0 \<Longrightarrow>
     month_labels month m days ! i =
       (if (if i < 5 then m else Some (month (ud_day (days ! (i - 5))))) = Some (month (ud_day (days ! i)))
        then DayNumber (ud_day (days ! i)) else DayAndMonth (ud_day (days ! i)))"
proof (induction days arbitrary: m i)
  case (Cons d ds)
  show ?case
  proof (cases i)
    case 0
    with Cons.prems show ?thesis by simp
  next
    case (Suc j)
    with Cons.prems have j: "j < length ds" "(length ds - 1 - j) mod 5 = 0" by simp_all
    show ?thesis
    proof (cases "length ds mod 5 = 0")
      case True
      have "(length ds - 1 - j) mod 5 = 0 \<Longrightarrow> length ds mod 5 = 0 \<Longrightarrow> (j + 1) mod 5 = 0"
        using j(1) by presburger
      with j True have "4 \<le> j" by presburger
      then show ?thesis using Cons.IH [OF j, of "Some (month (ud_day d))"] True Suc
        by (cases "j = 4") (auto simp: nth_Cons')
    next
      case False
      then have "j \<noteq> 4" using j by presburger
      then show ?thesis using Cons.IH [OF j, of m] False Suc by (auto simp: nth_Cons')
    qed
  qed
qed simp

section \<open>The last day of checks\<close>

definition pings_of :: "health_sample list \<Rightarrow> health_sample list" where
  "pings_of samples = filter (\<lambda>s. hs_kind s = PingSample \<and> 0 \<le> hs_ms s) samples"

definition failures_of :: "health_sample list \<Rightarrow> health_sample list" where
  "failures_of samples = filter (\<lambda>s. hs_ms s < 0 \<or> hs_kind s = DropSample) samples"

definition highest_ping :: "health_sample list \<Rightarrow> rat" where
  "highest_ping samples = js_max 50 (map hs_ms (pings_of samples))"

definition time_x :: "rat \<Rightarrow> rat \<Rightarrow> rat" where
  "time_x now moment = (let from = now - 24 * 3600 in (moment - from) / (now - from) * 100)"

definition ping_y :: "rat \<Rightarrow> rat \<Rightarrow> rat" where
  "ping_y highest ms = 22 - ms / highest * 18"

text \<open>The points of the line, drawn where there are two or more, and the places of the red marks.\<close>

definition timeline :: "rat \<Rightarrow> health_sample list \<Rightarrow> (rat \<times> rat) list \<times> rat list" where
  "timeline now samples =
     (let pings = pings_of samples in
      (if 1 < length pings then map (\<lambda>s. (time_x now (of_int (hs_at s)), ping_y (highest_ping samples) (hs_ms s))) pings else [],
       map (\<lambda>s. time_x now (of_int (hs_at s))) (failures_of samples)))"

lemma ping_y_bounds:
  assumes "0 \<le> ms" "ms \<le> highest" "0 < highest"
  shows "4 \<le> ping_y highest ms" "ping_y highest ms \<le> 22"
proof -
  have "0 \<le> ms / highest" "ms / highest \<le> 1" using assms by simp_all
  then show "4 \<le> ping_y highest ms" "ping_y highest ms \<le> 22" unfolding ping_y_def by linarith+
qed

lemma time_x_bounds: "now - 86400 \<le> moment \<Longrightarrow> moment \<le> now \<Longrightarrow> 0 \<le> time_x now moment \<and> time_x now moment \<le> 100"
  by (simp add: time_x_def Let_def)

section \<open>Traffic by application\<close>

definition SLICES :: nat where
  "SLICES = 7"

record slice =
  sl_key :: string
  sl_label :: string
  sl_size :: nat
  sl_series :: "nat option"

definition OTHER_KEY :: string where
  "OTHER_KEY = CHR 0x00 # ''other''"

definition program_label :: "(string \<Rightarrow> string) \<Rightarrow> (string, string) omap \<Rightarrow> string \<Rightarrow> string" where
  "program_label t labels program =
     (if program = SYSTEM_PROGRAM then t ''connections.system''
      else if program = [] then t ''stats.unknownApp''
      else case om_get labels program of
        Some l \<Rightarrow> if l = [] then strip_exe program else l
      | None \<Rightarrow> strip_exe program)"

definition row_size :: "program_row \<Rightarrow> nat" where
  "row_size r = pr_up r + pr_down r"

definition chart_slices :: "(string \<Rightarrow> string) \<Rightarrow> (string, string) omap \<Rightarrow> program_row list \<Rightarrow> slice list" where
  "chart_slices t labels programs =
     (let ranked = js_sort (desc_by row_total) programs;
          own = map (\<lambda>(i, r). \<lparr>sl_key = pr_program r, sl_label = program_label t labels (pr_program r),
                  sl_size = row_size r, sl_series = Some (i + 1)\<rparr>) (enumerate 0 (take SLICES ranked));
          rest = foldl (\<lambda>sum r. sum + pr_up r + pr_down r) 0 (drop SLICES ranked)
      in if 0 < rest
         then own @ [\<lparr>sl_key = OTHER_KEY, sl_label = t ''stats.other'', sl_size = rest, sl_series = None\<rparr>]
         else own)"

definition traffic_total :: "program_row list \<Rightarrow> nat \<times> nat" where
  "traffic_total programs = foldl (\<lambda>(up, down) r. (up + pr_up r, down + pr_down r)) (0, 0) programs"

definition largest_program :: "program_row list \<Rightarrow> rat" where
  "largest_program programs = js_max 1 (map (\<lambda>r. of_nat (row_size r)) programs)"

text \<open>How much of its row a program's bar takes, in per cent.\<close>

definition program_bar :: "program_row list \<Rightarrow> program_row \<Rightarrow> rat" where
  "program_bar programs r = max 1 (of_nat (row_size r) / largest_program programs * 100)"

definition listed_programs :: "bool \<Rightarrow> program_row list \<Rightarrow> program_row list" where
  "listed_programs show_all programs = (if show_all then programs else take 8 programs)"

text \<open>A slice on the circle: the length of the dash, the gap after it and where it starts.\<close>

fun chart_arcs :: "rat \<Rightarrow> rat \<Rightarrow> nat \<Rightarrow> rat \<Rightarrow> slice list \<Rightarrow> (rat \<times> rat \<times> rat) list" where
  "chart_arcs circumference gap whole offset [] = []"
| "chart_arcs circumference gap whole offset (s # ss) =
     (let length = of_nat (sl_size s) / of_nat whole * circumference;
          dash = max (4 / 10) (length - gap)
      in (dash, circumference - dash, offset) # chart_arcs circumference gap whole (offset + length) ss)"

definition share_chart :: "rat \<Rightarrow> nat \<Rightarrow> slice list \<Rightarrow> (rat \<times> rat \<times> rat) list" where
  "share_chart circumference whole slices =
     chart_arcs circumference (if 1 < length slices then 12 / 10 else 0) whole 0 slices"

lemma row_total_size: "row_total r = int (row_size r)"
  by (simp add: row_total_def row_size_def)

lemma foldl_rest: "foldl (\<lambda>sum r. sum + pr_up r + pr_down r) n rs = n + sum_list (map row_size rs)"
  by (induction rs arbitrary: n) (simp_all add: row_size_def)

lemma traffic_total_eq: "traffic_total ps = (sum_list (map pr_up ps), sum_list (map pr_down ps))"
proof -
  have "foldl (\<lambda>(up, down) r. (up + pr_up r, down + pr_down r)) (u, d) ps
      = (u + sum_list (map pr_up ps), d + sum_list (map pr_down ps))" for u d
    by (induction ps arbitrary: u d) simp_all
  then show ?thesis by (simp add: traffic_total_def)
qed

lemma sum_row_size: "sum_list (map row_size ps) = sum_list (map pr_up ps) + sum_list (map pr_down ps)"
  by (induction ps) (simp_all add: row_size_def)

lemma chart_slices_sizes:
  "map sl_size (chart_slices t labels ps) =
     (let ranked = js_sort (desc_by row_total) ps; rest = sum_list (map row_size (drop SLICES ranked))
      in map row_size (take SLICES ranked) @ (if 0 < rest then [rest] else []))"
proof -
  have m: "map sl_size (map (\<lambda>(i, r). \<lparr>sl_key = pr_program r, sl_label = program_label t labels (pr_program r),
      sl_size = row_size r, sl_series = Some (i + 1)\<rparr>) (enumerate n rs)) = map row_size rs" for n rs
    by (induction rs arbitrary: n) simp_all
  show ?thesis
    by (cases "0 < sum_list (map row_size (drop SLICES (js_sort (desc_by row_total) ps)))")
      (simp_all only: chart_slices_def Let_def foldl_rest m map_append list.map slice.select_convs if_True if_False
        append_Nil2 add_0)
qed

lemma chart_slices_sum: "sum_list (map sl_size (chart_slices t labels ps)) = sum_list (map row_size ps)"
proof -
  let ?r = "js_sort (desc_by row_total) ps"
  have "sum_list (map row_size (take SLICES ?r)) + sum_list (map row_size (drop SLICES ?r)) = sum_list (map row_size ?r)"
    by (metis append_take_drop_id map_append sum_list_append)
  then have "sum_list (map row_size (take SLICES ?r)) + sum_list (map row_size (drop SLICES ?r)) = sum_list (map row_size ps)"
    by (simp only: sum_list_js_sort)
  moreover have "sum_list (xs @ (if 0 < n then [n] else [])) = sum_list xs + n" for xs and n :: nat
    by simp
  ultimately show ?thesis by (simp only: chart_slices_sizes Let_def)
qed

text \<open>Each arc starts where the ones before it end.\<close>

lemma chart_arcs_nth:
  "i < length ss \<Longrightarrow> snd (snd (chart_arcs c gap whole offset ss ! i))
     = offset + of_nat (sum_list (map sl_size (take i ss))) / of_nat whole * c"
proof (induction ss arbitrary: i offset)
  case (Cons s ss)
  then show ?case by (cases i) (simp_all add: Let_def add_divide_distrib distrib_right)
qed simp

lemma length_chart_arcs [simp]: "length (chart_arcs c gap whole offset ss) = length ss"
  by (induction ss arbitrary: offset) (simp_all add: Let_def)

definition share_text :: "nat \<Rightarrow> nat \<Rightarrow> string" where
  "share_text whole mine =
     (let part = of_nat mine / (of_nat whole :: rat) in
      (if 1 / 10 \<le> part then nat_str (nat (js_round (part * 100))) else to_fixed 1 (part * 100)) @ ''%'')"

text \<open>What stands in the middle of the circle: the slice under the pointer, or the total.\<close>

definition chart_centre :: "(string \<Rightarrow> string) \<Rightarrow> (nat \<Rightarrow> string) \<Rightarrow> nat \<Rightarrow> string option \<Rightarrow> slice list \<Rightarrow> string \<times> string" where
  "chart_centre t bytes whole active slices =
     (case find (\<lambda>s. Some (sl_key s) = active) slices of
        Some s \<Rightarrow> (share_text whole (sl_size s), sl_label s)
      | None \<Rightarrow> (bytes whole, t ''stats.total''))"

definition shows_days :: "string \<Rightarrow> nat \<Rightarrow> bool" where
  "shows_days chart days \<longleftrightarrow> 1 < days \<and> chart \<noteq> ''share''"

definition charted_days :: "(nat \<times> app_usage) option \<Rightarrow> usage_day list" where
  "charted_days shown = (case shown of Some (d, data) \<Rightarrow> if 1 < d then au_days data else [] | None \<Rightarrow> [])"

definition shows_share :: "string \<Rightarrow> nat \<Rightarrow> program_row list \<Rightarrow> bool" where
  "shows_share chart days programs \<longleftrightarrow> (chart \<noteq> ''days'' \<or> days = 1) \<and> programs \<noteq> []
     \<and> 0 < fst (traffic_total programs) + snd (traffic_total programs)"

section \<open>Servers\<close>

definition by_id :: "profile list \<Rightarrow> (string, profile) omap" where
  "by_id ps = foldl (\<lambda>m p. om_set m (p_id p) p) [] ps"

definition health_le :: "(string \<Rightarrow> string \<Rightarrow> bool) \<Rightarrow> profile \<times> server_health_info \<Rightarrow> profile \<times> server_health_info \<Rightarrow> bool" where
  "health_le lc a b =
     (if sh_failing (snd a) \<noteq> sh_failing (snd b) then sh_failing (snd a)
      else if sh_uptime_24h (snd a) \<noteq> sh_uptime_24h (snd b) then sh_uptime_24h (snd a) < sh_uptime_24h (snd b)
      else lc (p_name (fst a)) (p_name (fst b)))"

definition health_rows :: "(string \<Rightarrow> string \<Rightarrow> bool) \<Rightarrow> profile list \<Rightarrow> (string, server_health_info) omap
    \<Rightarrow> (profile \<times> server_health_info) list" where
  "health_rows lc ps health =
     js_sort (health_le lc) (List.map_filter (\<lambda>(k, info). map_option (\<lambda>p. (p, info)) (om_get (by_id ps) k)) health)"

text \<open>No text stands for the dash shown when there were no checks.\<close>

definition percent :: "rat \<Rightarrow> string option" where
  "percent v = (if v < 0 then None else Some (nat_str (nat (js_round (v * 100))) @ ''%''))"

definition low_uptime :: "server_health_info \<Rightarrow> bool" where
  "low_uptime info \<longleftrightarrow> 0 \<le> sh_uptime_24h info \<and> sh_uptime_24h info < 9 / 10"

definition latency_text :: "(rat \<Rightarrow> string) \<Rightarrow> server_health_info \<Rightarrow> string option" where
  "latency_text show info =
     (if sh_latency_ms info \<noteq> 0 then Some (show (sh_latency_ms info) @ '' ms'') else None)"

section \<open>Properties\<close>

text \<open>Whatever happens on the Statistics page - periods chosen, answers arriving late, failing or in any
  order, the numbers cleared - once the chosen period has been read since the last clearing, the
  numbers on screen are those of that period and the last ones read for it, and a period that is
  cleared and not read again has none remembered.\<close>

theorem shown_period_is_last_read:
  "(case answered before (sv_days (stats_run es (opened_stats before health d)))
        (rev es) of
      Some data \<Rightarrow> sv_shown (stats_run es (opened_stats before health d))
         = Some (sv_days (stats_run es (opened_stats before health d)), data)
    | None \<Rightarrow> om_get (sv_usage (stats_run es (opened_stats before health d)))
         (sv_days (stats_run es (opened_stats before health d))) = None)"
  using stats_run_ok [of before es health d] by (simp add: stats_ok_def split: option.split)

text \<open>C35: The shares drawn on the Statistics page account for all of the period's traffic: at most eight slices,
  whose sizes add up to everything sent and received; each arc starts where the one before it ends, and
  the last ends where the circle does.\<close>

theorem slices_fill_circle:
  fixes t labels show_system
  assumes "0 < sum_list (map pu_up us) + sum_list (map pu_down us)"
  defines "slices \<equiv> chart_slices t labels (group_traffic_apps us show_system)"
    and "whole \<equiv> sum_list (map pu_up us) + sum_list (map pu_down us)"
  shows "traffic_total (group_traffic_apps us show_system) = (sum_list (map pu_up us), sum_list (map pu_down us))
    \<and> length slices \<le> 8 \<and> sum_list (map sl_size slices) = whole
    \<and> length (share_chart circumference whole slices) = length slices
    \<and> (\<forall>i < length slices. snd (snd (share_chart circumference whole slices ! i))
         = of_nat (sum_list (map sl_size (take i slices))) / of_nat whole * circumference)
    \<and> of_nat (sum_list (map sl_size slices)) / of_nat whole * circumference = circumference"
proof -
  have g: "sum_list (map pr_up (group_traffic_apps us show_system)) = sum_list (map pu_up us)"
    "sum_list (map pr_down (group_traffic_apps us show_system)) = sum_list (map pu_down us)"
    by (simp_all add: group_traffic_apps_def group_total)
  have s: "sum_list (map sl_size slices) = whole"
    by (simp add: slices_def whole_def chart_slices_sum sum_row_size g)
  have "length slices = length (map sl_size slices)" by simp
  also have "\<dots> \<le> 8" unfolding slices_def chart_slices_sizes by (auto simp: Let_def SLICES_def)
  finally have "length slices \<le> 8" .
  moreover have "of_nat (sum_list (map sl_size slices)) / of_nat whole * circumference = circumference"
  proof -
    from assms(1) have "(of_nat whole :: rat) \<noteq> 0" unfolding whole_def by (simp only: of_nat_eq_0_iff)
    then show ?thesis unfolding s by simp
  qed
  ultimately show ?thesis using s by (simp add: traffic_total_eq g share_chart_def chart_arcs_nth)
qed

theorem slices_fill_circle_witness:
  "sum_list (map sl_size (chart_slices (\<lambda>k. k) [] (group_traffic_apps [\<lparr>pu_program = ''curl'', pu_up = 1, pu_down = 2\<rparr>] True))) = 3"
  using slices_fill_circle [where us = "[\<lparr>pu_program = ''curl'', pu_up = 1, pu_down = 2\<rparr>]" and t = "\<lambda>k. k"
      and labels = "[]" and show_system = True and circumference = 251] by simp

text \<open>Under a month of bars every fifth day counted back from today has its number, the others none; the
  month is named by the first number and exactly where it differs from the month of the number before.\<close>

theorem month_named_where_it_starts:
  assumes "7 < length days" "i < length days"
  shows "day_labels month days ! i =
    (if (length days - 1 - i) mod 5 \<noteq> 0 then NoLabel
     else if 5 \<le> i \<and> month (ud_day (days ! (i - 5))) = month (ud_day (days ! i)) then DayNumber (ud_day (days ! i))
     else DayAndMonth (ud_day (days ! i)))"
  using assms month_labels_unlabelled [of i days month None] month_labels_named [of i days month None]
  by (simp add: day_labels_def)

theorem month_named_where_it_starts_witness:
  "day_labels length (replicate 30 \<lparr>ud_day = ''2024-05-01'', ud_up = 0, ud_down = 0\<rparr>) ! 9
     = DayNumber ''2024-05-01''"
  using month_named_where_it_starts [of "replicate 30 \<lparr>ud_day = ''2024-05-01'', ud_up = 0, ud_down = 0\<rparr>" 9 length]
  by simp

text \<open>Nothing on the Statistics page is drawn outside its frame: a day's two bars together never exceed the
  chart, a program's bar never its row, and a ping of the last day lies within the strip
  it is drawn on.\<close>

theorem charts_stay_in_frame:
  "(day \<in> set days \<longrightarrow> fst (day_bar days day) + fst (snd (day_bar days day)) \<le> 100)
    \<and> (r \<in> set programs \<longrightarrow> 1 \<le> program_bar programs r \<and> program_bar programs r \<le> 100)
    \<and> (s \<in> set (pings_of samples) \<and> now - 86400 \<le> of_int (hs_at s) \<and> of_int (hs_at s) \<le> now \<longrightarrow>
         0 \<le> time_x now (of_int (hs_at s)) \<and> time_x now (of_int (hs_at s)) \<le> 100
         \<and> 4 \<le> ping_y (highest_ping samples) (hs_ms s) \<and> ping_y (highest_ping samples) (hs_ms s) \<le> 22)"
proof (intro conjI impI)
  assume "day \<in> set days"
  then have "day_total day \<le> largest_day days" by (simp add: largest_day_def js_max_ge)
  then have "of_nat (ud_down day) + of_nat (ud_up day) \<le> largest_day days" by (simp add: day_total_def)
  then have "(of_nat (ud_down day) + of_nat (ud_up day)) / largest_day days \<le> 1"
    using largest_day_pos [of days] by (simp add: divide_le_eq)
  moreover have "fst (day_bar days day) + fst (snd (day_bar days day))
      = (of_nat (ud_down day) + of_nat (ud_up day)) / largest_day days * 100"
    by (simp only: day_bar_def fst_conv snd_conv add_divide_distrib distrib_right)
  ultimately show "fst (day_bar days day) + fst (snd (day_bar days day)) \<le> 100"
    using mult_right_mono [of _ 1 "100 :: rat"] by (simp only: mult_1)
next
  assume "r \<in> set programs"
  then have "of_nat (row_size r) \<le> largest_program programs" by (simp add: largest_program_def js_max_ge)
  moreover have "1 \<le> largest_program programs" by (simp add: largest_program_def js_max_ge)
  ultimately show "program_bar programs r \<le> 100" by (simp add: program_bar_def divide_le_eq)
  show "1 \<le> program_bar programs r" by (simp add: program_bar_def)
next
  assume s: "s \<in> set (pings_of samples) \<and> now - 86400 \<le> of_int (hs_at s) \<and> of_int (hs_at s) \<le> now"
  then have "hs_ms s \<le> highest_ping samples" "50 \<le> highest_ping samples" by (simp_all add: highest_ping_def js_max_ge)
  moreover from s have "0 \<le> hs_ms s" by (simp add: pings_of_def)
  ultimately show "4 \<le> ping_y (highest_ping samples) (hs_ms s)" "ping_y (highest_ping samples) (hs_ms s) \<le> 22"
    by (simp_all add: ping_y_bounds)
  from s show "0 \<le> time_x now (of_int (hs_at s))" "time_x now (of_int (hs_at s)) \<le> 100"
    by (simp_all add: time_x_bounds)
qed

theorem charts_stay_in_frame_witness:
  "program_bar [\<lparr>pr_program = ''curl'', pr_up = 1, pr_down = 2, pr_icon = ''curl''\<rparr>]
     \<lparr>pr_program = ''curl'', pr_up = 1, pr_down = 2, pr_icon = ''curl''\<rparr> \<le> 100"
  using charts_stay_in_frame [of "\<lparr>ud_day = [], ud_up = 0, ud_down = 0\<rparr>" "[]" "\<lparr>pr_program = ''curl'', pr_up = 1, pr_down = 2, pr_icon = ''curl''\<rparr>"
    "[\<lparr>pr_program = ''curl'', pr_up = 1, pr_down = 2, pr_icon = ''curl''\<rparr>]" "\<lparr>hs_at = 0, hs_kind = PingSample, hs_ms = 1\<rparr>" "[]" 0]
  by simp

text \<open>The order of the servers is one \<open>js_sort\<close> can rely on.\<close>

sublocale collation \<subseteq> health: comparator "health_le compare_le"
  by unfold_locales (use le_total le_trans in \<open>auto simp: health_le_def split: if_splits\<close>)

context collation
begin

lemma health_rows_sorted: "sorted_wrt (health_le compare_le) (health_rows compare_le ps health)"
  unfolding health_rows_def by (rule health.sorted_sort)

end

lemma by_id_get: "om_get (by_id ps) k = find (\<lambda>p. p_id p = k) (rev ps)"
proof -
  have "om_get (foldl (\<lambda>m p. om_set m (p_id p) p) m ps) k
      = (case find (\<lambda>p. p_id p = k) (rev ps) of None \<Rightarrow> om_get m k | Some p \<Rightarrow> Some p)" for m
    by (induction ps rule: rev_induct) (simp_all add: om_simps)
  from this [of "[]"] show ?thesis by (simp add: by_id_def om_simps split: option.split)
qed

definition sample_health :: "bool \<Rightarrow> server_health_info" where
  "sample_health failing = \<lparr>sh_uptime_24h = 1, sh_uptime_7d = 1, sh_latency_ms = 40, sh_checks = 9,
     sh_failing = failing, sh_recent = []\<rparr>"

text \<open>The servers listed with their health are exactly those profiles that have a record, those failing
  first, then those with the lowest uptime of the day, then by name.\<close>

theorem health_lists_failing_first:
  assumes "collation lc" "distinct (map p_id ps)" "distinct (om_keys health)"
  shows "set (health_rows lc ps health)
      = {(p, info). p \<in> set ps \<and> om_get health (p_id p) = Some info}
    \<and> sorted_wrt (\<lambda>a b. sh_failing (snd a) \<or> \<not> sh_failing (snd b)) (health_rows lc ps health)
    \<and> sorted_wrt (\<lambda>a b. sh_failing (snd a) = sh_failing (snd b) \<longrightarrow> sh_uptime_24h (snd a) \<le> sh_uptime_24h (snd b))
        (health_rows lc ps health)"
proof -
  have f: "om_get (by_id ps) k = Some p \<longleftrightarrow> p \<in> set ps \<and> p_id p = k" for k p
  proof -
    have "find (\<lambda>p. p_id p = k) (rev ps) = Some p \<Longrightarrow> p \<in> set ps \<and> p_id p = k"
      by (drule find_Some_in) simp
    moreover have "p \<in> set ps \<Longrightarrow> p_id p = k \<Longrightarrow> find (\<lambda>p. p_id p = k) (rev ps) = Some p"
      using find_key [of p_id "rev ps" p] assms(2) by (metis distinct_map distinct_rev set_rev)
    ultimately show ?thesis by (auto simp: by_id_get)
  qed
  have h: "(k, info) \<in> set health \<longleftrightarrow> om_get health k = Some info" for k info
    using assms(3) by (simp add: om_get_def)
  have s: "sorted_wrt (health_le lc) (health_rows lc ps health)"
    using assms(1) by (rule collation.health_rows_sorted)
  have m: "set (health_rows lc ps health) = {(p, info). p \<in> set ps \<and> om_get health (p_id p) = Some info}"
    unfolding health_rows_def set_js_sort set_map_filter
  proof (intro set_eqI iffI)
    fix x assume "x \<in> {y. \<exists>x \<in> set health. (case x of (k, info) \<Rightarrow> map_option (\<lambda>p. (p, info)) (om_get (by_id ps) k)) = Some y}"
    then show "x \<in> {(p, info). p \<in> set ps \<and> om_get health (p_id p) = Some info}" by (auto simp: f h)
  next
    fix x assume "x \<in> {(p, info). p \<in> set ps \<and> om_get health (p_id p) = Some info}"
    then have "(p_id (fst x), snd x) \<in> set health" "om_get (by_id ps) (p_id (fst x)) = Some (fst x)" by (auto simp: f h)
    then show "x \<in> {y. \<exists>x \<in> set health. (case x of (k, info) \<Rightarrow> map_option (\<lambda>p. (p, info)) (om_get (by_id ps) k)) = Some y}"
      by (auto intro!: bexI [where x = "(p_id (fst x), snd x)"])
  qed
  show ?thesis
    by (intro conjI m sorted_wrt_mono_rel [OF _ s]) (auto simp: health_le_def split: if_splits)
qed

theorem health_lists_failing_first_witness:
  "map (p_id \<circ> fst) (health_rows text_le [sample_profile ''a'' None, sample_profile ''b'' None]
      [(''a'', sample_health False), (''b'', sample_health True), (''gone'', sample_health True)]) = [''b'', ''a'']
    \<and> sorted_wrt (\<lambda>a b. sh_failing (snd a) \<or> \<not> sh_failing (snd b))
      (health_rows text_le [sample_profile ''a'' None, sample_profile ''b'' None] [(''a'', sample_health False), (''b'', sample_health True)])"
proof
  show "map (p_id \<circ> fst) (health_rows text_le [sample_profile ''a'' None, sample_profile ''b'' None]
      [(''a'', sample_health False), (''b'', sample_health True), (''gone'', sample_health True)]) = [''b'', ''a'']"
    by (simp add: health_rows_def by_id_def sample_profile_def sample_health_def health_le_def om_get_def
        List.map_filter_simps)
  show "sorted_wrt (\<lambda>a b. sh_failing (snd a) \<or> \<not> sh_failing (snd b))
      (health_rows text_le [sample_profile ''a'' None, sample_profile ''b'' None] [(''a'', sample_health False), (''b'', sample_health True)])"
    using health_lists_failing_first [OF code_units.collation_axioms,
        of "[sample_profile ''a'' None, sample_profile ''b'' None]" "[(''a'', sample_health False), (''b'', sample_health True)]"]
    by (simp add: sample_profile_def)
qed

end
