(* ===== verification/Settings_Screen.thy ===== *)
theory Settings_Screen
  imports Theme_Presets Translation Profiles Uri_Text
begin

text \<open>
  The settings screen (components/views/SettingsView.tsx): its sections and how they are grouped,
  the search over them, moving between them, what a row says about its section, the controls of
  each section and what they change.  \<open>t\<close> is the translation function of the chosen language,
  \<open>lower\<close> and \<open>upper\<close> are \<open>toLocaleLowerCase\<close> and \<open>toLocaleUpperCase\<close>.
\<close>

type_synonym texts = "string \<Rightarrow> (string, param) omap option \<Rightarrow> string"

section \<open>Sections\<close>

datatype section_id =
    AppearanceSection | LanguageSection | BehaviourSection | ConnectionSection | TlsSection | ChainSection
  | SubscriptionsSection | PrivacySection | SyncSection | BackupSection | CoreSection | PluginsSection
  | WifiSection | UpdatesSection

fun section_name :: "section_id \<Rightarrow> string" where
  "section_name AppearanceSection = ''appearance''"
| "section_name LanguageSection = ''language''"
| "section_name BehaviourSection = ''behaviour''"
| "section_name ConnectionSection = ''connection''"
| "section_name TlsSection = ''tls''"
| "section_name ChainSection = ''chain''"
| "section_name SubscriptionsSection = ''subscriptions''"
| "section_name PrivacySection = ''privacy''"
| "section_name SyncSection = ''sync''"
| "section_name BackupSection = ''backup''"
| "section_name CoreSection = ''core''"
| "section_name PluginsSection = ''plugins''"
| "section_name WifiSection = ''wifi''"
| "section_name UpdatesSection = ''updates''"

record settings_section =
  sx_id :: section_id
  sx_title :: string
  sx_blurb :: string

definition section_entry :: "section_id \<Rightarrow> settings_section" where
  "section_entry i = \<lparr>sx_id = i, sx_title = ''settings.'' @ section_name i,
     sx_blurb = ''settings.'' @ section_name i @ ''.blurb''\<rparr>"

definition SECTIONS :: "settings_section list" where
  "SECTIONS = map section_entry
     [AppearanceSection, LanguageSection, BehaviourSection, ConnectionSection, TlsSection, ChainSection,
      SubscriptionsSection, WifiSection, PrivacySection, SyncSection, CoreSection, PluginsSection,
      BackupSection, UpdatesSection]"

definition GROUPS :: "(string \<times> section_id list) list" where
  "GROUPS =
     [(''settings.group.general'', [AppearanceSection, LanguageSection, BehaviourSection, UpdatesSection]),
      (''settings.group.network'', [ConnectionSection, TlsSection, ChainSection, SubscriptionsSection, WifiSection]),
      (''settings.group.data'', [PrivacySection, SyncSection, BackupSection]),
      (''settings.group.advanced'', [CoreSection, PluginsSection])]"

definition HIDDEN_ON_MOBILE :: "section_id list" where
  "HIDDEN_ON_MOBILE = [WifiSection, UpdatesSection]"

definition section_visible :: "bool \<Rightarrow> section_id \<Rightarrow> bool" where
  "section_visible is_phone i \<longleftrightarrow> \<not> (is_phone \<and> i \<in> set HIDDEN_ON_MOBILE)"

text \<open>The groups of the list with the sections they show; a group with none is left out.\<close>

definition shown_groups :: "bool \<Rightarrow> (string \<times> section_id list) list" where
  "shown_groups is_phone =
     filter (\<lambda>g. snd g \<noteq> []) (map (\<lambda>g. (fst g, filter (section_visible is_phone) (snd g))) GROUPS)"

section \<open>Search\<close>

fun SEARCH_PREFIXES :: "section_id \<Rightarrow> string list" where
  "SEARCH_PREFIXES AppearanceSection = [''appearance.'', ''picker.'', ''editor.'']"
| "SEARCH_PREFIXES LanguageSection = [''settings.language'']"
| "SEARCH_PREFIXES BehaviourSection = [''behaviour.'', ''shortcut.'', ''close.'']"
| "SEARCH_PREFIXES ConnectionSection = [''connection.dns'', ''connection.mtu'']"
| "SEARCH_PREFIXES TlsSection = [''tls.'']"
| "SEARCH_PREFIXES ChainSection = [''chain.'']"
| "SEARCH_PREFIXES SubscriptionsSection = [''identity.'', ''usage.'']"
| "SEARCH_PREFIXES WifiSection = [''wifi.'']"
| "SEARCH_PREFIXES PrivacySection = [''privacy.'']"
| "SEARCH_PREFIXES SyncSection = [''sync.'']"
| "SEARCH_PREFIXES CoreSection = [''core.'']"
| "SEARCH_PREFIXES PluginsSection = [''plugins.'']"
| "SEARCH_PREFIXES BackupSection = [''backup.'']"
| "SEARCH_PREFIXES UpdatesSection = [''updates.'']"

definition SEARCH_EXTRA :: "section_id \<Rightarrow> string list" where
  "SEARCH_EXTRA i = (if i = ConnectionSection then [''MTU''] else [])"

text \<open>
  What the search reads: the keys of the English catalogue in order, whether a message is plain
  text, and the message in the language of the window and in English.
\<close>

record search_texts =
  se_keys :: "string list"
  se_plain :: "string \<Rightarrow> bool"
  se_shown :: "string \<Rightarrow> string"
  se_english :: "string \<Rightarrow> string"
  se_lower :: "string \<Rightarrow> string"

definition searched :: "intl \<Rightarrow> (string \<Rightarrow> string \<Rightarrow> message option) \<Rightarrow> (string \<Rightarrow> message) \<Rightarrow> string list
    \<Rightarrow> (string \<Rightarrow> string) \<Rightarrow> string \<Rightarrow> search_texts" where
  "searched i catalog en keys lower language =
     \<lparr>se_keys = keys, se_plain = (\<lambda>k. case en k of Plain _ \<Rightarrow> True | Counted _ \<Rightarrow> False),
      se_shown = (\<lambda>k. translate i catalog en language k None),
      se_english = (\<lambda>k. translate i catalog en ''en'' k None), se_lower = lower\<rparr>"

text \<open>\<open>split(/\s+/).filter(Boolean)\<close>: the longest pieces without white space.\<close>

function words_from :: "string \<Rightarrow> string \<Rightarrow> string list" where
  "words_from word [] = (if word = [] then [] else [word])"
| "words_from word (c # cs) =
     (case find (js_starts_with (c # cs)) white_space of
        Some w \<Rightarrow> (if word = [] then [] else [word]) @ words_from [] (drop (length w - 1) cs)
      | None \<Rightarrow> words_from (word @ [c]) cs)"
  by pat_completeness auto
termination by (relation "measure (\<lambda>(word, s). length s)") auto

definition js_words :: "string \<Rightarrow> string list" where
  "js_words s = words_from [] s"

definition section_keys :: "search_texts \<Rightarrow> section_id \<Rightarrow> string list" where
  "section_keys e i =
     filter (\<lambda>k. list_ex (js_starts_with k) (SEARCH_PREFIXES i) \<and> se_plain e k) (se_keys e)"

text \<open>The texts of a section: as shown, and in English.\<close>

definition section_texts :: "search_texts \<Rightarrow> settings_section \<Rightarrow> (string \<times> string) list" where
  "section_texts e s =
     map (\<lambda>k. (se_shown e k, se_english e k))
       (sx_title s # sx_blurb s
        # filter (\<lambda>k. \<not> js_ends_with k ''.description'') (section_keys e (sx_id s))
        @ filter (\<lambda>k. js_ends_with k ''.description'') (section_keys e (sx_id s)))
     @ map (\<lambda>w. (w, w)) (SEARCH_EXTRA (sx_id s))"

definition both_texts :: "string \<times> string \<Rightarrow> string" where
  "both_texts p = fst p @ '' '' @ snd p"

definition ELLIPSIS :: string where
  "ELLIPSIS = [CHR 0xE2, CHR 0x80, CHR 0xA6]"

definition section_hit :: "search_texts \<Rightarrow> string list \<Rightarrow> settings_section \<Rightarrow> (string \<times> string) option" where
  "section_hit e words s =
     find (\<lambda>p. list_ex (js_includes (se_lower e (both_texts p))) words) (section_texts e s)"

definition search_section :: "search_texts \<Rightarrow> string list \<Rightarrow> settings_section \<Rightarrow> (section_id \<times> string) option" where
  "search_section e words s =
     (if list_all (js_includes (se_lower e (js_join '' '' (map both_texts (section_texts e s))))) words
      then Some (sx_id s, case section_hit e words s of
          Some p \<Rightarrow> fill (\<lambda>_. Some ELLIPSIS) (fst p) | None \<Rightarrow> [])
      else None)"

definition search_settings :: "search_texts \<Rightarrow> string \<Rightarrow> (section_id \<times> string) list" where
  "search_settings e query =
     (let words = js_words (se_lower e query) in
      if words = [] then [] else List.map_filter (search_section e words) SECTIONS)"

definition search_results :: "search_texts \<Rightarrow> bool \<Rightarrow> string \<Rightarrow> (section_id \<times> string) list option" where
  "search_results e is_phone query =
     (if js_trim query = [] then None
      else Some (filter (\<lambda>r. section_visible is_phone (fst r)) (search_settings e query)))"

section \<open>Moving between the sections\<close>

datatype appearance_tab = ThemeTab | LayoutTab | FontTab | MotionTab | DataTab

definition APPEARANCE_TABS :: "(appearance_tab \<times> string list) list" where
  "APPEARANCE_TABS =
     [(LayoutTab, [''appearance.layout'']),
      (FontTab, [''appearance.font'', ''appearance.corners'', ''appearance.radius'']),
      (MotionTab, [''appearance.motion'']),
      (DataTab, [''appearance.units'', ''appearance.statsChart''])]"

datatype page_direction = Forward | Back

text \<open>
  The open section, the query, the tab of Appearance and the number of the last request handled are
  remembered between visits; the direction, the home signal of this visit and the server chosen for
  the chain are not.
\<close>

record settings_page =
  pg_open :: "section_id option"
  pg_query :: string
  pg_tab :: appearance_tab
  pg_handled :: int
  pg_direction :: page_direction
  pg_home :: int
  pg_new_hop :: string

definition tab_for :: "search_texts \<Rightarrow> string \<Rightarrow> appearance_tab" where
  "tab_for e query =
     (let needle = se_lower e (js_trim query) in
      case find (\<lambda>t. list_ex (\<lambda>k. list_ex (js_starts_with k) (snd t) \<and> js_includes (se_lower e (se_shown e k)) needle)
          (se_keys e)) APPEARANCE_TABS of
        Some t \<Rightarrow> fst t
      | None \<Rightarrow> ThemeTab)"

definition navigate :: "search_texts \<Rightarrow> section_id option \<Rightarrow> settings_page \<Rightarrow> settings_page" where
  "navigate e target pg =
     (let pg' = (if target = Some AppearanceSection \<and> js_trim (pg_query pg) \<noteq> []
                 then pg\<lparr>pg_tab := tab_for e (pg_query pg)\<rparr> else pg)
      in pg'\<lparr>pg_direction := (if target = None then Back else Forward), pg_open := target\<rparr>)"

definition appearance_tab :: "bool \<Rightarrow> settings_page \<Rightarrow> appearance_tab" where
  "appearance_tab is_phone pg = (if is_phone \<and> pg_tab pg = LayoutTab then ThemeTab else pg_tab pg)"

definition offered_tabs :: "bool \<Rightarrow> appearance_tab list" where
  "offered_tabs is_phone = [ThemeTab] @ (if is_phone then [] else [LayoutTab]) @ [FontTab, MotionTab, DataTab]"

definition home_effect :: "int \<Rightarrow> settings_page \<Rightarrow> settings_page" where
  "home_effect signal pg = (if signal \<noteq> pg_home pg then pg\<lparr>pg_direction := Back, pg_open := None\<rparr> else pg)"

definition open_effect :: "(string \<times> int) option \<Rightarrow> settings_page \<Rightarrow> settings_page" where
  "open_effect signal pg =
     (case signal of
        None \<Rightarrow> pg
      | Some (name, n) \<Rightarrow>
          (case find (\<lambda>s. section_name (sx_id s) = name) SECTIONS of
             Some s \<Rightarrow> if n \<noteq> pg_handled pg
               then pg\<lparr>pg_handled := n, pg_direction := Forward, pg_open := Some (sx_id s)\<rparr> else pg
           | None \<Rightarrow> pg))"

text \<open>Opening the page again: what is remembered is kept, and both effects run once.\<close>

definition mount_settings :: "int \<Rightarrow> (string \<times> int) option \<Rightarrow> settings_page \<Rightarrow> settings_page" where
  "mount_settings home signal pg =
     open_effect signal (home_effect home (pg\<lparr>pg_direction := Forward, pg_home := home, pg_new_hop := []\<rparr>))"

text \<open>Escape clears the search; Enter opens the first result.\<close>

definition search_key :: "search_texts \<Rightarrow> bool \<Rightarrow> string \<Rightarrow> settings_page \<Rightarrow> settings_page" where
  "search_key e is_phone key pg =
     (let results = search_results e is_phone (pg_query pg);
          pg' = (if key = ''Escape'' then pg\<lparr>pg_query := []\<rparr> else pg)
      in case results of
           Some (r # _) \<Rightarrow> if key = ''Enter'' then navigate e (Some (fst r)) pg' else pg'
         | _ \<Rightarrow> pg')"

definition page_title :: "texts \<Rightarrow> settings_page \<Rightarrow> string \<times> string" where
  "page_title t pg =
     (case Option.bind (pg_open pg) (\<lambda>i. find (\<lambda>s. sx_id s = i) SECTIONS) of
        Some s \<Rightarrow> (t (sx_title s) None, t (sx_blurb s) None)
      | None \<Rightarrow> (t ''nav.settings'' None, t ''settings.description'' None))"

section \<open>What the rows say\<close>

record close_option =
  co_id :: close_action
  co_label :: string
  co_summary :: string
  co_description :: string

definition close_entry :: "close_action \<Rightarrow> string \<Rightarrow> close_option" where
  "close_entry a label =
     \<lparr>co_id = a, co_label = label, co_summary = label @ ''.summary'', co_description = label @ ''.description''\<rparr>"

definition CLOSE_OPTIONS :: "close_option list" where
  "CLOSE_OPTIONS = [close_entry Tray ''close.tray'', close_entry Hide ''close.hide'', close_entry Quit ''close.quit'']"

definition close_options :: "bool \<Rightarrow> close_option list" where
  "close_options is_mac = (if is_mac then filter (\<lambda>c. co_id c \<noteq> Hide) CLOSE_OPTIONS else CLOSE_OPTIONS)"

definition close_shown :: "bool \<Rightarrow> app_settings \<Rightarrow> close_action" where
  "close_shown is_mac s = (if is_mac \<and> st_close_action s = Hide then Tray else st_close_action s)"

definition DASH :: string where
  "DASH = [CHR 0xE2, CHR 0x80, CHR 0x94]"

definition MIDDOT :: string where
  "MIDDOT = [CHR 0x20, CHR 0xC2, CHR 0xB7, CHR 0x20]"

definition join_parts :: "string \<Rightarrow> string list \<Rightarrow> string" where
  "join_parts sep parts = js_join sep (filter (\<lambda>p. p \<noteq> []) parts)"

text \<open>The first character of a text: a lead byte and the bytes that continue it.\<close>

definition first_char :: "string \<Rightarrow> string" where
  "first_char s = (case s of [] \<Rightarrow> []
     | c # cs \<Rightarrow> c # takeWhile (\<lambda>d. 0x80 \<le> (of_char d :: nat) \<and> (of_char d :: nat) < 0xC0) cs)"

definition language_name :: "string \<Rightarrow> string" where
  "language_name i = (case find (\<lambda>l. lg_id l = i) LANGUAGES of Some l \<Rightarrow> lg_label l | None \<Rightarrow> i)"

definition core_title :: "core_name \<Rightarrow> string" where
  "core_title c = (case c of Mihomo \<Rightarrow> ''core.mihomo'' | Xray \<Rightarrow> ''core.xray'' | SingBox \<Rightarrow> ''core.singbox'' | Builtin \<Rightarrow> ''core.builtin'')"

text \<open>What the screen is given besides the settings.\<close>

record settings_view =
  vw_phone :: bool
  vw_mac :: bool
  vw_theme :: "string option"
  vw_custom :: "custom_theme option"
  vw_fonts :: font_state
  vw_font :: string
  vw_choice :: string
  vw_language :: string
  vw_plugins :: "plugin_info list"
  vw_upper :: "string \<Rightarrow> string"

definition theme_name_of :: "texts \<Rightarrow> settings_view \<Rightarrow> string" where
  "theme_name_of t v =
     (case vw_custom v of
        Some c \<Rightarrow> if ct_name c = [] then t ''picker.untitled'' None else ct_name c
      | None \<Rightarrow>
          (case find (\<lambda>p. Some (tp_id p) = vw_theme v) THEME_PRESETS of
             Some p \<Rightarrow> t (tp_label p) None
           | None \<Rightarrow> t ''settings.appearance.systemTheme'' None))"

definition behaviour_summary :: "texts \<Rightarrow> settings_view \<Rightarrow> app_settings \<Rightarrow> string" where
  "behaviour_summary t v s =
     (let summary = join_parts MIDDOT
        [if launch_at_startup s \<and> \<not> vw_phone v then t ''behaviour.summary.startup'' None else [],
         if auto_connect s then t ''behaviour.summary.autoConnect'' None else [],
         if vw_phone v then []
         else t (case find (\<lambda>c. co_id c = close_shown (vw_mac v) s) CLOSE_OPTIONS of
             Some c \<Rightarrow> co_summary c | None \<Rightarrow> ''close.tray.summary'') None,
         if vw_phone v \<and> auto_reconnect s \<noteq> Some False then t ''behaviour.summary.reconnect'' None else []]
      in vw_upper v (first_char summary) @ drop (length (first_char summary)) summary)"

definition tls_summary :: "texts \<Rightarrow> app_settings \<Rightarrow> string" where
  "tls_summary t s =
     (let enabled = filter (\<lambda>p. p \<noteq> [])
        [if tls_fragment s then t ''tls.fragmentation'' None else [],
         if tls_mixed_sni_case s then t ''tls.mixedCase'' None else [],
         if tls_padding s then t ''tls.padding'' None else [],
         if sni_spoof_enabled s then t ''tls.sniSpoof'' None else []]
      in if enabled = [] then t ''tls.nothing'' None else js_join '', '' enabled)"

definition subtitle_for :: "texts \<Rightarrow> settings_view \<Rightarrow> app_settings \<Rightarrow> settings_section \<Rightarrow> string" where
  "subtitle_for t v s x = (case sx_id x of
     AppearanceSection \<Rightarrow> join_parts MIDDOT
       [theme_name_of t v,
        font_label (\<lambda>k. t k None) (vw_fonts v)
          (fo_id (effective_font (vw_fonts v) (vw_font v) (script_of (vw_language v))))]
   | LanguageSection \<Rightarrow>
       if vw_choice v = ''system''
       then t ''settings.language.system'' (Some [(''language'', TextParam (language_name (vw_language v)))])
       else language_name (vw_choice v)
   | BehaviourSection \<Rightarrow> behaviour_summary t v s
   | ConnectionSection \<Rightarrow> t ''connection.summary'' (Some [(''mtu'', TextParam (int_str (st_mtu s))),
       (''dns'', TextParam (if st_dns s = [] then DASH else st_dns s))])
   | TlsSection \<Rightarrow> tls_summary t s
   | ChainSection \<Rightarrow>
       if \<not> proxy_chain_enabled s then t ''common.off'' None
       else if proxy_chain s = [] then t ''chain.summaryEmpty'' None
       else t ''chain.summary'' (Some [(''count'', NumParam (Fin (of_nat (length (proxy_chain s)))))])
   | SubscriptionsSection \<Rightarrow>
       if subscription_user_agent s = [] then t ''identity.defaultIdentity'' None else subscription_user_agent s
   | PrivacySection \<Rightarrow> js_join MIDDOT
       [if ip_check_enabled s = Some False then t ''privacy.summaryOff'' None else t ''privacy.summaryOn'' None,
        if logging_enabled s = Some False then t ''privacy.logsOff'' None else t ''privacy.logsOn'' None]
   | SyncSection \<Rightarrow> if or_else (auth_server s) [] = [] then t ''status.idle'' None else the (auth_server s)
   | WifiSection \<Rightarrow>
       if wifi_auto_connect s \<or> wifi_trusted_disconnect s
       then t ''wifi.summary'' (Some [(''count'', NumParam (Fin (of_nat (length (trusted_networks s)))))])
       else t ''wifi.summary.off'' None
   | PluginsSection \<Rightarrow>
       if vw_plugins v = [] then t ''plugins.summary.none'' None
       else t ''plugins.summary'' (Some
         [(''on'', NumParam (Fin (of_nat (length (filter pl_enabled (vw_plugins v)))))),
          (''all'', NumParam (Fin (of_nat (length (vw_plugins v)))))])
   | CoreSection \<Rightarrow> t (core_title (st_core s)) None
   | BackupSection \<Rightarrow> t (sx_blurb x) None
   | UpdatesSection \<Rightarrow> t (sx_blurb x) None)"

section \<open>Controls\<close>

text \<open>
  A switch with its label, its description, what it shows and what it changes; a text field; one of
  several choices; a line of text; a button; a hop of the chain.
\<close>

datatype control =
    Toggle string string "app_settings \<Rightarrow> bool" "bool \<Rightarrow> app_settings \<Rightarrow> app_settings"
  | TextBox string "app_settings \<Rightarrow> string" "string \<Rightarrow> app_settings \<Rightarrow> app_settings"
  | Choice string bool "app_settings \<Rightarrow> app_settings"
  | Line string
  | PressButton string
  | HopRow nat string bool bool

type_synonym control_group = "string option \<times> control list"

text \<open>A switch for a setting that is on unless it is stored as off.\<close>

definition on_unless_off :: "bool option \<Rightarrow> bool" where
  "on_unless_off x \<longleftrightarrow> x \<noteq> Some False"

definition startup_controls :: "bool \<Rightarrow> control list" where
  "startup_controls is_phone =
     (if is_phone then [] else
        [Toggle ''behaviour.launch'' ''behaviour.launch.description'' launch_at_startup (\<lambda>b. launch_at_startup_update (\<lambda>_. b))])
     @ [Toggle ''behaviour.autoConnect'' ''behaviour.autoConnect.description'' auto_connect (\<lambda>b. auto_connect_update (\<lambda>_. b))]"

definition behaviour_connection_controls :: "control list" where
  "behaviour_connection_controls =
     [Toggle ''behaviour.autoReconnect'' ''behaviour.autoReconnect.description''
        (\<lambda>s. on_unless_off (auto_reconnect s)) (\<lambda>b. auto_reconnect_update (\<lambda>_. Some b)),
      Toggle ''behaviour.killSwitch'' ''behaviour.killSwitch.description'' kill_switch (\<lambda>b. kill_switch_update (\<lambda>_. b)),
      Toggle ''behaviour.fallback'' ''behaviour.fallback.description''
        (\<lambda>s. on_unless_off (server_fallback s)) (\<lambda>b. server_fallback_update (\<lambda>_. Some b)),
      Toggle ''behaviour.fastest'' ''behaviour.fastest.description'' fastest_server (\<lambda>b. fastest_server_update (\<lambda>_. b)),
      Toggle ''behaviour.clipboard'' ''behaviour.clipboard.description''
        (\<lambda>s. on_unless_off (clipboard_offer s)) (\<lambda>b. clipboard_offer_update (\<lambda>_. Some b)),
      Toggle ''behaviour.notifications'' ''behaviour.notifications.description''
        (\<lambda>s. on_unless_off (notifications s)) (\<lambda>b. notifications_update (\<lambda>_. Some b))]"

definition auto_update_controls :: "control list" where
  "auto_update_controls =
     [Toggle ''behaviour.autoUpdate'' ''behaviour.autoUpdate.description''
        (\<lambda>s. on_unless_off (subscription_auto_update s)) (\<lambda>b. subscription_auto_update_update (\<lambda>_. Some b))]"

definition close_controls :: "bool \<Rightarrow> app_settings \<Rightarrow> control list" where
  "close_controls is_mac s =
     map (\<lambda>c. Choice (co_label c) (close_shown is_mac s = co_id c) (st_close_action_update (\<lambda>_. co_id c))) (close_options is_mac)"

definition behaviour_detail :: "bool \<Rightarrow> bool \<Rightarrow> bool \<Rightarrow> app_settings \<Rightarrow> control_group list" where
  "behaviour_detail is_phone is_mac shortcuts s =
     [(Some ''behaviour.startup'', startup_controls is_phone)]
     @ (if shortcuts then [(Some ''shortcut.title'',
          [TextBox ''shortcut.label'' global_shortcut (\<lambda>spec. global_shortcut_update (\<lambda>_. spec))])] else [])
     @ [(Some ''behaviour.connection'', behaviour_connection_controls),
        (Some ''settings.subscriptions'', auto_update_controls)]
     @ (if is_phone then [] else [(Some ''behaviour.closing'', close_controls is_mac s)])"

text \<open>\<open>parseInt(text) || 9000\<close>.\<close>

definition read_mtu :: "string \<Rightarrow> int" where
  "read_mtu text = (case js_parse_int text of Some n \<Rightarrow> if n = 0 then 9000 else n | None \<Rightarrow> 9000)"

definition connection_detail :: "control_group list" where
  "connection_detail =
     [(None, [TextBox ''MTU'' (\<lambda>s. int_str (st_mtu s)) (\<lambda>v. st_mtu_update (\<lambda>_. read_mtu v))]),
      (None, [TextBox ''connection.dns'' st_dns (\<lambda>v. st_dns_update (\<lambda>_. v))])]"

definition tls_ignored :: "app_settings \<Rightarrow> bool" where
  "tls_ignored s \<longleftrightarrow> st_core s = Mihomo \<or> st_core s = Xray"

definition tls_toggles :: "control list" where
  "tls_toggles =
     [Toggle ''tls.fragmentation.title'' ''tls.fragmentation.description'' tls_fragment (\<lambda>b. tls_fragment_update (\<lambda>_. b)),
      Toggle ''tls.mixedCase.title'' ''tls.mixedCase.description'' tls_mixed_sni_case (\<lambda>b. tls_mixed_sni_case_update (\<lambda>_. b)),
      Toggle ''tls.padding.title'' ''tls.padding.description'' tls_padding (\<lambda>b. tls_padding_update (\<lambda>_. b)),
      Toggle ''tls.sniSpoof'' ''tls.sniSpoof.description'' sni_spoof_enabled (\<lambda>b. sni_spoof_enabled_update (\<lambda>_. b))]"

text \<open>Whether the controls are disabled, what stands above them, and the controls.\<close>

definition tls_detail :: "texts \<Rightarrow> app_settings \<Rightarrow> bool \<times> control_group list" where
  "tls_detail t s =
     (tls_ignored s,
      (if tls_ignored s
       then [(None, [Line (t ''core.tlsIgnored'' (Some [(''core'', TextParam (t (if st_core s = Xray then ''core.xray'' else ''core.mihomo'') None))])),
               PressButton ''settings.core''])]
       else [])
     @ [(None, take 1 tls_toggles
          @ (if tls_fragment s
             then [TextBox ''tls.sizeRange'' tls_fragment_size (\<lambda>v. tls_fragment_size_update (\<lambda>_. v)),
                   TextBox ''tls.sleepRange'' tls_fragment_sleep (\<lambda>v. tls_fragment_sleep_update (\<lambda>_. v))]
             else [])),
        (None, take 2 (drop 1 tls_toggles)),
        (None, drop 3 tls_toggles
          @ (if sni_spoof_enabled s then [TextBox ''tls.sniSpoof.domain'' sni_spoof_value (\<lambda>v. sni_spoof_value_update (\<lambda>_. v))]
             else []))])"

section \<open>The chain\<close>

definition available_hops :: "profile list \<Rightarrow> string \<Rightarrow> app_settings \<Rightarrow> profile list" where
  "available_hops ps selected s = filter (\<lambda>p. p_id p \<noteq> selected \<and> p_id p \<notin> set (proxy_chain s)) ps"

definition add_hop :: "app_settings \<times> settings_page \<Rightarrow> app_settings \<times> settings_page" where
  "add_hop v =
     (let s = fst v; pg = snd v in
      if pg_new_hop pg = [] \<or> pg_new_hop pg \<in> set (proxy_chain s) then v
      else (s\<lparr>proxy_chain := proxy_chain s @ [pg_new_hop pg]\<rparr>, pg\<lparr>pg_new_hop := []\<rparr>))"

definition move_hop :: "nat \<Rightarrow> int \<Rightarrow> string list \<Rightarrow> string list" where
  "move_hop index direction chain =
     (let target = int index + direction in
      if target < 0 \<or> int (length chain) \<le> target then chain
      else chain[index := chain ! nat target, nat target := chain ! index])"

definition remove_hop :: "string \<Rightarrow> string list \<Rightarrow> string list" where
  "remove_hop hop chain = filter (\<lambda>p. p \<noteq> hop) chain"

text \<open>The rows of the chain: number, name, whether it can move up and down.\<close>

definition hop_rows :: "texts \<Rightarrow> profile list \<Rightarrow> string list \<Rightarrow> control list" where
  "hop_rows t ps chain =
     map (\<lambda>(i, hop). HopRow (i + 1)
         (case find (\<lambda>p. p_id p = hop) ps of
            Some p \<Rightarrow> if p_name p = [] then t ''chain.unknown'' None else p_name p
          | None \<Rightarrow> t ''chain.unknown'' None)
         (i \<noteq> 0) (i \<noteq> length chain - 1)) (enumerate 0 chain)"

definition chain_toggles :: "control list" where
  "chain_toggles =
     [Toggle ''chain.title'' ''chain.description'' proxy_chain_enabled (\<lambda>b. proxy_chain_enabled_update (\<lambda>_. b))]"

definition chain_detail :: "texts \<Rightarrow> profile list \<Rightarrow> string \<Rightarrow> app_settings \<Rightarrow> control_group list" where
  "chain_detail t ps selected s =
     [(None, chain_toggles
       @ (if proxy_chain_enabled s
          then Line (case find (\<lambda>p. p_id p = selected) ps of
                 Some p \<Rightarrow> if p_name p = [] then t ''chain.noneSelected'' None else p_name p
               | None \<Rightarrow> t ''chain.noneSelected'' None)
            # Line (t (if available_hops ps selected s = [] then ''chain.noProfiles'' else ''chain.select'') None)
            # PressButton ''common.add''
            # (if proxy_chain s = [] then [Line (t ''chain.empty'' None)] else hop_rows t ps (proxy_chain s))
          else []))]"

definition privacy_toggles :: "control list" where
  "privacy_toggles =
     [Toggle ''privacy.ipCheck'' ''privacy.ipCheck.description''
        (\<lambda>s. on_unless_off (ip_check_enabled s)) (\<lambda>b. ip_check_enabled_update (\<lambda>_. Some b)),
      Toggle ''privacy.logs'' ''privacy.logs.description''
        (\<lambda>s. on_unless_off (logging_enabled s)) (\<lambda>b. logging_enabled_update (\<lambda>_. Some b)),
      Toggle ''privacy.appStats'' ''privacy.appStats.description''
        (\<lambda>s. on_unless_off (app_stats s)) (\<lambda>b. app_stats_update (\<lambda>_. Some b)),
      Toggle ''privacy.serverHealth'' ''privacy.serverHealth.description''
        (\<lambda>s. on_unless_off (server_health s)) (\<lambda>b. server_health_update (\<lambda>_. Some b))]"

definition sync_detail :: "app_settings \<Rightarrow> control_group list" where
  "sync_detail s =
     [(Some ''sync.title'',
       if or_else (auth_server s) [] = [] then [PressButton ''sync.connect'']
       else [Line (the (auth_server s)), PressButton ''connection.disconnect''])]"

text \<open>The languages offered: which is chosen, its name, and the language followed beside the system's row.\<close>

definition language_rows :: "texts \<Rightarrow> settings_view \<Rightarrow> (string \<times> bool \<times> string \<times> string option) list" where
  "language_rows t v =
     map (\<lambda>i. (i, vw_choice v = i, if i = ''system'' then t ''settings.language.followSystem'' None else language_name i,
         if i = ''system'' then Some (language_name (vw_language v)) else None))
       (''system'' # map lg_id LANGUAGES)"

definition privacy_detail :: "control_group list" where
  "privacy_detail = [(None, privacy_toggles)]"

text \<open>Every switch of the screen, on a phone or not.\<close>

definition all_toggles :: "bool \<Rightarrow> control list" where
  "all_toggles is_phone = startup_controls is_phone @ behaviour_connection_controls @ auto_update_controls @ tls_toggles
     @ chain_toggles @ privacy_toggles"

fun toggle_title :: "control \<Rightarrow> string" where
  "toggle_title (Toggle title d get change) = title"
| "toggle_title c = []"

fun toggle_shown :: "app_settings \<Rightarrow> control \<Rightarrow> bool" where
  "toggle_shown s (Toggle title d get change) = get s"
| "toggle_shown s c = False"

fun toggle_set :: "bool \<Rightarrow> control \<Rightarrow> app_settings \<Rightarrow> app_settings" where
  "toggle_set b (Toggle title d get change) s = change b s"
| "toggle_set b c s = s"

section \<open>Lemmas\<close>

lemma includes_iff: "js_includes s p \<longleftrightarrow> (\<exists>a b. s = a @ p @ b)"
proof (induction s)
  case (Cons c s)
  have "(\<exists>a b. c # s = a @ p @ b) \<longleftrightarrow> (\<exists>b. c # s = p @ b) \<or> (\<exists>a b. s = a @ p @ b)"
    by (metis append_Cons append_Nil list.exhaust list.inject)
  with Cons show ?case by (simp add: js_starts_with_iff)
qed simp

text \<open>A text without the separator lies on one side of it.\<close>

lemma includes_sep:
  assumes "c \<notin> set p" "p \<noteq> []"
  shows "js_includes (x @ c # y) p \<longleftrightarrow> js_includes x p \<or> js_includes y p"
proof
  assume "js_includes (x @ c # y) p"
  then obtain a b where ab: "x @ c # y = a @ p @ b" by (auto simp: includes_iff)
  show "js_includes x p \<or> js_includes y p"
  proof (cases "length (a @ p) \<le> length x")
    case True
    then have "x = a @ p @ drop (length (a @ p)) x"
      using ab by (metis append_assoc append_eq_append_conv_if append_take_drop_id)
    then show ?thesis by (auto simp: includes_iff)
  next
    case False
    have "length x < length a"
    proof (rule ccontr)
      assume "\<not> length x < length a"
      then have n: "length x - length a < length p" "length a \<le> length x" using False by simp_all
      then have "(a @ p @ b) ! length x = p ! (length x - length a)" by (simp add: nth_append)
      with n have "(a @ p @ b) ! length x \<in> set p" by (metis nth_mem)
      with ab [symmetric] assms(1) show False by simp
    qed
    then have "y = drop (Suc (length x)) a @ p @ b"
      using arg_cong [OF ab, of "drop (Suc (length x))"] by simp
    then show ?thesis by (auto simp: includes_iff)
  qed
next
  assume "js_includes x p \<or> js_includes y p"
  then show "js_includes (x @ c # y) p"
  proof
    assume "js_includes x p"
    then obtain a b where "x = a @ p @ b" by (auto simp: includes_iff)
    then have "x @ c # y = a @ p @ (b @ c # y)" by simp
    then show ?thesis unfolding includes_iff by blast
  next
    assume "js_includes y p"
    then obtain a b where "y = a @ p @ b" by (auto simp: includes_iff)
    then have "x @ c # y = (x @ c # a) @ p @ b" by simp
    then show ?thesis unfolding includes_iff by blast
  qed
qed

lemma includes_join:
  assumes "c \<notin> set p" "p \<noteq> []" "ts \<noteq> []"
  shows "js_includes (js_join [c] ts) p \<longleftrightarrow> (\<exists>u \<in> set ts. js_includes u p)"
  using assms(3)
proof (induction ts)
  case (Cons u ts)
  then show ?case by (cases ts) (auto simp: includes_sep [OF assms(1,2)])
qed simp

lemma blank_is_space: "[CHR '' ''] \<in> set white_space"
  by (simp add: white_space_def)

lemma words_from_ok:
  "CHR '' '' \<notin> set word \<Longrightarrow> w \<in> set (words_from word s) \<Longrightarrow> CHR '' '' \<notin> set w \<and> w \<noteq> []"
proof (induction word s rule: words_from.induct)
  case (2 word c cs)
  show ?case
  proof (cases "find (js_starts_with (c # cs)) white_space")
    case None
    then have "c \<noteq> CHR '' ''"
      using find_None_all [OF None blank_is_space] by (auto simp: js_starts_with_def)
    with 2 None show ?thesis by auto
  next
    case (Some v)
    with 2 show ?thesis by (auto split: if_splits)
  qed
qed (auto split: if_splits)

lemma js_words_ok: "w \<in> set (js_words s) \<Longrightarrow> CHR '' '' \<notin> set w \<and> w \<noteq> []"
  unfolding js_words_def by (rule words_from_ok) simp_all

lemma lower_join:
  assumes "\<And>x y. lower (x @ y) = lower x @ lower y" "lower '' '' = '' ''"
  shows "ts \<noteq> [] \<Longrightarrow> lower (js_join '' '' ts) = js_join '' '' (map lower ts)"
proof (induction ts)
  case (Cons u ts)
  show ?case
  proof (cases "ts = []")
    case False
    with Cons.IH have "lower (js_join '' '' (u # ts)) = lower u @ '' '' @ js_join '' '' (map lower ts)"
      unfolding js_join_cons [OF False] by (simp only: assms False not_False_eq_True)
    with False show ?thesis by simp
  qed simp
qed simp

definition section_says :: "search_texts \<Rightarrow> settings_section \<Rightarrow> string \<Rightarrow> bool" where
  "section_says e s w \<longleftrightarrow> (\<exists>p \<in> set (section_texts e s). js_includes (se_lower e (both_texts p)) w)"

lemma haystack_says:
  assumes "\<And>x y. se_lower e (x @ y) = se_lower e x @ se_lower e y" "se_lower e '' '' = '' ''"
    and "CHR '' '' \<notin> set w" "w \<noteq> []"
  shows "js_includes (se_lower e (js_join '' '' (map both_texts (section_texts e s)))) w \<longleftrightarrow> section_says e s w"
proof -
  have n: "map both_texts (section_texts e s) \<noteq> []" by (simp add: section_texts_def)
  show ?thesis
    unfolding lower_join [where lower = "se_lower e", OF assms(1,2) n] section_says_def
    using includes_join [OF assms(3,4), of "map (se_lower e) (map both_texts (section_texts e s))"] n by simp
qed

section \<open>Properties\<close>

text \<open>The list of the settings holds every section exactly once, under one of its four groups; on a phone
  it leaves out exactly the two that do not apply there, and no group is empty.\<close>

theorem groups_hold_every_section:
  "set (map sx_id SECTIONS) = UNIV \<and> distinct (map sx_id SECTIONS) \<and> distinct (map (section_name \<circ> sx_id) SECTIONS)
    \<and> mset (concat (map snd (shown_groups False))) = mset (map sx_id SECTIONS)
    \<and> mset (concat (map snd (shown_groups True))) = mset (filter (\<lambda>i. i \<notin> {WifiSection, UpdatesSection}) (map sx_id SECTIONS))
    \<and> map fst (shown_groups True) = map fst GROUPS"
proof (intro conjI)
  have "x \<in> set (map sx_id SECTIONS)" for x by (cases x) (simp_all add: SECTIONS_def section_entry_def)
  then show "set (map sx_id SECTIONS) = UNIV" by blast
qed (simp_all add: SECTIONS_def section_entry_def shown_groups_def GROUPS_def section_visible_def HIDDEN_ON_MOBILE_def)


definition sample_texts :: search_texts where
  "sample_texts = \<lparr>se_keys = [''appearance.font'', ''tls.padding''], se_plain = (\<lambda>_. True), se_shown = (\<lambda>k. k),
     se_english = (\<lambda>k. if k = ''appearance.font'' then ''Typeface'' else k), se_lower = js_lower\<rparr>"


text \<open>What the search finds in English, the tab it opens does not: with the window in another language, a
  query that no text of the appearance tabs contains in that language opens Appearance on its first tab,
  also when an English text is why Appearance was found.\<close>

theorem english_match_opens_first_tab:
  assumes "search_results e False query = Some ((AppearanceSection, m) # rest)" "pg_query pg = query"
    and "\<forall>k \<in> set (se_keys e). \<not> js_includes (se_lower e (se_shown e k)) (se_lower e (js_trim query))"
  shows "pg_open (search_key e False ''Enter'' pg) = Some AppearanceSection
    \<and> pg_tab (search_key e False ''Enter'' pg) = ThemeTab"
proof -
  have q: "js_trim query \<noteq> []" using assms(1) by (auto simp: search_results_def split: if_splits)
  have "find (\<lambda>t. list_ex (\<lambda>k. list_ex (js_starts_with k) (snd t)
      \<and> js_includes (se_lower e (se_shown e k)) (se_lower e (js_trim query))) (se_keys e)) APPEARANCE_TABS = None"
    using assms(3) by (auto simp: find_None_iff list_ex_iff)
  then have "tab_for e query = ThemeTab" by (simp add: tab_for_def Let_def)
  then show ?thesis using assms(1,2) q by (simp add: search_key_def Let_def navigate_def)
qed

theorem english_match_opens_first_tab_witness:
  "pg_tab (search_key sample_texts False ''Enter''
     \<lparr>pg_open = None, pg_query = ''typeface'', pg_tab = FontTab, pg_handled = 0, pg_direction = Forward, pg_home = 0, pg_new_hop = []\<rparr>)
   = ThemeTab"
proof -
  have "search_results sample_texts False ''typeface'' = Some [(AppearanceSection, ''appearance.font'')]"
    by code_simp
  moreover have "\<forall>k \<in> set (se_keys sample_texts).
      \<not> js_includes (se_lower sample_texts (se_shown sample_texts k)) (se_lower sample_texts (js_trim ''typeface''))"
    by code_simp
  ultimately show ?thesis
    by (intro conjunct2 [OF english_match_opens_first_tab [where query = "''typeface''"]] settings_page.select_convs)
qed

lemmas toggle_lists = startup_controls_def behaviour_connection_controls_def auto_update_controls_def
  tls_toggles_def chain_toggles_def privacy_toggles_def

text \<open>Every switch of the settings shows what it was last set to, and setting it leaves all the others
  as they are.\<close>

theorem switches_set_only_themselves:
  "\<forall>a \<in> set (all_toggles is_phone). \<forall>b \<in> set (all_toggles is_phone).
     toggle_shown (toggle_set on a s) b = (if toggle_title a = toggle_title b then on else toggle_shown s b)"
  by (simp add: all_toggles_def toggle_lists on_unless_off_def)

theorem switches_set_only_themselves_witness:
  "toggle_shown (toggle_set False (hd privacy_toggles) pending_settings) (hd privacy_toggles) = False"
proof -
  have "hd privacy_toggles \<in> set (all_toggles True)" by (simp add: all_toggles_def privacy_toggles_def)
  with switches_set_only_themselves [of True False pending_settings] show ?thesis by simp
qed

text \<open>On macOS, where a window cannot be hidden completely, that choice is neither offered nor shown as
  chosen; on every system exactly one of the offered choices is shown as chosen, and choosing one
  shows it.\<close>

theorem close_choice_is_offered:
  "length (filter (\<lambda>c. co_id c = close_shown is_mac s) (close_options is_mac)) = 1
    \<and> (is_mac \<longrightarrow> Hide \<notin> co_id ` set (close_options is_mac) \<and> close_shown is_mac s \<noteq> Hide)
    \<and> (\<forall>c \<in> set (close_options is_mac). close_shown is_mac (st_close_action_update (\<lambda>_. co_id c) s) = co_id c)"
  by (cases "st_close_action s"; cases is_mac)
    (simp_all add: close_options_def CLOSE_OPTIONS_def close_entry_def close_shown_def)

theorem close_choice_is_offered_witness:
  "close_shown True (pending_settings\<lparr>st_close_action := Hide\<rparr>) \<noteq> Hide"
  using close_choice_is_offered [of True "pending_settings\<lparr>st_close_action := Hide\<rparr>"] by simp

text \<open>What happens on the page while one request to open a section stands.\<close>

datatype page_event = NavigateTo "section_id option" | TypeQuery string | PressKey string | HomeSignal int | Reopened int

definition page_event :: "search_texts \<Rightarrow> bool \<Rightarrow> (string \<times> int) option \<Rightarrow> page_event \<Rightarrow> settings_page \<Rightarrow> settings_page" where
  "page_event e is_phone signal ev pg = (case ev of
     NavigateTo i \<Rightarrow> navigate e i pg
   | TypeQuery q \<Rightarrow> pg\<lparr>pg_query := q\<rparr>
   | PressKey k \<Rightarrow> search_key e is_phone k pg
   | HomeSignal h \<Rightarrow> home_effect h pg
   | Reopened h \<Rightarrow> mount_settings h signal pg)"

definition page_run :: "search_texts \<Rightarrow> bool \<Rightarrow> (string \<times> int) option \<Rightarrow> page_event list \<Rightarrow> settings_page \<Rightarrow> settings_page" where
  "page_run e is_phone signal evs pg = foldl (\<lambda>pg ev. page_event e is_phone signal ev pg) pg evs"

lemma open_effect_handled: "pg_handled pg = n \<Longrightarrow> open_effect (Some (name, n)) pg = pg"
  by (simp add: open_effect_def split: option.split)

lemma open_effect_None [simp]: "open_effect None pg = pg"
  by (simp add: open_effect_def)

lemma navigate_handled [simp]: "pg_handled (navigate e i pg) = pg_handled pg"
  by (simp add: navigate_def Let_def)

lemma search_key_handled [simp]: "pg_handled (search_key e b k pg) = pg_handled pg"
  by (simp add: search_key_def Let_def split: option.split list.split)

lemma home_effect_handled [simp]: "pg_handled (home_effect h pg) = pg_handled pg"
  by (simp add: home_effect_def)

lemma handled_request_run:
  "pg_handled pg = n \<Longrightarrow> page_run e b (Some (name, n)) evs pg = page_run e b None evs pg"
proof (induction evs arbitrary: pg)
  case (Cons ev evs)
  have "page_event e b (Some (name, n)) ev pg = page_event e b None ev pg \<and> pg_handled (page_event e b None ev pg) = n"
    using Cons.prems by (cases ev) (simp_all add: page_event_def mount_settings_def open_effect_handled)
  with Cons.IH show ?case by (simp add: page_run_def)
qed (simp add: page_run_def)

text \<open>A request from elsewhere to open a section of the settings is followed once: it opens the section when
  it is new, and whatever happens afterwards - other sections opened, the search used, Settings left
  and opened again while the request still stands - goes as if there were no request.\<close>

theorem open_request_followed_once:
  assumes "x \<in> set SECTIONS" "n \<noteq> pg_handled pg"
  shows "pg_open (open_effect (Some (section_name (sx_id x), n)) pg) = Some (sx_id x)
    \<and> page_run e is_phone (Some (section_name (sx_id x), n)) evs (open_effect (Some (section_name (sx_id x), n)) pg)
        = page_run e is_phone None evs (open_effect (Some (section_name (sx_id x), n)) pg)"
proof -
  have "find (\<lambda>s. section_name (sx_id s) = section_name (sx_id x)) SECTIONS = Some x"
    by (rule find_key [OF _ assms(1), of "\<lambda>s. section_name (sx_id s)"]) (simp add: SECTIONS_def section_entry_def)
  then have "open_effect (Some (section_name (sx_id x), n)) pg
      = pg\<lparr>pg_handled := n, pg_direction := Forward, pg_open := Some (sx_id x)\<rparr>"
    using assms(2) by (simp add: open_effect_def)
  then show ?thesis by (simp add: handled_request_run)
qed

theorem open_request_followed_once_witness:
  "pg_open (page_run sample_texts False (Some (''wifi'', 1)) [NavigateTo None, Reopened 5]
     (open_effect (Some (''wifi'', 1))
       \<lparr>pg_open = None, pg_query = [], pg_tab = ThemeTab, pg_handled = 0, pg_direction = Forward, pg_home = 4, pg_new_hop = []\<rparr>)) = None"
proof -
  have "section_entry WifiSection \<in> set SECTIONS" by (simp add: SECTIONS_def)
  from open_request_followed_once [OF this, of 1 "\<lparr>pg_open = None, pg_query = [], pg_tab = ThemeTab, pg_handled = 0,
      pg_direction = Forward, pg_home = 4, pg_new_hop = []\<rparr>" sample_texts False "[NavigateTo None, Reopened 5]"]
  show ?thesis
    by (simp add: section_entry_def page_run_def page_event_def mount_settings_def home_effect_def navigate_def)
qed

text \<open>What the user does with the chain, and the server in use changing meanwhile.\<close>

datatype chain_event = ChooseHop string | AddHop | MoveHop nat int | RemoveHop string | ExitChanged string

definition chain_event :: "profile list \<Rightarrow> chain_event \<Rightarrow> string \<times> app_settings \<times> settings_page
    \<Rightarrow> string \<times> app_settings \<times> settings_page" where
  "chain_event ps ev v =
     (case v of (selected, s, pg) \<Rightarrow> (case ev of
        ChooseHop hop \<Rightarrow> if hop \<in> p_id ` set (available_hops ps selected s) then (selected, s, pg\<lparr>pg_new_hop := hop\<rparr>) else v
      | AddHop \<Rightarrow> (selected, add_hop (s, pg))
      | MoveHop i d \<Rightarrow> if i < length (proxy_chain s) \<and> (d = 1 \<or> d = -1)
          then (selected, s\<lparr>proxy_chain := move_hop i d (proxy_chain s)\<rparr>, pg) else v
      | RemoveHop hop \<Rightarrow> (selected, s\<lparr>proxy_chain := remove_hop hop (proxy_chain s)\<rparr>, pg)
      | ExitChanged p \<Rightarrow> (p, s, pg)))"

definition chain_run :: "profile list \<Rightarrow> chain_event list \<Rightarrow> string \<times> app_settings \<times> settings_page
    \<Rightarrow> string \<times> app_settings \<times> settings_page" where
  "chain_run ps evs v = foldl (\<lambda>v ev. chain_event ps ev v) v evs"

lemma mset_move_hop: "i < length chain \<Longrightarrow> mset (move_hop i d chain) = mset chain"
  using mset_swap [of "nat (int i + d)" chain i] by (simp add: move_hop_def Let_def nat_less_iff)

lemma add_hop_chain:
  "proxy_chain (fst (add_hop (s, pg))) =
     (if pg_new_hop pg = [] \<or> pg_new_hop pg \<in> set (proxy_chain s) then proxy_chain s else proxy_chain s @ [pg_new_hop pg])"
  "pg_new_hop (snd (add_hop (s, pg))) \<in> {pg_new_hop pg, []}"
  by (simp_all add: add_hop_def Let_def)

definition chain_ok :: "profile list \<Rightarrow> string set \<Rightarrow> string \<times> app_settings \<times> settings_page \<Rightarrow> bool" where
  "chain_ok ps known v \<longleftrightarrow> distinct (proxy_chain (fst (snd v)))
     \<and> set (proxy_chain (fst (snd v))) \<subseteq> known \<union> p_id ` set ps
     \<and> (pg_new_hop (snd (snd v)) = [] \<or> pg_new_hop (snd (snd v)) \<in> p_id ` set ps)"

lemma chain_event_ok: "chain_ok ps known v \<Longrightarrow> chain_ok ps known (chain_event ps ev v)"
proof -
  assume ok: "chain_ok ps known v"
  obtain selected s pg where v: "v = (selected, s, pg)" by (cases v) auto
  show ?thesis
  proof (cases ev)
    case (ChooseHop hop)
    with ok v show ?thesis by (auto simp: chain_event_def chain_ok_def available_hops_def)
  next
    case AddHop
    with ok v show ?thesis using add_hop_chain(2) [of s pg] by (auto simp: chain_event_def chain_ok_def add_hop_chain(1))
  next
    case (MoveHop i d)
    show ?thesis
    proof (cases "i < length (proxy_chain s) \<and> (d = 1 \<or> d = -1)")
      case True
      then have "mset (move_hop i d (proxy_chain s)) = mset (proxy_chain s)" by (simp add: mset_move_hop)
      then have "set (move_hop i d (proxy_chain s)) = set (proxy_chain s)"
        "distinct (move_hop i d (proxy_chain s)) = distinct (proxy_chain s)"
        by (metis set_mset_mset, metis mset_eq_imp_distinct_iff)
      with ok v MoveHop show ?thesis by (simp add: chain_event_def chain_ok_def)
    next
      case False
      with ok v MoveHop show ?thesis by (auto simp: chain_event_def)
    qed
  next
    case (RemoveHop hop)
    with ok v show ?thesis by (auto simp: chain_event_def chain_ok_def remove_hop_def)
  next
    case (ExitChanged p)
    with ok v show ?thesis by (simp add: chain_event_def chain_ok_def)
  qed
qed

lemma chain_run_ok: "chain_ok ps known v \<Longrightarrow> chain_ok ps known (chain_run ps evs v)"
  unfolding chain_run_def by (induction evs arbitrary: v) (simp_all add: chain_event_ok)

lemma move_hop_back:
  assumes "Suc i < length chain"
  shows "move_hop (Suc i) (-1) (move_hop i 1 chain) = chain" "move_hop i 1 (move_hop (Suc i) (-1) chain) = chain"
proof -
  have a: "move_hop i 1 c = c[i := c ! Suc i, Suc i := c ! i]" "move_hop (Suc i) (-1) c = c[Suc i := c ! i, i := c ! Suc i]"
    if "length c = length chain" for c
    using that assms by (simp_all add: move_hop_def Let_def nat_add_distrib)
  show "move_hop (Suc i) (-1) (move_hop i 1 chain) = chain" "move_hop i 1 (move_hop (Suc i) (-1) chain) = chain"
    using assms by (simp_all add: a list_eq_iff_nth_eq nth_list_update)
qed

text \<open>C28: However hops are chosen, added, moved and removed on the settings screen, and whatever happens to the
  server in use meanwhile, no server stands twice in the chain and only servers that were there or that
  the app has stand in it; moving a hop only reorders, and moving it back restores the
  order.\<close>

theorem settings_chain_edits:
  fixes ps evs selected pg
  assumes "distinct (proxy_chain s)"
  defines "after \<equiv> proxy_chain (fst (snd (chain_run ps evs (selected, s, pg\<lparr>pg_new_hop := []\<rparr>))))"
  shows "distinct after \<and> set after \<subseteq> set (proxy_chain s) \<union> p_id ` set ps
    \<and> (\<forall>i d. i < length after \<longrightarrow> mset (move_hop i d after) = mset after)
    \<and> (\<forall>i. Suc i < length after \<longrightarrow> move_hop (Suc i) (-1) (move_hop i 1 after) = after
         \<and> move_hop i 1 (move_hop (Suc i) (-1) after) = after)"
proof -
  have "chain_ok ps (set (proxy_chain s)) (selected, s, pg\<lparr>pg_new_hop := []\<rparr>)"
    using assms(1) by (simp add: chain_ok_def)
  from chain_run_ok [OF this, of evs] show ?thesis
    by (simp add: chain_ok_def after_def mset_move_hop move_hop_back)
qed

definition sample_page :: settings_page where
  "sample_page = \<lparr>pg_open = Some ChainSection, pg_query = [], pg_tab = ThemeTab, pg_handled = 0, pg_direction = Forward,
     pg_home = 0, pg_new_hop = []\<rparr>"

theorem settings_chain_edits_witness:
  "distinct (proxy_chain (fst (snd (chain_run [sample_profile ''b'' None] [ChooseHop ''b'', AddHop, MoveHop 1 (-1)]
     (''a'', pending_settings\<lparr>proxy_chain := [''c'']\<rparr>, sample_page\<lparr>pg_new_hop := []\<rparr>)))))"
  using settings_chain_edits [where s = "pending_settings\<lparr>proxy_chain := [''c'']\<rparr>" and ps = "[sample_profile ''b'' None]"
      and evs = "[ChooseHop ''b'', AddHop, MoveHop 1 (-1)]" and selected = "''a''" and pg = sample_page] by simp

text \<open>The server in use is never offered as a hop, yet it can become one: chosen as a hop first, put in use
  before Add is pressed, it is added - it then stands in the chain before itself.\<close>

theorem exit_added_as_hop:
  fixes pg
  assumes "p \<in> set (available_hops ps selected s)" "p_id p \<noteq> []"
  defines "v \<equiv> chain_run ps [ChooseHop (p_id p), ExitChanged (p_id p), AddHop] (selected, s, pg)"
  shows "fst v = p_id p \<and> p_id p \<in> set (proxy_chain (fst (snd v)))
    \<and> (\<forall>s'. p_id p \<notin> p_id ` set (available_hops ps (p_id p) s'))"
  using assms(1,2)
  by (auto simp: v_def chain_run_def chain_event_def available_hops_def add_hop_def Let_def)

theorem exit_added_as_hop_witness:
  "''b'' \<in> set (proxy_chain (fst (snd (chain_run [sample_profile ''b'' None] [ChooseHop ''b'', ExitChanged ''b'', AddHop]
     (''a'', pending_settings, sample_page)))))"
  using exit_added_as_hop [where p = "sample_profile ''b'' None" and ps = "[sample_profile ''b'' None]" and selected = "''a''"
      and s = pending_settings and pg = sample_page]
  by (simp add: available_hops_def pending_settings_def)

end
