(* ===== verification/Settings_Panels.thy ===== *)
theory Settings_Panels
  imports Settings_Screen Format
begin

text \<open>
  The panels of the settings screen with state of their own: the subscription identity
  (components/views/SubscriptionIdentity.tsx), the cores, the Wi-Fi rules, the shortcut recorder, the
  updates and the backup (components/settings/cores.tsx, wifi.tsx, shortcut.tsx, updates.tsx,
  backup.tsx), and the speed test (components/speed-test.tsx).  \<open>t\<close> is the translation function.
\<close>

section \<open>Subscription identity\<close>

definition USER_AGENTS :: "(string \<times> string) list" where
  "USER_AGENTS =
     [(''NuggetVPN/1.0'', ''NuggetVPN''), (''Happ/4.9.0'', ''Happ''), (''Beam/2.0'', ''BEAM''),
      (''v2rayNG/1.9.16'', ''v2rayNG''), (''Streisand'', ''Streisand''), (''Hiddify/2.0.5'', ''Hiddify'')]"

definition CUSTOM :: string where
  "CUSTOM = ''__custom__''"

definition known_agent :: "app_settings \<Rightarrow> bool" where
  "known_agent s = list_ex (\<lambda>a. fst a = subscription_user_agent s) USER_AGENTS"

text \<open>The settings, and whether a text of one's own is entered.\<close>

definition opened_identity :: "app_settings \<Rightarrow> app_settings \<times> bool" where
  "opened_identity s = (s, \<not> known_agent s)"

definition agent_shown :: "app_settings \<times> bool \<Rightarrow> string" where
  "agent_shown v = (if snd v then CUSTOM else subscription_user_agent (fst v))"

definition pick_agent :: "string \<Rightarrow> app_settings \<times> bool \<Rightarrow> app_settings \<times> bool" where
  "pick_agent value v =
     (if value = CUSTOM then (fst v, True) else ((fst v)\<lparr>subscription_user_agent := value\<rparr>, False))"

definition type_agent :: "string \<Rightarrow> app_settings \<times> bool \<Rightarrow> app_settings \<times> bool" where
  "type_agent value v = (if snd v then ((fst v)\<lparr>subscription_user_agent := value\<rparr>, snd v) else v)"

definition agent_items :: "texts \<Rightarrow> (string \<times> string) list" where
  "agent_items t =
     map (\<lambda>a. (fst a, if fst a = ''NuggetVPN/1.0'' then t ''identity.defaultAgent'' (Some [(''name'', TextParam (snd a))]) else snd a))
       USER_AGENTS @ [(CUSTOM, t ''identity.custom'' None)]"

definition identity_fields :: "app_settings \<Rightarrow> control list" where
  "identity_fields s =
     Toggle ''identity.sendDeviceId'' ''identity.deviceIdDescription''
       (\<lambda>s. on_unless_off (hwid_enabled s)) (\<lambda>b. hwid_enabled_update (\<lambda>_. Some b))
     # (if on_unless_off (hwid_enabled s)
        then [Line (st_hwid s), PressButton ''identity.copy'', PressButton ''identity.regenerate'',
              TextBox ''identity.system'' device_os (\<lambda>v. device_os_update (\<lambda>_. v)),
              TextBox ''identity.version'' device_os_version (\<lambda>v. device_os_version_update (\<lambda>_. v)),
              TextBox ''identity.model'' device_model (\<lambda>v. device_model_update (\<lambda>_. v))]
        else [])"

section \<open>Cores\<close>

record core_entry =
  ce_id :: core_name
  ce_title :: string
  ce_summary :: string
  ce_limits :: "string list"

definition core_entry :: "core_name \<Rightarrow> string \<Rightarrow> string list \<Rightarrow> core_entry" where
  "core_entry i title limits = \<lparr>ce_id = i, ce_title = title, ce_summary = title @ ''.summary'', ce_limits = limits\<rparr>"

definition CORES :: "core_entry list" where
  "CORES =
     [core_entry Builtin ''core.builtin'' [],
      core_entry SingBox ''core.singbox'' [''core.singbox.limit.xhttp''],
      core_entry Mihomo ''core.mihomo''
        [''core.mihomo.limit.protocol'', ''core.mihomo.limit.srs'', ''core.mihomo.limit.geo'', ''core.mihomo.limit.tls''],
      core_entry Xray ''core.xray'' [''core.xray.limit.protocols'', ''core.xray.limit.plugins'', ''core.xray.limit.tls'']]"

definition offered_cores :: "bool \<Rightarrow> core_entry list" where
  "offered_cores is_android = filter (\<lambda>c. \<not> is_android \<or> ce_id c = Builtin \<or> ce_id c = Xray) CORES"

text \<open>The panel: the settings, the versions reported, the core being set, the requests sent and the notices shown.\<close>

record core_panel =
  cp_settings :: app_settings
  cp_versions :: "(core_name \<times> string option) list"
  cp_busy :: "core_name option"
  cp_sent :: "core_name list"
  cp_notices :: "(bool \<times> string) list"

datatype core_event =
    VersionsRead "(core_name \<times> string option) list"
  | ClickCore core_name
  | CoreSet app_settings
  | CoreRefused string

definition choose_core :: "core_name \<Rightarrow> core_panel \<Rightarrow> core_panel" where
  "choose_core i v =
     (if i = st_core (cp_settings v) then v else v\<lparr>cp_busy := Some i, cp_sent := cp_sent v @ [i]\<rparr>)"

definition core_event :: "texts \<Rightarrow> core_event \<Rightarrow> core_panel \<Rightarrow> core_panel" where
  "core_event t e v = (case e of
     VersionsRead vs \<Rightarrow> v\<lparr>cp_versions := vs\<rparr>
   | ClickCore i \<Rightarrow> if cp_busy v = None then choose_core i v else v
   | CoreSet new \<Rightarrow>
       (case cp_busy v of
          None \<Rightarrow> v
        | Some i \<Rightarrow> v\<lparr>cp_settings := (cp_settings v)\<lparr>st_core := st_core new\<rparr>, cp_busy := None,
            cp_notices := cp_notices v @ [(True, t ''core.chosen'' (Some [(''name'', TextParam (t (case find (\<lambda>c. ce_id c = i) CORES of
                Some c \<Rightarrow> ce_title c | None \<Rightarrow> []) None))]))]\<rparr>)
   | CoreRefused reason \<Rightarrow>
       (case cp_busy v of None \<Rightarrow> v | Some i \<Rightarrow> v\<lparr>cp_busy := None, cp_notices := cp_notices v @ [(False, reason)]\<rparr>))"

text \<open>What the row of a core shows: its title, its version, whether it is the default, whether it is in use.\<close>

definition core_row :: "texts \<Rightarrow> core_panel \<Rightarrow> core_entry \<Rightarrow> string \<times> string option \<times> bool \<times> bool" where
  "core_row t v c =
     (t (ce_title c) None,
      Option.bind (map_of (rev (cp_versions v)) (ce_id c)) (\<lambda>w. Option.bind w (\<lambda>x. if x = [] then None else Some x)),
      ce_id c = Builtin, st_core (cp_settings v) = ce_id c)"

section \<open>Wi-Fi rules\<close>

record wifi_state =
  wf_on :: bool
  wf_ssid :: string
  wf_hidden :: bool
  wf_unsupported :: bool

record wifi_panel =
  wp_trusted :: "string list"
  wp_network :: "wifi_state option"
  wp_draft :: string

definition add_network :: "string \<Rightarrow> wifi_panel \<Rightarrow> wifi_panel" where
  "add_network name v =
     (let new = js_trim name in
      if new = [] \<or> new \<in> set (wp_trusted v) then v
      else v\<lparr>wp_trusted := wp_trusted v @ [new], wp_draft := []\<rparr>)"

definition forget_network :: "string \<Rightarrow> wifi_panel \<Rightarrow> wifi_panel" where
  "forget_network name v = v\<lparr>wp_trusted := filter (\<lambda>n. n \<noteq> name) (wp_trusted v)\<rparr>"

definition current_network :: "wifi_panel \<Rightarrow> string" where
  "current_network v = (case wp_network v of Some n \<Rightarrow> wf_ssid n | None \<Rightarrow> [])"

definition wifi_title :: "texts \<Rightarrow> wifi_panel \<Rightarrow> string" where
  "wifi_title t v =
     (case wp_network v of
        None \<Rightarrow> ELLIPSIS
      | Some n \<Rightarrow>
          if wf_unsupported n then t ''wifi.unsupported'' None
          else if wf_hidden n then t ''wifi.hidden'' None
          else if wf_on n then current_network v
          else t ''wifi.none'' None)"

definition wifi_hint :: "texts \<Rightarrow> wifi_panel \<Rightarrow> string" where
  "wifi_hint t v =
     (case wp_network v of
        None \<Rightarrow> t ''wifi.current'' None
      | Some n \<Rightarrow>
          if wf_hidden n then t ''wifi.hidden.hint'' None
          else if wf_on n \<and> current_network v \<noteq> []
          then t (if current_network v \<in> set (wp_trusted v) then ''wifi.current.trusted'' else ''wifi.current.untrusted'') None
          else t ''wifi.current'' None)"

definition offers_trust :: "wifi_panel \<Rightarrow> bool" where
  "offers_trust v \<longleftrightarrow> (case wp_network v of
     None \<Rightarrow> False
   | Some n \<Rightarrow> wf_on n \<and> current_network v \<noteq> [] \<and> current_network v \<notin> set (wp_trusted v))"

definition wifi_toggles :: "control list" where
  "wifi_toggles =
     [Toggle ''wifi.autoConnect'' ''wifi.autoConnect.description'' wifi_auto_connect (\<lambda>b. wifi_auto_connect_update (\<lambda>_. b)),
      Toggle ''wifi.trustedDisconnect'' ''wifi.trustedDisconnect.description'' wifi_trusted_disconnect
        (\<lambda>b. wifi_trusted_disconnect_update (\<lambda>_. b))]"

datatype wifi_event = Joined wifi_state | TypeName string | SubmitName | TrustCurrent | Forget string

definition wifi_event :: "wifi_event \<Rightarrow> wifi_panel \<Rightarrow> wifi_panel" where
  "wifi_event e v = (case e of
     Joined n \<Rightarrow> v\<lparr>wp_network := Some n\<rparr>
   | TypeName s \<Rightarrow> v\<lparr>wp_draft := s\<rparr>
   | SubmitName \<Rightarrow> add_network (wp_draft v) v
   | TrustCurrent \<Rightarrow> if offers_trust v then add_network (current_network v) v else v
   | Forget name \<Rightarrow> forget_network name v)"

section \<open>Recording a shortcut\<close>

record key_event =
  ke_key :: string
  ke_code :: string
  ke_ctrl :: bool
  ke_alt :: bool
  ke_shift :: bool
  ke_meta :: bool

definition F_KEYS :: "string list" where
  "F_KEYS = map (\<lambda>n. CHR ''F'' # nat_str n) [1..<25]"

definition key_name :: "key_event \<Rightarrow> string option" where
  "key_name e =
     (let code = ke_code e in
      if js_starts_with code ''Key'' \<and> length code = 4 \<and> code ! 3 \<in> set upper_letters then Some (drop 3 code)
      else if js_starts_with code ''Digit'' \<and> length code = 6 \<and> code ! 5 \<in> set digits then Some (drop 5 code)
      else if code \<in> set F_KEYS then Some code
      else None)"

definition modifiers :: "key_event \<Rightarrow> string list" where
  "modifiers e = filter (\<lambda>m. m \<noteq> [])
     [if ke_ctrl e then ''Ctrl'' else [], if ke_alt e then ''Alt'' else [],
      if ke_shift e then ''Shift'' else [], if ke_meta e then ''Super'' else []]"

record shortcut_recorder =
  sr_value :: string
  sr_recording :: bool
  sr_error :: string
  sr_held :: string

datatype shortcut_event = ClickRecord | KeyDown key_event | Blurred | ClearShortcut | ShortcutSaved string | ShortcutRefused string

text \<open>What is registered with the service, if anything: \<open>save\<close> clears the error first.\<close>

definition key_down :: "texts \<Rightarrow> key_event \<Rightarrow> shortcut_recorder \<Rightarrow> shortcut_recorder \<times> string option" where
  "key_down t e v =
     (if \<not> sr_recording v then (v, None)
      else if ke_key e = ''Escape'' then (v\<lparr>sr_recording := False, sr_held := []\<rparr>, None)
      else
        (let held = v\<lparr>sr_held := js_join ''+'' (filter (\<lambda>m. m \<noteq> []) (modifiers e @ [or_else (key_name e) []]))\<rparr> in
         case key_name e of
           None \<Rightarrow> (held, None)
         | Some key \<Rightarrow>
             if \<not> ke_ctrl e \<and> \<not> ke_alt e \<and> \<not> ke_meta e
             then (held\<lparr>sr_error := t ''shortcut.needsModifier'' None\<rparr>, None)
             else (held\<lparr>sr_recording := False, sr_held := [], sr_error := []\<rparr>, Some (js_join ''+'' (modifiers e @ [key])))))"

definition shortcut_event :: "texts \<Rightarrow> shortcut_event \<Rightarrow> shortcut_recorder \<Rightarrow> shortcut_recorder \<times> string option" where
  "shortcut_event t e v = (case e of
     ClickRecord \<Rightarrow> (v\<lparr>sr_error := [], sr_recording := True\<rparr>, None)
   | KeyDown k \<Rightarrow> key_down t k v
   | Blurred \<Rightarrow> (v\<lparr>sr_recording := False, sr_held := []\<rparr>, None)
   | ClearShortcut \<Rightarrow> if sr_value v \<noteq> [] \<and> \<not> sr_recording v then (v\<lparr>sr_error := []\<rparr>, Some []) else (v, None)
   | ShortcutSaved spec \<Rightarrow> (v\<lparr>sr_value := spec\<rparr>, None)
   | ShortcutRefused reason \<Rightarrow> (v\<lparr>sr_error := reason\<rparr>, None))"

definition recorder_text :: "texts \<Rightarrow> shortcut_recorder \<Rightarrow> string" where
  "recorder_text t v =
     (if sr_recording v then (if sr_held v = [] then t ''shortcut.press'' None else sr_held v)
      else if sr_value v = [] then t ''shortcut.none'' None else sr_value v)"

section \<open>Updates\<close>

record updates_panel =
  up_info :: "update_info option"
  up_checking :: bool
  up_error :: string
  up_progress :: "(rat \<times> rat) option"
  up_installing :: bool

datatype update_call = CheckForUpdate | InstallUpdate

datatype update_event =
    ClickCheck
  | CheckAnswered "string + update_info"
  | ClickInstall
  | Progressed rat rat
  | InstallAnswered "string option"

text \<open>Opening the panel checks at once.\<close>

definition opened_updates :: "updates_panel \<times> update_call list" where
  "opened_updates =
     (\<lparr>up_info = None, up_checking = True, up_error = [], up_progress = None, up_installing = False\<rparr>, [CheckForUpdate])"

definition update_event :: "update_event \<Rightarrow> updates_panel \<Rightarrow> updates_panel \<times> update_call list" where
  "update_event e v = (case e of
     ClickCheck \<Rightarrow> if up_checking v \<or> up_installing v then (v, [])
       else (v\<lparr>up_checking := True, up_error := []\<rparr>, [CheckForUpdate])
   | CheckAnswered (Inr info) \<Rightarrow> (v\<lparr>up_info := Some info, up_checking := False\<rparr>, [])
   | CheckAnswered (Inl reason) \<Rightarrow> (v\<lparr>up_error := reason, up_checking := False\<rparr>, [])
   | ClickInstall \<Rightarrow>
       if up_installing v \<or> \<not> (case up_info v of Some i \<Rightarrow> up_available i \<and> up_installable i | None \<Rightarrow> False) then (v, [])
       else (v\<lparr>up_installing := True, up_error := [], up_progress := None\<rparr>, [InstallUpdate])
   | Progressed received whole \<Rightarrow> (v\<lparr>up_progress := Some (received, whole)\<rparr>, [])
   | InstallAnswered None \<Rightarrow> (v\<lparr>up_installing := False\<rparr>, [])
   | InstallAnswered (Some reason) \<Rightarrow> (v\<lparr>up_error := reason, up_installing := False\<rparr>, []))"

definition update_percent :: "updates_panel \<Rightarrow> int" where
  "update_percent v =
     (case up_progress v of
        Some (received, whole) \<Rightarrow> if 0 < whole then js_round (received / whole * 100) else 0
      | None \<Rightarrow> 0)"

text \<open>\<open>time\<close> is the browser's text of a time of day.\<close>

definition update_text :: "texts \<Rightarrow> (int \<Rightarrow> string) \<Rightarrow> updates_panel \<Rightarrow> string" where
  "update_text t time v =
     (if up_checking v then t ''updates.checking'' None
      else if up_error v \<noteq> [] then up_error v
      else case up_info v of
        Some i \<Rightarrow>
          if up_available i then t ''updates.available'' (Some [(''version'', TextParam (up_latest i))])
          else t ''updates.upToDate'' (Some [(''time'', TextParam (time (up_checked_at i * 1000)))])
      | None \<Rightarrow> [])"

definition update_toggles :: "control list" where
  "update_toggles =
     [Toggle ''updates.auto'' ''updates.auto.description''
        (\<lambda>s. on_unless_off (update_check s)) (\<lambda>b. update_check_update (\<lambda>_. Some b))]"

section \<open>Backup\<close>

definition window_key :: "string \<Rightarrow> bool" where
  "window_key k \<longleftrightarrow> k \<noteq> [] \<and> (k = ''theme'' \<or> js_starts_with k ''nugget.'')"

text \<open>The window's part of a backup; no storage (\<open>None\<close>) has none.\<close>

definition window_state :: "(string, string) omap option \<Rightarrow> (string, string) omap" where
  "window_state storage = foldl (\<lambda>m e. if window_key (fst e) then om_set m (fst e) (snd e) else m) [] (or_else storage [])"

definition restore_window :: "(string, string) omap option \<Rightarrow> (string, string) omap \<Rightarrow> (string, string) omap" where
  "restore_window ui storage =
     foldl (\<lambda>m e. if fst e = ''theme'' \<or> js_starts_with (fst e) ''nugget.'' then om_set m (fst e) (snd e) else m)
       storage (or_else ui [])"

text \<open>
  What an import does: whether the window reloads, the storage it then finds, and the notice.
  \<open>Inl\<close> is a refusal, \<open>Inr None\<close> an import the user cancelled.
\<close>

definition import_backup :: "string + (string, string) omap option option \<Rightarrow> (string, string) omap
    \<Rightarrow> bool \<times> (string, string) omap \<times> string option" where
  "import_backup answer storage = (case answer of
     Inl reason \<Rightarrow> (False, storage, Some reason)
   | Inr None \<Rightarrow> (False, storage, None)
   | Inr (Some ui) \<Rightarrow> (True, restore_window ui storage, None))"

text \<open>\<open>path.split(/[\/]/).pop()\<close>.\<close>

definition file_name :: "string \<Rightarrow> string" where
  "file_name path = rev (takeWhile (\<lambda>c. c \<noteq> CHR ''/'' \<and> c \<noteq> CHR 0x5C) (rev path))"

definition export_notice :: "texts \<Rightarrow> string + string \<Rightarrow> (bool \<times> string) option" where
  "export_notice t answer = (case answer of
     Inl reason \<Rightarrow> Some (False, reason)
   | Inr path \<Rightarrow> if path = [] then None
       else Some (True, t ''backup.saved'' (Some [(''file'', TextParam (file_name path))])))"

section \<open>Speed test\<close>

datatype speed_phase = LatencyPhase | DownloadPhase | UploadPhase

record speed_progress =
  sg_phase :: speed_phase
  sg_fraction :: rat
  sg_mbps :: rat
  sg_latency :: rat

record speed_result =
  se_at :: int
  se_server :: string
  se_download :: rat
  se_upload :: rat
  se_latency :: rat
  se_jitter :: rat

fun PHASES :: "speed_phase \<Rightarrow> string" where
  "PHASES LatencyPhase = ''speed.phase.latency''"
| "PHASES DownloadPhase = ''speed.phase.download''"
| "PHASES UploadPhase = ''speed.phase.upload''"

definition mbps :: "rat \<Rightarrow> string" where
  "mbps v = (if 100 \<le> v then to_fixed 0 v else if 10 \<le> v then to_fixed 1 v else to_fixed 2 v)"

record speed_test =
  sp_running :: bool
  sp_progress :: "speed_progress option"
  sp_result :: "speed_result option"
  sp_download :: "rat option"
  sp_upload :: "rat option"
  sp_notice :: "string option"

datatype speed_event =
    PastResults "speed_result list option"
  | SpeedProgressed speed_progress
  | RunSpeed
  | SpeedDone "string + speed_result"

definition speed_event :: "speed_event \<Rightarrow> speed_test \<Rightarrow> speed_test" where
  "speed_event e v = (case e of
     PastResults rs \<Rightarrow> v\<lparr>sp_result := (case or_else rs [] of [] \<Rightarrow> None | (r # rs) \<Rightarrow> Some (last (r # rs)))\<rparr>
   | SpeedProgressed p \<Rightarrow>
       (let w = v\<lparr>sp_progress := Some p\<rparr> in
        case sg_phase p of
          DownloadPhase \<Rightarrow> w\<lparr>sp_download := Some (sg_mbps p)\<rparr>
        | UploadPhase \<Rightarrow> w\<lparr>sp_upload := Some (sg_mbps p)\<rparr>
        | LatencyPhase \<Rightarrow> w)
   | RunSpeed \<Rightarrow> if sp_running v then v else
       v\<lparr>sp_running := True, sp_download := None, sp_upload := None,
         sp_progress := Some \<lparr>sg_phase = LatencyPhase, sg_fraction = 0, sg_mbps = 0, sg_latency = 0\<rparr>\<rparr>
   | SpeedDone (Inr r) \<Rightarrow> v\<lparr>sp_result := Some r, sp_running := False, sp_progress := None\<rparr>
   | SpeedDone (Inl reason) \<Rightarrow> v\<lparr>sp_running := False, sp_progress := None,
       sp_notice := (if reason = ''stopped'' then sp_notice v else Some reason)\<rparr>)"

definition speed_download :: "speed_test \<Rightarrow> rat option" where
  "speed_download v = (if sp_running v then sp_download v else map_option se_download (sp_result v))"

definition speed_upload :: "speed_test \<Rightarrow> rat option" where
  "speed_upload v = (if sp_running v then sp_upload v else map_option se_upload (sp_result v))"

definition speed_latency :: "speed_test \<Rightarrow> rat option" where
  "speed_latency v = (if sp_running v then map_option sg_latency (sp_progress v) else map_option se_latency (sp_result v))"

text \<open>The four figures; a dash where there is none.\<close>

definition speed_figures :: "speed_test \<Rightarrow> string list" where
  "speed_figures v =
     [(case speed_download v of Some d \<Rightarrow> mbps d | None \<Rightarrow> DASH),
      (case speed_upload v of Some u \<Rightarrow> mbps u | None \<Rightarrow> DASH),
      (case speed_latency v of Some l \<Rightarrow> if l \<noteq> 0 then to_fixed 0 l else DASH | None \<Rightarrow> DASH),
      (case sp_result v of Some r \<Rightarrow> if \<not> sp_running v then to_fixed 1 (se_jitter r) else DASH | None \<Rightarrow> DASH)]"

definition speed_line :: "texts \<Rightarrow> (int \<Rightarrow> string) \<Rightarrow> speed_test \<Rightarrow> string" where
  "speed_line t time v =
     (case (if sp_running v then sp_progress v else None) of
        Some p \<Rightarrow> t (PHASES (sg_phase p)) None
      | None \<Rightarrow>
          (case sp_result v of
             Some r \<Rightarrow> t ''speed.last'' (Some [(''server'', TextParam (se_server r)), (''when'', TextParam (time (se_at r * 1000)))])
           | None \<Rightarrow> t ''speed.hint'' None))"

definition speed_bar :: "speed_test \<Rightarrow> int" where
  "speed_bar v = js_round (case sp_progress v of Some p \<Rightarrow> sg_fraction p * 100 | None \<Rightarrow> 0)"

section \<open>Properties\<close>

text \<open>Names as the service keeps them: trimmed, none empty, none twice.\<close>

definition networks_ok :: "string list \<Rightarrow> bool" where
  "networks_ok ns \<longleftrightarrow> distinct ns \<and> (\<forall>n \<in> set ns. n \<noteq> [] \<and> js_trim n = n)"

lemma add_network_ok: "networks_ok (wp_trusted v) \<Longrightarrow> networks_ok (wp_trusted (add_network name v))"
  by (auto simp: add_network_def Let_def networks_ok_def js_trim_idem)

lemma wifi_event_ok: "networks_ok (wp_trusted v) \<Longrightarrow> networks_ok (wp_trusted (wifi_event e v))"
proof (cases e)
  case (Forget name)
  assume "networks_ok (wp_trusted v)"
  with Forget show ?thesis by (auto simp: wifi_event_def forget_network_def networks_ok_def)
qed (simp_all add: wifi_event_def add_network_ok)

lemma wifi_run_ok: "networks_ok (wp_trusted v) \<Longrightarrow> networks_ok (wp_trusted (fold wifi_event es v))"
  by (induction es arbitrary: v) (simp_all add: wifi_event_ok)

text \<open>The trusted networks stay a list of distinct, trimmed, non-empty names whatever is typed, trusted and
  removed; and pressing Trust on the current network makes it trusted exactly when its name neither
  begins nor ends with white space.\<close>

theorem trusted_networks_clean:
  assumes "networks_ok (wp_trusted v)"
  shows "networks_ok (wp_trusted (fold wifi_event es v))
    \<and> (offers_trust (fold wifi_event es v) \<longrightarrow>
        (let w = wifi_event TrustCurrent (fold wifi_event es v) in
         (current_network w \<in> set (wp_trusted w) \<longleftrightarrow> js_trim (current_network w) = current_network w)
         \<and> (offers_trust w \<longleftrightarrow> js_trim (current_network w) \<noteq> current_network w)))"
proof (intro conjI impI)
  let ?v = "fold wifi_event es v"
  show ok: "networks_ok (wp_trusted ?v)" using assms by (rule wifi_run_ok)
  assume o: "offers_trust ?v"
  let ?n = "current_network ?v" and ?w = "wifi_event TrustCurrent (fold wifi_event es v)"
  have w: "?w = add_network ?n ?v" "wp_network ?w = wp_network ?v"
    using o by (simp_all add: wifi_event_def add_network_def Let_def)
  then have c: "current_network ?w = ?n" by (simp add: current_network_def)
  have n: "?n \<noteq> []" "?n \<notin> set (wp_trusted ?v)" using o by (auto simp: offers_trust_def split: option.splits)
  have t: "?n \<in> set (wp_trusted ?w) \<longleftrightarrow> js_trim ?n = ?n"
    using n unfolding w(1) by (auto simp: add_network_def Let_def)
  moreover have "offers_trust ?w \<longleftrightarrow> ?n \<notin> set (wp_trusted ?w)"
    using o w(2) c by (auto simp: offers_trust_def split: option.splits)
  ultimately show "let w = ?w in (current_network w \<in> set (wp_trusted w) \<longleftrightarrow> js_trim (current_network w) = current_network w)
         \<and> (offers_trust w \<longleftrightarrow> js_trim (current_network w) \<noteq> current_network w)"
    by (simp add: c Let_def)
qed

text \<open>A shortcut is sent to the service only with Ctrl, Alt or Super and one key, A to Z, 0 to 9 or F1 to F24,
  and only while recording, which it ends; Escape ends it with nothing sent.\<close>

theorem shortcut_has_modifier_and_key:
  assumes "shortcut_event t (KeyDown k) v = (w, Some spec)"
  shows "sr_recording v \<and> \<not> sr_recording w \<and> ke_key k \<noteq> ''Escape'' \<and> (ke_ctrl k \<or> ke_alt k \<or> ke_meta k)
    \<and> (\<exists>key. key_name k = Some key \<and> spec = js_join ''+'' (modifiers k @ [key])
        \<and> (key \<in> set F_KEYS \<or> (\<exists>c \<in> set (upper_letters @ digits). key = [c])))"
proof -
  have key: "key_name k = Some key \<Longrightarrow> key \<in> set F_KEYS \<or> (\<exists>c \<in> set (upper_letters @ digits). key = [c])" for key
  proof -
    have one: "length c = Suc n \<Longrightarrow> drop n c = [c ! n]" for c :: string and n
      by (metis Cons_nth_drop_Suc drop_all lessI order_refl)
    assume "key_name k = Some key"
    then consider "length (ke_code k) = 4" "ke_code k ! 3 \<in> set upper_letters" "key = drop 3 (ke_code k)"
      | "length (ke_code k) = 6" "ke_code k ! 5 \<in> set digits" "key = drop 5 (ke_code k)"
      | "key \<in> set F_KEYS"
      unfolding key_name_def Let_def by (metis option.inject option.distinct(1))
    then show ?thesis
    proof cases
      case 1
      with one [of "ke_code k" 3] show ?thesis by (intro disjI2 bexI [of _ "ke_code k ! 3"]) simp_all
    next
      case 2
      with one [of "ke_code k" 5] show ?thesis by (intro disjI2 bexI [of _ "ke_code k ! 5"]) simp_all
    qed simp
  qed
  have s: "key_down t k v = (w, Some spec)" using assms by (simp add: shortcut_event_def)
  then have r: "sr_recording v" "ke_key k \<noteq> ''Escape''" by (auto simp: key_down_def split: if_splits)
  with s obtain key' where k: "key_name k = Some key'" by (cases "key_name k") (auto simp: key_down_def Let_def)
  with s r have "ke_ctrl k \<or> ke_alt k \<or> ke_meta k" by (auto simp: key_down_def Let_def split: if_splits)
  with s r k have "\<not> sr_recording w" "spec = js_join ''+'' (modifiers k @ [key'])"
    by (auto simp: key_down_def Let_def split: if_splits)
  with r k key show ?thesis using \<open>ke_ctrl k \<or> ke_alt k \<or> ke_meta k\<close> by blast
qed

theorem trusted_networks_clean_witness:
  "offers_trust (wifi_event TrustCurrent \<lparr>wp_trusted = [], wp_network = Some \<lparr>wf_on = True, wf_ssid = ''home '',
     wf_hidden = False, wf_unsupported = False\<rparr>, wp_draft = []\<rparr>)"
proof -
  have "js_trim ''home '' \<noteq> ''home ''" by code_simp
  with trusted_networks_clean [of "\<lparr>wp_trusted = [], wp_network = Some \<lparr>wf_on = True, wf_ssid = ''home '',
     wf_hidden = False, wf_unsupported = False\<rparr>, wp_draft = []\<rparr>" "[]"]
  show ?thesis by (simp add: networks_ok_def offers_trust_def current_network_def wifi_event_def add_network_def Let_def
      split: if_splits)
qed

definition sample_key :: key_event where
  "sample_key = \<lparr>ke_key = ''k'', ke_code = ''KeyK'', ke_ctrl = True, ke_alt = False, ke_shift = True, ke_meta = False\<rparr>"

theorem shortcut_has_modifier_and_key_witness:
  "ke_ctrl sample_key \<and> snd (shortcut_event (\<lambda>k ps. k) (KeyDown sample_key)
     \<lparr>sr_value = [], sr_recording = True, sr_error = [], sr_held = []\<rparr>) = Some ''Ctrl+Shift+K''"
proof -
  let ?v = "\<lparr>sr_value = [], sr_recording = True, sr_error = [], sr_held = []\<rparr>"
  have k: "key_name sample_key = Some ''K''" "modifiers sample_key = [''Ctrl'', ''Shift'']"
    by (simp_all add: key_name_def sample_key_def modifiers_def js_starts_with_def upper_letters_def Let_def)
  then have e: "shortcut_event (\<lambda>k ps. k) (KeyDown sample_key) ?v
      = (?v\<lparr>sr_recording := False\<rparr>, Some ''Ctrl+Shift+K'')"
    by (simp add: shortcut_event_def key_down_def Let_def) (simp add: sample_key_def)
  with shortcut_has_modifier_and_key [OF e] show ?thesis by (simp add: sample_key_def)
qed

text \<open>Both loops copy the entries whose key is of a kind.\<close>

definition copy_keys :: "(string \<Rightarrow> bool) \<Rightarrow> (string, string) omap \<Rightarrow> (string, string) omap \<Rightarrow> (string, string) omap" where
  "copy_keys P w es = foldl (\<lambda>m e. if P (fst e) then om_set m (fst e) (snd e) else m) w es"

lemma copy_keys_get:
  "distinct (om_keys es) \<Longrightarrow>
     om_get (copy_keys P w es) k = (if P k \<and> om_get es k \<noteq> None then om_get es k else om_get w k)"
  unfolding copy_keys_def
proof (induction es arbitrary: w)
  case (Cons e es)
  obtain a b where e: "e = (a, b)" by (cases e)
  have n: "om_get es a = None" using Cons.prems unfolding e by (subst om_get_None_iff) simp
  have c: "om_get (e # es) k = (if k = a then Some b else om_get es k)" unfolding e by (simp add: om_get_def)
  show ?case using Cons n unfolding c unfolding e by (cases "om_get es k") (auto simp: om_simps)
qed (simp add: om_simps)

lemma distinct_copy_keys: "distinct (om_keys w) \<Longrightarrow> distinct (om_keys (copy_keys P w es))"
  unfolding copy_keys_def by (induction es arbitrary: w) (simp_all add: distinct_om_set)

lemma window_copies:
  "window_state s = copy_keys window_key [] (or_else s [])"
  "restore_window ui w = copy_keys (\<lambda>k. k = ''theme'' \<or> js_starts_with k ''nugget.'') w (or_else ui [])"
  by (simp_all add: window_state_def restore_window_def copy_keys_def)

text \<open>C38: A backup brings the window's state to another device: after the import everything the first device's
  window kept - its theme and what the app stored - reads there as it did, everything that is not the
  window's own is untouched, and what only the second device had stored stays.\<close>

theorem backup_carries_window_state:
  assumes "distinct (om_keys a)"
  shows "case import_backup (Inr (Some (Some (window_state (Some a))))) b of (reloads, c, notice) \<Rightarrow>
    reloads \<and> notice = None
    \<and> (\<forall>k x. window_key k \<and> om_get a k = Some x \<longrightarrow> om_get c k = Some x)
    \<and> (\<forall>k. \<not> window_key k \<or> om_get a k = None \<longrightarrow> om_get c k = om_get b k)"
proof -
  have d: "distinct (om_keys (copy_keys window_key [] a))" by (rule distinct_copy_keys) simp
  show ?thesis
    by (auto simp: import_backup_def window_copies copy_keys_get [OF d] copy_keys_get [OF assms] om_simps window_key_def)
qed

theorem backup_carries_window_state_witness:
  "om_get (fst (snd (import_backup (Inr (Some (Some (window_state (Some [(''theme'', ''nord''), (''other'', ''x'')])))))
     [(''nugget.fonts'', ''[]'')]))) ''theme'' = Some ''nord''"
proof -
  have "window_key ''theme''" "om_get [(''theme'', ''nord''), (''other'', ''x'')] ''theme'' = Some ''nord''"
    by (simp_all add: window_key_def om_get_def)
  with backup_carries_window_state [of "[(''theme'', ''nord''), (''other'', ''x'')]" "[(''nugget.fonts'', ''[]'')]"]
  show ?thesis by (simp add: import_backup_def)
qed

text \<open>The updates panel never sends a second request while one runs of its kind, installs only what was
  reported as available and installable, and its bar stays within its frame while what is received
  does not exceed the whole.\<close>

theorem updates_ask_once:
  "(update_event e v = (w, calls) \<longrightarrow>
      (CheckForUpdate \<in> set calls \<longrightarrow> \<not> up_checking v \<and> \<not> up_installing v \<and> up_checking w)
      \<and> (InstallUpdate \<in> set calls \<longrightarrow> \<not> up_installing v \<and> up_installing w
          \<and> (\<exists>i. up_info v = Some i \<and> up_available i \<and> up_installable i)))
    \<and> (up_progress v = Some (received, whole) \<and> 0 \<le> received \<and> received \<le> whole \<longrightarrow>
        0 \<le> update_percent v \<and> update_percent v \<le> 100)"
proof (intro conjI impI)
  assume e: "update_event e v = (w, calls)"
  show "\<not> up_checking v" "\<not> up_installing v" "up_checking w" if "CheckForUpdate \<in> set calls"
    using that e by (auto simp: update_event_def split: update_event.splits sum.splits option.splits if_splits)
  show "\<not> up_installing v" "up_installing w" "\<exists>i. up_info v = Some i \<and> up_available i \<and> up_installable i"
    if "InstallUpdate \<in> set calls"
    using that e by (auto simp: update_event_def split: update_event.splits sum.splits option.splits if_splits)
next
  assume p: "up_progress v = Some (received, whole) \<and> 0 \<le> received \<and> received \<le> whole"
  show "update_percent v \<le> 100"
  proof (cases "0 < whole")
    case True
    with p have "received / whole * 100 \<le> of_int 100" by (simp add: divide_le_eq)
    from js_round_le [OF this] p True show ?thesis by (simp add: update_percent_def)
  qed (use p in \<open>simp add: update_percent_def\<close>)
  show "0 \<le> update_percent v"
    using p by (simp add: update_percent_def js_round_def le_floor_iff add_nonneg_nonneg)
qed

theorem updates_ask_once_witness:
  "update_percent \<lparr>up_info = None, up_checking = False, up_error = [], up_progress = Some (1, 2), up_installing = True\<rparr> \<le> 100"
  using updates_ask_once [of ClickCheck "\<lparr>up_info = None, up_checking = False, up_error = [], up_progress = Some (1, 2),
      up_installing = True\<rparr>" _ _ 1 2] by simp

end
