(* ===== verification/Appearance_Pickers.thy ===== *)
theory Appearance_Pickers
  imports Appearance_Store Settings_Panels
begin

text \<open>
  The pickers of the Appearance section (components/settings/appearance-options.tsx) and the colour
  picker they share (components/ui/color-picker.tsx).  The colour mathematics of the browser
  (\<open>conv\<close>: sRGB to OKLCH, \<open>hex_of\<close>: OKLCH to text) and the theme's own CSS numbers are arguments.
\<close>

section \<open>Fonts\<close>

fun SCRIPT_NAMES :: "script \<Rightarrow> string" where
  "SCRIPT_NAMES Latin = ''Latin''"
| "SCRIPT_NAMES Cyrillic = ''Cyrillic''"
| "SCRIPT_NAMES Hans = ''CJK (SC)''"
| "SCRIPT_NAMES Jpan = ''Japanese''"
| "SCRIPT_NAMES Arab = ''Arabic''"

record font_card =
  fc_id :: string
  fc_label :: string
  fc_active :: bool
  fc_removable :: bool
  fc_badges :: "string list"
  fc_sample :: string

definition sample_font :: "string \<Rightarrow> string" where
  "sample_font family = family @ '', ui-sans-serif, system-ui, sans-serif''"

definition font_badges :: "font_option \<Rightarrow> string list" where
  "font_badges f = (case fo_scripts f of None \<Rightarrow> [''System Native''] | Some ss \<Rightarrow> map SCRIPT_NAMES ss)"

definition font_cards :: "texts \<Rightarrow> script \<Rightarrow> look \<Rightarrow> font_card list" where
  "font_cards t s v =
     map (\<lambda>f. \<lparr>fc_id = fo_id f, fc_label = font_label (\<lambda>k. t k None) (lk_fonts v) (fo_id f),
         fc_active = (fo_id (effective_font (lk_fonts v) (ap_font (lk_prefs v)) s) = fo_id f),
         fc_removable = js_starts_with (fo_id f) USER_FONT_PREFIX, fc_badges = font_badges f,
         fc_sample = sample_font (fo_family f)\<rparr>)
       (fonts_for (lk_fonts v) s)"

definition remove_card :: "font_card \<Rightarrow> look \<Rightarrow> look \<times> look_effect list" where
  "remove_card c v = remove_user_font (drop (length USER_FONT_PREFIX) (fc_id c)) v"

text \<open>An imported font is added and named; nothing is when the dialog was closed.\<close>

definition font_imported :: "string + user_font option \<Rightarrow> look \<Rightarrow> look \<times> (bool \<times> string) option" where
  "font_imported answer v = (case answer of
     Inl reason \<Rightarrow> (v, Some (False, reason))
   | Inr None \<Rightarrow> (v, None)
   | Inr (Some f) \<Rightarrow> (add_user_font f v, Some (True, if uf_name f = [] then ''Font imported'' else uf_name f)))"

section \<open>Corners and motion\<close>

definition RADIUS_CURVATURES :: "(string \<times> string \<times> string) list" where
  "RADIUS_CURVATURES =
     [(''small'', ''Sharp'', ''6px''), (''medium'', ''Balanced'', ''10px''),
      (''large'', ''Smooth'', ''14px''), (''round'', ''Pill'', ''20px'')]"

text \<open>A card: its id, whether it is pressed, its label, its description and its size.\<close>

definition radius_cards :: "texts \<Rightarrow> look \<Rightarrow> (string \<times> bool \<times> string \<times> string \<times> string) list" where
  "radius_cards t v =
     map (\<lambda>(i, label, size). (case map_of RADIUS_CURVATURES i of
         Some (desc, px) \<Rightarrow> (i, ap_radius (lk_prefs v) = i, t label None, desc, px)
       | None \<Rightarrow> (i, ap_radius (lk_prefs v) = i, t label None, [], size))) RADII"

definition radius_text :: "rat \<Rightarrow> string" where
  "radius_text v = nat_str (nat (js_round (v * 16))) @ ''px''"

definition motion_cards :: "texts \<Rightarrow> look \<Rightarrow> (string \<times> bool \<times> string \<times> string) list" where
  "motion_cards t v =
     map (\<lambda>(i, label, hint). (i, ap_motion (lk_prefs v) = i, t label None, t hint None)) MOTIONS"

text \<open>\<open>replace(/\.?0+$/, "")\<close>.\<close>

definition drop_zeros :: "string \<Rightarrow> string" where
  "drop_zeros s =
     (let kept = rev (dropWhile (\<lambda>c. c = CHR ''0'') (rev s)) in
      if kept = s then s
      else if kept \<noteq> [] \<and> last kept = CHR ''.'' then butlast kept else kept)"

definition speed_text :: "rat \<Rightarrow> string" where
  "speed_text v = drop_zeros (to_fixed 2 v) @ [CHR 0xC3, CHR 0x97]"

definition stagger_text :: "texts \<Rightarrow> (rat \<Rightarrow> string) \<Rightarrow> rat \<Rightarrow> string" where
  "stagger_text t show v = (if v = 0 then t ''appearance.motion.stagger.none'' None else show v @ '' ms'')"

section \<open>The colour picker\<close>

record color_range =
  cr_max :: rat
  cr_min :: rat
  cr_light :: "(rat \<times> rat) option"

record oklch =
  ok_h :: rat
  ok_c :: rat
  ok_l :: rat

record color_patch =
  cp_h :: "rat option"
  cp_c :: "rat option"
  cp_l :: "rat option"

definition no_color_patch :: color_patch where
  "no_color_patch = \<lparr>cp_h = None, cp_c = None, cp_l = None\<rparr>"

definition round3 :: "rat \<Rightarrow> rat" where
  "round3 v = of_int (js_round (v * 1000)) / 1000"

text \<open>The place pressed, as fractions of the field's width and height.\<close>

definition pick_color :: "color_range \<Rightarrow> rat \<Rightarrow> rat \<Rightarrow> color_patch" where
  "pick_color r px py =
     (let x = min 1 (max 0 px); y = min 1 (max 0 py) in
      no_color_patch\<lparr>cp_h := Some (of_int (js_round (x * 360))),
        cp_c := Some (round3 (cr_max r - y * (cr_max r - cr_min r)))\<rparr>)"

text \<open>\<open>x % 360\<close> for \<open>x >= 0\<close>.\<close>

definition rem360 :: "rat \<Rightarrow> rat" where
  "rem360 x = x - 360 * of_int \<lfloor>x / 360\<rfloor>"

definition nudge_color :: "color_range \<Rightarrow> oklch \<Rightarrow> string \<Rightarrow> bool \<Rightarrow> color_patch option" where
  "nudge_color r v key shift =
     (let big = (if shift then 10 else 1); step = (cr_max r - cr_min r) / 50 * big in
      if key = ''ArrowLeft'' then Some (no_color_patch\<lparr>cp_h := Some (rem360 (ok_h v - big + 360))\<rparr>)
      else if key = ''ArrowRight'' then Some (no_color_patch\<lparr>cp_h := Some (rem360 (ok_h v + big))\<rparr>)
      else if key = ''ArrowUp'' then Some (no_color_patch\<lparr>cp_c := Some (round3 (min (cr_max r) (ok_c v + step)))\<rparr>)
      else if key = ''ArrowDown'' then Some (no_color_patch\<lparr>cp_c := Some (round3 (max (cr_min r) (ok_c v - step)))\<rparr>)
      else None)"

definition parse_hex :: "(nat \<times> nat \<times> nat \<Rightarrow> oklch) \<Rightarrow> string \<Rightarrow> oklch option" where
  "parse_hex conv text =
     (let trimmed = js_trim text;
          hex = (if js_starts_with trimmed ''#'' then drop 1 trimmed else trimmed);
          six = (if length hex = 3 \<and> list_all (\<lambda>c. hex_val c \<noteq> None) hex then concat (map (\<lambda>c. [c, c]) hex) else hex)
      in if length six = 6 \<and> list_all (\<lambda>c. hex_val c \<noteq> None) six
         then map_option conv (rgb_of_hex (CHR ''#'' # six)) else None)"

record color_box =
  cb_text :: string
  cb_editing :: bool
  cb_cancelled :: bool

text \<open>Leaving the box: what it reads as is pulled into the limits; a grey keeps the hue chosen.\<close>

definition commit_color :: "(nat \<times> nat \<times> nat \<Rightarrow> oklch) \<Rightarrow> color_range \<Rightarrow> string \<Rightarrow> color_box \<Rightarrow> color_box \<times> color_patch option" where
  "commit_color conv r hex b =
     (case (if cb_cancelled b then None else parse_hex conv (cb_text b)) of
        None \<Rightarrow> (b\<lparr>cb_editing := False, cb_cancelled := False, cb_text := hex\<rparr>, None)
      | Some p \<Rightarrow> (b\<lparr>cb_editing := False, cb_cancelled := False\<rparr>,
          Some \<lparr>cp_h = (if 5 / 1000 < ok_c p then Some (of_int (js_round (ok_h p))) else None),
            cp_c = Some (round3 (min (cr_max r) (max (cr_min r) (ok_c p)))),
            cp_l = map_option (\<lambda>(lo, hi). round3 (min hi (max lo (ok_l p)))) (cr_light r)\<rparr>))"

section \<open>The accent\<close>

definition ACCENT_HUES :: "rat list" where
  "ACCENT_HUES = [25, 50, 70, 95, 145, 175, 210, 250, 285, 320, 350]"

definition PRESET_CHROMA :: rat where
  "PRESET_CHROMA = 15 / 100"

definition is_preset_accent :: "(rat \<times> rat) option \<Rightarrow> bool" where
  "is_preset_accent accent \<longleftrightarrow> (case accent of Some (h, c) \<Rightarrow> c = PRESET_CHROMA \<and> h \<in> set ACCENT_HUES | None \<Rightarrow> False)"

text \<open>The accent and whether Custom is open.\<close>

definition opened_accent :: "(rat \<times> rat) option \<Rightarrow> (rat \<times> rat) option \<times> bool" where
  "opened_accent accent = (accent, accent \<noteq> None \<and> \<not> is_preset_accent accent)"

datatype accent_event = ThemeAccent | HueAccent rat | OpenCustom | ColorChanged color_patch

text \<open>\<open>brand_h\<close> and \<open>brand_c\<close> are what the theme sets on the root element.\<close>

definition accent_event :: "rat \<Rightarrow> rat \<Rightarrow> accent_event \<Rightarrow> (rat \<times> rat) option \<times> bool \<Rightarrow> (rat \<times> rat) option \<times> bool" where
  "accent_event brand_h brand_c e v = (case e of
     ThemeAccent \<Rightarrow> (None, False)
   | HueAccent h \<Rightarrow> if h \<in> set ACCENT_HUES then (Some (h, PRESET_CHROMA), False) else v
   | OpenCustom \<Rightarrow> ((case fst v of None \<Rightarrow> Some (of_int (js_round brand_h), brand_c) | Some a \<Rightarrow> Some a), True)
   | ColorChanged p \<Rightarrow>
       (case v of (Some (h, c), True) \<Rightarrow> (Some (or_else (cp_h p) h, or_else (cp_c p) c), True) | _ \<Rightarrow> v))"

text \<open>Which buttons are pressed: the theme's, each hue, Custom.\<close>

definition accent_pressed :: "(rat \<times> rat) option \<times> bool \<Rightarrow> bool list" where
  "accent_pressed v =
     (fst v = None)
     # map (\<lambda>h. \<not> snd v \<and> is_preset_accent (fst v) \<and> map_option fst (fst v) = Some h) ACCENT_HUES
     @ [snd v]"

section \<open>The layout\<close>

definition no_layout_patch :: layout_patch where
  "no_layout_patch = \<lparr>lp_nav = None, lp_sidebar = None, lp_cockpit = None, lp_placement = None, lp_order = None,
     lp_download = None, lp_upload = None, lp_latency = None, lp_speed_test = None, lp_width = None,
     lp_proxies = None, lp_config = None\<rparr>"

definition option_labels :: "string \<Rightarrow> string list \<Rightarrow> (string \<times> string) list" where
  "option_labels label xs = map (\<lambda>x. (x, label @ ''.'' @ x)) xs"

definition nav_options :: "(string \<times> string) list" where
  "nav_options =
     [(''top'', ''appearance.layout.navPosition.top''), (''sidebar-left'', ''appearance.layout.navPosition.sidebarLeft''),
      (''sidebar-right'', ''appearance.layout.navPosition.sidebarRight''), (''bottom'', ''appearance.layout.navPosition.bottom'')]"

definition cockpit_options :: "(string \<times> string) list" where
  "cockpit_options = option_labels ''appearance.layout.cockpitAlign'' [''center'', ''top'']"

definition placement_options :: "(string \<times> string) list" where
  "placement_options = option_labels ''appearance.layout.telemetryPlacement'' [''inside'', ''below'']"

definition width_options :: "(string \<times> string) list" where
  "width_options = option_labels ''appearance.layout.dashboardWidth'' [''compact'', ''normal'', ''wide'']"

definition density_options :: "(string \<times> string) list" where
  "density_options = option_labels ''appearance.layout.cardsDensity'' [''list'', ''grid'']"

definition sidebar_options :: "(string \<times> string) list" where
  "sidebar_options = option_labels ''appearance.layout.sidebarStyle'' [''attached'', ''inset'']"

definition metric_label :: "string \<Rightarrow> string option" where
  "metric_label m = map_of (option_labels ''appearance.layout.telemetryOrder'' [''download'', ''upload'', ''latency'']) m"

definition metric_visible :: "layout_prefs \<Rightarrow> string \<Rightarrow> bool" where
  "metric_visible l m =
     (if m = ''download'' then ly_download l else if m = ''upload'' then ly_upload l else if m = ''latency'' then ly_latency l
      else True)"

text \<open>The rows of the metrics: the label, whether it shows, whether it can move earlier and later.\<close>

definition metric_rows :: "texts \<Rightarrow> layout_prefs \<Rightarrow> (string \<times> bool \<times> bool \<times> bool) list" where
  "metric_rows t l =
     List.map_filter (\<lambda>(i, m). map_option (\<lambda>label. (t label None, metric_visible l m, i \<noteq> 0, i \<noteq> length (ly_order l) - 1))
       (metric_label m)) (enumerate 0 (ly_order l))"

datatype layout_event =
    PickNav string | PickSidebar string | PickCockpit string | PickPlacement string | PickWidth string
  | PickProxies string | PickConfig string | MoveMetric nat int | ToggleMetric string | SpeedTestShown bool | ResetLayout

definition move_metric :: "nat \<Rightarrow> int \<Rightarrow> layout_prefs \<Rightarrow> layout_patch option" where
  "move_metric index direction l =
     (let order = ly_order l; target = int index + direction in
      if target < 0 \<or> int (length order) \<le> target then None
      else Some (no_layout_patch\<lparr>lp_order := Some (order[index := order ! nat target, nat target := order ! index])\<rparr>))"

definition toggle_metric :: "string \<Rightarrow> layout_prefs \<Rightarrow> layout_patch" where
  "toggle_metric m l =
     (if m = ''download'' then no_layout_patch\<lparr>lp_download := Some (\<not> ly_download l)\<rparr>
      else if m = ''upload'' then no_layout_patch\<lparr>lp_upload := Some (\<not> ly_upload l)\<rparr>
      else if m = ''latency'' then no_layout_patch\<lparr>lp_latency := Some (\<not> ly_latency l)\<rparr>
      else no_layout_patch)"

definition sidebar_style_offered :: "layout_prefs \<Rightarrow> bool" where
  "sidebar_style_offered l \<longleftrightarrow> ly_nav l = ''sidebar-left'' \<or> ly_nav l = ''sidebar-right''"

text \<open>The buttons of a group: the value, whether it is pressed, the label.\<close>

definition option_buttons :: "texts \<Rightarrow> (string \<times> string) list \<Rightarrow> string \<Rightarrow> (string \<times> bool \<times> string) list" where
  "option_buttons t options current = map (\<lambda>(x, label). (x, current = x, t label None)) options"

definition nav_buttons :: "texts \<Rightarrow> bool \<Rightarrow> layout_prefs \<Rightarrow> (string \<times> bool \<times> string) list" where
  "nav_buttons t is_mobile l = (if is_mobile then [] else option_buttons t nav_options (ly_nav l))"

definition sidebar_buttons :: "texts \<Rightarrow> bool \<Rightarrow> layout_prefs \<Rightarrow> (string \<times> bool \<times> string) list" where
  "sidebar_buttons t is_mobile l =
     (if \<not> is_mobile \<and> sidebar_style_offered l then option_buttons t sidebar_options (ly_sidebar l) else [])"

definition cockpit_buttons :: "texts \<Rightarrow> layout_prefs \<Rightarrow> (string \<times> bool \<times> string) list" where
  "cockpit_buttons t l = option_buttons t cockpit_options (ly_cockpit l)"

definition placement_buttons :: "texts \<Rightarrow> layout_prefs \<Rightarrow> (string \<times> bool \<times> string) list" where
  "placement_buttons t l = option_buttons t placement_options (ly_placement l)"

definition width_buttons :: "texts \<Rightarrow> layout_prefs \<Rightarrow> (string \<times> bool \<times> string) list" where
  "width_buttons t l = option_buttons t width_options (ly_width l)"

definition proxies_buttons :: "texts \<Rightarrow> layout_prefs \<Rightarrow> (string \<times> bool \<times> string) list" where
  "proxies_buttons t l = option_buttons t density_options (ly_proxies l)"

definition config_buttons :: "texts \<Rightarrow> layout_prefs \<Rightarrow> (string \<times> bool \<times> string) list" where
  "config_buttons t l = option_buttons t density_options (ly_config l)"

text \<open>What the buttons do; a value that is not offered cannot be picked.\<close>

definition offered :: "string \<Rightarrow> (string \<times> string) list \<Rightarrow> layout_patch \<Rightarrow> look \<Rightarrow> look" where
  "offered x options c v = (if x \<in> fst ` set options then set_layout c v else v)"

definition layout_event :: "layout_event \<Rightarrow> look \<Rightarrow> look" where
  "layout_event e v = (let l = ap_layout (lk_prefs v) in case e of
     PickNav x \<Rightarrow> offered x nav_options (no_layout_patch\<lparr>lp_nav := Some x\<rparr>) v
   | PickSidebar x \<Rightarrow> if sidebar_style_offered l then offered x sidebar_options (no_layout_patch\<lparr>lp_sidebar := Some x\<rparr>) v else v
   | PickCockpit x \<Rightarrow> offered x cockpit_options (no_layout_patch\<lparr>lp_cockpit := Some x\<rparr>) v
   | PickPlacement x \<Rightarrow> offered x placement_options (no_layout_patch\<lparr>lp_placement := Some x\<rparr>) v
   | PickWidth x \<Rightarrow> offered x width_options (no_layout_patch\<lparr>lp_width := Some x\<rparr>) v
   | PickProxies x \<Rightarrow> offered x density_options (no_layout_patch\<lparr>lp_proxies := Some x\<rparr>) v
   | PickConfig x \<Rightarrow> offered x density_options (no_layout_patch\<lparr>lp_config := Some x\<rparr>) v
   | MoveMetric i d \<Rightarrow> if i < length (ly_order l)
       then (case move_metric i d l of Some c \<Rightarrow> set_layout c v | None \<Rightarrow> v) else v
   | ToggleMetric m \<Rightarrow> set_layout (toggle_metric m l) v
   | SpeedTestShown b \<Rightarrow> set_layout (no_layout_patch\<lparr>lp_speed_test := Some b\<rparr>) v
   | ResetLayout \<Rightarrow> reset_layout v)"

section \<open>Charts and units\<close>

definition chart_options :: "(string \<times> string) list" where
  "chart_options = option_labels ''appearance.statsChart'' [''both'', ''share'', ''days'']"

definition pick_rate :: "rate_unit \<Rightarrow> look \<Rightarrow> look" where
  "pick_rate r v = set_units ((ap_units (lk_prefs v))\<lparr>un_rate := r\<rparr>) v"

definition pick_size :: "size_unit \<Rightarrow> look \<Rightarrow> look" where
  "pick_size s v = set_units ((ap_units (lk_prefs v))\<lparr>un_size := s\<rparr>) v"

definition unit_examples :: "unit_choice \<Rightarrow> string \<times> string" where
  "unit_examples u =
     (format_rate u (Fin 1234567) @ MIDDOT @ format_rate u (Fin 8400),
      format_bytes u (Fin 31400000) @ MIDDOT @ format_bytes u (Fin 512000))"

section \<open>Lemmas\<close>

lemma option_labels_fst [simp]: "fst ` set (option_labels label xs) = set xs"
  by (force simp: option_labels_def)

lemma mem_or_else: "pred_option (\<lambda>x. x \<in> S) x \<Longrightarrow> y \<in> S \<Longrightarrow> or_else x y \<in> S"
  by (cases x) simp_all

lemma set_or_else: "pred_option (\<lambda>xs. set xs = S) x \<Longrightarrow> set y = S \<Longrightarrow> set (or_else x y) = S"
  by (cases x) simp_all

lemma layout_ok_patched:
  assumes "layout_ok l"
    and "pred_option (\<lambda>x. x \<in> set NAV_POSITIONS) (lp_nav c)" "pred_option (\<lambda>x. x \<in> {''inset'', ''attached''}) (lp_sidebar c)"
    and "pred_option (\<lambda>x. x \<in> set COCKPIT_ALIGNS) (lp_cockpit c)" "pred_option (\<lambda>x. x \<in> set PLACEMENTS) (lp_placement c)"
    and "pred_option (\<lambda>xs. set xs = set METRICS) (lp_order c)" "pred_option (\<lambda>x. x \<in> set WIDTHS) (lp_width c)"
    and "pred_option (\<lambda>x. x \<in> set CARD_LAYOUTS) (lp_proxies c)" "pred_option (\<lambda>x. x \<in> set CARD_LAYOUTS) (lp_config c)"
  shows "layout_ok (patched_layout c l)"
  unfolding layout_ok_def patched_layout_def layout_prefs.select_convs
  by (intro conjI mem_or_else set_or_else) (use assms in \<open>simp_all add: layout_ok_def\<close>)

lemma no_layout_patch_simps [simp]:
  "lp_nav no_layout_patch = None" "lp_sidebar no_layout_patch = None" "lp_cockpit no_layout_patch = None"
  "lp_placement no_layout_patch = None" "lp_order no_layout_patch = None" "lp_download no_layout_patch = None"
  "lp_upload no_layout_patch = None" "lp_latency no_layout_patch = None" "lp_speed_test no_layout_patch = None"
  "lp_width no_layout_patch = None" "lp_proxies no_layout_patch = None" "lp_config no_layout_patch = None"
  by (simp_all add: no_layout_patch_def)

lemma set_layout_layout: "ap_layout (lk_prefs (set_layout c v)) = patched_layout c (ap_layout (lk_prefs v))"
  by (simp add: set_layout_def update_prefs_def)

lemma set_swap: "i < length xs \<Longrightarrow> j < length xs \<Longrightarrow> set (xs[i := xs ! j, j := xs ! i]) = set xs"
  by (metis mset_swap set_mset_mset)

lemma move_metric_order:
  assumes "move_metric i d l = Some c" "i < length (ly_order l)"
  shows "\<exists>xs. c = no_layout_patch\<lparr>lp_order := Some xs\<rparr> \<and> set xs = set (ly_order l)"
proof -
  let ?t = "nat (int i + d)"
  have t: "?t < length (ly_order l)" and c: "c = no_layout_patch\<lparr>lp_order := Some ((ly_order l)[i := ly_order l ! ?t, ?t := ly_order l ! i])\<rparr>"
    using assms(1) by (auto simp: move_metric_def Let_def nat_less_iff split: if_splits)
  from c set_swap [OF assms(2) t] show ?thesis by blast
qed

lemma layout_event_ok:
  assumes "layout_ok (ap_layout (lk_prefs v))"
  shows "layout_ok (ap_layout (lk_prefs (layout_event e v)))"
proof -
  note p = layout_ok_patched [OF assms]
  have o: "layout_ok (ap_layout (lk_prefs (offered x options c v)))"
    if "x \<in> fst ` set options \<Longrightarrow> layout_ok (patched_layout c (ap_layout (lk_prefs v)))" for x options c
    using that assms by (simp add: offered_def set_layout_layout)
  show ?thesis
  proof (cases e)
    case (MoveMetric i d)
    show ?thesis
    proof (cases "i < length (ly_order (ap_layout (lk_prefs v)))")
      case True
      show ?thesis
      proof (cases "move_metric i d (ap_layout (lk_prefs v))")
        case (Some c)
        obtain xs where xs: "c = no_layout_patch\<lparr>lp_order := Some xs\<rparr>" "set xs = set (ly_order (ap_layout (lk_prefs v)))"
          using move_metric_order [OF Some True] by blast
        have "layout_ok (patched_layout c (ap_layout (lk_prefs v)))"
          unfolding xs(1) by (rule p) (use xs(2) assms in \<open>simp_all add: layout_ok_def\<close>)
        then show ?thesis using Some True MoveMetric by (simp add: layout_event_def Let_def set_layout_layout)
      qed (use MoveMetric assms in \<open>simp add: layout_event_def Let_def\<close>)
    qed (use MoveMetric assms in \<open>simp add: layout_event_def Let_def\<close>)
  next
    case (ToggleMetric m)
    have "layout_ok (patched_layout (toggle_metric m (ap_layout (lk_prefs v))) (ap_layout (lk_prefs v)))"
      by (rule p) (simp_all add: toggle_metric_def)
    with ToggleMetric show ?thesis by (simp add: layout_event_def Let_def set_layout_layout)
  next
    case ResetLayout
    then show ?thesis using default_layout_ok by (simp add: layout_event_def Let_def reset_layout_def update_prefs_def)
  next
    case (SpeedTestShown b)
    have "layout_ok (patched_layout (no_layout_patch\<lparr>lp_speed_test := Some b\<rparr>) (ap_layout (lk_prefs v)))" by (rule p) simp_all
    with SpeedTestShown show ?thesis by (simp add: layout_event_def Let_def set_layout_layout)
  next
    case (PickNav x)
    show ?thesis unfolding PickNav layout_event_def Let_def layout_event.case
      by (rule o, rule p) (auto simp: nav_options_def NAV_POSITIONS_def)
  next
    case (PickSidebar x)
    have "layout_ok (ap_layout (lk_prefs (offered x sidebar_options (no_layout_patch\<lparr>lp_sidebar := Some x\<rparr>) v)))"
      by (rule o, rule p) (auto simp: sidebar_options_def)
    with assms show ?thesis unfolding PickSidebar layout_event_def Let_def layout_event.case by simp
  next
    case (PickCockpit x)
    show ?thesis unfolding PickCockpit layout_event_def Let_def layout_event.case
      by (rule o, rule p) (auto simp: cockpit_options_def COCKPIT_ALIGNS_def)
  next
    case (PickPlacement x)
    show ?thesis unfolding PickPlacement layout_event_def Let_def layout_event.case
      by (rule o, rule p) (auto simp: placement_options_def PLACEMENTS_def)
  next
    case (PickWidth x)
    show ?thesis unfolding PickWidth layout_event_def Let_def layout_event.case
      by (rule o, rule p) (auto simp: width_options_def WIDTHS_def)
  next
    case (PickProxies x)
    show ?thesis unfolding PickProxies layout_event_def Let_def layout_event.case
      by (rule o, rule p) (auto simp: density_options_def CARD_LAYOUTS_def)
  next
    case (PickConfig x)
    show ?thesis unfolding PickConfig layout_event_def Let_def layout_event.case
      by (rule o, rule p) (auto simp: density_options_def CARD_LAYOUTS_def)
  qed
qed

section \<open>Properties\<close>

text \<open>Whatever is pressed in the layout picker, in any order, the layout stays one the app accepts: stored and
  read at the next start it comes back as it was, and no metric is lost from the order.\<close>

theorem layout_edits_survive_restart:
  fixes es
  assumes "layout_ok (ap_layout (lk_prefs v))"
  defines "l \<equiv> ap_layout (lk_prefs (fold layout_event es v))"
  shows "sanitize_layout (Some (layout_json l)) = l \<and> set (ly_order l) = set METRICS"
proof -
  have "layout_ok l"
    unfolding l_def using assms(1) by (induction es arbitrary: v) (simp_all add: layout_event_ok)
  then show ?thesis using sanitize_layout_json by (simp add: layout_ok_def)
qed

theorem layout_edits_survive_restart_witness:
  "set (ly_order (ap_layout (lk_prefs (fold layout_event [MoveMetric 0 1, PickNav ''sidebar-left'', PickSidebar ''inset''] opened_look)))) = set METRICS"
  using layout_edits_survive_restart [where v = opened_look
      and es = "[MoveMetric 0 1, PickNav ''sidebar-left'', PickSidebar ''inset'']"] default_layout_ok
  by (simp add: opened_look_def DEFAULT_APPEARANCE_def)

definition accent_ok :: "(rat \<times> rat) option \<times> bool \<Rightarrow> bool" where
  "accent_ok v \<longleftrightarrow> (snd v \<longrightarrow> fst v \<noteq> None) \<and> (\<not> snd v \<longrightarrow> fst v = None \<or> is_preset_accent (fst v))"

lemma accent_event_ok: "accent_ok v \<Longrightarrow> accent_ok (accent_event bh bc e v)"
proof (cases v)
  case (Pair a custom)
  assume "accent_ok v"
  with Pair show ?thesis
    by (cases e; cases a; cases custom) (auto simp: accent_ok_def accent_event_def is_preset_accent_def)
qed

lemma distinct_hues: "distinct ACCENT_HUES"
  by (simp add: ACCENT_HUES_def)

lemma one_hue: "distinct xs \<Longrightarrow> length (filter (\<lambda>x. x = y) xs) = (if y \<in> set xs then 1 else 0)"
  by (induction xs) auto

lemma accent_run_ok: "accent_ok v \<Longrightarrow> accent_ok (fold (accent_event bh bc) es v)"
  by (induction es arbitrary: v) (simp_all add: accent_event_ok)

lemma accent_ok_pressed:
  assumes ok: "accent_ok v"
  shows "length (filter id (accent_pressed v)) = 1"
proof (cases "snd v")
  case True
  with ok show ?thesis by (simp add: accent_pressed_def accent_ok_def filter_map comp_def)
next
  case False
  show ?thesis
  proof (cases "fst v")
    case None
    with False show ?thesis by (simp add: accent_pressed_def filter_map comp_def is_preset_accent_def)
  next
    case (Some a)
    with False ok have p: "is_preset_accent (Some a)" by (auto simp: accent_ok_def)
    then have "fst a \<in> set ACCENT_HUES" by (auto simp: is_preset_accent_def split: prod.splits)
    then have "length (filter (\<lambda>x. fst a = x) ACCENT_HUES) = 1"
      using one_hue [OF distinct_hues, of "fst a"] by (simp only: eq_commute [of "fst a"] if_True)
    with p False Some show ?thesis by (simp add: accent_pressed_def filter_map comp_def)
  qed
qed

text \<open>In the accent picker exactly one button is pressed at every moment - the theme's own accent, one of the
  hues, or Custom.\<close>

theorem one_accent_button_pressed:
  "length (filter id (accent_pressed (fold (accent_event brand_h brand_c) es (opened_accent accent)))) = 1"
  by (intro accent_ok_pressed accent_run_ok) (cases accent; simp add: accent_ok_def opened_accent_def)

definition patch_in_range :: "color_range \<Rightarrow> color_patch \<Rightarrow> bool" where
  "patch_in_range r p \<longleftrightarrow> pred_option (in_range (0, 360)) (cp_h p) \<and> pred_option (in_range (cr_min r, cr_max r)) (cp_c p)
     \<and> pred_option (\<lambda>l. \<exists>lo hi. cr_light r = Some (lo, hi) \<and> in_range (lo, hi) l) (cp_l p)"

text \<open>The limits the pickers are given are whole thousandths, as the rounding is.\<close>

definition whole_range :: "color_range \<Rightarrow> bool" where
  "whole_range r \<longleftrightarrow> cr_min r \<le> cr_max r \<and> round3 (cr_min r) = cr_min r \<and> round3 (cr_max r) = cr_max r
     \<and> pred_option (\<lambda>(lo, hi). lo \<le> hi \<and> round3 lo = lo \<and> round3 hi = hi) (cr_light r)"

lemma js_round_mono: "x \<le> y \<Longrightarrow> js_round x \<le> js_round y"
  by (simp add: js_round_def floor_mono)

lemma round3_between:
  assumes "round3 lo = lo" "round3 hi = hi" "lo \<le> x" "x \<le> hi"
  shows "in_range (lo, hi) (round3 x)"
proof -
  have m: "a \<le> b \<Longrightarrow> round3 a \<le> round3 b" for a b
    using js_round_mono [of "a * 1000" "b * 1000"] by (simp add: round3_def divide_right_mono)
  show ?thesis using m [OF assms(3)] m [OF assms(4)] assms(1,2) by (simp add: in_range_def)
qed

lemma js_round_int [simp]: "js_round (of_int n) = n"
  by (simp add: js_round_def floor_unique)

lemma round_between: "of_int a \<le> x \<Longrightarrow> x \<le> of_int b \<Longrightarrow> a \<le> js_round x \<and> js_round x \<le> b"
  using js_round_mono [of "of_int a" x] js_round_mono [of x "of_int b"] by simp

lemma rem360_range: "in_range (0, 360) (rem360 x)"
proof -
  have "of_int \<lfloor>x / 360\<rfloor> \<le> x / 360" "x / 360 < of_int \<lfloor>x / 360\<rfloor> + 1" by linarith+
  then show ?thesis by (simp add: rem360_def in_range_def divide_less_eq le_divide_eq)
qed

lemma pick_color_range:
  assumes "whole_range r"
  shows "patch_in_range r (pick_color r px py)"
proof -
  let ?x = "min 1 (max 0 px)" and ?y = "min 1 (max 0 py)"
  have y: "0 \<le> ?y" "?y \<le> 1" and x: "0 \<le> ?x * 360" "?x * 360 \<le> 360" by simp_all
  have "0 \<le> js_round (?x * 360) \<and> js_round (?x * 360) \<le> 360" using round_between [of 0 "?x * 360" 360] x by simp
  moreover have d: "0 \<le> cr_max r - cr_min r" using assms by (simp add: whole_range_def)
  have "?y * (cr_max r - cr_min r) \<le> cr_max r - cr_min r" "0 \<le> ?y * (cr_max r - cr_min r)"
    using mult_right_mono [OF y(2) d] mult_nonneg_nonneg [OF y(1) d] by (simp_all only: mult_1)
  then have "in_range (cr_min r, cr_max r) (round3 (cr_max r - ?y * (cr_max r - cr_min r)))"
    using assms unfolding whole_range_def by (intro round3_between) simp_all
  ultimately show ?thesis
    by (simp add: patch_in_range_def pick_color_def Let_def no_color_patch_def) (simp add: in_range_def)
qed

lemma nudge_color_range:
  assumes "whole_range r" "in_range (cr_min r, cr_max r) (ok_c v)" "nudge_color r v key shift = Some p"
  shows "patch_in_range r p"
proof -
  have s: "0 \<le> (cr_max r - cr_min r) / 50 * (if shift then 10 else 1)" using assms(1) by (simp add: whole_range_def)
  have up: "in_range (cr_min r, cr_max r) (round3 (min (cr_max r) (ok_c v + (cr_max r - cr_min r) / 50 * (if shift then 10 else 1))))"
    using assms(1,2) s by (intro round3_between) (simp_all add: whole_range_def in_range_def add_increasing2)
  have down: "in_range (cr_min r, cr_max r) (round3 (max (cr_min r) (ok_c v - (cr_max r - cr_min r) / 50 * (if shift then 10 else 1))))"
    using assms(1,2) s by (intro round3_between) (simp_all add: whole_range_def in_range_def diff_le_eq add_increasing2)
  show ?thesis using assms(3) up down rem360_range
    by (auto simp: nudge_color_def Let_def patch_in_range_def no_color_patch_def split: if_splits)
qed

lemma commit_color_range:
  assumes "whole_range r" "\<And>rgb. in_range (0, 360) (ok_h (conv rgb))" "commit_color conv r hex b = (b', Some p)"
  shows "patch_in_range r p"
proof -
  obtain q where q: "parse_hex conv (cb_text b) = Some q"
    using assms(3) by (cases "cb_cancelled b"; cases "parse_hex conv (cb_text b)") (auto simp: commit_color_def)
  then obtain rgb where "q = conv rgb" by (auto simp: parse_hex_def Let_def split: if_splits)
  then have h: "0 \<le> js_round (ok_h q)" "js_round (ok_h q) \<le> 360"
    using round_between [of 0 "ok_h q" 360] assms(2) [of rgb] by (simp_all add: in_range_def)
  have c: "in_range (cr_min r, cr_max r) (round3 (min (cr_max r) (max (cr_min r) (ok_c q))))"
    using assms(1) by (intro round3_between) (simp_all add: whole_range_def)
  have l: "in_range (lo, hi) (round3 (min hi (max lo (ok_l q))))" if "cr_light r = Some (lo, hi)" for lo hi
    using assms(1) that by (intro round3_between) (simp_all add: whole_range_def)
  have "\<not> cb_cancelled b" using assms(3) by (auto simp: commit_color_def)
  with assms(3) q h c l show ?thesis
    by (cases "cr_light r") (auto simp: commit_color_def patch_in_range_def in_range_def [of "(0, 360)"])
qed

text \<open>The colour picker only hands on colours within its limits: hues between 0 and 360, vividness and
  lightness within the range given, also for a place outside the field and for any hex typed
  in.\<close>

theorem picked_colors_in_range:
  assumes "whole_range r" "\<And>rgb. in_range (0, 360) (ok_h (conv rgb))" "in_range (cr_min r, cr_max r) (ok_c v)"
  shows "patch_in_range r (pick_color r px py)
    \<and> pred_option (patch_in_range r) (nudge_color r v key shift)
    \<and> pred_option (patch_in_range r) (snd (commit_color conv r hex b))"
proof (intro conjI)
  show "patch_in_range r (pick_color r px py)" using assms(1) by (rule pick_color_range)
  show "pred_option (patch_in_range r) (nudge_color r v key shift)"
    using nudge_color_range [OF assms(1,3)] by (cases "nudge_color r v key shift") simp_all
  show "pred_option (patch_in_range r) (snd (commit_color conv r hex b))"
    using commit_color_range [OF assms(1,2), where hex = hex and b = b] by (cases "commit_color conv r hex b"; cases "snd (commit_color conv r hex b)") simp_all
qed

theorem picked_colors_in_range_witness:
  "patch_in_range \<lparr>cr_max = 25 / 100, cr_min = 0, cr_light = None\<rparr> (pick_color \<lparr>cr_max = 25 / 100, cr_min = 0, cr_light = None\<rparr> 2 (-1))"
proof -
  have "js_round 250 = 250" "js_round 0 = 0" using js_round_int [of 250] js_round_int [of 0] by simp_all
  then show ?thesis
    using picked_colors_in_range [where r = "\<lparr>cr_max = 25 / 100, cr_min = 0, cr_light = None\<rparr>"
      and conv = "\<lambda>rgb. \<lparr>ok_h = 0, ok_c = 0, ok_l = 0\<rparr>" and v = "\<lparr>ok_h = 0, ok_c = 0, ok_l = 0\<rparr>" and px = 2 and py = "-1"]
    by (simp add: whole_range_def round3_def in_range_def)
qed

text \<open>A font that a plugin brings is offered for removal like one the user added: pressing it asks the
  service to delete a font of that name and forgets the choice of it, yet the font stays on offer.\<close>

theorem plugin_font_offers_removal:
  assumes "f \<in> set (fs_plugin (lk_fonts v))" "fo_id f = USER_FONT_PREFIX @ i" "fo_scripts f = None"
    and "ap_font (lk_prefs v) = fo_id f"
  shows "\<exists>c \<in> set (font_cards t s v). fc_id c = fo_id f \<and> fc_removable c
    \<and> snd (remove_card c v) = [AskRemoveFont i]
    \<and> ap_font (lk_prefs (fst (remove_card c v))) = ap_font DEFAULT_APPEARANCE
    \<and> f \<in> set (fonts_for (lk_fonts (fst (remove_card c v))) s)"
proof -
  have on: "f \<in> set (fonts_for w s)" if "fs_plugin w = fs_plugin (lk_fonts v)" for w
    using that assms(1,3) by (simp add: fonts_for_def all_fonts_def covers_def)
  obtain c where c: "c \<in> set (font_cards t s v)" "fc_id c = fo_id f" "fc_removable c = js_starts_with (fo_id f) USER_FONT_PREFIX"
    using imageI [OF on [OF refl]] that unfolding font_cards_def set_map
    by (metis (no_types, lifting) font_card.select_convs(1,4))
  have r: "remove_card c v = remove_user_font i v" by (simp add: remove_card_def c(2) assms(2))
  have "f \<in> set (fonts_for (lk_fonts (fst (remove_card c v))) s)"
    by (rule on) (simp add: r remove_user_font_def Let_def set_user_fonts_def)
  with c r assms(2,4) show ?thesis
    by (intro bexI [of _ c]) (simp_all add: remove_user_font_def Let_def update_prefs_def)
qed

theorem plugin_font_offers_removal_witness:
  "\<exists>c \<in> set (font_cards (\<lambda>k ps. k) Latin look_with_plugin_font). fc_removable c
     \<and> snd (remove_card c look_with_plugin_font) = [AskRemoveFont ''plugin-sea-0'']"
proof -
  have f: "font (USER_FONT_PREFIX @ ''plugin-sea-0'') ''Sea'' [] None \<in> set (fs_plugin (lk_fonts look_with_plugin_font))"
    "ap_font (lk_prefs look_with_plugin_font) = USER_FONT_PREFIX @ ''plugin-sea-0''"
    by (simp_all add: look_with_plugin_font_def set_font_def update_prefs_def)
  show ?thesis
    using plugin_font_offers_removal [OF f(1), of "''plugin-sea-0''" "\<lambda>k ps. k" Latin] f(2) by (auto simp: font_def)
qed

end
