(* ===== verification/Dialogs.thy ===== *)
theory Dialogs
  imports Settings_Panels Proxy_Config Profiles
begin

text \<open>
  The dialogs over servers and configurations: adding one (components/AddModal.tsx), editing a server
  (components/views/EditProxyDialog.tsx) or a configuration (components/views/EditConfigDialog.tsx),
  exporting (components/views/ExportDialog.tsx), and reading and sharing QR codes (components/qr.tsx).
  A dialog is a record of its state; an operation gives the new state and, where it calls the service
  or the window that owns it, what it asks for.  \<open>t\<close> is the translation function.
\<close>

section \<open>Adding\<close>

text \<open>\<open>ad_open\<close> and \<open>ad_offered\<close> are the window's \<open>isModalOpen\<close> and \<open>offeredLink\<close>.\<close>

record add_dialog =
  ad_open :: bool
  ad_offered :: string
  ad_name :: string
  ad_link :: string
  ad_loading :: bool
  ad_error :: string
  ad_scanning :: bool
  ad_camera :: bool

definition closed_add :: add_dialog where
  "closed_add = \<lparr>ad_open = False, ad_offered = [], ad_name = [], ad_link = [], ad_loading = False,
     ad_error = [], ad_scanning = False, ad_camera = False\<rparr>"

text \<open>The effect after \<open>isOpen\<close> or \<open>initialLink\<close> changed.\<close>

definition take_offer :: "add_dialog \<Rightarrow> add_dialog" where
  "take_offer d = (if ad_open d \<and> ad_offered d \<noteq> [] then d\<lparr>ad_link := ad_offered d\<rparr> else d)"

definition offer_link :: "string \<Rightarrow> add_dialog \<Rightarrow> add_dialog" where
  "offer_link link d =
     (if ad_open d \<and> ad_offered d = link then d else take_offer (d\<lparr>ad_open := True, ad_offered := link\<rparr>))"

definition open_add :: "add_dialog \<Rightarrow> add_dialog" where
  "open_add d = (if ad_open d then d else take_offer (d\<lparr>ad_open := True\<rparr>))"

definition close_add :: "add_dialog \<Rightarrow> add_dialog" where
  "close_add d = d\<lparr>ad_name := [], ad_link := [], ad_error := [], ad_open := False, ad_offered := []\<rparr>"

text \<open>\<open>/^https?:\/\//i\<close>.\<close>

definition is_subscription :: "string \<Rightarrow> bool" where
  "is_subscription link \<longleftrightarrow>
     js_starts_with (js_lower (js_trim link)) ''http://'' \<or> js_starts_with (js_lower (js_trim link)) ''https://''"

datatype add_job = ImportUrl string | SaveLink string string

text \<open>\<open>handleProcess\<close> up to its call, and what follows the answer (the text of a rejection, or none).\<close>

definition start_add :: "texts \<Rightarrow> add_dialog \<Rightarrow> add_dialog \<times> add_job option" where
  "start_add t d =
     (let link = js_trim (ad_link d);
          default_name = t (if js_starts_with link ''{'' then ''add.defaultJsonName'' else ''add.defaultName'') None
      in if link = [] then (d, None)
         else (d\<lparr>ad_loading := True, ad_error := []\<rparr>,
               Some (if is_subscription (ad_link d) then ImportUrl link
                     else SaveLink (if ad_name d \<noteq> [] then ad_name d else default_name) link)))"

definition add_answered :: "string option \<Rightarrow> add_dialog \<Rightarrow> add_dialog" where
  "add_answered failure d =
     (case failure of
        None \<Rightarrow> (close_add d)\<lparr>ad_loading := False\<rparr>
      | Some e \<Rightarrow> d\<lparr>ad_error := e, ad_loading := False\<rparr>)"

definition add_ready :: "add_dialog \<Rightarrow> bool" where
  "add_ready d \<longleftrightarrow> \<not> ad_loading d \<and> js_trim (ad_link d) \<noteq> []"

definition add_label :: "texts \<Rightarrow> add_dialog \<Rightarrow> string" where
  "add_label t d = t (if ad_loading d then ''common.working''
                      else if is_subscription (ad_link d) then ''add.importSubscription'' else ''add.addProfile'') None"

text \<open>A picture read for a code: its text, or none (also when it cannot be read).\<close>

definition scan_image :: "add_dialog \<Rightarrow> add_dialog" where
  "scan_image d = d\<lparr>ad_scanning := True, ad_error := []\<rparr>"

definition image_scanned :: "texts \<Rightarrow> string option \<Rightarrow> add_dialog \<Rightarrow> add_dialog" where
  "image_scanned t found d =
     (case found of
        Some (c # cs) \<Rightarrow> d\<lparr>ad_link := c # cs, ad_scanning := False\<rparr>
      | _ \<Rightarrow> d\<lparr>ad_error := t ''add.qrNone'' None, ad_scanning := False\<rparr>)"

definition camera_read :: "string \<Rightarrow> add_dialog \<Rightarrow> add_dialog" where
  "camera_read text d = d\<lparr>ad_camera := False, ad_error := [], ad_link := text\<rparr>"

section \<open>Closing\<close>

text \<open>
  The dialogs that edit and export close in two steps: the dialog goes at once, its owner's \<open>onClose\<close>
  is called 200 ms later.  A press while that is pending does nothing; each \<open>open_effect\<close> below ends it.
\<close>

record closing =
  cl_shown :: bool
  cl_closing :: bool
  cl_calls :: nat

definition opened :: closing where
  "opened = \<lparr>cl_shown = True, cl_closing = False, cl_calls = 0\<rparr>"

definition handle_close :: "closing \<Rightarrow> closing \<times> bool" where
  "handle_close c = (if cl_closing c then (c, False) else (c\<lparr>cl_closing := True, cl_shown := False\<rparr>, True))"

definition close_timer :: "closing \<Rightarrow> closing" where
  "close_timer c = c\<lparr>cl_calls := Suc (cl_calls c), cl_closing := False\<rparr>"

definition shown_again :: "closing \<Rightarrow> closing" where
  "shown_again c = c\<lparr>cl_shown := True, cl_closing := False\<rparr>"

section \<open>Editing a server\<close>

definition SS_CIPHERS :: "string list" where
  "SS_CIPHERS = [''2022-blake3-aes-128-gcm'', ''2022-blake3-aes-256-gcm'', ''2022-blake3-chacha20-poly1305'',
     ''aes-128-gcm'', ''aes-256-gcm'', ''chacha20-ietf-poly1305'', ''xchacha20-ietf-poly1305'']"

definition FINGERPRINTS :: "string list" where
  "FINGERPRINTS = [''chrome'', ''firefox'', ''safari'', ''ios'', ''edge'', ''qq'', ''random'']"

text \<open>A control of the form: what it shows, and what a value entered makes of the form.\<close>

datatype form_field =
    InputField string "proxy_form \<Rightarrow> string" "string \<Rightarrow> proxy_form \<Rightarrow> proxy_form"
  | SelectField string "proxy_form \<Rightarrow> string" "string list" "string \<Rightarrow> proxy_form \<Rightarrow> proxy_form"
  | SwitchField string "proxy_form \<Rightarrow> bool" "bool \<Rightarrow> proxy_form \<Rightarrow> proxy_form"

definition number_or :: "int \<Rightarrow> string \<Rightarrow> int" where
  "number_or d s = (case js_parse_int s of Some n \<Rightarrow> if n = 0 then d else n | None \<Rightarrow> d)"

definition server_fields :: "proxy_form \<Rightarrow> form_field list" where
  "server_fields f =
     [InputField ''edit-name'' pf_name (\<lambda>v. pf_name_update (\<lambda>_. v)),
      InputField ''edit-server'' pf_server (\<lambda>v. pf_server_update (\<lambda>_. v)),
      InputField ''edit-port'' (\<lambda>f. if pf_port f = 0 then [] else int_str (pf_port f))
        (\<lambda>v. pf_port_update (\<lambda>_. number_or 443 v))]"

definition credential_fields :: "proxy_form \<Rightarrow> form_field list" where
  "credential_fields f =
     (let proto = js_lower (pf_protocol f);
          vless = (proto = ''vless''); vmess = (proto = ''vmess''); tuic = (proto = ''tuic'');
          ss = (proto = ''ss'' \<or> proto = ''shadowsocks''); hy2 = (proto = ''hysteria2'' \<or> proto = ''hy2'');
          plain = (proto \<in> {''socks'', ''socks5'', ''http'', ''https''})
      in (if vless \<or> vmess \<or> tuic then [InputField ''edit-uuid'' pf_uuid (\<lambda>v. pf_uuid_update (\<lambda>_. v))] else [])
       @ (if vless
          then [SelectField ''edit-flow'' (\<lambda>f. if pf_flow f = [] then ''none'' else pf_flow f)
                  [''none'', ''xtls-rprx-vision'']
                  (\<lambda>v. pf_flow_update (\<lambda>_. if v = ''none'' then [] else v))] else [])
       @ (if vmess
          then [InputField ''edit-alterid'' (\<lambda>f. int_str (pf_alter_id f)) (\<lambda>v. pf_alter_id_update (\<lambda>_. number_or 0 v)),
                SelectField ''edit-vmess-security'' (\<lambda>f. if pf_cipher f = [] then ''auto'' else pf_cipher f)
                  [''auto'', ''aes-128-gcm'', ''chacha20-poly1305'', ''none''] (\<lambda>v. pf_cipher_update (\<lambda>_. v))] else [])
       @ (if proto = ''trojan'' \<or> hy2 \<or> ss
          then [InputField ''edit-password'' pf_password (\<lambda>v. pf_password_update (\<lambda>_. v))] else [])
       @ (if ss
          then [SelectField ''edit-cipher'' (\<lambda>f. if pf_cipher f = [] then ''aes-256-gcm'' else pf_cipher f)
                  SS_CIPHERS (\<lambda>v. pf_cipher_update (\<lambda>_. v))] else [])
       @ (if plain
          then [InputField ''edit-username'' pf_username (\<lambda>v. pf_username_update (\<lambda>_. v)),
                InputField ''edit-socks-pass'' pf_password (\<lambda>v. pf_password_update (\<lambda>_. v))] else []))"

definition transport_fields :: "proxy_form \<Rightarrow> form_field list" where
  "transport_fields f =
     SelectField ''edit-network'' pf_network [''tcp'', ''ws'', ''grpc'', ''httpupgrade'', ''http'']
       (\<lambda>v. pf_network_update (\<lambda>_. v))
     # (if pf_network f = ''grpc''
        then InputField ''edit-service'' pf_service_name (\<lambda>v. pf_service_name_update (\<lambda>_. v))
        else InputField ''edit-path'' pf_path (\<lambda>v. pf_path_update (\<lambda>_. v)))
     # (if pf_network f \<in> {''ws'', ''httpupgrade'', ''http''}
        then [InputField ''edit-host'' pf_host (\<lambda>v. pf_host_update (\<lambda>_. v))] else [])"

definition security_fields :: "proxy_form \<Rightarrow> form_field list" where
  "security_fields f =
     SelectField ''edit-tls'' pf_security [''none'', ''tls'', ''reality''] (\<lambda>v. pf_security_update (\<lambda>_. v))
     # (if pf_security f = ''none'' then []
        else [InputField ''edit-sni'' pf_sni (\<lambda>v. pf_sni_update (\<lambda>_. v)),
              SelectField ''edit-fingerprint'' (\<lambda>f. if pf_fingerprint f = [] then ''chrome'' else pf_fingerprint f)
                FINGERPRINTS (\<lambda>v. pf_fingerprint_update (\<lambda>_. v)),
              SwitchField ''Skip certificate verification'' pf_insecure (\<lambda>b. pf_insecure_update (\<lambda>_. b))])
     @ (if pf_security f = ''reality''
        then [InputField ''edit-pbk'' pf_public_key (\<lambda>v. pf_public_key_update (\<lambda>_. v)),
              InputField ''edit-sid'' pf_short_id (\<lambda>v. pf_short_id_update (\<lambda>_. v)),
              InputField ''edit-spx'' pf_spider_x (\<lambda>v. pf_spider_x_update (\<lambda>_. v))] else [])"

definition hysteria_fields :: "proxy_form \<Rightarrow> form_field list" where
  "hysteria_fields f =
     (if js_lower (pf_protocol f) \<in> {''hysteria2'', ''hy2''}
      then [InputField ''edit-obfs'' pf_obfs (\<lambda>v. pf_obfs_update (\<lambda>_. v)),
            InputField ''edit-obfs-pass'' pf_obfs_password (\<lambda>v. pf_obfs_password_update (\<lambda>_. v)),
            InputField ''edit-ports'' pf_ports (\<lambda>v. pf_ports_update (\<lambda>_. v))] else [])"

definition form_fields :: "proxy_form \<Rightarrow> form_field list" where
  "form_fields f = server_fields f @ credential_fields f @ transport_fields f @ security_fields f @ hysteria_fields f"

text \<open>What a control can make of the form: any text, one of its choices, on or off.\<close>

fun field_changes :: "form_field \<Rightarrow> (proxy_form \<Rightarrow> proxy_form) set" where
  "field_changes (InputField k get change) = range change"
| "field_changes (SelectField k get options change) = change ` set options"
| "field_changes (SwitchField k get change) = range change"

datatype form_tab = FormTab | RawTab

record server_dialog = closing +
  sd_tab :: form_tab
  sd_form :: proxy_form
  sd_raw :: string
  sd_saving :: bool
  sd_error :: string

text \<open>
  The effect after \<open>profile\<close> or \<open>isOpen\<close> changed, on the state before it; none where \<open>parse_proxy_link\<close>
  raises, which this effect does not catch.
\<close>

definition open_server :: "link_env \<Rightarrow> profile \<Rightarrow> server_dialog \<Rightarrow> server_dialog option" where
  "open_server env p d =
     map_option (\<lambda>f. d\<lparr>cl_shown := True, cl_closing := False, sd_form := f, sd_raw := p_config_link p,
                       sd_tab := FormTab, sd_error := []\<rparr>)
       (parse_proxy_link env (p_config_link p) (p_name p))"

definition update_field :: "link_env \<Rightarrow> (proxy_form \<Rightarrow> proxy_form) \<Rightarrow> server_dialog \<Rightarrow> server_dialog" where
  "update_field env change d =
     (let next = change (sd_form d) in d\<lparr>sd_form := next, sd_raw := serialize_proxy_config env next\<rparr>)"

definition type_raw :: "string \<Rightarrow> server_dialog \<Rightarrow> server_dialog" where
  "type_raw v d = d\<lparr>sd_raw := v\<rparr>"

definition change_tab :: "link_env \<Rightarrow> profile \<Rightarrow> form_tab \<Rightarrow> server_dialog \<Rightarrow> server_dialog" where
  "change_tab env p tab d =
     (let d1 = (case (tab, sd_tab d) of
                  (FormTab, RawTab) \<Rightarrow>
                    (case parse_proxy_link env (sd_raw d) (if pf_name (sd_form d) \<noteq> [] then pf_name (sd_form d) else p_name p) of
                       Some f \<Rightarrow> d\<lparr>sd_form := f\<rparr>
                     | None \<Rightarrow> d)
                | (RawTab, FormTab) \<Rightarrow> d\<lparr>sd_raw := serialize_proxy_config env (sd_form d)\<rparr>
                | _ \<Rightarrow> d)
      in d1\<lparr>sd_tab := tab\<rparr>)"

definition final_name :: "profile \<Rightarrow> server_dialog \<Rightarrow> string" where
  "final_name p d = (let n = js_trim (pf_name (sd_form d)) in if n \<noteq> [] then n else p_name p)"

text \<open>\<open>handleSave\<close> up to its call: the identifier, name and link to store; and what follows the answer.\<close>

definition start_save :: "link_env \<Rightarrow> profile \<Rightarrow> server_dialog \<Rightarrow> server_dialog \<times> (string \<times> string \<times> string) option" where
  "start_save env p d =
     (case sd_tab d of
        RawTab \<Rightarrow>
          if js_trim (sd_raw d) = [] then (d\<lparr>sd_error := ''Configuration cannot be empty'', sd_saving := False\<rparr>, None)
          else (d\<lparr>sd_saving := True, sd_error := []\<rparr>, Some (p_id p, final_name p d, js_trim (sd_raw d)))
      | FormTab \<Rightarrow>
          if js_trim (pf_server (sd_form d)) = []
          then (d\<lparr>sd_error := ''Server address is required'', sd_saving := False\<rparr>, None)
          else (d\<lparr>sd_saving := True, sd_error := []\<rparr>,
                Some (p_id p, final_name p d, serialize_proxy_config env (sd_form d))))"

definition save_answered :: "string option \<Rightarrow> server_dialog \<Rightarrow> server_dialog" where
  "save_answered failure d =
     (case failure of
        None \<Rightarrow> if cl_closing d then d\<lparr>sd_saving := False\<rparr>
                else d\<lparr>sd_saving := False, cl_closing := True, cl_shown := False\<rparr>
      | Some e \<Rightarrow> d\<lparr>sd_saving := False, sd_error := e\<rparr>)"

section \<open>Editing a configuration\<close>

record config_dialog = closing +
  cd_url :: string
  cd_name :: string
  cd_link :: string
  cd_saving :: bool
  cd_error :: string

text \<open>The effect after \<open>source\<close>, \<open>isOpen\<close> or \<open>profiles\<close> changed.\<close>

definition open_config :: "config_source \<Rightarrow> profile list \<Rightarrow> config_dialog \<Rightarrow> config_dialog" where
  "open_config source ps d =
     (let d1 = d\<lparr>cl_shown := True, cl_closing := False, cd_error := []\<rparr> in
      case source of
        SubscriptionSource key domain label detail n info \<Rightarrow>
          d1\<lparr>cd_url := (case find (\<lambda>p. or_else (p_subscription_url p) [] \<noteq> [])
                              (filter (\<lambda>p. js_trim (or_else (p_source_domain p) []) = domain) ps) of
                          Some p \<Rightarrow> or_else (p_subscription_url p) [] | None \<Rightarrow> []),
             cd_name := label\<rparr>
      | ProfileSource key label detail i \<Rightarrow>
          (case find (\<lambda>p. p_id p = i) ps of
             Some p \<Rightarrow> d1\<lparr>cd_name := p_name p, cd_link := p_config_link p\<rparr>
           | None \<Rightarrow> d1))"

definition config_profiles :: "config_source \<Rightarrow> profile list \<Rightarrow> profile list" where
  "config_profiles source ps =
     filter (\<lambda>p. case source of
                   ProfileSource key label detail i \<Rightarrow> p_id p = i
                 | SubscriptionSource key domain label detail n info \<Rightarrow>
                     (let d = js_trim (or_else (p_source_domain p) []) in (if d = [] then LOCAL else d) = domain)) ps"

datatype config_job = SetUrl string string | SetProfile string string string

text \<open>\<open>handleSave\<close> up to its call; without a call (the server is gone) the dialog only closes.\<close>

definition start_config_save :: "config_source \<Rightarrow> profile list \<Rightarrow> config_dialog \<Rightarrow> config_dialog \<times> config_job option" where
  "start_config_save source ps d =
     (case source of
        SubscriptionSource key domain label detail n info \<Rightarrow>
          if js_trim (cd_url d) = [] then (d\<lparr>cd_error := ''Subscription URL cannot be empty'', cd_saving := False\<rparr>, None)
          else (d\<lparr>cd_saving := True, cd_error := []\<rparr>, Some (SetUrl domain (js_trim (cd_url d))))
      | ProfileSource key label detail i \<Rightarrow>
          (case find (\<lambda>p. p_id p = i) ps of
             None \<Rightarrow> (case handle_close (closing.truncate d) of (c, asked) \<Rightarrow>
                        d\<lparr>cd_saving := False, cd_error := [], cl_shown := cl_shown c, cl_closing := cl_closing c\<rparr>, None)
           | Some p \<Rightarrow>
               if js_trim (cd_link d) = [] then (d\<lparr>cd_error := ''Config link cannot be empty'', cd_saving := False\<rparr>, None)
               else (d\<lparr>cd_saving := True, cd_error := []\<rparr>,
                     Some (SetProfile (p_id p) (if js_trim (cd_name d) \<noteq> [] then js_trim (cd_name d) else p_name p)
                             (js_trim (cd_link d))))))"

definition config_answered :: "string option \<Rightarrow> config_dialog \<Rightarrow> config_dialog" where
  "config_answered failure d =
     (case failure of
        None \<Rightarrow> if cl_closing d then d\<lparr>cd_saving := False\<rparr>
                else d\<lparr>cd_saving := False, cl_closing := True, cl_shown := False\<rparr>
      | Some e \<Rightarrow> d\<lparr>cd_saving := False, cd_error := e\<rparr>)"

definition config_ready :: "config_source \<Rightarrow> config_dialog \<Rightarrow> bool" where
  "config_ready source d \<longleftrightarrow> \<not> cd_saving d \<and>
     (case source of SubscriptionSource key domain label detail n info \<Rightarrow> js_trim (cd_url d) \<noteq> []
      | ProfileSource key label detail i \<Rightarrow> js_trim (cd_link d) \<noteq> [])"

section \<open>Exporting\<close>

datatype export_format = Singbox | Clash | Xray

fun format_name :: "export_format \<Rightarrow> string" where
  "format_name Singbox = ''singbox''"
| "format_name Clash = ''clash''"
| "format_name Xray = ''xray''"

text \<open>The label, the file name's end and what is said of the format.\<close>

fun FORMAT_CONFIG :: "export_format \<Rightarrow> string \<times> string \<times> string" where
  "FORMAT_CONFIG Singbox = (''sing-box'', ''json'', ''Modern sing-box 1.11+ format (JSON)'')"
| "FORMAT_CONFIG Clash = (''Clash / Mihomo'', ''yaml'', ''Clash Meta / Mihomo compatible format (YAML)'')"
| "FORMAT_CONFIG Xray = (''Xray / V2Ray'', ''json'', ''Xray-core / V2Ray outbound & client format (JSON)'')"

text \<open>
  \<open>ex_asked\<close> holds the calls made, in order: an answer is taken only where it is the newest call's
  (\<open>cancelled\<close> is set for every other).
\<close>

record export_dialog =
  ex_ids :: "string list"
  ex_format :: export_format
  ex_full :: bool
  ex_content :: string
  ex_loading :: bool
  ex_error :: string
  ex_saving :: bool
  ex_asked :: "(string list \<times> export_format \<times> bool) list"

definition ask_export :: "export_dialog \<Rightarrow> export_dialog" where
  "ask_export d =
     (if ex_ids d = [] then d
      else d\<lparr>ex_loading := True, ex_error := [], ex_asked := ex_asked d @ [(ex_ids d, ex_format d, ex_full d)]\<rparr>)"

definition opened_export :: "string list \<Rightarrow> export_dialog" where
  "opened_export ids = ask_export
     \<lparr>ex_ids = ids, ex_format = Singbox, ex_full = True, ex_content = [], ex_loading = False, ex_error = [],
      ex_saving = False, ex_asked = []\<rparr>"

datatype export_event = ChooseFormat export_format | ChooseFull bool | ExportAnswer nat

type_synonym export_service = "string list \<times> export_format \<times> bool \<Rightarrow> string + string"

definition export_step :: "export_service \<Rightarrow> export_event \<Rightarrow> export_dialog \<Rightarrow> export_dialog" where
  "export_step svc e d =
     (case e of
        ChooseFormat f \<Rightarrow> if ex_format d = f then d else ask_export (d\<lparr>ex_format := f\<rparr>)
      | ChooseFull b \<Rightarrow> if ex_full d = b then d else ask_export (d\<lparr>ex_full := b\<rparr>)
      | ExportAnswer n \<Rightarrow>
          if Suc n = length (ex_asked d) \<and> ex_loading d
          then (case svc (ex_asked d ! n) of
                  Inr text \<Rightarrow> d\<lparr>ex_content := text, ex_loading := False\<rparr>
                | Inl message \<Rightarrow> d\<lparr>ex_error := message, ex_loading := False\<rparr>)
          else d)"

definition export_ready :: "export_dialog \<Rightarrow> bool" where
  "export_ready d \<longleftrightarrow> \<not> ex_loading d \<and> ex_content d \<noteq> [] \<and> \<not> ex_saving d"

definition export_file_name :: "export_dialog \<Rightarrow> string" where
  "export_file_name d =
     ''nuggetvpn-'' @ format_name (ex_format d) @ ''-'' @ nat_str (length (ex_ids d)) @ ''servers.''
     @ fst (snd (FORMAT_CONFIG (ex_format d)))"

text \<open>The name a file is offered under and the text written to it, once a path is chosen.\<close>

definition save_export :: "export_dialog \<Rightarrow> (string \<times> string) option" where
  "save_export d = (if ex_content d = [] then None else Some (export_file_name d, ex_content d))"

definition copy_export :: "export_dialog \<Rightarrow> string option" where
  "copy_export d = (if ex_content d = [] then None else Some (ex_content d))"

definition path_base :: "string \<Rightarrow> string" where
  "path_base path = List.last (js_split CHR ''/'' (map (\<lambda>c. if c = CHR 0x5C then CHR ''/'' else c) path))"

definition line_count :: "export_dialog \<Rightarrow> string" where
  "line_count d =
     (if ex_content d = [] then [] else nat_str (length (js_split CHR 0x0A (ex_content d))) @ '' lines'')"

section \<open>Codes\<close>

text \<open>A picture is read at a size of at most \<open>most\<close>: 1600 for a file, 800 for a camera frame.\<close>

definition read_scale :: "rat \<Rightarrow> nat \<Rightarrow> nat \<Rightarrow> rat" where
  "read_scale most w h = min 1 (most / of_nat (max w h))"

definition image_size :: "nat \<Rightarrow> nat \<Rightarrow> int \<times> int" where
  "image_size w h =
     (let s = read_scale 1600 w h in (max 1 (js_round (of_nat w * s)), max 1 (js_round (of_nat h * s))))"

definition frame_size :: "nat \<Rightarrow> nat \<Rightarrow> int \<times> int" where
  "frame_size w h = (let s = read_scale 800 w h in (js_round (of_nat w * s), js_round (of_nat h * s)))"

text \<open>The text of the code found (none: no code), as the dialog takes it.\<close>

definition code_text :: "string option \<Rightarrow> string option" where
  "code_text found = (case js_trim (or_else found []) of [] \<Rightarrow> None | c # cs \<Rightarrow> Some (c # cs))"

record camera_device =
  dv_kind :: string
  dv_id :: string
  dv_label :: string

text \<open>\<open>/back|rear|environment/i\<close> and \<open>Number(/(\d+)/.exec(label)?.[1] ?? 99)\<close>.\<close>

definition back_label :: "string \<Rightarrow> bool" where
  "back_label label \<longleftrightarrow> (let l = js_lower label in
     js_includes l ''back'' \<or> js_includes l ''rear'' \<or> js_includes l ''environment'')"

definition label_number :: "string \<Rightarrow> nat" where
  "label_number label =
     (let ds = takeWhile is_digit (dropWhile (\<lambda>c. \<not> is_digit c) label) in if ds = [] then 99 else digits_val ds)"

definition camera_le :: "camera_device \<Rightarrow> camera_device \<Rightarrow> bool" where
  "camera_le a b =
     (if back_label (dv_label a) \<noteq> back_label (dv_label b) then back_label (dv_label a)
      else label_number (dv_label a) \<le> label_number (dv_label b))"

definition cameras :: "camera_device list \<Rightarrow> camera_device list" where
  "cameras devices = js_sort camera_le (filter (\<lambda>d. dv_kind d = ''videoinput'' \<and> dv_id d \<noteq> []) devices)"

text \<open>
  \<open>attempt\<close> is \<open>getUserMedia\<close>, for a device's identifier or none: an error, or a stream, which is
  its first track's label here.  Each attempt made is listed with the result.
\<close>

fun try_cameras :: "(string option \<Rightarrow> string + string) \<Rightarrow> string \<Rightarrow> camera_device list \<Rightarrow> string option list \<times> (string + string)" where
  "try_cameras attempt failure [] = ([], Inl failure)"
| "try_cameras attempt failure (d # ds) =
     (case attempt (Some (dv_id d)) of
        Inr stream \<Rightarrow> ([Some (dv_id d)], Inr stream)
      | Inl e \<Rightarrow> (case try_cameras attempt e ds of (tried, r) \<Rightarrow> (Some (dv_id d) # tried, r)))"

text \<open>The devices as first listed, and as listed once the page may use a camera.\<close>

definition open_camera ::
  "(string option \<Rightarrow> string + string) \<Rightarrow> camera_device list \<Rightarrow> camera_device list \<Rightarrow> string option list \<times> (string + string)" where
  "open_camera attempt before after =
     (if list_ex (\<lambda>d. dv_label d \<noteq> []) (cameras before) then try_cameras attempt ''no camera'' (cameras before)
      else (case attempt None of
              Inr stream \<Rightarrow>
                if back_label stream then ([None], Inr stream)
                else (case try_cameras attempt ''no camera'' (cameras after) of (tried, r) \<Rightarrow> (None # tried, r))
            | Inl e \<Rightarrow> (case try_cameras attempt e (cameras after) of (tried, r) \<Rightarrow> (None # tried, r))))"

text \<open>The scanner: \<open>sc_waiting\<close> while a timer is set to read the next frame.\<close>

record scanner =
  sc_stopped :: bool
  sc_streaming :: bool
  sc_waiting :: bool
  sc_results :: "string list"
  sc_error :: bool

definition opened_scanner :: "bool \<Rightarrow> scanner" where
  "opened_scanner supported =
     \<lparr>sc_stopped = False, sc_streaming = False, sc_waiting = False, sc_results = [], sc_error = \<not> supported\<rparr>"

text \<open>A frame: none while the video is not ready, else the code found in it, if any.\<close>

definition read_frame :: "string option option \<Rightarrow> scanner \<Rightarrow> scanner" where
  "read_frame frame s =
     (if sc_stopped s then s\<lparr>sc_waiting := False\<rparr>
      else (case Option.bind frame code_text of
              Some text \<Rightarrow> s\<lparr>sc_stopped := True, sc_waiting := False, sc_results := sc_results s @ [text]\<rparr>
            | None \<Rightarrow> s\<lparr>sc_waiting := True\<rparr>))"

datatype scan_event = CameraOpened "string option option" | CameraFailed | ScanTick "string option option" | ScannerClosed

definition scan_step :: "scan_event \<Rightarrow> scanner \<Rightarrow> scanner" where
  "scan_step e s =
     (case e of
        CameraOpened frame \<Rightarrow> if sc_stopped s then s else read_frame frame (s\<lparr>sc_streaming := True\<rparr>)
      | CameraFailed \<Rightarrow> s\<lparr>sc_error := True\<rparr>
      | ScanTick frame \<Rightarrow> if sc_waiting s then read_frame frame s else s
      | ScannerClosed \<Rightarrow> s\<lparr>sc_stopped := True, sc_waiting := False, sc_streaming := False\<rparr>)"

section \<open>Sharing\<close>

record shared_link =
  sl_name :: string
  sl_link :: string

definition shared_ids :: "string list \<Rightarrow> string list" where
  "shared_ids ids = (let key = js_join '','' ids in if key = [] then [] else js_split CHR '','' key)"

record server_links =
  lk_links :: "shared_link list option"
  lk_error :: string
  lk_shown :: "nat option"

definition links_answered :: "string + shared_link list option \<Rightarrow> server_links \<Rightarrow> server_links" where
  "links_answered answer v =
     (case answer of Inr links \<Rightarrow> v\<lparr>lk_links := Some (or_else links [])\<rparr> | Inl e \<Rightarrow> v\<lparr>lk_error := e\<rparr>)"

definition press_code :: "nat \<Rightarrow> server_links \<Rightarrow> server_links" where
  "press_code i v = v\<lparr>lk_shown := (if lk_shown v = Some i then None else Some i)\<rparr>"

definition shown_code :: "server_links \<Rightarrow> string option" where
  "shown_code v =
     (case (lk_shown v, lk_links v) of
        (Some i, Some links) \<Rightarrow> if i < length links then Some (sl_link (links ! i)) else None
      | _ \<Rightarrow> None)"

definition all_links :: "server_links \<Rightarrow> string" where
  "all_links v = js_join [CHR 0x0A] (map sl_link (or_else (lk_links v) []))"

section \<open>Adding: properties\<close>

text \<open>what is entered goes to one call, trimmed: a web address as a subscription, anything else as a
  server under the name typed or the default one; an answer that fails leaves everything entered and
  shows why, one that succeeds empties and closes the dialog.\<close>

theorem add_sends_what_is_entered:
  assumes "start_add t d = (d', job)"
  shows "(job = None \<longleftrightarrow> js_trim (ad_link d) = [])
    \<and> (job = None \<longrightarrow> d' = d)
    \<and> (\<forall>url. job = Some (ImportUrl url) \<longrightarrow> is_subscription (ad_link d) \<and> url = js_trim (ad_link d))
    \<and> (\<forall>name link. job = Some (SaveLink name link) \<longrightarrow>
          \<not> is_subscription (ad_link d) \<and> link = js_trim (ad_link d) \<and> (ad_name d \<noteq> [] \<longrightarrow> name = ad_name d))
    \<and> (\<forall>e. ad_link (add_answered (Some e) d') = ad_link d \<and> ad_name (add_answered (Some e) d') = ad_name d
          \<and> ad_error (add_answered (Some e) d') = e \<and> ad_open (add_answered (Some e) d') = ad_open d)
    \<and> ad_link (add_answered None d') = [] \<and> \<not> ad_open (add_answered None d') \<and> \<not> ad_loading (add_answered None d')"
  using assms by (auto simp: start_add_def Let_def add_answered_def close_add_def split: if_splits)

definition plain_texts :: texts where
  "plain_texts k ps = k"

theorem add_sends_what_is_entered_witness:
  "start_add plain_texts (closed_add\<lparr>ad_link := '' vless://a ''\<rparr>)
     = (closed_add\<lparr>ad_link := '' vless://a '', ad_loading := True\<rparr>, Some (SaveLink ''add.defaultName'' ''vless://a''))
   \<and> \<not> ad_open (add_answered None (closed_add\<lparr>ad_link := '' vless://a '', ad_loading := True\<rparr>))"
proof -
  have s: "start_add plain_texts (closed_add\<lparr>ad_link := '' vless://a ''\<rparr>)
     = (closed_add\<lparr>ad_link := '' vless://a '', ad_loading := True\<rparr>, Some (SaveLink ''add.defaultName'' ''vless://a''))"
    by code_simp
  then show ?thesis using add_sends_what_is_entered [OF s] by simp
qed

text \<open>the dialog can be closed and opened again while a call runs; when that call succeeds, it
  closes the new dialog and empties what was entered there.\<close>

theorem late_answer_empties_new_dialog:
  assumes "start_add t d = (d', Some job)"
  shows "ad_link (add_answered None ((open_add (close_add d'))\<lparr>ad_link := link\<rparr>)) = []
    \<and> \<not> ad_open (add_answered None ((open_add (close_add d'))\<lparr>ad_link := link\<rparr>))
    \<and> ad_open (open_add (close_add d')) \<and> ad_loading (open_add (close_add d'))"
  using assms
  by (auto simp: start_add_def Let_def add_answered_def close_add_def open_add_def take_offer_def split: if_splits)

theorem late_answer_empties_new_dialog_witness:
  "ad_link (add_answered None ((open_add (close_add (closed_add\<lparr>ad_link := ''vless://a'', ad_loading := True\<rparr>)))\<lparr>ad_link := ''ss://b''\<rparr>)) = []"
proof -
  have s: "start_add plain_texts (closed_add\<lparr>ad_link := ''vless://a''\<rparr>)
     = (closed_add\<lparr>ad_link := ''vless://a'', ad_loading := True\<rparr>, Some (SaveLink ''add.defaultName'' ''vless://a''))"
    by code_simp
  show ?thesis using late_answer_empties_new_dialog [OF s, of "''ss://b''"] by simp
qed

section \<open>Closing: properties\<close>

lemma handle_close_pending: "cl_closing c \<Longrightarrow> handle_close c = (c, False)"
  by (simp add: handle_close_def)

lemma presses_pending: "cl_closing c \<Longrightarrow> ((fst \<circ> handle_close) ^^ n) c = c"
  by (induction n) (simp_all add: handle_close_pending)

text \<open>however often Close is pressed before the dialog has gone, its owner is told once.\<close>

theorem owner_told_once:
  assumes "\<not> cl_closing c"
  shows "cl_calls (close_timer (((fst \<circ> handle_close) ^^ Suc n) c)) = Suc (cl_calls c)
    \<and> \<not> cl_shown (((fst \<circ> handle_close) ^^ Suc n) c)
    \<and> (\<forall>k < n. \<not> snd (handle_close (((fst \<circ> handle_close) ^^ Suc k) c)))"
proof -
  have p: "((fst \<circ> handle_close) ^^ Suc k) c = c\<lparr>cl_closing := True, cl_shown := False\<rparr>" for k
    unfolding funpow_Suc_right comp_def [of "(fst \<circ> handle_close) ^^ k"]
    using assms by (simp add: handle_close_def presses_pending)
  show ?thesis unfolding p by (simp add: close_timer_def handle_close_pending)
qed

theorem owner_told_once_witness: "cl_calls (close_timer (((fst \<circ> handle_close) ^^ 3) opened)) = 1"
  using owner_told_once [of opened 2] by (simp add: opened_def numeral_3_eq_3)

section \<open>Editing: properties\<close>

text \<open>the raw tab shows the link the Settings tab would store, and storing from either tab sends the
  same identifier, name and link.\<close>

theorem tabs_save_the_same:
  assumes "js_trim (serialize_proxy_config env (change (sd_form d))) = serialize_proxy_config env (change (sd_form d))"
    and "js_trim (pf_server (change (sd_form d))) \<noteq> []" and "serialize_proxy_config env (change (sd_form d)) \<noteq> []"
    and "sd_tab d = FormTab"
  shows "snd (start_save env p (update_field env change d))
           = snd (start_save env p (change_tab env p RawTab (update_field env change d)))
    \<and> sd_raw (change_tab env p RawTab (update_field env change d)) = sd_raw (update_field env change d)"
  using assms by (simp add: start_save_def update_field_def change_tab_def final_name_def Let_def)

text \<open>The fields that say what kind of link a form is are edited by no control.\<close>

definition keeps_kind :: "(proxy_form \<Rightarrow> proxy_form) \<Rightarrow> bool" where
  "keeps_kind change \<longleftrightarrow>
     (\<forall>g. pf_protocol (change g) = pf_protocol g \<and> pf_raw_link (change g) = pf_raw_link g \<and> pf_is_json (change g) = pf_is_json g)"

lemma list_all_if: "list_all P (if b then xs else []) \<longleftrightarrow> (b \<longrightarrow> list_all P xs)"
  by simp

lemma list_all_fields: "list_all (\<lambda>fld. \<forall>change \<in> field_changes fld. keeps_kind change) (form_fields f)"
proof -
  let ?P = "\<lambda>fld. \<forall>change \<in> field_changes fld. keeps_kind change"
  have "list_all ?P (server_fields f)" by (simp add: server_fields_def keeps_kind_def)
  moreover have "list_all ?P (credential_fields f)"
    unfolding credential_fields_def Let_def list_all_append list_all_if
    by (simp add: keeps_kind_def)
  moreover have "list_all ?P (transport_fields f)" by (simp add: transport_fields_def keeps_kind_def)
  moreover have "list_all ?P (security_fields f)" by (simp add: security_fields_def keeps_kind_def)
  moreover have "list_all ?P (hysteria_fields f)" by (simp add: hysteria_fields_def keeps_kind_def)
  ultimately show ?thesis by (simp add: form_fields_def)
qed

lemma field_changes_keep:
  "fld \<in> set (form_fields f) \<Longrightarrow> change \<in> field_changes fld \<Longrightarrow>
     pf_protocol (change g) = pf_protocol g \<and> pf_raw_link (change g) = pf_raw_link g \<and> pf_is_json (change g) = pf_is_json g"
  using list_all_fields [of f] by (auto simp: list_all_iff keeps_kind_def)

definition KNOWN_PROTOCOLS :: "string list" where
  "KNOWN_PROTOCOLS = [''vless'', ''vmess'', ''trojan'', ''ss'', ''hysteria2'', ''hy2'', ''tuic'', ''socks'', ''socks5'', ''http'', ''https'']"

text \<open>a server of another protocol, read from a link, shows its name, address, port, transport and
  security as if they could be edited; whatever is changed, the link stored is the one it came from.\<close>

theorem edits_of_other_protocols_lost:
  assumes "js_lower (pf_protocol (sd_form d)) \<notin> set KNOWN_PROTOCOLS" "\<not> pf_is_json (sd_form d)" "pf_raw_link (sd_form d) \<noteq> []"
    and "fld \<in> set (form_fields (sd_form d))" "change \<in> field_changes fld"
    and "sd_tab d = FormTab" "start_save env p (update_field env change d) = (d', Some (i, name, link))"
  shows "link = pf_raw_link (sd_form d)"
  using assms field_changes_keep [OF assms(4,5), of "sd_form d"]
  by (auto simp: start_save_def update_field_def serialize_proxy_config_def KNOWN_PROTOCOLS_def Let_def split: if_splits)


definition sample_server_dialog :: server_dialog where
  "sample_server_dialog =
     \<lparr>cl_shown = True, cl_closing = False, cl_calls = 0, sd_tab = FormTab,
      sd_form = (default_form ''Home'' ''198.51.100.7'' 51820)\<lparr>pf_protocol := ''wireguard'', pf_raw_link := ''wireguard://key@198.51.100.7:51820''\<rparr>,
      sd_raw = ''wireguard://key@198.51.100.7:51820'', sd_saving = False, sd_error = []\<rparr>"

definition sample_profile :: profile where
  "sample_profile =
     \<lparr>p_id = ''a1'', p_name = ''Home'', p_server = ''198.51.100.7'', p_protocol = ''wireguard'',
      p_config_link = ''wireguard://key@198.51.100.7:51820'', p_source_domain = None, p_subscription_url = None,
      p_total_up = None, p_total_down = None, p_favorite = None, p_group = None, p_subscription_info = None\<rparr>"

definition no_link_env :: link_env where
  "no_link_env = \<lparr>le_url = \<lambda>_. None, le_parse = \<lambda>_. None, le_stringify = \<lambda>_. [], le_pretty = \<lambda>_. ''{}''\<rparr>"

lemma sample_server_saved:
  "start_save no_link_env sample_profile (update_field no_link_env (pf_server_update (\<lambda>_. ''203.0.113.9'')) sample_server_dialog)
     = ((update_field no_link_env (pf_server_update (\<lambda>_. ''203.0.113.9'')) sample_server_dialog)\<lparr>sd_saving := True\<rparr>,
        Some (''a1'', ''Home'', ''wireguard://key@198.51.100.7:51820''))"
  by code_simp

theorem edits_of_other_protocols_lost_witness:
  "snd (start_save no_link_env sample_profile
     (update_field no_link_env (pf_server_update (\<lambda>_. ''203.0.113.9'')) sample_server_dialog))
   = Some (''a1'', ''Home'', pf_raw_link (sd_form sample_server_dialog))"
proof -
  have kind: "js_lower (pf_protocol (sd_form sample_server_dialog)) \<notin> set KNOWN_PROTOCOLS"
    "\<not> pf_is_json (sd_form sample_server_dialog)" "pf_raw_link (sd_form sample_server_dialog) \<noteq> []"
    "sd_tab sample_server_dialog = FormTab" by code_simp+
  have fld: "InputField ''edit-server'' pf_server (\<lambda>v. pf_server_update (\<lambda>_. v)) \<in> set (form_fields (sd_form sample_server_dialog))"
    by (simp add: form_fields_def server_fields_def)
  have change: "pf_server_update (\<lambda>_. ''203.0.113.9'') \<in> field_changes (InputField ''edit-server'' pf_server (\<lambda>v. pf_server_update (\<lambda>_. v)))"
    by simp
  show ?thesis
    using edits_of_other_protocols_lost [OF kind(1-3) fld change kind(4) sample_server_saved]
    by (simp add: sample_server_saved)
qed

theorem tabs_save_the_same_witness:
  "snd (start_save no_link_env sample_profile (change_tab no_link_env sample_profile RawTab
     (update_field no_link_env (pf_server_update (\<lambda>_. ''203.0.113.9'')) sample_server_dialog)))
   = Some (''a1'', ''Home'', ''wireguard://key@198.51.100.7:51820'')"
proof -
  have h: "js_trim (serialize_proxy_config no_link_env (pf_server_update (\<lambda>_. ''203.0.113.9'') (sd_form sample_server_dialog)))
      = serialize_proxy_config no_link_env (pf_server_update (\<lambda>_. ''203.0.113.9'') (sd_form sample_server_dialog))"
    "js_trim (pf_server (pf_server_update (\<lambda>_. ''203.0.113.9'') (sd_form sample_server_dialog))) \<noteq> []"
    "serialize_proxy_config no_link_env (pf_server_update (\<lambda>_. ''203.0.113.9'') (sd_form sample_server_dialog)) \<noteq> []"
    "sd_tab sample_server_dialog = FormTab" by code_simp+
  show ?thesis using tabs_save_the_same [where change = "pf_server_update (\<lambda>_. ''203.0.113.9'')" and d = sample_server_dialog, OF h, of sample_profile] by (simp add: sample_server_saved)
qed

text \<open>whatever was typed into the dialog of a configuration, an update of the list of servers while
  it is open puts back what is stored.\<close>

theorem list_update_discards_edits:
  shows "cd_url (open_config (SubscriptionSource key domain label detail n info) ps (d\<lparr>cd_url := typed, cd_name := name\<rparr>))
      = cd_url (open_config (SubscriptionSource key domain label detail n info) ps d)
    \<and> (find (\<lambda>p. p_id p = i) ps = Some p \<longrightarrow>
        cd_link (open_config (ProfileSource key label detail i) ps (d\<lparr>cd_link := typed, cd_name := name\<rparr>)) = p_config_link p
        \<and> cd_name (open_config (ProfileSource key label detail i) ps (d\<lparr>cd_link := typed, cd_name := name\<rparr>)) = p_name p)"
  by (simp add: open_config_def Let_def)

definition fresh_config_dialog :: config_dialog where
  "fresh_config_dialog = \<lparr>cl_shown = True, cl_closing = False, cl_calls = 0, cd_url = [], cd_name = [], cd_link = [],
     cd_saving = False, cd_error = []\<rparr>"

theorem list_update_discards_edits_witness:
  "cd_link (open_config (ProfileSource ''profile:a1'' ''Home'' ''wireguard'' ''a1'') [sample_profile]
     (fresh_config_dialog\<lparr>cd_link := ''ss://half-typed'', cd_name := ''Ho''\<rparr>)) = ''wireguard://key@198.51.100.7:51820''"
proof -
  have f: "find (\<lambda>p. p_id p = ''a1'') [sample_profile] = Some sample_profile" by (simp add: sample_profile_def)
  show ?thesis using list_update_discards_edits [where ps = "[sample_profile]" and d = fresh_config_dialog and i = "''a1''"
      and p = sample_profile and typed = "''ss://half-typed''" and name = "''Ho''"] f
    by (simp add: sample_profile_def)
qed

text \<open>a subscription's address is stored for its own domain, trimmed and never empty; a server's
  link likewise, under the name typed or the one it had; while the button can be pressed nothing else happens.\<close>

theorem config_save_asks_right_change:
  assumes "config_ready source d" "start_config_save source ps d = (d', job)"
  shows "case source of
      SubscriptionSource key domain label detail n info \<Rightarrow> job = Some (SetUrl domain (js_trim (cd_url d))) \<and> js_trim (cd_url d) \<noteq> []
    | ProfileSource key label detail i \<Rightarrow>
        (case find (\<lambda>p. p_id p = i) ps of
           None \<Rightarrow> job = None
         | Some p \<Rightarrow> job = Some (SetProfile i (if js_trim (cd_name d) = [] then p_name p else js_trim (cd_name d)) (js_trim (cd_link d)))
             \<and> p \<in> set ps \<and> js_trim (cd_link d) \<noteq> [])"
  using assms
  by (auto simp: start_config_save_def config_ready_def dest!: find_Some_in split: config_source.splits option.splits prod.splits)

theorem config_save_asks_right_change_witness:
  "snd (start_config_save (SubscriptionSource ''subscription:a.example'' ''a.example'' ''A'' ''1 proxy'' 1 None) []
     (fresh_config_dialog\<lparr>cd_url := '' https://a.example/new''\<rparr>)) = Some (SetUrl ''a.example'' ''https://a.example/new'')"
proof -
  let ?s = "SubscriptionSource ''subscription:a.example'' ''a.example'' ''A'' ''1 proxy'' 1 None"
  let ?d = "fresh_config_dialog\<lparr>cd_url := '' https://a.example/new''\<rparr>"
  have r: "config_ready ?s ?d" "js_trim (cd_url ?d) = ''https://a.example/new''" by code_simp+
  show ?thesis using config_save_asks_right_change [OF r(1) surjective_pairing, of "[]"] r(2) by simp
qed

section \<open>Exporting: properties\<close>

definition export_run :: "export_service \<Rightarrow> export_event list \<Rightarrow> export_dialog \<Rightarrow> export_dialog" where
  "export_run svc es d = fold (export_step svc) es d"

definition export_ok :: "export_service \<Rightarrow> export_dialog \<Rightarrow> bool" where
  "export_ok svc d \<longleftrightarrow> ex_ids d \<noteq> [] \<and> ex_asked d \<noteq> [] \<and> last (ex_asked d) = (ex_ids d, ex_format d, ex_full d)
     \<and> (if ex_loading d then ex_error d = []
        else case svc (ex_ids d, ex_format d, ex_full d) of
          Inr text \<Rightarrow> ex_content d = text \<and> ex_error d = []
        | Inl message \<Rightarrow> ex_error d = message)"

lemma ask_export_ok: "ex_ids d \<noteq> [] \<Longrightarrow> export_ok svc (ask_export d)"
  by (simp add: ask_export_def export_ok_def)

lemma export_step_ok: "export_ok svc d \<Longrightarrow> export_ok svc (export_step svc e d)"
proof (cases e)
  case (ExportAnswer n)
  assume ok: "export_ok svc d"
  have "Suc n = length (ex_asked d) \<Longrightarrow> length (ex_asked d) - 1 = n" by linarith
  with ok have "Suc n = length (ex_asked d) \<Longrightarrow> ex_asked d ! n = (ex_ids d, ex_format d, ex_full d)"
    by (auto simp: export_ok_def last_conv_nth)
  with ok show ?thesis by (auto simp: ExportAnswer export_step_def export_ok_def split: sum.splits)
next
  case (ChooseFormat f)
  assume ok: "export_ok svc d"
  then have "export_ok svc (ask_export (d\<lparr>ex_format := f\<rparr>))" by (intro ask_export_ok) (simp add: export_ok_def)
  with ok show ?thesis by (simp add: ChooseFormat export_step_def)
next
  case (ChooseFull b)
  assume ok: "export_ok svc d"
  then have "export_ok svc (ask_export (d\<lparr>ex_full := b\<rparr>))" by (intro ask_export_ok) (simp add: export_ok_def)
  with ok show ?thesis by (simp add: ChooseFull export_step_def)
qed

lemma export_run_ok: "export_ok svc d \<Longrightarrow> export_ok svc (export_run svc es d)"
  unfolding export_run_def by (induction es arbitrary: d) (simp_all add: export_step_ok)

lemma export_step_ids [simp]: "ex_ids (export_step svc e d) = ex_ids d"
  by (simp add: export_step_def ask_export_def split: export_event.split sum.split)

lemma export_run_ids [simp]: "ex_ids (export_run svc es d) = ex_ids d"
  unfolding export_run_def by (induction es arbitrary: d) simp_all

text \<open>C29: in whatever order formats are chosen and answers arrive, late ones included, what is shown
  once nothing is awaited is the answer for the format and scope chosen.\<close>

theorem export_shows_chosen:
  assumes "ids \<noteq> []" "d = export_run svc es (opened_export ids)" "\<not> ex_loading d"
  shows "case svc (ids, ex_format d, ex_full d) of
      Inr text \<Rightarrow> ex_content d = text \<and> ex_error d = [] | Inl message \<Rightarrow> ex_error d = message"
proof -
  have "export_ok svc (opened_export ids)" unfolding opened_export_def using assms(1) by (intro ask_export_ok) simp
  then have "export_ok svc d" unfolding assms(2) by (rule export_run_ok)
  moreover have "ex_ids d = ids" by (simp add: assms(2) opened_export_def ask_export_def)
  ultimately show ?thesis using assms(3) by (simp add: export_ok_def)
qed

definition clash_fails :: export_service where
  "clash_fails call = (if fst (snd call) = Clash then Inl ''no clash'' else Inr ''{}'')"

theorem export_shows_chosen_witness:
  "ex_content (export_run clash_fails [ChooseFormat Clash, ExportAnswer 0, ChooseFormat Xray, ExportAnswer 1, ExportAnswer 2] (opened_export [''a1''])) = ''{}''"
  (is "ex_content ?d = _")
proof -
  have h: "\<not> ex_loading ?d" "ex_format ?d = Xray" "ex_full ?d" by code_simp+
  show ?thesis using export_shows_chosen [OF _ refl h(1)] h(2,3) by (simp add: clash_fails_def)
qed

text \<open>C30: after an export that fails, the text of the format chosen before is still there to be copied
  and saved, and is saved under the file name of the new format.\<close>

theorem failed_export_saves_other_format:
  assumes "svc (ids, f, full) = Inr old" "old \<noteq> []" "svc (ids, g, full) = Inl message" "ids \<noteq> []"
    and "export_ok svc d" "\<not> ex_loading d" "\<not> ex_saving d" "ex_ids d = ids" "ex_format d = f" "ex_full d = full"
    and "d' = export_run svc [ChooseFormat g, ExportAnswer (length (ex_asked d))] d"
  shows "export_ready d' \<and> ex_error d' = message \<and> copy_export d' = Some old
    \<and> save_export d' = Some (''nuggetvpn-'' @ format_name g @ ''-'' @ nat_str (length ids) @ ''servers.'' @ fst (snd (FORMAT_CONFIG g)), old)"
proof -
  have "f \<noteq> g" using assms(1,3) by auto
  then show ?thesis
    using assms by (auto simp: export_run_def export_step_def ask_export_def export_ok_def export_ready_def copy_export_def
        save_export_def export_file_name_def nth_append)
qed

theorem failed_export_saves_other_format_witness:
  "save_export (export_run clash_fails [ChooseFormat Clash, ExportAnswer 1]
      (export_run clash_fails [ExportAnswer 0] (opened_export [''a1''])))
    = Some (''nuggetvpn-clash-1servers.yaml'', ''{}'')"
proof -
  let ?d = "export_run clash_fails [ExportAnswer 0] (opened_export [''a1''])"
  have ok: "export_ok clash_fails ?d" unfolding opened_export_def by (intro export_run_ok ask_export_ok) simp
  have h: "\<not> ex_loading ?d" "\<not> ex_saving ?d" "ex_ids ?d = [''a1'']" "ex_format ?d = Singbox" "ex_full ?d" "length (ex_asked ?d) = 1"
    by code_simp+
  have n: "nat_str (length [''a1'']) = ''1''" by code_simp
  show ?thesis
    using failed_export_saves_other_format [where svc = clash_fails and ids = "[''a1'']" and f = Singbox and g = Clash
        and full = True and old = "''{}''" and message = "''no clash''" and d = "?d", OF _ _ _ _ ok] h n
    by (simp add: clash_fails_def)
qed

section \<open>Codes: properties\<close>

lemma floor_half_le: "x \<le> of_int n \<Longrightarrow> js_round x \<le> n"
  by (simp add: js_round_def floor_le_iff)

text \<open>a picture is read at no more than 1600 (a camera frame 800) a side, never larger than it is,
  and a picture never at less than one pixel a side.\<close>

theorem pictures_read_within_size:
  assumes "0 < w" "0 < h"
  shows "fst (image_size w h) \<in> {1..min 1600 (int w)} \<and> snd (image_size w h) \<in> {1..min 1600 (int h)}
    \<and> fst (frame_size w h) \<in> {0..min 800 (int w)} \<and> snd (frame_size w h) \<in> {0..min 800 (int h)}"
proof -
  have r: "js_round (of_nat k * read_scale most w h) \<le> min \<lfloor>most\<rfloor> (int k) \<and> 0 \<le> js_round (of_nat k * read_scale most w h)"
    if "0 < k" "k \<le> max w h" "most \<in> {800, 1600}" for k and most :: rat
  proof -
    have m: "(0::rat) < of_nat (max w h)" "of_nat k \<le> (of_nat (max w h) :: rat)" using that assms by auto
    have s: "read_scale most w h \<le> 1" "0 \<le> read_scale most w h" using that m by (auto simp: read_scale_def)
    have "of_nat k * read_scale most w h \<le> of_nat k * (most / of_nat (max w h))"
      by (rule mult_left_mono) (simp_all add: read_scale_def)
    also have "\<dots> = most * (of_nat k / of_nat (max w h))" by simp
    also have "\<dots> \<le> most * 1" by (rule mult_left_mono) (use m that in \<open>auto simp: divide_le_eq_1_pos\<close>)
    finally have "of_nat k * read_scale most w h \<le> of_int \<lfloor>most\<rfloor>" using that(3) by auto
    moreover have "of_nat k * read_scale most w h \<le> of_int (int k)" using s that(1) by (simp add: mult_left_le)
    moreover have "0 \<le> of_nat k * read_scale most w h" using s by simp
    ultimately show ?thesis by (simp add: floor_half_le) (simp add: js_round_def)
  qed
  show ?thesis
    using r [of w 1600] r [of h 1600] r [of w 800] r [of h 800] assms
    by (simp add: image_size_def frame_size_def Let_def)
qed

theorem pictures_read_within_size_witness: "fst (image_size 4000 3) \<in> {1..1600} \<and> snd (image_size 4000 3) \<in> {1..3}"
  using pictures_read_within_size [of 4000 3] by simp

interpretation camera_order: comparator camera_le
  by unfold_locales (auto simp: camera_le_def split: if_splits)

lemma try_cameras_first:
  assumes "try_cameras attempt failure ds = (tried, r)"
  shows "(\<forall>stream. r = Inr stream \<longrightarrow> (\<exists>d as bs. ds = as @ d # bs \<and> attempt (Some (dv_id d)) = Inr stream
            \<and> (\<forall>a \<in> set as. \<exists>e. attempt (Some (dv_id a)) = Inl e) \<and> tried = map (Some \<circ> dv_id) (as @ [d])))
    \<and> (\<forall>e. r = Inl e \<longrightarrow> (\<forall>d \<in> set ds. \<exists>e. attempt (Some (dv_id d)) = Inl e) \<and> tried = map (Some \<circ> dv_id) ds)"
  using assms
proof (induction ds arbitrary: failure tried r)
  case (Cons d ds)
  show ?case
  proof (cases "attempt (Some (dv_id d))")
    case (Inl e)
    obtain tried' r' where t: "try_cameras attempt e ds = (tried', r')" by fastforce
    have c: "tried = Some (dv_id d) # tried'" "r = r'" using Cons.prems by (simp_all add: Inl t)
    note ih = Cons.IH [OF t]
    show ?thesis
    proof (cases r')
      case (Inr stream)
      then obtain x as bs where x: "ds = as @ x # bs" "attempt (Some (dv_id x)) = Inr stream"
        "\<forall>a \<in> set as. \<exists>e. attempt (Some (dv_id a)) = Inl e" "tried' = map (Some \<circ> dv_id) (as @ [x])" using ih by blast
      then have "d # ds = (d # as) @ x # bs" "\<forall>a \<in> set (d # as). \<exists>e. attempt (Some (dv_id a)) = Inl e"
        "tried = map (Some \<circ> dv_id) ((d # as) @ [x])" using Inl c by simp_all
      then show ?thesis using Inr x(2) c(2) by blast
    qed (use ih Inl c in simp)
  next
    case (Inr stream)
    then have "tried = map (Some \<circ> dv_id) ([] @ [d])" "r = Inr stream" using Cons.prems by simp_all
    then show ?thesis using Inr by (intro conjI allI impI exI [of _ d] exI [of _ "[]"] exI [of _ ds]) simp_all
  qed
qed simp



definition phone_cameras :: "camera_device list" where
  "phone_cameras =
     [\<lparr>dv_kind = ''videoinput'', dv_id = ''front'', dv_label = ''camera 1, facing front''\<rparr>,
      \<lparr>dv_kind = ''videoinput'', dv_id = ''macro'', dv_label = ''camera 2, facing back''\<rparr>,
      \<lparr>dv_kind = ''videoinput'', dv_id = ''main'', dv_label = ''camera 0, facing back''\<rparr>,
      \<lparr>dv_kind = ''audioinput'', dv_id = ''mic'', dv_label = ''Microphone''\<rparr>]"

definition main_fails :: "string option \<Rightarrow> string + string" where
  "main_fails i = (if i = Some ''main'' then Inl ''NotReadableError'' else Inr (or_else i []))"


text \<open>Labels as Android's WebView writes them: the number of the API comes first, so all read as 2.\<close>

lemma camera2_labels_alike: "label_number (''camera2 '' @ s) = 2"
  by (simp add: label_number_def is_digit_def digits_val_def digit_val_def)

definition scan_run :: "scan_event list \<Rightarrow> scanner \<Rightarrow> scanner" where
  "scan_run es s = fold scan_step es s"

definition scanner_ok :: "scanner \<Rightarrow> bool" where
  "scanner_ok s \<longleftrightarrow> length (sc_results s) \<le> 1 \<and> (sc_results s \<noteq> [] \<longrightarrow> sc_stopped s)
     \<and> (sc_stopped s \<longrightarrow> \<not> sc_waiting s) \<and> (\<forall>text \<in> set (sc_results s). text \<noteq> [] \<and> js_trim text = text)"

lemma code_text_trimmed: "code_text found = Some text \<Longrightarrow> text \<noteq> [] \<and> js_trim text = text"
  unfolding code_text_def by (cases "js_trim (or_else found [])") (auto, metis js_trim_idem)

lemma read_frame_ok: "scanner_ok s \<Longrightarrow> scanner_ok (read_frame frame s)"
  by (auto simp: scanner_ok_def read_frame_def bind_eq_Some_conv dest: code_text_trimmed split: option.splits)

lemma scan_step_ok: "scanner_ok s \<Longrightarrow> scanner_ok (scan_step e s)"
  by (cases e) (auto simp: scan_step_def intro!: read_frame_ok, auto simp: scanner_ok_def)

lemma stopped_step: "sc_stopped s \<Longrightarrow> \<not> sc_waiting s \<Longrightarrow>
    sc_stopped (scan_step e s) \<and> \<not> sc_waiting (scan_step e s) \<and> sc_results (scan_step e s) = sc_results s"
  by (cases e) (simp_all add: scan_step_def)

lemma stopped_run: "sc_stopped s \<Longrightarrow> \<not> sc_waiting s \<Longrightarrow> sc_results (scan_run es s) = sc_results s"
  unfolding scan_run_def
proof (induction es arbitrary: s)
  case (Cons e es)
  with stopped_step [OF Cons.prems, of e] show ?case by simp
qed simp

lemma scan_run_append: "scan_run (es @ fs) s = scan_run fs (scan_run es s)"
  by (simp add: scan_run_def)

text \<open>a scanner reports at most one text, trimmed and not empty, whatever frames it reads, and none
  once it has been closed.\<close>

theorem scan_reports_once:
  shows "length (sc_results (scan_run es (opened_scanner supported))) \<le> 1
    \<and> list_all (\<lambda>text. text \<noteq> [] \<and> js_trim text = text) (sc_results (scan_run es (opened_scanner supported)))
    \<and> sc_results (scan_run (es @ ScannerClosed # fs) (opened_scanner supported)) = sc_results (scan_run es (opened_scanner supported))"
proof -
  have ok: "scanner_ok s \<Longrightarrow> scanner_ok (scan_run es s)" for s
    unfolding scan_run_def by (induction es arbitrary: s) (simp_all add: scan_step_ok)
  have "scanner_ok (opened_scanner supported)" by (simp add: scanner_ok_def opened_scanner_def)
  then have r: "scanner_ok (scan_run es (opened_scanner supported))" by (rule ok)
  have "scan_run (ScannerClosed # fs) s = scan_run fs (scan_step ScannerClosed s)" for s by (simp add: scan_run_def)
  then have "sc_results (scan_run (ScannerClosed # fs) s) = sc_results s" for s
    by (simp add: stopped_run scan_step_def)
  with r show ?thesis by (simp add: scan_run_append scanner_ok_def list_all_iff)
qed

section \<open>Sharing: properties\<close>

lemma shared_ids_id: "list_all (\<lambda>i. i \<noteq> [] \<and> CHR '','' \<notin> set i) ids \<Longrightarrow> shared_ids ids = ids"
proof (cases ids)
  case (Cons i rest)
  assume "list_all (\<lambda>i. i \<noteq> [] \<and> CHR '','' \<notin> set i) ids"
  then have "js_split CHR '','' (js_join '','' ids) = ids" "js_join '','' ids \<noteq> []"
    using js_split_join [of ids "CHR '',''"] Cons
    by (auto simp: list_all_iff neq_Nil_conv js_join_cons_char)
  then show ?thesis by (simp add: shared_ids_def Let_def)
qed (simp add: shared_ids_def)

lemma press_code_twice: "lk_shown (press_code i (press_code i v)) = (if lk_shown v = Some i then Some i else None)"
  by (simp add: press_code_def)

end
