(* ===== verification/Country_Flags.thy ===== *)
theory Country_Flags
  imports Js_Base Js_Order
begin

text \<open>
  The country a server is in, read from its name (lib/flags.ts), and the flag drawn for it
  (components/ui/flag.tsx).  The expressions of lib/flags.ts have the flag u, so a name is the list of its code
  points here; \<open>code_points\<close> and \<open>utf8_of\<close> go to and from the texts of the other theories.
  Unicode's own data, the letters (\<open>\p{L}\<close>) and the case folding of the flag i, is the parameter
  \<open>unicode\<close>; the codes of the pictures in the package flag-icons are the parameter \<open>has_flag\<close>.
\<close>

section \<open>Code points\<close>

definition tail_bits :: "char \<Rightarrow> nat" where
  "tail_bits c = (of_char c :: nat) mod 64"

fun code_points :: "string \<Rightarrow> nat list" where
  "code_points [] = []"
| "code_points (a # s) =
     (let n = (of_char a :: nat) in
      if n < 0xC0 then n # code_points s
      else if n < 0xE0 then (case s of b # r \<Rightarrow> (n mod 32 * 64 + tail_bits b) # code_points r | [] \<Rightarrow> [n])
      else if n < 0xF0 then
        (case s of b # c # r \<Rightarrow> (n mod 16 * 4096 + tail_bits b * 64 + tail_bits c) # code_points r | _ \<Rightarrow> [n])
      else
        (case s of b # c # d # r \<Rightarrow>
           (n mod 8 * 262144 + tail_bits b * 4096 + tail_bits c * 64 + tail_bits d) # code_points r
         | _ \<Rightarrow> [n]))"

definition utf8_of :: "nat \<Rightarrow> string" where
  "utf8_of n =
     (let low = (\<lambda>k. char_of (0x80 + k mod 64)) in
      if n < 0x80 then [char_of n]
      else if n < 0x800 then [char_of (0xC0 + n div 64), low n]
      else if n < 0x10000 then [char_of (0xE0 + n div 4096), low (n div 64), low n]
      else [char_of (0xF0 + n div 262144), low (n div 4096), low (n div 64), low n])"

definition text_of :: "nat list \<Rightarrow> string" where
  "text_of cs = concat (map utf8_of cs)"

record unicode =
  un_letter :: "nat \<Rightarrow> bool"
  un_fold :: "nat \<Rightarrow> nat"

section \<open>The names of countries\<close>

text \<open>A name in Latin letters is written as a text, one in Cyrillic as its code points.\<close>

definition cp :: "string \<Rightarrow> nat list" where
  "cp s = map of_char s"

definition NAMES :: "(string \<times> nat list list) list" where
  "NAMES =
    [
    (''al'', [cp ''Albania'', [1040, 1083, 1073, 1072, 1085, 1080, 1103],
       [1040, 1083, 1073, 1072, 1085, 1110, 1103], cp ''Tirana'']),
    (''am'', [cp ''Armenia'', [1040, 1088, 1084, 1077, 1085, 1080, 1103],
       [1042, 1110, 1088, 1084, 1077, 1085, 1110, 1103], cp ''Yerevan'', [1045, 1088, 1077, 1074, 1072, 1085]]),
    (''ar'', [cp ''Argentina'', [1040, 1088, 1075, 1077, 1085, 1090, 1080, 1085, 1072], cp ''Buenos Aires'']),
    (''at'', [cp ''Austria'', [1040, 1074, 1089, 1090, 1088, 1080, 1103],
       [1040, 1074, 1089, 1090, 1088, 1110, 1103], cp ''Vienna'', [1042, 1077, 1085, 1072],
       [1042, 1110, 1076, 1077, 1085, 1100]]),
    (''au'', [cp ''Australia'', [1040, 1074, 1089, 1090, 1088, 1072, 1083, 1080, 1103],
       [1040, 1074, 1089, 1090, 1088, 1072, 1083, 1110, 1103], cp ''Sydney'', cp ''Melbourne'',
       [1057, 1080, 1076, 1085, 1077, 1081]]),
    (''az'', [cp ''Azerbaijan'', [1040, 1079, 1077, 1088, 1073, 1072, 1081, 1076, 1078, 1072, 1085], cp ''Baku'',
       [1041, 1072, 1082, 1091]]),
    (''be'', [cp ''Belgium'', [1041, 1077, 1083, 1100, 1075, 1080, 1103],
       [1041, 1077, 1083, 1100, 1075, 1110, 1103], cp ''Brussels'',
       [1041, 1088, 1102, 1089, 1089, 1077, 1083, 1100]]),
    (''bg'', [cp ''Bulgaria'', [1041, 1086, 1083, 1075, 1072, 1088, 1080, 1103],
       [1041, 1086, 1083, 1075, 1072, 1088, 1110, 1103], cp ''Sofia'', [1057, 1086, 1092, 1080, 1103]]),
    (''br'', [cp ''Brazil'', [1041, 1088, 1072, 1079, 1080, 1083, 1080, 1103],
       [1041, 1088, 1072, 1079, 1080, 1083, 1110, 1103], [83, 227, 111, 32, 80, 97, 117, 108, 111],
       cp ''Sao Paulo'']),
    (''by'', [cp ''Belarus'', [1041, 1077, 1083, 1072, 1088, 1091, 1089, 1100],
       [1041, 1110, 1083, 1086, 1088, 1091, 1089, 1100], cp ''Minsk'', [1052, 1080, 1085, 1089, 1082]]),
    (''ca'', [cp ''Canada'', [1050, 1072, 1085, 1072, 1076, 1072], cp ''Toronto'', cp ''Montreal'',
       cp ''Vancouver'', [1058, 1086, 1088, 1086, 1085, 1090, 1086]]),
    (''ch'', [cp ''Switzerland'', [1064, 1074, 1077, 1081, 1094, 1072, 1088, 1080, 1103],
       [1064, 1074, 1077, 1081, 1094, 1072, 1088, 1110, 1103], cp ''Zurich'', [90, 252, 114, 105, 99, 104],
       cp ''Geneva'', [1062, 1102, 1088, 1080, 1093]]),
    (''cl'', [cp ''Chile'', [1063, 1080, 1083, 1080], cp ''Santiago'']),
    (''cn'', [cp ''China'', [1050, 1080, 1090, 1072, 1081], cp ''Shanghai'', cp ''Beijing'']),
    (''co'', [cp ''Colombia'', [1050, 1086, 1083, 1091, 1084, 1073, 1080, 1103], cp ''Bogota'']),
    (''cy'', [cp ''Cyprus'', [1050, 1080, 1087, 1088], [1050, 1110, 1087, 1088], cp ''Limassol'', cp ''Nicosia'']),
    (''cz'', [cp ''Czechia'', cp ''Czech Republic'', [1063, 1077, 1093, 1080, 1103],
       [1063, 1077, 1093, 1110, 1103], cp ''Prague'', [1055, 1088, 1072, 1075, 1072]]),
    (''de'', [cp ''Germany'', [1043, 1077, 1088, 1084, 1072, 1085, 1080, 1103],
       [1053, 1110, 1084, 1077, 1095, 1095, 1080, 1085, 1072], cp ''Deutschland'', cp ''Frankfurt'', cp ''Berlin'',
       cp ''Munich'', cp ''Nuremberg'', cp ''Falkenstein'', [1060, 1088, 1072, 1085, 1082, 1092, 1091, 1088, 1090],
       [1041, 1077, 1088, 1083, 1080, 1085], [1052, 1102, 1085, 1093, 1077, 1085]]),
    (''dk'', [cp ''Denmark'', [1044, 1072, 1085, 1080, 1103], [1044, 1072, 1085, 1110, 1103], cp ''Copenhagen'',
       [1050, 1086, 1087, 1077, 1085, 1075, 1072, 1075, 1077, 1085]]),
    (''ee'', [cp ''Estonia'', [1069, 1089, 1090, 1086, 1085, 1080, 1103],
       [1045, 1089, 1090, 1086, 1085, 1110, 1103], cp ''Tallinn'', [1058, 1072, 1083, 1083, 1080, 1085]]),
    (''eg'', [cp ''Egypt'', [1045, 1075, 1080, 1087, 1077, 1090], [1028, 1075, 1080, 1087, 1077, 1090],
       cp ''Cairo'']),
    (''es'', [cp ''Spain'', [1048, 1089, 1087, 1072, 1085, 1080, 1103], [1030, 1089, 1087, 1072, 1085, 1110, 1103],
       cp ''Madrid'', cp ''Barcelona'', [1052, 1072, 1076, 1088, 1080, 1076]]),
    (''fi'', [cp ''Finland'', [1060, 1080, 1085, 1083, 1103, 1085, 1076, 1080, 1103],
       [1060, 1110, 1085, 1083, 1103, 1085, 1076, 1110, 1103], cp ''Helsinki'',
       [1061, 1077, 1083, 1100, 1089, 1080, 1085, 1082, 1080],
       [1043, 1077, 1083, 1100, 1089, 1110, 1085, 1082, 1110]]),
    (''fr'', [cp ''France'', [1060, 1088, 1072, 1085, 1094, 1080, 1103],
       [1060, 1088, 1072, 1085, 1094, 1110, 1103], cp ''Paris'', [1055, 1072, 1088, 1080, 1078], cp ''Marseille'',
       cp ''Gravelines'', cp ''Roubaix'']),
    (''gb'', [cp ''United Kingdom'', cp ''UK'', cp ''Great Britain'', cp ''England'',
       [1042, 1077, 1083, 1080, 1082, 1086, 1073, 1088, 1080, 1090, 1072, 1085, 1080, 1103],
       [1042, 1077, 1083, 1080, 1082, 1072, 32, 1041, 1088, 1080, 1090, 1072, 1085, 1110, 1103],
       [1041, 1088, 1080, 1090, 1072, 1085, 1080, 1103], [1040, 1085, 1075, 1083, 1080, 1103],
       [1040, 1085, 1075, 1083, 1110, 1103], cp ''London'', [1051, 1086, 1085, 1076, 1086, 1085],
       cp ''Manchester'']),
    (''ge'', [cp ''Georgia'', [1043, 1088, 1091, 1079, 1080, 1103], [1043, 1088, 1091, 1079, 1110, 1103],
       cp ''Tbilisi'', [1058, 1073, 1080, 1083, 1080, 1089, 1080]]),
    (''gr'', [cp ''Greece'', [1043, 1088, 1077, 1094, 1080, 1103], [1043, 1088, 1077, 1094, 1110, 1103],
       cp ''Athens'', [1040, 1092, 1080, 1085, 1099]]),
    (''hk'', [cp ''Hong Kong'', [1043, 1086, 1085, 1082, 1086, 1085, 1075]]),
    (''hr'', [cp ''Croatia'', [1061, 1086, 1088, 1074, 1072, 1090, 1080, 1103],
       [1061, 1086, 1088, 1074, 1072, 1090, 1110, 1103], cp ''Zagreb'']),
    (''hu'', [cp ''Hungary'', [1042, 1077, 1085, 1075, 1088, 1080, 1103],
       [1059, 1075, 1086, 1088, 1097, 1080, 1085, 1072], cp ''Budapest'',
       [1041, 1091, 1076, 1072, 1087, 1077, 1096, 1090]]),
    (''id'', [cp ''Indonesia'', [1048, 1085, 1076, 1086, 1085, 1077, 1079, 1080, 1103],
       [1030, 1085, 1076, 1086, 1085, 1077, 1079, 1110, 1103], cp ''Jakarta'']),
    (''ie'', [cp ''Ireland'', [1048, 1088, 1083, 1072, 1085, 1076, 1080, 1103],
       [1030, 1088, 1083, 1072, 1085, 1076, 1110, 1103], cp ''Dublin'', [1044, 1091, 1073, 1083, 1080, 1085]]),
    (''il'', [cp ''Israel'', [1048, 1079, 1088, 1072, 1080, 1083, 1100],
       [1030, 1079, 1088, 1072, 1111, 1083, 1100], cp ''Tel Aviv'']),
    (''in'', [cp ''India'', [1048, 1085, 1076, 1080, 1103], [1030, 1085, 1076, 1110, 1103], cp ''Mumbai'',
       cp ''Bangalore'', cp ''Delhi'']),
    (''ir'', [cp ''Iran'', [1048, 1088, 1072, 1085], [1030, 1088, 1072, 1085], cp ''Tehran'']),
    (''is'', [cp ''Iceland'', [1048, 1089, 1083, 1072, 1085, 1076, 1080, 1103],
       [1030, 1089, 1083, 1072, 1085, 1076, 1110, 1103], cp ''Reykjavik'']),
    (''it'', [cp ''Italy'', [1048, 1090, 1072, 1083, 1080, 1103], [1030, 1090, 1072, 1083, 1110, 1103],
       cp ''Milan'', cp ''Rome'', [1052, 1080, 1083, 1072, 1085], [1056, 1080, 1084]]),
    (''jp'', [cp ''Japan'', [1071, 1087, 1086, 1085, 1080, 1103], [1071, 1087, 1086, 1085, 1110, 1103],
       cp ''Tokyo'', cp ''Osaka'', [1058, 1086, 1082, 1080, 1086]]),
    (''kg'', [cp ''Kyrgyzstan'', [1050, 1080, 1088, 1075, 1080, 1079, 1080, 1103],
       [1050, 1099, 1088, 1075, 1099, 1079, 1089, 1090, 1072, 1085],
       [1050, 1080, 1088, 1075, 1080, 1079, 1089, 1090, 1072, 1085], cp ''Bishkek'']),
    (''kr'', [cp ''South Korea'', cp ''Korea'', [1070, 1078, 1085, 1072, 1103, 32, 1050, 1086, 1088, 1077, 1103],
       [1050, 1086, 1088, 1077, 1103],
       [1055, 1110, 1074, 1076, 1077, 1085, 1085, 1072, 32, 1050, 1086, 1088, 1077, 1103], cp ''Seoul'',
       [1057, 1077, 1091, 1083]]),
    (''kz'', [cp ''Kazakhstan'', [1050, 1072, 1079, 1072, 1093, 1089, 1090, 1072, 1085], cp ''Almaty'',
       cp ''Astana'', [1040, 1083, 1084, 1072, 1090, 1099], [1040, 1089, 1090, 1072, 1085, 1072]]),
    (''lt'', [cp ''Lithuania'', [1051, 1080, 1090, 1074, 1072], cp ''Vilnius'',
       [1042, 1080, 1083, 1100, 1085, 1102, 1089]]),
    (''lu'', [cp ''Luxembourg'', [1051, 1102, 1082, 1089, 1077, 1084, 1073, 1091, 1088, 1075]]),
    (''lv'', [cp ''Latvia'', [1051, 1072, 1090, 1074, 1080, 1103], [1051, 1072, 1090, 1074, 1110, 1103],
       cp ''Riga'', [1056, 1080, 1075, 1072]]),
    (''md'', [cp ''Moldova'', [1052, 1086, 1083, 1076, 1086, 1074, 1072],
       [1052, 1086, 1083, 1076, 1072, 1074, 1080, 1103], cp ''Chisinau'',
       [1050, 1080, 1096, 1080, 1085, 1105, 1074]]),
    (''mn'', [cp ''Mongolia'', [1052, 1086, 1085, 1075, 1086, 1083, 1080, 1103],
       [1052, 1086, 1085, 1075, 1086, 1083, 1110, 1103]]),
    (''mx'', [cp ''Mexico'', [1052, 1077, 1082, 1089, 1080, 1082, 1072],
       [1052, 1077, 1082, 1089, 1080, 1082, 1072]]),
    (''my'', [cp ''Malaysia'', [1052, 1072, 1083, 1072, 1081, 1079, 1080, 1103],
       [1052, 1072, 1083, 1072, 1081, 1079, 1110, 1103], cp ''Kuala Lumpur'']),
    (''ng'', [cp ''Nigeria'', [1053, 1080, 1075, 1077, 1088, 1080, 1103], cp ''Lagos'']),
    (''nl'', [cp ''Netherlands'', cp ''The Netherlands'', cp ''Holland'',
       [1053, 1080, 1076, 1077, 1088, 1083, 1072, 1085, 1076, 1099],
       [1053, 1110, 1076, 1077, 1088, 1083, 1072, 1085, 1076, 1080],
       [1043, 1086, 1083, 1083, 1072, 1085, 1076, 1080, 1103], cp ''Amsterdam'',
       [1040, 1084, 1089, 1090, 1077, 1088, 1076, 1072, 1084], cp ''Rotterdam'']),
    (''no'', [cp ''Norway'', [1053, 1086, 1088, 1074, 1077, 1075, 1080, 1103],
       [1053, 1086, 1088, 1074, 1077, 1075, 1110, 1103], cp ''Oslo'', [1054, 1089, 1083, 1086]]),
    (''nz'', [cp ''New Zealand'',
       [1053, 1086, 1074, 1072, 1103, 32, 1047, 1077, 1083, 1072, 1085, 1076, 1080, 1103],
       [1053, 1086, 1074, 1072, 32, 1047, 1077, 1083, 1072, 1085, 1076, 1110, 1103], cp ''Auckland'']),
    (''ph'', [cp ''Philippines'', [1060, 1080, 1083, 1080, 1087, 1087, 1080, 1085, 1099],
       [1060, 1110, 1083, 1110, 1087, 1087, 1110, 1085, 1080], cp ''Manila'']),
    (''pk'', [cp ''Pakistan'', [1055, 1072, 1082, 1080, 1089, 1090, 1072, 1085], cp ''Karachi'']),
    (''pl'', [cp ''Poland'', [1055, 1086, 1083, 1100, 1096, 1072], [1055, 1086, 1083, 1100, 1097, 1072],
       cp ''Warsaw'', [1042, 1072, 1088, 1096, 1072, 1074, 1072]]),
    (''pt'', [cp ''Portugal'', [1055, 1086, 1088, 1090, 1091, 1075, 1072, 1083, 1080, 1103],
       [1055, 1086, 1088, 1090, 1091, 1075, 1072, 1083, 1110, 1103], cp ''Lisbon'',
       [1051, 1080, 1089, 1089, 1072, 1073, 1086, 1085]]),
    (''qa'', [cp ''Qatar'', [1050, 1072, 1090, 1072, 1088], cp ''Doha'']),
    (''ro'', [cp ''Romania'', [1056, 1091, 1084, 1099, 1085, 1080, 1103],
       [1056, 1091, 1084, 1091, 1085, 1110, 1103], cp ''Bucharest'',
       [1041, 1091, 1093, 1072, 1088, 1077, 1089, 1090]]),
    (''rs'', [cp ''Serbia'', [1057, 1077, 1088, 1073, 1080, 1103], [1057, 1077, 1088, 1073, 1110, 1103],
       cp ''Belgrade'', [1041, 1077, 1083, 1075, 1088, 1072, 1076]]),
    (''ru'', [cp ''Russia'', [1056, 1086, 1089, 1089, 1080, 1103], [1056, 1086, 1089, 1110, 1103], cp ''Moscow'',
       [1052, 1086, 1089, 1082, 1074, 1072], cp ''Saint Petersburg'', cp ''St. Petersburg'',
       [1057, 1072, 1085, 1082, 1090, 45, 1055, 1077, 1090, 1077, 1088, 1073, 1091, 1088, 1075],
       [1055, 1077, 1090, 1077, 1088, 1073, 1091, 1088, 1075]]),
    (''sa'', [cp ''Saudi Arabia'',
       [1057, 1072, 1091, 1076, 1086, 1074, 1089, 1082, 1072, 1103, 32, 1040, 1088, 1072, 1074, 1080, 1103],
       cp ''Riyadh'']),
    (''se'', [cp ''Sweden'', [1064, 1074, 1077, 1094, 1080, 1103], [1064, 1074, 1077, 1094, 1110, 1103],
       cp ''Stockholm'', [1057, 1090, 1086, 1082, 1075, 1086, 1083, 1100, 1084]]),
    (''sg'', [cp ''Singapore'', [1057, 1080, 1085, 1075, 1072, 1087, 1091, 1088],
       [1057, 1110, 1085, 1075, 1072, 1087, 1091, 1088]]),
    (''si'', [cp ''Slovenia'', [1057, 1083, 1086, 1074, 1077, 1085, 1080, 1103],
       [1057, 1083, 1086, 1074, 1077, 1085, 1110, 1103], cp ''Ljubljana'']),
    (''sk'', [cp ''Slovakia'', [1057, 1083, 1086, 1074, 1072, 1082, 1080, 1103],
       [1057, 1083, 1086, 1074, 1072, 1095, 1095, 1080, 1085, 1072], cp ''Bratislava'']),
    (''th'', [cp ''Thailand'', [1058, 1072, 1080, 1083, 1072, 1085, 1076],
       [1058, 1072, 1111, 1083, 1072, 1085, 1076], cp ''Bangkok'']),
    (''tj'', [cp ''Tajikistan'', [1058, 1072, 1076, 1078, 1080, 1082, 1080, 1089, 1090, 1072, 1085],
       cp ''Dushanbe'']),
    (''tr'', [cp ''Turkey'', [84, 252, 114, 107, 105, 121, 101], [1058, 1091, 1088, 1094, 1080, 1103],
       [1058, 1091, 1088, 1077, 1095, 1095, 1080, 1085, 1072], cp ''Istanbul'',
       [1057, 1090, 1072, 1084, 1073, 1091, 1083]]),
    (''tw'', [cp ''Taiwan'', [1058, 1072, 1081, 1074, 1072, 1085, 1100], cp ''Taipei'']),
    (''ua'', [cp ''Ukraine'', [1059, 1082, 1088, 1072, 1080, 1085, 1072],
       [1059, 1082, 1088, 1072, 1111, 1085, 1072], cp ''Kyiv'', cp ''Kiev'', [1050, 1080, 1077, 1074],
       [1050, 1080, 1111, 1074]]),
    (''ae'', [cp ''United Arab Emirates'', cp ''UAE'', [1054, 1040, 1069], [1054, 1040, 1045], cp ''Dubai'',
       [1044, 1091, 1073, 1072, 1081]]),
    (''us'', [cp ''United States'', cp ''USA'', [1057, 1064, 1040], cp ''America'',
       [1040, 1084, 1077, 1088, 1080, 1082, 1072], cp ''New York'', [1053, 1100, 1102, 45, 1049, 1086, 1088, 1082],
       cp ''Los Angeles'', [1051, 1086, 1089, 45, 1040, 1085, 1076, 1078, 1077, 1083, 1077, 1089], cp ''Chicago'',
       cp ''Dallas'', cp ''Miami'', cp ''Seattle'', cp ''San Jose'', cp ''Silicon Valley'', cp ''Ashburn'',
       cp ''Atlanta'']),
    (''uz'', [cp ''Uzbekistan'', [1059, 1079, 1073, 1077, 1082, 1080, 1089, 1090, 1072, 1085], cp ''Tashkent'',
       [1058, 1072, 1096, 1082, 1077, 1085, 1090]]),
    (''vn'', [cp ''Vietnam'', [1042, 1100, 1077, 1090, 1085, 1072, 1084], [1042, 39, 1108, 1090, 1085, 1072, 1084],
       cp ''Hanoi'']),
    (''za'', [cp ''South Africa'', [1070, 1040, 1056], cp ''Johannesburg''])
    ]"

definition all_names :: "(string \<times> nat list) list" where
  "all_names = concat (map (\<lambda>(code, names). map (Pair code) names) NAMES)"

definition NAME_PATTERNS :: "(string \<times> nat list) list" where
  "NAME_PATTERNS = js_sort (\<lambda>a b. length (snd b) \<le> length (snd a)) all_names"

section \<open>Reading a name\<close>

text \<open>The rests of a name that no letter stands before: \<open>(?<![\p{L}])\<close>.\<close>

fun spots :: "(nat \<Rightarrow> bool) \<Rightarrow> bool \<Rightarrow> nat list \<Rightarrow> nat list list" where
  "spots letter after [] = (if after then [] else [[]])"
| "spots letter after (c # s) = (if after then [] else [c # s]) @ spots letter (letter c) s"

definition no_letter_next :: "(nat \<Rightarrow> bool) \<Rightarrow> nat list \<Rightarrow> bool" where
  "no_letter_next letter s = (case s of [] \<Rightarrow> True | c # r \<Rightarrow> \<not> letter c)"

text \<open>Names of up to three letters are matched as written, longer ones in any case.\<close>

definition name_at :: "unicode \<Rightarrow> nat list \<Rightarrow> nat list \<Rightarrow> bool" where
  "name_at u name s \<longleftrightarrow> length name \<le> length s
     \<and> (if length name \<le> 3 then take (length name) s = name
        else map (un_fold u) (take (length name) s) = map (un_fold u) name)
     \<and> no_letter_next (un_letter u) (drop (length name) s)"

definition pattern_test :: "unicode \<Rightarrow> nat list \<Rightarrow> nat list \<Rightarrow> bool" where
  "pattern_test u name s = list_ex (name_at u name) (spots (un_letter u) False s)"

definition regional :: "nat \<Rightarrow> bool" where
  "regional n \<longleftrightarrow> 0x1F1E6 \<le> n \<and> n \<le> 0x1F1FF"

text \<open>The first two regional indicators next to each other.\<close>

fun flag_pair :: "nat list \<Rightarrow> (nat \<times> nat) option" where
  "flag_pair (a # b # s) = (if regional a \<and> regional b then Some (a, b) else flag_pair (b # s))"
| "flag_pair _ = None"

definition from_emoji :: "nat list \<Rightarrow> string option" where
  "from_emoji name = map_option (\<lambda>(a, b). [char_of (a - 0x1F1E6 + 97), char_of (b - 0x1F1E6 + 97)]) (flag_pair name)"

definition capital :: "nat \<Rightarrow> bool" where
  "capital n \<longleftrightarrow> 65 \<le> n \<and> n \<le> 90"

text \<open>The bare codes in a name, in order and in lower case; a search goes on behind the code found.\<close>

fun iso_codes :: "(nat \<Rightarrow> bool) \<Rightarrow> bool \<Rightarrow> nat list \<Rightarrow> string list" where
  "iso_codes letter after (a # b # s) =
     (if \<not> after \<and> capital a \<and> capital b \<and> no_letter_next letter s
      then [char_of (a + 32), char_of (b + 32)] # iso_codes letter (letter b) s
      else iso_codes letter (letter a) (b # s))"
| "iso_codes letter after _ = []"

definition name_or_iso :: "unicode \<Rightarrow> (string \<Rightarrow> bool) \<Rightarrow> nat list \<Rightarrow> string option" where
  "name_or_iso u has_flag name =
     (case find (\<lambda>(code, p). pattern_test u p name) NAME_PATTERNS of
        Some (code, p) \<Rightarrow> Some code
      | None \<Rightarrow> find has_flag (iso_codes (un_letter u) False name))"

definition country_of :: "unicode \<Rightarrow> (string \<Rightarrow> bool) \<Rightarrow> nat list \<Rightarrow> string option" where
  "country_of u has_flag name =
     (case from_emoji name of
        Some code \<Rightarrow> if has_flag code then Some code else name_or_iso u has_flag name
      | None \<Rightarrow> name_or_iso u has_flag name)"

section \<open>The name without its flag\<close>

fun strip_flags :: "nat list \<Rightarrow> nat list" where
  "strip_flags (a # b # s) = (if regional a \<and> regional b then strip_flags s else a # strip_flags (b # s))"
| "strip_flags s = s"

definition space_code :: "nat \<Rightarrow> bool" where
  "space_code c \<longleftrightarrow> utf8_of c \<in> set white_space"

lemma dropWhile_shorter [termination_simp]: "length (dropWhile P xs) < Suc (Suc (length xs))"
  using length_dropWhile_le [of P xs] by simp

text \<open>\<open>.replace(/\s{2,}/g, " ")\<close>.\<close>

fun one_space :: "nat list \<Rightarrow> nat list" where
  "one_space (a # b # s) =
     (if space_code a \<and> space_code b then 32 # one_space (dropWhile space_code s) else a # one_space (b # s))"
| "one_space s = s"

definition trim_codes :: "nat list \<Rightarrow> nat list" where
  "trim_codes s = rev (dropWhile space_code (rev (dropWhile space_code s)))"

definition without_flag_emoji :: "nat list \<Rightarrow> nat list" where
  "without_flag_emoji name =
     (let s = trim_codes (one_space (strip_flags name)) in if s = [] then name else s)"

definition flagless :: "string \<Rightarrow> string" where
  "flagless name = text_of (without_flag_emoji (code_points name))"

section \<open>The flag drawn\<close>

datatype drawn_flag = FlagPicture string | AutoIcon | GlobeIcon

text \<open>The code of a picture, looked up in lower case.\<close>

definition flag_shown :: "unicode \<Rightarrow> (string \<Rightarrow> bool) \<Rightarrow> nat list option \<Rightarrow> bool \<Rightarrow> drawn_flag" where
  "flag_shown u has_flag name auto =
     (case (if auto then None else Option.bind name (\<lambda>n. if n = [] then None else country_of u has_flag n)) of
        Some code \<Rightarrow> if has_flag (js_lower code) then FlagPicture (js_lower code) else GlobeIcon
      | None \<Rightarrow> if auto then AutoIcon else GlobeIcon)"

section \<open>Properties\<close>

lemma set_name_patterns [simp]: "set NAME_PATTERNS = set all_names"
  by (simp add: NAME_PATTERNS_def)

interpretation longest_first: comparator "\<lambda>a b :: string \<times> nat list. length (snd b) \<le> length (snd a)"
  by unfold_locales auto

lemma find_first:
  "find P xs = Some x \<Longrightarrow> \<exists>as bs. xs = as @ x # bs \<and> P x \<and> (\<forall>a \<in> set as. \<not> P a)"
proof (induction xs)
  case (Cons y ys)
  show ?case
  proof (cases "P y")
    case True
    then have "x = y" using Cons.prems by simp
    with True show ?thesis by (intro exI [of _ "[]"] exI [of _ ys]) simp
  next
    case False
    then obtain as bs where "ys = as @ x # bs" "P x" "\<forall>a \<in> set as. \<not> P a" using Cons by auto
    with False show ?thesis by (intro exI [of _ "y # as"] exI [of _ bs]) simp
  qed
qed simp

lemma find_sorted:
  assumes "find P xs = Some x" "sorted_wrt le xs" "le x x"
  shows "x \<in> set xs \<and> P x \<and> (\<forall>y \<in> set xs. P y \<longrightarrow> le x y)"
  using find_first [OF assms(1)] assms(2,3) by (auto simp: sorted_wrt_append)

text \<open>a server's country is that of its flag, where the flag has a picture; else that of the longest
  name of a country or city standing in it on its own; else the first code of two capitals that has
  a picture; and none only where there is nothing of these.\<close>

theorem country_read_in_order:
  assumes "result = country_of u has_flag name"
  shows "(\<forall>code. from_emoji name = Some code \<and> has_flag code \<longrightarrow> result = Some code)
    \<and> ((\<forall>code. from_emoji name = Some code \<longrightarrow> \<not> has_flag code) \<longrightarrow>
        (case result of
           Some code \<Rightarrow>
             (\<exists>p. (code, p) \<in> set all_names \<and> pattern_test u p name
                \<and> (\<forall>(c, q) \<in> set all_names. pattern_test u q name \<longrightarrow> length q \<le> length p))
             \<or> (\<forall>(c, q) \<in> set all_names. \<not> pattern_test u q name) \<and> has_flag code
                \<and> code \<in> set (iso_codes (un_letter u) False name)
         | None \<Rightarrow> (\<forall>(c, q) \<in> set all_names. \<not> pattern_test u q name)
             \<and> (\<forall>code \<in> set (iso_codes (un_letter u) False name). \<not> has_flag code)))"
proof -
  let ?P = "\<lambda>(code, p). pattern_test u p name"
  let ?R = "case name_or_iso u has_flag name of
           Some code \<Rightarrow>
             (\<exists>p. (code, p) \<in> set all_names \<and> pattern_test u p name
                \<and> (\<forall>(c, q) \<in> set all_names. pattern_test u q name \<longrightarrow> length q \<le> length p))
             \<or> (\<forall>(c, q) \<in> set all_names. \<not> pattern_test u q name) \<and> has_flag code
                \<and> code \<in> set (iso_codes (un_letter u) False name)
         | None \<Rightarrow> (\<forall>(c, q) \<in> set all_names. \<not> pattern_test u q name)
             \<and> (\<forall>code \<in> set (iso_codes (un_letter u) False name). \<not> has_flag code)"
  have "?R"
  proof (cases "find ?P NAME_PATTERNS")
    case (Some x)
    have "sorted_wrt (\<lambda>a b. length (snd b) \<le> length (snd a)) NAME_PATTERNS"
      unfolding NAME_PATTERNS_def by (rule longest_first.sorted_sort)
    from find_sorted [OF Some this] show ?thesis
      by (cases x) (fastforce simp: name_or_iso_def Some)
  next
    case None
    then have "\<forall>(c, q) \<in> set all_names. \<not> pattern_test u q name" by (auto simp: find_None_iff)
    then show ?thesis
      by (auto simp: name_or_iso_def None find_None_iff dest!: find_Some_in split: option.splits)
  qed
  then show ?thesis unfolding assms by (auto simp: country_of_def split: option.split)
qed

definition ascii_unicode :: unicode where
  "ascii_unicode = \<lparr>un_letter = (\<lambda>c. capital c \<or> 97 \<le> c \<and> c \<le> 122), un_fold = (\<lambda>c. if capital c then c + 32 else c)\<rparr>"

lemma char_of_code: "char_of (of_char c :: nat) = c"
  by simp

lemmas letter_chars =
  char_of_code [of "CHR ''f''", simplified] char_of_code [of "CHR ''i''", simplified] char_of_code [of "CHR ''n''", simplified]
  char_of_code [of "CHR ''l''", simplified] char_of_code [of "CHR ''e''", simplified] char_of_code [of "CHR ''u''", simplified]

theorem country_read_in_order_witness:
  "country_of ascii_unicode (\<lambda>c. c = ''nl'') ([0x1F1F3, 0x1F1F1, 32] @ cp ''Germany'') = Some ''nl''"
proof -
  have e: "from_emoji ([0x1F1F3, 0x1F1F1, 32] @ cp ''Germany'') = Some ''nl''"
    by (simp add: from_emoji_def regional_def letter_chars)
  show ?thesis
    using country_read_in_order [where u = ascii_unicode and has_flag = "\<lambda>c. c = ''nl''" and name = "[0x1F1F3, 0x1F1F1, 32] @ cp ''Germany''", OF refl] e
    by blast
qed

lemma names_stand_alone:
  "pattern_test ascii_unicode (cp ''Germany'') (cp ''2 germany'')"
  "\<not> pattern_test ascii_unicode (cp ''Iran'') (cp ''Tirana'')"
  "\<not> pattern_test ascii_unicode (cp ''UK'') (cp ''uk'')"
  by (simp_all add: pattern_test_def name_at_def no_letter_next_def ascii_unicode_def capital_def cp_def)

lemma iso_codes_example:
  "iso_codes (un_letter ascii_unicode) False (cp ''FI-2 [NL] EU1 USA'') = [''fi'', ''nl'', ''eu'']"
  by (simp add: no_letter_next_def ascii_unicode_def capital_def cp_def letter_chars)

lemma strip_flags_head: "\<not> regional a \<Longrightarrow> \<exists>s'. strip_flags (a # s) = a # s'"
  by (cases s) auto

lemma flag_pair_skip: "\<not> regional a \<Longrightarrow> flag_pair (a # s) = flag_pair s"
  by (cases s) auto

lemma strip_flags_none: "flag_pair (strip_flags s) = None"
proof (induction s rule: strip_flags.induct)
  case (1 a b s)
  show ?case
  proof (cases "regional a \<and> regional b")
    case False
    then have h: "strip_flags (a # b # s) = a # strip_flags (b # s)" by auto
    have ih: "flag_pair (strip_flags (b # s)) = None" using 1(2) False by blast
    show ?thesis
    proof (cases "regional b")
      case True
      then show ?thesis using False ih unfolding h by (simp add: flag_pair_skip)
    next
      case b: False
      then obtain s' where "strip_flags (b # s) = b # s'" using strip_flags_head by blast
      then show ?thesis using ih b unfolding h by simp
    qed
  qed (use 1 in simp)
qed simp_all

lemma flag_pair_append: "flag_pair (xs @ ys) = None \<Longrightarrow> flag_pair xs = None \<and> flag_pair ys = None"
proof (induction xs)
  case (Cons x xs)
  then show ?case by (cases xs; cases ys) (auto split: if_splits)
qed simp

lemma flag_pair_dropWhile: "flag_pair s = None \<Longrightarrow> flag_pair (dropWhile P s) = None"
  using flag_pair_append [of "takeWhile P s" "dropWhile P s"] by simp

lemma one_space_head: "\<exists>s'. one_space (a # s) = a # s' \<or> one_space (a # s) = 32 # s'"
  by (cases s) auto

lemma one_space_none: "flag_pair s = None \<Longrightarrow> flag_pair (one_space s) = None"
proof (induction s rule: one_space.induct)
  case (1 a b s)
  have rest: "flag_pair (b # s) = None" using 1(3) by (simp split: if_splits)
  show ?case
  proof (cases "space_code a \<and> space_code b")
    case True
    have "flag_pair s = None" using flag_pair_append [of "[a, b]" s] 1(3) by simp
    then have ih: "flag_pair (one_space (dropWhile space_code s)) = None" using 1(1) True by (simp add: flag_pair_dropWhile)
    then show ?thesis using True by (simp add: flag_pair_skip regional_def)
  next
    case False
    then have ih: "flag_pair (one_space (b # s)) = None" using 1(2) rest by blast
    obtain s' where "one_space (b # s) = b # s' \<or> one_space (b # s) = 32 # s'" using one_space_head by blast
    then show ?thesis using ih 1(3) False by (auto simp: regional_def split: if_splits)
  qed
qed simp_all

lemma trim_codes_none:
  assumes "flag_pair s = None" shows "flag_pair (trim_codes s) = None"
proof -
  define t where "t = dropWhile space_code s"
  have "t = rev (dropWhile space_code (rev t)) @ rev (takeWhile space_code (rev t))"
    by (metis rev_append rev_rev_ident takeWhile_dropWhile_id)
  then have "flag_pair t = None \<Longrightarrow> flag_pair (rev (dropWhile space_code (rev t))) = None"
    using flag_pair_append by metis
  then show ?thesis using flag_pair_dropWhile [OF assms] by (simp add: trim_codes_def t_def)
qed

text \<open>the name shown beside a drawn flag has no flag in it, unless it is nothing but flags and
  white space, and then it is left as it is.\<close>

theorem no_flag_left:
  "flag_pair (without_flag_emoji name) = None
   \<or> without_flag_emoji name = name \<and> trim_codes (one_space (strip_flags name)) = []"
  using trim_codes_none [OF one_space_none [OF strip_flags_none], of name]
  by (simp add: without_flag_emoji_def Let_def)

end
