(* ===== verification/Connection_Screen.thy ===== *)
theory Connection_Screen
  imports Subscriptions Settings_Panels App_Hooks Country_Flags "HOL-Library.Word"
begin

text \<open>
  The home screen (components/views/ConnectionView.tsx) and the parts it shows: the state in words
  (components/layout/ConnectionStatus.tsx), the server picker (components/layout/ServerPicker.tsx), the
  provider's announcement (components/announce-banner.tsx) and what is left of a subscription
  (components/subscription-usage.tsx).  \<open>t\<close> is the translation function, \<open>date\<close> the browser's text
  of a date, \<open>u\<close> the chosen units.
\<close>

section \<open>Announcements\<close>

text \<open>The UTF-16 code units of a text: what \<open>charCodeAt\<close> reads.\<close>

definition surrogates :: "nat \<Rightarrow> nat list" where
  "surrogates n = (if n < 0x10000 then [n] else [0xD800 + (n - 0x10000) div 0x400, 0xDC00 + (n - 0x10000) mod 0x400])"

definition utf16 :: "string \<Rightarrow> nat list" where
  "utf16 s = concat (map surrogates (code_points s))"

text \<open>\<open>(hash * 31 + code) | 0\<close> keeps the low 32 bits; the text is that of the signed value.\<close>

definition hash_step :: "32 word \<Rightarrow> nat \<Rightarrow> 32 word" where
  "hash_step hash code = hash * 31 + of_nat code"

definition key_of :: "string \<Rightarrow> string" where
  "key_of text = int_str (sint (foldl hash_step 0 (utf16 text)))"

text \<open>The banner: the keys dismissed, as stored (no storage: none), and whether it is folded.\<close>

record announce_banner =
  ab_dismissed :: "string list"
  ab_stored :: "string list option"
  ab_folded :: bool

definition announce_text :: "subscription_info option \<Rightarrow> string" where
  "announce_text info = js_trim (or_else (Option.bind info si_announce) [])"

definition announce_shown :: "announce_banner \<Rightarrow> subscription_info option \<Rightarrow> bool" where
  "announce_shown v info \<longleftrightarrow> announce_text info \<noteq> [] \<and> key_of (announce_text info) \<notin> set (ab_dismissed v)"

definition dismiss_announce :: "bool \<Rightarrow> subscription_info option \<Rightarrow> announce_banner \<Rightarrow> announce_banner" where
  "dismiss_announce writable info v =
     (let next = last_n 20 (ab_dismissed v @ [key_of (announce_text info)]) in
      v\<lparr>ab_dismissed := next, ab_stored := (if writable then Some next else ab_stored v)\<rparr>)"

definition opened_announce :: "string list option \<Rightarrow> announce_banner" where
  "opened_announce stored = \<lparr>ab_dismissed = or_else stored [], ab_stored = stored, ab_folded = False\<rparr>"

definition announce_link :: "subscription_info option \<Rightarrow> string option" where
  "announce_link info =
     (case info of
        None \<Rightarrow> None
      | Some i \<Rightarrow> if or_else (si_announce_url i) [] \<noteq> [] then si_announce_url i else si_support_url i)"

text \<open>\<open>/^tg:|\/\/(t\.me|telegram\.me)\//i\<close>.\<close>

definition telegram_link :: "string \<Rightarrow> bool" where
  "telegram_link link \<longleftrightarrow> (let l = js_lower link in
     js_starts_with l ''tg:'' \<or> js_includes l ''//t.me/'' \<or> js_includes l ''//telegram.me/'')"

section \<open>What is left of a subscription\<close>

datatype tone = Plain_Tone | Warn_Tone | Bad_Tone

definition usage_tone :: "subscription_info \<Rightarrow> int \<Rightarrow> tone" where
  "usage_tone i now =
     (case subscription_alert (Some i) now of
        Some Expired \<Rightarrow> Bad_Tone | Some Exhausted \<Rightarrow> Bad_Tone
      | Some Expiring \<Rightarrow> Warn_Tone | Some Low \<Rightarrow> Warn_Tone | None \<Rightarrow> Plain_Tone)"

definition bytes_text :: "unit_choice \<Rightarrow> int \<Rightarrow> string" where
  "bytes_text u n = format_bytes u (Fin (of_int n))"

definition usage_text :: "texts \<Rightarrow> unit_choice \<Rightarrow> subscription_info \<Rightarrow> string" where
  "usage_text t u i =
     (let used = bytes_text u (si_upload i + si_download i) in
      if si_total i > 0
      then t ''usage.of'' (Some [(''used'', TextParam used), (''total'', TextParam (bytes_text u (si_total i)))])
      else t ''usage.unlimited'' (Some [(''used'', TextParam used)]))"

definition expiry_line :: "texts \<Rightarrow> (int \<Rightarrow> string) \<Rightarrow> subscription_info \<Rightarrow> int \<Rightarrow> string" where
  "expiry_line t date i now =
     (case expiry i now of
        NoExpiry \<Rightarrow> t ''usage.noExpiry'' None
      | ExpiredOn moment \<Rightarrow> t ''usage.expired'' (Some [(''date'', TextParam (date moment))])
      | ExpiresIn moment days \<Rightarrow> t ''usage.expires'' (Some [(''date'', TextParam (date moment)), (''count'', NumParam (Fin (of_int days)))]))"

text \<open>The bar: drawn where there is a limit, at least 1.5 per cent wide.\<close>

definition usage_bar :: "subscription_info \<Rightarrow> (int \<times> rat) option" where
  "usage_bar i = (if si_total i > 0 then Some (js_round (used_share i * 100), max (used_share i * 100) (3 / 2)) else None)"

definition usage_links :: "subscription_info \<Rightarrow> (string \<times> string) list" where
  "usage_links i = List.map_filter (\<lambda>(label, url). case url of Some (c # cs) \<Rightarrow> Some (label, c # cs) | _ \<Rightarrow> None)
     [(''usage.support'', si_support_url i), (''usage.community'', si_community_url i), (''usage.account'', si_web_page_url i)]"

section \<open>The state in words\<close>

definition yes :: "bool option \<Rightarrow> bool" where
  "yes b \<longleftrightarrow> b = Some True"

fun status_key :: "connection_status \<Rightarrow> string" where
  "status_key Connected = ''status.connected''"
| "status_key Connecting = ''status.connecting''"
| "status_key ErrorStatus = ''status.error''"
| "status_key Idle = ''status.idle''"

definition attempt_text :: "texts \<Rightarrow> connection_state \<Rightarrow> string" where
  "attempt_text t s = t ''connection.reconnecting'' (Some [(''attempt'', NumParam (Fin (of_int (or_else (cs_attempt s) 1))))])"

definition status_label :: "texts \<Rightarrow> connection_state option \<Rightarrow> string" where
  "status_label t state =
     (case state of
        None \<Rightarrow> t ''status.idle'' None
      | Some s \<Rightarrow>
          if yes (cs_blocked s) then t ''connection.blocked'' None
          else if yes (cs_reconnecting s) then attempt_text t s
          else t (status_key (cs_status s)) None)"

text \<open>What the big button is like: busy (it cannot be pressed), and whether it disconnects.\<close>

definition button_busy :: "connection_state \<Rightarrow> bool" where
  "button_busy s \<longleftrightarrow> cs_status s = Connecting \<and> \<not> yes (cs_reconnecting s)"

definition button_disconnects :: "connection_state \<Rightarrow> bool" where
  "button_disconnects s \<longleftrightarrow> cs_status s = Connected \<or> yes (cs_reconnecting s) \<or> yes (cs_blocked s)"

definition button_label :: "texts \<Rightarrow> connection_state \<Rightarrow> string" where
  "button_label t s = t (if button_disconnects s then ''connection.disconnect'' else ''connection.connect'') None"

definition headline :: "texts \<Rightarrow> config_source option \<Rightarrow> connection_state \<Rightarrow> string" where
  "headline t source s =
     t (case cs_status s of
          Connected \<Rightarrow> ''status.connected''
        | Connecting \<Rightarrow> ''status.connecting''
        | ErrorStatus \<Rightarrow> ''status.error''
        | Idle \<Rightarrow> if source \<noteq> None then ''connection.hint.idle'' else ''connection.empty.title'') None"

text \<open>The time connected, a tick a second; \<open>now\<close> and \<open>since\<close> in milliseconds.\<close>

definition elapsed_text :: "int \<Rightarrow> int option \<Rightarrow> string" where
  "elapsed_text now since =
     (if or_else since 0 = 0 then ''00:00:00'' else format_duration (of_int (max 0 (now - the since))))"

text \<open>The lines under the headline: the text, and the core's own words where they follow.\<close>

definition subline :: "texts \<Rightarrow> int \<Rightarrow> config_source option \<Rightarrow> connection_state \<Rightarrow> (string \<times> string option) option" where
  "subline t now source s =
     (if cs_status s = Connected then Some (elapsed_text now (cs_since s), None)
      else if yes (cs_reconnecting s) then Some (attempt_text t s, None)
      else if cs_status s = Connecting then Some (t ''connection.hint.connecting'' None, None)
      else if cs_status s = ErrorStatus then
        (if cs_reason s = Some ''adapter'' then Some (t ''connection.error.adapter'' None, Some (or_else (cs_error s) []))
         else if cs_reason s = Some ''local'' then Some (t ''connection.error.local'' None, Some (or_else (cs_error s) []))
         else Some (if or_else (cs_error s) [] = [] then t ''connection.hint.error'' None else the (cs_error s), None))
      else if source = None then Some (t ''connection.empty.body'' None, None)
      else None)"

text \<open>The smaller buttons and notices under it: the status pill, Dismiss, Disconnect, the kill switch.\<close>

definition shows_pill :: "connection_state \<Rightarrow> bool" where
  "shows_pill s \<longleftrightarrow> cs_status s \<noteq> Connected \<and> cs_status s \<noteq> Connecting \<and> cs_status s \<noteq> ErrorStatus"

definition shows_dismiss :: "connection_state \<Rightarrow> bool" where
  "shows_dismiss s \<longleftrightarrow> cs_status s = ErrorStatus \<and> \<not> yes (cs_blocked s)"

definition shows_disconnect :: "connection_state \<Rightarrow> bool" where
  "shows_disconnect s \<longleftrightarrow> yes (cs_reconnecting s) \<or> yes (cs_blocked s)"

section \<open>The configuration and the numbers\<close>

definition source_meta :: "texts \<Rightarrow> unit_choice \<Rightarrow> (int \<Rightarrow> string) \<Rightarrow> int \<Rightarrow> config_source \<Rightarrow> (string \<times> bool) list" where
  "source_meta t u date now source = (case source of
     ProfileSource key label detail pid \<Rightarrow> [(detail, False)]
   | SubscriptionSource key domain label detail n info \<Rightarrow>
       (case info of
          None \<Rightarrow> [(detail, False)]
        | Some i \<Rightarrow>
            (if si_total i > 0
             then (t ''usage.of'' (Some [(''used'', TextParam (bytes_text u (si_upload i + si_download i))),
                 (''total'', TextParam (bytes_text u (si_total i)))]), False)
             else (t ''connection.unlimited'' None, False))
            # (if si_expire i > 0
               then (let days = \<lceil>rat_of_int (si_expire i * 1000 - now) / rat_of_int DAY\<rceil> in
                 [if days \<le> 0 then (t ''usage.expired'' (Some [(''date'', TextParam (date (si_expire i * 1000)))]), True)
                  else (t ''connection.daysLeft'' (Some [(''count'', NumParam (Fin (of_int days)))]), False)])
               else [])))"

definition width_class :: "layout_prefs \<Rightarrow> string" where
  "width_class l = (if ly_width l = ''compact'' then ''max-w-2xl'' else if ly_width l = ''wide'' then ''max-w-5xl'' else ''max-w-3xl'')"

definition layout_metric_on :: "layout_prefs \<Rightarrow> string \<Rightarrow> bool" where
  "layout_metric_on l m =
     (if m = ''download'' then ly_download l else if m = ''upload'' then ly_upload l else if m = ''latency'' then ly_latency l else True)"

definition active_metrics :: "layout_prefs \<Rightarrow> string list" where
  "active_metrics l = filter (layout_metric_on l) (ly_order l)"

text \<open>A card: its title, its figure, the line under it.\<close>

definition latency_hint :: "jsnum option \<Rightarrow> string" where
  "latency_hint ping = (case ping of
     Some (Fin q) \<Rightarrow> if q \<noteq> 0 \<and> q < 100 then ''connection.latency.good''
       else if q \<noteq> 0 \<and> q < 250 then ''connection.latency.fair'' else ''connection.latency.measuring''
   | Some NegInf \<Rightarrow> ''connection.latency.good''
   | _ \<Rightarrow> ''connection.latency.measuring'')"

definition telemetry_card :: "texts \<Rightarrow> unit_choice \<Rightarrow> (jsnum \<Rightarrow> string) \<Rightarrow> traffic_sample \<Rightarrow> jsnum option \<Rightarrow> string
    \<Rightarrow> (string \<times> string \<times> string) option" where
  "telemetry_card t u show traffic ping m =
     (if m = ''download'' then Some (t ''connection.download'' None, format_rate u (Fin (ts_down_rate traffic)),
          t ''connection.thisSession'' (Some [(''amount'', TextParam (bytes_text u (ts_down traffic)))]))
      else if m = ''upload'' then Some (t ''connection.upload'' None, format_rate u (Fin (ts_up_rate traffic)),
          t ''connection.thisSession'' (Some [(''amount'', TextParam (bytes_text u (ts_up traffic)))]))
      else if m = ''latency'' then Some (t ''connection.latency'' None,
          (case ping of Some p \<Rightarrow> show p @ '' ms'' | None \<Rightarrow> DASH), t (latency_hint ping) None)
      else None)"

definition telemetry_grid :: "texts \<Rightarrow> unit_choice \<Rightarrow> (jsnum \<Rightarrow> string) \<Rightarrow> layout_prefs \<Rightarrow> traffic_sample \<Rightarrow> jsnum option
    \<Rightarrow> connection_state \<Rightarrow> (string \<times> string \<times> string) list" where
  "telemetry_grid t u show l traffic ping s =
     (if cs_status s = Connected then List.map_filter (telemetry_card t u show traffic ping) (active_metrics l) else [])"

definition address_text :: "texts \<Rightarrow> bool \<Rightarrow> bool \<Rightarrow> ip_info option \<Rightarrow> string" where
  "address_text t check_on checking ip =
     (if \<not> check_on then t ''connection.ipOff'' None
      else if checking then t ''connection.checking'' None
      else case ip of Some i \<Rightarrow> if ip_address i = [] then DASH else ip_address i | None \<Rightarrow> DASH)"

section \<open>The server picker\<close>

record picker_props =
  pp_profiles :: "profile list"
  pp_pings :: "string \<rightharpoonup> jsnum"
  pp_domain :: string
  pp_profile_id :: string
  pp_mode :: proxy_mode
  pp_state :: "connection_state option"
  pp_locked :: bool
  pp_unsupported :: "string \<rightharpoonup> string"

definition picker_choice :: "picker_props \<Rightarrow> server_choice" where
  "picker_choice v = server_selection (pp_profiles v) (pp_pings v) (pp_domain v) (pp_mode v) (pp_profile_id v) (pp_state v) (pp_unsupported v)"

definition picker_name :: "picker_props \<Rightarrow> string option" where
  "picker_name v =
     (case ch_displayed (picker_choice v) of
        Some p \<Rightarrow> if p_name p \<noteq> [] then Some (p_name p) else
          (case pp_state v of Some s \<Rightarrow> if cs_status s = Connected then cs_profile s else None | None \<Rightarrow> None)
      | None \<Rightarrow> (case pp_state v of Some s \<Rightarrow> if cs_status s = Connected then cs_profile s else None | None \<Rightarrow> None))"

definition picker_label :: "texts \<Rightarrow> picker_props \<Rightarrow> string" where
  "picker_label t v =
     (case picker_name v of
        Some (c # cs) \<Rightarrow> flagless (c # cs)
      | _ \<Rightarrow> t (if pp_mode v = Auto then ''proxies.auto'' else ''topbar.none'') None)"

text \<open>A row of the list: the server, whether it can be chosen, its latency, whether it is the chosen one.\<close>

definition picker_rows :: "picker_props \<Rightarrow> (profile \<times> bool \<times> jsnum option \<times> bool) list" where
  "picker_rows v =
     map (\<lambda>p. (p, \<not> pp_locked v \<and> or_else (pp_unsupported v (p_id p)) [] = [], pp_pings v (p_id p),
         pp_mode v \<noteq> Auto \<and> pp_profile_id v = p_id p))
       (take 6 (ch_available (picker_choice v)))"

section \<open>Lemmas\<close>

lemma utf16_ascii: "list_all (\<lambda>c. (of_char c :: nat) < 128) s \<Longrightarrow> utf16 (s @ r) = map of_char s @ utf16 r"
  by (induction s) (simp_all add: utf16_def surrogates_def Let_def)

lemma hash_step_same: "hash_step (hash_step h 65) 97 = hash_step (hash_step h 66) 66"
  by (simp add: hash_step_def algebra_simps)

lemma length_last_n: "length (last_n n xs) \<le> n"
  by (simp add: last_n_def)

section \<open>Properties\<close>

text \<open>Dismissing an announcement hides exactly the announcements with its key, keeps at most twenty keys and
  is remembered at the next start - but different announcements can share a key: one that differs only in
  having BB where the dismissed one has Aa is never shown.\<close>

theorem announce_keys_collide:
  assumes "list_all (\<lambda>c. (of_char c :: nat) < 128) u"
  shows "key_of (u @ ''Aa'' @ v) = key_of (u @ ''BB'' @ v)
    \<and> (length (ab_dismissed b) \<le> 20 \<longrightarrow>
        (let c = dismiss_announce True info b in
         length (ab_dismissed c) \<le> 20 \<and> \<not> announce_shown c info
         \<and> ab_dismissed (opened_announce (ab_stored c)) = ab_dismissed c
         \<and> (\<forall>other. key_of (announce_text other) = key_of (announce_text info) \<longrightarrow> \<not> announce_shown c other)))"
proof -
  have "key_of (u @ ''Aa'' @ v) = key_of (u @ ''BB'' @ v)"
    using utf16_ascii [of "u @ ''Aa''" v] utf16_ascii [of "u @ ''BB''" v] assms
    by (simp add: key_of_def hash_step_same)
  moreover have "key_of (announce_text info) \<in> set (last_n 20 (ab_dismissed b @ [key_of (announce_text info)]))"
    by (simp add: last_n_def)
  ultimately show ?thesis
    by (simp add: dismiss_announce_def Let_def announce_shown_def opened_announce_def length_last_n)
qed

theorem announce_keys_collide_witness:
  "key_of ''Server Aa is down'' = key_of ''Server BB is down''"
  using announce_keys_collide [of "''Server ''" "'' is down''" "opened_announce None" None] by simp

text \<open>While the big button is busy the app is neither connected nor retrying.  Whenever the kill switch
  blocks all traffic or the app retries, a button to disconnect is there and the big one disconnects
  too; an error can always be dismissed or disconnected from; and beside a configuration the screen has a
  line for every state but the idle one.\<close>

theorem button_offers_way_out:
  "(button_busy s \<longrightarrow> cs_status s \<noteq> Connected \<and> \<not> yes (cs_reconnecting s))
    \<and> (shows_disconnect s \<longrightarrow> button_disconnects s)
    \<and> (cs_status s = ErrorStatus \<longrightarrow> shows_dismiss s \<or> shows_disconnect s)
    \<and> (shows_dismiss s \<longrightarrow> \<not> shows_pill s)
    \<and> (cs_status s = ErrorStatus \<longrightarrow> subline t now source s \<noteq> None)
    \<and> (subline t now (Some x) s = None \<longleftrightarrow> cs_status s = Idle \<and> \<not> yes (cs_reconnecting s))"
  by (cases "cs_status s")
    (simp_all add: button_busy_def shows_disconnect_def button_disconnects_def shows_dismiss_def shows_pill_def subline_def)

theorem button_offers_way_out_witness:
  "shows_dismiss (failed_with ''no route'') \<or> shows_disconnect (failed_with ''no route'')"
  using button_offers_way_out [of "failed_with ''no route''" "\<lambda>k ps. k" 0 None "sample_source"]
  by (simp add: failed_with_def connection_of_def)

text \<open>A server that takes a quarter of a second or longer to answer is said to be still being measured, as one
  not measured at all is, and so is one that answers in less than half a millisecond.\<close>

theorem slow_server_reads_as_measuring:
  assumes "ping = None \<or> (\<exists>q. ping = Some (Fin q) \<and> (250 \<le> q \<or> q = 0))"
  shows "latency_hint ping = ''connection.latency.measuring''"
  using assms by (auto simp: latency_hint_def)

theorem slow_server_reads_as_measuring_witness:
  "latency_hint (Some (Fin 300)) = ''connection.latency.measuring''"
  using slow_server_reads_as_measuring [of "Some (Fin 300)"] by simp

text \<open>The server picker lists at most six servers of the chosen configuration, offers none while switching is
  refused or that the core cannot run, and marks the chosen one - none when the app chooses.\<close>

theorem picker_offers_available:
  "length (picker_rows v) \<le> 6
    \<and> (\<forall>r \<in> set (picker_rows v). case r of (p, enabled, ping, checked) \<Rightarrow>
         p \<in> set (pp_profiles v) \<and> trimmed_or_local (or_else (p_source_domain p) []) = trimmed_or_local (pp_domain v)
         \<and> (enabled \<longrightarrow> \<not> pp_locked v \<and> or_else (pp_unsupported v (p_id p)) [] = [])
         \<and> (checked \<longleftrightarrow> pp_mode v = Manual \<and> p_id p = pp_profile_id v))"
proof -
  have m: "m \<noteq> Auto \<longleftrightarrow> m = Manual" for m by (cases m) simp_all
  have "p \<in> set (take 6 (ch_available (picker_choice v))) \<Longrightarrow>
      p \<in> set (pp_profiles v) \<and> trimmed_or_local (or_else (p_source_domain p) []) = trimmed_or_local (pp_domain v)" for p
    by (auto simp: picker_choice_def server_selection_def Let_def dest: in_set_takeD)
  then show ?thesis by (auto simp: picker_rows_def m)
qed

theorem picker_offers_available_witness:
  "length (picker_rows \<lparr>pp_profiles = [sample_profile ''a'' None], pp_pings = Map.empty, pp_domain = LOCAL, pp_profile_id = ''a'',
     pp_mode = Manual, pp_state = None, pp_locked = False, pp_unsupported = Map.empty\<rparr>) \<le> 6"
  using picker_offers_available by blast

end
