(* ===== verification/App_Picker.thy ===== *)
theory App_Picker
  imports Js_Base Js_Order
begin

text \<open>
  Choosing applications for a rule (components/routing/app-picker.tsx): the installed applications once
  asked of the service, the list shown for a search, and what is saved.  The sets of the code keep the
  order of insertion; they are lists without repetitions here.
\<close>

section \<open>Applications and their icons\<close>

record installed_app =
  ia_package :: string
  ia_label :: string
  ia_system :: bool
  ia_running :: bool
  ia_parent :: "string option"

text \<open>
  \<open>appsPromise\<close>: none, or the answer awaited or had.  A call that fails forgets it and reads as no
  applications; an answer of null reads as none too.
\<close>

datatype apps_promise = NoPromise | Awaited | Answered "installed_app list"

definition load_installed_apps :: "bool \<Rightarrow> apps_promise \<Rightarrow> apps_promise \<times> bool" where
  "load_installed_apps fresh v = (if v = NoPromise \<or> fresh then (Awaited, True) else (v, False))"

definition apps_answered :: "installed_app list option option \<Rightarrow> apps_promise \<times> installed_app list" where
  "apps_answered answer =
     (case answer of
        Some apps \<Rightarrow> (Answered (or_else apps []), or_else apps [])
      | None \<Rightarrow> (NoPromise, []))"

text \<open>The icons asked for, by package; one that fails reads as none.\<close>

definition load_icon :: "string \<Rightarrow> string list \<Rightarrow> string list \<times> bool" where
  "load_icon package asked = (if package \<in> set asked then (asked, False) else (asked @ [package], True))"

definition SELF_PACKAGE :: string where
  "SELF_PACKAGE = ''org.rigbyfoundation.nuggetvpn''"

definition SELF_LABELS :: "string list" where
  "SELF_LABELS = [''NuggetVPN'', ''Nugget'']"

definition app_labels :: "installed_app list \<Rightarrow> (string, string) omap" where
  "app_labels apps = foldl (\<lambda>m a. om_set m (ia_package a) (ia_label a)) [(SELF_PACKAGE, ''NuggetVPN'')] apps"

section \<open>The picker\<close>

record app_picker =
  ak_open :: bool
  ak_apps :: "installed_app list option"
  ak_query :: string
  ak_system :: bool
  ak_chosen :: "string list"
  ak_unfolded :: "string list"

definition new_picker :: "string list \<Rightarrow> app_picker" where
  "new_picker values = \<lparr>ak_open = False, ak_apps = None, ak_query = [], ak_system = False,
     ak_chosen = js_unique values, ak_unfolded = []\<rparr>"

definition open_picker :: "string list \<Rightarrow> app_picker \<Rightarrow> app_picker" where
  "open_picker values p = p\<lparr>ak_open := True, ak_chosen := js_unique values, ak_query := []\<rparr>"

definition apps_loaded :: "installed_app list \<Rightarrow> app_picker \<Rightarrow> app_picker" where
  "apps_loaded apps p = p\<lparr>ak_apps := Some apps\<rparr>"

definition toggle_in :: "'a list \<Rightarrow> 'a \<Rightarrow> 'a list" where
  "toggle_in xs x = (if x \<in> set xs then filter (\<lambda>y. y \<noteq> x) xs else xs @ [x])"

definition toggle_app :: "string \<Rightarrow> app_picker \<Rightarrow> app_picker" where
  "toggle_app package p = p\<lparr>ak_chosen := toggle_in (ak_chosen p) package\<rparr>"

definition toggle_fold :: "string \<Rightarrow> app_picker \<Rightarrow> app_picker" where
  "toggle_fold package p = p\<lparr>ak_unfolded := toggle_in (ak_unfolded p) package\<rparr>"

text \<open>Saving hands the chosen names on and closes; cancelling only closes.\<close>

definition save_picker :: "app_picker \<Rightarrow> string list" where
  "save_picker p = ak_chosen p"

section \<open>The list shown\<close>

definition needle :: "app_picker \<Rightarrow> string" where
  "needle p = js_lower (js_trim (ak_query p))"

definition app_matches :: "string \<Rightarrow> installed_app \<Rightarrow> bool" where
  "app_matches n a \<longleftrightarrow> n = [] \<or> js_includes (js_lower (ia_label a)) n \<or> js_includes (js_lower (ia_package a)) n"

definition usable :: "app_picker \<Rightarrow> installed_app list" where
  "usable p =
     filter (\<lambda>a. ak_system p \<or> \<not> ia_system a \<or> ia_package a \<in> set (ak_chosen p))
       (filter (\<lambda>a. ia_label a \<notin> set SELF_LABELS \<or> ia_package a \<in> set (ak_chosen p)) (or_else (ak_apps p) []))"

definition has_parent :: "installed_app \<Rightarrow> bool" where
  "has_parent a \<longleftrightarrow> or_else (ia_parent a) [] \<noteq> []"

definition top_packages :: "installed_app list \<Rightarrow> string list" where
  "top_packages us = map ia_package (filter (\<lambda>a. \<not> has_parent a) us)"

text \<open>Whether an application is listed inside the one it is built into.\<close>

definition nested :: "installed_app list \<Rightarrow> installed_app \<Rightarrow> bool" where
  "nested us a \<longleftrightarrow> has_parent a \<and> or_else (ia_parent a) [] \<in> set (top_packages us)"

definition children_of :: "installed_app list \<Rightarrow> installed_app \<Rightarrow> installed_app list" where
  "children_of us a = filter (\<lambda>b. nested us b \<and> ia_parent b = Some (ia_package a)) us"

definition row_of :: "string \<Rightarrow> installed_app list \<Rightarrow> installed_app \<Rightarrow> (installed_app \<times> installed_app list) option" where
  "row_of n us a =
     (let inside = children_of us a;
          found = (if app_matches n a then inside else filter (app_matches n) inside)
      in if nested us a \<or> \<not> app_matches n a \<and> found = [] then None
         else Some (a, if n \<noteq> [] then found else inside))"

definition any_chosen :: "app_picker \<Rightarrow> installed_app \<times> installed_app list \<Rightarrow> bool" where
  "any_chosen p r \<longleftrightarrow> list_ex (\<lambda>a. ia_package a \<in> set (ak_chosen p)) (fst r # snd r)"

definition picker_rows :: "app_picker \<Rightarrow> (installed_app \<times> installed_app list) list" where
  "picker_rows p =
     js_sort (\<lambda>r s. any_chosen p s \<longrightarrow> any_chosen p r) (List.map_filter (row_of (needle p) (usable p)) (usable p))"

definition row_unfolded :: "app_picker \<Rightarrow> installed_app \<times> installed_app list \<Rightarrow> bool" where
  "row_unfolded p r \<longleftrightarrow> snd r \<noteq> []
     \<and> (ia_package (fst r) \<in> set (ak_unfolded p) \<or> needle p \<noteq> []
        \<or> list_ex (\<lambda>a. ia_package a \<in> set (ak_chosen p)) (snd r))"

section \<open>Properties\<close>

interpretation chosen_first: comparator "\<lambda>r s. any_chosen p s \<longrightarrow> any_chosen p r" for p
  by unfold_locales auto

lemma set_picker_rows:
  "r \<in> set (picker_rows p) \<longleftrightarrow> (\<exists>a \<in> set (usable p). row_of (needle p) (usable p) a = Some r)"
  by (auto simp: picker_rows_def set_map_filter)

lemma mset_concat_js_sort: "mset (concat (map f (js_sort le xs))) = mset (concat (map f xs))"
proof -
  have "mset (concat (map f ys)) = (\<Sum>x\<in>#mset ys. mset (f x))" for ys by (induction ys) simp_all
  then show ?thesis by simp
qed

text \<open>Collecting by a key: what belongs to one of the keys is found once.\<close>

lemma mset_collect:
  assumes "distinct (map g as)"
  shows "mset (concat (map (\<lambda>a. filter (\<lambda>x. f x = g a) ys) as)) = mset (filter (\<lambda>x. f x \<in> g ` set as) ys)"
  using assms
proof (induction as)
  case (Cons a as)
  have "filter (\<lambda>x. f x \<in> g ` set (a # as)) ys = filter (\<lambda>x. f x = g a \<or> f x \<in> g ` set as) ys" by (simp add: eq_commute)
  also have "mset \<dots> = mset (filter (\<lambda>x. f x = g a) ys) + mset (filter (\<lambda>x. f x \<in> g ` set as) ys)"
    using Cons.prems by (induction ys) auto
  finally show ?case using Cons by simp
qed simp

lemma mset_concat_Cons: "mset (concat (map (\<lambda>a. a # f a) xs)) = mset xs + mset (concat (map f xs))"
  by (induction xs) simp_all

lemma top_not_nested: "a \<in> set us \<Longrightarrow> \<not> has_parent a \<Longrightarrow> \<not> nested us a \<and> ia_package a \<in> set (top_packages us)"
  by (simp add: nested_def top_packages_def)

lemma nested_parent:
  assumes "nested us b"
  shows "\<exists>a \<in> set us. \<not> nested us a \<and> ia_parent b = Some (ia_package a)"
proof -
  obtain k where k: "ia_parent b = Some k" "k \<in> set (top_packages us)"
    using assms by (cases "ia_parent b") (auto simp: nested_def has_parent_def)
  then obtain a where "a \<in> set us" "\<not> has_parent a" "k = ia_package a" by (auto simp: top_packages_def)
  then show ?thesis using k top_not_nested by blast
qed

lemma rows_partition:
  assumes "distinct (map ia_package us)"
  shows "mset (concat (map (\<lambda>a. a # children_of us a) (filter (\<lambda>a. \<not> nested us a) us))) = mset us"
proof -
  let ?tops = "filter (\<lambda>a. \<not> nested us a) us"
  let ?nested = "filter (nested us) us"
  have "distinct (map (\<lambda>a. Some (ia_package a)) ?tops)"
    using assms by (simp add: distinct_map inj_on_def)
  from mset_collect [OF this, of ia_parent ?nested]
  have "mset (concat (map (children_of us) ?tops))
      = mset (filter (\<lambda>x. ia_parent x \<in> (\<lambda>a. Some (ia_package a)) ` set ?tops) ?nested)"
    by (simp add: children_of_def [abs_def] conj_commute)
  also have "filter (\<lambda>x. ia_parent x \<in> (\<lambda>a. Some (ia_package a)) ` set ?tops) ?nested = ?nested"
    by (rule filter_True) (use nested_parent in fastforce)
  finally have "mset (concat (map (children_of us) ?tops)) = mset ?nested" .
  then show ?thesis by (simp add: mset_concat_Cons)
qed

text \<open>with nothing searched for, every application that may be shown is in the list exactly once, on
  its own or inside the one it is built into; the rows with a chosen application come first.\<close>

theorem picker_shows_each_app_once:
  assumes "needle p = []" "distinct (map ia_package (usable p))"
  shows "mset (concat (map (\<lambda>(a, inside). a # inside) (picker_rows p))) = mset (usable p)
    \<and> sorted_wrt (\<lambda>r s. any_chosen p s \<longrightarrow> any_chosen p r) (picker_rows p)"
proof
  let ?us = "usable p"
  have r: "row_of [] ?us = (\<lambda>a. if nested ?us a then None else Some (a, children_of ?us a))"
    by (auto simp: row_of_def app_matches_def Let_def)
  have m: "List.map_filter (\<lambda>a. if nested ?us a then None else Some (a, children_of ?us a)) xs
      = map (\<lambda>a. (a, children_of ?us a)) (filter (\<lambda>a. \<not> nested ?us a) xs)" for xs
    by (induction xs) (simp_all add: List.map_filter_simps)
  show "mset (concat (map (\<lambda>(a, inside). a # inside) (picker_rows p))) = mset ?us"
    using rows_partition [OF assms(2)]
    by (simp add: picker_rows_def mset_concat_js_sort assms(1) r m comp_def)
  show "sorted_wrt (\<lambda>r s. any_chosen p s \<longrightarrow> any_chosen p r) (picker_rows p)"
    unfolding picker_rows_def by (rule chosen_first.sorted_sort)
qed

definition sample_picker :: app_picker where
  "sample_picker =
     apps_loaded
       [\<lparr>ia_package = ''/A.app/H.app'', ia_label = ''Helper'', ia_system = False, ia_running = True, ia_parent = Some ''/A.app''\<rparr>,
        \<lparr>ia_package = ''/A.app'', ia_label = ''Teams'', ia_system = False, ia_running = True, ia_parent = None\<rparr>,
        \<lparr>ia_package = ''/S.app'', ia_label = ''Daemon'', ia_system = True, ia_running = True, ia_parent = None\<rparr>,
        \<lparr>ia_package = ''/Z.app'', ia_label = ''Zed'', ia_system = False, ia_running = False, ia_parent = None\<rparr>]
       (open_picker [''/Z.app'', ''curl''] (new_picker []))"

theorem picker_shows_each_app_once_witness:
  "mset (concat (map (\<lambda>(a, inside). a # inside) (picker_rows sample_picker))) = mset (usable sample_picker)
   \<and> map (ia_label \<circ> fst) (picker_rows sample_picker) = [''Zed'', ''Teams'']"
proof -
  have h: "needle sample_picker = []" "distinct (map ia_package (usable sample_picker))"
    "map (ia_label \<circ> fst) (picker_rows sample_picker) = [''Zed'', ''Teams'']" by code_simp+
  show ?thesis using picker_shows_each_app_once [OF h(1,2)] h(3) by blast
qed

text \<open>a search leaves out no application that matches it, and lists nothing for another reason: a row
  is there because its application matches or else holds only what matches.\<close>

theorem picker_search_exact:
  assumes "needle p \<noteq> []"
  shows "(\<forall>a \<in> set (usable p). app_matches (needle p) a \<longrightarrow> (\<exists>(b, inside) \<in> set (picker_rows p). a = b \<or> a \<in> set inside))
    \<and> (\<forall>(b, inside) \<in> set (picker_rows p). set (b # inside) \<subseteq> set (usable p)
        \<and> (app_matches (needle p) b \<or> inside \<noteq> [] \<and> list_all (app_matches (needle p)) inside))"
proof (intro conjI ballI impI)
  let ?us = "usable p" and ?n = "needle p"
  fix a assume a: "a \<in> set ?us" "app_matches ?n a"
  show "\<exists>(b, inside) \<in> set (picker_rows p). a = b \<or> a \<in> set inside"
  proof (cases "nested ?us a")
    case False
    then have "row_of ?n ?us a = Some (a, children_of ?us a)" using a by (simp add: row_of_def Let_def)
    then show ?thesis using a(1) set_picker_rows by fastforce
  next
    case True
    from nested_parent [OF this] obtain b where b: "b \<in> set ?us" "\<not> nested ?us b" "ia_parent a = Some (ia_package b)" by blast
    then have inside: "a \<in> set (children_of ?us b)" using a True by (simp add: children_of_def)
    define found where "found = (if app_matches ?n b then children_of ?us b else filter (app_matches ?n) (children_of ?us b))"
    have f: "a \<in> set found" using inside a(2) by (simp add: found_def)
    then have "row_of ?n ?us b = Some (b, found)" using b(2) assms by (auto simp: row_of_def Let_def found_def)
    then show ?thesis using b(1) f set_picker_rows by fastforce
  qed
next
  fix r assume "r \<in> set (picker_rows p)"
  then show "case r of (b, inside) \<Rightarrow> set (b # inside) \<subseteq> set (usable p)
        \<and> (app_matches (needle p) b \<or> inside \<noteq> [] \<and> list_all (app_matches (needle p)) inside)"
    using assms by (auto simp: set_picker_rows row_of_def children_of_def Let_def list_all_iff split: if_splits)
qed

theorem picker_search_exact_witness:
  "(\<forall>(b, inside) \<in> set (picker_rows (sample_picker\<lparr>ak_query := '' HELP ''\<rparr>)).
      app_matches ''help'' b \<or> inside \<noteq> [] \<and> list_all (app_matches ''help'') inside)
   \<and> map (\<lambda>(b, inside). (ia_label b, map ia_label inside)) (picker_rows (sample_picker\<lparr>ak_query := '' HELP ''\<rparr>))
      = [(''Teams'', [''Helper''])]"
proof -
  let ?p = "sample_picker\<lparr>ak_query := '' HELP ''\<rparr>"
  have h: "needle ?p = ''help''" "map (\<lambda>(b, inside). (ia_label b, map ia_label inside)) (picker_rows ?p) = [(''Teams'', [''Helper''])]"
    by code_simp+
  have "needle ?p \<noteq> []" using h(1) by simp
  from picker_search_exact [OF this] show ?thesis unfolding h by auto
qed

lemma toggle_in_mem: "y \<in> set (toggle_in xs x) \<longleftrightarrow> (y \<in> set xs) \<noteq> (y = x)"
  by (auto simp: toggle_in_def)

lemma toggle_in_distinct: "distinct xs \<Longrightarrow> distinct (toggle_in xs x)"
  by (simp add: toggle_in_def)

text \<open>C33: what is saved is what the rule had, with exactly the applications changed that were pressed an
  odd number of times; names that are no installed application stay, and nothing is listed twice.
  Whatever is chosen and installed can be seen in the list, the app itself and system programs included.\<close>

theorem picker_saves_presses:
  "let final = fold toggle_app presses (apps_loaded apps (open_picker values p)) in
    (v \<in> set (save_picker final)) = ((v \<in> set values) \<noteq> odd (count_list presses v))
    \<and> distinct (save_picker final)
    \<and> set (filter (\<lambda>a. ia_package a \<in> set (save_picker final)) apps) \<subseteq> set (usable final)"
proof -
  define final where "final = fold toggle_app presses (apps_loaded apps (open_picker values p))"
  have step: "ak_chosen (fold toggle_app presses q) = fold (\<lambda>x xs. toggle_in xs x) presses (ak_chosen q)
      \<and> ak_apps (fold toggle_app presses q) = ak_apps q" for q
    by (induction presses arbitrary: q) (simp_all add: toggle_app_def)
  have mem: "(v \<in> set (fold (\<lambda>x xs. toggle_in xs x) presses xs)) = ((v \<in> set xs) \<noteq> odd (count_list presses v))" for xs
    by (induction presses arbitrary: xs) (auto simp: toggle_in_mem)
  have dist: "distinct xs \<Longrightarrow> distinct (fold (\<lambda>x xs. toggle_in xs x) presses xs)" for xs
    by (induction presses arbitrary: xs) (simp_all add: toggle_in_distinct)
  have start: "ak_chosen (apps_loaded apps (open_picker values p)) = js_unique values"
    by (simp add: apps_loaded_def open_picker_def)
  have apps: "ak_apps final = Some apps" by (simp add: final_def step apps_loaded_def)
  have chosen: "ak_chosen final = fold (\<lambda>x xs. toggle_in xs x) presses (js_unique values)"
    by (simp add: final_def step start)
  have seen: "set (filter (\<lambda>a. ia_package a \<in> set (ak_chosen final)) apps) \<subseteq> set (usable final)"
    by (auto simp: usable_def apps)
  show ?thesis
    unfolding final_def [symmetric] Let_def save_picker_def
    using seen by (simp add: chosen mem dist)
qed

end
