(* ===== verification/Plugins_Panel.thy ===== *)
theory Plugins_Panel
  imports Plugin_Host Appearance_Store Settings_Screen
begin

text \<open>
  Installing and managing plugins: the list of plugins and what it hands to the host of their pages and
  to the appearance (components/plugins/plugins-provider.tsx), and the panel in the settings with the prompt
  that asks before an installation (components/settings/plugins.tsx).  \<open>t\<close> is the translation function.
\<close>

section \<open>What plugins bring\<close>

text \<open>A plugin's theme as the object handed to \<open>sanitizeTheme\<close>.\<close>

definition theme_object :: "plugin_theme \<Rightarrow> json" where
  "theme_object th =
     JObj ([(''id'', JStr (pt_id th)), (''name'', JStr (pt_name th)),
            (''mode'', JStr (if pt_light th then ''light'' else ''dark'')),
            (''background'', pt_background th), (''accent'', pt_accent th)]
           @ (case pt_image th of Some img \<Rightarrow> [(''image'', img)] | None \<Rightarrow> []))"

definition themes_of :: "plugin_info list \<Rightarrow> custom_theme list" where
  "themes_of ps =
     List.map_filter (\<lambda>th. sanitize_theme (theme_object th) PLUGIN_THEME_PREFIX)
       (concat (map pl_themes (filter pl_enabled ps)))"

definition fonts_of :: "plugin_info list \<Rightarrow> user_font list" where
  "fonts_of ps =
     map (\<lambda>f. \<lparr>uf_id = plugin_font.pf_id f, uf_name = plugin_font.pf_name f, uf_url = pf_url f\<rparr>)
       (concat (map pl_fonts (filter pl_enabled ps)))"

text \<open>The pages run out of sight: the identifier, version and address of each.\<close>

definition background_pages :: "plugin_info list \<Rightarrow> (string \<times> string \<times> string) list" where
  "background_pages ps =
     map (\<lambda>p. (pl_id p, pl_version p, or_else (pl_background p) []))
       (filter (\<lambda>p. pl_enabled p \<and> or_else (pl_background p) [] \<noteq> []) ps)"

text \<open>The list shown, the host of the pages and the look; \<open>list_plugins\<close> that fails changes nothing.\<close>

record plugins_state =
  ps_plugins :: "plugin_info list"
  ps_host :: host
  ps_look :: look

definition set_plugins :: "plugin_info list \<Rightarrow> 'a plugins_state_scheme \<Rightarrow> 'a plugins_state_scheme" where
  "set_plugins ps v =
     v\<lparr>ps_host := set_host_plugins ps (ps_host v), ps_plugins := ps,
       ps_look := set_plugin_content (themes_of ps) (fonts_of ps) (ps_look v)\<rparr>"

definition refreshed :: "plugin_info list option \<Rightarrow> 'a plugins_state_scheme \<Rightarrow> 'a plugins_state_scheme" where
  "refreshed ans v = (case ans of Some ps \<Rightarrow> set_plugins ps v | None \<Rightarrow> v)"

section \<open>What a plugin asks for\<close>

fun perm_label :: "plugin_permission \<Rightarrow> string" where
  "perm_label StatePerm = ''plugins.perm.state''"
| "perm_label ConnectionsPerm = ''plugins.perm.connections''"
| "perm_label ProfilesPerm = ''plugins.perm.profiles''"
| "perm_label ControlPerm = ''plugins.perm.control''"
| "perm_label ImportPerm = ''plugins.perm.import''"
| "perm_label RoutingPerm = ''plugins.perm.routing''"
| "perm_label NotificationsPerm = ''plugins.perm.notifications''"

definition perm_risky :: "plugin_permission \<Rightarrow> bool" where
  "perm_risky p \<longleftrightarrow> p = ImportPerm \<or> p = RoutingPerm"

text \<open>A line of the list: a permission (its text, whether it is marked risky, whether new), or a host.\<close>

datatype ask_line = PermLine plugin_permission string bool bool | HostLine string string | NothingLine string

definition permission_list :: "texts \<Rightarrow> plugin_permission list \<Rightarrow> string list \<Rightarrow> plugin_permission list option \<Rightarrow> ask_line list" where
  "permission_list t permissions network fresh =
     (if permissions = [] \<and> network = [] then [NothingLine (t ''plugins.perm.none'' None)]
      else map (\<lambda>p. PermLine p (t (perm_label p) None) (perm_risky p) (p \<in> set (or_else fresh []))) permissions
         @ map (\<lambda>h. HostLine h (t ''plugins.perm.network'' (Some [(''host'', TextParam h)]))) network)"

definition counted :: "texts \<Rightarrow> string \<Rightarrow> nat \<Rightarrow> string list" where
  "counted t key n = (if n = 0 then [] else [t key (Some [(''count'', NumParam (Fin (of_nat n)))])])"

definition plugin_contents :: "plugin_info \<Rightarrow> texts \<Rightarrow> string" where
  "plugin_contents p t =
     js_join ('' '' @ [CHR 0xC2, CHR 0xB7] @ '' '')
       (counted t ''plugins.has.themes'' (length (pl_themes p))
        @ counted t ''plugins.has.fonts'' (length (pl_fonts p))
        @ counted t ''plugins.has.routing'' (length (pl_routing p))
        @ (if or_else (pl_panel p) [] \<noteq> [] then [t ''plugins.has.panel'' None] else [])
        @ (if or_else (pl_background p) [] \<noteq> [] then [t ''plugins.has.background'' None] else []))"

section \<open>Installing\<close>

record plugin_preview =
  pv_token :: string
  pv_plugin :: plugin_info
  pv_installed :: "string option"
  pv_new :: "plugin_permission list"
  pv_script :: bool

definition updating :: "plugin_preview \<Rightarrow> bool" where
  "updating pv \<longleftrightarrow> or_else (pv_installed pv) [] \<noteq> []"

text \<open>The prompt: the version it would install, the lines of what it asks, and the warning about scripts.\<close>

definition install_prompt :: "texts \<Rightarrow> plugin_preview \<Rightarrow> string \<times> ask_line list \<times> string option \<times> string" where
  "install_prompt t pv =
     (let p = pv_plugin pv in
      (if updating pv
       then t ''plugins.install.update'' (Some [(''from'', TextParam (or_else (pv_installed pv) [])), (''to'', TextParam (pl_version p))])
       else t ''plugins.install.version'' (Some [(''version'', TextParam (pl_version p))]),
       permission_list t (pl_permissions p) (pl_network p) (if updating pv then Some (pv_new pv) else None),
       (if pv_script pv then Some (t ''plugins.install.script'' None) else None),
       t (if updating pv then ''plugins.install.updateAction'' else ''plugins.install.action'') None))"

datatype panel_toast = PanelError string | PanelSuccess string

record plugins_panel = plugins_state +
  pp_preview :: "plugin_preview option"
  pp_busy :: bool
  pp_toasts :: "panel_toast list"

definition toast :: "panel_toast \<Rightarrow> plugins_panel \<Rightarrow> plugins_panel" where
  "toast x v = v\<lparr>pp_toasts := pp_toasts v @ [x]\<rparr>"

text \<open>\<open>pick_plugin\<close>: nothing chosen reads as no preview or one without a token.\<close>

definition picked :: "string + plugin_preview option \<Rightarrow> plugins_panel \<Rightarrow> plugins_panel" where
  "picked ans v =
     (case ans of
        Inl e \<Rightarrow> toast (PanelError e) v
      | Inr None \<Rightarrow> v
      | Inr (Some pv) \<Rightarrow> if pv_token pv \<noteq> [] then v\<lparr>pp_preview := Some pv\<rparr> else v)"

text \<open>The token the service is asked to install; pressed while busy nothing is asked.\<close>

definition press_install :: "plugins_panel \<Rightarrow> plugins_panel \<times> string option" where
  "press_install v =
     (case pp_preview v of
        Some pv \<Rightarrow> if pp_busy v then (v, None) else (v\<lparr>pp_busy := True\<rparr>, Some (pv_token pv))
      | None \<Rightarrow> (v, None))"

definition cancel_install :: "plugins_panel \<Rightarrow> plugins_panel" where
  "cancel_install v = (if pp_busy v then v else v\<lparr>pp_preview := None\<rparr>)"

text \<open>The answer to the installation: an error, or the plugin's name and then the list read again.\<close>

definition install_answered :: "texts \<Rightarrow> string + string \<times> plugin_info list option \<Rightarrow> plugins_panel \<Rightarrow> plugins_panel" where
  "install_answered t ans v =
     (case ans of
        Inl e \<Rightarrow> (toast (PanelError e) v)\<lparr>pp_busy := False\<rparr>
      | Inr (name, again) \<Rightarrow>
          (let key = (case pp_preview v of Some pv \<Rightarrow> if updating pv then ''plugins.updated'' else ''plugins.installed''
                      | None \<Rightarrow> ''plugins.installed'');
               w = refreshed again v
           in (toast (PanelSuccess (t key (Some [(''name'', TextParam name)]))) w)\<lparr>pp_preview := None, pp_busy := False\<rparr>))"

section \<open>A plugin's card\<close>

record plugin_card =
  pc_open :: bool
  pc_confirm :: bool
  pc_busy :: bool

definition new_card :: plugin_card where
  "new_card = \<lparr>pc_open = False, pc_confirm = False, pc_busy = False\<rparr>"

datatype card_call = SetEnabled string bool | RemovePlugin string

definition press_toggle :: "plugin_info \<Rightarrow> bool \<Rightarrow> plugin_card \<Rightarrow> plugin_card \<times> card_call option" where
  "press_toggle p enabled c = (if pc_busy c then (c, None) else (c\<lparr>pc_busy := True\<rparr>, Some (SetEnabled (pl_id p) enabled)))"

definition press_remove :: "plugin_card \<Rightarrow> plugin_card" where
  "press_remove c = (if pc_open c \<and> \<not> pc_busy c then c\<lparr>pc_confirm := True\<rparr> else c)"

definition cancel_remove :: "plugin_card \<Rightarrow> plugin_card" where
  "cancel_remove c = c\<lparr>pc_confirm := False\<rparr>"

definition confirm_remove :: "plugin_info \<Rightarrow> plugin_card \<Rightarrow> plugin_card \<times> card_call option" where
  "confirm_remove p c =
     (if pc_confirm c then (c\<lparr>pc_confirm := False, pc_busy := True\<rparr>, Some (RemovePlugin (pl_id p))) else (c, None))"

definition toggle_answered :: "string + plugin_info list \<Rightarrow> plugin_card \<times> plugins_panel \<Rightarrow> plugin_card \<times> plugins_panel" where
  "toggle_answered ans s =
     (case s of (c, v) \<Rightarrow>
        (c\<lparr>pc_busy := False\<rparr>,
         case ans of
           Inl e \<Rightarrow> toast (PanelError e) v
         | Inr ps \<Rightarrow> set_plugins ps v))"

definition remove_answered ::
  "texts \<Rightarrow> plugin_info \<Rightarrow> string + plugin_info list option \<Rightarrow> plugin_card \<times> plugins_panel \<Rightarrow> plugin_card \<times> plugins_panel" where
  "remove_answered t p ans s =
     (case s of (c, v) \<Rightarrow>
        (c\<lparr>pc_busy := False\<rparr>,
         case ans of
           Inl e \<Rightarrow> toast (PanelError e) v
         | Inr again \<Rightarrow>
             toast (PanelSuccess (t ''plugins.removed'' (Some [(''name'', TextParam (pl_name p))])))
               (refreshed again v)))"

text \<open>The page shown under the card: its address and title.\<close>

definition card_page :: "plugin_info \<Rightarrow> (string \<times> string) option" where
  "card_page p =
     (if pl_enabled p \<and> or_else (pl_panel p) [] \<noteq> []
      then Some (or_else (pl_panel p) [], if or_else (pl_panel_title p) [] \<noteq> [] then or_else (pl_panel_title p) [] else pl_name p)
      else None)"

section \<open>Properties\<close>

text \<open>what plugins bring to the theme picker comes from enabled plugins alone; every theme is within the
  ranges of the editor and can be told from the user's own by its identifier.\<close>

theorem plugin_themes_safe:
  "list_all (\<lambda>th. theme_ok th \<and> js_starts_with (ct_id th) PLUGIN_THEME_PREFIX) (themes_of ps)
   \<and> themes_of ps = themes_of (filter pl_enabled ps) \<and> fonts_of ps = fonts_of (filter pl_enabled ps)
   \<and> themes_of (map (\<lambda>p. p\<lparr>pl_enabled := False\<rparr>) ps) = [] \<and> fonts_of (map (\<lambda>p. p\<lparr>pl_enabled := False\<rparr>) ps) = []"
  using sanitize_theme_ok
  by (fastforce simp: themes_of_def fonts_of_def list_all_iff set_map_filter comp_def List.map_filter_simps)

lemma sub_fresh: "p \<in> set (or_else (if b then Some xs else None) []) \<longleftrightarrow> b \<and> p \<in> set xs"
  by simp

text \<open>the prompt lists every permission and every host the plugin would be given, marks the risky ones
  and, for an update, exactly those it did not have before; it says that nothing is asked only where
  nothing is; and a plugin is installed only from a prompt that was shown, under its own token.\<close>

theorem install_prompt_tells_all:
  "let p = pv_plugin pv; ls = fst (snd (install_prompt t pv)) in
    (\<forall>perm. perm \<in> set (pl_permissions p) \<longleftrightarrow>
        PermLine perm (t (perm_label perm) None) (perm_risky perm) (updating pv \<and> perm \<in> set (pv_new pv)) \<in> set ls)
    \<and> (\<forall>h. h \<in> set (pl_network p) \<longleftrightarrow> HostLine h (t ''plugins.perm.network'' (Some [(''host'', TextParam h)])) \<in> set ls)
    \<and> ((\<exists>x. NothingLine x \<in> set ls) \<longleftrightarrow> pl_permissions p = [] \<and> pl_network p = [])
    \<and> (snd (press_install v) = Some token \<longrightarrow> (\<exists>shown. pp_preview v = Some shown \<and> token = pv_token shown))"
  by (auto simp: install_prompt_def permission_list_def press_install_def Let_def split: option.splits if_splits)

definition sample_extension :: plugin_info where
  "sample_extension =
     \<lparr>pl_id = ''p'', pl_name = ''P'', pl_version = ''1'', pl_author = None, pl_description = None, pl_homepage = None,
      pl_icon = None, pl_enabled = True, pl_permissions = [StatePerm], pl_network = [], pl_themes = [], pl_fonts = [],
      pl_routing = [], pl_panel = None, pl_panel_title = None, pl_background = None\<rparr>"

definition sample_preview :: plugin_preview where
  "sample_preview = \<lparr>pv_token = ''t'', pv_plugin = sample_extension, pv_installed = None, pv_new = [], pv_script = False\<rparr>"

definition sample_panel :: plugins_panel where
  "sample_panel =
     \<lparr>ps_plugins = [], ps_host = \<lparr>ho_frames = [], ho_plugins = [], ho_actions = None, ho_last_toast = [], ho_last_notify = []\<rparr>,
      ps_look = opened_look, pp_preview = Some sample_preview, pp_busy = False, pp_toasts = []\<rparr>"

theorem install_prompt_tells_all_witness:
  "\<exists>shown. pp_preview sample_panel = Some shown \<and> pv_token sample_preview = pv_token shown"
proof -
  have "snd (press_install sample_panel) = Some (pv_token sample_preview)" by (simp add: press_install_def sample_panel_def)
  then show ?thesis using install_prompt_tells_all [of sample_preview "\<lambda>k ps. k" sample_panel "pv_token sample_preview"] by (simp add: Let_def)
qed

lemma host_plugin_in: "om_get (ho_plugins (set_host_plugins ps h)) i = Some p \<Longrightarrow> p \<in> set ps \<and> pl_id p = i"
  using om.foldl_put_last [where key = pl_id and val = "\<lambda>p. p" and m = "[]" and xs = ps and k = i]
  by (auto simp: set_host_plugins_def om_get_empty dest!: find_Some_in split: option.splits)



end
