(* ===== verification/First_Start.thy ===== *)
theory First_Start
  imports Dialogs Theme_Presets Ansi App_Hooks
begin

text \<open>
  The first start (components/Welcome.tsx), signing in to a server of one's own (components/Onboarding.tsx),
  and the page of the log (components/views/LogsView.tsx).  What the service is asked and answers is a
  parameter; \<open>t\<close> is the translation function.
\<close>

section \<open>Welcome\<close>

definition STARTER_THEMES :: "string list" where
  "STARTER_THEMES = [''light'', ''paper'', ''frost'', ''dark'', ''slate'', ''stone'', ''cosmos'', ''violet'',
     ''emerald'', ''rose'', ''mocha'']"

definition STEPS :: nat where
  "STEPS = 4"

definition NAV_CHOICES :: "(string \<times> string) list" where
  "NAV_CHOICES =
     [(''bottom'', ''appearance.layout.navPosition.bottom''), (''top'', ''appearance.layout.navPosition.top''),
      (''sidebar-left'', ''appearance.layout.navPosition.sidebarLeft''),
      (''sidebar-right'', ''appearance.layout.navPosition.sidebarRight'')]"

record first_start =
  we_step :: nat
  we_link :: string
  we_adding :: bool
  we_error :: string

definition new_welcome :: first_start where
  "new_welcome = \<lparr>we_step = 0, we_link = [], we_adding = False, we_error = []\<rparr>"

definition welcome_next :: "first_start \<Rightarrow> first_start" where
  "welcome_next v = v\<lparr>we_step := min (STEPS - 1) (we_step v + 1)\<rparr>"

definition welcome_back :: "first_start \<Rightarrow> first_start" where
  "welcome_back v = v\<lparr>we_step := we_step v - 1\<rparr>"

text \<open>The clipboard's text; none where reading it is refused.\<close>

definition welcome_paste :: "string option \<Rightarrow> first_start \<Rightarrow> first_start" where
  "welcome_paste clip v = (case clip of Some (c # cs) \<Rightarrow> v\<lparr>we_link := js_trim (c # cs)\<rparr> | _ \<Rightarrow> v)"

definition welcome_add :: "texts \<Rightarrow> first_start \<Rightarrow> first_start \<times> add_job option" where
  "welcome_add t v =
     (let link = js_trim (we_link v) in
      if link = [] then (v, None)
      else (v\<lparr>we_adding := True, we_error := []\<rparr>,
            Some (if is_subscription (we_link v) then ImportUrl link
                  else SaveLink (t (if js_starts_with link ''{'' then ''add.defaultJsonName'' else ''add.defaultName'') None) link)))"

definition welcome_added :: "string option \<Rightarrow> first_start \<Rightarrow> first_start" where
  "welcome_added failure v =
     (case failure of
        None \<Rightarrow> v\<lparr>we_link := [], we_adding := False\<rparr>
      | Some e \<Rightarrow> v\<lparr>we_error := e, we_adding := False\<rparr>)"

text \<open>The themes offered, of those that exist.\<close>

definition starter_presets :: "theme_preset list" where
  "starter_presets = List.map_filter (\<lambda>i. find (\<lambda>p. tp_id p = i) THEME_PRESETS) STARTER_THEMES"

definition phone :: "string \<Rightarrow> bool" where
  "phone platform \<longleftrightarrow> platform = ''android'' \<or> platform = ''ios''"

definition nav_offered :: "string \<Rightarrow> (string \<times> string) list" where
  "nav_offered platform = (if phone platform then [] else NAV_CHOICES)"

definition preferences :: "string \<Rightarrow> control list" where
  "preferences platform =
     (if phone platform then []
      else [Toggle ''behaviour.launch'' ''behaviour.launch.description'' launch_at_startup (\<lambda>b. launch_at_startup_update (\<lambda>_. b))])
     @ [Toggle ''behaviour.autoConnect'' ''behaviour.autoConnect.description'' auto_connect (\<lambda>b. auto_connect_update (\<lambda>_. b)),
        Toggle ''behaviour.autoReconnect'' ''behaviour.autoReconnect.description'' (\<lambda>s. on_unless_off (auto_reconnect s))
          (\<lambda>b. auto_reconnect_update (\<lambda>_. Some b)),
        Toggle ''behaviour.killSwitch'' ''behaviour.killSwitch.description'' kill_switch (\<lambda>b. kill_switch_update (\<lambda>_. b))]"

text \<open>The button that leads on, by step and number of servers; the last one finishes.\<close>

datatype welcome_button = LaterButton | StartButton | ContinueButton | FinishButton

definition onward_button :: "nat \<Rightarrow> first_start \<Rightarrow> welcome_button" where
  "onward_button n v =
     (if we_step v = 2 \<and> n = 0 then LaterButton
      else if we_step v < STEPS - 1 then (if we_step v = 0 then StartButton else ContinueButton)
      else FinishButton)"

definition add_button :: "texts \<Rightarrow> first_start \<Rightarrow> string" where
  "add_button t v =
     t (if is_subscription (we_link v) \<or> js_trim (we_link v) = [] then ''add.importSubscription'' else ''add.addProfile'') None"

text \<open>Finishing marks the first start as done and opens the connect screen.\<close>

definition finish_welcome :: "app_settings \<Rightarrow> app_settings \<times> string" where
  "finish_welcome s = (s\<lparr>skip_auth := True\<rparr>, ''connection'')"

section \<open>Signing in\<close>

record onboarding =
  ob_step :: nat
  ob_server :: string
  ob_username :: string
  ob_password :: string
  ob_registering :: bool
  ob_error :: string
  ob_notice :: string
  ob_loading :: bool

definition new_onboarding :: onboarding where
  "new_onboarding = \<lparr>ob_step = 0, ob_server = [], ob_username = [], ob_password = [], ob_registering = False,
     ob_error = [], ob_notice = [], ob_loading = False\<rparr>"

definition check_server :: "texts \<Rightarrow> onboarding \<Rightarrow> onboarding" where
  "check_server t v =
     (let url = js_trim (ob_server v) in
      if url = [] then v\<lparr>ob_error := t ''onboarding.serverRequired'' None, ob_loading := False\<rparr>
      else if js_starts_with url ''http'' then v\<lparr>ob_error := [], ob_step := 1, ob_loading := False\<rparr>
      else v\<lparr>ob_error := [], ob_server := ''http://'' @ url, ob_step := 1, ob_loading := False\<rparr>)"

definition toggle_register :: "onboarding \<Rightarrow> onboarding" where
  "toggle_register v = v\<lparr>ob_registering := \<not> ob_registering v, ob_error := [], ob_notice := []\<rparr>"

definition back_to_server :: "onboarding \<Rightarrow> onboarding" where
  "back_to_server v = v\<lparr>ob_step := 0\<rparr>"

text \<open>
  What the service answers: \<open>Inl\<close> is the text of a rejection.  \<open>au_profiles\<close> is the number of servers
  it holds, \<open>au_pull\<close> whether fetching those of the account worked.
\<close>

record auth_service =
  au_register :: "string \<Rightarrow> string \<Rightarrow> string \<Rightarrow> string + unit"
  au_login :: "string \<Rightarrow> string \<Rightarrow> string \<Rightarrow> string + string"
  au_profiles :: "string + nat"
  au_pull :: "app_settings \<Rightarrow> bool"
  au_save :: "app_settings \<Rightarrow> string + unit"

text \<open>What it leads to: the settings handed to the window, a notice to restart, the end of signing in.\<close>

datatype auth_effect = SettingsChanged app_settings | RestartToUpload | PulledProfiles | Completed

definition auth_failed :: "texts \<Rightarrow> string \<Rightarrow> onboarding \<Rightarrow> onboarding" where
  "auth_failed t e v = v\<lparr>ob_error := (if e \<noteq> [] then e else t ''onboarding.failed'' None), ob_loading := False\<rparr>"

definition handle_auth :: "texts \<Rightarrow> auth_service \<Rightarrow> app_settings \<Rightarrow> onboarding \<Rightarrow> onboarding \<times> auth_effect list" where
  "handle_auth t svc s v0 =
     (let v = v0\<lparr>ob_error := [], ob_notice := []\<rparr> in
      if ob_registering v then
        (case au_register svc (ob_server v) (ob_username v) (ob_password v) of
           Inl e \<Rightarrow> (auth_failed t e v, [])
         | Inr _ \<Rightarrow> (v\<lparr>ob_registering := False, ob_notice := t ''onboarding.registered'' None, ob_loading := False\<rparr>, []))
      else
        (case au_login svc (ob_server v) (ob_username v) (ob_password v) of
           Inl e \<Rightarrow> (auth_failed t e v, [])
         | Inr [] \<Rightarrow> (v\<lparr>ob_loading := False\<rparr>, [])
         | Inr (c # cs) \<Rightarrow>
             (let s1 = s\<lparr>auth_server := Some (ob_server v), auth_token := Some (c # cs), skip_auth := False\<rparr> in
              case au_profiles svc of
                Inl e \<Rightarrow> (auth_failed t e v, [])
              | Inr n \<Rightarrow>
                  (let s2 = (if 0 < n then s1\<lparr>pending_sync_upload := True\<rparr> else s1);
                       pulled = (if 0 < n \<or> \<not> au_pull svc s2 then [] else [PulledProfiles]) in
                   case au_save svc s2 of
                     Inl e \<Rightarrow> (auth_failed t e v, pulled)
                   | Inr _ \<Rightarrow>
                       (v\<lparr>ob_loading := False\<rparr>,
                        pulled @ [SettingsChanged s2] @ (if 0 < n then [RestartToUpload] else []) @ [Completed])))))"

text \<open>Skipping goes on even where it cannot be saved.\<close>

definition handle_skip :: "auth_service \<Rightarrow> app_settings \<Rightarrow> onboarding \<Rightarrow> onboarding \<times> auth_effect list" where
  "handle_skip svc s v =
     (v\<lparr>ob_loading := False\<rparr>,
      (case au_save svc (s\<lparr>skip_auth := True\<rparr>) of Inr _ \<Rightarrow> [SettingsChanged (s\<lparr>skip_auth := True\<rparr>)] | Inl _ \<Rightarrow> []) @ [Completed])"

section \<open>The log\<close>

datatype log_tone = ErrorTone | WarningTone | MutedTone

definition tone_for :: "string \<Rightarrow> log_tone" where
  "tone_for line =
     (let plain = strip_ansi line in
      if js_starts_with plain ''ERROR'' \<or> js_starts_with plain ''FATAL'' \<or> js_starts_with plain ''PANIC'' then ErrorTone
      else if js_starts_with plain ''WARN'' then WarningTone else MutedTone)"

text \<open>A line as shown: its tone and its pieces, with the style of those that have one.\<close>

definition log_line :: "string \<Rightarrow> log_tone \<times> (string \<times> (string option \<times> bool) option) list" where
  "log_line line =
     (tone_for line,
      map (\<lambda>sg. (sg_text sg,
             if or_else (sg_color sg) [] \<noteq> [] \<or> sg_bold sg = Some True then Some (sg_color sg, sg_bold sg = Some True) else None))
        (parse_ansi line))"

text \<open>Following the end: \<open>lv_pinned\<close> until the reader scrolls up by forty pixels or more.\<close>

record log_view =
  lv_top :: int
  lv_pinned :: bool

definition lines_came :: "int \<Rightarrow> int \<Rightarrow> log_view \<Rightarrow> log_view" where
  "lines_came tall window v = (if lv_pinned v then v\<lparr>lv_top := max 0 (tall - window)\<rparr> else v)"

definition log_scrolled :: "int \<Rightarrow> int \<Rightarrow> int \<Rightarrow> log_view \<Rightarrow> log_view" where
  "log_scrolled tall window y v = v\<lparr>lv_top := y, lv_pinned := tall - y - window < 40\<rparr>"

definition activity_pages :: "(string \<times> string) list" where
  "activity_pages = [(''statistics'', ''stats.title''), (''connections'', ''connections.title''), (''logs'', ''logs.title'')]"

section \<open>Properties\<close>

text \<open>three presses reach the last step from anywhere and the steps never leave their range; a step can
  always be gone back, and adding is never needed to go on.\<close>

theorem welcome_can_be_skipped:
  "(we_step v < STEPS \<longrightarrow> we_step (welcome_next v) < STEPS \<and> we_step (welcome_back v) < STEPS)
   \<and> (we_step v < STEPS \<longrightarrow> onward_button n ((welcome_next ^^ 3) v) = FinishButton)
   \<and> (we_step v < STEPS - 1 \<longrightarrow> onward_button n v \<noteq> FinishButton \<and> we_step (welcome_back (welcome_next v)) = we_step v)
   \<and> skip_auth (fst (finish_welcome s))"
  by (auto simp: welcome_next_def welcome_back_def STEPS_def onward_button_def finish_welcome_def numeral_3_eq_3)

theorem welcome_can_be_skipped_witness:
  "onward_button 0 ((welcome_next ^^ 3) new_welcome) = FinishButton"
  using welcome_can_be_skipped [of new_welcome 0] by (simp add: new_welcome_def STEPS_def)

text \<open>every theme offered at the first start exists, and they are offered in their order.\<close>

theorem starter_themes_exist: "map tp_id starter_presets = STARTER_THEMES"
  by code_simp

text \<open>signing in that succeeds stores the token with the server asked and sets nothing else but the mark
  that servers of this device are still to be uploaded; where a step before that fails nothing is stored.\<close>

theorem sign_in_stores_token:
  assumes "handle_auth t svc s v = (w, es)"
  shows "\<forall>s'. SettingsChanged s' \<in> set es \<longrightarrow>
      (\<exists>token n. au_login svc (ob_server v) (ob_username v) (ob_password v) = Inr token \<and> token \<noteq> [] \<and> \<not> ob_registering v
         \<and> au_profiles svc = Inr n \<and> au_save svc s' = Inr ()
         \<and> s' = s\<lparr>auth_server := Some (ob_server v), auth_token := Some token, skip_auth := False,
                   pending_sync_upload := (if 0 < n then True else pending_sync_upload s)\<rparr>
         \<and> List.last es = Completed \<and> ob_error w = [])"
proof (intro allI impI)
  fix s' assume changed: "SettingsChanged s' \<in> set es"
  define v1 where "v1 = v\<lparr>ob_error := [], ob_notice := []\<rparr>"
  have same: "ob_server v1 = ob_server v" "ob_username v1 = ob_username v" "ob_password v1 = ob_password v"
    "ob_registering v1 = ob_registering v" by (simp_all add: v1_def)
  note run = assms [unfolded handle_auth_def Let_def v1_def [symmetric]]
  have reg: "\<not> ob_registering v" using run changed by (cases "au_register svc (ob_server v) (ob_username v) (ob_password v)") (auto simp: v1_def)
  then obtain token where login: "au_login svc (ob_server v) (ob_username v) (ob_password v) = Inr token" "token \<noteq> []"
    using run changed by (auto simp: v1_def split: sum.splits list.splits)
  define s1 where "s1 = s\<lparr>auth_server := Some (ob_server v), auth_token := Some token, skip_auth := False\<rparr>"
  obtain c cs where token: "token = c # cs" using login(2) by (cases token) auto
  obtain n where n: "au_profiles svc = Inr n"
    using run changed reg login token by (cases "au_profiles svc") (auto simp: v1_def)
  define s2 where "s2 = (if 0 < n then s1\<lparr>pending_sync_upload := True\<rparr> else s1)"
  have rest: "(case au_save svc s2 of
        Inl e \<Rightarrow> (auth_failed t e v1, if 0 < n \<or> \<not> au_pull svc s2 then [] else [PulledProfiles])
      | Inr _ \<Rightarrow> (v1\<lparr>ob_loading := False\<rparr>, (if 0 < n \<or> \<not> au_pull svc s2 then [] else [PulledProfiles])
          @ [SettingsChanged s2] @ (if 0 < n then [RestartToUpload] else []) @ [Completed])) = (w, es)"
    using run [unfolded same] reg login(1) [unfolded token] n unfolding s2_def s1_def token by (simp split del: if_split)
  obtain u where save: "au_save svc s2 = Inr u" using rest changed by (cases "au_save svc s2") (auto split: if_splits)
  have es: "s' = s2" "List.last es = Completed" "ob_error w = []" using rest changed save by (auto simp: v1_def split: if_splits)
  show "\<exists>token n. au_login svc (ob_server v) (ob_username v) (ob_password v) = Inr token \<and> token \<noteq> [] \<and> \<not> ob_registering v
         \<and> au_profiles svc = Inr n \<and> au_save svc s' = Inr ()
         \<and> s' = s\<lparr>auth_server := Some (ob_server v), auth_token := Some token, skip_auth := False,
                   pending_sync_upload := (if 0 < n then True else pending_sync_upload s)\<rparr>
         \<and> List.last es = Completed \<and> ob_error w = []"
    using reg login n save es by (intro exI [of _ token] exI [of _ n]) (simp add: s2_def s1_def)
qed

definition sample_service :: auth_service where
  "sample_service = \<lparr>au_register = (\<lambda>_ _ _. Inr ()), au_login = (\<lambda>_ _ _. Inr ''token''), au_profiles = Inr 2,
     au_pull = (\<lambda>_. True), au_save = (\<lambda>_. Inr ())\<rparr>"

theorem sign_in_stores_token_witness:
  "\<exists>s'. SettingsChanged s' \<in> set (snd (handle_auth plain_texts sample_service s new_onboarding)) \<and> auth_token s' = Some ''token''"
proof -
  let ?s = "s\<lparr>auth_server := Some [], auth_token := Some ''token'', skip_auth := False, pending_sync_upload := True\<rparr>"
  have "SettingsChanged ?s \<in> set (snd (handle_auth plain_texts sample_service s new_onboarding))"
    by (simp add: handle_auth_def sample_service_def new_onboarding_def Let_def)
  moreover from this have "auth_token ?s = Some ''token''"
    using sign_in_stores_token [OF surjective_pairing, of plain_texts sample_service s new_onboarding] by simp
  ultimately show ?thesis by blast
qed

text \<open>an address without a scheme is given one, but only where it does not begin with the letters http: the
  name of a host that does is taken as it is, and so is white space around an address with a scheme.\<close>

theorem host_named_http_gets_no_scheme:
  assumes "js_trim (ob_server v) \<noteq> []"
  shows "ob_step (check_server t v) = 1
    \<and> ob_server (check_server t v)
        = (if js_starts_with (js_trim (ob_server v)) ''http'' then ob_server v else ''http://'' @ js_trim (ob_server v))
    \<and> (js_trim (''httpd'' @ h) = ''httpd'' @ h \<longrightarrow> ob_server (check_server t (v\<lparr>ob_server := ''httpd'' @ h\<rparr>)) = ''httpd'' @ h)"
  using assms by (auto simp: check_server_def Let_def js_starts_with_def)

theorem host_named_http_gets_no_scheme_witness:
  "ob_server (check_server plain_texts (new_onboarding\<lparr>ob_server := '' vpn.example ''\<rparr>)) = ''http://vpn.example''
   \<and> ob_server (check_server plain_texts (new_onboarding\<lparr>ob_server := ''httpd.example''\<rparr>)) = ''httpd.example''"
proof -
  let ?v = "new_onboarding\<lparr>ob_server := '' vpn.example ''\<rparr>"
  have h: "js_trim (ob_server ?v) = ''vpn.example''" "js_trim (''httpd'' @ ''.example'') = ''httpd'' @ ''.example''" by code_simp+
  then show ?thesis using host_named_http_gets_no_scheme [of ?v plain_texts "''.example''"] by (simp add: js_starts_with_def)
qed

text \<open>The pieces of a log line together are its text without the escape sequences.\<close>

lemma log_line_text: "concat (map fst (snd (log_line line))) = strip_ansi line"
  using parse_run_texts [of "\<lparr>as_color = None, as_bold = False\<rparr>" "[]" line]
  by (simp add: log_line_def parse_ansi_def comp_def)

text \<open>the log follows its end until scrolled up, and again once scrolled back down.\<close>

theorem log_follows_end:
  assumes "0 \<le> window" "window \<le> tall"
  shows "lv_top (lines_came tall' window (log_scrolled tall window (tall - window) v)) = max 0 (tall' - window)
    \<and> (y \<le> tall - window - 40 \<longrightarrow> lv_top (lines_came tall' window (log_scrolled tall window y v)) = y)"
  by (simp add: lines_came_def log_scrolled_def)

theorem log_follows_end_witness:
  "lv_top (lines_came 900 300 (log_scrolled 800 300 500 \<lparr>lv_top = 0, lv_pinned = True\<rparr>)) = 600"
  using log_follows_end [of 300 800 900 "\<lparr>lv_top = 0, lv_pinned = True\<rparr>" 0] by simp

end
