(* ===== verification/Routing_Page.thy ===== *)
theory Routing_Page
  imports Session_State Settings_Screen Routing_Values Routing_History
begin

text \<open>
  The rest of the routing page (\<open>RoutingView\<close> and its \<open>Palette\<close>, \<open>GeoPanel\<close> and
  \<open>GeoOfferBanner\<close> in \<open>frontend/src/components/views/RoutingView.tsx\<close>): destinations hidden
  from the canvas, what the palette offers, how nodes are rebuilt under a gesture, the view that is
  remembered, the keys, live counts, rule lists and geo files, and loading a routing file with the
  offer to undo it.
\<close>

section \<open>Hidden destinations\<close>

text \<open>\<open>useHiddenActions\<close>: the list and what the storage holds, \<open>None\<close> where nothing readable is stored.\<close>

record hidden_actions =
  hd_actions :: "routing_action list"
  hd_stored :: "json option"

definition hideable_of :: "json \<Rightarrow> routing_action option" where
  "hideable_of j = (case j of JStr s \<Rightarrow> find (\<lambda>a. action_slug a = s) HIDEABLE_ACTIONS | _ \<Rightarrow> None)"

definition load_hidden :: "json option \<Rightarrow> routing_action list" where
  "load_hidden saved = (case saved of Some (JArr xs) \<Rightarrow> List.map_filter hideable_of xs | _ \<Rightarrow> [])"

definition opened_hidden :: "json option \<Rightarrow> hidden_actions" where
  "opened_hidden saved = \<lparr>hd_actions = load_hidden saved, hd_stored = saved\<rparr>"

definition update_hidden :: "bool \<Rightarrow> routing_action list \<Rightarrow> hidden_actions \<Rightarrow> hidden_actions" where
  "update_hidden storable next h =
     \<lparr>hd_actions = next,
      hd_stored = (if storable then Some (JArr (map (\<lambda>a. JStr (action_slug a)) next)) else hd_stored h)\<rparr>"

definition hide_action :: "bool \<Rightarrow> routing_action \<Rightarrow> hidden_actions \<Rightarrow> hidden_actions" where
  "hide_action storable a h = update_hidden storable (filter (\<lambda>x. x \<noteq> a) (hd_actions h) @ [a]) h"

definition show_action :: "bool \<Rightarrow> routing_action \<Rightarrow> hidden_actions \<Rightarrow> hidden_actions" where
  "show_action storable a h = update_hidden storable (filter (\<lambda>x. x \<noteq> a) (hd_actions h)) h"

text \<open>A hidden destination something goes to is on the canvas regardless, so it is not offered.\<close>

definition offered_actions :: "app_settings \<Rightarrow> hidden_actions \<Rightarrow> routing_action list" where
  "offered_actions s h =
     filter (\<lambda>a. a \<noteq> default_action s \<and> (\<forall>r \<in> set (routing_rules s). rr_action r \<noteq> Some a)) (hd_actions h)"

section \<open>The palette\<close>

definition SOURCE_KINDS :: "routing_kind list" where
  "SOURCE_KINDS =
     [Single Apps, Single Domains, Single Ip, Single Port, Single Protocol, Single Network, Single Geosite,
      Single Geoip, Single Ruleset, Logical]"

text \<open>The buttons for sources: the kind, its text, whether it is switched off and why.\<close>

definition source_buttons :: "texts \<Rightarrow> bool \<Rightarrow> string \<Rightarrow> (routing_kind \<times> string \<times> bool \<times> string option) list" where
  "source_buttons t is_android core =
     map (\<lambda>kind. let skipped = kind = Single Protocol \<and> core = ''mihomo'' in
       (kind, t (sm_label (kind_meta is_android kind)) None, skipped,
        if skipped then Some (t ''core.mihomo.limit.protocol'' None) else None)) SOURCE_KINDS"

definition catch_all_buttons :: "texts \<Rightarrow> routing_action \<Rightarrow> (routing_action \<times> bool \<times> string \<times> string \<times> string option) list" where
  "catch_all_buttons t chosen =
     map (\<lambda>a. let name = t (am_label (ACTION_META a)) None in
       (a, chosen = a, t ''routing.sendUnmatched'' (Some [(''action'', TextParam name)]), name,
        if chosen = a then Some (t ''routing.default'' None) else None)) ACTIONS"

definition available_servers :: "profile list \<Rightarrow> string list \<Rightarrow> profile list" where
  "available_servers ps placed = filter (\<lambda>p. p_id p \<notin> set placed) ps"

text \<open>The button for servers: whether it is off, its title, and the entries of its menu.\<close>

definition server_menu :: "texts \<Rightarrow> profile list \<Rightarrow> string list \<Rightarrow> bool \<times> string \<times> (string \<times> string \<times> string) list" where
  "server_menu t ps placed =
     (let available = available_servers ps placed in
      (available = [], t (if available = [] then ''routing.server.none'' else ''routing.server.addHint'') None,
       map (\<lambda>p. (p_id p, p_name p, p_protocol p)) available))"

datatype palette_tab = AddTab | OrderTab

definition tab_label :: "texts \<Rightarrow> palette_tab \<Rightarrow> string" where
  "tab_label t tab = t (if tab = AddTab then ''routing.tab.add'' else ''routing.tab.order'') None"

text \<open>What a press in the palette asks the canvas for, and whether the sheet it is in on a phone stays open.\<close>

datatype palette_press =
    PressSource routing_kind | PressNote | PressDefault routing_action | PressServer string
  | PressPreset "routing_rule list" preset_placement | PressShow routing_action

fun palette_event :: "string \<Rightarrow> palette_press \<Rightarrow> canvas_event option" where
  "palette_event stamp (PressSource kind) = Some (AddSource kind stamp)"
| "palette_event stamp PressNote = Some (AddNote stamp)"
| "palette_event stamp (PressDefault a) = Some (SetDefault a)"
| "palette_event stamp (PressServer pid) = Some (AddServer pid)"
| "palette_event stamp (PressPreset rules placement) = Some (AddPreset rules placement stamp)"
| "palette_event stamp (PressShow a) = None"

fun sheet_after :: "palette_press \<Rightarrow> bool \<Rightarrow> bool" where
  "sheet_after (PressDefault a) shown = shown"
| "sheet_after (PressShow a) shown = shown"
| "sheet_after p shown = False"

text \<open>Whether the buttons for undo and redo are off.\<close>

definition header_off :: "routing_page \<Rightarrow> bool \<times> bool" where
  "header_off v = (h_past (pg_history v) = [], h_future (pg_history v) = [])"

text \<open>The header: the summary line and the name of where unmatched traffic goes.\<close>

definition default_label :: "texts \<Rightarrow> routing_action \<Rightarrow> string" where
  "default_label t a = t (am_label (ACTION_META a)) None"

definition page_summary :: "texts \<Rightarrow> app_settings \<Rightarrow> string" where
  "page_summary t s =
     (if routing_rules s = [] then t ''routing.summaryNone'' (Some [(''action'', TextParam (default_label t (default_action s)))])
      else t ''routing.summary'' (Some [(''count'', NumParam (Fin (of_nat (length (routing_rules s))))),
                                        (''action'', TextParam (default_label t (default_action s)))]))"

definition catch_all_line :: "texts \<Rightarrow> profile list \<Rightarrow> app_settings \<Rightarrow> string" where
  "catch_all_line t ps s =
     (let label = default_label t (default_action s) in
      t ''routing.catchAll.destination'' (Some [(''destination'', TextParam
        (if default_server s \<noteq> []
         then or_else (map_option p_name (find (\<lambda>p. p_id p = default_server s) ps)) label else label))]))"

text \<open>Setups that enabled plugins bring: the plugin, the setup and the line under its name.\<close>

definition plugin_setups :: "plugin_info list \<Rightarrow> (plugin_info \<times> plugin_routing) list" where
  "plugin_setups ps = concat (map (\<lambda>p. map (Pair p) (pl_routing p)) (filter pl_enabled ps))"

definition setup_line :: "plugin_info \<times> plugin_routing \<Rightarrow> string" where
  "setup_line e =
     (case or_else (pr_description (snd e)) [] of
        [] \<Rightarrow> pl_name (fst e)
      | d # ds \<Rightarrow> d # ds @ MIDDOT @ pl_name (fst e))"

section \<open>Nodes under a gesture\<close>

text \<open>A node with what the canvas itself tracks: a drag or resize in progress, the selection, the
  measured size.\<close>

record live_node = flow_node +
  ln_dragging :: bool
  ln_resizing :: bool
  ln_selected :: bool
  ln_measured :: "(rat \<times> rat) option"

definition fresh_node :: "flow_node \<Rightarrow> live_node" where
  "fresh_node n = flow_node.extend n \<lparr>ln_dragging = False, ln_resizing = False, ln_selected = False, ln_measured = None\<rparr>"

definition carry_over :: "live_node \<Rightarrow> flow_node \<Rightarrow> live_node" where
  "carry_over before n =
     flow_node.extend
       (let n = (if ln_dragging before \<or> ln_resizing before then n\<lparr>fn_x := fn_x before, fn_y := fn_y before\<rparr> else n)
        in if ln_resizing before then n\<lparr>fn_box := fn_box before\<rparr> else n)
       \<lparr>ln_dragging = ln_dragging before, ln_resizing = ln_resizing before, ln_selected = ln_selected before,
        ln_measured = ln_measured before\<rparr>"

definition rebuild_nodes :: "flow_node list \<Rightarrow> live_node list \<Rightarrow> live_node list" where
  "rebuild_nodes derived current =
     (let previous = foldl (\<lambda>m n. om_set m (fn_id n) n) [] current in
      map (\<lambda>n. case om_get previous (fn_id n) of None \<Rightarrow> fresh_node n | Some before \<Rightarrow> carry_over before n) derived)"

section \<open>The view\<close>

record viewport =
  vp_x :: rat
  vp_y :: rat
  vp_zoom :: rat

text \<open>The mounted canvas: the remembered view, whether the user moved it, and how often the whole graph was
  fitted; \<open>memory\<close> outlives it.\<close>

record canvas_view =
  cv_saved :: "viewport option"
  cv_moved :: bool
  cv_fits :: nat

definition viewport_key :: "string \<Rightarrow> string" where
  "viewport_key setup = ''routing.viewport.'' @ setup"

definition open_view :: "(string, viewport option) omap \<Rightarrow> string \<Rightarrow> canvas_view" where
  "open_view memory setup =
     (let saved = remembered memory (viewport_key setup) None
      in \<lparr>cv_saved = saved, cv_moved = (saved \<noteq> None), cv_fits = (if saved = None then 1 else 0)\<rparr>)"

text \<open>A gesture of the user has an event, a move by the program none; the canvas changing size fits the
  graph until the user has moved it.  The setup may be switched while the canvas stays mounted, so it
  is an argument of each step.\<close>

datatype view_event = MoveStart bool | MoveEnd viewport | Resized

definition view_step :: "string \<Rightarrow> view_event \<Rightarrow> (string, viewport option) omap \<times> canvas_view
    \<Rightarrow> (string, viewport option) omap \<times> canvas_view" where
  "view_step setup e mv = (case mv of (memory, v) \<Rightarrow> (case e of
     MoveStart gesture \<Rightarrow> (memory, v\<lparr>cv_moved := cv_moved v \<or> gesture\<rparr>)
   | MoveEnd p \<Rightarrow> if cv_moved v
       then (case remember (viewport_key setup) (\<lambda>_. Some p) (memory, cv_saved v) of (m, saved) \<Rightarrow> (m, v\<lparr>cv_saved := saved\<rparr>))
       else (memory, v)
   | Resized \<Rightarrow> (memory, if cv_moved v then v else v\<lparr>cv_fits := Suc (cv_fits v)\<rparr>)))"

text \<open>The focuser handed to the page: the centre and zoom for a new node; a point asked for before the
  canvas was ready is kept and used then.\<close>

definition focus_on :: "rat \<Rightarrow> canvas_point \<Rightarrow> viewport" where
  "focus_on zoom p = \<lparr>vp_x = cp_x p + 128, vp_y = cp_y p + 120, vp_zoom = max zoom (3 / 4)\<rparr>"

definition handle_ready :: "rat \<Rightarrow> canvas_point option \<Rightarrow> viewport option \<times> canvas_point option" where
  "handle_ready zoom pending = (map_option (focus_on zoom) pending, None)"

definition focus_of_rule :: "app_settings \<Rightarrow> string \<Rightarrow> canvas_point" where
  "focus_of_rule s i =
     or_else (routing_layout s i)
       (fallback_position i (or_else (index_of i (map rr_id (routing_rules s))) 0))"

section \<open>Keys\<close>

text \<open>The elements a key's target stands in.\<close>

datatype place = InInput | InTextarea | InSelect | InEditable | InDialog | InMenu | InListbox

definition in_field :: "place list \<Rightarrow> bool" where
  "in_field ps \<longleftrightarrow> ps \<noteq> []"

definition types_text :: "place list \<Rightarrow> bool" where
  "types_text ps \<longleftrightarrow> InInput \<in> set ps \<or> InTextarea \<in> set ps \<or> InEditable \<in> set ps \<or> InDialog \<in> set ps"

record page_key =
  pk_key :: string
  pk_code :: string
  pk_ctrl :: bool
  pk_meta :: bool
  pk_shift :: bool
  pk_places :: "place list"

definition deletes :: "page_key \<Rightarrow> bool" where
  "deletes k \<longleftrightarrow> (pk_key k = ''Delete'' \<or> pk_key k = ''Backspace'') \<and> \<not> in_field (pk_places k)"

definition history_key :: "page_key \<Rightarrow> page_event option" where
  "history_key k =
     (if types_text (pk_places k) \<or> \<not> (pk_ctrl k \<or> pk_meta k) then None
      else if pk_code k = ''KeyZ'' \<and> \<not> pk_shift k then Some Undo
      else if pk_code k = ''KeyZ'' \<and> pk_shift k \<or> pk_code k = ''KeyY'' then Some Redo
      else None)"

text \<open>What a key does to the page, given what is selected on the canvas.\<close>

definition press_key :: "string list \<Rightarrow> flow_edge list \<Rightarrow> page_key \<Rightarrow> routing_page \<Rightarrow> routing_page" where
  "press_key selected wires k v =
     (let v = (if deletes k then page_step v (Edit (DeleteSelected selected wires)) else v)
      in case history_key k of None \<Rightarrow> v | Some e \<Rightarrow> page_step v e)"

section \<open>Live counts\<close>

text \<open>
  The effect that reads the counts, as its runs: a run polls only while connected and on screen, and
  its cleanup cancels the answers still out (\<open>hs_run\<close> numbers the runs, \<open>hs_out\<close> are the calls out,
  each with the run that sent it).
\<close>

record hits_state =
  hs_connected :: bool
  hs_visible :: bool
  hs_hits :: "(string \<rightharpoonup> nat) option"
  hs_run :: nat
  hs_out :: "nat list"

definition hits_polling :: "hits_state \<Rightarrow> bool" where
  "hits_polling v \<longleftrightarrow> hs_connected v \<and> hs_visible v"

definition hits_effect :: "hits_state \<Rightarrow> hits_state" where
  "hits_effect v =
     (let w = v\<lparr>hs_run := Suc (hs_run v)\<rparr> in
      if \<not> hs_connected w then w\<lparr>hs_hits := None\<rparr>
      else if \<not> hs_visible w then w
      else w\<lparr>hs_out := hs_out w @ [hs_run w]\<rparr>)"

datatype hits_event = ConnectedSet bool | VisibleSet bool | HitsTimer | HitsAnswer nat "(string \<rightharpoonup> nat) option option"

text \<open>An answer: \<open>None\<close> is a failure, \<open>Some None\<close> an empty one.\<close>

definition hits_step :: "hits_event \<Rightarrow> hits_state \<Rightarrow> hits_state" where
  "hits_step e v = (case e of
     ConnectedSet b \<Rightarrow> if b = hs_connected v then v else hits_effect (v\<lparr>hs_connected := b\<rparr>)
   | VisibleSet b \<Rightarrow> if b = hs_visible v then v else hits_effect (v\<lparr>hs_visible := b\<rparr>)
   | HitsTimer \<Rightarrow> if hits_polling v then v\<lparr>hs_out := hs_out v @ [hs_run v]\<rparr> else v
   | HitsAnswer i answer \<Rightarrow>
       if length (hs_out v) \<le> i then v
       else (case answer of
          None \<Rightarrow> v
        | Some next \<Rightarrow> if hs_out v ! i = hs_run v \<and> hits_polling v
            then v\<lparr>hs_hits := Some (or_else next Map.empty)\<rparr> else v))"

definition opened_hits :: "bool \<Rightarrow> bool \<Rightarrow> hits_state" where
  "opened_hits on shown =
     hits_effect \<lparr>hs_connected = on, hs_visible = shown, hs_hits = None, hs_run = 0, hs_out = []\<rparr>"

section \<open>Rule lists\<close>

text \<open>The addresses whose status is wanted; they are asked for again, a moment later, when these change.\<close>

definition list_urls :: "routing_rule list \<Rightarrow> string list" where
  "list_urls rules =
     concat (map (\<lambda>r. (if rr_kind r = Single Ruleset then rr_values r else [])
       @ concat (map rc_values (filter (\<lambda>c. rc_kind c = Ruleset) (or_else (rr_conditions r) [])))) rules)"

record lists_state =
  ls_lists :: "(string, rule_list_status) omap"
  ls_urls :: "string list"
  ls_due :: bool
  ls_asked :: nat
  ls_updating :: bool

definition store_lists :: "rule_list_status list option \<Rightarrow> lists_state \<Rightarrow> lists_state" where
  "store_lists statuses v =
     v\<lparr>ls_lists := foldl (\<lambda>m st. om_set m (rl_url st) st) [] (or_else statuses [])\<rparr>"

text \<open>Every answer is stored when it comes, whichever call it is of (\<open>ls_asked\<close> counts them).\<close>

datatype lists_event =
    RulesSet "routing_rule list" | ListsTimer | ListsAnswer "rule_list_status list option option"
  | PressUpdate | UpdateAnswer "string + rule_list_status list option"

definition lists_step :: "texts \<Rightarrow> lists_event \<Rightarrow> lists_state \<Rightarrow> lists_state \<times> (bool \<times> string) list" where
  "lists_step t e v = (case e of
     RulesSet rules \<Rightarrow> (if list_urls rules = ls_urls v then v else v\<lparr>ls_urls := list_urls rules, ls_due := True\<rparr>, [])
   | ListsTimer \<Rightarrow> (if ls_due v then v\<lparr>ls_due := False, ls_asked := Suc (ls_asked v)\<rparr> else v, [])
   | ListsAnswer answer \<Rightarrow> (case answer of None \<Rightarrow> v | Some statuses \<Rightarrow> store_lists statuses v, [])
   | PressUpdate \<Rightarrow> (v\<lparr>ls_updating := True\<rparr>, [])
   | UpdateAnswer answer \<Rightarrow> (case answer of
       Inl message \<Rightarrow> (v\<lparr>ls_updating := False\<rparr>, [(False, message)])
     | Inr statuses \<Rightarrow> ((store_lists statuses v)\<lparr>ls_updating := False\<rparr>, [(True, t ''routing.list.updated'' None)])))"

section \<open>Geo files\<close>

definition GEO_KINDS :: "(geo_kind \<times> string) list" where
  "GEO_KINDS = [(GeositeFile, ''routing.geo.services''), (GeoipFile, ''routing.geo.countries'')]"

fun geo_slug :: "geo_kind \<Rightarrow> string" where
  "geo_slug GeositeFile = ''geosite''"
| "geo_slug GeoipFile = ''geoip''"

text \<open>Suggested codes: one call for every kind that has a file, all or nothing; the service is an argument.\<close>

definition read_geo_codes :: "(geo_kind \<Rightarrow> string + string list) \<Rightarrow> (geo_kind \<rightharpoonup> geo_file) \<Rightarrow> (geo_kind, string list) omap option" where
  "read_geo_codes codes files =
     (if list_all (\<lambda>(k, _). files k = None \<or> (\<exists>cs. codes k = Inr cs)) GEO_KINDS
      then Some (map (\<lambda>(k, _). (k, if files k = None then [] else case codes k of Inr cs \<Rightarrow> cs | Inl _ \<Rightarrow> [])) GEO_KINDS)
      else None)"

text \<open>The answer counts only if the files are still those it was read for.\<close>

definition codes_answered :: "bool \<Rightarrow> (geo_kind, string list) omap option \<Rightarrow> (geo_kind, string list) omap \<Rightarrow> (geo_kind, string list) omap" where
  "codes_answered cancelled answer codes = (if cancelled then codes else or_else answer codes)"

record geo_panel =
  ge_busy :: "string option"
  ge_url_for :: "geo_kind option"
  ge_url :: string

datatype geo_call = DownloadGeo string | ImportGeo | RemoveGeo geo_kind

datatype geo_button = FromFile | FromUrl | UpdateFile | RemoveFile

text \<open>What a card says of its file, and the buttons under it while no address is typed.\<close>

definition geo_line :: "texts \<Rightarrow> geo_file option \<Rightarrow> string" where
  "geo_line t file = (case file of
     None \<Rightarrow> t ''routing.geo.builtIn'' None
   | Some f \<Rightarrow> t ''routing.geo.file'' (Some [(''name'', TextParam (gf_name f)), (''count'', NumParam (Fin (of_nat (gf_codes f))))]))"

definition geo_buttons :: "geo_file option \<Rightarrow> geo_button list" where
  "geo_buttons file =
     [FromFile, FromUrl]
     @ (case file of Some f \<Rightarrow> (if gf_from_url f \<and> truthy (gf_url f) then [UpdateFile] else []) @ [RemoveFile] | None \<Rightarrow> [])"

definition geo_run :: "string \<Rightarrow> geo_call \<Rightarrow> geo_panel \<Rightarrow> geo_panel \<times> geo_call option" where
  "geo_run key call g = (g\<lparr>ge_busy := Some key\<rparr>, Some call)"

text \<open>A press does nothing while a call runs (the buttons are off), nor where the button is not shown.\<close>

definition press_geo :: "(geo_kind \<rightharpoonup> geo_file) \<Rightarrow> geo_kind \<Rightarrow> geo_button \<Rightarrow> geo_panel \<Rightarrow> geo_panel \<times> geo_call option" where
  "press_geo files kind b g =
     (if ge_busy g \<noteq> None \<or> ge_url_for g = Some kind \<or> b \<notin> set (geo_buttons (files kind)) then (g, None)
      else case b of
        FromFile \<Rightarrow> geo_run (geo_slug kind @ ''-file'') ImportGeo g
      | FromUrl \<Rightarrow> (g\<lparr>ge_url_for := Some kind\<rparr>, None)
      | UpdateFile \<Rightarrow> geo_run (geo_slug kind @ ''-update'') (DownloadGeo (or_else (Option.bind (files kind) gf_url) [])) g
      | RemoveFile \<Rightarrow> geo_run (geo_slug kind @ ''-remove'') (RemoveGeo kind) g)"

definition submit_geo :: "geo_kind \<Rightarrow> geo_panel \<Rightarrow> geo_panel \<times> geo_call option" where
  "submit_geo kind g =
     (if ge_url_for g \<noteq> Some kind \<or> js_trim (ge_url g) = [] \<or> ge_busy g \<noteq> None then (g, None)
      else geo_run (geo_slug kind) (DownloadGeo (ge_url g)) g)"

definition escape_geo :: "geo_panel \<Rightarrow> geo_panel" where
  "escape_geo g = g\<lparr>ge_url_for := None\<rparr>"

text \<open>The answer: the files the service has now, or why it failed.  \<open>typed\<close> is whether the call came from the form.\<close>

definition geo_answered :: "bool \<Rightarrow> string + (geo_kind \<rightharpoonup> geo_file) \<Rightarrow> geo_panel \<times> routing_page
    \<Rightarrow> (geo_panel \<times> routing_page) \<times> string option" where
  "geo_answered typed answer gv = (case gv of (g, v) \<Rightarrow> (case answer of
     Inl message \<Rightarrow> ((g\<lparr>ge_busy := None\<rparr>, v), Some message)
   | Inr files \<Rightarrow>
       ((if typed then g\<lparr>ge_busy := None, ge_url_for := None, ge_url := []\<rparr> else g\<lparr>ge_busy := None\<rparr>,
         page_step v (SetGeoFiles files)), None)))"

section \<open>Loading a routing file\<close>

text \<open>
  A loaded file replaces the graph.  For eight seconds a notice offers to undo it; it holds the graph
  from before (\<open>im_undo\<close>).  Geo files the file refers to are offered (\<open>im_offer\<close>).
\<close>

record import_page =
  im_page :: routing_page
  im_offer :: "(geo_kind, string) omap"
  im_undo :: "graph_patch option"

definition import_answered :: "graph_patch \<Rightarrow> string + (app_settings \<times> (geo_kind, string) omap option) option
    \<Rightarrow> import_page \<Rightarrow> import_page \<times> string option" where
  "import_answered previous answer v = (case answer of
     Inl message \<Rightarrow> (v\<lparr>im_undo := None\<rparr>, Some message)
   | Inr None \<Rightarrow> (v, None)
   | Inr (Some (settings, missing)) \<Rightarrow>
       (v\<lparr>im_page := page_step (im_page v) (Import settings), im_offer := or_else missing [], im_undo := Some previous\<rparr>, None))"

definition press_import_undo :: "import_page \<Rightarrow> import_page" where
  "press_import_undo v = (case im_undo v of
     None \<Rightarrow> v
   | Some previous \<Rightarrow> v\<lparr>im_page := page_change (im_page v) previous, im_offer := [], im_undo := None\<rparr>)"

definition notice_gone :: "import_page \<Rightarrow> import_page" where
  "notice_gone v = v\<lparr>im_undo := None\<rparr>"

text \<open>An offered geo file: skipped, or downloaded - then its settings are taken over and the offer goes.\<close>

definition offer_done :: "geo_kind \<Rightarrow> import_page \<Rightarrow> import_page" where
  "offer_done kind v = v\<lparr>im_offer := om_delete (im_offer v) kind\<rparr>"

definition offer_answered :: "geo_kind \<Rightarrow> string + (geo_kind \<rightharpoonup> geo_file) \<Rightarrow> import_page \<Rightarrow> import_page \<times> string option" where
  "offer_answered kind answer v = (case answer of
     Inl message \<Rightarrow> (v, Some message)
   | Inr files \<Rightarrow> (offer_done kind (v\<lparr>im_page := page_step (im_page v) (SetGeoFiles files)\<rparr>), None))"

definition offer_host :: "(string \<rightharpoonup> string) \<Rightarrow> string \<Rightarrow> string" where
  "offer_host url_host address = or_else (url_host address) address"

definition export_toast :: "texts \<Rightarrow> string + string \<Rightarrow> (bool \<times> string) option" where
  "export_toast t answer = (case answer of
     Inl message \<Rightarrow> Some (False, t ''routing.saveFailed'' (Some [(''error'', TextParam message)]))
   | Inr path \<Rightarrow> if path = [] then None
       else Some (True, t ''routing.saved'' (Some [(''file'',
              TextParam (rev (takeWhile (\<lambda>c. c \<noteq> CHR ''/'' \<and> c \<noteq> CHR 0x5C) (rev path))))])))"

section \<open>Properties\<close>

text \<open>Hidden destinations: every state the page can come to.\<close>

fun hidden_event :: "bool \<Rightarrow> bool \<times> routing_action \<Rightarrow> hidden_actions \<Rightarrow> hidden_actions" where
  "hidden_event storable (hides, a) h = (if hides then hide_action storable a h else show_action storable a h)"

definition hidden_ok :: "hidden_actions \<Rightarrow> bool" where
  "hidden_ok h \<longleftrightarrow> set (hd_actions h) \<subseteq> set HIDEABLE_ACTIONS \<and> load_hidden (hd_stored h) = hd_actions h"

lemma hideable_slug: "a \<in> set HIDEABLE_ACTIONS \<Longrightarrow> hideable_of (JStr (action_slug a)) = Some a"
  by (auto simp: hideable_of_def HIDEABLE_ACTIONS_def)

lemma hideable_of_in: "hideable_of j = Some a \<Longrightarrow> a \<in> set HIDEABLE_ACTIONS"
  by (auto simp: hideable_of_def find_Some_iff in_set_conv_nth split: json.splits)

lemma map_filter_cons: "List.map_filter f (x # xs) = (case f x of None \<Rightarrow> List.map_filter f xs | Some y \<Rightarrow> y # List.map_filter f xs)"
  by (simp add: List.map_filter_def split: option.split)

lemma load_hidden_written:
  "set as \<subseteq> set HIDEABLE_ACTIONS \<Longrightarrow> load_hidden (Some (JArr (map (\<lambda>a. JStr (action_slug a)) as))) = as"
  unfolding load_hidden_def by (induction as) (simp_all add: List.map_filter_simps hideable_slug)

lemma set_load_hidden: "set (load_hidden saved) \<subseteq> set HIDEABLE_ACTIONS"
proof -
  have "set (List.map_filter hideable_of xs) \<subseteq> set HIDEABLE_ACTIONS" for xs
    by (induction xs) (auto simp: map_filter_cons List.map_filter_simps dest: hideable_of_in split: option.split)
  then show ?thesis unfolding load_hidden_def by (cases saved) (auto split: json.split)
qed

lemma hidden_ok_opened: "hidden_ok (opened_hidden saved)"
  by (simp add: hidden_ok_def opened_hidden_def set_load_hidden)

lemma hidden_ok_update: "set as \<subseteq> set HIDEABLE_ACTIONS \<Longrightarrow> hidden_ok (update_hidden True as h)"
  by (simp add: hidden_ok_def update_hidden_def load_hidden_written)

lemma hidden_ok_event:
  "hidden_ok h \<Longrightarrow> snd e \<in> set HIDEABLE_ACTIONS \<Longrightarrow> hidden_ok (hidden_event True e h)"
  by (cases e) (auto simp: hide_action_def show_action_def hidden_ok_def [of h] intro!: hidden_ok_update)

lemma hidden_ok_run:
  "hidden_ok h \<Longrightarrow> list_all (\<lambda>e. snd e \<in> set HIDEABLE_ACTIONS) es \<Longrightarrow> hidden_ok (fold (hidden_event True) es h)"
  by (induction es arbitrary: h) (simp_all add: hidden_ok_event)

lemma hideable_target: "a \<in> set HIDEABLE_ACTIONS \<Longrightarrow> (action_node_id a = target_of b server) = (b = a)"
  by (auto simp: target_of_def HIDEABLE_ACTIONS_def)

lemma hideable_wired:
  "a \<in> set HIDEABLE_ACTIONS \<Longrightarrow>
     action_node_id a \<in> set (wire_targets s) \<longleftrightarrow> default_action s = a \<or> (\<exists>r \<in> set (routing_rules s). rr_action r = Some a)"
  by (auto simp: wire_target_iff hideable_target)

text \<open>C11: every destination is on the canvas or offered in the palette to be put back, never both and never neither,
  whatever was hidden, shown and stored before; what is hidden is the same after a restart.\<close>

theorem destination_shown_or_offered:
  assumes "list_all (\<lambda>e. snd e \<in> set HIDEABLE_ACTIONS) es" "h = fold (hidden_event True) es (opened_hidden saved)"
  shows "(action_node_id a \<in> fn_id ` set (action_nodes s (hd_actions h))) \<noteq> (a \<in> set (offered_actions s h))
    \<and> hd_actions (opened_hidden (hd_stored h)) = hd_actions h"
proof -
  have ok: "hidden_ok h" using assms hidden_ok_opened by (simp add: hidden_ok_run)
  have "action_node_id a \<in> fn_id ` set (action_nodes s (hd_actions h))
      \<longleftrightarrow> action_node_id a \<in> set (wire_targets s) \<or> a \<notin> set (hd_actions h)"
    by (simp add: action_node_ids image_iff)
  moreover have "a \<in> set (offered_actions s h) \<longleftrightarrow> a \<in> set (hd_actions h) \<and> action_node_id a \<notin> set (wire_targets s)"
    using ok by (auto simp: offered_actions_def hidden_ok_def hideable_wired subset_iff)
  ultimately show ?thesis using ok by (auto simp: opened_hidden_def hidden_ok_def)
qed

theorem destination_shown_or_offered_witness:
  "action_node_id Drop \<notin> fn_id ` set (action_nodes pending_settings [Drop])
   \<and> Drop \<in> set (offered_actions pending_settings \<lparr>hd_actions = [Drop], hd_stored = Some (JArr [JStr ''drop''])\<rparr>)"
proof -
  let ?h = "fold (hidden_event True) [(True, Block), (True, Drop), (False, Block)] (opened_hidden None)"
  have h: "?h = \<lparr>hd_actions = [Drop], hd_stored = Some (JArr [JStr ''drop''])\<rparr>"
    by (simp add: hide_action_def show_action_def update_hidden_def opened_hidden_def load_hidden_def)
  have "Drop \<in> set (offered_actions pending_settings ?h)"
    unfolding h by (simp add: offered_actions_def pending_settings_def)
  with destination_shown_or_offered [of "[(True, Block), (True, Drop), (False, Block)]" ?h None Drop pending_settings] h
  show ?thesis by (simp add: HIDEABLE_ACTIONS_def)
qed

lemma find_by_key: "distinct (map key xs) \<Longrightarrow> b \<in> set xs \<Longrightarrow> find (\<lambda>x. key x = key b) xs = Some b"
  by (induction xs) (auto simp: image_iff)

lemma rebuilt_from:
  assumes "distinct (map fn_id current)" "b \<in> set current" "n \<in> set derived" "fn_id b = fn_id n"
  shows "carry_over b n \<in> set (rebuild_nodes derived current)"
proof -
  have "find (\<lambda>x. fn_id x = fn_id n) (rev current) = Some b"
    using find_by_key [of fn_id "rev current" b] assms(1,2,4) by (simp add: rev_map [symmetric])
  then show ?thesis using assms(3)
    by (force simp: rebuild_nodes_def om.foldl_put_last [where key = fn_id and val = "\<lambda>x. x"])
qed

lemma rebuilt_same:
  "map fn_id (rebuild_nodes derived current) = map fn_id derived"
  "map fn_data (rebuild_nodes derived current) = map fn_data derived"
  by (simp_all add: rebuild_nodes_def Let_def fresh_node_def carry_over_def flow_node.defs split: option.split)

definition note_node :: "rat \<Rightarrow> flow_node" where
  "note_node x = \<lparr>fn_id = ''note-1'', fn_x = x, fn_y = 0, fn_box = None, fn_data = NoteData []\<rparr>"

text \<open>rebuilding the nodes, on every change of the settings and every count, draws exactly the derived ones; a
  node under a drag stays where it is held and one being resized keeps its size, all others go where the
  settings say; the selection and measured sizes carry over.\<close>

theorem rebuild_keeps_gestures:
  assumes "distinct (map fn_id current)" "b \<in> set current" "n \<in> set derived" "fn_id b = fn_id n"
  shows "map fn_id (rebuild_nodes derived current) = map fn_id derived
    \<and> map fn_data (rebuild_nodes derived current) = map fn_data derived
    \<and> (\<exists>m \<in> set (rebuild_nodes derived current). fn_id m = fn_id b \<and> fn_data m = fn_data n
        \<and> ln_selected m = ln_selected b \<and> ln_measured m = ln_measured b
        \<and> (fn_x m, fn_y m) = (if ln_dragging b \<or> ln_resizing b then (fn_x b, fn_y b) else (fn_x n, fn_y n))
        \<and> fn_box m = (if ln_resizing b then fn_box b else fn_box n))"
proof -
  have "carry_over b n \<in> set (rebuild_nodes derived current)" by (rule rebuilt_from [OF assms])
  moreover have "fn_id (carry_over b n) = fn_id b" "fn_data (carry_over b n) = fn_data n"
      "ln_selected (carry_over b n) = ln_selected b" "ln_measured (carry_over b n) = ln_measured b"
      "(fn_x (carry_over b n), fn_y (carry_over b n)) = (if ln_dragging b \<or> ln_resizing b then (fn_x b, fn_y b) else (fn_x n, fn_y n))"
      "fn_box (carry_over b n) = (if ln_resizing b then fn_box b else fn_box n)"
    by (simp_all add: carry_over_def flow_node.defs assms(4) Let_def)
  ultimately show ?thesis using rebuilt_same by blast
qed

theorem rebuild_keeps_gestures_witness:
  "\<exists>m \<in> set (rebuild_nodes [note_node 0] [(fresh_node (note_node 7))\<lparr>ln_dragging := True, ln_selected := True\<rparr>]).
     fn_x m = 7 \<and> ln_selected m"
  using rebuild_keeps_gestures [of "[(fresh_node (note_node 7))\<lparr>ln_dragging := True, ln_selected := True\<rparr>]"
      "(fresh_node (note_node 7))\<lparr>ln_dragging := True, ln_selected := True\<rparr>" "note_node 0" "[note_node 0]"]
  by (auto simp: fresh_node_def note_node_def flow_node.defs)

text \<open>Counts: an answer is taken over only from the run that is on.\<close>

lemma hits_inv_step:
  "(hs_hits v \<noteq> None \<longrightarrow> hs_connected v) \<Longrightarrow> hs_hits (hits_step e v) \<noteq> None \<longrightarrow> hs_connected (hits_step e v)"
  by (cases e) (auto simp: hits_step_def hits_effect_def hits_polling_def Let_def split: option.splits)

lemma hits_inv_run:
  "(hs_hits v \<noteq> None \<longrightarrow> hs_connected v) \<Longrightarrow> hs_hits (fold hits_step es v) \<noteq> None \<longrightarrow> hs_connected (fold hits_step es v)"
proof (induction es arbitrary: v)
  case (Cons e es)
  show ?case using Cons.IH [OF hits_inv_step [OF Cons.prems]] by simp
qed simp

text \<open>counts are on the canvas only while connected, however connecting, disconnecting, leaving the
  screen, polls and late answers interleave; an answer to a poll sent before any of these is dropped.\<close>

theorem counts_only_while_connected:
  "let v = fold hits_step es (opened_hits on shown) in
    (hs_connected v \<or> hs_hits v = None)
    \<and> (hs_connected v \<and> hs_visible v \<and> i < length (hs_out v) \<and> hs_out v ! i = hs_run v
       \<or> hits_step (HitsAnswer i answer) v = v)"
proof -
  have "hs_hits (opened_hits on shown) \<noteq> None \<longrightarrow> hs_connected (opened_hits on shown)"
    by (simp add: opened_hits_def hits_effect_def Let_def)
  from hits_inv_run [OF this, of es] show ?thesis
    by (auto simp: Let_def hits_step_def hits_polling_def split: option.split)
qed

text \<open>when the lists of the rules changed twice in short order and the second answer arrives first, the first
  answer stays: the new addresses have no status, and nothing asks for it again.\<close>

theorem late_list_answer_stays:
  assumes "list_urls rules \<noteq> ls_urls v" "u \<notin> rl_url ` set old"
  shows "let w = fold (\<lambda>e v. fst (lists_step t e v))
           [RulesSet rules, ListsTimer, ListsAnswer (Some (Some new)), ListsAnswer (Some (Some old))] v
    in ls_urls w = list_urls rules \<and> om_get (ls_lists w) u = None \<and> \<not> ls_due w"
  using assms
  by (simp add: lists_step_def store_lists_def Let_def om.foldl_put_other [where val = "\<lambda>x. x"] om_get_empty)

theorem late_list_answer_stays_witness:
  "let w = fold (\<lambda>e v. fst (lists_step (\<lambda>k ps. k) e v))
           [RulesSet [(new_rule ''r'' (Single Ruleset))\<lparr>rr_values := [''u'']\<rparr>], ListsTimer, ListsAnswer (Some (Some [])), ListsAnswer (Some (Some []))]
           \<lparr>ls_lists = [], ls_urls = [], ls_due = False, ls_asked = 0, ls_updating = False\<rparr>
    in ls_urls w = [''u''] \<and> om_get (ls_lists w) ''u'' = None \<and> \<not> ls_due w"
  using late_list_answer_stays [of "[(new_rule ''r'' (Single Ruleset))\<lparr>rr_values := [''u'']\<rparr>]"
      "\<lparr>ls_lists = [], ls_urls = [], ls_due = False, ls_asked = 0, ls_updating = False\<rparr>" "''u''" "[]" "\<lambda>k ps. k" "[]"]
  by (simp add: list_urls_def new_rule_def)

text \<open>C12: undoing the loading of a routing file from its notice gives the graph back exactly, and the loading is
  then still in the history.  But the notice outlives a change of setup: pressed after it, it puts the graph of
  the one setup over that of the other.\<close>

theorem import_undo_crosses_setups:
  assumes "v = fst (import_answered (snapshot (pg_settings (im_page u))) (Inr (Some (loaded, missing))) u)"
    and "active_routing_setup other \<noteq> active_routing_setup (pg_settings (im_page v))"
    and "w = press_import_undo (v\<lparr>im_page := page_step (im_page v) (Replace other)\<rparr>)"
  shows "pg_settings (im_page (press_import_undo v)) = pg_settings (im_page u) \<and> im_offer (press_import_undo v) = []
    \<and> snapshot (pg_settings (im_page w)) = snapshot (pg_settings (im_page u))
    \<and> active_routing_setup (pg_settings (im_page w)) = active_routing_setup other"
  using assms
  by (simp add: import_answered_def press_import_undo_def page_change_def page_replace_def import_routing_def snapshot_def apply_patch_def)

theorem import_undo_crosses_setups_witness:
  "\<exists>w :: import_page. snapshot (pg_settings (im_page w)) = snapshot pending_settings
     \<and> active_routing_setup (pg_settings (im_page w)) = ''work''"
proof -
  define u where "u = \<lparr>im_page = \<lparr>pg_settings = pending_settings, pg_history = no_history\<rparr>, im_offer = [], im_undo = None\<rparr>"
  define v where "v = fst (import_answered (snapshot (pg_settings (im_page u))) (Inr (Some (pending_settings, None))) u)"
  define other where "other = pending_settings\<lparr>active_routing_setup := ''work'', default_action := Block\<rparr>"
  define w where "w = press_import_undo (v\<lparr>im_page := page_step (im_page v) (Replace other)\<rparr>)"
  have "active_routing_setup other \<noteq> active_routing_setup (pg_settings (im_page v))"
    by (simp add: v_def u_def other_def import_answered_def page_change_def import_routing_def apply_patch_def pending_settings_def)
  from import_undo_crosses_setups [OF v_def this w_def]
  have "snapshot (pg_settings (im_page w)) = snapshot pending_settings" "active_routing_setup (pg_settings (im_page w)) = ''work''"
    by (simp_all add: u_def other_def)
  then show ?thesis by blast
qed

end
