(* ===== verification/Routing_Nodes.thy ===== *)
theory Routing_Nodes
  imports Routing_Page
begin

text \<open>
  What the nodes of the routing canvas show and how they are edited in place
  (\<open>frontend/src/components/routing/nodes.tsx\<close>): resolver addresses, sizes, lists of entries, the
  entry editor, the options under a rule, notes, and the heads of all kinds of nodes.  The address
  check is compared with the service's (\<open>internal/models/dns.go\<close>).
\<close>

section \<open>Resolver addresses\<close>

text \<open>The parts of an address, as the URL parsers of the window and of the service read it: both are arguments.\<close>

record url_parts =
  up_scheme :: string
  up_user :: string
  up_password :: string
  up_host :: string
  up_port :: "nat option"
  up_path :: string

definition digit :: "char \<Rightarrow> bool" where
  "digit c \<longleftrightarrow> (let n = (of_char c :: nat) in 48 \<le> n \<and> n \<le> 57)"

definition host_char :: "char \<Rightarrow> bool" where
  "host_char c \<longleftrightarrow> (let n = (of_char c :: nat) in 97 \<le> n \<and> n \<le> 122 \<or> 65 \<le> n \<and> n \<le> 90 \<or> 48 \<le> n \<and> n \<le> 57 \<or> n = 45)"

definition host_label :: "string \<Rightarrow> bool" where
  "host_label w \<longleftrightarrow> w \<noteq> [] \<and> length w \<le> 63 \<and> list_all host_char w"

text \<open>\<open>^([a-z0-9-]{1,63}\.)+[a-z0-9-]{1,63}$\<close> and \<open>^\d{1,3}(\.\d{1,3}){3}$\<close>.\<close>

definition dotted_name :: "string \<Rightarrow> bool" where
  "dotted_name host \<longleftrightarrow> (let labels = js_split CHR ''.'' host in 2 \<le> length labels \<and> list_all host_label labels)"

definition dotted_quad :: "string \<Rightarrow> bool" where
  "dotted_quad host \<longleftrightarrow>
     (let ns = js_split CHR ''.'' host in
      length ns = 4 \<and> list_all (\<lambda>n. n \<noteq> [] \<and> length n \<le> 3 \<and> list_all digit n) ns)"

definition DNS_SCHEMES :: "string list" where
  "DNS_SCHEMES = [''udp'', ''tcp'', ''tls'', ''quic'', ''https'', ''h3'', ''http3'']"

definition web_scheme :: "string \<Rightarrow> bool" where
  "web_scheme scheme \<longleftrightarrow> scheme = ''https'' \<or> scheme = ''h3'' \<or> scheme = ''http3''"

definition strip_brackets :: "string \<Rightarrow> string" where
  "strip_brackets h =
     (let h = (case h of c # r \<Rightarrow> if c = CHR ''['' then r else h | [] \<Rightarrow> [])
      in if h \<noteq> [] \<and> last h = CHR '']'' then butlast h else h)"

definition with_scheme :: "string \<Rightarrow> string" where
  "with_scheme text = (if js_includes text ''://'' then text else ''udp://'' @ text)"

definition valid_dns_address :: "(string \<Rightarrow> url_parts option) \<Rightarrow> string \<Rightarrow> bool" where
  "valid_dns_address parse typed =
     (let text = js_trim typed in
      if text = [] then False
      else if js_lower text = ''local'' \<or> js_lower text = ''system'' then True
      else (case parse (with_scheme text) of
          None \<Rightarrow> False
        | Some u \<Rightarrow>
            let scheme = js_lower (up_scheme u); host = strip_brackets (up_host u) in
            if scheme \<notin> set DNS_SCHEMES then False
            else if up_user u \<noteq> [] \<or> up_password u \<noteq> [] then False
            else if host = [] then False
            else if \<not> (dotted_quad host \<or> CHR '':'' \<in> set host) \<and> \<not> dotted_name host then False
            else web_scheme scheme \<or> up_path u = [] \<or> up_path u = ''/''))"

text \<open>The service's side, \<open>ParseDNSServer\<close>: type, host, port and path.\<close>

definition default_port :: "string \<Rightarrow> nat option" where
  "default_port = map_of [(''udp'', 53), (''tcp'', 53), (''tls'', 853), (''quic'', 853), (''https'', 443), (''h3'', 443)]"

definition valid_hostname :: "string \<Rightarrow> bool" where
  "valid_hostname host \<longleftrightarrow> length host \<le> 253 \<and> CHR ''.'' \<in> set host \<and> list_all host_label (js_split CHR ''.'' host)"

definition parse_dns_server :: "(string \<Rightarrow> url_parts option) \<Rightarrow> (string \<Rightarrow> bool) \<Rightarrow> string
    \<Rightarrow> (string \<times> string \<times> nat \<times> string) option" where
  "parse_dns_server parse parse_ip typed =
     (let text = js_trim typed in
      if text = [] then None
      else if js_lower text = ''local'' \<or> js_lower text = ''system'' then Some (''local'', [], 0, [])
      else (case parse (with_scheme text) of
          None \<Rightarrow> None
        | Some u \<Rightarrow>
            let host = strip_brackets (up_host u) in
            if host = [] \<or> up_user u \<noteq> [] \<or> up_password u \<noteq> [] then None
            else
              let scheme = js_lower (up_scheme u); scheme = (if scheme = ''http3'' then ''h3'' else scheme) in
              (case default_port scheme of
                 None \<Rightarrow> None
               | Some d \<Rightarrow>
                   Option.bind
                     (case up_port u of
                        Some p \<Rightarrow> if p < 1 \<or> 65535 < p then None else Some p
                      | None \<Rightarrow> Some d)
                     (\<lambda>port.
                       if \<not> parse_ip host \<and> \<not> valid_hostname host then None
                       else if scheme = ''https'' \<or> scheme = ''h3''
                       then Some (scheme, host, port, if up_path u = [] \<or> up_path u = ''/'' then ''/dns-query'' else up_path u)
                       else if up_path u \<noteq> [] \<and> up_path u \<noteq> ''/'' then None
                       else Some (scheme, host, port, [])))))"

section \<open>Size and frame\<close>

text \<open>\<open>useFill\<close>: whether a card fills its box - it has a saved size, or a resize has begun.\<close>

definition node_fills :: "bool \<Rightarrow> bool \<Rightarrow> bool" where
  "node_fills sized resizing \<longleftrightarrow> sized \<or> resizing"

datatype fill_event = ResizeStart | ResetPressed

text \<open>The state is whether a resize began; the answer, whether the saved size is to be dropped.\<close>

definition fill_step :: "fill_event \<Rightarrow> bool \<Rightarrow> bool \<times> bool" where
  "fill_step e resizing = (case e of ResizeStart \<Rightarrow> (True, False) | ResetPressed \<Rightarrow> (False, True))"

definition shell_width :: "bool \<Rightarrow> bool \<Rightarrow> string" where
  "shell_width fills wide = (if fills then ''flex h-full w-full flex-col'' else if wide then ''w-80'' else ''w-64'')"

definition least_width :: "bool \<Rightarrow> nat" where
  "least_width wide = (if wide then 260 else 200)"

text \<open>The badge of live connections: its label, whether it is lit.\<close>

definition hits_badge :: "texts \<Rightarrow> nat \<Rightarrow> string \<times> bool" where
  "hits_badge t n = (t ''routing.hits'' (Some [(''count'', NumParam (Fin (of_nat n)))]), 0 < n)"

text \<open>The head of a node: title, subtitle, accent, place in the order, whether it can be taken away, its badge.\<close>

record node_head =
  nh_title :: string
  nh_subtitle :: string
  nh_accent :: string
  nh_order :: "nat option"
  nh_deletable :: bool
  nh_badge :: "(string \<times> bool) option"
  nh_wide :: bool

definition delete_label :: "texts \<Rightarrow> node_head \<Rightarrow> string option" where
  "delete_label t h = (if nh_deletable h then Some (t ''routing.remove'' (Some [(''name'', TextParam (nh_title h))])) else None)"

definition source_head :: "texts \<Rightarrow> bool \<Rightarrow> routing_rule \<Rightarrow> nat \<Rightarrow> nat option \<Rightarrow> node_head" where
  "source_head t is_android r order hits =
     (let meta = kind_meta is_android (rr_kind r) in
      \<lparr>nh_title = t (sm_label meta) None,
       nh_subtitle = t (if or_else (rr_invert r) False then ''routing.invert.hint'' else sm_hint meta) None,
       nh_accent = sm_accent meta, nh_order = Some order, nh_deletable = True,
       nh_badge = map_option (hits_badge t) hits, nh_wide = (rr_kind r = Logical)\<rparr>)"

definition catchall_head :: "texts \<Rightarrow> nat option \<Rightarrow> node_head" where
  "catchall_head t hits =
     \<lparr>nh_title = t ''routing.catchAll'' None, nh_subtitle = t ''routing.catchAll.hint'' None,
      nh_accent = ''var(--routing-default)'', nh_order = None, nh_deletable = False,
      nh_badge = map_option (hits_badge t) hits, nh_wide = False\<rparr>"

definition catchall_text :: "texts \<Rightarrow> routing_action \<Rightarrow> string option \<Rightarrow> string" where
  "catchall_text t a destination =
     t ''routing.catchAll.destination'' (Some [(''destination'', TextParam
       (if truthy destination then the destination else t (am_label (ACTION_META a)) None))])"

definition inbound_text :: "texts \<Rightarrow> nat \<Rightarrow> string" where
  "inbound_text t inbound =
     (if inbound = 0 then t ''routing.inboundNone'' None
      else t ''routing.inbound'' (Some [(''count'', NumParam (Fin (of_nat inbound)))]))"

definition action_head :: "texts \<Rightarrow> routing_action \<Rightarrow> bool \<Rightarrow> node_head" where
  "action_head t a hideable =
     \<lparr>nh_title = t (am_label (ACTION_META a)) None, nh_subtitle = t (am_hint (ACTION_META a)) None,
      nh_accent = am_accent (ACTION_META a), nh_order = None, nh_deletable = hideable, nh_badge = None, nh_wide = False\<rparr>"

definition server_head :: "texts \<Rightarrow> string option \<Rightarrow> string option \<Rightarrow> node_head" where
  "server_head t name protocol =
     \<lparr>nh_title = or_else name (t ''routing.server.gone'' None),
      nh_subtitle = (if truthy name then t ''routing.server.hint'' (Some [(''protocol'', TextParam (or_else protocol []))])
                     else t ''routing.server.missing'' None),
      nh_accent = ''var(--status-connected)'', nh_order = None, nh_deletable = True, nh_badge = None, nh_wide = False\<rparr>"

text \<open>The head of every node that has one; a note has none.\<close>

fun head_of :: "texts \<Rightarrow> bool \<Rightarrow> node_data \<Rightarrow> node_head option" where
  "head_of t is_android (CatchallData hits a destination) = Some (catchall_head t hits)"
| "head_of t is_android (RuleData r order hits) = Some (source_head t is_android r order hits)"
| "head_of t is_android (ActionData a inbound hideable) = Some (action_head t a hideable)"
| "head_of t is_android (ServerData name protocol inbound) = Some (server_head t name protocol)"
| "head_of t is_android (NoteData note) = None"

text \<open>The two modes of a combined rule and its conditions: the word before a condition, the kinds it can be,
  whether it is negated, its entries.\<close>

definition mode_buttons :: "texts \<Rightarrow> logical_mode \<Rightarrow> (logical_mode \<times> bool \<times> string) list" where
  "mode_buttons t mode =
     map (\<lambda>m. (m, mode = m, t (if m = AndMode then ''routing.logical.all'' else ''routing.logical.any'') None)) [AndMode, OrMode]"

record condition_row =
  cw_joiner :: "string option"
  cw_kind :: routing_source
  cw_kinds :: "(routing_source \<times> string) list"
  cw_negated :: bool
  cw_remove :: string
  cw_values :: "string list"

definition condition_rows :: "texts \<Rightarrow> bool \<Rightarrow> logical_mode \<Rightarrow> routing_condition list \<Rightarrow> condition_row list" where
  "condition_rows t is_android mode cs =
     map (\<lambda>(i, c).
       \<lparr>cw_joiner = (if 0 < i then Some (t (if mode = AndMode then ''routing.logical.and'' else ''routing.logical.or'') None) else None),
        cw_kind = rc_kind c,
        cw_kinds = map (\<lambda>k. (k, t (sm_label (SOURCE_META is_android k)) None)) CONDITION_KINDS,
        cw_negated = or_else (rc_invert c) False,
        cw_remove = t ''routing.remove'' (Some [(''name'', TextParam (t (sm_label (SOURCE_META is_android (rc_kind c))) None))]),
        cw_values = rc_values c\<rparr>) (enumerate 0 cs)"

definition no_conditions :: "texts \<Rightarrow> routing_condition list \<Rightarrow> string option" where
  "no_conditions t cs = (if cs = [] then Some (t ''routing.logical.empty'' None) else None)"

text \<open>The buttons of a domains card: the kind, whether it is on, whether it is off and why, its text.\<close>

definition domain_mode_buttons :: "texts \<Rightarrow> routing_source \<Rightarrow> string list \<Rightarrow> (routing_source \<times> bool \<times> bool \<times> string option \<times> string) list" where
  "domain_mode_buttons t kind values =
     map (\<lambda>(k, label). let active = k = kind; off = \<not> active \<and> k = Domains \<and> kind = DomainRegex \<and> values \<noteq> [] in
       (k, active, off, if off then Some (t ''routing.domains.patternLocked'' None) else None, t label None))
     [(Domains, ''routing.domains.names''), (DomainRegex, ''routing.domains.pattern'')]"

section \<open>Lists of entries\<close>

record value_list =
  vl_expanded :: bool
  vl_filter :: string

text \<open>The line of a row: a picked application has its name first and the path under it.\<close>

definition value_row :: "bool \<Rightarrow> string option \<Rightarrow> string \<Rightarrow> string \<times> string option" where
  "value_row named detail v =
     (if named \<and> truthy detail then (the detail, Some v) else (v, if truthy detail then detail else None))"

definition expand_list :: "value_list \<Rightarrow> value_list" where
  "expand_list v = v\<lparr>vl_expanded := True\<rparr>"

definition collapse_list :: "value_list \<Rightarrow> value_list" where
  "collapse_list v = \<lparr>vl_expanded = False, vl_filter = []\<rparr>"

definition show_all_button :: "texts \<Rightarrow> value_list \<Rightarrow> string list \<Rightarrow> string option" where
  "show_all_button t v values =
     (if COLLAPSED_ROWS + 2 < length values \<and> \<not> vl_expanded v
      then Some (t ''routing.showAll'' (Some [(''count'', NumParam (Fin (of_nat (length values))))])) else None)"

text \<open>The line under an expanded list, and the one in place of its rows.\<close>

definition list_footer :: "texts \<Rightarrow> value_list \<Rightarrow> string list \<Rightarrow> string" where
  "list_footer t v values =
     (let matches = value_matches values (vl_filter v); shown = take EXPANDED_ROWS matches;
          number = (\<lambda>n. NumParam (Fin (of_nat n))) in
      if length shown < length matches
      then t ''routing.shownOf'' (Some [(''shown'', number (length shown)), (''count'', number (length matches))])
      else t (if js_lower (js_trim (vl_filter v)) \<noteq> [] then ''routing.matching'' else ''routing.entries'')
             (Some [(''count'', number (length matches))]))"

definition no_match_line :: "texts \<Rightarrow> value_list \<Rightarrow> string list \<Rightarrow> string option" where
  "no_match_line t v values = (if value_matches values (vl_filter v) = [] then Some (t ''routing.noMatch'' None) else None)"

datatype suggestion = NoSuggestion | SuggestionLine string | SuggestionChips "string list"

definition geo_suggestion :: "texts \<Rightarrow> string \<Rightarrow> string list \<Rightarrow> string \<Rightarrow> string list \<Rightarrow> suggestion" where
  "geo_suggestion t kind codes draft values =
     (if codes = [] then NoSuggestion
      else if suggestion_needle draft = []
      then SuggestionLine (t ''routing.geoCodes'' (Some [(''count'', NumParam (Fin (of_nat (length codes)))), (''file'', TextParam (kind @ ''.dat''))]))
      else (case geo_suggestions codes draft values of
          [] \<Rightarrow> SuggestionLine (t ''routing.geoMissing'' (Some [(''file'', TextParam (kind @ ''.dat''))]))
        | c # cs \<Rightarrow> SuggestionChips (c # cs)))"

text \<open>A rule list's state under its address; the browser writes the date.\<close>

definition list_detail :: "texts \<Rightarrow> (int \<Rightarrow> string) \<Rightarrow> (string, rule_list_status) omap \<Rightarrow> string \<Rightarrow> string" where
  "list_detail t date known url = (case om_get known url of
     None \<Rightarrow> t ''routing.list.pending'' None
   | Some st \<Rightarrow>
       if rl_native st then t ''routing.list.native'' None
       else if rl_updated_at st = 0 then t ''routing.list.pending'' None
       else t ''routing.list.entries'' (Some [(''count'', NumParam (Fin (of_nat (rl_entries st)))),
              (''date'', TextParam (date (rl_updated_at st * 1000)))]))"

section \<open>The entry editor\<close>

datatype entry_part =
    EmptyHint | Entries "(string \<times> string option) list" | TextField | ChooseApps
  | Chips "string list" | Suggestions suggestion | UpdateLists bool

record editor_world =
  ew_android :: bool
  ew_ios :: bool
  ew_labels :: "string \<rightharpoonup> string"
  ew_lists :: "(string, rule_list_status) omap"
  ew_updating :: bool
  ew_codes :: "string \<Rightarrow> string list"
  ew_date :: "int \<Rightarrow> string"

definition picks_apps :: "editor_world \<Rightarrow> routing_source \<Rightarrow> bool" where
  "picks_apps w kind \<longleftrightarrow> kind = Apps \<and> \<not> ew_ios w"

definition entry_detail :: "texts \<Rightarrow> editor_world \<Rightarrow> routing_source \<Rightarrow> string \<Rightarrow> string option" where
  "entry_detail t w kind v =
     (if kind = Ruleset then Some (list_detail t (ew_date w) (ew_lists w) v)
      else if picks_apps w kind then ew_labels w v else None)"

definition entry_parts :: "texts \<Rightarrow> editor_world \<Rightarrow> routing_source \<Rightarrow> value_list \<Rightarrow> entry_editor \<Rightarrow> entry_part list" where
  "entry_parts t w kind vl e =
     (let values = ed_values e; apps = picks_apps w kind in
      (if values = [] then [EmptyHint]
       else [Entries (map (\<lambda>v. value_row (apps \<and> \<not> ew_android w) (entry_detail t w kind v) v)
               (value_rows (vl_expanded vl) (vl_filter vl) values))])
      @ (if apps then (if ew_android w then [] else [TextField]) @ [ChooseApps]
         else case entry_choices kind of
             Some options \<Rightarrow> (if remaining_choices options values = [] then [] else [Chips (remaining_choices options values)])
           | None \<Rightarrow> [TextField])
      @ (if kind = Geosite \<or> kind = Geoip
         then [Suggestions (geo_suggestion t (source_slug kind) (ew_codes w (source_slug kind)) (ed_draft e) values)] else [])
      @ (if kind = Ruleset \<and> values \<noteq> [] then [UpdateLists (ew_updating w)] else []))"

section \<open>Options of a rule\<close>

text \<open>The resolver field under a rule: what is stored, whether the field is open, what is typed.\<close>

record rule_options =
  ro_dns :: string
  ro_open :: bool
  ro_draft :: string

definition opened_options :: "string \<Rightarrow> rule_options" where
  "opened_options dns = \<lparr>ro_dns = dns, ro_open = (dns \<noteq> []), ro_draft = dns\<rparr>"

text \<open>The effects run when the stored address changes.\<close>

definition dns_stored :: "string \<Rightarrow> rule_options \<Rightarrow> rule_options" where
  "dns_stored dns r =
     (if dns = ro_dns r then r
      else \<lparr>ro_dns = dns, ro_open = (ro_open r \<or> dns \<noteq> []), ro_draft = dns\<rparr>)"

datatype options_event = OpenDns | TypeDns string | SaveDns | RemoveDns | StoredElsewhere string

definition options_step :: "(string \<Rightarrow> bool) \<Rightarrow> options_event \<Rightarrow> rule_options \<Rightarrow> rule_options" where
  "options_step valid e r = (case e of
     OpenDns \<Rightarrow> r\<lparr>ro_open := True\<rparr>
   | TypeDns s \<Rightarrow> r\<lparr>ro_draft := s\<rparr>
   | SaveDns \<Rightarrow> (case save_dns valid (ro_dns r) (ro_draft r) of Some dns \<Rightarrow> dns_stored dns r | None \<Rightarrow> r)
   | RemoveDns \<Rightarrow> dns_stored [] (r\<lparr>ro_draft := [], ro_open := False\<rparr>)
   | StoredElsewhere dns \<Rightarrow> dns_stored dns r)"

definition dns_invalid :: "(string \<Rightarrow> bool) \<Rightarrow> rule_options \<Rightarrow> bool" where
  "dns_invalid valid r \<longleftrightarrow> js_trim (ro_draft r) \<noteq> [] \<and> \<not> valid (ro_draft r)"

text \<open>What is shown: the button that opens the field, or the field with the line under it.\<close>

definition dns_button :: "routing_kind \<Rightarrow> routing_action option \<Rightarrow> bool \<Rightarrow> rule_options \<Rightarrow> bool" where
  "dns_button kind a inverted r \<longleftrightarrow> can_dns kind a inverted \<and> \<not> ro_open r"

definition dns_line :: "texts \<Rightarrow> (string \<Rightarrow> bool) \<Rightarrow> routing_kind \<Rightarrow> routing_action option \<Rightarrow> bool \<Rightarrow> rule_options \<Rightarrow> string option" where
  "dns_line t valid kind a inverted r =
     (if can_dns kind a inverted \<and> ro_open r
      then Some (t (if dns_invalid valid r then ''routing.dns.invalid'' else ''routing.dns.hint'') None) else None)"

section \<open>Notes\<close>

record note_editor =
  ne_text :: string
  ne_draft :: string

datatype note_event = TypeNote string | BlurNote | NoteStored string

text \<open>A note is saved when it loses focus, if it differs; a text stored elsewhere replaces what is typed.\<close>

definition note_stored :: "string \<Rightarrow> note_editor \<Rightarrow> note_editor" where
  "note_stored text n = (if text = ne_text n then n else \<lparr>ne_text = text, ne_draft = text\<rparr>)"

definition note_step :: "note_event \<Rightarrow> note_editor \<Rightarrow> note_editor \<times> string option" where
  "note_step e n = (case e of
     TypeNote s \<Rightarrow> (n\<lparr>ne_draft := s\<rparr>, None)
   | BlurNote \<Rightarrow> if ne_draft n \<noteq> ne_text n then (note_stored (ne_draft n) n, Some (ne_draft n)) else (n, None)
   | NoteStored s \<Rightarrow> (note_stored s n, None))"

section \<open>Properties\<close>

lemma js_split_has: "2 \<le> length (js_split c s) \<longleftrightarrow> c \<in> set s"
proof (induction s)
  case (Cons x s)
  then show ?case using js_split_nonempty [of c s] by (auto split: list.splits)
qed simp

lemma dotted_name_valid: "dotted_name host \<and> length host \<le> 253 \<longleftrightarrow> valid_hostname host"
  by (auto simp: dotted_name_def valid_hostname_def Let_def js_split_has)

lemma dotted_quad_name: "dotted_quad host \<Longrightarrow> dotted_name host"
  by (auto simp: dotted_quad_def dotted_name_def host_label_def digit_def host_char_def Let_def list_all_iff)

text \<open>What the service asks of the parts of an address.\<close>

definition service_takes :: "(string \<Rightarrow> bool) \<Rightarrow> url_parts \<Rightarrow> bool" where
  "service_takes parse_ip u \<longleftrightarrow>
     (let host = strip_brackets (up_host u); scheme = js_lower (up_scheme u) in
      host \<noteq> [] \<and> up_user u = [] \<and> up_password u = [] \<and> scheme \<in> set DNS_SCHEMES
      \<and> (\<forall>p. up_port u = Some p \<longrightarrow> 1 \<le> p \<and> p \<le> 65535) \<and> (parse_ip host \<or> valid_hostname host)
      \<and> (web_scheme scheme \<or> up_path u = [] \<or> up_path u = ''/''))"

lemma known_scheme:
  "default_port (if scheme = ''http3'' then ''h3'' else scheme) = None \<longleftrightarrow> scheme \<notin> set DNS_SCHEMES"
  "(if scheme = ''http3'' then ''h3'' else scheme) = ''https'' \<or> (if scheme = ''http3'' then ''h3'' else scheme) = ''h3''
    \<longleftrightarrow> web_scheme scheme"
  by (auto simp: default_port_def DNS_SCHEMES_def web_scheme_def map_of_eq_None_iff)

lemma bind_not_none: "Option.bind x f \<noteq> None \<longleftrightarrow> (\<exists>y. x = Some y \<and> f y \<noteq> None)"
  by (cases x) auto

lemma service_parses:
  assumes "js_trim typed \<noteq> []" "js_lower (js_trim typed) \<noteq> ''local''" "js_lower (js_trim typed) \<noteq> ''system''"
    and "parse (with_scheme (js_trim typed)) = Some u"
  shows "parse_dns_server parse parse_ip typed \<noteq> None \<longleftrightarrow> service_takes parse_ip u"
proof -
  let ?s = "js_lower (up_scheme u)" and ?h = "strip_brackets (up_host u)"
  let ?t = "if ?s = ''http3'' then ''h3'' else ?s"
  have p: "(case up_port u of Some p \<Rightarrow> if p < 1 \<or> 65535 < p then None else Some p | None \<Rightarrow> Some (d :: nat)) \<noteq> None
      \<longleftrightarrow> (\<forall>p. up_port u = Some p \<longrightarrow> 1 \<le> p \<and> p \<le> 65535)" for d
    by (auto split: option.split)
  show ?thesis
  proof (cases "default_port ?t")
    case None
    then show ?thesis using assms known_scheme(1) [of ?s]
      by (simp add: parse_dns_server_def service_takes_def Let_def)
  next
    case (Some d)
    then have k: "?s \<in> set DNS_SCHEMES" using known_scheme(1) [of ?s] by auto
    show ?thesis
    proof (cases "up_port u")
      case None
      then show ?thesis using assms Some k known_scheme(2) [of ?s]
        by (simp add: parse_dns_server_def service_takes_def Let_def) blast
    next
      case (Some q)
      with \<open>default_port ?t = Some d\<close> show ?thesis using assms k known_scheme(2) [of ?s]
        by (simp add: parse_dns_server_def service_takes_def Let_def) (blast | arith)
    qed
  qed
qed

lemma window_accepts:
  assumes "js_trim typed \<noteq> []" "js_lower (js_trim typed) \<noteq> ''local''" "js_lower (js_trim typed) \<noteq> ''system''"
    and "parse (with_scheme (js_trim typed)) = Some u"
  shows "valid_dns_address parse typed \<longleftrightarrow>
    (let host = strip_brackets (up_host u); scheme = js_lower (up_scheme u) in
      host \<noteq> [] \<and> up_user u = [] \<and> up_password u = [] \<and> scheme \<in> set DNS_SCHEMES
      \<and> (CHR '':'' \<in> set host \<or> dotted_name host)
      \<and> (web_scheme scheme \<or> up_path u = [] \<or> up_path u = ''/''))"
  using assms dotted_quad_name by (simp add: valid_dns_address_def Let_def) blast


definition port_zero :: "string \<Rightarrow> url_parts option" where
  "port_zero s = Some \<lparr>up_scheme = ''udp'', up_user = [], up_password = [], up_host = ''1.1.1.1'', up_port = Some 0, up_path = []\<rparr>"


text \<open>The stored address is blank or one that was accepted, trimmed, whatever is typed and pressed.\<close>

definition stored_dns_ok :: "(string \<Rightarrow> bool) \<Rightarrow> string \<Rightarrow> bool" where
  "stored_dns_ok valid dns \<longleftrightarrow> dns = [] \<or> valid dns \<and> js_trim dns = dns"

lemma dns_step_ok:
  assumes "stored_dns_ok valid (ro_dns r)" "\<And>dns. e = StoredElsewhere dns \<Longrightarrow> stored_dns_ok valid dns"
  shows "stored_dns_ok valid (ro_dns (options_step valid e r))"
  using assms
  by (cases e) (auto simp: options_step_def dns_stored_def save_dns_def stored_dns_ok_def Let_def js_trim_idem split: option.splits)

text \<open>the resolver stored for a rule is always none or one the check accepts, and while the field is open with
  something typed that is not accepted this is said and saving changes nothing.\<close>

theorem stored_resolver_always_valid:
  assumes "stored_dns_ok valid dns" "list_all (\<lambda>e. \<forall>d. e = StoredElsewhere d \<longrightarrow> stored_dns_ok valid d) es"
    and "r = fold (options_step valid) es (opened_options dns)"
    and "\<And>s. valid s = valid (js_trim s)"
  shows "stored_dns_ok valid (ro_dns r) \<and> (dns_invalid valid r \<longrightarrow> options_step valid SaveDns r = r)
    \<and> ro_dns (options_step valid RemoveDns r) = []"
proof -
  have "stored_dns_ok valid (ro_dns q) \<Longrightarrow> list_all (\<lambda>e. \<forall>d. e = StoredElsewhere d \<longrightarrow> stored_dns_ok valid d) es
      \<Longrightarrow> stored_dns_ok valid (ro_dns (fold (options_step valid) es q))" for q
  proof (induction es arbitrary: q)
    case (Cons e es)
    then have "stored_dns_ok valid (ro_dns (options_step valid e q))" by (intro dns_step_ok) auto
    with Cons show ?case by simp
  qed simp
  from this [of "opened_options dns"] assms(1-3) have "stored_dns_ok valid (ro_dns r)" by (simp add: opened_options_def)
  moreover have "options_step valid SaveDns r = r" if "dns_invalid valid r"
    using that assms(4) [of "ro_draft r"] by (simp add: dns_invalid_def options_step_def save_dns_def Let_def)
  ultimately show ?thesis by (simp add: options_step_def dns_stored_def)
qed

theorem stored_resolver_always_valid_witness:
  "stored_dns_ok (\<lambda>s. js_trim s = ''1.1.1.1'')
     (ro_dns (fold (options_step (\<lambda>s. js_trim s = ''1.1.1.1'')) [OpenDns, TypeDns ''1.1.1'', SaveDns, TypeDns ''1.1.1.1 '', SaveDns] (opened_options [])))"
  using stored_resolver_always_valid [of "\<lambda>s. js_trim s = ''1.1.1.1''" "[]"
      "[OpenDns, TypeDns ''1.1.1'', SaveDns, TypeDns ''1.1.1.1 '', SaveDns]", OF _ _ refl]
  by (simp add: stored_dns_ok_def)

text \<open>a note is stored as it was typed when the field is left, once, and nothing is stored that was not typed;
  but a text stored meanwhile - by undo, or from another setup - replaces what was being typed.\<close>

theorem note_saved_on_leaving:
  "let n = fst (note_step (TypeNote typed) n0) in
    snd (note_step BlurNote n) = (if typed = ne_text n0 then None else Some typed)
    \<and> ne_text (fst (note_step BlurNote n)) = typed
    \<and> snd (note_step BlurNote (fst (note_step BlurNote n))) = None
    \<and> ne_draft (fst (note_step (NoteStored other) n)) = (if other = ne_text n0 then typed else other)"
  by (simp add: note_step_def note_stored_def Let_def)

end
