(* ===== verification/Lists_Screen.thy ===== *)
theory Lists_Screen
  imports Server_List App_Shell Country_Flags Settings_Screen
begin

text \<open>
  What the two screens of cards show and what their bars ask for: the servers of a subscription
  (components/views/ProxiesView.tsx) and the configurations (components/views/ConfigurationView.tsx).
  Which cards there are and which of them are picked is in \<open>Server_List\<close>.
\<close>

section \<open>A server's card\<close>

text \<open>A latency: not there yet, none, or milliseconds.\<close>

definition ping_label :: "texts \<Rightarrow> jsnum option option \<Rightarrow> string" where
  "ping_label t ping = (case ping of
     None \<Rightarrow> ELLIPSIS
   | Some None \<Rightarrow> t ''proxies.noPing'' None
   | Some (Some ms) \<Rightarrow> t ''proxies.ms'' (Some [(''ms'', NumParam ms)]))"

definition upper :: "string \<Rightarrow> string" where
  "upper s = map (\<lambda>c. let n = (of_char c :: nat) in if 97 \<le> n \<and> n \<le> 122 then char_of (n - 32) else c) s"

record server_card =
  sd_label :: string
  sd_pressed :: bool
  sd_tick :: "bool option"
  sd_name :: string
  sd_checked :: bool
  sd_line :: string
  sd_title :: string
  sd_ping :: "string \<times> ping_tone"
  sd_star :: "(bool \<times> string) option"
  sd_dashed :: bool

text \<open>The list's own state, and what it is drawn from.\<close>

record server_screen =
  ss_servers :: "profile list"
  ss_query :: string
  ss_starred :: bool
  ss_sort :: server_sort
  ss_pings :: "(string, jsnum option) omap"
  ss_mode :: proxy_mode
  ss_selected :: string
  ss_unsupported :: "string \<rightharpoonup> string"
  ss_picking :: picking
  ss_busy :: bool
  ss_testing :: bool
  ss_confirm :: bool

text \<open>\<open>lc\<close> is the comparison of names of the user's language.\<close>

definition shown_of :: "(string \<Rightarrow> string \<Rightarrow> bool) \<Rightarrow> server_screen \<Rightarrow> profile list" where
  "shown_of lc v = shown_servers lc (ss_servers v) (ss_query v) (ss_starred v) (ss_sort v) (ss_pings v)"

definition blocked_reason :: "server_screen \<Rightarrow> profile \<Rightarrow> string option" where
  "blocked_reason v p = (if or_else (ss_unsupported v (p_id p)) [] \<noteq> [] then ss_unsupported v (p_id p) else None)"

definition draw_server :: "texts \<Rightarrow> server_screen \<Rightarrow> profile \<Rightarrow> server_card" where
  "draw_server t v p =
     (let ping = om_get (ss_pings v) (p_id p);
          selected = ss_mode v = Manual \<and> ss_selected v = p_id p;
          is_picked = p_id p \<in> set (pk_picked (ss_picking v));
          selecting = pk_on (ss_picking v);
          blocked = blocked_reason v p in
      \<lparr>sd_label = p_name p @ '', '' @ p_protocol p @ '', '' @ or_else (ss_unsupported v (p_id p)) (ping_label t ping),
       sd_pressed = (if selecting then is_picked else selected),
       sd_tick = (if selecting then Some is_picked else None),
       sd_name = flagless (p_name p),
       sd_checked = (selected \<and> \<not> selecting),
       sd_line = (if blocked \<noteq> None then t ''core.needsOther'' None
                  else upper (p_protocol p) @ MIDDOT @ p_server p),
       sd_title = or_else blocked (p_server p @ '' ('' @ p_protocol p @ '')''),
       sd_ping = (ping_label t ping, tone_of_ping ping),
       sd_star = (if selecting then None
                  else Some (starred p, t (if starred p then ''proxies.unstar'' else ''proxies.star'') (Some [(''name'', TextParam (p_name p))]))),
       sd_dashed = (blocked \<noteq> None \<and> \<not> selecting)\<rparr>)"

text \<open>The small buttons of a card: edit, export and star; the event does not reach the card.\<close>

datatype server_call =
    EditServer profile | ExportServers string "profile list" | SetFavorite "string list" bool
  | TestServers "string list option" | SelectServer string | AddToChain "string list" | DeleteServers "string list" | RefreshList | SelectAuto

datatype card_button = EditButton | ExportButton | StarButton

definition press_card_button :: "card_button \<Rightarrow> profile \<Rightarrow> server_call" where
  "press_card_button b p = (case b of
     EditButton \<Rightarrow> EditServer p
   | ExportButton \<Rightarrow> ExportServers (p_name p) [p]
   | StarButton \<Rightarrow> SetFavorite [p_id p] (\<not> starred p))"

section \<open>Above and between the cards\<close>

definition screen_line :: "texts \<Rightarrow> string \<Rightarrow> server_screen \<Rightarrow> string" where
  "screen_line t chosen_source v =
     (let domain = trimmed_or_local chosen_source in
      if pk_on (ss_picking v) then t ''configuration.bulk.hint'' None
      else if domain \<noteq> LOCAL
      then t ''proxies.description'' (Some [(''count'', NumParam (Fin (of_nat (length (ss_servers v))))), (''domain'', TextParam domain)])
      else t ''proxies.single'' None)"

datatype header_button = CancelButton | TestButton bool | SelectButton | ExportAll string | RefreshButton bool string | AddButton

definition server_header :: "texts \<Rightarrow> string \<Rightarrow> bool \<Rightarrow> server_screen \<Rightarrow> header_button list" where
  "server_header t chosen_source refreshing v =
     (if trimmed_or_local chosen_source = LOCAL then []
      else if pk_on (ss_picking v) then [CancelButton]
      else [TestButton (ss_testing v)]
        @ (if 1 < length (ss_servers v) then [SelectButton] else [])
        @ (if ss_servers v \<noteq> [] then [ExportAll (trimmed_or_local chosen_source)] else [])
        @ [RefreshButton refreshing (t (if refreshing then ''proxies.refreshing'' else ''proxies.refresh'') None)])"

text \<open>The card of the automatic choice: whether it is pressed, its line, and the latency of the best server.\<close>

definition auto_card :: "texts \<Rightarrow> profile option \<Rightarrow> server_screen \<Rightarrow> (bool \<times> string \<times> (string \<times> ping_tone) option) option" where
  "auto_card t best v =
     (if pk_on (ss_picking v) then None
      else Some (ss_mode v = Auto,
        (case best of Some b \<Rightarrow> t ''proxies.fastest'' (Some [(''name'', TextParam (p_name b))]) | None \<Rightarrow> t ''proxies.autoHint'' None),
        map_option (\<lambda>b. let ping = om_get (ss_pings v) (p_id b) in (ping_label t ping, tone_of_ping ping)) best))"

definition shows_search :: "server_screen \<Rightarrow> bool" where
  "shows_search v \<longleftrightarrow> 3 < length (ss_servers v)"

definition SORT_LABELS :: "(server_sort \<times> string) list" where
  "SORT_LABELS = [(ByList, ''proxies.sort.list''), (ByName, ''proxies.sort.name''), (ByPing, ''proxies.sort.ping'')]"

text \<open>The body: a line where there is nothing, or the sections with their cards - a heading's name, how
  many are under it and whether it is open.\<close>

datatype list_body =
    BodyLine string
  | BodyCards "((string \<times> string \<times> bool) option \<times> server_card list) list"

definition server_body :: "texts \<Rightarrow> (string \<Rightarrow> string \<Rightarrow> bool) \<Rightarrow> string \<Rightarrow> string list \<Rightarrow> server_screen \<Rightarrow> list_body" where
  "server_body t lc chosen_source collapsed v =
     (if trimmed_or_local chosen_source = LOCAL then BodyLine (t ''proxies.pick'' None)
      else if ss_servers v = [] then BodyLine (t ''proxies.empty'' None)
      else if shown_of lc v = [] then BodyLine (t ''proxies.noMatch'' None)
      else BodyCards (map (\<lambda>(name, ps).
        (map_option (\<lambda>n. (n, t ''connections.servers'' (Some [(''count'', NumParam (Fin (of_nat (length ps))))]),
                          section_open (ss_query v) collapsed n)) name,
         map (draw_server t v) ps)) (server_sections (ss_servers v) (shown_of lc v))))"

section \<open>The bar for several servers\<close>

text \<open>Servers that are gone leave what is picked; those a search hides do not.\<close>

definition servers_changed :: "profile list \<Rightarrow> server_screen \<Rightarrow> server_screen" where
  "servers_changed ps v = v\<lparr>ss_servers := ps, ss_picking := prune_picked (map p_id ps) (ss_picking v)\<rparr>"

definition all_picked :: "(string \<Rightarrow> string \<Rightarrow> bool) \<Rightarrow> server_screen \<Rightarrow> bool" where
  "all_picked lc v \<longleftrightarrow>
     shown_of lc v \<noteq> [] \<and> list_all (\<lambda>p. p_id p \<in> set (pk_picked (ss_picking v))) (shown_of lc v)"

definition picked_starred :: "server_screen \<Rightarrow> nat" where
  "picked_starred v = length (filter (\<lambda>p. p_id p \<in> set (pk_picked (ss_picking v)) \<and> starred p) (ss_servers v))"

definition press_all :: "(string \<Rightarrow> string \<Rightarrow> bool) \<Rightarrow> server_screen \<Rightarrow> server_screen" where
  "press_all lc v =
     v\<lparr>ss_picking := (if all_picked lc v then (ss_picking v)\<lparr>pk_picked := []\<rparr> else pick_all (map p_id (shown_of lc v)) (ss_picking v))\<rparr>"

datatype bulk_button = BulkTest | BulkStar bool | BulkChain | BulkExport | BulkDelete

definition star_button :: "server_screen \<Rightarrow> bulk_button" where
  "star_button v = BulkStar (picked_starred v < length (pk_picked (ss_picking v)))"

definition bulk_off :: "server_screen \<Rightarrow> bool" where
  "bulk_off v \<longleftrightarrow> ss_busy v \<or> pk_picked (ss_picking v) = []"

text \<open>A press: the state after, and the call it makes; the calls but the export keep the bar busy until they end.\<close>

definition press_bulk :: "texts \<Rightarrow> bulk_button \<Rightarrow> server_screen \<Rightarrow> server_screen \<times> server_call option" where
  "press_bulk t b v =
     (let ids = pk_picked (ss_picking v) in
      if bulk_off v then (v, None)
      else case b of
        BulkTest \<Rightarrow> (v\<lparr>ss_busy := True\<rparr>, Some (TestServers (Some ids)))
      | BulkStar star \<Rightarrow> (v\<lparr>ss_busy := True\<rparr>, Some (SetFavorite ids star))
      | BulkChain \<Rightarrow> (v\<lparr>ss_busy := True\<rparr>, Some (AddToChain ids))
      | BulkExport \<Rightarrow>
          (let chosen = filter (\<lambda>p. p_id p \<in> set ids) (ss_servers v) in
           (v, Some (ExportServers (t ''connections.servers'' (Some [(''count'', NumParam (Fin (of_nat (length chosen))))])) chosen)))
      | BulkDelete \<Rightarrow> (v\<lparr>ss_confirm := True\<rparr>, None))"

definition bulk_ended :: "server_screen \<Rightarrow> server_screen" where
  "bulk_ended v = v\<lparr>ss_busy := False\<rparr>"

definition delete_title :: "texts \<Rightarrow> server_screen \<Rightarrow> string" where
  "delete_title t v = t ''proxies.bulk.deleteTitle'' (Some [(''count'', NumParam (Fin (of_nat (length (pk_picked (ss_picking v))))))])"

definition confirm_delete :: "server_screen \<Rightarrow> server_screen \<times> server_call option" where
  "confirm_delete v =
     (if ss_busy v \<or> \<not> ss_confirm v then (v, None)
      else (v\<lparr>ss_busy := True\<rparr>, Some (DeleteServers (pk_picked (ss_picking v)))))"

text \<open>The deletion ended: closed and no longer selecting, unless it failed.\<close>

definition delete_ended :: "bool \<Rightarrow> server_screen \<Rightarrow> server_screen" where
  "delete_ended ok v =
     (if ok then v\<lparr>ss_busy := False, ss_confirm := False, ss_picking := no_picking\<rparr> else v\<lparr>ss_busy := False\<rparr>)"

definition test_all :: "server_screen \<Rightarrow> server_screen \<times> server_call option" where
  "test_all v = (if ss_testing v then (v, None) else (v\<lparr>ss_testing := True\<rparr>, Some (TestServers None)))"

text \<open>Everything that happens on the screen, as one step: the state after and the call made.\<close>

datatype server_event =
    ServersAre "profile list" | DomainLeft "profile list" | TypeQuery string | ToggleStarred | SortBy server_sort
  | ClickCard string bool bool | CardButton card_button profile | SelectPressed | CancelPressed | EscapePressed | AllKeyPressed
  | PressAll | PressBulk bulk_button | BulkEnded | ConfirmDelete | CancelDelete | DeleteEnded bool | TestAll | TestEnded

definition server_step :: "texts \<Rightarrow> (string \<Rightarrow> string \<Rightarrow> bool) \<Rightarrow> server_event \<Rightarrow> server_screen \<Rightarrow> server_screen \<times> server_call option" where
  "server_step t lc e v = (let pk = ss_picking v in case e of
     ServersAre ps \<Rightarrow> (servers_changed ps v, None)
   | DomainLeft ps \<Rightarrow> (servers_changed ps (v\<lparr>ss_picking := leave_list pk\<rparr>), None)
   | TypeQuery q \<Rightarrow> (v\<lparr>ss_query := q\<rparr>, None)
   | ToggleStarred \<Rightarrow> (v\<lparr>ss_starred := \<not> ss_starred v\<rparr>, None)
   | SortBy by \<Rightarrow> (v\<lparr>ss_sort := by\<rparr>, None)
   | ClickCard k toggle shift \<Rightarrow> (case click_server (ss_unsupported v) (map p_id (shown_of lc v)) k toggle shift pk of
        Inl reason \<Rightarrow> (v, None)
      | Inr (Inl i) \<Rightarrow> (v, Some (SelectServer i))
      | Inr (Inr pk') \<Rightarrow> (v\<lparr>ss_picking := pk'\<rparr>, None))
   | CardButton b p \<Rightarrow> (v, if pk_on pk then None else Some (press_card_button b p))
   | SelectPressed \<Rightarrow> (v\<lparr>ss_picking := pk\<lparr>pk_on := True\<rparr>\<rparr>, None)
   | CancelPressed \<Rightarrow> (v\<lparr>ss_picking := no_picking\<rparr>, None)
   | EscapePressed \<Rightarrow> (if pk_on pk then v\<lparr>ss_picking := no_picking\<rparr> else v, None)
   | AllKeyPressed \<Rightarrow> (if pk_on pk then v\<lparr>ss_picking := pick_all (map p_id (shown_of lc v)) pk\<rparr> else v, None)
   | PressAll \<Rightarrow> (press_all lc v, None)
   | PressBulk b \<Rightarrow> press_bulk t b v
   | BulkEnded \<Rightarrow> (bulk_ended v, None)
   | ConfirmDelete \<Rightarrow> confirm_delete v
   | CancelDelete \<Rightarrow> (v\<lparr>ss_confirm := False\<rparr>, None)
   | DeleteEnded ok \<Rightarrow> (delete_ended ok v, None)
   | TestAll \<Rightarrow> test_all v
   | TestEnded \<Rightarrow> (v\<lparr>ss_testing := False\<rparr>, None))"

section \<open>Configurations\<close>

fun source_label :: "config_source \<Rightarrow> string" where
  "source_label (SubscriptionSource key domain label detail n info) = label"
| "source_label (ProfileSource key label detail pid) = label"

fun source_key_of :: "config_source \<Rightarrow> string" where
  "source_key_of (SubscriptionSource key domain label detail n info) = key"
| "source_key_of (ProfileSource key label detail pid) = key"

fun detail_of :: "texts \<Rightarrow> config_source \<Rightarrow> string" where
  "detail_of t (SubscriptionSource key domain label detail n info) = t ''sources.proxies'' (Some [(''count'', NumParam (Fin (of_nat n)))])"
| "detail_of t (ProfileSource key label detail pid) = detail"

fun source_selected :: "string \<Rightarrow> string \<Rightarrow> config_source \<Rightarrow> bool" where
  "source_selected selected profile_id (SubscriptionSource key domain label detail n info) = (selected = domain)"
| "source_selected selected profile_id (ProfileSource key label detail pid) = (selected = LOCAL \<and> profile_id = pid)"

fun source_refreshing :: "string \<Rightarrow> config_source \<Rightarrow> bool" where
  "source_refreshing refreshing (SubscriptionSource key domain label detail n info) = (refreshing = trimmed_or_local domain)"
| "source_refreshing refreshing (ProfileSource key label detail pid) = False"

fun source_line :: "texts \<Rightarrow> config_source \<Rightarrow> string" where
  "source_line t (SubscriptionSource key domain label detail n info) =
     (let d = detail_of t (SubscriptionSource key domain label detail n info) in
      if label \<noteq> domain then domain @ MIDDOT @ d else d)"
| "source_line t (ProfileSource key label detail pid) = detail"

datatype source_button = ShareSource | EditSource | ExportSource | RefreshSourceButton bool | DeleteSourceButton

text \<open>The buttons of a configuration's card, none while selecting.\<close>

definition is_subscription_source :: "config_source \<Rightarrow> bool" where
  "is_subscription_source s = (case s of SubscriptionSource _ _ _ _ _ _ \<Rightarrow> True | ProfileSource _ _ _ _ \<Rightarrow> False)"

definition source_buttons_of :: "profile list \<Rightarrow> string \<Rightarrow> bool \<Rightarrow> config_source \<Rightarrow> source_button list" where
  "source_buttons_of ps refreshing selecting s =
     (if selecting then []
      else (if link_of ps s \<noteq> [] then [ShareSource] else []) @ [EditSource, ExportSource]
        @ (if is_subscription_source s then [RefreshSourceButton (source_refreshing refreshing s)] else []) @ [DeleteSourceButton])"

record source_card =
  so_label :: string
  so_pressed :: bool
  so_tick :: "bool option"
  so_name :: string
  so_line :: string
  so_spins :: bool
  so_buttons :: "source_button list"

definition draw_source :: "texts \<Rightarrow> profile list \<Rightarrow> string \<Rightarrow> string \<Rightarrow> string \<Rightarrow> picking \<Rightarrow> config_source \<Rightarrow> source_card" where
  "draw_source t ps selected profile_id refreshing pk s =
     (let is_picked = source_key_of s \<in> set (pk_picked pk) in
      \<lparr>so_label = source_label s @ '', '' @ detail_of t s,
       so_pressed = (if pk_on pk then is_picked else source_selected selected profile_id s),
       so_tick = (if pk_on pk then Some is_picked else None),
       so_name = source_label s, so_line = source_line t s,
       so_spins = (source_refreshing refreshing s \<and> pk_on pk),
       so_buttons = source_buttons_of ps refreshing (pk_on pk) s\<rparr>)"

definition source_header :: "config_source list \<Rightarrow> picking \<Rightarrow> header_button list" where
  "source_header sources pk =
     (if sources = [] then []
      else if pk_on pk then [CancelButton]
      else (if 1 < length sources then [SelectButton] else []) @ [AddButton])"

definition picked_sources :: "config_source list \<Rightarrow> picking \<Rightarrow> config_source list" where
  "picked_sources sources pk = filter (\<lambda>s. source_key_of s \<in> set (pk_picked pk)) sources"

definition all_sources_picked :: "config_source list \<Rightarrow> picking \<Rightarrow> bool" where
  "all_sources_picked sources pk \<longleftrightarrow> sources \<noteq> [] \<and> length (pk_picked pk) = length sources"

definition press_all_sources :: "config_source list \<Rightarrow> picking \<Rightarrow> picking" where
  "press_all_sources sources pk =
     pk\<lparr>pk_picked := if all_sources_picked sources pk then [] else js_unique (map source_key_of sources)\<rparr>"

text \<open>Which buttons of the bar are off: refreshing needs a subscription among what is picked.\<close>

definition source_bulk_off :: "bool \<Rightarrow> config_source list \<Rightarrow> picking \<Rightarrow> bool \<times> bool" where
  "source_bulk_off busy sources pk =
     (busy \<or> filter is_subscription_source (picked_sources sources pk) = [], busy \<or> pk_picked pk = [])"

text \<open>What is exported: the servers of one configuration, or of all that are picked.\<close>

definition export_of :: "profile list \<Rightarrow> config_source \<Rightarrow> string \<times> profile list" where
  "export_of ps s = (source_label s, filter (\<lambda>p. p_id p \<in> set (ids_of ps [s])) ps)"

definition export_of_picked :: "profile list \<Rightarrow> config_source list \<Rightarrow> picking \<Rightarrow> string \<times> profile list" where
  "export_of_picked ps sources pk =
     (let picked = picked_sources sources pk;
          chosen = filter (\<lambda>p. p_id p \<in> set (ids_of ps picked)) ps in
      ((case picked of [s] \<Rightarrow> source_label s
        | _ \<Rightarrow> nat_str (length picked) @ '' Configurations ('' @ nat_str (length chosen) @ '' proxies)''), chosen))"

text \<open>The dialog before deleting: its title, and the first five names.\<close>

definition delete_lines :: "texts \<Rightarrow> config_source list \<Rightarrow> picking \<Rightarrow> string \<times> string" where
  "delete_lines t sources pk =
     (let picked = picked_sources sources pk; number = (\<lambda>n. NumParam (Fin (of_nat n))) in
      (t ''configuration.bulk.deleteTitle'' (Some [(''count'', number (length picked))]),
       js_join '', '' (map source_label (take 5 picked))
       @ (if 5 < length picked then t ''configuration.bulk.andMore'' (Some [(''count'', number (length picked - 5))]) else [])))"

text \<open>Edit opens the server's own editor where it is known, else the configuration's.\<close>

definition edit_source :: "profile list \<Rightarrow> config_source \<Rightarrow> config_source + profile" where
  "edit_source ps s = (case s of
     ProfileSource _ _ _ pid \<Rightarrow> (case find (\<lambda>p. p_id p = pid) ps of Some p \<Rightarrow> Inr p | None \<Rightarrow> Inl s)
   | SubscriptionSource _ _ _ _ _ _ \<Rightarrow> Inl s)"

section \<open>Properties\<close>

text \<open>Clicks and buttons are on cards that are shown.\<close>

fun on_screen :: "(string \<Rightarrow> string \<Rightarrow> bool) \<Rightarrow> server_event \<Rightarrow> server_screen \<Rightarrow> bool" where
  "on_screen lc (ClickCard k toggle shift) v = (k \<in> p_id ` set (shown_of lc v))"
| "on_screen lc (CardButton b p) v = (p \<in> set (shown_of lc v))"
| "on_screen lc e v = True"

inductive server_reachable :: "texts \<Rightarrow> (string \<Rightarrow> string \<Rightarrow> bool) \<Rightarrow> server_screen \<Rightarrow> bool" for t lc where
  opened: "ss_picking v = no_picking \<Longrightarrow> server_reachable t lc v"
| stepped: "server_reachable t lc v \<Longrightarrow> on_screen lc e v \<Longrightarrow> server_reachable t lc (fst (server_step t lc e v))"

definition picks_ok :: "server_screen \<Rightarrow> bool" where
  "picks_ok v \<longleftrightarrow> distinct (pk_picked (ss_picking v)) \<and> set (pk_picked (ss_picking v)) \<subseteq> p_id ` set (ss_servers v)"

lemma shown_sub: "set (shown_of lc v) \<subseteq> set (ss_servers v)"
  by (auto simp: shown_of_def shown_servers_def)

lemma click_picks:
  assumes "click_server u keys k toggle shift pk = Inr (Inr pk')" "k \<in> set keys" "distinct (pk_picked pk)"
  shows "distinct (pk_picked pk') \<and> set (pk_picked pk') \<subseteq> set (pk_picked pk) \<union> set keys"
proof -
  from assms(1) have "click_card keys k toggle shift pk = Inr pk'"
    by (auto simp: click_server_def split: sum.splits option.splits list.splits)
  then consider ks where "Option.bind (pk_anchor pk) (\<lambda>a. if a = [] then None else keys_between keys a k) = Some ks"
        "pk_picked pk' = add_keys (pk_picked pk) ks"
    | "pk_picked pk' = toggle_key k (pk_picked pk)"
    by (auto simp: click_card_def split: if_splits option.splits)
  then show ?thesis
  proof cases
    case 1
    then obtain a where "keys_between keys a k = Some ks" by (auto simp: bind_eq_Some_conv split: if_splits)
    from keys_between_sub [OF this] 1(2) assms(3) show ?thesis by (auto simp: add_keys_def)
  next
    case 2
    then show ?thesis using assms(2,3) by (auto simp: toggle_key_def)
  qed
qed

lemma picks_ok_none: "pk_picked (ss_picking v) = [] \<Longrightarrow> picks_ok v"
  by (simp add: picks_ok_def)

lemma picks_ok_step: "picks_ok v \<Longrightarrow> on_screen lc e v \<Longrightarrow> picks_ok (fst (server_step t lc e v))"
proof (cases e)
  case (ClickCard k toggle shift)
  assume ok: "picks_ok v" "on_screen lc e v"
  let ?r = "click_server (ss_unsupported v) (map p_id (shown_of lc v)) k toggle shift (ss_picking v)"
  show ?thesis
  proof (cases "\<exists>pk'. ?r = Inr (Inr pk')")
    case True
    then obtain pk' where r: "?r = Inr (Inr pk')" by blast
    with click_picks [OF r] ok ClickCard shown_sub [of lc v] show ?thesis
      by (fastforce simp: server_step_def picks_ok_def)
  next
    case False
    then have "fst (server_step t lc e v) = v" using ClickCard
      by (auto simp: server_step_def Let_def split: sum.split)
    with ok show ?thesis by simp
  qed
next
  case (PressBulk b)
  then show "picks_ok v \<Longrightarrow> ?thesis"
    by (auto simp: server_step_def press_bulk_def picks_ok_def Let_def split: bulk_button.split)
next
  case PressAll
  then show "picks_ok v \<Longrightarrow> ?thesis" using shown_sub [of lc v]
    by (auto simp: server_step_def press_all_def picks_ok_def pick_all_def)
next
  case AllKeyPressed
  then show "picks_ok v \<Longrightarrow> ?thesis" using shown_sub [of lc v]
    by (auto simp: server_step_def picks_ok_def pick_all_def Let_def)
qed (auto simp: server_step_def picks_ok_def servers_changed_def prune_picked_def leave_list_def no_picking_def
      bulk_ended_def confirm_delete_def delete_ended_def test_all_def Let_def)

lemma reachable_picks_ok: "server_reachable t lc v \<Longrightarrow> picks_ok v"
  by (induction rule: server_reachable.induct) (auto simp: no_picking_def intro: picks_ok_none picks_ok_step)

fun call_ids :: "server_call \<Rightarrow> string list" where
  "call_ids (EditServer p) = [p_id p]"
| "call_ids (ExportServers title ps) = map p_id ps"
| "call_ids (SetFavorite ids b) = ids"
| "call_ids (TestServers ids) = or_else ids []"
| "call_ids (SelectServer i) = [i]"
| "call_ids (AddToChain ids) = ids"
| "call_ids (DeleteServers ids) = ids"
| "call_ids RefreshList = []"
| "call_ids SelectAuto = []"

lemma bulk_calls:
  assumes "press_bulk t b v = (w, Some c)"
  shows "\<not> bulk_off v \<and> set (call_ids c) \<subseteq> set (pk_picked (ss_picking v)) \<union> p_id ` set (ss_servers v)
    \<and> (\<forall>i. c \<noteq> SelectServer i) \<and> (\<forall>ids. c \<noteq> DeleteServers ids)"
  using assms by (cases b) (auto simp: press_bulk_def Let_def split: if_splits)

text \<open>C21: whatever happens on the list of servers - cards clicked with and without keys, searches, refreshes that
  take servers away, answers that come late - a call names only servers the subscription has; none the core
  cannot run is selected; the bar calls nothing while a call of it runs; and servers are deleted
  only after the question, exactly those picked.\<close>

theorem calls_name_listed_servers:
  assumes "server_reachable t lc v" "on_screen lc e v" "server_step t lc e v = (w, Some c)"
  shows "set (call_ids c) \<subseteq> p_id ` set (ss_servers v)
    \<and> (\<forall>i. c = SelectServer i \<longrightarrow> or_else (ss_unsupported v i) [] = [])
    \<and> (\<forall>b. e = PressBulk b \<longrightarrow> \<not> ss_busy v)
    \<and> (\<forall>ids. c = DeleteServers ids \<longrightarrow> e = ConfirmDelete \<and> ss_confirm v \<and> \<not> ss_busy v \<and> ids = pk_picked (ss_picking v))"
proof (cases e)
  case (ClickCard k toggle shift)
  then have "click_server (ss_unsupported v) (map p_id (shown_of lc v)) k toggle shift (ss_picking v) = Inr (Inl k)" "c = SelectServer k"
    using assms(3) by (auto simp: server_step_def click_server_def click_card_def Let_def split: sum.splits if_splits option.splits list.splits)
  then have "or_else (ss_unsupported v k) [] = []" "c = SelectServer k"
    by (auto simp: click_server_def click_card_def split: if_splits option.splits list.splits)
  then show ?thesis using ClickCard assms(2) shown_sub [of lc v] by auto
next
  case (CardButton b p)
  then have "c = press_card_button b p" "p \<in> set (ss_servers v)"
    using assms(2,3) shown_sub [of lc v] by (auto simp: server_step_def Let_def split: if_splits)
  then show ?thesis using CardButton by (cases b) (auto simp: press_card_button_def)
next
  case (PressBulk b)
  then have "press_bulk t b v = (w, Some c)" using assms(3) by (simp add: server_step_def Let_def)
  from bulk_calls [OF this] reachable_picks_ok [OF assms(1)] PressBulk show ?thesis
    by (auto simp: picks_ok_def bulk_off_def)
next
  case ConfirmDelete
  then have "\<not> ss_busy v" "ss_confirm v" "c = DeleteServers (pk_picked (ss_picking v))"
    using assms(3) by (auto simp: server_step_def confirm_delete_def Let_def split: if_splits)
  then show ?thesis using ConfirmDelete reachable_picks_ok [OF assms(1)] by (auto simp: picks_ok_def)
qed (use assms(3) in \<open>auto simp: server_step_def test_all_def Let_def split: if_splits\<close>)

definition sample_screen :: server_screen where
  "sample_screen =
     \<lparr>ss_servers = [sample_profile ''a'' (Some ''x''), sample_profile ''b'' (Some ''x'')], ss_query = [], ss_starred = False,
      ss_sort = ByList, ss_pings = [], ss_mode = Manual, ss_selected = ''a'', ss_unsupported = Map.empty,
      ss_picking = no_picking, ss_busy = False, ss_testing = False, ss_confirm = False\<rparr>"

theorem calls_name_listed_servers_witness:
  "''b'' \<in> p_id ` set (ss_servers sample_screen)"
proof -
  have on: "on_screen (\<lambda>a b. True) (ClickCard ''b'' False False) sample_screen"
    by (simp add: sample_screen_def shown_of_def shown_servers_def matches_search_def sample_profile_def js_lower_def Let_def)
  have st: "server_step (\<lambda>k ps. k) (\<lambda>a b. True) (ClickCard ''b'' False False) sample_screen = (sample_screen, Some (SelectServer ''b''))"
    by (simp add: server_step_def click_server_def click_card_def sample_screen_def no_picking_def)
  have "server_reachable (\<lambda>k ps. k) (\<lambda>a b. True) sample_screen"
    by (rule server_reachable.opened) (simp add: sample_screen_def)
  from calls_name_listed_servers [OF this on st] show ?thesis by simp
qed

text \<open>servers picked and then hidden by a search stay picked: the bar counts them, and deleting deletes
  servers that are not on the screen.\<close>

theorem hidden_picks_are_deleted:
  assumes "i \<in> set (pk_picked (ss_picking v))" "\<not> ss_busy v" "\<not> ss_confirm v"
    and "i \<notin> p_id ` set (shown_of lc (v\<lparr>ss_query := q\<rparr>))"
    and "w = fst (server_step t lc (PressBulk BulkDelete) (fst (server_step t lc (TypeQuery q) v)))"
  shows "i \<notin> p_id ` set (shown_of lc w)
    \<and> (\<exists>ids. snd (server_step t lc ConfirmDelete w) = Some (DeleteServers ids) \<and> i \<in> set ids)"
  using assms by (auto simp: server_step_def press_bulk_def bulk_off_def confirm_delete_def shown_of_def Let_def)

theorem hidden_picks_are_deleted_witness:
  "\<exists>w ids. snd (server_step (\<lambda>k ps. k) (\<lambda>a b. True) ConfirmDelete w) = Some (DeleteServers ids)
     \<and> ''a'' \<in> set ids \<and> ''a'' \<notin> p_id ` set (shown_of (\<lambda>a b. True) w)"
proof -
  let ?v = "sample_screen\<lparr>ss_picking := \<lparr>pk_on = True, pk_picked = [''a''], pk_anchor = None\<rparr>\<rparr>"
  have "\<not> matches_search ''zz'' False (sample_profile ''a'' (Some ''x''))" by code_simp
  moreover have "p_id (sample_profile ''b'' (Some ''x'')) \<noteq> ''a''" by (simp add: sample_profile_def)
  ultimately have "''a'' \<notin> p_id ` set (shown_of (\<lambda>a b. True) (?v\<lparr>ss_query := ''zz''\<rparr>))"
    by (auto simp: shown_of_def shown_servers_def sample_screen_def)
  from hidden_picks_are_deleted [OF _ _ _ this refl, of "\<lambda>k ps. k"] show ?thesis by (auto simp: sample_screen_def)
qed

end
