(* ===== verification/Connections_Page.thy ===== *)
theory Connections_Page
  imports Connections Country_Flags Routing_Nodes
begin

text \<open>
  The Connections page around the list of \<open>Connections\<close> (components/views/ConnectionsView.tsx): which
  place is open (the programs, the system's programs, one program's connections), searching and sorting,
  what every cell shows, reading every second, pausing and closing.  Texts, program names, the
  comparison of names and the units are arguments.
\<close>

section \<open>Names\<close>

definition IN_SYSTEM :: string where
  "IN_SYSTEM = SYSTEM @ ''/''"

text \<open>What the page is drawn with: texts, names of programs, rules, servers, the comparison of names, units.\<close>

record conn_env =
  ce_t :: texts
  ce_labels :: "string \<rightharpoonup> string"
  ce_rules :: "routing_rule list"
  ce_profiles :: "profile list"
  ce_android :: bool
  ce_lc :: "string \<Rightarrow> string \<Rightarrow> bool"
  ce_units :: unit_choice

function app_name :: "conn_env \<Rightarrow> string \<Rightarrow> string" where
  "app_name c key =
     (if key = SYSTEM then ce_t c ''connections.system'' None
      else if js_starts_with key IN_SYSTEM then app_name c (drop (length IN_SYSTEM) key)
      else if key = NO_APP then ce_t c ''stats.unknownApp'' None
      else text_or (or_else (ce_labels c key) []) (strip_exe key))"
  by pat_completeness auto

termination
  by (relation "measure (length \<circ> snd)") (auto simp: js_starts_with_iff IN_SYSTEM_def)

declare app_name.simps [simp del]

definition DEFAULT_RULE :: string where
  "DEFAULT_RULE = ''__default''"

definition rule_index :: "routing_rule list \<Rightarrow> string \<Rightarrow> (nat \<times> routing_rule) option" where
  "rule_index rules i = find (\<lambda>(_, r). rr_id r = i) (enumerate 0 rules)"

definition rule_label :: "conn_env \<Rightarrow> string \<Rightarrow> string option \<Rightarrow> string" where
  "rule_label c i about =
     (if i = DEFAULT_RULE then ce_t c ''routing.catchAll'' None
      else if i = [] then text_or (or_else about []) (ce_t c ''connections.builtIn'' None)
      else case rule_index (ce_rules c) i of
        None \<Rightarrow> ce_t c ''connections.oldRule'' None
      | Some (n, r) \<Rightarrow> nat_str (n + 1) @ ''. '' @ ce_t c (sm_label (kind_meta (ce_android c) (rr_kind r))) None)"

definition via_name :: "conn_env \<Rightarrow> row \<Rightarrow> string" where
  "via_name c r =
     (if lc_direct r then ce_t c ''routing.action.direct'' None
      else case find (\<lambda>p. Some (p_id p) = lc_server r) (ce_profiles c) of
        Some p \<Rightarrow> p_name p | None \<Rightarrow> ce_t c ''routing.action.proxy'' None)"

definition conn_host :: "row \<Rightarrow> string" where
  "conn_host r = text_or (or_else (lc_host r) []) (lc_destination r)"

definition row_matches :: "conn_env \<Rightarrow> string \<Rightarrow> row \<Rightarrow> bool" where
  "row_matches c needle r =
     list_ex (\<lambda>field. js_includes (js_lower field) needle)
       (filter (\<lambda>field. field \<noteq> [])
         [or_else (lc_host r) [], lc_destination r, or_else (lc_app r) [], or_else (lc_protocol r) [],
          rule_label c (lc_rule r) (lc_rule_text r), via_name c r])"

section \<open>The page's state\<close>

datatype sort_key = ByName | ByCount | ByDown | ByUp | ByRate

text \<open>
  \<open>live\<close> with the rows shown, the place open (\<open>None\<close>: the programs), the search, the order and
  whether it is descending, the switches, whether the tunnel is up and the page is visible, and which
  run of the reading effect is on: the answer to an earlier run is dropped.
\<close>

record conn_page =
  cp_live :: live_state
  cp_open :: "string option"
  cp_filter :: string
  cp_sort :: "sort_key \<times> bool"
  cp_paused :: bool
  cp_show_system :: bool
  cp_connected :: bool
  cp_visible :: bool
  cp_run :: nat

abbreviation cp_rows :: "conn_page \<Rightarrow> row list" where
  "cp_rows v \<equiv> lv_shown (cp_live v)"

definition row_open :: "row \<Rightarrow> bool" where
  "row_open r \<longleftrightarrow> or_else (rw_closed_at r) 0 = 0"

definition page_groups :: "conn_page \<Rightarrow> app_group list" where
  "page_groups v = connection_groups (cp_show_system v) (cp_rows v)"

definition find_group :: "string \<Rightarrow> app_group list \<Rightarrow> app_group option" where
  "find_group k gs = find (\<lambda>g. ag_key g = k) gs"

definition system_groups :: "conn_page \<Rightarrow> app_group list" where
  "system_groups v = group_rows (\<lambda>r. IN_SYSTEM @ app_key r)
     (case find_group SYSTEM (page_groups v) of Some g \<Rightarrow> ag_rows g | None \<Rightarrow> [])"

definition in_system :: "conn_page \<Rightarrow> bool" where
  "in_system v \<longleftrightarrow> cp_open v = Some SYSTEM"

text \<open>The program whose connections are listed, the system's group when that is open, either of them.\<close>

definition open_group :: "conn_page \<Rightarrow> app_group option" where
  "open_group v = (case cp_open v of
     None \<Rightarrow> None
   | Some k \<Rightarrow> if k = SYSTEM then None
       else find_group k (if js_starts_with k IN_SYSTEM then system_groups v else page_groups v))"

definition system_group :: "conn_page \<Rightarrow> app_group option" where
  "system_group v = (if in_system v then find_group SYSTEM (page_groups v) else None)"

definition shown_group :: "conn_page \<Rightarrow> app_group option" where
  "shown_group v = (case open_group v of Some g \<Rightarrow> Some g | None \<Rightarrow> system_group v)"

definition listed_groups :: "conn_page \<Rightarrow> app_group list" where
  "listed_groups v = (if in_system v then system_groups v else page_groups v)"

definition inside_system :: "string option \<Rightarrow> bool" where
  "inside_system place \<longleftrightarrow> (case place of Some k \<Rightarrow> js_starts_with k IN_SYSTEM | None \<Rightarrow> False)"

definition parent_place :: "conn_page \<Rightarrow> string option" where
  "parent_place v =
     (if inside_system (cp_open v) \<and> list_ex (\<lambda>g. ag_key g = SYSTEM) (page_groups v) then Some SYSTEM else None)"

text \<open>The effect that leaves a program with nothing left.\<close>

definition settle_place :: "conn_page \<Rightarrow> conn_page" where
  "settle_place v =
     (if cp_open v \<noteq> None \<and> cp_rows v \<noteq> [] \<and> shown_group v = None then v\<lparr>cp_open := parent_place v\<rparr> else v)"

section \<open>Searching and sorting\<close>

datatype sort_value = TextValue string | NumValue rat

definition value_le :: "(string \<Rightarrow> string \<Rightarrow> bool) \<Rightarrow> sort_value \<Rightarrow> sort_value \<Rightarrow> bool" where
  "value_le lc a b = (case (a, b) of
     (TextValue x, TextValue y) \<Rightarrow> lc x y | (NumValue x, NumValue y) \<Rightarrow> x \<le> y
   | (NumValue _, TextValue _) \<Rightarrow> True | (TextValue _, NumValue _) \<Rightarrow> False)"

definition by_key :: "conn_env \<Rightarrow> bool \<Rightarrow> ('a \<Rightarrow> sort_value) \<Rightarrow> 'a \<Rightarrow> 'a \<Rightarrow> bool" where
  "by_key c descending f a b =
     (if descending then value_le (ce_lc c) (f b) (f a) else value_le (ce_lc c) (f a) (f b))"

definition group_value :: "conn_env \<Rightarrow> sort_key \<Rightarrow> app_group \<Rightarrow> sort_value" where
  "group_value c k g = (case k of
     ByName \<Rightarrow> TextValue (app_name c (ag_key g)) | ByCount \<Rightarrow> NumValue (of_nat (ag_open g))
   | ByDown \<Rightarrow> NumValue (of_int (ag_down g)) | ByUp \<Rightarrow> NumValue (of_int (ag_up g)) | ByRate \<Rightarrow> NumValue (ag_rate g))"

definition row_value :: "sort_key \<Rightarrow> row \<Rightarrow> sort_value" where
  "row_value k r = (case k of
     ByName \<Rightarrow> TextValue (conn_host r) | ByCount \<Rightarrow> NumValue (of_int (- lc_started r))
   | ByDown \<Rightarrow> NumValue (of_int (lc_download r)) | ByUp \<Rightarrow> NumValue (of_int (lc_upload r)) | ByRate \<Rightarrow> NumValue (rw_rate r))"

definition page_needle :: "conn_page \<Rightarrow> string" where
  "page_needle v = js_lower (js_trim (cp_filter v))"

definition group_matches :: "conn_env \<Rightarrow> string \<Rightarrow> app_group \<Rightarrow> bool" where
  "group_matches c needle g \<longleftrightarrow>
     js_includes (js_lower (app_name c (ag_key g))) needle \<or> list_ex (row_matches c needle) (ag_rows g)"

definition shown_groups :: "conn_env \<Rightarrow> conn_page \<Rightarrow> app_group list" where
  "shown_groups c v =
     (let needle = page_needle v;
          matching = (if needle \<noteq> [] then filter (group_matches c needle) (listed_groups v) else listed_groups v)
      in js_sort (by_key c (snd (cp_sort v)) (group_value c (fst (cp_sort v)))) matching)"

definition shown_rows :: "conn_env \<Rightarrow> conn_page \<Rightarrow> row list" where
  "shown_rows c v = (case open_group v of
     None \<Rightarrow> []
   | Some g \<Rightarrow>
       (let needle = page_needle v;
            matching = (if needle \<noteq> [] then filter (row_matches c needle) (ag_rows g) else ag_rows g)
        in js_sort (by_key c (snd (cp_sort v)) (row_value (fst (cp_sort v)))) matching))"

definition toggle_sort :: "sort_key \<Rightarrow> sort_key \<times> bool \<Rightarrow> sort_key \<times> bool" where
  "toggle_sort k s = (if fst s = k then (k, \<not> snd s) else (k, k \<noteq> ByName))"

text \<open>A column heading: whether it is the active one and its \<open>aria-sort\<close>.\<close>

definition heading_sort :: "sort_key \<Rightarrow> sort_key \<times> bool \<Rightarrow> string option" where
  "heading_sort k s = (if fst s = k then Some (if snd s then ''descending'' else ''ascending'') else None)"

section \<open>Cells\<close>

definition count_text :: "texts \<Rightarrow> string \<Rightarrow> nat \<Rightarrow> string" where
  "count_text t key n = t key (Some [(''count'', NumParam (Fin (of_nat n)))])"

text \<open>Several servers: their number.  One: its flag unless the way is direct, its name, and whether it is direct.\<close>

datatype via_cell = ManyServers string | OneServer "string option" string bool

definition via_cell :: "conn_env \<Rightarrow> row list \<Rightarrow> via_cell" where
  "via_cell c items =
     (let names = js_unique (map (via_name c) items);
          direct = (case items of r # _ \<Rightarrow> lc_direct r | [] \<Rightarrow> False)
      in if length names > 1 then ManyServers (count_text (ce_t c) ''connections.servers'' (length names))
         else OneServer (if direct then None else case names of n # _ \<Rightarrow> Some n | [] \<Rightarrow> None)
                (flagless (case names of n # _ \<Rightarrow> n | [] \<Rightarrow> [])) direct)"

text \<open>The rule's kind for its icon, its title and its label.  Without a connection there is no first one to
  read: \<open>None\<close>.\<close>

datatype rule_cell = ManyRules string | OneRule "source_meta option" "string option" string

definition rule_cell :: "conn_env \<Rightarrow> row list \<Rightarrow> rule_cell option" where
  "rule_cell c items =
     (let ids = js_unique (map (\<lambda>r. lc_rule r @ [CHR 0x00] @ or_else (lc_rule_text r) []) items)
      in if length ids > 1 then Some (ManyRules (count_text (ce_t c) ''connections.rules'' (length ids)))
         else case items of
           [] \<Rightarrow> None
         | r # _ \<Rightarrow> Some (OneRule
             (map_option (\<lambda>u. kind_meta (ce_android c) (rr_kind u)) (find (\<lambda>u. rr_id u = lc_rule r) (ce_rules c)))
             (lc_rule_text r) (rule_label c (lc_rule r) (lc_rule_text r))))"

text \<open>The networks in order, and which of them is highlighted.\<close>

definition network_cell :: "row list \<Rightarrow> (string \<times> bool) list" where
  "network_cell items =
     map (\<lambda>n. (n, n = ''udp'')) (js_sort text_le (js_unique (map (js_lower \<circ> lc_network) items)))"

definition NBSP :: string where
  "NBSP = [CHR 0xC2, CHR 0xA0]"

definition data_cell :: "unit_choice \<Rightarrow> int \<Rightarrow> rat \<Rightarrow> string \<times> string \<times> bool" where
  "data_cell u bytes rate =
     (format_bytes u (Fin (of_int bytes)), if rate > 0 then format_rate u (Fin rate) else NBSP, rate > 0)"

definition group_cells :: "unit_choice \<Rightarrow> app_group \<Rightarrow> (string \<times> string \<times> bool) list" where
  "group_cells u g = [data_cell u (ag_down g) (ag_rate_down g), data_cell u (ag_up g) (ag_rate_up g)]"

definition row_cells :: "unit_choice \<Rightarrow> row \<Rightarrow> (string \<times> string \<times> bool) list" where
  "row_cells u r = [data_cell u (lc_download r) (rw_rate_down r), data_cell u (lc_upload r) (rw_rate_up r)]"

text \<open>The second line of a connection.\<close>

definition row_line :: "conn_env \<Rightarrow> int \<Rightarrow> row \<Rightarrow> string" where
  "row_line c now r =
     (if \<not> row_open r then ce_t c ''connections.closed'' None
      else js_join MIDDOT (filter (\<lambda>s. s \<noteq> [])
        [or_else (lc_protocol r) [], if or_else (lc_host r) [] \<noteq> [] then lc_destination r else [],
         format_duration (of_int (max 0 (now - lc_started r)))]))"

text \<open>A connection's close button: shown while it is open, with its label.\<close>

definition row_close :: "conn_env \<Rightarrow> row \<Rightarrow> string option" where
  "row_close c r =
     (if row_open r then Some (ce_t c ''connections.close'' (Some [(''name'', TextParam (conn_host r))])) else None)"

definition open_rows_of :: "row list \<Rightarrow> row list" where
  "open_rows_of rows = filter row_open rows"

definition open_totals :: "row list \<Rightarrow> int \<times> int" where
  "open_totals rows = foldl (\<lambda>(up, down) r. (up + lc_upload r, down + lc_download r)) (0, 0) (open_rows_of rows)"

definition page_description :: "conn_env \<Rightarrow> conn_page \<Rightarrow> string" where
  "page_description c v =
     (if cp_connected v
      then (case open_totals (cp_rows v) of (up, down) \<Rightarrow>
        ce_t c ''connections.summary'' (Some
          [(''count'', NumParam (Fin (of_nat (length (open_rows_of (cp_rows v)))))),
           (''up'', TextParam (format_bytes (ce_units c) (Fin (of_int up)))),
           (''down'', TextParam (format_bytes (ce_units c) (Fin (of_int down))))]))
      else ce_t c ''connections.offline'' None)"

text \<open>The two buttons of a page that is connected: pause or resume, and close with whether it is off.\<close>

definition page_buttons :: "conn_env \<Rightarrow> conn_page \<Rightarrow> (string \<times> bool) list" where
  "page_buttons c v =
     (if \<not> cp_connected v then []
      else [(ce_t c (if cp_paused v then ''connections.resume'' else ''connections.pause'') None, False),
        (case shown_group v of
           Some g \<Rightarrow> (ce_t c ''connections.closeApp'' (Some [(''name'', TextParam (app_name c (ag_key g)))]), False)
         | None \<Rightarrow> (ce_t c ''connections.closeAll'' None, cp_rows v = []))])"

text \<open>The way back: the system's name before a program opened from there, the place's name, its open connections.\<close>

definition back_button :: "conn_env \<Rightarrow> conn_page \<Rightarrow> (string option \<times> string \<times> string) option" where
  "back_button c v =
     map_option (\<lambda>g. (if inside_system (cp_open v) then Some (ce_t c ''connections.system'' None @ '' /'') else None,
                      app_name c (ag_key g), count_text (ce_t c) ''connections.active'' (ag_open g)))
       (shown_group v)"

definition empty_text :: "conn_env \<Rightarrow> conn_page \<Rightarrow> string option" where
  "empty_text c v =
     (if open_group v \<noteq> None
      then (if shown_rows c v = [] then Some (ce_t c ''connections.noMatch'' None) else None)
      else if shown_groups c v = []
      then Some (ce_t c (if cp_rows v = [] then ''connections.none'' else ''connections.noMatch'') None)
      else None)"

text \<open>A program's line: its number, icon and whether it is the system's, name and title, and dimmed when nothing is open.\<close>

record program_line =
  pg_line_count :: nat
  pg_line_icon :: "string option"
  pg_line_system :: bool
  pg_line_name :: string
  pg_line_title :: "string option"
  pg_line_dimmed :: bool

definition first_path :: "app_group \<Rightarrow> string option" where
  "first_path g = (case ag_rows g of r # _ \<Rightarrow> lc_app_path r | [] \<Rightarrow> None)"

definition icon_paths :: "conn_page \<Rightarrow> string option list" where
  "icon_paths v = map (\<lambda>g. if ag_key g = SYSTEM then None else first_path g) (listed_groups v)"

definition program_line :: "conn_env \<Rightarrow> (string \<rightharpoonup> string) \<Rightarrow> conn_page \<Rightarrow> app_group \<Rightarrow> program_line" where
  "program_line c icons v g =
     \<lparr>pg_line_count = ag_open g,
      pg_line_icon = (if ag_key g = SYSTEM then None else icons (or_else (first_path g) [])),
      pg_line_system = (ag_key g = SYSTEM \<or> in_system v \<and> or_else (first_path g) [] = []),
      pg_line_name = app_name c (ag_key g), pg_line_title = first_path g, pg_line_dimmed = (ag_open g = 0)\<rparr>"

section \<open>Events\<close>

datatype conn_call = GetConnections nat | CloseConnection string | CloseAllConnections

datatype conn_event =
    SetConnected bool
  | SetVisible bool
  | PressPause
  | PollTick
  | ConnectionsRead nat "live_connection list" int
  | ReadMissed nat
  | PressCloseAll
  | PressCloseRow string
  | ClosedThese "string list"
  | ClosedAll "string list"
  | CloseFailed
  | OpenGroup string
  | PressBack
  | TypeFilter string
  | PressColumn sort_key
  | SwitchSystem bool

definition reading :: "conn_page \<Rightarrow> bool" where
  "reading v \<longleftrightarrow> cp_connected v \<and> \<not> cp_paused v \<and> cp_visible v"

text \<open>The effect over connected, paused and visible, run again: the earlier run is cancelled.\<close>

definition run_effect :: "conn_page \<Rightarrow> conn_page \<times> conn_call list" where
  "run_effect v =
     (let v = v\<lparr>cp_run := cp_run v + 1\<rparr> in
      if \<not> cp_connected v then (v\<lparr>cp_live := clear_live (cp_live v)\<rparr>, [])
      else (v, if reading v then [GetConnections (cp_run v)] else []))"

text \<open>\<open>close()\<close> after the service closed everything; \<open>gone\<close> are the rows when it was pressed.\<close>

definition closed_all :: "string list \<Rightarrow> live_state \<Rightarrow> live_state" where
  "closed_all gone l =
     l\<lparr>lv_dismissed := lv_dismissed l @ gone, lv_recent := filter (\<lambda>e. fst e \<notin> set gone) (lv_recent l), lv_shown := []\<rparr>"

definition close_targets :: "conn_page \<Rightarrow> string list option" where
  "close_targets v = map_option (\<lambda>g. map lc_id (open_rows_of (ag_rows g))) (shown_group v)"

definition conn_act :: "conn_event \<Rightarrow> conn_page \<Rightarrow> conn_page \<times> conn_call list" where
  "conn_act e v = (case e of
     SetConnected b \<Rightarrow> if b = cp_connected v then (v, []) else run_effect (v\<lparr>cp_connected := b\<rparr>)
   | SetVisible b \<Rightarrow> if b = cp_visible v then (v, []) else run_effect (v\<lparr>cp_visible := b\<rparr>)
   | PressPause \<Rightarrow> run_effect (v\<lparr>cp_paused := \<not> cp_paused v\<rparr>)
   | PollTick \<Rightarrow> (v, if reading v then [GetConnections (cp_run v)] else [])
   | ConnectionsRead run list now \<Rightarrow>
       (if run = cp_run v then v\<lparr>cp_live := read_connections list now (cp_live v)\<rparr> else v, [])
   | ReadMissed run \<Rightarrow> (v, [])
   | PressCloseAll \<Rightarrow>
       (v, case close_targets v of
             Some ids \<Rightarrow> map CloseConnection ids
           | None \<Rightarrow> if cp_rows v = [] then [] else [CloseAllConnections])
   | PressCloseRow i \<Rightarrow> (v, [CloseConnection i])
   | ClosedThese ids \<Rightarrow> (v\<lparr>cp_live := close_connections (Some ids) (cp_live v)\<rparr>, [])
   | ClosedAll gone \<Rightarrow> (v\<lparr>cp_live := closed_all gone (cp_live v)\<rparr>, [])
   | CloseFailed \<Rightarrow> (v, [])
   | OpenGroup k \<Rightarrow> (v\<lparr>cp_open := Some k\<rparr>, [])
   | PressBack \<Rightarrow> (v\<lparr>cp_open := (if inside_system (cp_open v) then Some SYSTEM else None)\<rparr>, [])
   | TypeFilter s \<Rightarrow> (v\<lparr>cp_filter := s\<rparr>, [])
   | PressColumn k \<Rightarrow> (v\<lparr>cp_sort := toggle_sort k (cp_sort v)\<rparr>, [])
   | SwitchSystem b \<Rightarrow> (v\<lparr>cp_show_system := b\<rparr>, []))"

definition conn_step :: "conn_event \<Rightarrow> conn_page \<Rightarrow> conn_page \<times> conn_call list" where
  "conn_step e v = (case conn_act e v of (w, calls) \<Rightarrow> (settle_place w, calls))"

text \<open>The page as it opens: the rows of the last visit at once, the place and the search remembered.\<close>

definition opened_page :: "bool \<Rightarrow> bool \<Rightarrow> live_state \<Rightarrow> string option \<Rightarrow> string \<Rightarrow> sort_key \<times> bool \<Rightarrow> bool \<Rightarrow> conn_page \<times> conn_call list" where
  "opened_page on visible l place typed order show_system =
     (case run_effect \<lparr>cp_live = Connections.open_view on l, cp_open = place, cp_filter = typed, cp_sort = order,
        cp_paused = False, cp_show_system = show_system, cp_connected = on, cp_visible = visible, cp_run = 0\<rparr>
      of (v, calls) \<Rightarrow> (settle_place v, calls))"


section \<open>Groups by key\<close>

lemma add_row_key [simp]: "ag_key (add_row g r) = ag_key g" "ag_rows (add_row g r) = ag_rows g @ [r]"
  by (simp_all add: add_row_def)

lemma foldl_add_row [simp]:
  "ag_key (foldl add_row g rs) = ag_key g" "ag_rows (foldl add_row g rs) = ag_rows g @ rs"
  by (induction rs arbitrary: g) simp_all

lemma group_fold_get:
  "om_get (foldl (group_step f) [] rows) k =
    (if filter (\<lambda>r. f r = k) rows = [] then None else Some (foldl add_row (new_group k) (filter (\<lambda>r. f r = k) rows)))"
proof (induction rows rule: rev_induct)
  case (snoc r rows)
  then show ?case by (auto simp: group_step_def om_simps)
qed (simp add: om_simps)

lemma group_step_set:
  "set (group_step f m r) \<subseteq> insert (f r, add_row (or_else (om_get m (f r)) (new_group (f r))) r) (set m)"
  unfolding group_step_def by (rule set_om_set_sub)

lemma group_fold_keys: "(k, g) \<in> set (foldl (group_step f) [] rows) \<Longrightarrow> ag_key g = k"
proof (induction rows arbitrary: k g rule: rev_induct)
  case (snoc r rows)
  let ?m = "foldl (group_step f) [] rows"
  let ?g = "add_row (or_else (om_get ?m (f r)) (new_group (f r))) r"
  have "ag_key ?g = f r"
    unfolding add_row_key group_fold_get by (simp add: new_group_def)
  moreover have "(k, g) = (f r, ?g) \<or> (k, g) \<in> set ?m"
    using snoc.prems group_step_set [of f ?m r] unfolding foldl_append foldl_Cons foldl_Nil by blast
  ultimately show ?case using snoc.IH by blast
qed simp

lemma find_keyed: "\<forall>e \<in> set m. ag_key (snd e) = fst e \<Longrightarrow> find (\<lambda>g. ag_key g = k) (map snd m) = om_get m k"
  unfolding om_get_def by (induction m) (simp_all split: prod.split)

lemma find_group_rows:
  "find_group k (group_rows f rows) =
    (if filter (\<lambda>r. f r = k) rows = [] then None else Some (foldl add_row (new_group k) (filter (\<lambda>r. f r = k) rows)))"
proof -
  have "\<forall>e \<in> set (foldl (group_step f) [] rows). ag_key (snd e) = fst e"
    using group_fold_keys [where f = f and rows = rows] by (metis prod.collapse)
  from find_keyed [OF this] show ?thesis
    unfolding find_group_def group_rows_def group_fold_get by simp
qed

lemma found_group:
  "find_group k (group_rows f rows) = Some g \<Longrightarrow> ag_key g = k \<and> ag_rows g = filter (\<lambda>r. f r = k) rows \<and> ag_rows g \<noteq> []"
  by (auto simp: find_group_rows new_group_def split: if_splits)

lemma group_of_row: "r \<in> set rows \<Longrightarrow> \<exists>g. find_group (f r) (group_rows f rows) = Some g"
  by (auto simp: find_group_rows filter_empty_conv)

text \<open>Which connections a place holds, read off the place.\<close>

definition in_place :: "bool \<Rightarrow> string \<Rightarrow> row \<Rightarrow> bool" where
  "in_place show_system place r \<longleftrightarrow>
     (if place \<noteq> SYSTEM \<and> js_starts_with place IN_SYSTEM
      then group_key show_system r = SYSTEM \<and> IN_SYSTEM @ app_key r = place
      else group_key show_system r = place)"

lemma system_groups_rows: "system_groups v = group_rows (\<lambda>r. IN_SYSTEM @ app_key r)
    (filter (\<lambda>r. group_key (cp_show_system v) r = SYSTEM) (cp_rows v))"
  by (auto simp: system_groups_def page_groups_def connection_groups_def find_group_rows new_group_def split: option.split)

lemma in_place_inside:
  "place \<noteq> SYSTEM \<and> js_starts_with place IN_SYSTEM \<Longrightarrow>
    filter (in_place s place) rows = filter (\<lambda>r. IN_SYSTEM @ app_key r = place) (filter (\<lambda>r. group_key s r = SYSTEM) rows)"
  by (auto simp: in_place_def intro!: filter_cong)

lemma in_place_top:
  "\<not> (place \<noteq> SYSTEM \<and> js_starts_with place IN_SYSTEM) \<Longrightarrow> in_place s place = (\<lambda>r. group_key s r = place)"
  by (auto simp: in_place_def)

lemma shown_group_eq:
  "shown_group v = (case cp_open v of None \<Rightarrow> None | Some place \<Rightarrow>
    find_group place (if place \<noteq> SYSTEM \<and> js_starts_with place IN_SYSTEM then system_groups v else page_groups v))"
  by (simp add: shown_group_def open_group_def system_group_def in_system_def split: option.split)

text \<open>The place open shows the connections it holds, and nothing when it holds none.\<close>

lemma shown_group_place:
  assumes "cp_open v = Some place"
  shows "shown_group v =
    (let held = filter (in_place (cp_show_system v) place) (cp_rows v) in
     if held = [] then None else Some (foldl add_row (new_group place) held))"
  by (simp add: shown_group_eq assms in_place_inside in_place_top system_groups_rows page_groups_def
      connection_groups_def find_group_rows Let_def)

lemma shown_group_rows:
  "shown_group v = Some g \<Longrightarrow> \<exists>place. cp_open v = Some place \<and> ag_key g = place
    \<and> ag_rows g = filter (in_place (cp_show_system v) place) (cp_rows v) \<and> ag_rows g \<noteq> []"
proof (cases "cp_open v")
  case (Some place)
  assume "shown_group v = Some g"
  with Some show ?thesis by (auto simp: shown_group_place new_group_def Let_def split: if_splits)
qed (simp add: shown_group_eq)

section \<open>Properties\<close>

text \<open>The place that is open always has something to show, unless there is nothing at all.\<close>

definition place_ok :: "conn_page \<Rightarrow> bool" where
  "place_ok v \<longleftrightarrow> cp_open v = None \<or> cp_rows v = [] \<or> shown_group v \<noteq> None"

lemma settled_ok: "place_ok (settle_place v)"
proof (cases "cp_open v \<noteq> None \<and> cp_rows v \<noteq> [] \<and> shown_group v = None")
  case True
  show ?thesis
  proof (cases "parent_place v")
    case None
    with True show ?thesis by (simp add: settle_place_def place_ok_def)
  next
    case (Some place)
    then have "place = SYSTEM" "list_ex (\<lambda>g. ag_key g = SYSTEM) (page_groups v)"
      by (simp_all add: parent_place_def split: if_splits)
    then have "find_group SYSTEM (page_groups v) \<noteq> None"
      by (auto simp: find_group_def find_None_iff list_ex_iff)
    with Some \<open>place = SYSTEM\<close> True show ?thesis
      by (auto simp: settle_place_def place_ok_def shown_group_def open_group_def system_group_def in_system_def page_groups_def)
  qed
qed (auto simp: settle_place_def place_ok_def)

lemma conn_step_ok: "place_ok (fst (conn_step e v))"
  by (simp add: conn_step_def settled_ok split: prod.split)

text \<open>Reading happens only while the tunnel is up, the page visible and not paused; an answer to a cancelled
  run changes nothing.\<close>

lemma calls_need_reading: "GetConnections n \<in> set (snd (conn_act e v)) \<Longrightarrow> reading (fst (conn_act e v)) \<and> n = cp_run (fst (conn_act e v))"
  by (cases e) (auto simp: conn_act_def run_effect_def reading_def Let_def split: if_splits option.splits)

lemma run_counts: "cp_run v \<le> cp_run (fst (conn_act e v))"
  by (cases e) (auto simp: conn_act_def run_effect_def Let_def)

text \<open>The order of the lists: the comparison of every column is one, ascending and descending.\<close>

context collation
begin

lemma value_comparator: "comparator (value_le compare_le)"
  using le_total le_trans by unfold_locales (auto simp: value_le_def split: sort_value.splits)

end


definition place_rows :: "conn_page \<Rightarrow> row list" where
  "place_rows v = (case cp_open v of
     None \<Rightarrow> cp_rows v | Some place \<Rightarrow> filter (in_place (cp_show_system v) place) (cp_rows v))"

lemma row_by_id: "distinct (map lc_id rows) \<Longrightarrow> r \<in> set rows \<Longrightarrow> s \<in> set rows \<Longrightarrow> lc_id r = lc_id s \<Longrightarrow> r = (s :: row)"
  by (simp add: distinct_map inj_on_def)

lemma closed_ids_rows:
  assumes "distinct (map lc_id rows)" "set xs \<subseteq> set rows"
  shows "filter (\<lambda>r. lc_id r \<notin> lc_id ` set xs) rows = filter (\<lambda>r. r \<notin> set xs) (rows :: row list)"
  using assms(2) row_by_id [OF assms(1)] by (intro filter_cong) blast+

lemma settled_place_rows: "place_ok v \<Longrightarrow> cp_rows v \<noteq> [] \<Longrightarrow> place_rows v \<noteq> []"
  by (cases "cp_open v") (auto simp: place_ok_def place_rows_def shown_group_place Let_def split: if_splits)

text \<open>C36: the close button of the page closes exactly the open connections of the place shown, which always has
  some connection while there are any: everything from the list of programs, else those of the program or of
  the system that is open; once the service has closed them just these leave the list.\<close>

theorem close_button_closes_place:
  assumes "v = fst (conn_step e w)" "cp_rows v \<noteq> []" "distinct (map lc_id (cp_rows v))"
    and "closing = filter row_open (place_rows v)"
  shows "place_rows v \<noteq> [] \<and> (case cp_open v of
      None \<Rightarrow> snd (conn_act PressCloseAll v) = [CloseAllConnections]
        \<and> cp_rows (fst (conn_act (ClosedAll (map lc_id (cp_rows v))) v)) = []
    | Some place \<Rightarrow> snd (conn_act PressCloseAll v) = map (CloseConnection \<circ> lc_id) closing
        \<and> cp_rows (fst (conn_act (ClosedThese (map lc_id closing)) v)) = filter (\<lambda>r. r \<notin> set closing) (cp_rows v))"
proof -
  have held: "place_rows v \<noteq> []" using settled_place_rows conn_step_ok assms(1,2) by blast
  show ?thesis
  proof (cases "cp_open v")
    case None
    with held assms(2) show ?thesis
      by (simp add: conn_act_def close_targets_def shown_group_eq closed_all_def)
  next
    case (Some place)
    with held have "close_targets v = Some (map lc_id closing)"
      by (simp add: close_targets_def shown_group_place place_rows_def open_rows_of_def new_group_def Let_def assms(4))
    moreover have "set closing \<subseteq> set (cp_rows v)" by (auto simp: assms(4) place_rows_def split: option.splits)
    ultimately show ?thesis using held Some
      by (simp add: conn_act_def close_connections_def closed_ids_rows [OF assms(3)] Let_def)
  qed
qed

definition two_programs :: conn_page where
  "two_programs = \<lparr>cp_live = no_live, cp_open = Some ''browser'', cp_filter = [], cp_sort = (ByDown, True),
     cp_paused = False, cp_show_system = True, cp_connected = True, cp_visible = True, cp_run = 1\<rparr>"

theorem close_button_closes_place_witness:
  "\<exists>v. v = fst (conn_step (ConnectionsRead 1 [sample_connection ''a'', (sample_connection ''b'')\<lparr>lc_app := Some ''mail''\<rparr>] 1000) two_programs)
    \<and> snd (conn_act PressCloseAll v) = [CloseConnection ''a'']
    \<and> map lc_id (cp_rows (fst (conn_act (ClosedThese [''a'']) v))) = [''b'']"
proof -
  let ?e = "ConnectionsRead 1 [sample_connection ''a'', (sample_connection ''b'')\<lparr>lc_app := Some ''mail''\<rparr>] 1000"
  let ?v = "fst (conn_step ?e two_programs)"
  have o: "cp_open ?v = Some ''browser''" by code_simp
  have n: "cp_rows ?v \<noteq> []" "distinct (map lc_id (cp_rows ?v))" by code_simp+
  have c: "map lc_id (filter row_open (place_rows ?v)) = [''a'']"
    "map lc_id (filter (\<lambda>r. r \<notin> set (filter row_open (place_rows ?v))) (cp_rows ?v)) = [''b'']" by code_simp+
  from close_button_closes_place [OF refl n refl] o c show ?thesis
    by (intro exI [of _ ?v]) (simp flip: map_map)
qed

text \<open>With a search typed, the lists hold exactly what matches it, in the order of the column chosen.\<close>

context comparator
begin

lemma keyed_either_way: "comparator (\<lambda>a b. if descending then le (f b) (f a) else le (f a) (f b))"
  by unfold_locales (auto intro: le_trans dest: le_flip)

end

lemma by_key_comparator: "collation (ce_lc c) \<Longrightarrow> comparator (by_key c descending f)"
  using comparator.keyed_either_way [OF collation.value_comparator [of "ce_lc c"], of descending f]
  by (simp add: by_key_def [abs_def])

lemma lists_in_order:
  assumes "collation (ce_lc c)"
  shows "sorted_wrt (by_key c (snd (cp_sort v)) (group_value c (fst (cp_sort v)))) (shown_groups c v)
    \<and> sorted_wrt (by_key c (snd (cp_sort v)) (row_value (fst (cp_sort v)))) (shown_rows c v)
    \<and> set (shown_groups c v) = {g \<in> set (listed_groups v). page_needle v = [] \<or> group_matches c (page_needle v) g}
    \<and> set (shown_rows c v) = {r \<in> (case open_group v of Some g \<Rightarrow> set (ag_rows g) | None \<Rightarrow> {}).
        page_needle v = [] \<or> row_matches c (page_needle v) r}"
  by (auto simp: shown_groups_def shown_rows_def Let_def comparator.sorted_sort [OF by_key_comparator [OF assms]] split: option.split)

end
