(* ===== verification/Window_Layout.thy ===== *)
theory Window_Layout
  imports Connection_Screen App_Startup First_Start
begin

text \<open>
  How the window is put together (App.tsx and components/layout): which bars are there for a layout, a
  platform and a width, and what each carries; the bars' buttons; the phone's navigation with its sheet;
  the frame of a page; the server picker's button and menu; which screen and which overlay are shown;
  when latencies are measured; and the sidebar's own state (components/ui/sidebar.tsx).  Style
  classes that show something only from a width on are the comparisons with that width.
\<close>

section \<open>Buttons of the window\<close>

datatype window_call = CloseWindow | MinimizeWindow | MaximizeWindow

datatype window_buttons = MacControls | PlainControls

fun control_buttons :: "texts \<Rightarrow> window_buttons \<Rightarrow> (string \<times> window_call) list" where
  "control_buttons t MacControls = [(t ''window.close'' None, CloseWindow), (t ''window.minimize'' None, MinimizeWindow),
     (t ''window.maximize'' None, MaximizeWindow)]"
| "control_buttons t PlainControls = [(t ''window.minimize'' None, MinimizeWindow), (t ''window.maximize'' None, MaximizeWindow),
     (t ''window.close'' None, CloseWindow)]"

text \<open>A double click on a header: the mouse button, and whether it hit something that can be operated.\<close>

definition header_double_click :: "string \<Rightarrow> nat \<Rightarrow> bool \<Rightarrow> window_call option" where
  "header_double_click platform button interactive =
     (if phone platform \<or> button \<noteq> 0 \<or> interactive then None else Some MaximizeWindow)"

section \<open>Bars\<close>

definition NAV_LABELS :: "(string \<times> string) list" where
  "NAV_LABELS = [(''connection'', ''nav.connection''), (''proxies'', ''nav.proxies''), (''configuration'', ''nav.configuration''),
     (''routing'', ''nav.routing''), (''activity'', ''nav.activity''), (''settings'', ''nav.settings'')]"

text \<open>A navigation button: its screen, label and whether its screen is the one shown.\<close>

definition nav_items :: "texts \<Rightarrow> string \<Rightarrow> (string \<times> string \<times> bool) list" where
  "nav_items t active = map (\<lambda>(i, label). (i, t label None, active = i)) NAV_LABELS"

datatype picker_side = BelowPicker | LeftOfPicker | RightOfPicker

text \<open>
  What a bar carries: the window's buttons, the wordmark (a button to the Connection screen), the screens to
  go to, the state in words, the server picker, the button that adds, the live speeds, what happens on a double click.
\<close>

record bar =
  br_controls :: "window_buttons list"
  br_brand :: bool
  br_tabs :: "string list"
  br_status :: nat
  br_picker :: "picker_side option"
  br_add :: "bool option"
  br_speeds :: "(string \<times> string) option"
  br_drag :: bool

text \<open>What the bars are drawn from.\<close>

record window_props =
  wp_platform :: string
  wp_width :: nat
  wp_tab :: string
  wp_locked :: bool
  wp_connected :: bool
  wp_traffic :: traffic_sample
  wp_units :: unit_choice

definition is_mac :: "string \<Rightarrow> bool" where
  "is_mac platform \<longleftrightarrow> platform = ''macos''"

definition plain_window :: "string \<Rightarrow> bool" where
  "plain_window platform \<longleftrightarrow> \<not> is_mac platform \<and> \<not> phone platform"

definition live_speeds :: "window_props \<Rightarrow> (string \<times> string) option" where
  "live_speeds w =
     (if wp_connected w \<and> (ts_down_rate (wp_traffic w) > 0 \<or> ts_up_rate (wp_traffic w) > 0)
      then Some (format_rate (wp_units w) (Fin (ts_down_rate (wp_traffic w))), format_rate (wp_units w) (Fin (ts_up_rate (wp_traffic w))))
      else None)"

definition unified_header :: "window_props \<Rightarrow> bar" where
  "unified_header w =
     \<lparr>br_controls = (if is_mac (wp_platform w) then [MacControls] else []) @ (if plain_window (wp_platform w) then [PlainControls] else []),
      br_brand = True,
      br_tabs = (if 768 \<le> wp_width w then map fst NAV_LABELS else []),
      br_status = (if 1024 \<le> wp_width w then 1 else 0) + (if wp_width w < 1024 then 1 else 0),
      br_picker = Some BelowPicker,
      br_add = Some (wp_locked w),
      br_speeds = (if 1536 \<le> wp_width w then live_speeds w else None),
      br_drag = True\<rparr>"

definition sidebar_nav :: "bool \<Rightarrow> window_props \<Rightarrow> bar" where
  "sidebar_nav left_side w =
     \<lparr>br_controls = (if is_mac (wp_platform w) \<and> left_side then [MacControls] else [])
        @ (if plain_window (wp_platform w) \<and> \<not> left_side then [PlainControls] else []),
      br_brand = True,
      br_tabs = map fst NAV_LABELS,
      br_status = 1,
      br_picker = Some (if left_side then RightOfPicker else LeftOfPicker),
      br_add = Some (wp_locked w),
      br_speeds = live_speeds w,
      br_drag = True\<rparr>"

definition drag_header :: "bool \<Rightarrow> bool \<Rightarrow> bool \<Rightarrow> window_props \<Rightarrow> bar" where
  "drag_header controls brand selector w =
     \<lparr>br_controls = (if is_mac (wp_platform w) \<and> controls then [MacControls] else [])
        @ (if plain_window (wp_platform w) \<and> controls then [PlainControls] else []),
      br_brand = brand,
      br_tabs = [],
      br_status = (if selector then 1 else 0),
      br_picker = (if selector then Some BelowPicker else None),
      br_add = (if selector then Some (wp_locked w) else None),
      br_speeds = None,
      br_drag = True\<rparr>"

definition tab_bar :: "string list \<Rightarrow> bar" where
  "tab_bar tabs = \<lparr>br_controls = [], br_brand = False, br_tabs = tabs, br_status = 0, br_picker = None, br_add = None,
     br_speeds = None, br_drag = False\<rparr>"

definition bottom_dock :: bar where
  "bottom_dock = tab_bar (map fst NAV_LABELS)"

section \<open>The phone's navigation\<close>

text \<open>The screens of the inset sidebar's list; Settings stands below it.\<close>

definition SIDEBAR_TABS :: "(string \<times> string) list" where
  "SIDEBAR_TABS = filter (\<lambda>tab. fst tab \<noteq> ''settings'') NAV_LABELS"

definition PRIMARY :: "(string \<times> string) list" where
  "PRIMARY = [(''connection'', ''nav.connection''), (''proxies'', ''nav.proxies''), (''routing'', ''nav.routing''),
     (''settings'', ''nav.settings'')]"

definition other_tabs :: "(string \<times> string) list" where
  "other_tabs = filter (\<lambda>tab. fst tab \<notin> set (map fst PRIMARY)) SIDEBAR_TABS"

definition in_more :: "string \<Rightarrow> bool" where
  "in_more active \<longleftrightarrow> active \<notin> set (map fst PRIMARY)"

record bottom_nav =
  bn_tab :: string
  bn_more :: bool

datatype bottom_event = PressPrimary string | PressMore | PressOther string | DismissMore

definition bottom_step :: "bottom_event \<Rightarrow> bottom_nav \<Rightarrow> bottom_nav" where
  "bottom_step e v = (case e of
     PressPrimary i \<Rightarrow> v\<lparr>bn_tab := i\<rparr>
   | PressMore \<Rightarrow> v\<lparr>bn_more := True\<rparr>
   | PressOther i \<Rightarrow> v\<lparr>bn_tab := i, bn_more := False\<rparr>
   | DismissMore \<Rightarrow> v\<lparr>bn_more := False\<rparr>)"

text \<open>The buttons there are: the bar's, and with the sheet open the sheet's.\<close>

definition bottom_offers :: "bottom_nav \<Rightarrow> bottom_event list" where
  "bottom_offers v =
     (if bn_more v then map (PressOther \<circ> fst) other_tabs @ [DismissMore] else map (PressPrimary \<circ> fst) PRIMARY @ [PressMore])"

text \<open>Which of the bar's buttons are lit.\<close>

definition bottom_lit :: "bottom_nav \<Rightarrow> (string option \<times> bool) list" where
  "bottom_lit v = map (\<lambda>(i, _). (Some i, bn_tab v = i)) PRIMARY @ [(None, in_more (bn_tab v))]"

section \<open>The layouts\<close>

definition nav_position :: "bool \<Rightarrow> layout_prefs option \<Rightarrow> string" where
  "nav_position is_mobile layout =
     (if is_mobile then ''top''
      else case layout of
        Some l \<Rightarrow> if ly_nav l \<noteq> [] then ly_nav l else ly_nav DEFAULT_LAYOUT
      | None \<Rightarrow> ly_nav DEFAULT_LAYOUT)"

definition inset_sidebar :: "bool \<Rightarrow> layout_prefs option \<Rightarrow> bool" where
  "inset_sidebar is_mobile layout \<longleftrightarrow>
     (nav_position is_mobile layout = ''sidebar-left'' \<or> nav_position is_mobile layout = ''sidebar-right'')
     \<and> (case layout of Some l \<Rightarrow> ly_sidebar l = ''inset'' | None \<Rightarrow> False)"

text \<open>The bars from left to right and top to bottom.\<close>

definition window_bars :: "layout_prefs option \<Rightarrow> window_props \<Rightarrow> bar list" where
  "window_bars layout w =
     (let is_mobile = wp_width w < 768; pos = nav_position is_mobile layout; mac = is_mac (wp_platform w) in
      (if pos = ''sidebar-left'' then [sidebar_nav True w] else [])
      @ (if pos = ''top'' then [unified_header w] else if pos = ''bottom'' then [drag_header True True True w] else [])
      @ (if pos = ''sidebar-left'' then [drag_header (\<not> mac) False False w]
         else if pos = ''sidebar-right'' then [drag_header mac True False w] else [])
      @ (if pos = ''sidebar-right'' then [sidebar_nav False w] else [])
      @ (if pos = ''bottom'' then [bottom_dock] else [])
      @ (if is_mobile then [tab_bar (map fst PRIMARY @ map fst other_tabs)] else []))"

definition window_radius :: "string \<Rightarrow> bool \<Rightarrow> string" where
  "window_radius platform is_mobile =
     (if phone platform \<or> is_mobile then ''0px'' else if platform = ''windows'' then ''8px'' else ''10px'')"

text \<open>How far down notices start, in pixels; except on Android below the system's own inset.  A notice has a close
  button unless what it tells of is still going on.\<close>

definition notice_top :: "string \<Rightarrow> bool \<times> nat" where
  "notice_top platform = (if platform = ''android'' then (False, 60) else (True, if phone platform then 60 else 64))"

definition notice_closable :: "string \<Rightarrow> bool" where
  "notice_closable type \<longleftrightarrow> type \<noteq> ''loading''"

section \<open>Pages\<close>

text \<open>The frame of a page: its heading, its description, whether it scrolls by itself, the name its position is kept under.\<close>

record page_frame =
  fr_heading :: "string option"
  fr_description :: "string option"
  fr_scrolls :: bool
  fr_memory :: "string option"
  fr_width :: string

definition page_shell :: "bool \<Rightarrow> bool \<Rightarrow> string option \<Rightarrow> string \<Rightarrow> string \<Rightarrow> string option \<Rightarrow> page_frame" where
  "page_shell sub_page own_scroll memory_key width title description =
     \<lparr>fr_heading = (if sub_page then None else Some title),
      fr_description = (if or_else description [] = [] then None else description),
      fr_scrolls = (\<not> own_scroll),
      fr_memory = (if own_scroll then None else memory_key),
      fr_width = (if width = ''narrow'' then ''max-w-4xl'' else if width = ''standard'' then ''max-w-6xl'' else [])\<rparr>"

datatype screen =
    ConnectionScreen | SettingsScreen | RoutingScreen | ActivityScreen | ProxiesScreen | ConfigurationScreen

definition SCREENS :: "(string \<times> screen) list" where
  "SCREENS = [(''connection'', ConnectionScreen), (''settings'', SettingsScreen), (''routing'', RoutingScreen),
     (''activity'', ActivityScreen), (''proxies'', ProxiesScreen), (''configuration'', ConfigurationScreen)]"

text \<open>The screen of the tab, and the overlay over it.\<close>

definition shown_screens :: "string \<Rightarrow> screen list" where
  "shown_screens tab = map snd (filter (\<lambda>s. fst s = tab) SCREENS)"

datatype overlay = WelcomeOverlay | SyncOverlay

definition shown_overlay :: "shell \<Rightarrow> overlay option" where
  "shown_overlay v =
     (if sh_onboarding v = Some ''welcome'' then Some WelcomeOverlay
      else if sh_onboarding v = Some ''sync'' then Some SyncOverlay else None)"

text \<open>The suggestions of subscriptions wait for the settings and for the first start to be over.\<close>

definition suggestions_shown :: "bool \<Rightarrow> shell \<Rightarrow> bool" where
  "suggestions_shown settings_loaded v \<longleftrightarrow> settings_loaded \<and> or_else (sh_onboarding v) [] = []"

definition finish_first_start :: "shell \<Rightarrow> shell" where
  "finish_first_start v = v\<lparr>sh_onboarding := None, sh_tab := ''connection''\<rparr>"

text \<open>Back on any other tab returns to Connection.\<close>

definition back_takes_tab :: "shell \<Rightarrow> bool" where
  "back_takes_tab v \<longleftrightarrow> sh_tab v \<noteq> ''connection''"

definition back_on_tab :: "shell \<Rightarrow> shell" where
  "back_on_tab v = v\<lparr>sh_tab := ''connection''\<rparr>"

text \<open>A section of the settings opened from elsewhere: the section and how often one was.\<close>

definition open_settings_section :: "string \<Rightarrow> shell \<times> (string \<times> nat) option \<Rightarrow> shell \<times> (string \<times> nat) option" where
  "open_settings_section i s =
     (case s of (v, current) \<Rightarrow> (v\<lparr>sh_tab := ''settings''\<rparr>, Some (i, (case current of Some c \<Rightarrow> snd c | None \<Rightarrow> 0) + 1)))"

text \<open>Whether latencies are measured now and again, and how often, in milliseconds.\<close>

definition ping_interval :: "bool \<Rightarrow> string \<Rightarrow> nat option" where
  "ping_interval page_visible tab =
     (if \<not> page_visible \<or> tab \<noteq> ''proxies'' \<and> tab \<noteq> ''connection'' then None
      else Some (if tab = ''proxies'' then 30000 else 120000))"

text \<open>When the address seen from outside is asked for: first, then again.\<close>

definition IP_RECHECK_MS :: nat where
  "IP_RECHECK_MS = 5 * 60 * 1000"

definition ip_schedule :: "bool \<Rightarrow> bool \<Rightarrow> (nat \<times> nat) option" where
  "ip_schedule on enabled = (if \<not> on \<or> \<not> enabled then None else Some (2500, IP_RECHECK_MS))"

definition update_schedule :: "bool \<Rightarrow> bool option \<Rightarrow> (nat \<times> nat) option" where
  "update_schedule settings_loaded wanted =
     (if settings_loaded \<and> wanted \<noteq> Some False then Some (5000, 24 * 60 * 60 * 1000) else None)"

definition unsupported_answered :: "string + (string \<rightharpoonup> string) option \<Rightarrow> (string \<rightharpoonup> string)" where
  "unsupported_answered answer = (case answer of Inr (Some result) \<Rightarrow> result | _ \<Rightarrow> Map.empty)"

section \<open>The server picker and the old top bar\<close>

datatype picker_icon = FlagOf string | AutoIcon | ServerIcon

text \<open>The picker's button: its spoken name, its icon, its label, the line below it where it is prominent, its latency.\<close>

record picker_button =
  pb_spoken :: string
  pb_icon :: picker_icon
  pb_label :: string
  pb_hint :: "string option"
  pb_ping :: "jsnum option"

definition picker_button :: "texts \<Rightarrow> bool \<Rightarrow> picker_props \<Rightarrow> picker_button" where
  "picker_button t prominent v =
     (let label = picker_label t v; auto = (pp_mode v = Auto); name = or_else (picker_name v) [];
          connected = (case pp_state v of Some s \<Rightarrow> cs_status s = Connected | None \<Rightarrow> False) in
      \<lparr>pb_spoken = t ''serverPicker.label'' (Some [(''name'', TextParam (if auto then label @ MIDDOT @ t ''proxies.auto'' None else label))]),
       pb_icon = (if name \<noteq> [] then FlagOf name else if auto then AutoIcon else ServerIcon),
       pb_label = label,
       pb_hint = (if prominent \<and> auto
                  then Some (t (if connected then ''proxies.auto'' else if name \<noteq> [] then ''serverPicker.recommended'' else ''proxies.autoHint'') None)
                  else None),
       pb_ping = (case ch_displayed (picker_choice v) of Some p \<Rightarrow> pp_pings v (p_id p) | None \<Rightarrow> None)\<rparr>)"

text \<open>Its menu: the heading, the automatic choice with whether it can be pressed and is on, the last line.\<close>

definition picker_menu :: "texts \<Rightarrow> picker_props \<Rightarrow> string \<times> (string \<times> bool \<times> bool) \<times> string" where
  "picker_menu t v =
     (t (if pp_locked v then ''serverPicker.locked'' else ''proxies.title'') None,
      (t ''proxies.auto'' None, \<not> pp_locked v, pp_mode v = Auto),
      t ''serverPicker.all'' None @ '' '' @ [CHR 0xE2, CHR 0x86, CHR 0x92])"

datatype status_icon = SpinnerIcon | ShieldIcon | DotIcon bool
datatype status_tone = StatusError | StatusConnected | StatusMuted

definition status_look :: "connection_state option \<Rightarrow> status_icon \<times> status_tone" where
  "status_look state =
     (let status = (case state of Some s \<Rightarrow> cs_status s | None \<Rightarrow> Idle);
          blocked = (case state of Some s \<Rightarrow> yes (cs_blocked s) | None \<Rightarrow> False) in
      (if status = Connecting then SpinnerIcon
       else if blocked \<or> status = ErrorStatus then ShieldIcon else DotIcon (status = Connected),
       if blocked \<or> status = ErrorStatus then StatusError else if status = Connected then StatusConnected else StatusMuted))"

text \<open>The configuration named in the top bar.\<close>

fun is_subscription_of :: "string \<Rightarrow> config_source \<Rightarrow> bool" where
  "is_subscription_of d (SubscriptionSource key domain label detail n info) = (domain = d)"
| "is_subscription_of d (ProfileSource key label detail pid) = False"

definition top_bar_source :: "config_source list \<Rightarrow> selection \<Rightarrow> config_source option" where
  "top_bar_source sources s =
     (case find (is_selected s) sources of
        Some source \<Rightarrow> Some source
      | None \<Rightarrow> (case find (is_subscription_of (sel_domain s)) sources of
          Some source \<Rightarrow> Some source | None \<Rightarrow> (case sources of source # _ \<Rightarrow> Some source | [] \<Rightarrow> None)))"

fun top_bar_line :: "texts \<Rightarrow> config_source \<Rightarrow> string \<times> string" where
  "top_bar_line t (SubscriptionSource key domain label detail n info) =
     (label, t ''sources.proxies'' (Some [(''count'', NumParam (Fin (of_nat n)))]))"
| "top_bar_line t (ProfileSource key label detail pid) = (label, detail)"

text \<open>Nothing to choose from: only a text.  Else the button's label, why it cannot be pressed, and the menu.\<close>

definition top_bar :: "texts \<Rightarrow> bool \<Rightarrow> config_source list \<Rightarrow> selection \<Rightarrow> string \<times> string option \<times> (string \<times> string) list" where
  "top_bar t locked sources s =
     (if sources = [] then (t ''topbar.none'' None, None, [])
      else (case top_bar_source sources s of Some source \<Rightarrow> fst (top_bar_line t source) | None \<Rightarrow> t ''topbar.select'' None,
            if locked then Some (t ''topbar.locked'' None) else None, map (top_bar_line t) sources))"

section \<open>The sidebar's state\<close>

text \<open>
  Controlled from outside (\<open>sb_given\<close>) or on its own; what was told to the outside; the sheet of a narrow
  window; the cookie.
\<close>

record sidebar_state =
  sb_given :: "bool option"
  sb_own :: bool
  sb_told :: "bool list"
  sb_handler :: bool
  sb_sheet :: bool
  sb_cookie :: "string option"

definition sidebar_open :: "sidebar_state \<Rightarrow> bool" where
  "sidebar_open s = or_else (sb_given s) (sb_own s)"

definition sidebar_cookie :: "bool \<Rightarrow> string" where
  "sidebar_cookie b = ''sidebar_state='' @ (if b then ''true'' else ''false'') @ ''; path=/; max-age='' @ nat_str (60 * 60 * 24 * 7)"

definition set_sidebar :: "bool \<Rightarrow> sidebar_state \<Rightarrow> sidebar_state" where
  "set_sidebar b s =
     (let s = (if sb_handler s then s\<lparr>sb_told := sb_told s @ [b]\<rparr> else s\<lparr>sb_own := b\<rparr>) in
      s\<lparr>sb_cookie := Some (sidebar_cookie b)\<rparr>)"

definition toggle_sidebar :: "bool \<Rightarrow> sidebar_state \<Rightarrow> sidebar_state" where
  "toggle_sidebar is_mobile s =
     (if is_mobile then s\<lparr>sb_sheet := \<not> sb_sheet s\<rparr> else set_sidebar (\<not> sidebar_open s) s)"

definition sidebar_key :: "bool \<Rightarrow> string \<Rightarrow> bool \<Rightarrow> bool \<Rightarrow> sidebar_state \<Rightarrow> sidebar_state" where
  "sidebar_key is_mobile key meta ctrl s = (if key = ''b'' \<and> (meta \<or> ctrl) then toggle_sidebar is_mobile s else s)"

definition sidebar_word :: "sidebar_state \<Rightarrow> string" where
  "sidebar_word s = (if sidebar_open s then ''expanded'' else ''collapsed'')"

text \<open>How it is drawn: without folding, as a sheet, or beside the page with how it folds.\<close>

datatype sidebar_form = FixedSidebar | SheetSidebar bool | FoldingSidebar string string

definition sidebar_form :: "string \<Rightarrow> bool \<Rightarrow> sidebar_state \<Rightarrow> sidebar_form" where
  "sidebar_form collapsible is_mobile s =
     (if collapsible = ''none'' then FixedSidebar
      else if is_mobile then SheetSidebar (sb_sheet s)
      else FoldingSidebar (sidebar_word s) (if sidebar_open s then [] else collapsible))"

text \<open>A menu button's tooltip shows only beside a folded sidebar; its side follows the reading direction.\<close>

definition tooltip_hidden :: "bool \<Rightarrow> sidebar_state \<Rightarrow> bool" where
  "tooltip_hidden is_mobile s \<longleftrightarrow> sidebar_open s \<or> is_mobile"

definition sidebar_side :: "bool \<Rightarrow> string" where
  "sidebar_side rtl = (if rtl then ''right'' else ''left'')"

definition app_sidebar :: "texts \<Rightarrow> string \<Rightarrow> string \<Rightarrow> (window_buttons + string) \<times> (string \<times> string \<times> bool) list \<times> (string \<times> string \<times> bool)" where
  "app_sidebar t platform active =
     (if is_mac platform then Inl MacControls else Inr ''Nugget'',
      map (\<lambda>(i, label). (i, t label None, active = i)) SIDEBAR_TABS,
      (''settings'', t ''nav.settings'' None, active = ''settings''))"

section \<open>Properties\<close>



text \<open>On a phone every screen is one or two taps away, whatever is open, and one button is always lit.\<close>

lemma bottom_reaches_every_screen:
  assumes "i \<in> set NAV_TABS" "\<not> bn_more v"
  shows "(PressPrimary i \<in> set (bottom_offers v) \<and> bn_tab (bottom_step (PressPrimary i) v) = i)
    \<or> (PressMore \<in> set (bottom_offers v) \<and> PressOther i \<in> set (bottom_offers (bottom_step PressMore v))
        \<and> bottom_step (PressOther i) (bottom_step PressMore v) = v\<lparr>bn_tab := i\<rparr>)"
proof -
  have "i \<in> set (map fst PRIMARY) \<or> i \<in> set (map fst other_tabs)"
    using assms(1) by (auto simp: NAV_TABS_def PRIMARY_def other_tabs_def SIDEBAR_TABS_def NAV_LABELS_def)
  with assms(2) show ?thesis by (auto simp: bottom_offers_def bottom_step_def)
qed

lemma one_button_lit: "length (filter snd (bottom_lit v)) = 1"
  by (auto simp: bottom_lit_def PRIMARY_def in_more_def)

text \<open>Every tab shows exactly one screen.\<close>

lemma one_screen: "tab \<in> set NAV_TABS \<Longrightarrow> length (shown_screens tab) = 1"
  by (auto simp: NAV_TABS_def shown_screens_def SCREENS_def)

text \<open>The sidebar on its own: pressing the shortcut twice leaves it as it was, and the cookie says what is shown.\<close>

lemma shortcut_twice:
  assumes "sb_given s = None" "\<not> sb_handler s"
  shows "sidebar_open (sidebar_key m ''b'' True c (sidebar_key m ''b'' True c s)) = sidebar_open s"
    "sb_sheet (sidebar_key m ''b'' True c (sidebar_key m ''b'' True c s)) = sb_sheet s"
  using assms by (simp_all add: sidebar_key_def toggle_sidebar_def set_sidebar_def sidebar_open_def Let_def)

lemma cookie_says_shown:
  assumes "sb_given s = None" "\<not> sb_handler s"
  shows "sb_cookie (toggle_sidebar False s) = Some (sidebar_cookie (sidebar_open (toggle_sidebar False s)))"
  using assms by (simp add: toggle_sidebar_def set_sidebar_def sidebar_open_def Let_def)

end
