(* ===== verification/Spec2Isabelle.thy ===== *)
theory Spec2Isabelle
  imports Routing_Timeline Rule_Order Routing_Values Profiles Connections Traffic_Apps Ansi App_Hooks
    Session_State Backend Plugin_Host Appearance Proxy_Config Settings_Sync App_Startup Subscriptions
    Setups Server_List Appearance_Store Translation Statistics Appearance_Pickers Dialogs
    Connection_Screen App_Picker Plugins_Panel First_Start Routing_Nodes Lists_Screen
    Connections_Page Window_Layout
begin

text \<open>
  NuggetVPN: the logic of its window.

  NuggetVPN is a VPN client: a Go service (internal/) that runs the proxy cores, and a window
  written in TypeScript and React (frontend/src) that shows and edits the service's state.  The
  window calls the service by the commands of lib/backend.ts and hears its events; everything the
  user decides (which server, which traffic goes where, what the window looks like, what plugins
  may do) passes through the code modelled here.

  What models what (paths below frontend/src):

  \<^item> \<open>Js_Base\<close>, \<open>Js_Order\<close>, \<open>Js_Regex\<close>: the prelude.  Text, numbers, values of unknown shape,
    insertion-ordered maps (locale \<open>keyed_store\<close>, interpreted on \<open>om_get\<close>/\<open>om_set\<close>/\<open>om_delete\<close>),
    stable sorting under a comparison (locales \<open>comparator\<close> and \<open>collation\<close>), regular expressions
    run by derivatives and proved against their language.
  \<^item> \<open>App_Types\<close>: the records of types.ts, which both sides of the service interface share.
  \<^item> \<open>Routing_Graph\<close>, \<open>Routing_Edit\<close>, \<open>Routing_Canvas\<close>, \<open>Routing_History\<close>: the routing editor
    (components/views/RoutingView.tsx).  \<open>Routing_Graph\<close> draws the rules as nodes and wires,
    \<open>Routing_Edit\<close> has one function per edit, \<open>Routing_History\<close> the page with its undo and redo
    stacks and debounced saving, \<open>Routing_Timeline\<close> what undo and redo promise without the stacks,
    \<open>Routing_Page\<close> the rest of the page: hidden destinations, the palette, gestures and keys, live
    counts, rule lists, geo files, loading and saving routing files.
  \<^item> \<open>Rule_Order\<close> and \<open>Routing_Values\<close>: reordering rules (components/routing/order.tsx), editing the
    values of a rule (nodes.tsx) and the ready-made rules (presets.tsx).  \<open>Routing_Nodes\<close>: what the
    nodes show, their editors, and the check of resolver addresses against the service's
    (internal/models/dns.go).
  \<^item> \<open>Profiles\<close>: hooks/use-profiles.ts (servers, their sources, the selection and its repair) and
    lib/server-selection.ts.
  \<^item> \<open>Connections\<close>, \<open>Traffic_Apps\<close>, \<open>Format\<close>: the list of live connections
    (components/views/ConnectionsView.tsx), traffic per application (lib/traffic-apps.ts,
    lib/system-apps.ts) and the texts of amounts, rates and times (lib/format.ts).
  \<^item> \<open>Ansi\<close> and \<open>App_Hooks\<close>: coloured log lines (lib/ansi.ts), the log buffer, the connection state
    and the traffic counters (hooks/use-logs.ts, use-connection.ts, use-traffic.ts).
  \<^item> \<open>Session_State\<close>: state that outlives a screen (lib/remember.ts), the system's Back
    (lib/back.ts), icons asked for once (lib/app-icons.ts), branding and hooks/use-proliant.ts.
  \<^item> \<open>Backend\<close>: the table of the service's commands and events (lib/backend.ts).
  \<^item> \<open>Plugin_Host\<close>: lib/plugin-host.ts, the window's side of plugins.
  \<^item> \<open>Appearance_Fonts\<close> and \<open>Appearance\<close>: lib/appearance.ts, fonts, themes, layout, loading and
    saving of the preferences and what is written to the page.

  \<^item> \<open>App_Shell\<close>, \<open>App_Startup\<close>, \<open>Settings_Sync\<close>: the shell (App.tsx).  \<open>App_Shell\<close> has its state and its
    actions - connecting, adding, deleting, refreshing, copying, latencies, the proxy chain, the
    pickers of servers, the screens and arrow keys; \<open>App_Startup\<close> the start, the remembered
    selection and the offers of links and updates; \<open>Settings_Sync\<close> how edits of the settings and the
    service's answers interleave.
  \<^item> \<open>Subscriptions\<close>: components/subscription-usage.tsx and subscription-suggestions.tsx with the
    shell's warnings and its refresh schedule.
  \<^item> \<open>Setups\<close>: routing setups and their weekly schedule (components/routing/setups.tsx, schedule.tsx)
    over the service's side of them (internal/models/setups.go, schedule.go, internal/app/routing.go).
  \<^item> \<open>Server_List\<close>: search, order, sections and picking of several cards
    (components/views/ProxiesView.tsx, ConfigurationView.tsx); \<open>Lists_Screen\<close>: what their cards and
    bars show, and every step of the list of servers with the calls it makes.

  \<^item> \<open>Uri_Text\<close> and \<open>Proxy_Config\<close>: lib/proxy-config.ts, the form a server is edited in, reading
    links and sing-box outbounds into it and writing them back.

  \<^item> \<open>Theme_Presets\<close>, \<open>Appearance_Store\<close>, \<open>Appearance_Pickers\<close>: the built-in themes with their
    picker and editor (lib/themes.ts, settings/theme-picker.tsx, theme-editor.tsx), the store of the
    look and the page before the first frame (appearance-provider.tsx, lib/monet.ts), and the pickers
    of fonts, motion, accent, layout, units and colours (settings/appearance-options.tsx,
    ui/color-picker.tsx).
  \<^item> \<open>Translation\<close>: lib/i18n.tsx, the language and what a message says.
  \<^item> \<open>Settings_Screen\<close> and \<open>Settings_Panels\<close>: views/SettingsView.tsx (sections, search, switches, the
    chain of hops) and the panels of settings/ (user agent, cores, networks, shortcut, updates, backup)
    with the speed test.
  \<^item> \<open>Statistics\<close>: views/StatisticsView.tsx, its reads and the numbers of its charts.
  \<^item> \<open>Country_Flags\<close>: lib/flags.ts, a server's country and its name without the flag.
  \<^item> \<open>Connection_Screen\<close>: views/ConnectionView.tsx, the announcement and the server picker.
  \<^item> \<open>Dialogs\<close>: AddModal.tsx, EditProxyDialog.tsx, EditConfigDialog.tsx, ExportDialog.tsx and qr.tsx.
  \<^item> \<open>App_Picker\<close>: routing/app-picker.tsx.  \<open>Plugins_Panel\<close>: plugins-provider.tsx and
    settings/plugins.tsx.  \<open>First_Start\<close>: Welcome.tsx, Onboarding.tsx, the log and activity pages.
  \<^item> \<open>Connections_Page\<close>: the page around the list of \<open>Connections\<close>: the place that is open, searching and
    sorting, every cell, the reading effect with its cancelled runs, pausing and closing.
  \<^item> \<open>Window_Layout\<close>: which bars the window has in each layout and what each carries (App.tsx,
    components/layout), the phone's navigation, the screen and overlay shown, the schedules of the
    shell's effects, and the state of the sidebar (components/ui/sidebar.tsx).

  How the state is modelled.  A React component's or hook's state is a record; a handler is a
  function from the state (and the event) to the state and the effects it asks for; a module's
  variables are a record passed through.  Awaited answers of the service, the clock, random texts
  and the browser's lookups are arguments, so each function is one atomic step of the code
  between two awaits or, where the answer only ends the handler, the handler with its answer.

  What is shown.  For the editor: the drawing has no loose wires, each edit changes exactly what
  it says and keeps ids distinct, and a run of changes can be undone and redone exactly.  For the
  selection: it is valid after every operation.  For the lists: totals are preserved by grouping,
  sorting is stable, buffers hold the newest entries.  For plugins: permission safety,
  noninterference of the credentials, spacing of notifications.  For preferences: whatever is
  stored, what is loaded is well formed, and saving and loading is the identity except for the
  user's own themes, which the code loses.  For links: what is written from a form reads
  back as that form (VLESS, VMess, sing-box outbounds), and where it does not (Shadowsocks
  passwords with a colon) what is lost.  For the shell: a quiet
  window shows what is stored, a restart resumes the selection, the chain has no dead hops.  For
  setups: the stored ones are well formed, switching and deleting lose no other graph, and the
  schedule's times are the stretches of the week they name.  For the screens: searching the
  settings finds what it should, the shares of the statistics fill the circle, an export shown is
  the one asked for, the prompt for a plugin tells all it asks, and removing it leaves nothing, the close button of the
  connections closes what is shown, and every layout of the window is complete.

  Bounds and fuel.  Every function is total: recursion is structural or has a measure (trimming,
  the exponent of small rates, padding, which is also shown to be what its \<open>while\<close> loop returns), so
  no fuel is used.  The undo stack is bounded by its limit of 100,
  the log by the limit in the settings, closed connections by thirty seconds.

  Modelling choices that matter.  Numbers that the code keeps finite are exact rationals or
  integers: rounding of doubles is not modelled.  Text is a list of bytes; case folding and white
  space are modelled for ASCII and for the white space of the language.  Comparison of names under
  a locale is the locale \<open>collation\<close>, with code-unit order as its interpretation.

  Not modelled.  The Go service (internal/) but for routing setups, the native shells (build/,
  main.go, cmd/) and the generated bindings: another language.  Markup, styling and animation of
  components: what they look like, not what they say or decide.  The
  catalogues of messages (locales/): texts only, an argument of \<open>Translation\<close>.  lib/color.ts, and
  \<open>toOklch\<close> and \<open>templateFrom\<close> of lib/appearance.ts: real powers, cosines and arc tangents in floating
  point, which have no exact counterpart here.
\<close>

end
